(* ===== verification/Prelude.thy ===== *)
theory Prelude
  imports
    Complex_Main
    "HOL-Library.Char_ord"
    "HOL-Library.List_Lexorder"
    "HOL-Library.Product_Lexorder"
    "HOL-Library.Multiset"
begin

text \<open>
  What every component shares: the errors of \<^verbatim>\<open>src/src/sastt/domain/errors.py\<close> and the result
  type that carries them, the fragments of Python the source uses (rounding, slices, stable
  sorting, substring tests, decimal printing) and the generic lemmas on results, folds with
  errors and lists that the component proofs rest on.

  A call that may raise has type \<open>'a res\<close>: \<open>Inl e\<close> is the exception, \<open>Inr v\<close> the returned value.
  Messages and detail dictionaries of exceptions are not modelled; their classes and codes are.
  Python floats are read as real numbers (rounding of float arithmetic is not modelled);
  Python integers are \<open>int\<close>; strings are lists of bytes of their UTF-8 encoding.
\<close>

section \<open>Errors\<close>

datatype error_code =
    UNSUPPORTED_AUDIO_FORMAT
  | INVALID_CHANNEL_LAYOUT
  | AUDIO_TOO_LONG
  | MODEL_NOT_READY
  | MODEL_LICENSE_DISABLED
  | UNSUPPORTED_CONCURRENCY
  | SEPARATION_FAILED
  | VOICE_ID_UNCALIBRATED
  | INSUFFICIENT_SPEECH_FOR_EMBEDDING
  | QUEUE_OVERLOADED
  | TENANT_ACCESS_DENIED
  | SESSION_CLOCK_DISCONTINUITY

text \<open>
  The subclasses of \<open>SasttError\<close>; \<open>PlainSasttError\<close> is the base class itself and
  \<open>RedisQueueOverloadedError\<close> the class that \<^verbatim>\<open>adapters/queue/redis_queue.py\<close> defines for itself.
\<close>

datatype sastt_error =
    PlainSasttError
  | UnsupportedAudioFormatError
  | InvalidChannelLayoutError
  | AudioTooLongError
  | ModelNotReadyError
  | ModelLicenseDisabledError
  | UnsupportedConcurrencyError
  | SeparationFailedError
  | VoiceIdUncalibratedError
  | InsufficientSpeechForEmbeddingError
  | QueueOverloadedError
  | TenantAccessDeniedError
  | SessionClockDiscontinuityError
  | ConfigurationError
  | InvalidStateTransitionError
  | SchemaInvariantError
  | IdempotencyConflictError
  | CancelledError
  | RedisQueueOverloadedError

text \<open>The class attribute \<open>code\<close>; classes that do not set it inherit \<open>None\<close>.\<close>

fun code_of :: "sastt_error \<Rightarrow> error_code option" where
  "code_of UnsupportedAudioFormatError = Some UNSUPPORTED_AUDIO_FORMAT"
| "code_of InvalidChannelLayoutError = Some INVALID_CHANNEL_LAYOUT"
| "code_of AudioTooLongError = Some AUDIO_TOO_LONG"
| "code_of ModelNotReadyError = Some MODEL_NOT_READY"
| "code_of ModelLicenseDisabledError = Some MODEL_LICENSE_DISABLED"
| "code_of UnsupportedConcurrencyError = Some UNSUPPORTED_CONCURRENCY"
| "code_of SeparationFailedError = Some SEPARATION_FAILED"
| "code_of VoiceIdUncalibratedError = Some VOICE_ID_UNCALIBRATED"
| "code_of InsufficientSpeechForEmbeddingError = Some INSUFFICIENT_SPEECH_FOR_EMBEDDING"
| "code_of QueueOverloadedError = Some QUEUE_OVERLOADED"
| "code_of TenantAccessDeniedError = Some TENANT_ACCESS_DENIED"
| "code_of SessionClockDiscontinuityError = Some SESSION_CLOCK_DISCONTINUITY"
| "code_of _ = None"

text \<open>
  Every exception of the model: the built-in classes the source raises, an error the database
  reports (a violated constraint), one a client library raises, \<open>HTTPException\<close> with its status, a
  broken connection, or a domain error.
  \<open>Diverges\<close> is no exception of the program: it stands for a call that would not return.
\<close>

datatype exn =
    ValueError
  | TypeError
  | KeyError
  | IndexError
  | AssertionError
  | ZeroDivisionError
  | StructError
  | DatabaseError
  | ClientError
  | HttpError int
  | AttributeError
  | WebSocketDisconnect
  | Diverges
  | Sastt sastt_error

type_synonym 'a res = "exn + 'a"

section \<open>Results\<close>

definition bindR :: "'e + 'a \<Rightarrow> ('a \<Rightarrow> 'e + 'b) \<Rightarrow> 'e + 'b" where
  "bindR r f = (case r of Inl e \<Rightarrow> Inl e | Inr v \<Rightarrow> f v)"

definition guardR :: "bool \<Rightarrow> 'e \<Rightarrow> 'e + unit" where
  "guardR b e = (if b then Inl e else Inr ())"

fun foldR :: "('x \<Rightarrow> 's \<Rightarrow> 'e + 's) \<Rightarrow> 'x list \<Rightarrow> 's \<Rightarrow> 'e + 's" where
  "foldR f [] s = Inr s"
| "foldR f (x # xs) s = bindR (f x s) (foldR f xs)"

fun mapR :: "('x \<Rightarrow> 'e + 'y) \<Rightarrow> 'x list \<Rightarrow> 'e + 'y list" where
  "mapR f [] = Inr []"
| "mapR f (x # xs) = bindR (f x) (\<lambda>y. bindR (mapR f xs) (\<lambda>ys. Inr (y # ys)))"

named_theorems result_simps \<open>rewriting of results\<close>

lemma bindR_Inl [simp, result_simps]: "bindR (Inl e) f = Inl e"
  by (simp add: bindR_def)

lemma bindR_Inr [simp, result_simps]: "bindR (Inr v) f = f v"
  by (simp add: bindR_def)

lemma bindR_eq_Inr [result_simps]:
  "bindR r f = Inr y \<longleftrightarrow> (\<exists>v. r = Inr v \<and> f v = Inr y)"
  by (cases r) auto

lemma bindR_eq_Inl [result_simps]:
  "bindR r f = Inl e \<longleftrightarrow> r = Inl e \<or> (\<exists>v. r = Inr v \<and> f v = Inl e)"
  by (cases r) auto

lemma bindR_InrE:
  assumes "bindR r f = Inr y"
  obtains v where "r = Inr v" and "f v = Inr y"
  using assms by (cases r) auto

lemma bindR_assoc: "bindR (bindR r f) g = bindR r (\<lambda>x. bindR (f x) g)"
  by (cases r) auto

lemma guardR_eq_Inr [simp, result_simps]: "guardR b e = Inr u \<longleftrightarrow> \<not> b"
  by (simp add: guardR_def)

lemma guardR_False [simp]: "guardR False e = Inr ()"
  by (simp add: guardR_def)

lemma guardR_True [simp]: "guardR True e = Inl e"
  by (simp add: guardR_def)

lemma foldR_append: "foldR f (xs @ ys) s = bindR (foldR f xs s) (foldR f ys)"
proof (induction xs arbitrary: s)
  case (Cons x xs)
  show ?case by (cases "f x s") (simp_all add: Cons.IH)
qed simp

text \<open>An invariant that every step keeps holds after the whole loop.\<close>

lemma foldR_invariant:
  assumes "foldR f xs s = Inr s'" and "P s"
    and "\<And>x s s'. x \<in> set xs \<Longrightarrow> P s \<Longrightarrow> f x s = Inr s' \<Longrightarrow> P s'"
  shows "P s'"
  using assms
proof (induction xs arbitrary: s)
  case Nil
  then show ?case by simp
next
  case (Cons x xs)
  from Cons.prems(1) obtain t where t: "f x s = Inr t" "foldR f xs t = Inr s'"
    by (auto elim: bindR_InrE)
  from Cons.prems(3)[of x s t] Cons.prems(2) t(1) have "P t" by simp
  show ?case
    by (rule Cons.IH[OF t(2) \<open>P t\<close>]) (use Cons.prems(3) in auto)
qed

text \<open>A reflexive, transitive relation that every step respects relates start and end.\<close>

lemma foldR_relation:
  assumes "foldR f xs s = Inr s'" and "P s"
    and "\<And>s. R s s" and "\<And>s t u. R s t \<Longrightarrow> R t u \<Longrightarrow> R s u"
    and "\<And>x s s'. x \<in> set xs \<Longrightarrow> P s \<Longrightarrow> f x s = Inr s' \<Longrightarrow> P s' \<and> R s s'"
  shows "P s' \<and> R s s'"
  by (rule foldR_invariant[where P = "\<lambda>t. P t \<and> R s t", OF assms(1)])
    (use assms(2-) in blast)+

lemma mapR_length: "mapR f xs = Inr ys \<Longrightarrow> length ys = length xs"
  by (induction xs arbitrary: ys) (auto simp: bindR_eq_Inr)

lemma mapR_nth: "mapR f xs = Inr ys \<Longrightarrow> i < length xs \<Longrightarrow> f (xs ! i) = Inr (ys ! i)"
  by (induction xs arbitrary: ys i) (auto simp: bindR_eq_Inr nth_Cons split: nat.splits)

lemma mapR_set: "mapR f xs = Inr ys \<Longrightarrow> y \<in> set ys \<Longrightarrow> \<exists>x\<in>set xs. f x = Inr y"
  by (induction xs arbitrary: ys) (auto simp: bindR_eq_Inr)

lemma mapR_total: "(\<And>x. x \<in> set xs \<Longrightarrow> f x = Inr (g x)) \<Longrightarrow> mapR f xs = Inr (map g xs)"
  by (induction xs) auto

lemma mapR_list_all2:
  "mapR f xs = Inr ys \<Longrightarrow> list_all2 (\<lambda>x y. f x = Inr y) xs ys"
  by (induction xs arbitrary: ys) (auto simp: bindR_eq_Inr)

section \<open>Fragments of Python\<close>

text \<open>\<open>int(x)\<close> for a float.\<close>

definition trunc :: "real \<Rightarrow> int" where
  "trunc x = (if x < 0 then \<lceil>x\<rceil> else \<lfloor>x\<rfloor>)"

text \<open>\<open>round(x)\<close> for a float: to the nearest integer, halves to the even one.\<close>

definition py_round :: "real \<Rightarrow> int" where
  "py_round x =
     (let f = \<lfloor>x\<rfloor>; d = x - of_int f
      in if d < 1 / 2 then f
         else if 1 / 2 < d then f + 1
         else if even f then f else f + 1)"

lemma py_round_of_int [simp]: "py_round (of_int n) = n"
  by (simp add: py_round_def)

lemma py_round_numeral [simp]: "py_round (numeral n) = numeral n"
  using py_round_of_int[of "numeral n"] by simp

lemma py_round_0 [simp]: "py_round 0 = 0" and py_round_1 [simp]: "py_round 1 = 1"
  using py_round_of_int[of 0] py_round_of_int[of 1] by simp_all

lemma py_round_error: "\<bar>of_int (py_round x) - x\<bar> \<le> 1 / 2"
proof -
  have "of_int \<lfloor>x\<rfloor> \<le> x" and "x < of_int \<lfloor>x\<rfloor> + 1"
    by linarith+
  then show ?thesis
    by (auto simp: py_round_def Let_def abs_if) linarith+
qed

lemma py_round_nonneg: "0 \<le> x \<Longrightarrow> 0 \<le> py_round x"
  unfolding py_round_def Let_def by auto

text \<open>\<open>xs[-n:]\<close> for any integer \<open>n\<close>: \<open>xs[-0:]\<close> is the whole list.\<close>

definition py_last :: "int \<Rightarrow> 'a list \<Rightarrow> 'a list" where
  "py_last n xs = drop (if n \<le> 0 then nat (- n) else length xs - nat n) xs"

lemma py_last_0 [simp]: "py_last 0 xs = xs"
  by (simp add: py_last_def)

lemma py_last_suffix: "\<exists>k. py_last n xs = drop k xs"
  by (auto simp: py_last_def)

text \<open>\<open>str(n)\<close> for a non-negative integer, and \<open>sep.join(xs)\<close>.\<close>

fun digits :: "nat \<Rightarrow> string" where
  "digits n = (if n < 10 then [char_of (48 + n)] else digits (n div 10) @ [char_of (48 + n mod 10)])"

declare digits.simps [simp del]

text \<open>\<open>str(n)\<close> of an integer, and the zero-padded \<open>f"{n:0wd}"\<close> of a non-negative one.\<close>

definition str_int :: "int \<Rightarrow> string" where
  "str_int n = (if n < 0 then CHR ''-'' # digits (nat (- n)) else digits (nat n))"

definition zero_pad :: "nat \<Rightarrow> nat \<Rightarrow> string" where
  "zero_pad w n = replicate (w - length (digits n)) (CHR ''0'') @ digits n"

text \<open>Reading decimal digits back.\<close>

definition digit_value :: "char \<Rightarrow> nat" where
  "digit_value c = of_char c - 48"

definition undigits :: "string \<Rightarrow> nat" where
  "undigits s = foldl (\<lambda>a c. 10 * a + digit_value c) 0 s"

definition is_digit :: "char \<Rightarrow> bool" where
  "is_digit c \<longleftrightarrow> 48 \<le> (of_char c :: nat) \<and> (of_char c :: nat) \<le> 57"

lemma undigits_digits [simp]: "undigits (digits n) = n"
proof (induction n rule: digits.induct)
  case (1 n)
  show ?case
    by (subst digits.simps) (use 1 in \<open>auto simp: undigits_def digit_value_def\<close>)
qed

lemma digits_are_digits: "c \<in> set (digits n) \<Longrightarrow> is_digit c"
proof (induction n rule: digits.induct)
  case (1 n)
  show ?case
  proof (cases "n < 10")
    case True
    then show ?thesis using 1(2) by (simp add: digits.simps[of n] is_digit_def)
  next
    case False
    then have "c \<in> set (digits (n div 10)) \<or> c = char_of (48 + n mod 10)"
      using 1(2) by (auto simp: digits.simps[of n])
    then show ?thesis using 1(1)[OF False] by (auto simp: is_digit_def)
  qed
qed

lemma undigits_zeros: "undigits (replicate k (CHR ''0'') @ s) = undigits s"
proof -
  have "foldl (\<lambda>a c. 10 * a + digit_value c) 0 (replicate k (CHR ''0'')) = 0"
    by (induction k) (auto simp: digit_value_def)
  then show ?thesis by (simp add: undigits_def)
qed

lemma undigits_zero_pad [simp]: "undigits (zero_pad w n) = n"
  by (simp add: zero_pad_def undigits_zeros)

lemma zero_pad_digits: "c \<in> set (zero_pad w n) \<Longrightarrow> is_digit c"
  by (auto simp: zero_pad_def digits_are_digits) (simp add: is_digit_def)

lemma length_digits_less: "n < 10 ^ w \<Longrightarrow> 0 < w \<Longrightarrow> length (digits n) \<le> w"
proof (induction n arbitrary: w rule: digits.induct)
  case (1 n)
  show ?case
  proof (cases "n < 10")
    case True
    then show ?thesis using 1 by (subst digits.simps) simp
  next
    case False
    with 1(2) obtain v where w: "w = Suc v" "0 < v"
      by (cases w; cases "w - 1") auto
    with 1(2) have "n div 10 < 10 ^ v" by (simp add: less_mult_imp_div_less mult.commute)
    from 1(1)[OF False this w(2)] show ?thesis
      by (subst digits.simps) (use w False in simp)
  qed
qed

lemma length_zero_pad: "n < 10 ^ w \<Longrightarrow> 0 < w \<Longrightarrow> length (zero_pad w n) = w"
  using length_digits_less[of n w] by (simp add: zero_pad_def)

lemma digits_inj: "digits m = digits n \<Longrightarrow> m = n"
  using undigits_digits by metis

lemma str_int_inj: "str_int m = str_int n \<Longrightarrow> m = n"
proof -
  have minus: "CHR ''-'' # s \<noteq> digits k" for s k
  proof
    assume "CHR ''-'' # s = digits k"
    then have "CHR ''-'' \<in> set (digits k)" by (metis list.set_intros(1))
    from digits_are_digits[OF this] show False by (simp add: is_digit_def)
  qed
  assume "str_int m = str_int n"
  then show "m = n"
    using minus minus[symmetric] by (auto simp: str_int_def dest!: digits_inj split: if_splits)
qed

fun str_opt :: "string option \<Rightarrow> string" where
  "str_opt None = ''None''"
| "str_opt (Some s) = s"

fun join :: "string \<Rightarrow> string list \<Rightarrow> string" where
  "join sep [] = []"
| "join sep [x] = x"
| "join sep (x # y # ys) = x @ sep @ join sep (y # ys)"

text \<open>\<open>s.strip()\<close>, for the ASCII white space.\<close>

definition is_space :: "char \<Rightarrow> bool" where
  "is_space c \<longleftrightarrow> of_char c \<in> {9::nat, 10, 11, 12, 13, 28, 29, 30, 31, 32}"

definition strip :: "string \<Rightarrow> string" where
  "strip s = rev (dropWhile is_space (rev (dropWhile is_space s)))"

definition py_endswith :: "string \<Rightarrow> string \<Rightarrow> bool" where
  "py_endswith s suf \<longleftrightarrow> length suf \<le> length s \<and> drop (length s - length suf) s = suf"

definition py_startswith :: "string \<Rightarrow> string \<Rightarrow> bool" where
  "py_startswith s pre \<longleftrightarrow> take (length pre) s = pre"

text \<open>\<open>s.split()\<close>: the maximal runs of non-space characters.\<close>

fun split_ws :: "string \<Rightarrow> string list" where
  "split_ws [] = []"
| "split_ws (c # cs) =
     (if is_space c then split_ws cs
      else (case cs of
          [] \<Rightarrow> [[c]]
        | d # _ \<Rightarrow>
            (if is_space d then [c] # split_ws cs
             else (case split_ws cs of [] \<Rightarrow> [[c]] | w # ws \<Rightarrow> (c # w) # ws))))"

text \<open>First element satisfying a test, \<open>next((x for x in xs if p(x)), None)\<close>.\<close>

abbreviation first_such :: "('a \<Rightarrow> bool) \<Rightarrow> 'a list \<Rightarrow> 'a option" where
  "first_such \<equiv> List.find"

text \<open>\<open>max(xs)\<close> and \<open>min(xs)\<close> of a non-empty list.\<close>

fun list_max :: "'a::linorder \<Rightarrow> 'a list \<Rightarrow> 'a" where
  "list_max m [] = m"
| "list_max m (x # xs) = list_max (max m x) xs"

fun list_min :: "'a::linorder \<Rightarrow> 'a list \<Rightarrow> 'a" where
  "list_min m [] = m"
| "list_min m (x # xs) = list_min (min m x) xs"

lemma list_max_eq_Max: "list_max m xs = Max (insert m (set xs))"
proof (induction xs arbitrary: m)
  case (Cons x xs)
  show ?case
    using Cons[of "max m x"]
    by (cases "set xs = {}") (simp_all add: max.assoc)
qed simp

lemma list_min_eq_Min: "list_min m xs = Min (insert m (set xs))"
proof (induction xs arbitrary: m)
  case (Cons x xs)
  show ?case
    using Cons[of "min m x"]
    by (cases "set xs = {}") (simp_all add: min.assoc)
qed simp

lemma list_max_ge: "y = m \<or> y \<in> set xs \<Longrightarrow> y \<le> list_max m xs"
  by (simp add: list_max_eq_Max)

lemma list_max_in: "list_max m xs = m \<or> list_max m xs \<in> set xs"
  using Max_in[of "insert m (set xs)"] by (simp add: list_max_eq_Max)

lemma list_min_le: "y = m \<or> y \<in> set xs \<Longrightarrow> list_min m xs \<le> y"
  by (simp add: list_min_eq_Min)

lemma list_min_in: "list_min m xs = m \<or> list_min m xs \<in> set xs"
  using Min_in[of "insert m (set xs)"] by (simp add: list_min_eq_Min)

section \<open>Lists\<close>

text \<open>The distinct elements in the order of their first occurrence, as the keys of a \<open>dict\<close>.\<close>

fun nub :: "'a list \<Rightarrow> 'a list" where
  "nub [] = []"
| "nub (x # xs) = x # filter (\<lambda>y. y \<noteq> x) (nub xs)"

lemma set_nub [simp]: "set (nub xs) = set xs"
  by (induction xs) auto

lemma distinct_nub [simp]: "distinct (nub xs)"
  by (induction xs) auto

text \<open>An optional string that is present and not empty is true in a condition.\<close>

fun truthy :: "string option \<Rightarrow> bool" where
  "truthy None = False"
| "truthy (Some s) = (s \<noteq> [])"

fun or_else :: "string option \<Rightarrow> string \<Rightarrow> string" where
  "or_else None d = d"
| "or_else (Some s) d = (if s = [] then d else s)"

lemma set_map_filterD: "x \<in> set (List.map_filter f xs) \<Longrightarrow> \<exists>y\<in>set xs. f y = Some x"
  by (induction xs) (auto simp: map_filter_simps split: option.splits)

lemma map_filter_all: "(\<And>k y. f k = Some y \<Longrightarrow> P y) \<Longrightarrow> \<forall>y\<in>set (List.map_filter f xs). P y"
  using set_map_filterD by fast

lemma distinct_singleton: "distinct xs \<Longrightarrow> set xs = {e} \<Longrightarrow> xs = [e]"
  by (cases xs; cases "tl xs") auto

lemma find_SomeD: "List.find P xs = Some x \<Longrightarrow> x \<in> set xs \<and> P x"
  by (auto simp: find_Some_iff)

lemma find_NoneD: "List.find P xs = None \<Longrightarrow> x \<in> set xs \<Longrightarrow> \<not> P x"
  by (auto simp: find_None_iff)

lemma sum_list_const_le: "(\<And>x. x \<in> set xs \<Longrightarrow> (0::int) \<le> f x) \<Longrightarrow> 0 \<le> sum_list (map f xs)"
  by (induction xs) auto

lemma split_at_separator:
  assumes "a @ x # b = c @ x # d" and "x \<notin> set a" and "x \<notin> set c"
  shows "a = c \<and> b = d"
proof -
  have take: "takeWhile (\<lambda>y. y \<noteq> x) (u @ x # v) = u" if "x \<notin> set u" for u v
    using that by (induction u) auto
  have "a = c"
    using take[OF assms(2), of b] take[OF assms(3), of d] assms(1) by simp
  with assms(1) show ?thesis by simp
qed

lemma str_int_chars: "c \<in> set (str_int n) \<Longrightarrow> c = CHR ''-'' \<or> is_digit c"
  using digits_are_digits by (auto simp: str_int_def split: if_splits)

text \<open>Sorting by a key: a permutation in key order that keeps the order of equal keys.\<close>

lemma sort_key_stable_filter: "filter (\<lambda>x. f x = k) (sort_key f xs) = filter (\<lambda>x. f x = k) xs"
  by (rule sort_key_stable)

section \<open>JSON\<close>

text \<open>A serialised value; an object keeps the order of its keys.\<close>

datatype json =
    JNull
  | JBool bool
  | JInt int
  | JReal real
  | JStr string
  | JList "json list"
  | JObj "(string \<times> json) list"

fun json_opt :: "('a \<Rightarrow> json) \<Rightarrow> 'a option \<Rightarrow> json" where
  "json_opt f None = JNull"
| "json_opt f (Some x) = f x"

lemma json_opt_inj:
  assumes "inj f" and "\<And>x. f x \<noteq> JNull"
  shows "json_opt f a = json_opt f b \<longleftrightarrow> a = b"
  using assms assms(2)[symmetric] by (cases a; cases b) (auto dest: injD)

lemma json_opt_str [simp]: "json_opt JStr a = json_opt JStr b \<longleftrightarrow> a = b"
  and json_opt_int [simp]: "json_opt JInt i = json_opt JInt j \<longleftrightarrow> i = j"
  and json_opt_real [simp]: "json_opt JReal x = json_opt JReal y \<longleftrightarrow> x = y"
  by (rule json_opt_inj; simp add: inj_on_def)+

lemma list_all2_concat_split:
  "list_all2 R (concat xss) ys \<Longrightarrow> \<exists>yss. ys = concat yss \<and> list_all2 (list_all2 R) xss yss"
proof (induction xss arbitrary: ys)
  case Nil
  then have "ys = concat [] \<and> list_all2 (list_all2 R) [] []" by simp
  then show ?case by (rule exI)
next
  case (Cons xs xss)
  then have "list_all2 R (xs @ concat xss) ys" by simp
  from iffD1[OF list_all2_append1 this] obtain us vs
    where uv: "ys = us @ vs" "list_all2 R xs us" "list_all2 R (concat xss) vs" by metis
  from Cons.IH[OF uv(3)] obtain yss where y: "vs = concat yss" "list_all2 (list_all2 R) xss yss" by metis
  have "ys = concat (us # yss) \<and> list_all2 (list_all2 R) (xs # xss) (us # yss)" using uv y by simp
  then show ?case by (rule exI)
qed

end
