(* ===== verification/Config.thy ===== *)
theory Config
  imports Prelude "HOL-Library.AList"
begin

text \<open>
  Configuration and startup gates of \<^verbatim>\<open>src/src/sastt/config.py\<close>: the sections with the bounds of
  their fields and their validators, the cross-section checks, model manifests, the environment
  gate, and the loader with its overrides. Reading files and turning YAML into the sections
  (pydantic) are arguments of the loader. A validator raises \<open>ValueError\<close>.
\<close>

section \<open>Environments and manifests\<close>

datatype environment = DEVELOPMENT | STAGING | PRODUCTION

definition is_production :: "environment \<Rightarrow> bool" where
  "is_production e \<longleftrightarrow> e = PRODUCTION"

datatype production_action = Allow | ProductionCandidate | BetaOnly | Phase2 | Experimental | Deny

definition PRODUCTION_ALLOWLIST :: "production_action set" where
  "PRODUCTION_ALLOWLIST = {Allow, ProductionCandidate}"

section \<open>Sections\<close>

record product_config =
  max_session_speakers :: int
  max_supported_concurrent_speakers :: int
  three_source_beta :: bool
  mono_four_five_source_research :: bool
  multichannel_gss :: bool
  target_speaker_extraction :: bool

definition check_product :: "product_config \<Rightarrow> product_config res" where
  "check_product p =
     (if \<not> (1 \<le> max_session_speakers p \<and> max_session_speakers p \<le> 5) then Inl ValueError
      else if \<not> (1 \<le> max_supported_concurrent_speakers p
                  \<and> max_supported_concurrent_speakers p \<le> 5) then Inl ValueError
      else if max_session_speakers p < max_supported_concurrent_speakers p then Inl ValueError
      else if 3 \<le> max_supported_concurrent_speakers p \<and> \<not> three_source_beta p
        then Inl ValueError
      else if 4 \<le> max_supported_concurrent_speakers p
              \<and> \<not> (multichannel_gss p \<or> mono_four_five_source_research p) then Inl ValueError
      else Inr p)"

record audio_config =
  canonical_sample_rate :: int
  preserve_input_channels :: bool
  max_channels :: int
  max_file_hours :: real
  overlap_context_seconds :: real

definition check_audio :: "audio_config \<Rightarrow> audio_config res" where
  "check_audio a =
     (if canonical_sample_rate a \<noteq> 16000 then Inl ValueError
      else if \<not> preserve_input_channels a then Inl ValueError
      else if \<not> (1 \<le> max_channels a \<and> max_channels a \<le> 8) then Inl ValueError
      else if max_file_hours a \<le> 0 then Inl ValueError
      else if overlap_context_seconds a < 0 then Inl ValueError
      else Inr a)"

record streaming_config =
  frame_ms :: int
  ring_buffer_seconds :: real
  diarization_window_seconds :: real
  diarization_hop_seconds :: real
  finalize_after_silence_seconds :: real
  provisional_updates :: bool
  allow_revision :: bool

definition check_streaming :: "streaming_config \<Rightarrow> streaming_config res" where
  "check_streaming s =
     (if \<not> (20 \<le> frame_ms s \<and> frame_ms s \<le> 100) then Inl ValueError
      else if ring_buffer_seconds s \<le> 0 then Inl ValueError
      else if diarization_window_seconds s \<le> 0 then Inl ValueError
      else if diarization_hop_seconds s \<le> 0 then Inl ValueError
      else if finalize_after_silence_seconds s \<le> 0 then Inl ValueError
      else if diarization_window_seconds s < diarization_hop_seconds s then Inl ValueError
      else if ring_buffer_seconds s < diarization_window_seconds s then Inl ValueError
      else if provisional_updates s \<and> \<not> allow_revision s then Inl ValueError
      else Inr s)"

record diarization_config =
  diar_primary :: string
  diar_model_path :: "string option"
  min_speakers :: int
  max_speakers :: int
  regular_output_for_overlap :: bool
  exclusive_output_for_non_overlap_alignment :: bool

definition check_diarization :: "diarization_config \<Rightarrow> diarization_config res" where
  "check_diarization d =
     (if \<not> (1 \<le> min_speakers d \<and> min_speakers d \<le> 5) then Inl ValueError
      else if \<not> (1 \<le> max_speakers d \<and> max_speakers d \<le> 5) then Inl ValueError
      else if max_speakers d < min_speakers d then Inl ValueError
      else if \<not> regular_output_for_overlap d then Inl ValueError
      else Inr d)"

record overlap_detection_config =
  osd_model_path :: "string option"
  onset :: real
  osd_offset :: real
  min_duration_seconds :: real
  merge_gap_seconds :: real

definition check_overlap_detection :: "overlap_detection_config \<Rightarrow> overlap_detection_config res" where
  "check_overlap_detection d =
     (if \<not> (0 \<le> onset d \<and> onset d \<le> 1) then Inl ValueError
      else if \<not> (0 \<le> osd_offset d \<and> osd_offset d \<le> 1) then Inl ValueError
      else if min_duration_seconds d \<le> 0 then Inl ValueError
      else if merge_gap_seconds d < 0 then Inl ValueError
      else if onset d < osd_offset d then Inl ValueError
      else Inr d)"

datatype count_default =
    DefaultFixedTwo
  | DefaultTsVad
  | DefaultMultichannelActivity
  | DefaultMultidecoderResearch
  | DefaultUnknown

record source_count_config =
  production_default :: count_default
  minimum_confidence :: real
  multidecoder_research_model_path :: "string option"

definition check_source_count :: "source_count_config \<Rightarrow> source_count_config res" where
  "check_source_count c =
     (if \<not> (0 \<le> minimum_confidence c \<and> minimum_confidence c \<le> 1) then Inl ValueError else Inr c)"

record separation_config =
  two_source_backend :: string
  two_source_model_path :: "string option"
  three_source_backend :: string
  three_source_model_path :: "string option"
  max_crop_seconds :: real
  stitch_overlap_seconds :: real

definition check_separation :: "separation_config \<Rightarrow> separation_config res" where
  "check_separation s =
     (if max_crop_seconds s \<le> 0 then Inl ValueError
      else if stitch_overlap_seconds s < 0 then Inl ValueError
      else if max_crop_seconds s \<le> stitch_overlap_seconds s then Inl ValueError
      else Inr s)"

record speaker_embedding_config =
  emb_backend :: string
  emb_model_path :: "string option"
  minimum_clean_speech_seconds :: real
  target_clean_speech_seconds :: real
  update_from_separated_sources :: bool

definition check_speaker_embedding ::
  "speaker_embedding_config \<Rightarrow> speaker_embedding_config res" where
  "check_speaker_embedding e =
     (if minimum_clean_speech_seconds e \<le> 0 then Inl ValueError
      else if target_clean_speech_seconds e \<le> 0 then Inl ValueError
      else if target_clean_speech_seconds e < minimum_clean_speech_seconds e then Inl ValueError
      else Inr e)"

datatype short_source_policy = PolicyUnknown | PolicyDiarizationConstrained

datatype embedding_window = WindowOwned | WindowPadded

record source_linking_config =
  sl_accept_threshold :: "real option"
  sl_ambiguous_margin :: "real option"
  continuity_bonus :: real
  min_embedding_ms :: "int option"
  restrict_to_active_clusters :: bool
  sl_short_source_policy :: short_source_policy
  sl_embedding_window :: embedding_window

definition sl_is_calibrated :: "source_linking_config \<Rightarrow> bool" where
  "sl_is_calibrated c \<longleftrightarrow> sl_accept_threshold c \<noteq> None \<and> sl_ambiguous_margin c \<noteq> None"

definition check_source_linking :: "source_linking_config \<Rightarrow> source_linking_config res" where
  "check_source_linking c =
     (if \<not> (0 \<le> continuity_bonus c \<and> continuity_bonus c \<le> 5 / 100) then Inl ValueError
      else if (case min_embedding_ms c of None \<Rightarrow> False | Some m \<Rightarrow> m < 100) then Inl ValueError
      else Inr c)"

record voice_id_config =
  vi_enabled :: bool
  vi_accept_threshold :: "real option"
  vi_ambiguous_margin :: "real option"
  minimum_enrollment_clips :: int
  minimum_total_speech_seconds :: real
  fail_closed_when_uncalibrated :: bool

definition vi_is_calibrated :: "voice_id_config \<Rightarrow> bool" where
  "vi_is_calibrated v \<longleftrightarrow> vi_accept_threshold v \<noteq> None \<and> vi_ambiguous_margin v \<noteq> None"

definition check_voice_id :: "voice_id_config \<Rightarrow> voice_id_config res" where
  "check_voice_id v =
     (if minimum_enrollment_clips v < 3 then Inl ValueError
      else if minimum_total_speech_seconds v < 15 then Inl ValueError
      else if vi_enabled v \<and> \<not> vi_is_calibrated v \<and> \<not> fail_closed_when_uncalibrated v
        then Inl ValueError
      else Inr v)"

datatype language_mode = AutoOnce | FixedLanguage | PerSegment

record language_detection_config =
  lang_mode :: language_mode
  sample_seconds :: real
  min_probability :: real

definition check_language_detection ::
  "language_detection_config \<Rightarrow> language_detection_config res" where
  "check_language_detection l =
     (if sample_seconds l \<le> 0 then Inl ValueError
      else if \<not> (0 \<le> min_probability l \<and> min_probability l \<le> 1) then Inl ValueError
      else Inr l)"

record asr_config =
  realtime_model_path :: "string option"
  final_model_path :: "string option"
  rec_language :: "string option"
  language_detection :: language_detection_config
  word_timestamps :: bool
  compute_type :: string
  final_rescore :: bool

definition check_asr :: "asr_config \<Rightarrow> asr_config res" where
  "check_asr a =
     bindR (check_language_detection (language_detection a)) (\<lambda>_.
       if final_rescore a \<and> \<not> truthy (final_model_path a) then Inl ValueError
       else if lang_mode (language_detection a) = FixedLanguage \<and> \<not> truthy (rec_language a)
         then Inl ValueError
       else Inr a)"

record confidence_config =
  calibration_path :: "string option"
  return_null_when_uncalibrated :: bool

definition cf_is_calibrated :: "confidence_config \<Rightarrow> bool" where
  "cf_is_calibrated c \<longleftrightarrow> calibration_path c \<noteq> None"

definition check_confidence :: "confidence_config \<Rightarrow> confidence_config res" where
  "check_confidence c =
     (if \<not> cf_is_calibrated c \<and> \<not> return_null_when_uncalibrated c then Inl ValueError else Inr c)"

record config =
  product :: product_config
  audio :: audio_config
  streaming :: streaming_config
  diarization :: diarization_config
  overlap_detection :: overlap_detection_config
  source_count :: source_count_config
  separation :: separation_config
  speaker_embedding_cfg :: speaker_embedding_config
  source_linking :: source_linking_config
  voice_id :: voice_id_config
  asr :: asr_config
  confidence :: confidence_config

definition check_cross_section :: "config \<Rightarrow> config res" where
  "check_cross_section c =
     (if max_session_speakers (product c) < max_speakers (diarization c) then Inl ValueError
      else if three_source_beta (product c)
              \<and> \<not> truthy (three_source_model_path (separation c)) then Inl ValueError
      else if mono_four_five_source_research (product c)
              \<and> \<not> truthy (multidecoder_research_model_path (source_count c)) then Inl ValueError
      else Inr c)"

text \<open>Validation of the whole tree: every section, then the cross-section checks.\<close>

definition validate_config :: "config \<Rightarrow> config res" where
  "validate_config c =
     bindR (check_product (product c)) (\<lambda>_.
     bindR (check_audio (audio c)) (\<lambda>_.
     bindR (check_streaming (streaming c)) (\<lambda>_.
     bindR (check_diarization (diarization c)) (\<lambda>_.
     bindR (check_overlap_detection (overlap_detection c)) (\<lambda>_.
     bindR (check_source_count (source_count c)) (\<lambda>_.
     bindR (check_separation (separation c)) (\<lambda>_.
     bindR (check_speaker_embedding (speaker_embedding_cfg c)) (\<lambda>_.
     bindR (check_source_linking (source_linking c)) (\<lambda>_.
     bindR (check_voice_id (voice_id c)) (\<lambda>_.
     bindR (check_asr (asr c)) (\<lambda>_.
     bindR (check_confidence (confidence c)) (\<lambda>_. check_cross_section c))))))))))))"

section \<open>Model manifests\<close>

record model_file =
  mf_path :: string
  mf_sha256 :: string
  mf_size :: int

text \<open>Feeding a digest piece by piece hashes the concatenation of the pieces.\<close>

definition aggregate_sha256 :: "(string \<Rightarrow> string) \<Rightarrow> model_file list \<Rightarrow> string" where
  "aggregate_sha256 sha files =
     sha (concat (map (\<lambda>f. mf_path f @ '':'' @ mf_sha256 f @ [CHR 10]) (sort_key mf_path files)))"

record model_manifest =
  mm_component :: string
  mm_backend :: string
  mm_revision :: "string option"
  mm_sha256 :: "string option"
  mm_files :: "model_file list"
  production_action :: production_action
  mm_enabled :: bool
  requires_flag :: "string option"

definition release_id :: "model_manifest \<Rightarrow> string" where
  "release_id m = mm_backend m @ ''@'' @ or_else (mm_revision m) (or_else (mm_sha256 m) ''unpinned'')"

definition is_pinned :: "model_manifest \<Rightarrow> bool" where
  "is_pinned m \<longleftrightarrow> truthy (mm_revision m) \<or> truthy (mm_sha256 m)"

definition verify_digest :: "(string \<Rightarrow> string) \<Rightarrow> model_manifest \<Rightarrow> bool" where
  "verify_digest sha m =
     (if mm_files m = [] \<or> \<not> truthy (mm_sha256 m) then False
      else Some (aggregate_sha256 sha (mm_files m)) = mm_sha256 m)"

text \<open>The loop over the manifest files, already parsed, in path order.\<close>

definition load_manifests ::
  "('raw \<Rightarrow> model_manifest option) \<Rightarrow> 'raw list \<Rightarrow> (string \<Rightarrow> model_manifest option) res" where
  "load_manifests parse raws =
     foldR (\<lambda>raw manifests.
       case parse raw of
         None \<Rightarrow> Inl (Sastt ConfigurationError)
       | Some m \<Rightarrow>
           if manifests (mm_backend m) \<noteq> None then Inl (Sastt ConfigurationError)
           else Inr (manifests(mm_backend m \<mapsto> m))) raws Map.empty"

text \<open>\<open>getattr(config.product, flag, False)\<close>: an unknown flag is off, a number is on unless 0.\<close>

definition flag_enabled :: "config \<Rightarrow> string option \<Rightarrow> bool" where
  "flag_enabled c flag =
     (case flag of
        None \<Rightarrow> False
      | Some f \<Rightarrow>
          if f = ''max_session_speakers'' then max_session_speakers (product c) \<noteq> 0
          else if f = ''max_supported_concurrent_speakers''
            then max_supported_concurrent_speakers (product c) \<noteq> 0
          else if f = ''three_source_beta'' then three_source_beta (product c)
          else if f = ''mono_four_five_source_research''
            then mono_four_five_source_research (product c)
          else if f = ''multichannel_gss'' then multichannel_gss (product c)
          else if f = ''target_speaker_extraction'' then target_speaker_extraction (product c)
          else False)"

definition active_backends :: "config \<Rightarrow> (string \<times> string) list" where
  "active_backends c =
     [(''diarization'', diar_primary (diarization c)),
      (''embedding'', emb_backend (speaker_embedding_cfg c)),
      (''asr'', ''faster_whisper''),
      (''separation_two_source'', two_source_backend (separation c))]
     @ (if truthy (osd_model_path (overlap_detection c))
        then [(''overlap_detection'', ''pyannote_segmentation_3.0'')] else [])
     @ (if final_rescore (asr c) then [(''asr_final'', ''faster_whisper_large_v3'')] else [])
     @ (if three_source_beta (product c)
        then [(''separation_three_source'', three_source_backend (separation c))] else [])
     @ (if mono_four_five_source_research (product c)
        then [(''separation_research'', ''multidecoder_dprnn'')] else [])
     @ (if multichannel_gss (product c) then [(''separation_multichannel'', ''gpu_gss'')] else [])
     @ (if target_speaker_extraction (product c) then [(''target_extraction'', ''wesep'')] else [])
     @ (if production_default (source_count c) = DefaultMultidecoderResearch
        then [(''source_count'', ''multidecoder_dprnn'')] else [])"

text \<open>The checks of one active backend: \<open>Inr ()\<close> is the loop going on.\<close>

definition check_backend ::
  "config \<Rightarrow> environment \<Rightarrow> (string \<Rightarrow> model_manifest option) \<Rightarrow> string \<Rightarrow> unit res" where
  "check_backend c env manifests backend =
     (case manifests backend of
        None \<Rightarrow> if is_production env then Inl (Sastt ConfigurationError) else Inr ()
      | Some m \<Rightarrow>
          if \<not> mm_enabled m then Inl (Sastt ConfigurationError)
          else if \<not> is_production env then Inr ()
          else if production_action m = Deny then Inl (Sastt ConfigurationError)
          else if production_action m \<notin> PRODUCTION_ALLOWLIST
                  \<and> \<not> flag_enabled c (requires_flag m) then Inl (Sastt ConfigurationError)
          else if \<not> truthy (mm_revision m) \<and> \<not> truthy (mm_sha256 m)
            then Inl (Sastt ConfigurationError)
          else Inr ())"

definition validate_for_environment ::
  "config \<Rightarrow> environment \<Rightarrow> (string \<Rightarrow> model_manifest option) \<Rightarrow> unit res" where
  "validate_for_environment c env manifests =
     (if is_production env \<and> mono_four_five_source_research (product c)
        then Inl (Sastt ConfigurationError)
      else if is_production env
              \<and> production_default (source_count c) = DefaultMultidecoderResearch
        then Inl (Sastt ConfigurationError)
      else if is_production env \<and> vi_enabled (voice_id c) \<and> \<not> vi_is_calibrated (voice_id c)
              \<and> \<not> fail_closed_when_uncalibrated (voice_id c)
        then Inl (Sastt ConfigurationError)
      else foldR (\<lambda>(component, backend) _. check_backend c env manifests backend)
             (active_backends c) ())"

section \<open>Loading\<close>

text \<open>An object of the configuration file; assignment keeps the position of an existing key.\<close>

function deep_merge :: "(string \<times> json) list \<Rightarrow> (string \<times> json) list \<Rightarrow> (string \<times> json) list" where
  "deep_merge base [] = base"
| "deep_merge base ((k, v) # override) =
     deep_merge
       (case v of
          JObj inner \<Rightarrow>
            (case map_of base k of
               Some (JObj current) \<Rightarrow> AList.update k (JObj (deep_merge current inner)) base
             | _ \<Rightarrow> AList.update k v base)
        | _ \<Rightarrow> AList.update k v base) override"
  by pat_completeness auto

termination
  by (relation "measure (\<lambda>(base, ov). size_list (size_prod (\<lambda>_. 0) size) ov)") auto

text \<open>
  \<open>lower\<close> is \<open>str.lower\<close>; \<open>sastt_env\<close> the value of the environment variable, if set.
\<close>

datatype env_argument = EnvGiven environment | EnvText string | EnvAbsent

definition resolve_environment ::
  "(string \<Rightarrow> string) \<Rightarrow> string option \<Rightarrow> env_argument \<Rightarrow> environment res" where
  "resolve_environment lower sastt_env arg =
     (case arg of
        EnvGiven e \<Rightarrow> Inr e
      | _ \<Rightarrow>
          let given = (case arg of EnvText t \<Rightarrow> t | _ \<Rightarrow> []);
              raw = lower (if given \<noteq> [] then given else or_else sastt_env ''development'')
          in if raw = ''development'' then Inr DEVELOPMENT
             else if raw = ''staging'' then Inr STAGING
             else if raw = ''production'' then Inr PRODUCTION
             else Inl (Sastt ConfigurationError))"

text \<open>
  \<open>load_linking_overlay\<close>: \<open>resolved\<close> is the path given or taken from the environment, and \<open>file\<close>
  the parsed file at a path, \<open>None\<close> when there is none.
\<close>

definition load_linking_overlay ::
  "(string \<Rightarrow> (string \<times> json) list option) \<Rightarrow> string option \<Rightarrow> (string \<times> json) list res" where
  "load_linking_overlay file resolved =
     (if \<not> truthy resolved then Inr []
      else case file (or_else resolved []) of
        None \<Rightarrow> Inl (Sastt ConfigurationError)
      | Some raw \<Rightarrow>
          (case map_of raw ''source_linking'' of
             Some (JObj thresholds) \<Rightarrow> Inr [(''source_linking'', JObj thresholds)]
           | _ \<Rightarrow> Inl (Sastt ConfigurationError)))"

text \<open>
  \<open>load_config\<close>: \<open>build\<close> constructs the sections from the merged file without checking them and is
  \<open>None\<close> for an unknown key or a wrong type; the checks are \<open>validate_config\<close>.
\<close>

definition load_config ::
  "((string \<times> json) list \<Rightarrow> config option) \<Rightarrow> (string \<times> json) list option \<Rightarrow>
     (string \<times> json) list \<Rightarrow> environment res \<Rightarrow> (string \<Rightarrow> model_manifest option) res \<Rightarrow> config res" where
  "load_config build file overrides env manifests =
     (case file of
        None \<Rightarrow> Inl (Sastt ConfigurationError)
      | Some raw \<Rightarrow>
          (case build (if overrides \<noteq> [] then deep_merge raw overrides else raw) of
             None \<Rightarrow> Inl (Sastt ConfigurationError)
           | Some c \<Rightarrow>
               (case validate_config c of
                  Inl _ \<Rightarrow> Inl (Sastt ConfigurationError)
                | Inr c' \<Rightarrow>
                    bindR env (\<lambda>e.
                    bindR manifests (\<lambda>m.
                    bindR (validate_for_environment c' e m) (\<lambda>_. Inr c'))))))"

section \<open>The shipped defaults\<close>

definition default_config :: config where
  "default_config =
     \<lparr>product = \<lparr>max_session_speakers = 5, max_supported_concurrent_speakers = 2,
        three_source_beta = False, mono_four_five_source_research = False,
        multichannel_gss = False, target_speaker_extraction = False\<rparr>,
      audio = \<lparr>canonical_sample_rate = 16000, preserve_input_channels = True, max_channels = 8,
        max_file_hours = 4, overlap_context_seconds = 1/2\<rparr>,
      streaming = \<lparr>frame_ms = 40, ring_buffer_seconds = 30, diarization_window_seconds = 10,
        diarization_hop_seconds = 2, finalize_after_silence_seconds = 12/10,
        provisional_updates = True, allow_revision = True\<rparr>,
      diarization = \<lparr>diar_primary = ''pyannote-community-1'',
        diar_model_path = Some ''/models/pyannote-community-1'', min_speakers = 1,
        max_speakers = 5, regular_output_for_overlap = True,
        exclusive_output_for_non_overlap_alignment = True\<rparr>,
      overlap_detection = \<lparr>osd_model_path = Some ''/models/pyannote-segmentation-3.0'',
        onset = 6/10, osd_offset = 1/2, min_duration_seconds = 3/10, merge_gap_seconds = 2/10\<rparr>,
      source_count = \<lparr>production_default = DefaultFixedTwo, minimum_confidence = 3/4,
        multidecoder_research_model_path = None\<rparr>,
      separation = \<lparr>two_source_backend = ''mossformer2_ss_16k'',
        two_source_model_path = Some ''/models/mossformer2-ss-16k'',
        three_source_backend = ''sepformer_libri3mix'', three_source_model_path = None,
        max_crop_seconds = 10, stitch_overlap_seconds = 1\<rparr>,
      speaker_embedding_cfg = \<lparr>emb_backend = ''3d_speaker_campplus'',
        emb_model_path = Some ''/models/campplus'', minimum_clean_speech_seconds = 3/2,
        target_clean_speech_seconds = 3, update_from_separated_sources = False\<rparr>,
      source_linking = \<lparr>sl_accept_threshold = None, sl_ambiguous_margin = None,
        continuity_bonus = 2/100, min_embedding_ms = None, restrict_to_active_clusters = True,
        sl_short_source_policy = PolicyUnknown, sl_embedding_window = WindowOwned\<rparr>,
      voice_id = \<lparr>vi_enabled = True, vi_accept_threshold = None, vi_ambiguous_margin = None,
        minimum_enrollment_clips = 3, minimum_total_speech_seconds = 15,
        fail_closed_when_uncalibrated = True\<rparr>,
      asr = \<lparr>realtime_model_path = Some ''/models/faster-whisper-large-v3-turbo'',
        final_model_path = Some ''/models/faster-whisper-large-v3'', rec_language = None,
        language_detection = \<lparr>lang_mode = AutoOnce, sample_seconds = 30, min_probability = 6/10\<rparr>,
        word_timestamps = True, compute_type = ''int8_float16'', final_rescore = False\<rparr>,
      confidence = \<lparr>calibration_path = None, return_null_when_uncalibrated = True\<rparr>\<rparr>"

lemmas section_checks =
  check_product_def check_audio_def check_streaming_def check_diarization_def
  check_overlap_detection_def check_source_count_def check_separation_def
  check_speaker_embedding_def check_source_linking_def check_voice_id_def check_asr_def
  check_language_detection_def check_confidence_def check_cross_section_def

lemma default_config_valid: "validate_config default_config = Inr default_config"
  by (simp add: validate_config_def section_checks default_config_def vi_is_calibrated_def
      cf_is_calibrated_def)

section \<open>What a validated configuration guarantees\<close>

lemma validate_config_sections:
  assumes "validate_config c = Inr c'"
  shows "c' = c" and "check_product (product c) = Inr (product c)"
    and "check_streaming (streaming c) = Inr (streaming c)"
    and "check_diarization (diarization c) = Inr (diarization c)"
    and "check_separation (separation c) = Inr (separation c)"
    and "check_source_linking (source_linking c) = Inr (source_linking c)"
    and "check_voice_id (voice_id c) = Inr (voice_id c)"
    and "check_cross_section c = Inr c"
proof -
  note v = assms[unfolded validate_config_def bindR_eq_Inr]
  show "check_product (product c) = Inr (product c)"
    using v by (auto simp: check_product_def split: if_splits)
  show "check_streaming (streaming c) = Inr (streaming c)"
    using v by (auto simp: check_streaming_def split: if_splits)
  show "check_diarization (diarization c) = Inr (diarization c)"
    using v by (auto simp: check_diarization_def split: if_splits)
  show "check_separation (separation c) = Inr (separation c)"
    using v by (auto simp: check_separation_def split: if_splits)
  show "check_source_linking (source_linking c) = Inr (source_linking c)"
    using v by (auto simp: check_source_linking_def split: if_splits)
  show "check_voice_id (voice_id c) = Inr (voice_id c)"
    using v by (auto simp: check_voice_id_def split: if_splits)
  show "c' = c" "check_cross_section c = Inr c"
    using v by (auto simp: check_cross_section_def split: if_splits)
qed

lemma load_config_valid:
  assumes "load_config build file ov env ms = Inr c"
  shows "validate_config c = Inr c"
    and "\<exists>e m. env = Inr e \<and> ms = Inr m \<and> validate_for_environment c e m = Inr ()"
proof -
  from assms obtain raw d where "file = Some raw" "validate_config d = Inr c"
    and rest: "bindR env (\<lambda>e. bindR ms (\<lambda>m. bindR (validate_for_environment c e m) (\<lambda>_. Inr c))) = Inr c"
    by (auto simp: load_config_def bindR_eq_Inr split: option.splits sum.splits)
  moreover from this validate_config_sections(1) have "c = d" by blast
  ultimately show "validate_config c = Inr c" by simp
  show "\<exists>e m. env = Inr e \<and> ms = Inr m \<and> validate_for_environment c e m = Inr ()"
    using rest by (auto simp: bindR_eq_Inr)
qed

text \<open>
  A configuration that loads is within the product limits: at most five session speakers,
  no more concurrent than session speakers, a third concurrent speaker only with the three-source
  flag and its model, a fourth only with multichannel or research processing; no diarizer beyond
  the session limit; a stitch overlap shorter than a crop; and Voice ID without thresholds fails
  closed.
\<close>

theorem loaded_config_bounds:
  assumes "load_config build file ov env ms = Inr c"
  shows "1 \<le> max_supported_concurrent_speakers (product c)
    \<and> max_supported_concurrent_speakers (product c) \<le> max_session_speakers (product c)
    \<and> max_session_speakers (product c) \<le> 5
    \<and> max_speakers (diarization c) \<le> max_session_speakers (product c)
    \<and> (3 \<le> max_supported_concurrent_speakers (product c) \<longrightarrow>
         three_source_beta (product c) \<and> truthy (three_source_model_path (separation c)))
    \<and> (4 \<le> max_supported_concurrent_speakers (product c) \<longrightarrow>
         multichannel_gss (product c) \<or> mono_four_five_source_research (product c))
    \<and> 0 \<le> stitch_overlap_seconds (separation c)
    \<and> stitch_overlap_seconds (separation c) < max_crop_seconds (separation c)
    \<and> (vi_enabled (voice_id c) \<and> \<not> vi_is_calibrated (voice_id c) \<longrightarrow>
         fail_closed_when_uncalibrated (voice_id c))"
proof -
  note s = validate_config_sections[OF load_config_valid(1)[OF assms]]
  have "1 \<le> max_supported_concurrent_speakers (product c)
    \<and> max_supported_concurrent_speakers (product c) \<le> max_session_speakers (product c)
    \<and> max_session_speakers (product c) \<le> 5
    \<and> (3 \<le> max_supported_concurrent_speakers (product c) \<longrightarrow> three_source_beta (product c))
    \<and> (4 \<le> max_supported_concurrent_speakers (product c) \<longrightarrow>
         multichannel_gss (product c) \<or> mono_four_five_source_research (product c))"
    using s(2) by (auto simp: check_product_def split: if_split_asm)
  moreover have "0 \<le> stitch_overlap_seconds (separation c)
      \<and> stitch_overlap_seconds (separation c) < max_crop_seconds (separation c)"
    using s(5) by (auto simp: check_separation_def split: if_split_asm)
  moreover have "vi_enabled (voice_id c) \<and> \<not> vi_is_calibrated (voice_id c) \<longrightarrow>
      fail_closed_when_uncalibrated (voice_id c)"
    using s(7) by (auto simp: check_voice_id_def split: if_split_asm)
  moreover have "max_speakers (diarization c) \<le> max_session_speakers (product c)
      \<and> (three_source_beta (product c) \<longrightarrow> truthy (three_source_model_path (separation c)))"
    using s(8) by (auto simp: check_cross_section_def split: if_split_asm)
  ultimately show ?thesis by blast
qed

theorem loaded_config_bounds_witness:
  "max_speakers (diarization default_config) \<le> max_session_speakers (product default_config)"
proof -
  have "load_config (\<lambda>_. Some default_config) (Some []) [] (Inr DEVELOPMENT) (Inr Map.empty)
      = Inr default_config"
    by (simp add: load_config_def default_config_valid validate_for_environment_def
        is_production_def active_backends_def check_backend_def)
  from loaded_config_bounds[OF this] show ?thesis by blast
qed

lemma check_all_unit:
  "foldR (\<lambda>(component, backend) _. f backend) xs () = Inr () \<longleftrightarrow> (\<forall>b\<in>snd ` set xs. f b = Inr ())"
  by (induction xs) (auto simp: bindR_eq_Inr)


definition pinned_manifest :: "string \<Rightarrow> model_manifest" where
  "pinned_manifest b = \<lparr>mm_component = [], mm_backend = b, mm_revision = Some ''r1'',
     mm_sha256 = None, mm_files = [], production_action = Allow, mm_enabled = True,
     requires_flag = None\<rparr>"

lemma default_config_passes_gate:
  "validate_for_environment default_config PRODUCTION (\<lambda>b. Some (pinned_manifest b)) = Inr ()"
proof -
  have "check_backend default_config PRODUCTION (\<lambda>b. Some (pinned_manifest b)) b = Inr ()" for b
    by (simp add: check_backend_def pinned_manifest_def PRODUCTION_ALLOWLIST_def)
  then have "foldR (\<lambda>(component, backend) _.
      check_backend default_config PRODUCTION (\<lambda>b. Some (pinned_manifest b)) backend)
      (active_backends default_config) () = Inr ()"
    unfolding check_all_unit by blast
  then show ?thesis
    unfolding validate_for_environment_def is_production_def by (simp add: default_config_def)
qed


section \<open>Overrides\<close>

text \<open>
  Overrides are applied key by key: a key the override has takes its value, except that two
  objects are merged in the same way, and every other key keeps its value.
\<close>

theorem deep_merge_lookup:
  assumes "distinct (map fst ov)"
  shows "map_of (deep_merge base ov) k =
    (case map_of ov k of
       None \<Rightarrow> map_of base k
     | Some (JObj inner) \<Rightarrow>
         (case map_of base k of
            Some (JObj current) \<Rightarrow> Some (JObj (deep_merge current inner))
          | _ \<Rightarrow> Some (JObj inner))
     | Some v \<Rightarrow> Some v)"
  using assms
proof (induction ov arbitrary: base)
  case (Cons p rest)
  obtain k0 v where p: "p = (k0, v)" by force
  have dist: "distinct (map fst rest)" and k0: "map_of rest k0 = None"
    using Cons.prems p by (auto simp: map_of_eq_None_iff)
  define base' where "base' = (case v of
          JObj inner \<Rightarrow>
            (case map_of base k0 of
               Some (JObj current) \<Rightarrow> AList.update k0 (JObj (deep_merge current inner)) base
             | _ \<Rightarrow> AList.update k0 v base)
        | _ \<Rightarrow> AList.update k0 v base)"
  have step: "deep_merge base (p # rest) = deep_merge base' rest" by (simp add: p base'_def)
  show ?case
  proof (cases "k = k0")
    case True
    have "map_of (deep_merge base' rest) k = map_of base' k"
      using Cons.IH[OF dist, of base'] k0 True by simp
    also have "\<dots> = (case v of
       JObj inner \<Rightarrow>
         (case map_of base k of
            Some (JObj current) \<Rightarrow> Some (JObj (deep_merge current inner))
          | _ \<Rightarrow> Some (JObj inner))
     | _ \<Rightarrow> Some v)"
      using True by (simp add: base'_def update_conv split: json.split option.split)
    finally show ?thesis unfolding step using True p by (cases v) simp_all
  next
    case False
    have same: "map_of base' k = map_of base k"
      using False by (simp add: base'_def update_conv split: json.split option.split)
    show ?thesis unfolding step Cons.IH[OF dist, of base'] same using False by (simp add: p)
  qed
qed simp

theorem deep_merge_lookup_witness:
  "map_of (deep_merge [(''a'', JObj [(''x'', JInt 1), (''y'', JInt 2)])]
     [(''a'', JObj [(''y'', JInt 3)])]) ''a'' = Some (JObj [(''x'', JInt 1), (''y'', JInt 3)])"
  using deep_merge_lookup[of "[(''a'', JObj [(''y'', JInt 3)])]"
      "[(''a'', JObj [(''x'', JInt 1), (''y'', JInt 2)])]" "''a''"]
  by simp

section \<open>Digests\<close>

lemma sort_key_distinct_unique:
  assumes "mset xs = mset ys" and "distinct (map f xs)"
  shows "sort_key f xs = sort_key f ys"
proof -
  have inj: "inj_on f (set xs)" using assms(2) by (simp add: distinct_map)
  have same: "set xs = set ys" using assms(1) by (metis set_mset_mset)
  have "mset (map f xs) = mset (map f ys)" using assms(1) by simp
  from mset_eq_imp_distinct_iff[OF this] have "distinct (map f ys)" using assms(2) by simp
  then have d: "distinct (map f (sort_key f xs))" "distinct (map f (sort_key f ys))"
    using assms(2) by (simp_all add: distinct_map)
  have "set (map f (sort_key f xs)) = set (map f (sort_key f ys))" using same by simp
  with d have "map f (sort_key f xs) = map f (sort_key f ys)"
    by (intro sorted_distinct_set_unique sorted_sort_key)
  moreover have "inj_on f (set (sort_key f xs) \<union> set (sort_key f ys))" using inj same by simp
  ultimately show ?thesis by (rule map_inj_on)
qed

text \<open>
  The digest of a set of weight files does not depend on the order in which they were
  downloaded, as long as no path occurs twice.
\<close>

theorem aggregate_digest_order_free:
  assumes "mset fs = mset gs" and "distinct (map mf_path fs)"
  shows "aggregate_sha256 sha fs = aggregate_sha256 sha gs"
  unfolding aggregate_sha256_def sort_key_distinct_unique[OF assms] ..

theorem aggregate_digest_order_free_witness:
  "aggregate_sha256 id [\<lparr>mf_path = ''a'', mf_sha256 = ''1'', mf_size = 1\<rparr>,
       \<lparr>mf_path = ''b'', mf_sha256 = ''2'', mf_size = 1\<rparr>]
   = aggregate_sha256 id [\<lparr>mf_path = ''b'', mf_sha256 = ''2'', mf_size = 1\<rparr>,
       \<lparr>mf_path = ''a'', mf_sha256 = ''1'', mf_size = 1\<rparr>]"
  by (rule aggregate_digest_order_free) simp_all

end
