(* ===== verification/EventStream.thy ===== *)
theory EventStream
  imports Prelude
begin

text \<open>
  The interface through which a client reads a session's events: \<open>append\<close> stores an event or
  returns one stored before, \<open>replay\<close> answers a reconnect with the events after the last sequence
  number the client saw. \<open>stores log hs\<close> relates a store, which may have dropped old events, to the
  history \<open>hs\<close> of all events ever appended; \<open>mine\<close> selects the events of the session replayed.
  The client's lemma is proved once here; \<open>SessionEventLog\<close> and \<open>InMemoryEventStore\<close> are instances.
\<close>

lemma sorted_last: "sorted_wrt (<) (map f xs) \<Longrightarrow> x \<in> set xs \<Longrightarrow> f x \<le> (f (last xs) :: int)"
proof (induction xs)
  case (Cons y ys)
  then show ?case using last_in_set[of ys] by (cases "ys = []") (auto simp: less_imp_le)
qed simp

lemma sorted_take_drop:
  assumes "sorted_wrt (<) (map f xs)" and "x \<in> set (take k xs)" and "y \<in> set (drop k xs)"
  shows "f x < (f y :: int)"
proof -
  have "map f xs = map f (take k xs) @ map f (drop k xs)"
    by (metis append_take_drop_id map_append)
  with assms(1) have "sorted_wrt (<) (map f (take k xs) @ map f (drop k xs))" by simp
  then show ?thesis using assms(2,3) unfolding sorted_wrt_append by simp
qed

lemma filter_after:
  assumes "sorted_wrt (<) (map f xs)" and "filter (\<lambda>x. c < f x) xs \<noteq> []"
  shows "filter (\<lambda>x. f x \<le> (c::int)) xs @ filter (\<lambda>x. c < f x) xs = xs
    \<and> (\<forall>x\<in>set xs. f x \<le> f (last (filter (\<lambda>x. c < f x) xs)))"
  using assms
proof (induction xs)
  case (Cons x xs)
  show ?case
  proof (cases "c < f x")
    case True
    then have "\<forall>y\<in>set xs. c < f y" using Cons.prems(1) by auto
    then have "filter (\<lambda>x. c < f x) (x # xs) = x # xs" "filter (\<lambda>x. f x \<le> c) (x # xs) = []"
      using True by (auto simp: filter_id_conv filter_empty_conv not_le)
    then show ?thesis using sorted_last[OF Cons.prems(1)] by (metis append_Nil)
  next
    case False
    then have ne: "filter (\<lambda>x. c < f x) xs \<noteq> []" using Cons.prems(2) by simp
    from Cons.IH[OF _ ne] Cons.prems(1)
    have IH: "filter (\<lambda>x. f x \<le> c) xs @ filter (\<lambda>x. c < f x) xs = xs"
        "\<forall>y\<in>set xs. f y \<le> f (last (filter (\<lambda>x. c < f x) xs))" by auto
    have "last (filter (\<lambda>x. c < f x) xs) \<in> set xs" using last_in_set[OF ne] by simp
    then show ?thesis using IH False Cons.prems(1) by (auto simp: less_imp_le)
  qed
qed simp

locale event_stream =
  fixes append :: "'req \<Rightarrow> 'log \<Rightarrow> exn + 'log \<times> 'e"
    and replay :: "'log \<Rightarrow> int \<Rightarrow> exn + 'e list"
    and seq :: "'e \<Rightarrow> int"
    and mine :: "'e \<Rightarrow> bool"
    and stores :: "'log \<Rightarrow> 'e list \<Rightarrow> bool"
  assumes append_law: "stores l hs \<Longrightarrow> append r l = Inr (l', e) \<Longrightarrow>
      (if l' = l then e \<in> set hs else stores l' (hs @ [e]))"
    and replay_law: "stores l hs \<Longrightarrow> 0 \<le> n \<Longrightarrow> replay l n = Inr es \<Longrightarrow>
      es = filter (\<lambda>e. mine e \<and> n < seq e) hs"
    and sequence_law: "stores l hs \<Longrightarrow> sorted_wrt (<) (map seq (filter mine hs))"
begin

text \<open>
  A client and the store: the server appends, the client reconnects with its cursor, takes what
  is replayed and moves the cursor to the last sequence number received.
\<close>

inductive served :: "'log \<Rightarrow> 'e list \<Rightarrow> int \<Rightarrow> 'e list \<Rightarrow> bool" where
  served_start: "stores l [] \<Longrightarrow> served l [] 0 []"
| served_append: "served l hs c ds \<Longrightarrow> append r l = Inr (l', e) \<Longrightarrow>
    served l' (if l' = l then hs else hs @ [e]) c ds"
| served_reconnect: "served l hs c ds \<Longrightarrow> replay l c = Inr es \<Longrightarrow>
    served l hs (if es = [] then c else seq (last es)) (ds @ es)"

text \<open>What a client received is the session's history up to its cursor, each event once.\<close>

lemma served_exact:
  "served l hs c ds \<Longrightarrow> stores l hs \<and> 0 \<le> c \<and> (c = 0 \<or> (\<exists>e\<in>set hs. mine e \<and> seq e = c))
     \<and> ds = filter (\<lambda>e. 0 < seq e \<and> seq e \<le> c) (filter mine hs)"
proof (induction rule: served.induct)
  case (served_start l)
  then show ?case by (auto simp: filter_empty_conv)
next
  case (served_append l hs c ds r l' e)
  show ?case
  proof (cases "l' = l")
    case False
    then have st: "stores l' (hs @ [e])"
      using append_law[of l hs r l' e] served_append by simp
    have "c < seq e" if "mine e" "0 < seq e"
      using sequence_law[OF st] served_append.IH that by (auto simp: sorted_wrt_append)
    then have "\<not> (0 < seq e \<and> seq e \<le> c)" if "mine e" using that by auto
    then show ?thesis using st False served_append.IH by auto
  qed (use served_append in simp)
next
  case (served_reconnect l hs c ds es)
  then have st: "stores l hs" and c: "0 \<le> c" by auto
  let ?mine = "filter mine hs"
  have es: "es = filter (\<lambda>e. c < seq e) ?mine"
    using replay_law[OF st c served_reconnect(2)] by (simp add: conj_commute)
  show ?case
  proof (cases "es = []")
    case True
    then show ?thesis using served_reconnect.IH by simp
  next
    case False
    note fa = filter_after[OF sequence_law[OF st], of c, folded es, OF False]
    have le: "c < seq (last es)" and last: "last es \<in> set ?mine"
      using last_in_set[OF False] es by auto
    have "filter (\<lambda>e. 0 < seq e) (filter (\<lambda>e. seq e \<le> c) ?mine @ es) = filter (\<lambda>e. 0 < seq e) ?mine"
      using fa by simp
    moreover have "filter (\<lambda>e. 0 < seq e) es = es"
      using es c unfolding filter_id_conv by auto
    ultimately have "ds @ es = filter (\<lambda>e. 0 < seq e) ?mine"
      using served_reconnect.IH by (simp add: conj_ac)
    moreover have "filter (\<lambda>e. 0 < seq e \<and> seq e \<le> seq (last es)) ?mine = filter (\<lambda>e. 0 < seq e) ?mine"
      using fa by (intro filter_cong) auto
    ultimately show ?thesis using st False le last c by auto
  qed
qed

lemma served_distinct: "served l hs c ds \<Longrightarrow> distinct ds \<and> sorted_wrt (<) (map seq ds)"
proof -
  assume "served l hs c ds"
  from served_exact[OF this] have st: "stores l hs"
    and ds: "ds = filter (\<lambda>e. 0 < seq e \<and> seq e \<le> c) (filter mine hs)" by auto
  have "sorted_wrt (\<lambda>a b. seq a < seq b) ds"
    using sequence_law[OF st] unfolding ds sorted_wrt_map by (rule sorted_wrt_filter)
  then have srt: "sorted_wrt (<) (map seq ds)" by (simp add: sorted_wrt_map)
  then have "distinct (map seq ds)" by (simp add: strict_sorted_iff)
  with srt show ?thesis by (simp add: distinct_map)
qed

end

end
