(* ===== verification/Events.thy ===== *)
theory Events
  imports EventStream
begin

text \<open>
  Events, jobs and identifiers of \<^verbatim>\<open>src/src/sastt/domain/events.py\<close>: the ULID-style encoding, the
  append-only \<open>SessionEventLog\<close> with its retention window and its table of final events, and the
  job life cycle. Random bytes and the clock are arguments; a fresh event identifier is passed in.
\<close>

section \<open>Identifiers\<close>

definition CROCKFORD :: string where
  "CROCKFORD = ''0123456789ABCDEFGHJKMNPQRSTVWXYZ''"

text \<open>The loop takes the five low bits and shifts; the characters are reversed at the end.\<close>

fun crockford_chars :: "nat \<Rightarrow> nat \<Rightarrow> string" where
  "crockford_chars value 0 = []"
| "crockford_chars value (Suc n) = CROCKFORD ! (value mod 32) # crockford_chars (value div 32) n"

definition encode_crockford :: "nat \<Rightarrow> nat \<Rightarrow> string" where
  "encode_crockford value len = rev (crockford_chars value len)"

definition new_ulid :: "nat \<Rightarrow> nat \<Rightarrow> string" where
  "new_ulid timestamp randomness = encode_crockford timestamp 10 @ encode_crockford randomness 16"

definition new_id :: "string \<Rightarrow> nat \<Rightarrow> nat \<Rightarrow> string" where
  "new_id prefix timestamp randomness = prefix @ ''_'' @ new_ulid timestamp randomness"

section \<open>Events and the session log\<close>

datatype job_state =
    QUEUED
  | PREPROCESSING
  | DIARIZING
  | TRANSCRIBING
  | SEPARATING
  | LINKING
  | FUSING
  | SUCCEEDED
  | DEGRADED_SUCCEEDED
  | FAILED
  | CANCELLED

definition TERMINAL_JOB_STATES :: "job_state set" where
  "TERMINAL_JOB_STATES = {SUCCEEDED, DEGRADED_SUCCEEDED, FAILED, CANCELLED}"

datatype stream_state = CREATED | STREAMING | FINALIZING | FINALIZED | STREAM_FAILED

datatype event_type =
    SESSION_STARTED
  | TRANSCRIPT_PROVISIONAL
  | TRANSCRIPT_REVISION
  | TRANSCRIPT_FINAL
  | PIPELINE_WARNING
  | SESSION_FINALIZED
  | SESSION_FAILED

fun event_type_value :: "event_type \<Rightarrow> string" where
  "event_type_value SESSION_STARTED = ''session.started''"
| "event_type_value TRANSCRIPT_PROVISIONAL = ''transcript.provisional''"
| "event_type_value TRANSCRIPT_REVISION = ''transcript.revision''"
| "event_type_value TRANSCRIPT_FINAL = ''transcript.final''"
| "event_type_value PIPELINE_WARNING = ''pipeline.warning''"
| "event_type_value SESSION_FINALIZED = ''session.finalized''"
| "event_type_value SESSION_FAILED = ''session.failed''"

record server_event =
  ev_id :: string
  ev_session :: string
  ev_seq :: int
  ev_type :: event_type
  ev_time :: int
  ev_revision :: int
  ev_supersedes :: "string option"
  ev_final :: bool
  ev_payload :: "(string \<times> json) list"
  ev_versions :: "(string \<times> string option) list"
  ev_config :: "string option"
  ev_dedup :: "string option"

definition event_to_dict :: "server_event \<Rightarrow> (string \<times> json) list" where
  "event_to_dict e =
     [(''event_id'', JStr (ev_id e)),
      (''session_id'', JStr (ev_session e)),
      (''sequence_number'', JInt (ev_seq e)),
      (''type'', JStr (event_type_value (ev_type e))),
      (''server_time_ms'', JInt (ev_time e)),
      (''revision'', JInt (ev_revision e)),
      (''supersedes_event_id'', json_opt JStr (ev_supersedes e)),
      (''is_final'', JBool (ev_final e)),
      (''payload'', JObj (ev_payload e)),
      (''model_versions'', JObj (map (\<lambda>(k, v). (k, json_opt JStr v)) (ev_versions e))),
      (''config_version'', json_opt JStr (ev_config e))]"

record event_log =
  log_session :: string
  log_retention :: int
  log_events :: "server_event list"
  log_sequence :: int
  log_keys :: "(string \<times> int) set"
  log_finals :: "string \<Rightarrow> server_event option"

definition new_log :: "string \<Rightarrow> int \<Rightarrow> event_log" where
  "new_log sid retention =
     \<lparr>log_session = sid, log_retention = retention, log_events = [], log_sequence = 0,
      log_keys = {}, log_finals = Map.empty\<rparr>"

definition next_sequence_number :: "event_log \<Rightarrow> int" where
  "next_sequence_number l = log_sequence l + 1"

text \<open>The arguments of \<open>append\<close>; \<open>rq_now\<close> is the clock's time, \<open>rq_fresh\<close> what \<open>new_id\<close> returns.\<close>

record append_request =
  rq_type :: event_type
  rq_now :: int
  rq_fresh :: string
  rq_revision :: int
  rq_supersedes :: "string option"
  rq_final :: bool
  rq_payload :: "(string \<times> json) list"
  rq_versions :: "(string \<times> string option) list"
  rq_config :: "string option"
  rq_dedup :: "string option"
  rq_event_id :: "string option"

definition final_of :: "event_log \<Rightarrow> append_request \<Rightarrow> server_event option" where
  "final_of l r =
     (if rq_final r then (case rq_dedup r of None \<Rightarrow> None | Some k \<Rightarrow> log_finals l k) else None)"

definition new_event :: "event_log \<Rightarrow> append_request \<Rightarrow> server_event" where
  "new_event l r =
     \<lparr>ev_id = or_else (rq_event_id r) (rq_fresh r), ev_session = log_session l,
      ev_seq = log_sequence l + 1, ev_type = rq_type r, ev_time = rq_now r,
      ev_revision = rq_revision r, ev_supersedes = rq_supersedes r, ev_final = rq_final r,
      ev_payload = rq_payload r, ev_versions = rq_versions r, ev_config = rq_config r,
      ev_dedup = rq_dedup r\<rparr>"

definition keep_retained :: "event_log \<Rightarrow> server_event list \<Rightarrow> server_event list" where
  "keep_retained l evs =
     (if log_retention l < int (length evs) then py_last (log_retention l) evs else evs)"

definition log_append :: "append_request \<Rightarrow> event_log \<Rightarrow> (event_log \<times> server_event) res" where
  "log_append r l =
     (case final_of l r of
        Some e \<Rightarrow> Inr (l, e)
      | None \<Rightarrow>
          if rq_revision r < 1 then Inl ValueError
          else let e = new_event l r; key = (ev_id e, ev_revision e)
               in if key \<in> log_keys l then Inl ValueError
                  else Inr (l\<lparr>log_keys := insert key (log_keys l), log_sequence := ev_seq e,
                              log_events := keep_retained l (log_events l @ [e]),
                              log_finals := (case rq_dedup r of
                                  Some k \<Rightarrow> if rq_final r then (log_finals l)(k \<mapsto> e)
                                             else log_finals l
                                | None \<Rightarrow> log_finals l)\<rparr>, e))"

definition replay_from :: "event_log \<Rightarrow> int \<Rightarrow> server_event list res" where
  "replay_from l last_seen =
     (if last_seen < 0 then Inl ValueError
      else if log_sequence l < last_seen then Inl ValueError
      else if log_events l \<noteq> [] \<and> last_seen < ev_seq (hd (log_events l)) - 1 then Inl ValueError
      else Inr (filter (\<lambda>e. last_seen < ev_seq e) (log_events l)))"

definition final_events :: "event_log \<Rightarrow> server_event list" where
  "final_events l = filter ev_final (log_events l)"

section \<open>Jobs\<close>

definition fingerprint_payload :: "string \<Rightarrow> string \<Rightarrow> string \<Rightarrow> string" where
  "fingerprint_payload tenant key input = tenant @ ''|'' @ key @ ''|'' @ input"

definition idempotency_fingerprint ::
  "(string \<Rightarrow> string) \<Rightarrow> string \<Rightarrow> string \<Rightarrow> string \<Rightarrow> string" where
  "idempotency_fingerprint sha tenant key input = sha (fingerprint_payload tenant key input)"

record job =
  job_id :: string
  tenant_id :: string
  idempotency_key :: string
  input_hash :: string
  job_status :: job_state
  job_config :: "string option"
  job_error :: "string option"
  job_warnings :: "string list"
  job_degraded :: bool

definition job_is_terminal :: "job \<Rightarrow> bool" where
  "job_is_terminal j \<longleftrightarrow> job_status j \<in> TERMINAL_JOB_STATES"

definition job_transition :: "job \<Rightarrow> job_state \<Rightarrow> job res" where
  "job_transition j st =
     (if job_is_terminal j \<and> st \<noteq> job_status j then Inl ValueError
      else Inr (j\<lparr>job_status := st\<rparr>))"

section \<open>The log as an event stream\<close>

text \<open>
  \<open>log_stores l hs\<close>: \<open>hs\<close> are all events ever appended, numbered 1, 2, ...; the log holds a suffix
  of them, the keys of all and the table of their finals.
\<close>

definition log_stores :: "event_log \<Rightarrow> server_event list \<Rightarrow> bool" where
  "log_stores l hs \<longleftrightarrow> 0 \<le> log_retention l \<and> map ev_seq hs = [1..log_sequence l]
     \<and> 0 \<le> log_sequence l
     \<and> (\<exists>k. log_events l = drop k hs) \<and> (log_events l = [] \<longrightarrow> hs = [])
     \<and> (\<forall>e\<in>set hs. (ev_id e, ev_revision e) \<in> log_keys l)
     \<and> (\<forall>k e. log_finals l k = Some e \<longleftrightarrow> e \<in> set hs \<and> ev_final e \<and> ev_dedup e = Some k)"

lemma log_stores_new: "0 \<le> r \<Longrightarrow> log_stores (new_log s r) []"
  by (auto simp: log_stores_def new_log_def)

lemma seqs_nth:
  assumes "map ev_seq hs = [1..n]" and "i < length hs"
  shows "ev_seq (hs ! i) = int i + 1"
proof -
  have "length hs = nat n" using arg_cong[OF assms(1), of length] by simp
  with assms(2) have "[1..n] ! i = 1 + int i" by (intro nth_upto) simp
  moreover have "map ev_seq hs ! i = ev_seq (hs ! i)" using assms(2) by simp
  ultimately show ?thesis using assms(1) by simp
qed

lemma seqs_range: "map ev_seq hs = [1..n] \<Longrightarrow> e \<in> set hs \<Longrightarrow> 1 \<le> ev_seq e \<and> ev_seq e \<le> n"
proof -
  assume "map ev_seq hs = [1..n]" and "e \<in> set hs"
  then have "ev_seq e \<in> set [1..n]" by (metis image_eqI list.set_map)
  then show "1 \<le> ev_seq e \<and> ev_seq e \<le> n" by simp
qed

lemma drop_py_last:
  assumes "evs = drop k hs" and "evs \<noteq> []" and "0 \<le> r"
  shows "\<exists>k'. py_last r evs = drop k' hs" and "py_last r evs \<noteq> []"
  using assms by (auto simp: py_last_def)

lemma new_event_fields [simp]:
  "ev_seq (new_event l r) = log_sequence l + 1" "ev_final (new_event l r) = rq_final r"
  "ev_dedup (new_event l r) = rq_dedup r" "ev_session (new_event l r) = log_session l"
  "ev_revision (new_event l r) = rq_revision r"
  by (simp_all add: new_event_def)

lemma log_append_new:
  assumes "log_append r l = Inr (l', e)" and "final_of l r = None"
  shows "1 \<le> rq_revision r \<and> e = new_event l r \<and> (ev_id e, ev_revision e) \<notin> log_keys l
    \<and> l' = l\<lparr>log_keys := insert (ev_id e, ev_revision e) (log_keys l),
              log_sequence := ev_seq e, log_events := keep_retained l (log_events l @ [e]),
              log_finals := (case rq_dedup r of
                  Some k \<Rightarrow> if rq_final r then (log_finals l)(k \<mapsto> e) else log_finals l
                | None \<Rightarrow> log_finals l)\<rparr>"
  using assms unfolding log_append_def Let_def
  by (simp split: if_split_asm) (elim conjE, hypsubst, simp)

lemma final_of_Some:
  "final_of l r = Some e \<longleftrightarrow> rq_final r \<and> (\<exists>k. rq_dedup r = Some k \<and> log_finals l k = Some e)"
  by (auto simp: final_of_def split: option.splits)

lemma keep_retained_suffix:
  assumes "0 \<le> log_retention l" and "log_events l = drop k hs"
  shows "(\<exists>j. keep_retained l (log_events l @ [e]) = drop j (hs @ [e]))
    \<and> keep_retained l (log_events l @ [e]) \<noteq> []"
proof -
  have evs: "log_events l @ [e] = drop (min k (length hs)) (hs @ [e])"
    using assms(2) by (simp add: min_def)
  show ?thesis
  proof (cases "log_retention l < int (length (log_events l @ [e]))")
    case True
    then show ?thesis
      using drop_py_last[OF evs _ assms(1)] by (simp add: keep_retained_def)
  next
    case False
    then have "keep_retained l (log_events l @ [e]) = log_events l @ [e]"
      by (simp add: keep_retained_def)
    then show ?thesis using evs by (metis append_is_Nil_conv list.distinct(1))
  qed
qed

lemma log_append_stores:
  assumes st: "log_stores l hs" and ok: "log_append r l = Inr (l', e)"
  shows "if l' = l then e \<in> set hs else log_stores l' (hs @ [e])"
proof (cases "final_of l r")
  case (Some x)
  then have "l' = l" "e = x" using ok by (auto simp: log_append_def)
  then show ?thesis using st Some by (auto simp: final_of_Some log_stores_def)
next
  case None
  note new = log_append_new[OF ok None]
  have sq: "log_sequence l' = log_sequence l + 1" using new by simp
  have ne: "l' \<noteq> l" using sq by auto
  have h: "0 \<le> log_retention l" "map ev_seq hs = [1..log_sequence l]" "0 \<le> log_sequence l"
      "\<forall>e\<in>set hs. (ev_id e, ev_revision e) \<in> log_keys l"
    and fin: "\<And>k e. log_finals l k = Some e \<longleftrightarrow> e \<in> set hs \<and> ev_final e \<and> ev_dedup e = Some k"
    using st by (simp_all add: log_stores_def)
  from st obtain k where k: "log_events l = drop k hs" by (auto simp: log_stores_def)
  have seqs: "map ev_seq (hs @ [e]) = [1..log_sequence l + 1]"
    using h(2,3) new by (simp add: upto_rec2)
  have fresh: "e \<notin> set hs" using h(4) new by blast
  have no_old: "log_finals l d = None" if "rq_final r" "rq_dedup r = Some d" for d
    using None that by (simp add: final_of_def)
  have finals: "log_finals l' d = Some x \<longleftrightarrow>
      x \<in> set (hs @ [e]) \<and> ev_final x \<and> ev_dedup x = Some d" for d x
  proof (cases "rq_final r \<and> rq_dedup r = Some d")
    case True
    then have "log_finals l' d = Some e" using new by simp
    moreover have "\<not> (x \<in> set hs \<and> ev_final x \<and> ev_dedup x = Some d)"
      using no_old[of d] True fin[of d x] by simp
    ultimately show ?thesis using True new by auto
  next
    case False
    then have "log_finals l' d = log_finals l d" using new by (auto split: option.splits)
    then show ?thesis using False new fin[of d x] by auto
  qed
  show ?thesis
    unfolding log_stores_def
    using ne h seqs new keep_retained_suffix[OF h(1) k, of e] finals by simp
qed

lemma log_replay_exact:
  assumes "log_stores l hs" and "0 \<le> n" and "replay_from l n = Inr es"
  shows "es = filter (\<lambda>e. True \<and> n < ev_seq e) hs"
proof (cases "log_events l = []")
  case True
  then show ?thesis using assms by (auto simp: log_stores_def replay_from_def split: if_splits)
next
  case False
  from assms(1) have sq: "map ev_seq hs = [1..log_sequence l]"
    and "\<exists>k. log_events l = drop k hs" by (simp_all add: log_stores_def)
  then obtain k where k: "log_events l = drop k hs" by blast
  from k False have kl: "k < length hs" by (metis drop_all leI)
  have "ev_seq (hd (log_events l)) = int k + 1"
    using seqs_nth[OF sq kl] k kl by (simp add: hd_drop_conv_nth)
  with assms(3) False have n: "int k \<le> n" and es: "es = filter (\<lambda>e. n < ev_seq e) (drop k hs)"
    by (auto simp: replay_from_def k split: if_splits)
  have "ev_seq x \<le> n" if "x \<in> set (take k hs)" for x
  proof -
    from that obtain i where "i < k" "i < length hs" "x = hs ! i"
      by (auto simp: in_set_conv_nth)
    with seqs_nth[OF sq] n show ?thesis by auto
  qed
  then have "filter (\<lambda>e. n < ev_seq e) (take k hs) = []" by (auto simp: filter_empty_conv not_less)
  then have "filter (\<lambda>e. n < ev_seq e) (take k hs @ drop k hs) = es"
    using es by (simp only: filter_append append_Nil)
  then show ?thesis by simp
qed

interpretation session_log: event_stream log_append replay_from ev_seq "\<lambda>_. True" log_stores
proof
  fix l hs r l' e
  assume "log_stores l hs" "log_append r l = Inr (l', e)"
  then show "if l' = l then e \<in> set hs else log_stores l' (hs @ [e])" by (rule log_append_stores)
next
  fix l hs n es
  assume "log_stores l hs" "0 \<le> n" "replay_from l n = Inr es"
  then show "es = filter (\<lambda>e. True \<and> n < ev_seq e) hs" by (rule log_replay_exact)
next
  fix l hs
  assume "log_stores l hs"
  then show "sorted_wrt (<) (map ev_seq (filter (\<lambda>_. True) hs))"
    by (simp add: log_stores_def)
qed

text \<open>
  Reconnects lose and repeat nothing. In any interleaving of appends with a client that
  reconnects from the last sequence number it received, what the client has is, in order and each
  event once, exactly the events numbered 1 to its cursor.
\<close>

theorem reconnect_exactly_once:
  assumes "session_log.served l hs c ds"
  shows "ds = filter (\<lambda>e. ev_seq e \<le> c) hs \<and> distinct ds \<and> map ev_seq hs = [1..log_sequence l]"
proof -
  from session_log.served_exact[OF assms] have sq: "map ev_seq hs = [1..log_sequence l]"
    and ds: "ds = filter (\<lambda>e. 0 < ev_seq e \<and> ev_seq e \<le> c) hs" by (simp_all add: log_stores_def)
  have "0 < ev_seq e" if "e \<in> set hs" for e using seqs_range[OF sq that] by simp
  then have "ds = filter (\<lambda>e. ev_seq e \<le> c) hs" unfolding ds by (intro filter_cong) auto
  with sq session_log.served_distinct[OF assms] show ?thesis by simp
qed

definition example_request :: "string \<Rightarrow> append_request" where
  "example_request k = \<lparr>rq_type = TRANSCRIPT_FINAL, rq_now = 5, rq_fresh = ''evt_'' @ k,
     rq_revision = 1, rq_supersedes = None, rq_final = True, rq_payload = [], rq_versions = [],
     rq_config = None, rq_dedup = Some k, rq_event_id = None\<rparr>"

abbreviation example_log :: event_log where
  "example_log \<equiv> new_log ''s'' 10"

lemma example_append:
  "log_append (example_request ''a'') example_log =
     Inr (example_log\<lparr>log_keys := {(''evt_a'', 1)}, log_sequence := 1,
            log_events := [new_event example_log (example_request ''a'')],
            log_finals := [''a'' \<mapsto> new_event example_log (example_request ''a'')]\<rparr>,
          new_event example_log (example_request ''a''))"
  by (simp add: log_append_def final_of_def new_log_def example_request_def Let_def new_event_def
      keep_retained_def)

lemma example_served:
  "session_log.served (example_log\<lparr>log_keys := {(''evt_a'', 1)}, log_sequence := 1,
       log_events := [new_event example_log (example_request ''a'')],
       log_finals := [''a'' \<mapsto> new_event example_log (example_request ''a'')]\<rparr>)
     [new_event example_log (example_request ''a'')] 1 [new_event example_log (example_request ''a'')]"
    (is "session_log.served ?l [?e] 1 [?e]")
proof -
  have "session_log.served example_log [] 0 []"
    by (rule session_log.served_start) (rule log_stores_new, simp)
  note session_log.served_append[OF this example_append]
  moreover have "?l \<noteq> example_log" by (simp add: new_log_def)
  ultimately have 1: "session_log.served ?l [?e] 0 []" by simp
  have "replay_from ?l 0 = Inr [?e]" by (simp add: replay_from_def new_log_def)
  from session_log.served_reconnect[OF 1 this] show ?thesis by (simp add: new_log_def)
qed

theorem reconnect_exactly_once_witness:
  "distinct [new_event example_log (example_request ''a'')]"
  by (rule reconnect_exactly_once[OF example_served, THEN conjunct2, THEN conjunct1])

text \<open>
  The retention window: a log that served any run answers a reconnect from \<open>n\<close> exactly when
  \<open>n\<close> is not ahead of the server and no event after \<open>n\<close> has been dropped; otherwise it raises
  \<open>ValueError\<close>, so a gap is never silent.
\<close>

theorem replay_window:
  assumes "session_log.served l hs c ds" and "0 \<le> n"
  shows "replay_from l n =
    (if log_sequence l - int (length (log_events l)) \<le> n \<and> n \<le> log_sequence l
     then Inr (filter (\<lambda>e. n < ev_seq e) hs) else Inl ValueError)"
proof -
  from session_log.served_exact[OF assms(1)] have st: "log_stores l hs" by simp
  then have sq: "map ev_seq hs = [1..log_sequence l]" "0 \<le> log_sequence l"
    and "\<exists>k. log_events l = drop k hs" and ne: "log_events l = [] \<longrightarrow> hs = []"
    by (simp_all add: log_stores_def)
  then obtain k where k: "log_events l = drop k hs" by blast
  have len: "int (length hs) = log_sequence l" using arg_cong[OF sq(1), of length] sq(2) by simp
  have first: "ev_seq (hd (log_events l)) - 1 = log_sequence l - int (length (log_events l))"
    if "log_events l \<noteq> []"
  proof -
    have "k < length hs" using that k by (metis drop_all leI)
    with seqs_nth[OF sq(1) this] k len show ?thesis by (simp add: hd_drop_conv_nth)
  qed
  have exact: "replay_from l n = Inr es \<Longrightarrow> es = filter (\<lambda>e. n < ev_seq e) hs" for es
    using log_replay_exact[OF st assms(2), of es] by simp
  have empty: "log_sequence l = 0" if "log_events l = []" using that ne len by simp
  show ?thesis
  proof (cases "log_sequence l - int (length (log_events l)) \<le> n \<and> n \<le> log_sequence l")
    case True
    then have "replay_from l n = Inr (filter (\<lambda>e. n < ev_seq e) (log_events l))"
      using first assms(2) by (auto simp: replay_from_def)
    with exact True show ?thesis by simp
  next
    case False
    then consider "log_sequence l < n" | "n < log_sequence l - int (length (log_events l))"
      by linarith
    then have "replay_from l n = Inl ValueError"
    proof cases
      case 2
      then have "log_events l \<noteq> []" using empty assms(2) by auto
      with 2 first show ?thesis by (simp add: replay_from_def)
    qed (simp add: replay_from_def)
    then show ?thesis using False by simp
  qed
qed

theorem replay_window_witness:
  "\<exists>l. replay_from l 0 = Inr [new_event example_log (example_request ''a'')]"
proof
  show "replay_from (example_log\<lparr>log_keys := {(''evt_a'', 1)}, log_sequence := 1,
       log_events := [new_event example_log (example_request ''a'')],
       log_finals := [''a'' \<mapsto> new_event example_log (example_request ''a'')]\<rparr>) 0
     = Inr [new_event example_log (example_request ''a'')]"
    unfolding replay_window[OF example_served order_refl] by (simp add: new_log_def)
qed

text \<open>
  One final per deduplication key. Once a final event with a key has been appended, a further
  final append with that key changes nothing and returns that event, even if the event has left
  the retention window; so the history never holds two finals with one key.
\<close>

theorem finals_deduplicated:
  assumes "session_log.served l hs c ds" and "e \<in> set hs" and "ev_final e" and "ev_dedup e = Some k"
    and "rq_final r" and "rq_dedup r = Some k"
  shows "log_append r l = Inr (l, e)
    \<and> filter (\<lambda>x. ev_final x \<and> ev_dedup x = Some k) hs = [e]"
proof -
  from session_log.served_exact[OF assms(1)] have st: "log_stores l hs" by simp
  then have fin: "\<And>k e. log_finals l k = Some e \<longleftrightarrow> e \<in> set hs \<and> ev_final e \<and> ev_dedup e = Some k"
    and sq: "map ev_seq hs = [1..log_sequence l]" by (simp_all add: log_stores_def)
  have e: "log_finals l k = Some e" using fin assms by simp
  have "distinct (map ev_seq hs)" unfolding sq by simp
  then have "distinct (filter (\<lambda>x. ev_final x \<and> ev_dedup x = Some k) hs)"
    by (simp add: distinct_map)
  moreover have "x \<in> set hs \<and> ev_final x \<and> ev_dedup x = Some k \<longleftrightarrow> x = e" for x
    using fin[of k x] e by auto
  then have "set (filter (\<lambda>x. ev_final x \<and> ev_dedup x = Some k) hs) = {e}" by auto
  ultimately have "filter (\<lambda>x. ev_final x \<and> ev_dedup x = Some k) hs = [e]"
    by (rule distinct_singleton)
  then show ?thesis using e assms(5,6) by (simp add: log_append_def final_of_def)
qed

theorem finals_deduplicated_witness:
  "\<exists>l. log_append (example_request ''a'') l = Inr (l, new_event example_log (example_request ''a''))"
  by (rule exI, rule conjunct1, rule finals_deduplicated[OF example_served, where k = "''a''"])
    (simp_all add: example_request_def)

section \<open>Sortable identifiers\<close>

lemma encode_crockford_Suc:
  "encode_crockford v (Suc n) = encode_crockford (v div 32) n @ [CROCKFORD ! (v mod 32)]"
  by (simp add: encode_crockford_def)

lemma length_encode_crockford [simp]: "length (encode_crockford v n) = n"
  by (induction n arbitrary: v) (simp_all add: encode_crockford_Suc, simp add: encode_crockford_def)

lemma CROCKFORD_sorted: "sorted_wrt (<) CROCKFORD"
  by code_simp

lemma CROCKFORD_less: "i < j \<Longrightarrow> j < 32 \<Longrightarrow> CROCKFORD ! i < CROCKFORD ! j"
  using sorted_wrt_nth_less[OF CROCKFORD_sorted, of i j] by (simp add: CROCKFORD_def)

lemma less_append_left: "(u::string) < v \<Longrightarrow> length u = length v \<Longrightarrow> u @ a < v @ b"
  by (simp add: list_less_def lexord_sufI)

lemma less_append_right: "(a::string) < b \<Longrightarrow> u @ a < u @ b"
  by (simp add: list_less_def lexord_append_leftI)

lemma encode_crockford_less:
  "v < w \<Longrightarrow> w < 32 ^ n \<Longrightarrow> encode_crockford v n < encode_crockford w n"
proof (induction n arbitrary: v w)
  case (Suc n)
  have w: "w div 32 < 32 ^ n" using Suc.prems(2) by (simp add: less_mult_imp_div_less mult.commute)
  show ?case
  proof (cases "v div 32 < w div 32")
    case True
    from Suc.IH[OF this w] show ?thesis
      by (simp add: encode_crockford_Suc less_append_left)
  next
    case False
    then have same: "v div 32 = w div 32" using div_le_mono[of v w 32] Suc.prems(1) by linarith
    then have "v mod 32 < w mod 32" using Suc.prems(1) by (metis div_mult_mod_eq nat_add_left_cancel_less)
    then have "[CROCKFORD ! (v mod 32)] < [CROCKFORD ! (w mod 32)]"
      using CROCKFORD_less[of "v mod 32" "w mod 32"] by simp
    then show ?thesis by (simp only: encode_crockford_Suc same less_append_right)
  qed
qed simp

text \<open>
  Identifiers sort by time: of two identifiers with the same prefix, made at different
  milliseconds before 2 to the 50th, the earlier is the smaller string, whatever the random part.
\<close>

theorem new_id_sortable:
  assumes "t1 < t2" and "t2 < 2 ^ 50"
  shows "new_id prefix t1 r1 < new_id prefix t2 r2"
proof -
  have "(32::nat) ^ 10 = 2 ^ 50" by simp
  with assms have "encode_crockford t1 10 < encode_crockford t2 10"
    by (intro encode_crockford_less) simp_all
  then have "new_ulid t1 r1 < new_ulid t2 r2"
    unfolding new_ulid_def by (rule less_append_left) simp
  then show ?thesis unfolding new_id_def by (intro less_append_right)
qed

theorem new_id_sortable_witness:
  "new_id ''evt'' 1700000000000 7 < new_id ''evt'' 1700000000001 3"
  using new_id_sortable[of 1700000000000 1700000000001 "''evt''" 7 3] by simp

end
