(* ===== verification/MemoryStore.thy ===== *)
theory MemoryStore
  imports Events
begin

text \<open>
  The in-memory persistence adapters of \<^verbatim>\<open>src/src/sastt/adapters/persistence/memory.py\<close>: the job
  store with its idempotency index, the event store with its bounded replay window (a second
  instance of the event stream interface) and the object store. Identifiers of new jobs are passed
  in. A job that the code changes in place is updated in the store's table.
\<close>

section \<open>Job store\<close>

record job_store =
  js_jobs :: "string \<Rightarrow> job option"
  js_by_key :: "string \<times> string \<Rightarrow> string option"

definition empty_job_store :: job_store where
  "empty_job_store = \<lparr>js_jobs = Map.empty, js_by_key = Map.empty\<rparr>"

definition new_job :: "string \<Rightarrow> string \<Rightarrow> string \<Rightarrow> string \<Rightarrow> string option \<Rightarrow> job" where
  "new_job fresh tenant key input config =
     \<lparr>job_id = fresh, tenant_id = tenant, idempotency_key = key, input_hash = input,
      job_status = QUEUED, job_config = config, job_error = None, job_warnings = [],
      job_degraded = False\<rparr>"

definition create_or_get ::
  "string \<Rightarrow> string \<Rightarrow> string \<Rightarrow> string \<Rightarrow> string option \<Rightarrow> job_store \<Rightarrow>
     (job_store \<times> job \<times> bool) res" where
  "create_or_get fresh tenant key input config s =
     (case js_by_key s (tenant, key) of
        Some existing_id \<Rightarrow>
          (case js_jobs s existing_id of
             None \<Rightarrow> Inl KeyError
           | Some existing \<Rightarrow>
               if input_hash existing \<noteq> input then Inl (Sastt IdempotencyConflictError)
               else Inr (s, existing, False))
      | None \<Rightarrow>
          let j = new_job fresh tenant key input config
          in Inr (\<lparr>js_jobs = (js_jobs s)(job_id j \<mapsto> j),
                   js_by_key = (js_by_key s)((tenant, key) \<mapsto> job_id j)\<rparr>, j, True))"

definition job_get :: "string \<Rightarrow> string \<Rightarrow> job_store \<Rightarrow> job res" where
  "job_get tenant jid s =
     (case js_jobs s jid of
        None \<Rightarrow> Inl (Sastt TenantAccessDeniedError)
      | Some j \<Rightarrow> if tenant_id j \<noteq> tenant then Inl (Sastt TenantAccessDeniedError) else Inr j)"

definition put_job :: "job \<Rightarrow> string \<Rightarrow> job_store \<Rightarrow> job_store" where
  "put_job j jid s = s\<lparr>js_jobs := (js_jobs s)(jid \<mapsto> j)\<rparr>"

definition update_state :: "string \<Rightarrow> string \<Rightarrow> job_state \<Rightarrow> job_store \<Rightarrow> (job_store \<times> job) res" where
  "update_state tenant jid st s =
     bindR (job_get tenant jid s) (\<lambda>j.
     bindR (job_transition j st) (\<lambda>j'. Inr (put_job j' jid s, j')))"

definition set_error :: "string \<Rightarrow> string \<Rightarrow> string \<Rightarrow> job_store \<Rightarrow> (job_store \<times> job) res" where
  "set_error tenant jid code s =
     bindR (job_get tenant jid s) (\<lambda>j.
       let j' = j\<lparr>job_error := Some code\<rparr> in Inr (put_job j' jid s, j'))"

section \<open>Event store\<close>

record mem_events =
  me_retention :: int
  me_events :: "string \<Rightarrow> server_event list"
  me_keys :: "(string \<times> string \<times> int) set"

definition new_mem_events :: "int \<Rightarrow> mem_events" where
  "new_mem_events retention =
     \<lparr>me_retention = retention, me_events = (\<lambda>_. []), me_keys = {}\<rparr>"

definition mem_append :: "server_event \<Rightarrow> mem_events \<Rightarrow> (mem_events \<times> server_event) res" where
  "mem_append e s =
     (let evs = me_events s (ev_session e); key = (ev_session e, ev_id e, ev_revision e)
      in if evs \<noteq> [] \<and> ev_seq e \<le> ev_seq (last evs) then Inl (Sastt PlainSasttError)
         else if key \<in> me_keys s then Inl (Sastt PlainSasttError)
         else let evs' = evs @ [e];
                  kept = (if me_retention s < int (length evs')
                          then drop (nat (int (length evs') - me_retention s)) evs' else evs')
              in Inr (s\<lparr>me_keys := insert key (me_keys s),
                        me_events := (me_events s)(ev_session e := kept)\<rparr>, e))"

definition mem_replay :: "mem_events \<Rightarrow> string \<Rightarrow> int \<Rightarrow> server_event list res" where
  "mem_replay s sid last_seen =
     (let evs = me_events s sid
      in if evs \<noteq> [] \<and> last_seen < ev_seq (hd evs) - 1 then Inl (Sastt PlainSasttError)
         else Inr (filter (\<lambda>e. last_seen < ev_seq e) evs))"

definition mem_last_sequence_number :: "mem_events \<Rightarrow> string \<Rightarrow> int" where
  "mem_last_sequence_number s sid =
     (let evs = me_events s sid in if evs = [] then 0 else ev_seq (last evs))"

section \<open>Object store\<close>

type_synonym 'p object_store = "string \<times> string \<Rightarrow> 'p option"

definition object_put :: "string \<Rightarrow> string \<Rightarrow> 'p \<Rightarrow> 'p object_store \<Rightarrow> 'p object_store \<times> string" where
  "object_put tenant key payload s = (s((tenant, key) \<mapsto> payload), ''mem://'' @ tenant @ ''/'' @ key)"

definition object_get :: "string \<Rightarrow> string \<Rightarrow> 'p object_store \<Rightarrow> 'p res" where
  "object_get tenant key s =
     (case s (tenant, key) of None \<Rightarrow> Inl (Sastt TenantAccessDeniedError) | Some p \<Rightarrow> Inr p)"

definition object_delete :: "string \<Rightarrow> string \<Rightarrow> 'p object_store \<Rightarrow> 'p object_store \<times> bool" where
  "object_delete tenant key s = (s((tenant, key) := None), s (tenant, key) \<noteq> None)"

section \<open>Runs of the job store\<close>

text \<open>The identifiers of new jobs are fresh, as ULIDs are.\<close>

inductive store_run :: "job_store \<Rightarrow> bool" where
  start: "store_run empty_job_store"
| create: "store_run s \<Longrightarrow> js_jobs s fresh = None \<Longrightarrow>
    create_or_get fresh t k h c s = Inr (s', j, new) \<Longrightarrow> store_run s'"
| state: "store_run s \<Longrightarrow> update_state t i st s = Inr (s', j) \<Longrightarrow> store_run s'"
| err: "store_run s \<Longrightarrow> set_error t i code s = Inr (s', j) \<Longrightarrow> store_run s'"

inductive later :: "job_store \<Rightarrow> job_store \<Rightarrow> bool" where
  refl: "later s s"
| create: "later s0 s \<Longrightarrow> js_jobs s fresh = None \<Longrightarrow>
    create_or_get fresh t k h c s = Inr (s', j, new) \<Longrightarrow> later s0 s'"
| state: "later s0 s \<Longrightarrow> update_state t i st s = Inr (s', j) \<Longrightarrow> later s0 s'"
| err: "later s0 s \<Longrightarrow> set_error t i code s = Inr (s', j) \<Longrightarrow> later s0 s'"

definition wf_jobs :: "job_store \<Rightarrow> bool" where
  "wf_jobs s \<longleftrightarrow>
     (\<forall>t k i. js_by_key s (t, k) = Some i \<longrightarrow>
        (\<exists>j. js_jobs s i = Some j \<and> tenant_id j = t \<and> idempotency_key j = k))
     \<and> (\<forall>i j. js_jobs s i = Some j \<longrightarrow>
          job_id j = i \<and> js_by_key s (tenant_id j, idempotency_key j) = Some i)"

text \<open>What a later job keeps of an earlier one: its identity and input, and a terminal state.\<close>

definition job_kept :: "job \<Rightarrow> job \<Rightarrow> bool" where
  "job_kept j j' \<longleftrightarrow> job_id j' = job_id j \<and> tenant_id j' = tenant_id j
     \<and> idempotency_key j' = idempotency_key j \<and> input_hash j' = input_hash j
     \<and> (job_is_terminal j \<longrightarrow> job_status j' = job_status j)"

definition jobs_kept :: "job_store \<Rightarrow> job_store \<Rightarrow> bool" where
  "jobs_kept s s' \<longleftrightarrow>
     (\<forall>i j. js_jobs s i = Some j \<longrightarrow> (\<exists>j'. js_jobs s' i = Some j' \<and> job_kept j j'))
     \<and> (\<forall>k i. js_by_key s k = Some i \<longrightarrow> js_by_key s' k = Some i)"

lemma job_kept_refl [simp]: "job_kept j j"
  by (simp add: job_kept_def)

lemma job_kept_trans: "job_kept a b \<Longrightarrow> job_kept b c \<Longrightarrow> job_kept a c"
  by (auto simp: job_kept_def job_is_terminal_def)

lemma jobs_kept_refl [simp]: "jobs_kept s s"
  by (auto simp: jobs_kept_def)

lemma jobs_kept_trans: "jobs_kept a b \<Longrightarrow> jobs_kept b c \<Longrightarrow> jobs_kept a c"
  unfolding jobs_kept_def by (meson job_kept_trans)

lemma job_get_eq_Inr: "job_get t i s = Inr j \<longleftrightarrow> js_jobs s i = Some j \<and> tenant_id j = t"
  by (auto simp: job_get_def split: option.splits)

lemma job_transition_eq_Inr:
  "job_transition j st = Inr j' \<longleftrightarrow> (job_is_terminal j \<longrightarrow> st = job_status j) \<and> j' = j\<lparr>job_status := st\<rparr>"
  by (auto simp: job_transition_def)

lemma wf_jobs_job:
  "wf_jobs s \<Longrightarrow> js_jobs s i = Some j \<Longrightarrow>
     job_id j = i \<and> js_by_key s (tenant_id j, idempotency_key j) = Some i"
  unfolding wf_jobs_def by blast

lemma wf_jobs_key:
  assumes "wf_jobs s" and "js_by_key s (t, k) = Some i"
  shows "\<exists>j. js_jobs s i = Some j \<and> tenant_id j = t \<and> idempotency_key j = k \<and> job_id j = i"
proof -
  from assms obtain j where "js_jobs s i = Some j" "tenant_id j = t" "idempotency_key j = k"
    unfolding wf_jobs_def by blast
  with wf_jobs_job[OF assms(1)] show ?thesis by blast
qed

lemma put_job_kept:
  assumes wf: "wf_jobs s" and j: "js_jobs s i = Some j" and kept: "job_kept j j'"
  shows "wf_jobs (put_job j' i s) \<and> jobs_kept s (put_job j' i s)"
proof
  have same: "job_id j' = job_id j" "tenant_id j' = tenant_id j" "idempotency_key j' = idempotency_key j"
    using kept by (simp_all add: job_kept_def)
  show "wf_jobs (put_job j' i s)"
    unfolding wf_jobs_def
  proof (intro conjI allI impI)
    fix t k m assume "js_by_key (put_job j' i s) (t, k) = Some m"
    then have "js_by_key s (t, k) = Some m" by (simp add: put_job_def)
    then obtain j0 where "js_jobs s m = Some j0" "tenant_id j0 = t" "idempotency_key j0 = k"
      using wf_jobs_key[OF wf] by blast
    then show "\<exists>j. js_jobs (put_job j' i s) m = Some j \<and> tenant_id j = t \<and> idempotency_key j = k"
      using j same by (cases "m = i") (auto simp: put_job_def)
  next
    fix m j0 assume "js_jobs (put_job j' i s) m = Some j0"
    then show "job_id j0 = m"
        "js_by_key (put_job j' i s) (tenant_id j0, idempotency_key j0) = Some m"
      using wf_jobs_job[OF wf] j same by (auto simp: put_job_def split: if_splits)
  qed
  show "jobs_kept s (put_job j' i s)"
    using j kept by (auto simp: jobs_kept_def put_job_def)
qed

lemma update_state_kept:
  assumes "wf_jobs s" and "update_state t i st s = Inr (s', j)"
  shows "wf_jobs s' \<and> jobs_kept s s'"
proof -
  from assms(2) obtain j0 where "js_jobs s i = Some j0" "job_kept j0 j" "s' = put_job j i s"
    by (auto simp: update_state_def bindR_eq_Inr job_get_eq_Inr job_transition_eq_Inr job_kept_def)
  with put_job_kept[OF assms(1)] show ?thesis by blast
qed

lemma set_error_kept:
  assumes "wf_jobs s" and "set_error t i code s = Inr (s', j)"
  shows "wf_jobs s' \<and> jobs_kept s s'"
proof -
  from assms(2) obtain j0 where "js_jobs s i = Some j0" "job_kept j0 j" "s' = put_job j i s"
    by (auto simp: set_error_def Let_def bindR_eq_Inr job_get_eq_Inr job_kept_def)
  with put_job_kept[OF assms(1)] show ?thesis by blast
qed

lemma create_or_get_kept:
  assumes "wf_jobs s" and "js_jobs s fresh = None"
    and "create_or_get fresh t k h c s = Inr (s', j, new)"
  shows "wf_jobs s' \<and> jobs_kept s s' \<and> js_by_key s' (t, k) = Some (job_id j)
    \<and> js_jobs s' (job_id j) = Some j \<and> input_hash j = h \<and> tenant_id j = t \<and> idempotency_key j = k"
proof (cases "js_by_key s (t, k)")
  case None
  then have s': "s' = \<lparr>js_jobs = (js_jobs s)(fresh \<mapsto> new_job fresh t k h c),
       js_by_key = (js_by_key s)((t, k) \<mapsto> fresh)\<rparr>" and j: "j = new_job fresh t k h c"
    using assms(3) by (auto simp: create_or_get_def Let_def new_job_def)
  have "wf_jobs s'"
    unfolding wf_jobs_def
  proof (intro conjI allI impI)
    fix t' k' m assume key: "js_by_key s' (t', k') = Some m"
    show "\<exists>j. js_jobs s' m = Some j \<and> tenant_id j = t' \<and> idempotency_key j = k'"
    proof (cases "(t', k') = (t, k)")
      case True
      then show ?thesis using key by (auto simp: s' new_job_def)
    next
      case False
      then have "js_by_key s (t', k') = Some m" using key by (auto simp: s')
      then obtain j0 where "js_jobs s m = Some j0" "tenant_id j0 = t'" "idempotency_key j0 = k'"
        using wf_jobs_key[OF assms(1)] by blast
      then show ?thesis using assms(2) by (auto simp: s')
    qed
  next
    fix m j0 assume j0: "js_jobs s' m = Some j0"
    show "job_id j0 = m" "js_by_key s' (tenant_id j0, idempotency_key j0) = Some m"
      using j0 wf_jobs_job[OF assms(1), of m j0] None
      by (auto simp: s' new_job_def split: if_splits)
  qed
  moreover have "jobs_kept s s'"
    using assms(2) None by (auto simp: jobs_kept_def s')
  ultimately show ?thesis by (simp add: s' j new_job_def)
next
  case (Some i)
  then obtain j0 where "js_jobs s i = Some j0" "tenant_id j0 = t" "idempotency_key j0 = k"
      "job_id j0 = i"
    using wf_jobs_key[OF assms(1)] by blast
  then show ?thesis
    using assms Some by (auto simp: create_or_get_def split: if_splits)
qed

lemma wf_empty [simp]: "wf_jobs empty_job_store"
  by (simp add: wf_jobs_def empty_job_store_def)

lemma store_run_wf: "store_run s \<Longrightarrow> wf_jobs s"
proof (induction rule: store_run.induct)
  case start
  show ?case by simp
next
  case create
  then show ?case using create_or_get_kept by blast
next
  case state
  then show ?case using update_state_kept by blast
next
  case err
  then show ?case using set_error_kept by blast
qed

lemma later_kept: "later s s' \<Longrightarrow> wf_jobs s \<Longrightarrow> wf_jobs s' \<and> jobs_kept s s'"
proof (induction rule: later.induct)
  case refl
  then show ?case by simp
next
  case create
  then show ?case using create_or_get_kept jobs_kept_trans by blast
next
  case state
  then show ?case using update_state_kept jobs_kept_trans by blast
next
  case err
  then show ?case using set_error_kept jobs_kept_trans by blast
qed

text \<open>
  Idempotent submission. After a request has been stored, and whatever other requests, state
  changes and errors follow, the same tenant and key with the same input gets the same job and
  creates nothing, and with another input is refused as a conflict.
\<close>

theorem submission_idempotent:
  assumes "store_run s" and "js_jobs s fresh = None"
    and "create_or_get fresh t k h c s = Inr (s1, j, new)" and "later s1 s2"
  shows "\<exists>j2. job_kept j j2 \<and>
    create_or_get fresh2 t k h2 c2 s2 =
      (if h2 = h then Inr (s2, j2, False) else Inl (Sastt IdempotencyConflictError))"
proof -
  note created = create_or_get_kept[OF store_run_wf[OF assms(1)] assms(2,3)]
  then have "jobs_kept s1 s2" using later_kept[OF assms(4)] by simp
  with created obtain j2 where "js_by_key s2 (t, k) = Some (job_id j)"
      "js_jobs s2 (job_id j) = Some j2" "job_kept j j2"
    unfolding jobs_kept_def by blast
  with created show ?thesis
    by (intro exI[of _ j2]) (auto simp: create_or_get_def job_kept_def)
qed

theorem submission_idempotent_witness:
  "\<exists>s1 j j2. create_or_get ''j1'' ''t'' ''k'' ''h'' None empty_job_store = Inr (s1, j, True)
    \<and> create_or_get ''j2'' ''t'' ''k'' ''h'' None s1 = Inr (s1, j2, False) \<and> job_kept j j2"
proof -
  obtain s1 j where c: "create_or_get ''j1'' ''t'' ''k'' ''h'' None empty_job_store = Inr (s1, j, True)"
    by (simp add: create_or_get_def empty_job_store_def Let_def)
  have "js_jobs empty_job_store ''j1'' = None" by (simp add: empty_job_store_def)
  from submission_idempotent[OF store_run.start this c later.refl, of "''j2''" "''h''" None] c
  show ?thesis by auto
qed

text \<open>
  A terminal job never changes state again, and no job changes tenant: after any further
  operations it is there with its state, its own tenant reads it, and every other tenant is
  refused.
\<close>

theorem terminal_job_final:
  assumes "store_run s" and "job_get t i s = Inr j" and "job_is_terminal j" and "later s s'"
  shows "(\<exists>j'. job_get t i s' = Inr j' \<and> job_status j' = job_status j)
    \<and> (\<forall>t'. t' \<noteq> t \<longrightarrow> job_get t' i s' = Inl (Sastt TenantAccessDeniedError))
    \<and> (\<forall>st. st \<noteq> job_status j \<longrightarrow> update_state t i st s' = Inl ValueError)"
proof -
  from assms(2) have j: "js_jobs s i = Some j" "tenant_id j = t" by (simp_all add: job_get_eq_Inr)
  have "jobs_kept s s'" using later_kept[OF assms(4) store_run_wf[OF assms(1)]] by simp
  with j obtain j' where j': "js_jobs s' i = Some j'" "job_kept j j'"
    unfolding jobs_kept_def by blast
  then have "tenant_id j' = t" "job_status j' = job_status j" "job_is_terminal j'"
    using j assms(3) by (auto simp: job_kept_def job_is_terminal_def)
  with j' show ?thesis
    by (auto simp: job_get_def update_state_def job_transition_def)
qed

theorem terminal_job_final_witness:
  "\<exists>s. update_state ''t'' ''j1'' QUEUED s = Inl ValueError"
proof -
  obtain s1 j where c: "create_or_get ''j1'' ''t'' ''k'' ''h'' None empty_job_store = Inr (s1, j, True)"
      and s1: "js_jobs s1 = [''j1'' \<mapsto> new_job ''j1'' ''t'' ''k'' ''h'' None]"
    by (simp add: create_or_get_def empty_job_store_def Let_def new_job_def)
  have f: "js_jobs empty_job_store ''j1'' = None" by (simp add: empty_job_store_def)
  have run1: "store_run s1" by (rule store_run.create[OF store_run.start f c])
  define j2 where "j2 = (new_job ''j1'' ''t'' ''k'' ''h'' None)\<lparr>job_status := SUCCEEDED\<rparr>"
  have u: "update_state ''t'' ''j1'' SUCCEEDED s1 = Inr (put_job j2 ''j1'' s1, j2)"
    by (simp add: update_state_def job_get_def s1 job_transition_def new_job_def job_is_terminal_def
        TERMINAL_JOB_STATES_def j2_def)
  have g: "job_get ''t'' ''j1'' (put_job j2 ''j1'' s1) = Inr j2"
    by (simp add: job_get_def put_job_def j2_def new_job_def)
  have done_job: "job_is_terminal j2" by (simp add: j2_def job_is_terminal_def TERMINAL_JOB_STATES_def)
  show ?thesis
    using terminal_job_final[OF store_run.state[OF run1 u] g done_job later.refl]
    by (auto simp: j2_def)
qed

section \<open>The event store as an event stream\<close>

text \<open>
  \<open>mem_stores sid s hs\<close>: of the history \<open>hs\<close> of appended events, the events of session \<open>sid\<close> have
  increasing numbers, the store holds a suffix of them and never drops the latest.
\<close>

definition mem_stores :: "string \<Rightarrow> mem_events \<Rightarrow> server_event list \<Rightarrow> bool" where
  "mem_stores sid s hs \<longleftrightarrow>
     (let own = filter (\<lambda>e. ev_session e = sid) hs in
      1 \<le> me_retention s \<and> sorted_wrt (<) (map ev_seq own)
      \<and> (\<exists>k. me_events s sid = drop k own) \<and> (me_events s sid = [] \<longrightarrow> own = [])
      \<and> (\<forall>e\<in>set hs. (ev_session e, ev_id e, ev_revision e) \<in> me_keys s))"

lemma mem_stores_new: "1 \<le> r \<Longrightarrow> mem_stores sid (new_mem_events r) []"
  by (auto simp: mem_stores_def new_mem_events_def)

lemma sorted_snoc:
  "sorted_wrt (<) (map f own) \<Longrightarrow> own = [] \<or> f (last own) < (f e :: int) \<Longrightarrow>
     sorted_wrt (<) (map f (own @ [e]))"
  using sorted_last[of f own] by (force simp: sorted_wrt_append)

lemma mem_append_stores:
  assumes st: "mem_stores sid s hs" and ok: "mem_append e s = Inr (s', x)"
  shows "if s' = s then x \<in> set hs else mem_stores sid s' (hs @ [x])"
proof -
  let ?own = "filter (\<lambda>e. ev_session e = sid) hs"
  let ?key = "(ev_session e, ev_id e, ev_revision e)"
  define evs where "evs = me_events s (ev_session e)"
  define kept where "kept = (if me_retention s < int (length (evs @ [e]))
      then drop (nat (int (length (evs @ [e])) - me_retention s)) (evs @ [e]) else evs @ [e])"
  have x: "x = e" and key: "?key \<notin> me_keys s" and order: "evs = [] \<or> ev_seq (last evs) < ev_seq e"
    and s': "s' = s\<lparr>me_keys := insert ?key (me_keys s),
                  me_events := (me_events s)(ev_session e := kept)\<rparr>"
    using ok unfolding mem_append_def Let_def evs_def[symmetric] kept_def[symmetric]
    by (auto split: if_splits)
  have ret: "1 \<le> me_retention s" and srt: "sorted_wrt (<) (map ev_seq ?own)"
    and "\<exists>k. me_events s sid = drop k ?own" and ne: "me_events s sid = [] \<longrightarrow> ?own = []"
    and keys: "\<forall>e\<in>set hs. (ev_session e, ev_id e, ev_revision e) \<in> me_keys s"
    using st by (simp_all add: mem_stores_def Let_def)
  then obtain k where k: "me_events s sid = drop k ?own" by blast
  have "s' \<noteq> s"
  proof
    assume "s' = s"
    then have "me_keys s' = me_keys s" by simp
    with key show False by (auto simp: s')
  qed
  moreover have "mem_stores sid s' (hs @ [e])"
  proof (cases "ev_session e = sid")
    case False
    then have same: "filter (\<lambda>e. ev_session e = sid) (hs @ [e]) = ?own"
        "me_events s' sid = me_events s sid" by (simp_all add: s')
    have "\<forall>x\<in>set (hs @ [e]). (ev_session x, ev_id x, ev_revision x) \<in> me_keys s'"
      using keys by (simp add: s')
    moreover have "1 \<le> me_retention s'" using ret by (simp add: s')
    ultimately show ?thesis
      unfolding mem_stores_def Let_def same using srt ne k by blast
  next
    case True
    have evs: "evs = drop k ?own" "evs = [] \<longrightarrow> ?own = []" using k ne True by (simp_all add: evs_def)
    have last: "?own = [] \<or> ev_seq (last ?own) < ev_seq e"
    proof (cases "evs = []")
      case False
      then have "k < length ?own" using evs(1) by (metis drop_all leI)
      then have "last evs = last ?own" unfolding evs(1) by (rule last_drop)
      then show ?thesis using order False by simp
    qed (use evs(2) in simp)
    have full: "evs @ [e] = drop (min k (length ?own)) (?own @ [e])"
      using evs(1) by (simp add: min_def)
    have "kept \<noteq> []" using ret by (simp add: kept_def)
    moreover have "\<exists>j. kept = drop j (?own @ [e])"
    proof (cases "me_retention s < int (length (evs @ [e]))")
      case True
      then have "kept = drop (nat (int (length (evs @ [e])) - me_retention s)) (evs @ [e])"
        by (simp add: kept_def)
      also have "\<dots> = drop (nat (int (length (evs @ [e])) - me_retention s) + min k (length ?own))
          (?own @ [e])"
        by (simp only: full drop_drop)
      finally show ?thesis by blast
    next
      case False
      then have "kept = evs @ [e]" by (simp add: kept_def)
      then show ?thesis using full by blast
    qed
    moreover have same: "filter (\<lambda>e. ev_session e = sid) (hs @ [e]) = ?own @ [e]"
        "me_events s' sid = kept" using True by (simp_all add: s')
    moreover have "\<forall>x\<in>set (hs @ [e]). (ev_session x, ev_id x, ev_revision x) \<in> me_keys s'"
      using keys by (simp add: s')
    ultimately show ?thesis
      unfolding mem_stores_def Let_def same
      using ret sorted_snoc[of ev_seq ?own e, OF srt last] by (simp add: s')
  qed
  ultimately show ?thesis using x by simp
qed

lemma mem_replay_exact:
  assumes st: "mem_stores sid s hs" and n: "0 \<le> n" and ok: "mem_replay s sid n = Inr es"
  shows "es = filter (\<lambda>e. ev_session e = sid \<and> n < ev_seq e) hs"
proof -
  let ?own = "filter (\<lambda>e. ev_session e = sid) hs"
  have srt: "sorted_wrt (<) (map ev_seq ?own)" and "\<exists>k. me_events s sid = drop k ?own"
    and ne: "me_events s sid = [] \<longrightarrow> ?own = []"
    using st by (simp_all add: mem_stores_def Let_def)
  then obtain k where k: "me_events s sid = drop k ?own" by blast
  have es: "es = filter (\<lambda>e. n < ev_seq e) (drop k ?own)"
    and first: "drop k ?own \<noteq> [] \<longrightarrow> ev_seq (hd (drop k ?own)) - 1 \<le> n"
    using ok[unfolded mem_replay_def Let_def k] by (simp_all split: if_split_asm) linarith
  have "ev_seq e \<le> n" if "e \<in> set (take k ?own)" for e
  proof -
    have d: "drop k ?own \<noteq> []"
    proof
      assume "drop k ?own = []"
      with k ne have "?own = []" by argo
      with that show False by simp
    qed
    from sorted_take_drop[OF srt that hd_in_set[OF d]]
    have "ev_seq e < ev_seq (hd (drop k ?own))" .
    with first d show ?thesis by simp
  qed
  then have "filter (\<lambda>e. n < ev_seq e) (take k ?own) = []" by (auto simp: filter_empty_conv not_less)
  then have "filter (\<lambda>e. n < ev_seq e) (take k ?own @ drop k ?own) = es"
    using es by (simp only: filter_append append_Nil)
  then show ?thesis by (simp add: conj_commute)
qed

interpretation mem_store: event_stream mem_append "\<lambda>s. mem_replay s sid" ev_seq
    "\<lambda>e. ev_session e = sid" "mem_stores sid" for sid
proof
  fix l hs r l' e
  assume "mem_stores sid l hs" "mem_append r l = Inr (l', e)"
  then show "if l' = l then e \<in> set hs else mem_stores sid l' (hs @ [e])" by (rule mem_append_stores)
next
  fix l hs n es
  assume "mem_stores sid l hs" "0 \<le> n" "mem_replay l sid n = Inr es"
  then show "es = filter (\<lambda>e. ev_session e = sid \<and> n < ev_seq e) hs" by (rule mem_replay_exact)
next
  fix l hs
  assume "mem_stores sid l hs"
  then show "sorted_wrt (<) (map ev_seq (filter (\<lambda>e. ev_session e = sid) hs))"
    by (simp add: mem_stores_def Let_def)
qed

text \<open>
  The durable event store keeps sessions apart and loses nothing: a client reading session
  \<open>sid\<close> through reconnects, while events of any session are appended, has received exactly that
  session's events with a positive number up to its cursor, in order and each once.
\<close>

theorem store_reconnect_exactly_once:
  assumes "mem_store.served sid s hs c ds"
  shows "ds = filter (\<lambda>e. ev_session e = sid \<and> 0 < ev_seq e \<and> ev_seq e \<le> c) hs \<and> distinct ds"
  using mem_store.served_exact[OF assms] mem_store.served_distinct[OF assms]
  by (simp add: conj_commute conj_left_commute)

theorem store_reconnect_exactly_once_witness:
  "\<exists>s e. mem_store.served ''s'' s [e] 1 [e] \<and> distinct [e]"
proof -
  let ?e = "new_event example_log (example_request ''a'')"
  let ?s0 = "new_mem_events 10"
  define s1 where "s1 = ?s0\<lparr>me_keys := {(''s'', ''evt_a'', 1)}, me_events := (\<lambda>_. [])(''s'' := [?e])\<rparr>"
  have start: "mem_store.served ''s'' ?s0 [] 0 []"
    by (rule mem_store.served_start) (rule mem_stores_new, simp)
  have app: "mem_append ?e ?s0 = Inr (s1, ?e)"
    by (simp add: mem_append_def new_mem_events_def Let_def s1_def new_event_def example_request_def
        new_log_def)
  have "s1 \<noteq> ?s0" by (simp add: s1_def new_mem_events_def)
  then have 1: "mem_store.served ''s'' s1 [?e] 0 []"
    using mem_store.served_append[OF start app] by simp
  have "mem_replay s1 ''s'' 0 = Inr [?e]"
    by (simp add: mem_replay_def s1_def new_mem_events_def new_log_def)
  from mem_store.served_reconnect[OF 1 this]
  have 2: "mem_store.served ''s'' s1 [?e] 1 [?e]" by (simp add: new_log_def)
  from store_reconnect_exactly_once[OF 2] 2 show ?thesis by blast
qed

section \<open>Object store\<close>

lemma object_store_laws:
  "object_get t k (fst (object_put t k p s)) = Inr p"
  "(t, k) \<noteq> (t', k') \<Longrightarrow> object_get t' k' (fst (object_put t k p s)) = object_get t' k' s"
  "object_get t k (fst (object_delete t k s)) = Inl (Sastt TenantAccessDeniedError)"
  "snd (object_delete t k s) \<longleftrightarrow> (\<exists>p. object_get t k s = Inr p)"
  by (auto simp: object_get_def object_put_def object_delete_def split: option.splits)

end
