(* ===== verification/AudioTime.thy ===== *)
theory AudioTime
  imports Prelude
begin

text \<open>
  Time and intervals of \<^verbatim>\<open>src/src/sastt/domain/audio.py\<close>: the conversions between sample indices
  and integer milliseconds, the half-open \<open>TimeInterval\<close> with its methods, and the merging of
  interval lists. The meaning of an interval list is the set of milliseconds it covers
  (\<open>covered\<close>); merging, total duration and, later, subtraction are specified against it.

  A constructor call that can raise for valid arguments is written with \<open>mk_interval\<close>. Where the
  source builds an interval whose bounds are in order by the code around it (\<open>clamp\<close>,
  \<open>merge_intervals\<close>), the model builds it directly and a lemma shows the bounds are valid, so the
  constructor's check cannot fire.
\<close>

section \<open>Samples and milliseconds\<close>

definition MS_PER_SECOND :: int where "MS_PER_SECOND = 1000"

definition CANONICAL_SAMPLE_RATE :: int where "CANONICAL_SAMPLE_RATE = 16000"

definition to_ms :: "int \<Rightarrow> int \<Rightarrow> int" where
  "to_ms sample_index sample_rate =
     (sample_index * MS_PER_SECOND + sample_rate div 2) div sample_rate"

definition to_samples :: "int \<Rightarrow> int \<Rightarrow> int" where
  "to_samples ms sample_rate = (ms * sample_rate + MS_PER_SECOND div 2) div MS_PER_SECOND"

definition samples_to_ms :: "int \<Rightarrow> int \<Rightarrow> int res" where
  "samples_to_ms sample_index sample_rate =
     (if sample_rate \<le> 0 then Inl ValueError
      else if sample_index < 0 then Inl ValueError
      else Inr (to_ms sample_index sample_rate))"

definition ms_to_samples :: "int \<Rightarrow> int \<Rightarrow> int res" where
  "ms_to_samples ms sample_rate =
     (if sample_rate \<le> 0 then Inl ValueError
      else if ms < 0 then Inl ValueError
      else Inr (to_samples ms sample_rate))"

definition seconds_to_ms :: "real \<Rightarrow> int" where
  "seconds_to_ms seconds = py_round (seconds * of_int MS_PER_SECOND)"

section \<open>Intervals\<close>

datatype time_interval = TI (ti_start: int) (ti_end: int)

text \<open>\<open>@dataclass(order=True)\<close> compares intervals as the tuple of their fields.\<close>

instantiation time_interval :: linorder
begin

definition less_eq_time_interval :: "time_interval \<Rightarrow> time_interval \<Rightarrow> bool" where
  "less_eq_time_interval a b \<longleftrightarrow>
     ti_start a < ti_start b \<or> ti_start a = ti_start b \<and> ti_end a \<le> ti_end b"

definition less_time_interval :: "time_interval \<Rightarrow> time_interval \<Rightarrow> bool" where
  "less_time_interval a b \<longleftrightarrow>
     ti_start a < ti_start b \<or> ti_start a = ti_start b \<and> ti_end a < ti_end b"

instance
  by standard
    (auto simp: less_eq_time_interval_def less_time_interval_def time_interval.expand)

end

lemma interval_le_start: "a \<le> b \<Longrightarrow> ti_start a \<le> ti_start b"
  by (auto simp: less_eq_time_interval_def)

definition valid_interval :: "time_interval \<Rightarrow> bool" where
  "valid_interval i \<longleftrightarrow> 0 \<le> ti_start i \<and> ti_start i < ti_end i"

text \<open>\<open>TimeInterval(start_ms, end_ms)\<close> with the checks of \<open>__post_init__\<close>.\<close>

definition mk_interval :: "int \<Rightarrow> int \<Rightarrow> time_interval res" where
  "mk_interval s e =
     (if s < 0 then Inl ValueError
      else if e \<le> s then Inl ValueError
      else Inr (TI s e))"

definition duration_ms :: "time_interval \<Rightarrow> int" where
  "duration_ms i = ti_end i - ti_start i"

definition intersects :: "time_interval \<Rightarrow> time_interval \<Rightarrow> bool" where
  "intersects a b \<longleftrightarrow> ti_start a < ti_end b \<and> ti_start b < ti_end a"

definition intersection_ms :: "time_interval \<Rightarrow> time_interval \<Rightarrow> int" where
  "intersection_ms a b = max 0 (min (ti_end a) (ti_end b) - max (ti_start a) (ti_start b))"

definition contains_ms :: "time_interval \<Rightarrow> int \<Rightarrow> bool" where
  "contains_ms i ms \<longleftrightarrow> ti_start i \<le> ms \<and> ms < ti_end i"

definition gap_ms :: "time_interval \<Rightarrow> time_interval \<Rightarrow> int" where
  "gap_ms a b =
     (if intersects a b then 0
      else max (ti_start b - ti_end a) (ti_start a - ti_end b))"

definition pad_interval :: "time_interval \<Rightarrow> int \<Rightarrow> int \<Rightarrow> int option \<Rightarrow> time_interval res" where
  "pad_interval i context_ms lower_bound_ms upper_bound_ms =
     (let start = max lower_bound_ms (ti_start i - context_ms);
          end0 = ti_end i + context_ms;
          end1 = (case upper_bound_ms of None \<Rightarrow> end0 | Some u \<Rightarrow> min u end0)
      in mk_interval start (max end1 (start + 1)))"

definition clamp :: "time_interval \<Rightarrow> time_interval \<Rightarrow> time_interval option" where
  "clamp i bounds =
     (let start = max (ti_start i) (ti_start bounds);
          e = min (ti_end i) (ti_end bounds)
      in if e \<le> start then None else Some (TI start e))"

section \<open>Interval lists\<close>

text \<open>
  The loop over \<open>ordered[1:]\<close>: \<open>prev\<close> is \<open>merged[-1]\<close>, which is replaced while intervals keep
  touching it and becomes final when the next interval starts later than \<open>merge_gap_ms\<close> after it.
\<close>

fun merge_loop :: "int \<Rightarrow> time_interval \<Rightarrow> time_interval list \<Rightarrow> time_interval list" where
  "merge_loop merge_gap_ms prev [] = [prev]"
| "merge_loop merge_gap_ms prev (interval # rest) =
     (if ti_start interval - ti_end prev \<le> merge_gap_ms
      then merge_loop merge_gap_ms
             (TI (ti_start prev) (max (ti_end prev) (ti_end interval))) rest
      else prev # merge_loop merge_gap_ms interval rest)"

definition merge_intervals :: "time_interval list \<Rightarrow> int \<Rightarrow> time_interval list" where
  "merge_intervals intervals merge_gap_ms =
     (case sort intervals of [] \<Rightarrow> [] | first # rest \<Rightarrow> merge_loop merge_gap_ms first rest)"

definition total_duration_ms :: "time_interval list \<Rightarrow> int" where
  "total_duration_ms intervals = sum_list (map duration_ms (merge_intervals intervals 0))"

lemma to_ms_nonneg: "0 \<le> n \<Longrightarrow> 0 < rate \<Longrightarrow> 0 \<le> to_ms n rate"
  by (auto simp: to_ms_def MS_PER_SECOND_def pos_imp_zdiv_nonneg_iff)

lemma to_samples_nonneg: "0 \<le> t \<Longrightarrow> 0 < rate \<Longrightarrow> 0 \<le> to_samples t rate"
  by (auto simp: to_samples_def MS_PER_SECOND_def pos_imp_zdiv_nonneg_iff)

lemma to_samples_mono: "s \<le> t \<Longrightarrow> 0 < rate \<Longrightarrow> to_samples s rate \<le> to_samples t rate"
  by (auto simp: to_samples_def MS_PER_SECOND_def mult_right_mono intro!: zdiv_mono1)

lemma to_ms_mono: "m \<le> n \<Longrightarrow> 0 < rate \<Longrightarrow> to_ms m rate \<le> to_ms n rate"
  by (auto simp: to_ms_def MS_PER_SECOND_def intro!: zdiv_mono1)

lemma int_div_eqI: "0 < (b::int) \<Longrightarrow> q * b \<le> a \<Longrightarrow> a < q * b + b \<Longrightarrow> a div b = q"
  by (rule int_div_pos_eq[where r = "a - q * b"]) (auto simp: algebra_simps)

text \<open>At any rate of at least 1 kHz a millisecond survives the trip through samples.\<close>

lemma ms_samples_ms:
  assumes "1000 \<le> rate" and "0 \<le> t"
  shows "bindR (ms_to_samples t rate) (\<lambda>n. samples_to_ms n rate) = Inr t"
proof -
  define n where "n = (t * rate + 500) div 1000"
  have n: "t * rate - 499 \<le> n * 1000" "n * 1000 \<le> t * rate + 500"
    unfolding n_def by linarith+
  have "0 \<le> n" using assms by (simp add: n_def pos_imp_zdiv_nonneg_iff)
  have "(n * 1000 + rate div 2) div rate = t"
  proof (cases "rate = 1000")
    case True
    then have "n = t" by (simp add: n_def)
    with True show ?thesis by simp
  next
    case False
    with assms have "500 \<le> rate div 2" "rate div 2 + 500 < rate" by linarith+
    with assms n show ?thesis by (intro int_div_eqI) linarith+
  qed
  with \<open>0 \<le> n\<close> assms show ?thesis
    by (simp add: ms_to_samples_def samples_to_ms_def to_ms_def to_samples_def
        MS_PER_SECOND_def n_def)
qed

section \<open>The milliseconds an interval list covers\<close>

definition span :: "time_interval \<Rightarrow> int set" where
  "span i = {ti_start i..<ti_end i}"

definition covered :: "time_interval list \<Rightarrow> int set" where
  "covered is = (\<Union>i\<in>set is. span i)"

definition separated :: "int \<Rightarrow> time_interval list \<Rightarrow> bool" where
  "separated gap is \<longleftrightarrow> sorted_wrt (\<lambda>a b. ti_end a + gap < ti_start b) is"

named_theorems interval_simps \<open>unfolding of interval operations\<close>

declare duration_ms_def [interval_simps] intersects_def [interval_simps]
  intersection_ms_def [interval_simps] contains_ms_def [interval_simps]
  span_def [interval_simps] valid_interval_def [interval_simps]

lemma covered_Nil [simp]: "covered [] = {}"
  by (simp add: covered_def)

lemma covered_Cons [simp]: "covered (i # is) = span i \<union> covered is"
  by (simp add: covered_def)

lemma covered_append [simp]: "covered (xs @ ys) = covered xs \<union> covered ys"
  by (simp add: covered_def)

lemma covered_sort [simp]: "covered (sort is) = covered is"
  by (simp add: covered_def)

lemma finite_covered [simp]: "finite (covered is)"
  by (simp add: covered_def span_def)

lemma mk_interval_valid: "mk_interval s e = Inr i \<Longrightarrow> valid_interval i \<and> i = TI s e"
  by (auto simp: mk_interval_def valid_interval_def split: if_splits)

lemma mk_interval_eq_Inr [simp]: "mk_interval s e = Inr i \<longleftrightarrow> 0 \<le> s \<and> s < e \<and> i = TI s e"
  by (auto simp: mk_interval_def)

lemma intersects_span: "valid_interval a \<Longrightarrow> valid_interval b \<Longrightarrow>
    intersects a b \<longleftrightarrow> span a \<inter> span b \<noteq> {}"
  by (auto simp: interval_simps intro: exI[of _ "max (ti_start a) (ti_start b)"])

lemma intersection_ms_card: "intersection_ms a b = int (card (span a \<inter> span b))"
  by (cases "max (ti_start a) (ti_start b) \<le> min (ti_end a) (ti_end b)")
    (auto simp: interval_simps)

lemma intersects_iff_intersection_ms:
  "valid_interval a \<Longrightarrow> valid_interval b \<Longrightarrow> intersects a b \<longleftrightarrow> 0 < intersection_ms a b"
  by (auto simp: interval_simps)

lemma intersects_commute: "intersects a b = intersects b a"
  by (auto simp: intersects_def)

lemma clamp_SomeD: "clamp i b = Some c \<Longrightarrow> span c = span i \<inter> span b \<and> ti_start c < ti_end c"
  by (auto simp: clamp_def Let_def span_def split: if_splits)

lemma clamp_None_iff: "clamp i b = None \<longleftrightarrow> span i \<inter> span b = {}"
  by (auto simp: clamp_def Let_def span_def)

lemma clamp_valid: "valid_interval i \<Longrightarrow> clamp i b = Some c \<Longrightarrow> valid_interval c"
  by (auto simp: clamp_def Let_def valid_interval_def split: if_splits)

section \<open>Merging\<close>

lemma merge_loop_not_Nil [simp]: "merge_loop gap l is \<noteq> []"
  by (induction gap l "is" rule: merge_loop.induct) auto

lemma merge_loop_start_ge:
  "sorted (map ti_start (l # is)) \<Longrightarrow> m \<in> set (merge_loop gap l is) \<Longrightarrow> ti_start l \<le> ti_start m"
  by (induction gap l "is" rule: merge_loop.induct) (force split: if_splits)+

lemma merge_loop_hd_start: "ti_start (hd (merge_loop gap l is)) = ti_start l"
  by (induction gap l "is" rule: merge_loop.induct) auto

lemma merge_loop_separated:
  "sorted (map ti_start (l # is)) \<Longrightarrow> separated gap (merge_loop gap l is)"
proof (induction gap l "is" rule: merge_loop.induct)
  case (2 gap l i "is")
  show ?case
  proof (cases "ti_start i - ti_end l \<le> gap")
    case True
    then show ?thesis using 2 by auto
  next
    case False
    have "ti_start i \<le> ti_start m" if "m \<in> set (merge_loop gap i is)" for m
      using merge_loop_start_ge[OF _ that] "2.prems" by simp
    with False 2 show ?thesis by (force simp: separated_def)
  qed
qed (simp add: separated_def)

lemma merge_loop_valid:
  "valid_interval l \<Longrightarrow> \<forall>i\<in>set is. valid_interval i \<Longrightarrow>
     \<forall>m\<in>set (merge_loop gap l is). valid_interval m"
  by (induction gap l "is" rule: merge_loop.induct) (auto simp: valid_interval_def)

lemma merge_loop_covers:
  "covered (l # is) \<subseteq> covered (merge_loop gap l is)"
  if "sorted (map ti_start (l # is))"
  using that
proof (induction gap l "is" rule: merge_loop.induct)
  case (2 gap l i "is")
  show ?case
  proof (cases "ti_start i - ti_end l \<le> gap")
    case True
    have "span l \<union> span i \<subseteq> span (TI (ti_start l) (max (ti_end l) (ti_end i)))"
      using "2.prems" by (auto simp: span_def)
    moreover have "covered (TI (ti_start l) (max (ti_end l) (ti_end i)) # is)
        \<subseteq> covered (merge_loop gap l (i # is))"
      using True 2 by simp
    ultimately show ?thesis by auto
  next
    case False
    then show ?thesis using 2 by auto
  qed
qed simp

lemma merge_loop_covered:
  "covered (merge_loop 0 l is) = covered (l # is)"
  if "sorted (map ti_start (l # is))" "valid_interval l" "\<forall>i\<in>set is. valid_interval i"
  using that
proof (induction "0::int" l "is" rule: merge_loop.induct)
  case (2 l i "is")
  show ?case
  proof (cases "ti_start i - ti_end l \<le> 0")
    case True
    have "span (TI (ti_start l) (max (ti_end l) (ti_end i))) = span l \<union> span i"
      using "2.prems" True by (auto simp: interval_simps)
    moreover have "covered (merge_loop 0 (TI (ti_start l) (max (ti_end l) (ti_end i))) is)
        = covered (TI (ti_start l) (max (ti_end l) (ti_end i)) # is)"
      using 2 True by (auto simp: valid_interval_def)
    ultimately show ?thesis using True by auto
  next
    case False
    then show ?thesis using 2 by auto
  qed
qed simp

lemma sorted_interval_starts: "sorted xs \<Longrightarrow> sorted (map ti_start xs)"
  by (induction xs) (auto simp: interval_le_start)

lemma sort_ConsD:
  assumes "sort xs = j # js"
  shows "sorted (map ti_start (j # js))" and "set xs = insert j (set js)"
proof -
  show "sorted (map ti_start (j # js))"
    by (metis assms sorted_interval_starts sorted_sort)
  show "set xs = insert j (set js)"
    by (metis assms list.simps(15) set_sort)
qed

lemma merge_intervals_Nil [simp]: "merge_intervals [] gap = []"
  by (simp add: merge_intervals_def)

lemma merge_intervals_separated: "separated gap (merge_intervals xs gap)"
  using merge_loop_separated
  by (auto simp: merge_intervals_def separated_def split: list.splits dest!: sort_ConsD(1))

lemma merge_intervals_valid:
  assumes "\<forall>i\<in>set xs. valid_interval i"
  shows "\<forall>m\<in>set (merge_intervals xs gap). valid_interval m"
proof (cases "sort xs")
  case (Cons i "is")
  have "\<forall>m\<in>set (merge_loop gap i is). valid_interval m"
    by (rule merge_loop_valid) (use sort_ConsD(2)[OF Cons] assms in auto)
  then show ?thesis by (simp add: merge_intervals_def Cons)
qed (simp add: merge_intervals_def)

lemma merge_intervals_covers: "covered xs \<subseteq> covered (merge_intervals xs gap)"
proof (cases "sort xs")
  case (Cons i "is")
  have "covered xs = covered (i # is)" by (metis covered_sort Cons)
  also have "\<dots> \<subseteq> covered (merge_loop gap i is)"
    by (rule merge_loop_covers[OF sort_ConsD(1)[OF Cons]])
  finally show ?thesis by (simp add: merge_intervals_def Cons)
qed (metis covered_sort covered_Nil empty_subsetI)

lemma merge_intervals_covered:
  assumes "\<forall>i\<in>set xs. valid_interval i"
  shows "covered (merge_intervals xs 0) = covered xs"
proof (cases "sort xs")
  case (Cons i "is")
  have "covered (merge_loop 0 i is) = covered (i # is)"
    by (rule merge_loop_covered[OF sort_ConsD(1)[OF Cons]])
      (use sort_ConsD(2)[OF Cons] assms in auto)
  also have "\<dots> = covered xs" by (metis covered_sort Cons)
  finally show ?thesis by (simp add: merge_intervals_def Cons)
next
  case Nil
  then have "covered xs = {}" by (metis covered_sort covered_Nil)
  with Nil show ?thesis by (simp add: merge_intervals_def)
qed

lemma separated_Cons: "separated g (i # is) \<longleftrightarrow> (\<forall>j\<in>set is. ti_end i + g < ti_start j) \<and> separated g is"
  by (auto simp: separated_def)

lemma sum_durations_card:
  "separated 0 is \<Longrightarrow> \<forall>i\<in>set is. valid_interval i \<Longrightarrow>
     sum_list (map duration_ms is) = int (card (covered is))"
proof (induction "is")
  case (Cons i "is")
  have "span i \<inter> covered is = {}"
    using Cons.prems by (force simp: separated_Cons covered_def span_def)
  moreover have "finite (span i)" by (simp add: span_def)
  ultimately have "card (covered (i # is)) = card (span i) + card (covered is)"
    by (simp add: card_Un_disjoint)
  moreover have "duration_ms i = int (card (span i))"
    using Cons.prems by (simp add: interval_simps)
  moreover have "sum_list (map duration_ms is) = int (card (covered is))"
    using Cons by (simp add: separated_Cons)
  ultimately show ?case by simp
qed simp

text \<open>
  Merging with gap 0 keeps exactly the milliseconds the input covers, and its result is a
  list of valid intervals in increasing order with silence between any two of them.
\<close>

theorem merge_intervals_correct:
  assumes "\<forall>i\<in>set intervals. valid_interval i"
  shows "covered (merge_intervals intervals 0) = covered intervals
    \<and> separated 0 (merge_intervals intervals 0)
    \<and> (\<forall>m\<in>set (merge_intervals intervals 0). valid_interval m)"
  using assms by (simp add: merge_intervals_covered merge_intervals_separated merge_intervals_valid)

theorem merge_intervals_correct_witness:
  "covered (merge_intervals [TI 5 8, TI 0 3, TI 2 4] 0) = covered [TI 5 8, TI 0 3, TI 2 4]
    \<and> merge_intervals [TI 5 8, TI 0 3, TI 2 4] 0 = [TI 0 4, TI 5 8]"
  using merge_intervals_correct[of "[TI 5 8, TI 0 3, TI 2 4]"]
  by (simp add: valid_interval_def merge_intervals_def less_eq_time_interval_def)

text \<open>
  The total duration counts every covered millisecond once, however often the intervals
  overlap.
\<close>

theorem total_duration_counts_once:
  assumes "\<forall>i\<in>set intervals. valid_interval i"
  shows "total_duration_ms intervals = int (card (covered intervals))"
  unfolding total_duration_ms_def
  using sum_durations_card[OF merge_intervals_separated merge_intervals_valid[OF assms]]
  by (simp add: merge_intervals_covered[OF assms])

theorem total_duration_counts_once_witness:
  "int (card (covered [TI 0 3, TI 2 4])) = 4"
  using total_duration_counts_once[of "[TI 0 3, TI 2 4]"]
  by (simp add: valid_interval_def total_duration_ms_def merge_intervals_def
      less_eq_time_interval_def duration_ms_def)

lemma pad_interval_valid: "pad_interval i c lo hi = Inr p \<Longrightarrow> valid_interval p"
  by (auto simp: pad_interval_def Let_def dest: mk_interval_valid split: option.splits)
    (auto simp: valid_interval_def)

text \<open>
  Padding a region that lies inside its bounds never raises, the result contains the region,
  stays inside the bounds and grows by at most the context on each side.
\<close>

theorem pad_within_bounds:
  assumes "valid_interval i" and "0 \<le> c" and "0 \<le> lo" and "lo \<le> ti_start i" and "ti_end i \<le> hi"
  shows "\<exists>p. pad_interval i c lo (Some hi) = Inr p
    \<and> span i \<subseteq> span p \<and> lo \<le> ti_start p \<and> ti_end p \<le> hi
    \<and> ti_start i - ti_start p \<le> c \<and> ti_end p - ti_end i \<le> c"
  using assms by (auto simp: pad_interval_def Let_def interval_simps)

theorem pad_within_bounds_witness:
  "pad_interval (TI 300 900) 500 0 (Some 10000) = Inr (TI 0 1400)
    \<and> span (TI 300 900) \<subseteq> span (TI 0 1400)"
  using pad_within_bounds[of "TI 300 900" 500 0 10000]
  by (simp add: valid_interval_def pad_interval_def span_def)

text \<open>
  Converting milliseconds to a sample index and back returns the same millisecond, for every
  sample rate the decoders accept: no drift accumulates.
\<close>

theorem time_conversion_roundtrip:
  assumes "8000 \<le> rate" and "rate \<le> 48000" and "0 \<le> t"
  shows "bindR (ms_to_samples t rate) (\<lambda>n. samples_to_ms n rate) = Inr t"
  by (rule ms_samples_ms) (use assms in auto)

theorem time_conversion_roundtrip_witness:
  "bindR (ms_to_samples 123456 44100) (\<lambda>n. samples_to_ms n 44100) = Inr 123456
    \<and> ms_to_samples 123456 44100 = Inr 5444410"
  using time_conversion_roundtrip[of 44100 123456]
  by (simp add: ms_to_samples_def to_samples_def MS_PER_SECOND_def)

end
