(* ===== verification/AudioBuffer.thy ===== *)
theory AudioBuffer
  imports AudioTime
begin

text \<open>
  The audio types of \<^verbatim>\<open>src/src/sastt/domain/audio.py\<close>: \<open>AudioBuffer\<close> with the checks of its
  constructor, its derived properties, cropping by absolute time and downmixing, the ingest
  metrics, and \<open>AudioAsset\<close>. A two-dimensional numpy array is the list of its channels, every
  channel a list of samples; a sample is a finite number or one of NaN and the infinities.

  The meaning of a buffer is the partial function \<open>sample_at\<close> from a channel and an absolute sample
  index to a sample; cropping is specified against it.
\<close>

datatype sample = Fin real | NonFinite

definition MIN_CHANNELS :: nat where "MIN_CHANNELS = 1"

definition MAX_CHANNELS :: nat where "MAX_CHANNELS = 8"

record audio_buffer =
  samples :: "sample list list"
  sample_rate :: int
  start_sample :: int
  channel_layout :: "string list"
  source_clock_hz :: int

definition rectangular :: "'a list list \<Rightarrow> bool" where
  "rectangular arr \<longleftrightarrow> (\<forall>row\<in>set arr. length row = length (hd arr))"

definition row_length :: "'a list list \<Rightarrow> nat" where
  "row_length arr = (case arr of [] \<Rightarrow> 0 | row # _ \<Rightarrow> length row)"

text \<open>\<open>__post_init__\<close>, check by check; an array that is not rectangular is not two-dimensional.\<close>

definition mk_audio_buffer ::
  "sample list list \<Rightarrow> int \<Rightarrow> int \<Rightarrow> string list \<Rightarrow> int \<Rightarrow> audio_buffer res" where
  "mk_audio_buffer arr rate start layout clock =
     (if \<not> rectangular arr then Inl (Sastt UnsupportedAudioFormatError)
      else if length arr < MIN_CHANNELS \<or> MAX_CHANNELS < length arr
        then Inl (Sastt InvalidChannelLayoutError)
      else if length layout \<noteq> length arr then Inl (Sastt InvalidChannelLayoutError)
      else if row_length arr = 0 then Inl (Sastt UnsupportedAudioFormatError)
      else if rate \<le> 0 then Inl (Sastt UnsupportedAudioFormatError)
      else if start < 0 then Inl (Sastt UnsupportedAudioFormatError)
      else if \<exists>row\<in>set arr. NonFinite \<in> set row then Inl (Sastt UnsupportedAudioFormatError)
      else Inr \<lparr>samples = arr, sample_rate = rate, start_sample = start,
                channel_layout = layout, source_clock_hz = clock\<rparr>)"

definition valid_buffer :: "audio_buffer \<Rightarrow> bool" where
  "valid_buffer b \<longleftrightarrow>
     mk_audio_buffer (samples b) (sample_rate b) (start_sample b) (channel_layout b)
       (source_clock_hz b) = Inr b"

definition num_channels :: "audio_buffer \<Rightarrow> nat" where
  "num_channels b = length (samples b)"

definition num_samples :: "audio_buffer \<Rightarrow> nat" where
  "num_samples b = row_length (samples b)"

definition end_sample :: "audio_buffer \<Rightarrow> int" where
  "end_sample b = start_sample b + int (num_samples b)"

definition buf_start_ms :: "audio_buffer \<Rightarrow> int" where
  "buf_start_ms b = to_ms (start_sample b) (sample_rate b)"

definition buf_end_ms :: "audio_buffer \<Rightarrow> int" where
  "buf_end_ms b = to_ms (end_sample b) (sample_rate b)"

definition buf_duration_ms :: "audio_buffer \<Rightarrow> int" where
  "buf_duration_ms b = to_ms (int (num_samples b)) (sample_rate b)"

definition is_mono :: "audio_buffer \<Rightarrow> bool" where
  "is_mono b \<longleftrightarrow> num_channels b = 1"

definition buf_interval :: "audio_buffer \<Rightarrow> time_interval" where
  "buf_interval b = TI (buf_start_ms b) (max (buf_end_ms b) (buf_start_ms b + 1))"

definition crop_ms :: "audio_buffer \<Rightarrow> time_interval \<Rightarrow> audio_buffer res" where
  "crop_ms b interval =
     (let s0 = to_samples (ti_start interval) (sample_rate b);
          e0 = to_samples (ti_end interval) (sample_rate b);
          s = max s0 (start_sample b);
          e = min e0 (end_sample b)
      in if e \<le> s then Inl (Sastt UnsupportedAudioFormatError)
         else let local_start = nat (s - start_sample b);
                  local_end = nat (e - start_sample b)
              in mk_audio_buffer
                   (map (\<lambda>row. take (local_end - local_start) (drop local_start row)) (samples b))
                   (sample_rate b) s (channel_layout b) (source_clock_hz b))"

fun fin_value :: "sample \<Rightarrow> real" where
  "fin_value (Fin x) = x"
| "fin_value NonFinite = 0"

definition mean :: "real list \<Rightarrow> real" where
  "mean xs = sum_list xs / real (length xs)"

text \<open>Column-wise mean over the channels; buffers hold finite samples only.\<close>

definition downmix :: "sample list list \<Rightarrow> sample list" where
  "downmix arr =
     map (\<lambda>k. Fin (mean (map (\<lambda>row. fin_value (row ! k)) arr))) [0..<row_length arr]"

definition to_mono :: "audio_buffer \<Rightarrow> audio_buffer res" where
  "to_mono b =
     (if is_mono b then Inr b
      else mk_audio_buffer [downmix (samples b)] (sample_rate b) (start_sample b)
             [''mono''] (source_clock_hz b))"

record audio_quality =
  clipping_ratio :: real
  rms :: real
  dc_offset :: real
  aq_speech_duration_ms :: int
  estimated_snr_db :: "real option"

text \<open>\<open>measure_quality\<close> over the samples of the mono derivative.\<close>

definition measure_quality ::
  "audio_buffer \<Rightarrow> int \<Rightarrow> real \<Rightarrow> real option \<Rightarrow> audio_quality res" where
  "measure_quality b speech_ms clip_threshold snr =
     bindR (to_mono b) (\<lambda>m.
       let xs = map fin_value (hd (samples m))
       in Inr \<lparr>clipping_ratio = mean (map (\<lambda>x. if clip_threshold \<le> \<bar>x\<bar> then 1 else 0) xs),
               rms = sqrt (mean (map (\<lambda>x. x * x) xs)),
               dc_offset = mean xs,
               aq_speech_duration_ms = speech_ms,
               estimated_snr_db = snr\<rparr>)"

record audio_asset =
  original :: audio_buffer
  mono_16k :: audio_buffer
  input_sha256 :: string
  container_format :: string
  quality :: audio_quality
  channel_map :: "string list"

definition mk_audio_asset ::
  "audio_buffer \<Rightarrow> audio_buffer \<Rightarrow> string \<Rightarrow> string \<Rightarrow> audio_quality \<Rightarrow> string list \<Rightarrow>
     audio_asset res" where
  "mk_audio_asset orig deriv sha fmt q cmap =
     (if sample_rate deriv \<noteq> CANONICAL_SAMPLE_RATE then Inl (Sastt UnsupportedAudioFormatError)
      else if \<not> is_mono deriv then Inl (Sastt InvalidChannelLayoutError)
      else Inr \<lparr>original = orig, mono_16k = deriv, input_sha256 = sha, container_format = fmt,
                quality = q,
                channel_map = (if cmap = [] then channel_layout orig else cmap)\<rparr>)"

definition asset_duration_ms :: "audio_asset \<Rightarrow> int" where
  "asset_duration_ms a = buf_duration_ms (original a)"

definition is_multichannel_asset :: "audio_asset \<Rightarrow> bool" where
  "is_multichannel_asset a \<longleftrightarrow> 1 < num_channels (original a)"

section \<open>Constructed buffers\<close>

lemma mk_audio_buffer_eq_Inr:
  "mk_audio_buffer arr rate start layout clock = Inr b \<longleftrightarrow>
     rectangular arr \<and> MIN_CHANNELS \<le> length arr \<and> length arr \<le> MAX_CHANNELS \<and>
     length layout = length arr \<and> row_length arr \<noteq> 0 \<and> 0 < rate \<and> 0 \<le> start \<and>
     (\<forall>row\<in>set arr. NonFinite \<notin> set row) \<and>
     b = \<lparr>samples = arr, sample_rate = rate, start_sample = start,
          channel_layout = layout, source_clock_hz = clock\<rparr>"
  by (auto simp: mk_audio_buffer_def not_less not_le)

lemma mk_audio_buffer_valid: "mk_audio_buffer arr rate start layout clock = Inr b \<Longrightarrow> valid_buffer b"
  unfolding valid_buffer_def by (frule mk_audio_buffer_eq_Inr[THEN iffD1]) auto

lemma valid_buffer_iff:
  "valid_buffer b \<longleftrightarrow>
     rectangular (samples b) \<and> MIN_CHANNELS \<le> length (samples b) \<and>
     length (samples b) \<le> MAX_CHANNELS \<and> length (channel_layout b) = length (samples b) \<and>
     num_samples b \<noteq> 0 \<and> 0 < sample_rate b \<and> 0 \<le> start_sample b \<and>
     (\<forall>row\<in>set (samples b). NonFinite \<notin> set row)"
  by (auto simp: valid_buffer_def mk_audio_buffer_eq_Inr num_samples_def)

lemma valid_buffer_row_length:
  "valid_buffer b \<Longrightarrow> row \<in> set (samples b) \<Longrightarrow> length row = num_samples b"
  by (cases "samples b")
    (auto simp: valid_buffer_iff rectangular_def num_samples_def row_length_def)

lemma valid_buffer_positive:
  assumes "valid_buffer b"
  shows "0 < sample_rate b" and "0 \<le> start_sample b" and "start_sample b < end_sample b"
    and "0 \<le> buf_start_ms b" and "buf_start_ms b \<le> buf_end_ms b"
  using assms
  by (auto simp: valid_buffer_iff end_sample_def buf_start_ms_def buf_end_ms_def
      intro!: to_ms_nonneg to_ms_mono)

lemma buf_interval_valid: "valid_buffer b \<Longrightarrow> valid_interval (buf_interval b)"
  using valid_buffer_positive(4) by (auto simp: buf_interval_def valid_interval_def)

lemma to_mono_valid:
  assumes "valid_buffer b"
  shows "\<exists>m. to_mono b = Inr m \<and> valid_buffer m \<and> is_mono m
    \<and> start_sample m = start_sample b \<and> num_samples m = num_samples b
    \<and> sample_rate m = sample_rate b"
proof (cases "is_mono b")
  case False
  have "mk_audio_buffer [downmix (samples b)] (sample_rate b) (start_sample b) [''mono'']
      (source_clock_hz b) = Inr \<lparr>samples = [downmix (samples b)], sample_rate = sample_rate b,
        start_sample = start_sample b, channel_layout = [''mono''],
        source_clock_hz = source_clock_hz b\<rparr>"
    using assms
    by (auto simp: mk_audio_buffer_eq_Inr rectangular_def MIN_CHANNELS_def MAX_CHANNELS_def
        row_length_def downmix_def valid_buffer_iff num_samples_def)
  with False show ?thesis
    using mk_audio_buffer_valid
    by (auto simp: to_mono_def is_mono_def num_channels_def num_samples_def downmix_def
        row_length_def)
qed (use assms in \<open>auto simp: to_mono_def\<close>)

section \<open>Cropping\<close>

definition sample_at :: "audio_buffer \<Rightarrow> nat \<Rightarrow> int \<Rightarrow> sample option" where
  "sample_at b ch k =
     (if ch < num_channels b \<and> start_sample b \<le> k \<and> k < end_sample b
      then Some (samples b ! ch ! nat (k - start_sample b)) else None)"

lemma crop_ms_shape:
  assumes "valid_buffer b" and "crop_ms b i = Inr c"
  defines "s \<equiv> max (to_samples (ti_start i) (sample_rate b)) (start_sample b)"
    and "e \<equiv> min (to_samples (ti_end i) (sample_rate b)) (end_sample b)"
  shows "valid_buffer c" and "start_sample c = s" and "end_sample c = e" and "s < e"
    and "num_channels c = num_channels b" and "sample_rate c = sample_rate b"
    and "samples c = map (\<lambda>row. take (nat (e - s)) (drop (nat (s - start_sample b)) row)) (samples b)"
proof -
  have se: "s < e" and c: "mk_audio_buffer
      (map (\<lambda>row. take (nat (e - start_sample b) - nat (s - start_sample b))
          (drop (nat (s - start_sample b)) row)) (samples b))
      (sample_rate b) s (channel_layout b) (source_clock_hz b) = Inr c"
    using assms(2) by (auto simp: crop_ms_def Let_def s_def e_def split: if_splits)
  have diff: "nat (e - start_sample b) - nat (s - start_sample b) = nat (e - s)"
    using se by (simp add: s_def nat_diff_distrib')
  show "valid_buffer c" by (rule mk_audio_buffer_valid[OF c])
  show "s < e" by (rule se)
  have sc: "samples c = map (\<lambda>row. take (nat (e - s)) (drop (nat (s - start_sample b)) row)) (samples b)"
    and st: "start_sample c = s" and "sample_rate c = sample_rate b"
    using c by (auto simp: mk_audio_buffer_eq_Inr diff)
  then show "samples c = map (\<lambda>row. take (nat (e - s)) (drop (nat (s - start_sample b)) row)) (samples b)"
    and "start_sample c = s" and "sample_rate c = sample_rate b"
    by simp_all
  show "num_channels c = num_channels b" by (simp add: num_channels_def sc)
  obtain row rows where rows: "samples b = row # rows"
    using assms(1) by (cases "samples b") (auto simp: valid_buffer_iff MIN_CHANNELS_def)
  then have len: "length row = num_samples b"
    using valid_buffer_row_length[OF assms(1), of row] by simp
  have "start_sample b \<le> s" and "e \<le> start_sample b + int (num_samples b)"
    by (simp_all add: s_def e_def end_sample_def)
  with se have "nat (e - s) \<le> num_samples b - nat (s - start_sample b)"
    by linarith
  moreover have "num_samples c = min (nat (e - s)) (length row - nat (s - start_sample b))"
    unfolding num_samples_def sc by (simp add: row_length_def rows min.commute)
  ultimately have "num_samples c = nat (e - s)"
    by (simp add: len)
  with se st show "end_sample c = e" by (simp add: end_sample_def)
qed

text \<open>
  A crop has exactly the samples of the buffer whose absolute index lies in the requested time,
  on every channel, and keeps their absolute positions.
\<close>

theorem crop_keeps_absolute_samples:
  assumes "valid_buffer b" and "crop_ms b i = Inr c"
  shows "sample_at c ch k =
    (if to_samples (ti_start i) (sample_rate b) \<le> k \<and> k < to_samples (ti_end i) (sample_rate b)
     then sample_at b ch k else None)"
proof -
  note shape = crop_ms_shape[OF assms]
  have rows: "length (samples b ! ch) = num_samples b" if "ch < num_channels b"
    using that valid_buffer_row_length[OF assms(1)] by (simp add: num_channels_def)
  show ?thesis
    using shape(2-5) rows
    by (auto simp: sample_at_def shape(7) num_channels_def end_sample_def nat_diff_distrib'
        nat_add_distrib[symmetric] algebra_simps split: if_splits)
qed

definition example_buffer :: audio_buffer where
  "example_buffer = \<lparr>samples = [[Fin 1, Fin 2, Fin 3, Fin 4]], sample_rate = 1000,
     start_sample = 10, channel_layout = [''mono''], source_clock_hz = 1000\<rparr>"

lemma example_buffer_valid: "valid_buffer example_buffer"
  by (simp add: valid_buffer_iff example_buffer_def num_samples_def row_length_def
      rectangular_def MIN_CHANNELS_def MAX_CHANNELS_def)

lemma example_crop:
  "crop_ms example_buffer (TI 11 13) = Inr (example_buffer\<lparr>samples := [[Fin 2, Fin 3]],
     start_sample := 11\<rparr>)"
  by (simp add: crop_ms_def example_buffer_def to_samples_def MS_PER_SECOND_def end_sample_def
      num_samples_def row_length_def mk_audio_buffer_def rectangular_def MIN_CHANNELS_def
      MAX_CHANNELS_def)

theorem crop_keeps_absolute_samples_witness:
  "sample_at (example_buffer\<lparr>samples := [[Fin 2, Fin 3]], start_sample := 11\<rparr>) 0 12
     = sample_at example_buffer 0 12 \<and> sample_at example_buffer 0 12 = Some (Fin 3)"
  using crop_keeps_absolute_samples[OF example_buffer_valid example_crop, of 0 12]
  by (simp add: example_buffer_def to_samples_def MS_PER_SECOND_def sample_at_def
      num_channels_def end_sample_def num_samples_def row_length_def)

lemma crop_ms_raises_iff:
  assumes "valid_buffer b"
  shows "crop_ms b i = Inl (Sastt UnsupportedAudioFormatError) \<longleftrightarrow>
    {to_samples (ti_start i) (sample_rate b)..<to_samples (ti_end i) (sample_rate b)}
      \<inter> {start_sample b..<end_sample b} = {}"
    and "crop_ms b i = Inl e \<Longrightarrow> e = Sastt UnsupportedAudioFormatError"
proof -
  define s where "s = max (to_samples (ti_start i) (sample_rate b)) (start_sample b)"
  define e where "e = min (to_samples (ti_end i) (sample_rate b)) (end_sample b)"
  have empty_iff: "{to_samples (ti_start i) (sample_rate b)..<to_samples (ti_end i) (sample_rate b)}
      \<inter> {start_sample b..<end_sample b} = {} \<longleftrightarrow> e \<le> s"
    by (auto simp: s_def e_def)
  have ok: "\<exists>c. crop_ms b i = Inr c" if "s < e"
  proof -
    define l where "l = nat (s - start_sample b)"
    define n where "n = nat (e - start_sample b) - l"
    obtain row rows where rows: "samples b = row # rows"
      using assms by (cases "samples b") (auto simp: valid_buffer_iff MIN_CHANNELS_def)
    have len: "length r = num_samples b" if "r \<in> set (samples b)" for r
      using that valid_buffer_row_length[OF assms] by simp
    have pos: "0 < n" and fit: "l < num_samples b"
      using that by (auto simp: n_def l_def s_def e_def end_sample_def)
    have "length row = num_samples b" by (rule len) (simp add: rows)
    moreover have "\<forall>r\<in>set rows. length r = num_samples b" using len rows by simp
    ultimately have "mk_audio_buffer (map (\<lambda>row. take n (drop l row)) (samples b)) (sample_rate b) s
        (channel_layout b) (source_clock_hz b) = Inr \<lparr>
          samples = map (\<lambda>row. take n (drop l row)) (samples b), sample_rate = sample_rate b,
          start_sample = s, channel_layout = channel_layout b,
          source_clock_hz = source_clock_hz b\<rparr>"
      using assms pos fit rows
      by (auto simp: mk_audio_buffer_eq_Inr rectangular_def row_length_def valid_buffer_iff s_def
          dest!: in_set_takeD in_set_dropD)
    with that show ?thesis
      unfolding crop_ms_def Let_def s_def[symmetric] e_def[symmetric] l_def[symmetric]
        n_def[symmetric] by auto
  qed
  have fails: "crop_ms b i = Inl (Sastt UnsupportedAudioFormatError)" if "e \<le> s"
    using that unfolding crop_ms_def Let_def s_def[symmetric] e_def[symmetric] by simp
  show "crop_ms b i = Inl (Sastt UnsupportedAudioFormatError) \<longleftrightarrow>
    {to_samples (ti_start i) (sample_rate b)..<to_samples (ti_end i) (sample_rate b)}
      \<inter> {start_sample b..<end_sample b} = {}"
    unfolding empty_iff using ok fails by (cases "e \<le> s") auto
  show "crop_ms b i = Inl e' \<Longrightarrow> e' = Sastt UnsupportedAudioFormatError" for e'
    using ok fails by (cases "e \<le> s") auto
qed

end
