(* ===== verification/IdentityMachine.thy ===== *)
theory IdentityMachine
  imports Prelude
begin

text \<open>
  The identity state machine of \<^verbatim>\<open>src/src/sastt/domain/speakers.py\<close>: states, the table of allowed
  transitions, the guarded \<open>transition\<close> with its auditable history, and the public status. The
  runs of a machine are the inductive predicate \<open>machine_run\<close>; its invariants are proved by rule
  induction.
\<close>

datatype identity_state =
    PROVISIONAL
  | SESSION_ANONYMOUS
  | ENROLLED
  | MERGED
  | AMBIGUOUS
  | UNKNOWN

datatype identity_status =
    StatusProvisional
  | StatusEnrolled
  | StatusAnonymous
  | StatusUnknown
  | StatusAmbiguous

definition INITIAL_STATES :: "identity_state list" where
  "INITIAL_STATES = [PROVISIONAL, SESSION_ANONYMOUS]"

fun ALLOWED_TRANSITIONS :: "identity_state \<Rightarrow> identity_state list" where
  "ALLOWED_TRANSITIONS PROVISIONAL = [SESSION_ANONYMOUS, ENROLLED, UNKNOWN]"
| "ALLOWED_TRANSITIONS SESSION_ANONYMOUS = [ENROLLED, MERGED]"
| "ALLOWED_TRANSITIONS MERGED = [SESSION_ANONYMOUS]"
| "ALLOWED_TRANSITIONS ENROLLED = [AMBIGUOUS]"
| "ALLOWED_TRANSITIONS AMBIGUOUS = [ENROLLED, UNKNOWN]"
| "ALLOWED_TRANSITIONS UNKNOWN = []"

fun public_status :: "identity_state \<Rightarrow> identity_status" where
  "public_status PROVISIONAL = StatusProvisional"
| "public_status SESSION_ANONYMOUS = StatusAnonymous"
| "public_status MERGED = StatusAnonymous"
| "public_status ENROLLED = StatusEnrolled"
| "public_status AMBIGUOUS = StatusAmbiguous"
| "public_status UNKNOWN = StatusUnknown"

record state_transition =
  from_state :: identity_state
  to_state :: identity_state
  tr_reason :: string
  tr_revision :: nat

record machine =
  m_state :: identity_state
  m_history :: "state_transition list"

definition mk_machine :: "identity_state \<Rightarrow> machine res" where
  "mk_machine initial =
     (if initial \<notin> set INITIAL_STATES then Inl (Sastt InvalidStateTransitionError)
      else Inr \<lparr>m_state = initial, m_history = []\<rparr>)"

definition m_status :: "machine \<Rightarrow> identity_status" where
  "m_status m = public_status (m_state m)"

definition m_revision :: "machine \<Rightarrow> nat" where
  "m_revision m = length (m_history m) + 1"

definition can_transition :: "machine \<Rightarrow> identity_state \<Rightarrow> bool" where
  "can_transition m target \<longleftrightarrow> target \<in> set (ALLOWED_TRANSITIONS (m_state m))"

definition transition :: "machine \<Rightarrow> identity_state \<Rightarrow> string \<Rightarrow> machine res" where
  "transition m target why =
     (if \<not> can_transition m target then Inl (Sastt InvalidStateTransitionError)
      else let t = \<lparr>from_state = m_state m, to_state = target, tr_reason = why,
                     tr_revision = m_revision m + 1\<rparr>
           in Inr (m\<lparr>m_state := target, m_history := m_history m @ [t]\<rparr>))"

section \<open>Runs\<close>

inductive machine_run :: "identity_state \<Rightarrow> machine \<Rightarrow> bool" where
  created: "mk_machine initial = Inr m \<Longrightarrow> machine_run initial m"
| moved: "machine_run initial m \<Longrightarrow> transition m target why = Inr m' \<Longrightarrow> machine_run initial m'"

lemma transition_eq_Inr:
  "transition m target why = Inr m' \<longleftrightarrow>
     target \<in> set (ALLOWED_TRANSITIONS (m_state m)) \<and>
     m' = m\<lparr>m_state := target,
            m_history := m_history m @
              [\<lparr>from_state = m_state m, to_state = target, tr_reason = why,
                tr_revision = m_revision m + 1\<rparr>]\<rparr>"
  by (auto simp: transition_def can_transition_def Let_def)

lemma mk_machine_eq_Inr:
  "mk_machine s = Inr m \<longleftrightarrow>
     (s = PROVISIONAL \<or> s = SESSION_ANONYMOUS) \<and> m = \<lparr>m_state = s, m_history = []\<rparr>"
  by (auto simp: mk_machine_def INITIAL_STATES_def)

lemma transition_state: "transition m target why = Inr m' \<Longrightarrow> m_state m' = target"
  by (simp add: transition_eq_Inr)

lemma transition_errors:
  "transition m target why = Inl e \<longleftrightarrow>
     e = Sastt InvalidStateTransitionError \<and> target \<notin> set (ALLOWED_TRANSITIONS (m_state m))"
  by (auto simp: transition_def can_transition_def Let_def)

text \<open>
  The history is an unbroken path of allowed transitions from the initial state to the current
  one, and its entries carry the revisions 2, 3, and so on.
\<close>

fun history_path :: "identity_state \<Rightarrow> nat \<Rightarrow> state_transition list \<Rightarrow> identity_state \<Rightarrow> bool" where
  "history_path s n [] s' = (s = s')"
| "history_path s n (t # ts) s' =
     (from_state t = s \<and> to_state t \<in> set (ALLOWED_TRANSITIONS s) \<and> tr_revision t = n + 1 \<and>
      history_path (to_state t) (n + 1) ts s')"

lemma history_path_append:
  "history_path s n (ts @ [t]) s' \<longleftrightarrow>
     (\<exists>r. history_path s n ts r \<and> from_state t = r \<and> to_state t = s' \<and>
       s' \<in> set (ALLOWED_TRANSITIONS r) \<and> tr_revision t = n + length ts + 1)"
  by (induction ts arbitrary: s n) auto

lemma machine_run_history:
  "machine_run s m \<Longrightarrow> s \<in> set INITIAL_STATES \<and> history_path s 1 (m_history m) (m_state m)"
proof (induction rule: machine_run.induct)
  case (created initial m)
  then show ?case by (auto simp: mk_machine_eq_Inr INITIAL_STATES_def)
next
  case (moved initial m target why m')
  then show ?case
    by (auto simp: transition_eq_Inr history_path_append m_revision_def)
qed

text \<open>
  Whatever sequence of accepted transitions a machine takes, its history is an unbroken
  path of allowed transitions from a legal initial state to the current state, with consecutive
  revisions.
\<close>

theorem machine_history_audit:
  assumes "machine_run s m"
  shows "s \<in> set INITIAL_STATES \<and> history_path s 1 (m_history m) (m_state m)
    \<and> map tr_revision (m_history m) = map (\<lambda>k. k + 2) [0..<length (m_history m)]"
proof -
  have revs: "history_path s n ts s' \<Longrightarrow> map tr_revision ts = map (\<lambda>k. k + n + 1) [0..<length ts]"
    for s n ts s'
    by (induction ts arbitrary: s n) (auto simp del: upt_Suc simp: upt_conv_Cons map_Suc_upt[symmetric])
  show ?thesis
    using machine_run_history[OF assms] revs[of s 1 "m_history m" "m_state m"] by simp
qed

definition example_run :: machine where
  "example_run = \<lparr>m_state = MERGED, m_history =
     [\<lparr>from_state = PROVISIONAL, to_state = SESSION_ANONYMOUS, tr_reason = ''r'', tr_revision = 2\<rparr>,
      \<lparr>from_state = SESSION_ANONYMOUS, to_state = MERGED, tr_reason = ''r'', tr_revision = 3\<rparr>]\<rparr>"

lemma example_run_run: "machine_run PROVISIONAL example_run"
proof -
  have 1: "machine_run PROVISIONAL \<lparr>m_state = PROVISIONAL, m_history = []\<rparr>"
    by (rule created) (simp add: mk_machine_eq_Inr)
  have 2: "machine_run PROVISIONAL \<lparr>m_state = SESSION_ANONYMOUS, m_history =
     [\<lparr>from_state = PROVISIONAL, to_state = SESSION_ANONYMOUS, tr_reason = ''r'', tr_revision = 2\<rparr>]\<rparr>"
    by (rule moved[OF 1, where target = SESSION_ANONYMOUS and why = "''r''"])
      (simp add: transition_eq_Inr m_revision_def)
  show ?thesis
    by (rule moved[OF 2, where target = MERGED and why = "''r''"])
      (simp add: transition_eq_Inr m_revision_def example_run_def)
qed

theorem machine_history_audit_witness:
  "history_path PROVISIONAL 1 (m_history example_run) (m_state example_run)
    \<and> map tr_revision (m_history example_run) = [2, 3]"
  using machine_history_audit[OF example_run_run] by (simp add: example_run_def)

section \<open>Where an identity can still go\<close>

text \<open>Any number of accepted transitions.\<close>

inductive moves :: "machine \<Rightarrow> machine \<Rightarrow> bool" where
  stay: "moves m m"
| move: "moves m m' \<Longrightarrow> transition m' target why = Inr m'' \<Longrightarrow> moves m m''"

lemma moves_closed:
  assumes "moves m m'" and "m_state m \<in> S"
    and "\<And>s t. s \<in> S \<Longrightarrow> t \<in> set (ALLOWED_TRANSITIONS s) \<Longrightarrow> t \<in> S"
  shows "m_state m' \<in> S"
  using assms(1,2) by (induction rule: moves.induct) (auto simp: transition_eq_Inr assms(3))

text \<open>
  \<open>UNKNOWN\<close> is final and an enrolled person never falls back to a session identity: from
  \<open>ENROLLED\<close> only \<open>ENROLLED\<close>, \<open>AMBIGUOUS\<close> and \<open>UNKNOWN\<close> can follow.
\<close>

theorem identity_never_downgrades:
  assumes "moves m m'"
  shows "(m_state m = UNKNOWN \<longrightarrow> m_state m' = UNKNOWN)
    \<and> (m_state m = ENROLLED \<longrightarrow> m_state m' \<in> {ENROLLED, AMBIGUOUS, UNKNOWN})"
proof (intro conjI impI)
  show "m_state m' = UNKNOWN" if "m_state m = UNKNOWN"
    using moves_closed[OF assms, of "{UNKNOWN}"] that by auto
  show "m_state m' \<in> {ENROLLED, AMBIGUOUS, UNKNOWN}" if "m_state m = ENROLLED"
    by (rule moves_closed[OF assms]) (use that in auto)
qed

theorem identity_never_downgrades_witness:
  "m_state (\<lparr>m_state = AMBIGUOUS, m_history =
     [\<lparr>from_state = ENROLLED, to_state = AMBIGUOUS, tr_reason = ''voice'', tr_revision = 2\<rparr>]\<rparr>)
     \<in> {ENROLLED, AMBIGUOUS, UNKNOWN}"
proof -
  have "moves \<lparr>m_state = ENROLLED, m_history = []\<rparr> \<lparr>m_state = AMBIGUOUS, m_history =
     [\<lparr>from_state = ENROLLED, to_state = AMBIGUOUS, tr_reason = ''voice'', tr_revision = 2\<rparr>]\<rparr>"
    by (rule move[OF stay, where target = AMBIGUOUS and why = "''voice''"])
      (simp add: transition_eq_Inr m_revision_def)
  from identity_never_downgrades[OF this] show ?thesis by simp
qed

end
