(* ===== verification/Speakers.thy ===== *)
theory Speakers
  imports AudioBuffer IdentityMachine
begin

text \<open>
  The speaker types of \<^verbatim>\<open>src/src/sastt/domain/speakers.py\<close>: diarization results, separated
  batches, embeddings and quality-weighted prototypes, linking and Voice ID decisions, and
  \<open>SessionSpeaker\<close>. A vector is a list of reals.
\<close>

section \<open>Diarization, counting, separation\<close>

datatype track_kind = Regular | Exclusive

record speaker_turn =
  cluster_id :: string
  turn_interval :: time_interval
  turn_kind :: track_kind
  turn_score :: "real option"

record overlap_region =
  region_interval :: time_interval
  osd_activation :: "real option"
  region_model_version :: string
  region_calibration_version :: "string option"

record diarization_result =
  turns :: "speaker_turn list"
  regular_tracks :: "speaker_turn list"
  exclusive_tracks :: "speaker_turn list option"
  overlap_regions :: "overlap_region list"
  estimated_session_speakers :: int
  diar_model_version :: string

text \<open>\<open>cluster_ids\<close>: the clusters in the order of their first turn.\<close>

definition cluster_ids :: "diarization_result \<Rightarrow> string list" where
  "cluster_ids d =
     nub (map cluster_id (sort_key (\<lambda>t. ti_start (turn_interval t)) (regular_tracks d)))"

definition overlap_at :: "diarization_result \<Rightarrow> time_interval \<Rightarrow> overlap_region option" where
  "overlap_at d interval =
     first_such (\<lambda>r. intersects (region_interval r) interval) (overlap_regions d)"

datatype count_method =
    FixedTwo
  | TsVad
  | DiarizationActivity
  | MultichannelActivity
  | MultidecoderResearch
  | MethodUnknown

record source_count_estimate =
  sce_count :: "int option"
  sce_confidence :: "real option"
  sce_method :: count_method
  count_uncertain :: bool

record source_quality =
  sq_speech_duration_ms :: int
  energy_ratio :: "real option"
  leakage_similarity :: "real option"
  residual_speech_ratio :: "real option"
  snr_db :: "real option"
  passed_gate :: bool
  sq_reasons :: "string list"

record separated_batch =
  sources :: "sample list list"
  batch_sample_rate :: int
  requested_source_count :: int
  estimated_source_count :: "int option"
  batch_quality :: "source_quality list"
  separator_version :: string
  batch_start_sample :: int

definition mk_separated_batch ::
  "sample list list \<Rightarrow> int \<Rightarrow> int \<Rightarrow> int option \<Rightarrow> source_quality list \<Rightarrow> string \<Rightarrow> int \<Rightarrow>
     separated_batch res" where
  "mk_separated_batch srcs rate requested estimated quals version start =
     (if \<not> rectangular srcs then Inl ValueError
      else if length quals \<noteq> length srcs then Inl ValueError
      else Inr \<lparr>sources = srcs, batch_sample_rate = rate, requested_source_count = requested,
                estimated_source_count = estimated, batch_quality = quals,
                separator_version = version, batch_start_sample = start\<rparr>)"

definition batch_source_count :: "separated_batch \<Rightarrow> nat" where
  "batch_source_count b = length (sources b)"

section \<open>Embeddings\<close>

definition dot :: "real list \<Rightarrow> real list \<Rightarrow> real" where
  "dot u v = sum_list (map2 (*) u v)"

definition vnorm :: "real list \<Rightarrow> real" where
  "vnorm v = sqrt (dot v v)"

definition vscale :: "real \<Rightarrow> real list \<Rightarrow> real list" where
  "vscale c v = map ((*) c) v"

definition vadd :: "real list \<Rightarrow> real list \<Rightarrow> real list" where
  "vadd u v = map2 (+) u v"

datatype embedding_origin = Clean | Separated | Enrollment

record speaker_embedding =
  e_vector :: "real list"
  e_model_version :: string
  e_quality :: real
  e_speech_duration_ms :: int
  e_origin :: embedding_origin
  e_interval :: "time_interval option"
  e_source_track :: "nat option"

definition mk_embedding ::
  "real list \<Rightarrow> string \<Rightarrow> real \<Rightarrow> int \<Rightarrow> embedding_origin \<Rightarrow> time_interval option \<Rightarrow> nat option \<Rightarrow>
     speaker_embedding res" where
  "mk_embedding v version q speech origin interval track =
     (let n = vnorm v in
      if n = 0 then Inl ValueError
      else if 1 / 1000 < \<bar>n - 1\<bar> then Inl ValueError
      else if \<not> (0 \<le> q \<and> q \<le> 1) then Inl ValueError
      else Inr \<lparr>e_vector = v, e_model_version = version, e_quality = q,
                e_speech_duration_ms = speech, e_origin = origin, e_interval = interval,
                e_source_track = track\<rparr>)"

definition valid_embedding :: "speaker_embedding \<Rightarrow> bool" where
  "valid_embedding e \<longleftrightarrow>
     vnorm (e_vector e) \<noteq> 0 \<and> \<bar>vnorm (e_vector e) - 1\<bar> \<le> 1 / 1000 \<and>
     0 \<le> e_quality e \<and> e_quality e \<le> 1"

definition l2_normalize :: "real list \<Rightarrow> real list res" where
  "l2_normalize v =
     (let n = vnorm v in if n = 0 then Inl ValueError else Inr (map (\<lambda>x. x / n) v))"

definition cosine_similarity :: "speaker_embedding \<Rightarrow> speaker_embedding \<Rightarrow> real res" where
  "cosine_similarity a b =
     (if e_model_version a \<noteq> e_model_version b then Inl ValueError
      else Inr (dot (e_vector a) (e_vector b)))"

section \<open>Prototypes\<close>

record prototype =
  speaker_key :: string
  centroid :: "real list"
  weight_sum :: real
  p_model_version :: string
  p_version :: nat
  contributing_segments :: "time_interval list"

definition from_embedding :: "string \<Rightarrow> speaker_embedding \<Rightarrow> prototype res" where
  "from_embedding key e =
     bindR (l2_normalize (vscale (e_quality e) (e_vector e))) (\<lambda>c.
       Inr \<lparr>speaker_key = key, centroid = c, weight_sum = e_quality e,
            p_model_version = e_model_version e, p_version = 1,
            contributing_segments = (case e_interval e of None \<Rightarrow> [] | Some i \<Rightarrow> [i])\<rparr>)"

definition updated_with :: "prototype \<Rightarrow> speaker_embedding \<Rightarrow> prototype res" where
  "updated_with p e =
     (if e_model_version e \<noteq> p_model_version p then Inl ValueError
      else let accumulated = vadd (vscale (weight_sum p) (centroid p))
                                  (vscale (e_quality e) (e_vector e));
               total = weight_sum p + e_quality e;
               segments = contributing_segments p @
                          (case e_interval e of None \<Rightarrow> [] | Some i \<Rightarrow> [i])
           in bindR (l2_normalize (map (\<lambda>x. x / total) accumulated)) (\<lambda>c.
                Inr (p\<lparr>centroid := c, weight_sum := total, p_version := p_version p + 1,
                       contributing_segments := segments\<rparr>)))"

definition similarity :: "prototype \<Rightarrow> speaker_embedding \<Rightarrow> real res" where
  "similarity p e =
     (if e_model_version e \<noteq> p_model_version p then Inl ValueError
      else Inr (dot (centroid p) (e_vector e)))"

section \<open>Decisions and session speakers\<close>

datatype link_status = Linked | LinkUnknown | LinkAmbiguous | LinkUncalibrated

record linking_decision =
  ld_source_track :: nat
  ld_session_speaker_id :: "string option"
  ld_status :: link_status
  ld_score :: "real option"
  ld_margin :: "real option"
  ld_reason :: string

datatype voice_id_status = VidEnrolled | VidUnknown | VidAmbiguous | VidUncalibrated

record voice_id_decision =
  vid_status :: voice_id_status
  vid_registry_speaker_id :: "string option"
  vid_speaker_name :: "string option"
  vid_best_score :: "real option"
  vid_margin :: "real option"
  vid_reason :: string

record enrollment_clip_report =
  clip_index :: nat
  clip_accepted :: bool
  clip_speech_duration_ms :: int
  clip_reasons :: "string list"

record enrollment_report =
  identity_id :: string
  accepted_clips :: nat
  rejected_clips :: nat
  total_speech_ms :: int
  prototype_count :: nat
  embedding_model_version :: string
  meets_policy :: bool
  clips :: "enrollment_clip_report list"
  policy_reasons :: "string list"

record session_speaker =
  session_speaker_id :: string
  speaker_machine :: machine
  display_label :: string
  speaker_cluster :: "string option"
  registry_speaker_id :: "string option"
  speaker_name :: "string option"
  speaker_prototype :: "prototype option"
  prototype_history :: "prototype list"
  merged_into :: "string option"
  cannot_link :: "string set"

abbreviation speaker_state :: "session_speaker \<Rightarrow> identity_state" where
  "speaker_state s \<equiv> m_state (speaker_machine s)"

abbreviation speaker_status :: "session_speaker \<Rightarrow> identity_status" where
  "speaker_status s \<equiv> m_status (speaker_machine s)"

definition new_session_speaker ::
  "string \<Rightarrow> machine \<Rightarrow> string \<Rightarrow> string option \<Rightarrow> session_speaker" where
  "new_session_speaker sid m label cluster =
     \<lparr>session_speaker_id = sid, speaker_machine = m, display_label = label,
      speaker_cluster = cluster, registry_speaker_id = None, speaker_name = None,
      speaker_prototype = None, prototype_history = [], merged_into = None, cannot_link = {}\<rparr>"

definition public_speaker_id :: "session_speaker \<Rightarrow> string" where
  "public_speaker_id s = or_else (registry_speaker_id s) (session_speaker_id s)"

text \<open>\<open>prototype_history.pop()\<close> takes the last element.\<close>

definition rollback_prototype :: "session_speaker \<Rightarrow> session_speaker" where
  "rollback_prototype s =
     (if prototype_history s = [] then s
      else s\<lparr>speaker_prototype := Some (last (prototype_history s)),
             prototype_history := butlast (prototype_history s)\<rparr>)"

end
