(* ===== verification/Prototypes.thy ===== *)
theory Prototypes
  imports Speakers
begin

text \<open>
  Properties of the embeddings and quality-weighted prototypes of
  \<^verbatim>\<open>src/src/sastt/domain/speakers.py\<close> (\<open>l2_normalize\<close>, \<open>SpeakerEmbedding\<close>, \<open>SpeakerPrototype\<close>).

  Division of an array by a weight sum of 0 does not raise in numpy; a prototype's weight sum is
  never 0, because \<open>from_embedding\<close> refuses an embedding of quality 0, as shown here.
\<close>

lemma dot_nonneg: "0 \<le> dot v v"
  unfolding dot_def by (rule sum_list_nonneg) (auto simp: set_zip)

lemma vnorm_nonneg: "0 \<le> vnorm v"
  by (simp add: vnorm_def dot_nonneg)

lemma dot_map_scale: "dot (map (\<lambda>x. c * x) v) (map (\<lambda>x. c * x) v) = c * c * dot v v"
  by (induction v) (auto simp: dot_def algebra_simps)

lemma vnorm_scale: "vnorm (vscale c v) = \<bar>c\<bar> * vnorm v"
proof -
  have "vscale c v = map (\<lambda>x. c * x) v" by (simp add: vscale_def)
  then show ?thesis
    by (simp add: vnorm_def dot_map_scale real_sqrt_mult)
qed

lemma l2_normalize_unit:
  assumes "l2_normalize v = Inr c"
  shows "vnorm c = 1"
proof -
  have n: "vnorm v \<noteq> 0" and c: "c = vscale (1 / vnorm v) v"
    using assms by (auto simp: l2_normalize_def Let_def vscale_def split: if_splits)
  have "vnorm c = \<bar>1 / vnorm v\<bar> * vnorm v" unfolding c by (rule vnorm_scale)
  then show ?thesis using n vnorm_nonneg[of v] by simp
qed

lemma l2_normalize_raises: "l2_normalize v = Inl e \<longleftrightarrow> e = ValueError \<and> vnorm v = 0"
  by (auto simp: l2_normalize_def Let_def)

lemma mk_embedding_valid: "mk_embedding v m q s orig i t = Inr e \<Longrightarrow> valid_embedding e"
  by (auto simp: mk_embedding_def Let_def valid_embedding_def not_less split: if_splits)

text \<open>
  An embedding of quality 0 is valid but cannot start a prototype: \<open>from_embedding\<close> raises
  \<open>ValueError\<close> exactly then, and otherwise gives a unit centroid of positive weight.
\<close>

theorem from_embedding_outcome:
  assumes "valid_embedding e"
  shows "(e_quality e = 0 \<longleftrightarrow> from_embedding key e = Inl ValueError)
    \<and> (\<forall>p. from_embedding key e = Inr p \<longrightarrow>
          vnorm (centroid p) = 1 \<and> 0 < weight_sum p \<and> p_version p = 1
          \<and> speaker_key p = key \<and> p_model_version p = e_model_version e)"
proof -
  let ?w = "vscale (e_quality e) (e_vector e)"
  have norm: "vnorm ?w = \<bar>e_quality e\<bar> * vnorm (e_vector e)" by (rule vnorm_scale)
  have v: "vnorm (e_vector e) \<noteq> 0" and q: "0 \<le> e_quality e"
    using assms by (simp_all add: valid_embedding_def)
  have zero: "vnorm ?w = 0 \<longleftrightarrow> e_quality e = 0" using norm v by simp
  have 1: "e_quality e = 0 \<longleftrightarrow> from_embedding key e = Inl ValueError"
    using zero l2_normalize_raises[of ?w ValueError]
    by (simp add: from_embedding_def bindR_eq_Inl)
  have 2: "vnorm (centroid p) = 1 \<and> 0 < weight_sum p \<and> p_version p = 1
      \<and> speaker_key p = key \<and> p_model_version p = e_model_version e"
    if ok: "from_embedding key e = Inr p" for p
  proof -
    from ok obtain c where c: "l2_normalize ?w = Inr c"
        and p: "p = \<lparr>speaker_key = key, centroid = c, weight_sum = e_quality e,
            p_model_version = e_model_version e, p_version = 1,
            contributing_segments = (case e_interval e of None \<Rightarrow> [] | Some i \<Rightarrow> [i])\<rparr>"
      by (auto simp: from_embedding_def bindR_eq_Inr)
    have "e_quality e \<noteq> 0" using 1 ok by auto
    with q l2_normalize_unit[OF c] p show ?thesis by simp
  qed
  from 1 2 show ?thesis by blast
qed

definition unit_x :: "real \<Rightarrow> speaker_embedding" where
  "unit_x q = \<lparr>e_vector = [1, 0], e_model_version = ''m'', e_quality = q,
     e_speech_duration_ms = 2000, e_origin = Clean, e_interval = None, e_source_track = None\<rparr>"

lemma unit_x_valid: "0 \<le> q \<Longrightarrow> q \<le> 1 \<Longrightarrow> valid_embedding (unit_x q)"
  by (simp add: valid_embedding_def unit_x_def vnorm_def dot_def)

theorem from_embedding_outcome_witness:
  "from_embedding ''k'' (unit_x 0) = Inl ValueError
    \<and> from_embedding ''k'' (unit_x (1/2)) \<noteq> Inl ValueError"
  using from_embedding_outcome[OF unit_x_valid[of 0], of "''k''"]
    from_embedding_outcome[OF unit_x_valid[of "1/2"], of "''k''"]
  by (simp add: unit_x_def)

text \<open>A run of updates, as a session applies them to one speaker.\<close>

definition update_all :: "speaker_embedding list \<Rightarrow> prototype \<Rightarrow> prototype res" where
  "update_all = foldR (\<lambda>e p. updated_with p e)"

definition interval_list :: "speaker_embedding \<Rightarrow> time_interval list" where
  "interval_list e = (case e_interval e of None \<Rightarrow> [] | Some i \<Rightarrow> [i])"

lemma updated_with_fields:
  assumes "updated_with p e = Inr p'"
  shows "vnorm (centroid p') = 1" and "weight_sum p' = weight_sum p + e_quality e"
    and "p_version p' = p_version p + 1" and "speaker_key p' = speaker_key p"
    and "p_model_version p' = p_model_version p" and "e_model_version e = p_model_version p"
    and "contributing_segments p' = contributing_segments p @ interval_list e"
  using assms l2_normalize_unit
  by (auto simp: updated_with_def Let_def bindR_eq_Inr interval_list_def split: if_splits)

text \<open>
  However many embeddings update a prototype, its weight is the sum of their qualities, its
  version counts them, its segments are theirs in order, its centroid has norm 1, and every
  embedding had the prototype's model version.
\<close>

theorem prototype_lineage:
  assumes "from_embedding key e = Inr p" and "update_all es p = Inr p'"
  shows "weight_sum p' = sum_list (map e_quality (e # es)) \<and> p_version p' = length (e # es)
    \<and> contributing_segments p' = concat (map interval_list (e # es))
    \<and> vnorm (centroid p') = 1 \<and> speaker_key p' = key
    \<and> (\<forall>x\<in>set (e # es). e_model_version x = p_model_version p')"
proof -
  have start: "weight_sum p = e_quality e" "p_version p = 1" "vnorm (centroid p) = 1"
    "contributing_segments p = interval_list e" "speaker_key p = key"
    "p_model_version p = e_model_version e"
    using assms(1) l2_normalize_unit
    by (auto simp: from_embedding_def bindR_eq_Inr interval_list_def)
  have "update_all es p = Inr p' \<Longrightarrow> vnorm (centroid p) = 1 \<Longrightarrow>
      weight_sum p' = weight_sum p + sum_list (map e_quality es)
      \<and> p_version p' = p_version p + length es
      \<and> contributing_segments p' = contributing_segments p @ concat (map interval_list es)
      \<and> vnorm (centroid p') = 1 \<and> speaker_key p' = speaker_key p
      \<and> p_model_version p' = p_model_version p
      \<and> (\<forall>x\<in>set es. e_model_version x = p_model_version p)" for p
  proof (induction es arbitrary: p)
    case (Cons x xs)
    from Cons.prems(1) obtain q where q: "updated_with p x = Inr q" "update_all xs q = Inr p'"
      by (auto simp: update_all_def elim: bindR_InrE)
    from Cons.IH[OF q(2) updated_with_fields(1)[OF q(1)]] updated_with_fields[OF q(1)]
    show ?case by simp
  qed (simp add: update_all_def)
  from this[OF assms(2) start(3)] start show ?thesis by simp
qed

theorem prototype_lineage_witness:
  "\<exists>p p'. from_embedding ''k'' (unit_x 1) = Inr p \<and> update_all [unit_x (1/2)] p = Inr p'
    \<and> weight_sum p' = 3 / 2"
proof -
  define p where "p = \<lparr>speaker_key = ''k'', centroid = [1, 0], weight_sum = (1::real),
      p_model_version = ''m'', p_version = 1, contributing_segments = []\<rparr>"
  have 1: "from_embedding ''k'' (unit_x 1) = Inr p"
    by (simp add: from_embedding_def unit_x_def l2_normalize_def vscale_def vnorm_def dot_def p_def)
  have 2: "update_all [unit_x (1/2)] p =
      Inr (p\<lparr>weight_sum := 3/2, p_version := 2\<rparr>)"
    by (simp add: update_all_def updated_with_def p_def unit_x_def l2_normalize_def vscale_def
        vadd_def vnorm_def dot_def)
  from prototype_lineage[OF 1 2] 1 2 show ?thesis by auto
qed

text \<open>
  The documentation of \<open>SpeakerPrototype\<close> gives the centroid as the normalised weighted mean of
  all embeddings. The code normalises after every update and weights the unit centroid, so from
  the third embedding on the two differ.
\<close>

definition documented_centroid :: "speaker_embedding list \<Rightarrow> real list res" where
  "documented_centroid es =
     (let total = sum_list (map e_quality es);
          weighted = foldl vadd (map (\<lambda>_. 0) (e_vector (hd es)))
                       (map (\<lambda>e. vscale (e_quality e) (e_vector e)) es)
      in l2_normalize (map (\<lambda>x. x / total) weighted))"

definition unit_xy :: speaker_embedding where
  "unit_xy = (unit_x 1)\<lparr>e_vector := [7/25, 24/25]\<rparr>"

lemma normalized_parallel:
  assumes "l2_normalize [a, b] = Inr r" and "l2_normalize [c, d] = Inr r"
  shows "a * d = b * c"
proof -
  let ?m = "vnorm [a, b]" and ?n = "vnorm [c, d]"
  have nz: "?m \<noteq> 0" "?n \<noteq> 0" and r: "r = [a / ?m, b / ?m]" "r = [c / ?n, d / ?n]"
    using assms by (auto simp: l2_normalize_def Let_def split: if_splits)
  then have "a / ?m * (d / ?n) = b / ?m * (c / ?n)" by simp
  then show ?thesis using nz by simp
qed

lemma sqrt_16_25: "sqrt (16 / 25 :: real) = 4 / 5"
  by (rule real_sqrt_unique) (simp_all add: power2_eq_square)

text \<open>
  The incremental centroid is not the one the documentation states: for three unit
  embeddings of quality 1 both are defined and they differ.
\<close>

theorem incremental_centroid_differs:
  "\<exists>p c. bindR (from_embedding ''k'' (unit_x 1)) (update_all [unit_xy, unit_x 1]) = Inr p
     \<and> documented_centroid [unit_x 1, unit_xy, unit_x 1] = Inr c \<and> centroid p \<noteq> c"
proof -
  let ?p2 = "\<lparr>speaker_key = ''k'', centroid = [4/5, 3/5], weight_sum = (2::real),
      p_model_version = ''m'', p_version = 2, contributing_segments = []\<rparr>"
  have n1: "vnorm [1, 0] = 1" by (simp add: vnorm_def dot_def)
  have start: "from_embedding ''k'' (unit_x 1) = Inr \<lparr>speaker_key = ''k'', centroid = [1, 0],
      weight_sum = 1, p_model_version = ''m'', p_version = 1, contributing_segments = []\<rparr>"
    by (simp add: from_embedding_def unit_x_def l2_normalize_def vscale_def n1)
  have n2: "vnorm [16/25, 12/25] = 4/5"
    by (simp add: vnorm_def dot_def sqrt_16_25)
  have second: "updated_with \<lparr>speaker_key = ''k'', centroid = [1, 0],
      weight_sum = 1, p_model_version = ''m'', p_version = 1, contributing_segments = []\<rparr> unit_xy
      = Inr ?p2"
    by (simp add: updated_with_def unit_xy_def unit_x_def vscale_def vadd_def l2_normalize_def n2)
  obtain c where c: "l2_normalize [13/15, 2/5] = Inr c"
    by (auto simp: l2_normalize_def Let_def vnorm_def dot_def)
  have third: "updated_with ?p2 (unit_x 1) = Inr (?p2\<lparr>centroid := c, weight_sum := 3, p_version := 3\<rparr>)"
    using c by (simp add: updated_with_def unit_x_def vscale_def vadd_def)
  obtain d where d: "l2_normalize [19/25, 8/25] = Inr d"
    by (auto simp: l2_normalize_def Let_def vnorm_def dot_def)
  have doc: "documented_centroid [unit_x 1, unit_xy, unit_x 1] = Inr d"
    using d by (simp add: documented_centroid_def unit_x_def unit_xy_def vscale_def vadd_def)
  have "c \<noteq> d" using normalized_parallel[of "13/15" "2/5" c "19/25" "8/25"] c d by auto
  then show ?thesis
    using start second third doc by (auto simp: update_all_def)
qed

end
