(* ===== verification/Effects.thy ===== *)
theory Effects
  imports Prelude
begin

text \<open>
  Methods that change an object and may raise. An \<open>action\<close> takes the state and gives the new state
  together with the outcome: as in Python, what was changed before an exception stays changed when
  the exception is handled. The locale at the end is the interface under which a relation between
  the states before and after (a run of the session, a log that only grows) is carried from the
  operations of a component to every method built from them.
\<close>

type_synonym ('s, 'a) action = "'s \<Rightarrow> 's \<times> 'a res"

definition returnS :: "'a \<Rightarrow> ('s, 'a) action" where
  "returnS x s = (s, Inr x)"

definition liftS :: "'a res \<Rightarrow> ('s, 'a) action" where
  "liftS r s = (s, r)"

definition readS :: "('s \<Rightarrow> 'a) \<Rightarrow> ('s, 'a) action" where
  "readS f s = (s, Inr (f s))"

definition modifyS :: "('s \<Rightarrow> 's) \<Rightarrow> ('s, unit) action" where
  "modifyS f s = (f s, Inr ())"

text \<open>An operation that either raises before it changes anything or returns the new state.\<close>

definition updateS :: "('s \<Rightarrow> ('s \<times> 'a) res) \<Rightarrow> ('s, 'a) action" where
  "updateS f s = (case f s of Inl e \<Rightarrow> (s, Inl e) | Inr (s', x) \<Rightarrow> (s', Inr x))"

definition bindS :: "('s, 'a) action \<Rightarrow> ('a \<Rightarrow> ('s, 'b) action) \<Rightarrow> ('s, 'b) action" where
  "bindS m f s = (case m s of (s', Inl e) \<Rightarrow> (s', Inl e) | (s', Inr x) \<Rightarrow> f x s')"

text \<open>\<open>try: m except e: h\<close>.\<close>

definition catchS :: "exn \<Rightarrow> ('s, 'a) action \<Rightarrow> ('s, 'a) action \<Rightarrow> ('s, 'a) action" where
  "catchS e m h s = (case m s of (s', Inl e') \<Rightarrow> if e' = e then h s' else (s', Inl e')
                               | (s', Inr x) \<Rightarrow> (s', Inr x))"

fun foldS :: "('x \<Rightarrow> 'acc \<Rightarrow> ('s, 'acc) action) \<Rightarrow> 'x list \<Rightarrow> 'acc \<Rightarrow> ('s, 'acc) action" where
  "foldS f [] acc = returnS acc"
| "foldS f (x # xs) acc = bindS (f x acc) (foldS f xs)"

fun mapS :: "('x \<Rightarrow> ('s, 'y) action) \<Rightarrow> 'x list \<Rightarrow> ('s, 'y list) action" where
  "mapS f [] = returnS []"
| "mapS f (x # xs) = bindS (f x) (\<lambda>y. bindS (mapS f xs) (\<lambda>ys. returnS (y # ys)))"

text \<open>A loop whose body may return from the method: \<open>Inl\<close> ends it with the returned value.\<close>

fun untilS ::
  "('x \<Rightarrow> 'acc \<Rightarrow> ('s, 'r + 'acc) action) \<Rightarrow> 'x list \<Rightarrow> 'acc \<Rightarrow> ('s, 'r + 'acc) action" where
  "untilS f [] acc = returnS (Inr acc)"
| "untilS f (x # xs) acc =
     bindS (f x acc) (\<lambda>r. case r of Inl ret \<Rightarrow> returnS (Inl ret) | Inr acc' \<Rightarrow> untilS f xs acc')"

text \<open>The state together with the value, or the exception.\<close>

definition runS :: "('s, 'a) action \<Rightarrow> 's \<Rightarrow> ('s \<times> 'a) res" where
  "runS m s = (case m s of (s', Inl e) \<Rightarrow> Inl e | (s', Inr x) \<Rightarrow> Inr (s', x))"

named_theorems action_simps \<open>evaluation of actions\<close>

lemma bindS_eq_Inr [action_simps]:
  "bindS m f s = (s', Inr y) \<longleftrightarrow> (\<exists>s1 x. m s = (s1, Inr x) \<and> f x s1 = (s', Inr y))"
  by (auto simp: bindS_def split: prod.splits sum.splits)

lemma returnS_eq_Inr [action_simps]: "returnS x s = (s', Inr y) \<longleftrightarrow> s' = s \<and> y = x"
  by (auto simp: returnS_def)

lemma liftS_eq_Inr [action_simps]: "liftS r s = (s', Inr y) \<longleftrightarrow> s' = s \<and> r = Inr y"
  by (auto simp: liftS_def)

lemma readS_eq_Inr [action_simps]: "readS f s = (s', Inr y) \<longleftrightarrow> s' = s \<and> y = f s"
  by (auto simp: readS_def)

lemma modifyS_eq_Inr [action_simps]: "modifyS f s = (s', Inr y) \<longleftrightarrow> s' = f s"
  by (auto simp: modifyS_def)

lemma updateS_eq_Inr [action_simps]: "updateS f s = (s', Inr y) \<longleftrightarrow> f s = Inr (s', y)"
  by (auto simp: updateS_def split: sum.splits)

lemma runS_eq_Inr [action_simps]: "runS m s = Inr (s', y) \<longleftrightarrow> m s = (s', Inr y)"
  by (auto simp: runS_def split: prod.splits sum.splits)

lemma catchS_eq_Inr:
  "catchS e m h s = (s', Inr y) \<longleftrightarrow>
     m s = (s', Inr y) \<or> (\<exists>s1. m s = (s1, Inl e) \<and> h s1 = (s', Inr y))"
  by (auto simp: catchS_def split: prod.splits sum.splits)

text \<open>A property of the accumulator that every step keeps holds at the end of the loop.\<close>

lemma foldS_invariant:
  assumes "P acc" and "foldS f xs acc s = (s', Inr acc')"
    and "\<And>x a t t' a'. x \<in> set xs \<Longrightarrow> P a \<Longrightarrow> f x a t = (t', Inr a') \<Longrightarrow> P a'"
  shows "P acc'"
  using assms
proof (induction xs arbitrary: acc s)
  case Nil
  then show ?case by (simp add: action_simps)
next
  case (Cons x xs)
  from Cons.prems(2) obtain t a where
    t: "f x acc s = (t, Inr a)" "foldS f xs a t = (s', Inr acc')" by (auto simp: action_simps)
  have "P a" by (rule Cons.prems(3)[OF _ Cons.prems(1) t(1)]) simp
  then show ?case by (rule Cons.IH[OF _ t(2)]) (rule Cons.prems(3), auto)
qed

lemma untilS_invariant:
  assumes "P acc" and "untilS f xs acc s = (s', Inr r)"
    and "\<And>x a t t' a'. x \<in> set xs \<Longrightarrow> P a \<Longrightarrow> f x a t = (t', Inr (Inr a')) \<Longrightarrow> P a'"
    and "\<And>x a t t' ret. x \<in> set xs \<Longrightarrow> P a \<Longrightarrow> f x a t = (t', Inr (Inl ret)) \<Longrightarrow> Q ret"
  shows "case r of Inl ret \<Rightarrow> Q ret | Inr acc' \<Rightarrow> P acc'"
  using assms
proof (induction xs arbitrary: acc s)
  case Nil
  then show ?case by (auto simp: action_simps)
next
  case (Cons x xs)
  from Cons.prems(2) obtain t one where one: "f x acc s = (t, Inr one)"
    and rest: "(case one of Inl ret \<Rightarrow> returnS (Inl ret) | Inr acc' \<Rightarrow> untilS f xs acc') t = (s', Inr r)"
    by (auto simp: action_simps)
  show ?case
  proof (cases one)
    case (Inl ret)
    have "Q ret" by (rule Cons.prems(4)[OF _ Cons.prems(1)]) (use one Inl in auto)
    then show ?thesis using rest Inl by (auto simp: action_simps)
  next
    case (Inr a)
    have "P a" by (rule Cons.prems(3)[OF _ Cons.prems(1)]) (use one Inr in auto)
    moreover have "untilS f xs a t = (s', Inr r)" using rest Inr by simp
    ultimately show ?thesis by (rule Cons.IH) (rule Cons.prems(3,4), auto)+
  qed
qed

text \<open>The state an action leaves, whatever its outcome.\<close>

lemma bindS_raises: "snd (m s) = Inl e \<Longrightarrow> bindS m f s = (fst (m s), Inl e)"
  by (cases "m s") (simp add: bindS_def)

lemma bindS_returns: "snd (m s) = Inr x \<Longrightarrow> bindS m f s = f x (fst (m s))"
  by (cases "m s") (simp add: bindS_def)

lemma bind_lift: "bindS (liftS (Inr x)) f s = f x s"
  by (simp add: bindS_def liftS_def)

lemma bind_raise: "bindS (liftS (Inl e)) f s = (s, Inl e)"
  by (simp add: bindS_def liftS_def)

lemma bind_read: "bindS (readS g) f s = f (g s) s"
  by (simp add: bindS_def readS_def)

lemma bind_modify: "bindS (modifyS g) f s = f () (g s)"
  by (simp add: bindS_def modifyS_def)

lemma bind_return: "bindS (returnS x) f s = f x s"
  by (simp add: bindS_def returnS_def)

lemma bind_assoc: "bindS (bindS m f) g = bindS m (\<lambda>x. bindS (f x) g)"
  by (rule ext) (auto simp: bindS_def split: prod.split sum.split)

lemma bind_ignore: "fst (bindS m (\<lambda>_. returnS x) s) = fst (m s)"
  by (cases "m s"; cases "snd (m s)") (auto simp: bindS_def returnS_def)

lemmas bind_pure = bind_lift bind_read bind_modify bind_return

lemma bindS_final:
  assumes "P (fst (m s))" and "\<And>x s'. P s' \<Longrightarrow> P (fst (f x s'))"
  shows "P (fst (bindS m f s))"
  using assms by (cases "snd (m s)") (auto simp: bindS_raises bindS_returns)

lemma foldS_final:
  assumes "P s" and "\<And>x a s. x \<in> set xs \<Longrightarrow> P s \<Longrightarrow> P (fst (f x a s))"
  shows "P (fst (foldS f xs acc s))"
  using assms
proof (induction xs arbitrary: acc s)
  case Nil
  then show ?case by (simp add: returnS_def)
next
  case (Cons x xs)
  have "P (fst (f x acc s))" by (rule Cons.prems(2)) (use Cons.prems(1) in auto)
  then show ?case
    unfolding foldS.simps by (rule bindS_final) (rule Cons.IH, assumption, rule Cons.prems(2), auto)
qed

text \<open>What every element of a map satisfies while the state keeps a property.\<close>

lemma mapS_list_all2:
  assumes "mapS f xs s = (s', Inr ys)" and "P s"
    and "\<And>x t t' y. x \<in> set xs \<Longrightarrow> P t \<Longrightarrow> f x t = (t', Inr y) \<Longrightarrow> P t' \<and> Q x y"
  shows "list_all2 Q xs ys \<and> P s'"
  using assms
proof (induction xs arbitrary: s ys)
  case Nil
  then show ?case by (simp add: action_simps)
next
  case (Cons x xs)
  from Cons.prems(1) obtain t y zs where
    t: "f x s = (t, Inr y)" "mapS f xs t = (s', Inr zs)" "ys = y # zs" by (auto simp: action_simps)
  have y: "P t \<and> Q x y" by (rule Cons.prems(3)[OF _ Cons.prems(2) t(1)]) simp
  then have "list_all2 Q xs zs \<and> P s'" by (intro Cons.IH[OF t(2)]) (use Cons.prems(3) in auto)
  then show ?case using y t(3) by simp
qed

text \<open>An action on a part of the state.\<close>

definition zoomS :: "('s \<Rightarrow> 't) \<Rightarrow> ('t \<Rightarrow> 's \<Rightarrow> 's) \<Rightarrow> ('t, 'a) action \<Rightarrow> ('s, 'a) action" where
  "zoomS part put_part m s = (case m (part s) of (t, r) \<Rightarrow> (put_part t s, r))"

section \<open>Relations kept by actions\<close>

locale state_relation =
  fixes R :: "'s \<Rightarrow> 's \<Rightarrow> bool"
  assumes R_refl: "R s s" and R_trans: "R s t \<Longrightarrow> R t u \<Longrightarrow> R s u"
begin

definition keeps :: "('s, 'a) action \<Rightarrow> bool" where
  "keeps m \<longleftrightarrow> (\<forall>s. R s (fst (m s)))"

lemma keepsD: "keeps m \<Longrightarrow> m s = (s', r) \<Longrightarrow> R s s'"
  unfolding keeps_def by (metis fst_conv)

lemma keeps_return [intro]: "keeps (returnS x)"
  by (simp add: keeps_def returnS_def R_refl)

lemma keeps_lift [intro]: "keeps (liftS r)"
  by (simp add: keeps_def liftS_def R_refl)

lemma keeps_read [intro]: "keeps (readS f)"
  by (simp add: keeps_def readS_def R_refl)

lemma keeps_look: "keeps (\<lambda>s. (s, f s))"
  by (simp add: keeps_def R_refl)

lemma keeps_modify: "(\<And>s. R s (f s)) \<Longrightarrow> keeps (modifyS f)"
  by (simp add: keeps_def modifyS_def)

lemma keeps_update: "(\<And>s s' x. f s = Inr (s', x) \<Longrightarrow> R s s') \<Longrightarrow> keeps (updateS f)"
  by (auto simp: keeps_def updateS_def R_refl split: sum.splits prod.splits)

lemma keeps_bind [intro]:
  assumes "keeps m" and "\<And>x. keeps (f x)"
  shows "keeps (bindS m f)"
  unfolding keeps_def
proof
  fix s
  have m: "R s (fst (m s))" using assms(1) by (simp add: keeps_def)
  have f: "R (fst (m s)) (fst (f x (fst (m s))))" for x using assms(2) by (simp add: keeps_def)
  show "R s (fst (bindS m f s))"
    using m R_trans[OF m f] by (auto simp: bindS_def split: prod.splits sum.splits)
qed

lemma keeps_catch [intro]:
  assumes "keeps m" and "keeps h"
  shows "keeps (catchS e m h)"
  unfolding keeps_def
proof
  fix s
  have m: "R s (fst (m s))" using assms(1) by (simp add: keeps_def)
  have h: "R (fst (m s)) (fst (h (fst (m s))))" using assms(2) by (simp add: keeps_def)
  show "R s (fst (catchS e m h s))"
    using m R_trans[OF m h] by (auto simp: catchS_def split: prod.splits sum.splits)
qed

lemma keeps_fold [intro]: "(\<And>x a. keeps (f x a)) \<Longrightarrow> keeps (foldS f xs acc)"
  by (induction xs arbitrary: acc) auto

lemma keeps_until [intro]:
  assumes "\<And>x a. keeps (f x a)"
  shows "keeps (untilS f xs acc)"
proof (induction xs arbitrary: acc)
  case (Cons x xs)
  have "keeps (case r of Inl ret \<Rightarrow> returnS (Inl ret) | Inr acc' \<Rightarrow> untilS f xs acc')" for r
    by (cases r) (auto intro: Cons.IH)
  then show ?case using assms by auto
qed auto

lemma keeps_map [intro]: "(\<And>x. keeps (f x)) \<Longrightarrow> keeps (mapS f xs)"
  by (induction xs) auto

lemma keeps_if: "keeps a \<Longrightarrow> keeps b \<Longrightarrow> keeps (if c then a else b)"
  by simp

lemma keeps_option:
  "keeps a \<Longrightarrow> (\<And>x. keeps (f x)) \<Longrightarrow> keeps (case v of None \<Rightarrow> a | Some x \<Rightarrow> f x)"
  by (simp split: option.split)

lemma keeps_pair: "(\<And>x y. keeps (f x y)) \<Longrightarrow> keeps (case v of (x, y) \<Rightarrow> f x y)"
  by (simp split: prod.split)

lemmas keeps_intros =
  keeps_return keeps_lift keeps_read keeps_look keeps_bind keeps_catch keeps_fold keeps_until keeps_map
  keeps_if keeps_option keeps_pair

end

section \<open>Views of the state\<close>

text \<open>
  What one party can see of a shared state. A method is confined to the view when its outcome and what
  is seen afterwards depend only on what was seen before.
\<close>

locale state_view =
  fixes V :: "'s \<Rightarrow> 'v"
begin

definition confined :: "('s, 'a) action \<Rightarrow> bool" where
  "confined m \<longleftrightarrow> (\<forall>s s'. V s = V s' \<longrightarrow> V (fst (m s)) = V (fst (m s')) \<and> snd (m s) = snd (m s'))"

lemma confinedD:
  "confined m \<Longrightarrow> V s = V s' \<Longrightarrow> V (fst (m s)) = V (fst (m s')) \<and> snd (m s) = snd (m s')"
  unfolding confined_def by blast

lemma confined_return: "confined (returnS x)"
  by (simp add: confined_def returnS_def)

lemma confined_lift: "confined (liftS r)"
  by (simp add: confined_def liftS_def)

lemma confined_read: "(\<And>s s'. V s = V s' \<Longrightarrow> f s = f s') \<Longrightarrow> confined (readS f)"
  unfolding confined_def readS_def fst_conv snd_conv by blast

lemma confined_modify: "(\<And>s s'. V s = V s' \<Longrightarrow> V (f s) = V (f s')) \<Longrightarrow> confined (modifyS f)"
  unfolding confined_def modifyS_def fst_conv snd_conv by blast

lemma confined_bind:
  assumes "confined m" and "\<And>x. confined (f x)"
  shows "confined (bindS m f)"
  unfolding confined_def
proof (intro allI impI)
  fix s s' assume "V s = V s'"
  note m = confinedD[OF assms(1) this]
  obtain u r u' where eqs: "m s = (u, r)" "m s' = (u', r)" and V: "V u = V u'"
    using m by (metis prod.collapse)
  show "V (fst (bindS m f s)) = V (fst (bindS m f s')) \<and> snd (bindS m f s) = snd (bindS m f s')"
  proof (cases r)
    case (Inl e)
    show ?thesis unfolding bindS_def eqs Inl prod.case sum.case fst_conv snd_conv by (simp only: V)
  next
    case (Inr x)
    show ?thesis unfolding bindS_def eqs Inr prod.case sum.case by (rule confinedD[OF assms(2) V])
  qed
qed

lemma confined_fold: "(\<And>x a. confined (f x a)) \<Longrightarrow> confined (foldS f xs acc)"
  by (induction xs arbitrary: acc) (auto intro: confined_return confined_bind)

lemmas confined_intros = confined_return confined_lift confined_bind confined_fold

end

text \<open>
  Several parties working on one state: an operation of one party changes nothing another party
  sees, and what its own party sees afterwards depends only on what that party saw. Then a party
  cannot tell whether the others exist.
\<close>

locale isolated_parties =
  fixes view :: "'p \<Rightarrow> 's \<Rightarrow> 'v" and step :: "'op \<Rightarrow> 's \<Rightarrow> 's" and owner :: "'op \<Rightarrow> 'p"
  assumes foreign: "owner op \<noteq> t \<Longrightarrow> view t (step op s) = view t s"
    and own: "owner op = t \<Longrightarrow> view t s = view t s' \<Longrightarrow> view t (step op s) = view t (step op s')"
begin

lemma noninterference:
  "view t s = view t s' \<Longrightarrow>
     view t (fold step ops s) = view t (fold step (filter (\<lambda>op. owner op = t) ops) s')"
proof (induction ops arbitrary: s s')
  case (Cons op ops)
  show ?case
  proof (cases "owner op = t")
    case True
    from Cons.IH[OF own[OF True Cons.prems]] True show ?thesis by simp
  next
    case False
    have "view t (step op s) = view t s'" using foreign[OF False, of s] Cons.prems by simp
    from Cons.IH[OF this] False show ?thesis by simp
  qed
qed simp

end

end
