(* ===== verification/VoiceRegistry.thy ===== *)
theory VoiceRegistry
  imports Speakers Prototypes Effects "HOL-Library.AList"
begin

text \<open>
  The tenant-scoped voice registry \<open>FakeVoiceRegistry\<close> of
  \<^verbatim>\<open>src/src/sastt/adapters/fake/models.py\<close>, which every deployment without a database uses, behind
  the port of \<^verbatim>\<open>src/src/sastt/ports/registry.py\<close>. Dictionaries are association lists in insertion
  order: the order of the entries decides ties of the open-set ranking. \<open>ctx.check()\<close> is an
  argument: it raises when the call was cancelled.
\<close>

section \<open>State\<close>

record registry_entry =
  entry_identity_id :: string
  entry_display_name :: string
  entry_prototypes :: "prototype list"
  entry_accepted_speech_ms :: int
  entry_consent_ref :: "string option"

type_synonym registry_entries = "(string \<times> registry_entry) list"

record voice_registry =
  vr_model_version :: string
  vr_accept_threshold :: "real option"
  vr_ambiguous_margin :: "real option"
  vr_minimum_clips :: int
  vr_minimum_total_speech_ms :: int
  vr_tenants :: "(string \<times> registry_entries) list"

definition new_registry ::
  "string \<Rightarrow> real option \<Rightarrow> real option \<Rightarrow> int \<Rightarrow> int \<Rightarrow> voice_registry" where
  "new_registry version accept margin min_clips speech =
     \<lparr>vr_model_version = version, vr_accept_threshold = accept, vr_ambiguous_margin = margin,
      vr_minimum_clips = min_clips, vr_minimum_total_speech_ms = speech, vr_tenants = []\<rparr>"

definition is_calibrated :: "voice_registry \<Rightarrow> bool" where
  "is_calibrated r \<longleftrightarrow> vr_accept_threshold r \<noteq> None \<and> vr_ambiguous_margin r \<noteq> None"

text \<open>\<open>self._tenants.get(tenant_id, {})\<close>.\<close>

definition entries_of :: "voice_registry \<Rightarrow> string \<Rightarrow> registry_entries" where
  "entries_of r t = (case map_of (vr_tenants r) t of None \<Rightarrow> [] | Some es \<Rightarrow> es)"

definition set_entries :: "string \<Rightarrow> registry_entries \<Rightarrow> voice_registry \<Rightarrow> voice_registry" where
  "set_entries t es r = r\<lparr>vr_tenants := AList.update t es (vr_tenants r)\<rparr>"

section \<open>Enrollment\<close>

definition clip_reasons_of :: "string \<Rightarrow> speaker_embedding \<Rightarrow> string list" where
  "clip_reasons_of version e =
     (if e_model_version e \<noteq> version then [''embedding_model_mismatch''] else []) @
     (if e_speech_duration_ms e < 3000 then [''clip_shorter_than_3s''] else []) @
     (if 15000 < e_speech_duration_ms e then [''clip_longer_than_15s''] else []) @
     (if e_origin e = Separated then [''separated_source_not_allowed''] else [])"

definition clip_report :: "string \<Rightarrow> nat \<times> speaker_embedding \<Rightarrow> enrollment_clip_report" where
  "clip_report version p =
     \<lparr>clip_index = fst p, clip_accepted = (clip_reasons_of version (snd p) = []),
      clip_speech_duration_ms = e_speech_duration_ms (snd p),
      clip_reasons = clip_reasons_of version (snd p)\<rparr>"

definition accepted_embeddings :: "string \<Rightarrow> speaker_embedding list \<Rightarrow> speaker_embedding list" where
  "accepted_embeddings version es = filter (\<lambda>e. clip_reasons_of version e = []) es"

text \<open>\<open>self._tenants.setdefault(tenant_id, {}).setdefault(identity_id, _RegistryEntry(...))\<close>.\<close>

definition ensure_entry :: "string \<Rightarrow> string \<Rightarrow> string option \<Rightarrow> voice_registry \<Rightarrow> voice_registry" where
  "ensure_entry t i name r =
     set_entries t
       (case map_of (entries_of r t) i of
          Some e \<Rightarrow> entries_of r t
        | None \<Rightarrow> AList.update i
            \<lparr>entry_identity_id = i, entry_display_name = or_else name i, entry_prototypes = [],
             entry_accepted_speech_ms = 0, entry_consent_ref = None\<rparr> (entries_of r t)) r"

definition edit_entry ::
  "string \<Rightarrow> string \<Rightarrow> (registry_entry \<Rightarrow> registry_entry) \<Rightarrow> voice_registry \<Rightarrow> voice_registry" where
  "edit_entry t i f r =
     (case map_of (entries_of r t) i of
        None \<Rightarrow> r
      | Some e \<Rightarrow> set_entries t (AList.update i (f e) (entries_of r t)) r)"

definition refresh_metadata ::
  "string option \<Rightarrow> string option \<Rightarrow> registry_entry \<Rightarrow> registry_entry" where
  "refresh_metadata name consent e =
     e\<lparr>entry_consent_ref := if truthy consent then consent else entry_consent_ref e,
       entry_display_name := or_else name (entry_display_name e)\<rparr>"

definition add_prototype :: "prototype \<Rightarrow> registry_entry \<Rightarrow> registry_entry" where
  "add_prototype p e = e\<lparr>entry_prototypes := entry_prototypes e @ [p]\<rparr>"

definition store_embedding ::
  "string \<Rightarrow> string \<Rightarrow> speaker_embedding \<Rightarrow> unit \<Rightarrow> (voice_registry, unit) action" where
  "store_embedding t i e u =
     bindS (liftS (from_embedding i e)) (\<lambda>p. modifyS (edit_entry t i (add_prototype p)))"

definition policy_failures :: "voice_registry \<Rightarrow> nat \<Rightarrow> int \<Rightarrow> string list" where
  "policy_failures r stored speech =
     (if int stored < vr_minimum_clips r then [''fewer_than_minimum_clips''] else []) @
     (if speech < vr_minimum_total_speech_ms r then [''insufficient_total_speech''] else [])"

definition enroll_report ::
  "string \<Rightarrow> string \<Rightarrow> speaker_embedding list \<Rightarrow> voice_registry \<Rightarrow> enrollment_report" where
  "enroll_report t i es r =
     (let version = vr_model_version r;
          accepted = accepted_embeddings version es;
          entry = the (map_of (entries_of r t) i);
          failures = policy_failures r (length (entry_prototypes entry)) (entry_accepted_speech_ms entry)
      in \<lparr>identity_id = i, accepted_clips = length accepted,
          rejected_clips = length es - length accepted,
          total_speech_ms = entry_accepted_speech_ms entry,
          prototype_count = length (entry_prototypes entry),
          embedding_model_version = version, meets_policy = (failures = []),
          clips = map (clip_report version) (enumerate 0 es), policy_reasons = failures\<rparr>)"

definition enroll ::
  "unit res \<Rightarrow> string \<Rightarrow> string \<Rightarrow> speaker_embedding list \<Rightarrow> string option \<Rightarrow> string option \<Rightarrow>
     (voice_registry, enrollment_report) action" where
  "enroll check t i es name consent =
     bindS (liftS check) (\<lambda>_.
     bindS (readS (\<lambda>r. accepted_embeddings (vr_model_version r) es)) (\<lambda>accepted.
     bindS (modifyS (ensure_entry t i name)) (\<lambda>_.
     bindS (modifyS (edit_entry t i (refresh_metadata name consent))) (\<lambda>_.
     bindS (foldS (store_embedding t i) accepted ()) (\<lambda>_.
     bindS (modifyS (edit_entry t i (\<lambda>e. e\<lparr>entry_accepted_speech_ms :=
         entry_accepted_speech_ms e + sum_list (map e_speech_duration_ms accepted)\<rparr>))) (\<lambda>_.
     readS (enroll_report t i es)))))))"

section \<open>Identification\<close>

definition decision ::
  "voice_id_status \<Rightarrow> string option \<Rightarrow> string option \<Rightarrow> real option \<Rightarrow> real option \<Rightarrow> string \<Rightarrow>
     voice_id_decision" where
  "decision s i name best margin reason =
     \<lparr>vid_status = s, vid_registry_speaker_id = i, vid_speaker_name = name, vid_best_score = best,
      vid_margin = margin, vid_reason = reason\<rparr>"

text \<open>The score of one entry: the best of its prototypes.\<close>

definition entry_score :: "speaker_embedding \<Rightarrow> registry_entry \<Rightarrow> real res" where
  "entry_score e entry =
     bindR (mapR (\<lambda>p. similarity p e) (entry_prototypes entry)) (\<lambda>ss.
       Inr (list_max (hd ss) (tl ss)))"

definition entry_scores ::
  "speaker_embedding \<Rightarrow> registry_entries \<Rightarrow> (real \<times> registry_entry) list res" where
  "entry_scores e entries =
     mapR (\<lambda>entry. bindR (entry_score e entry) (\<lambda>s. Inr (s, entry)))
       (filter (\<lambda>entry. entry_prototypes entry \<noteq> []) (map snd entries))"

definition ranked_decision ::
  "real \<Rightarrow> real \<Rightarrow> (real \<times> registry_entry) list \<Rightarrow> voice_id_decision" where
  "ranked_decision accept threshold scores =
     (case sort_key (\<lambda>s. - fst s) scores of
        [] \<Rightarrow> decision VidUnknown None None None None ''empty_registry''
      | (best, entry) # others \<Rightarrow>
          let margin = (case others of [] \<Rightarrow> None | (second, _) # _ \<Rightarrow> Some (best - second))
          in if best < accept then decision VidUnknown None None (Some best) margin ''below_accept''
             else if margin \<noteq> None \<and> the margin < threshold
               then decision VidAmbiguous None None (Some best) margin ''low_margin''
             else decision VidEnrolled (Some (entry_identity_id entry))
                    (Some (entry_display_name entry)) (Some best) margin ''accept'')"

definition identify ::
  "unit res \<Rightarrow> voice_registry \<Rightarrow> string \<Rightarrow> speaker_embedding \<Rightarrow> voice_id_decision res" where
  "identify check r t e =
     bindR check (\<lambda>_.
       case (vr_accept_threshold r, vr_ambiguous_margin r) of
         (Some accept, Some threshold) \<Rightarrow>
           (if e_model_version e \<noteq> vr_model_version r
            then Inr (decision VidUnknown None None None None ''embedding_model_mismatch'')
            else bindR (entry_scores e (entries_of r t)) (\<lambda>scores.
                   Inr (ranked_decision accept threshold scores)))
       | _ \<Rightarrow> Inr (decision VidUncalibrated None None None None ''thresholds_null''))"

section \<open>Deletion and lookup\<close>

definition delete_identity :: "unit res \<Rightarrow> string \<Rightarrow> string \<Rightarrow> (voice_registry, bool) action" where
  "delete_identity check t i =
     bindS (liftS check) (\<lambda>_.
     bindS (readS (\<lambda>r. map_of (entries_of r t) i \<noteq> None)) (\<lambda>found.
     bindS (modifyS (\<lambda>r. if found then set_entries t (AList.delete i (entries_of r t)) r else r)) (\<lambda>_.
     returnS found)))"

definition identity_exists :: "voice_registry \<Rightarrow> string \<Rightarrow> string \<Rightarrow> bool" where
  "identity_exists r t i \<longleftrightarrow> map_of (entries_of r t) i \<noteq> None"

definition prototypes_of :: "voice_registry \<Rightarrow> string \<Rightarrow> string \<Rightarrow> prototype list res" where
  "prototypes_of r t i =
     (case map_of (entries_of r t) i of
        None \<Rightarrow> Inl (Sastt TenantAccessDeniedError)
      | Some e \<Rightarrow> Inr (entry_prototypes e))"

end
