(* ===== verification/RegistryProps.thy ===== *)
theory RegistryProps
  imports VoiceRegistry
begin

text \<open>
  What the voice registry promises: the stored templates of a tenant are well formed, a tenant
  cannot tell whether other tenants exist, identification never raises and never names anyone
  unless every gate of the open-set decision is passed, and a deleted identity is gone.
\<close>

section \<open>Entries\<close>

lemma entries_of_set [simp]:
  "entries_of (set_entries t es r) u = (if u = t then es else entries_of r u)"
  by (simp add: entries_of_def set_entries_def update_conv)

lemma set_entries_config [simp]:
  "vr_model_version (set_entries t es r) = vr_model_version r"
  "vr_accept_threshold (set_entries t es r) = vr_accept_threshold r"
  "vr_ambiguous_margin (set_entries t es r) = vr_ambiguous_margin r"
  "vr_minimum_clips (set_entries t es r) = vr_minimum_clips r"
  "vr_minimum_total_speech_ms (set_entries t es r) = vr_minimum_total_speech_ms r"
  by (simp_all add: set_entries_def)

section \<open>Operations\<close>

datatype registry_op =
    EnrollOp "unit res" string string "speaker_embedding list" "string option" "string option"
  | DeleteOp "unit res" string string

fun registry_step :: "registry_op \<Rightarrow> voice_registry \<Rightarrow> voice_registry" where
  "registry_step (EnrollOp check t i es name consent) r = fst (enroll check t i es name consent r)"
| "registry_step (DeleteOp check t i) r = fst (delete_identity check t i r)"

fun registry_tenant :: "registry_op \<Rightarrow> string" where
  "registry_tenant (EnrollOp check t i es name consent) = t"
| "registry_tenant (DeleteOp check t i) = t"

text \<open>What one tenant can see: its own entries, and the settings every tenant shares.\<close>

definition tenant_view ::
  "string \<Rightarrow> voice_registry \<Rightarrow> string \<times> real option \<times> real option \<times> int \<times> int \<times> registry_entries" where
  "tenant_view t r = (vr_model_version r, vr_accept_threshold r, vr_ambiguous_margin r,
     vr_minimum_clips r, vr_minimum_total_speech_ms r, entries_of r t)"

lemma tenant_view_eq:
  "tenant_view t r = tenant_view t r' \<longleftrightarrow>
     vr_model_version r = vr_model_version r' \<and> vr_accept_threshold r = vr_accept_threshold r'
     \<and> vr_ambiguous_margin r = vr_ambiguous_margin r' \<and> vr_minimum_clips r = vr_minimum_clips r'
     \<and> vr_minimum_total_speech_ms r = vr_minimum_total_speech_ms r'
     \<and> entries_of r t = entries_of r' t"
  by (auto simp: tenant_view_def)

interpretation tenant: state_view "tenant_view t" for t .

text \<open>Nothing another tenant sees is changed.\<close>

definition others_unchanged :: "string \<Rightarrow> voice_registry \<Rightarrow> voice_registry \<Rightarrow> bool" where
  "others_unchanged t r r' \<longleftrightarrow> (\<forall>u. u \<noteq> t \<longrightarrow> tenant_view u r' = tenant_view u r)"

interpretation others: state_relation "others_unchanged t" for t
  by unfold_locales (auto simp: others_unchanged_def)

lemma set_entries_others: "others_unchanged t r (set_entries t es r)"
  by (simp add: others_unchanged_def tenant_view_eq)

lemma ensure_entry_others: "others_unchanged t r (ensure_entry t i name r)"
  by (simp add: ensure_entry_def set_entries_others)

lemma edit_entry_others: "others_unchanged t r (edit_entry t i f r)"
  by (auto simp: edit_entry_def set_entries_others others.R_refl split: option.split)

lemma enroll_others: "others.keeps t (enroll check t i es name consent)"
  unfolding enroll_def store_embedding_def
  by (intro others.keeps_intros others.keeps_modify ensure_entry_others edit_entry_others)

lemma delete_others: "others.keeps t (delete_identity check t i)"
  unfolding delete_identity_def
  by (intro others.keeps_intros others.keeps_modify)
    (simp add: set_entries_others others.R_refl)

text \<open>What the own tenant sees afterwards depends only on what it saw.\<close>

lemma ensure_entry_confined:
  "tenant_view t r = tenant_view t r' \<Longrightarrow>
     tenant_view t (ensure_entry t i name r) = tenant_view t (ensure_entry t i name r')"
  by (simp add: tenant_view_eq ensure_entry_def split: option.split)

lemma edit_entry_confined:
  "tenant_view t r = tenant_view t r' \<Longrightarrow>
     tenant_view t (edit_entry t i f r) = tenant_view t (edit_entry t i f r')"
  by (simp add: tenant_view_eq edit_entry_def split: option.split)

lemma enroll_confined: "tenant.confined t (enroll check t i es name consent)"
  unfolding enroll_def store_embedding_def
  by (intro tenant.confined_intros tenant.confined_modify tenant.confined_read ensure_entry_confined
      edit_entry_confined)
    (simp_all add: tenant_view_eq enroll_report_def policy_failures_def)

lemma delete_confined: "tenant.confined t (delete_identity check t i)"
  unfolding delete_identity_def
  by (intro tenant.confined_intros tenant.confined_modify tenant.confined_read)
    (simp_all add: tenant_view_eq)

lemma foreign_operation:
  assumes "registry_tenant op \<noteq> t"
  shows "tenant_view t (registry_step op s) = tenant_view t s"
proof (cases op)
  case (EnrollOp check u i es name consent)
  from enroll_others[of u check i es name consent] EnrollOp assms show ?thesis
    unfolding others.keeps_def others_unchanged_def by simp
next
  case (DeleteOp check u i)
  from delete_others[of u check i] DeleteOp assms show ?thesis
    unfolding others.keeps_def others_unchanged_def by simp
qed

lemma own_operation:
  assumes "registry_tenant op = t" and V: "tenant_view t s = tenant_view t s'"
  shows "tenant_view t (registry_step op s) = tenant_view t (registry_step op s')"
proof (cases op)
  case (EnrollOp check u i es name consent)
  with assms(1) tenant.confinedD[OF enroll_confined V] show ?thesis by auto
next
  case (DeleteOp check u i)
  with assms(1) tenant.confinedD[OF delete_confined V] show ?thesis by auto
qed

interpretation registry: isolated_parties tenant_view registry_step registry_tenant
  by unfold_locales (rule foreign_operation, assumption, rule own_operation, assumption, assumption)

lemma identify_view:
  "tenant_view t r = tenant_view t r' \<Longrightarrow> identify check r t e = identify check r' t e"
  by (cases check) (simp_all add: identify_def tenant_view_eq split: option.split)

lemma exists_view:
  "tenant_view t r = tenant_view t r' \<Longrightarrow> identity_exists r t i = identity_exists r' t i"
  by (simp add: identity_exists_def tenant_view_eq)

lemma prototypes_view:
  "tenant_view t r = tenant_view t r' \<Longrightarrow> prototypes_of r t i = prototypes_of r' t i"
  by (simp add: prototypes_of_def tenant_view_eq)

definition own_ops :: "string \<Rightarrow> registry_op list \<Rightarrow> registry_op list" where
  "own_ops t ops = filter (\<lambda>op. registry_tenant op = t) ops"

text \<open>
  C16: Tenant isolation. After any sequence of enrollments and deletions by any tenants, failed
  ones included, everything a tenant can ask of the registry has the answer it would have if only
  that tenant's own operations had taken place.
\<close>

theorem tenants_are_isolated:
  "identify check (fold registry_step ops r) t e = identify check (fold registry_step (own_ops t ops) r) t e
   \<and> identity_exists (fold registry_step ops r) t i = identity_exists (fold registry_step (own_ops t ops) r) t i
   \<and> prototypes_of (fold registry_step ops r) t i = prototypes_of (fold registry_step (own_ops t ops) r) t i"
proof -
  have "tenant_view t (fold registry_step ops r) = tenant_view t (fold registry_step (own_ops t ops) r)"
    unfolding own_ops_def by (rule registry.noninterference) simp
  from identify_view[OF this] exists_view[OF this] prototypes_view[OF this] show ?thesis by blast
qed

section \<open>Well-formed registries\<close>

definition wf_entry :: "string \<Rightarrow> string \<times> registry_entry \<Rightarrow> bool" where
  "wf_entry version p \<longleftrightarrow> entry_identity_id (snd p) = fst p
     \<and> (\<forall>q\<in>set (entry_prototypes (snd p)). p_model_version q = version \<and> speaker_key q = fst p
          \<and> vnorm (centroid q) = 1)"

definition wf_entries :: "string \<Rightarrow> registry_entries \<Rightarrow> bool" where
  "wf_entries version es \<longleftrightarrow> distinct (map fst es) \<and> (\<forall>p\<in>set es. wf_entry version p)"

definition wf_registry :: "voice_registry \<Rightarrow> bool" where
  "wf_registry r \<longleftrightarrow> (\<forall>t. wf_entries (vr_model_version r) (entries_of r t))"

lemma wf_new_registry: "wf_registry (new_registry version accept margin n s)"
  by (simp add: wf_registry_def new_registry_def entries_of_def wf_entries_def)

lemma wf_entries_update:
  assumes "wf_entries version es" and "wf_entry version (i, e)"
  shows "wf_entries version (AList.update i e es)"
proof -
  have "set (AList.update i e es) \<subseteq> insert (i, e) (set es)" for es :: registry_entries
    by (induction es) auto
  then show ?thesis using assms distinct_update[of es i e] by (auto simp: wf_entries_def)
qed

lemma wf_entries_lookup:
  "wf_entries version es \<Longrightarrow> map_of es i = Some e \<Longrightarrow> wf_entry version (i, e)"
  unfolding wf_entries_def by (blast dest: map_of_SomeD)

lemma wf_registry_set:
  "wf_registry r \<Longrightarrow> wf_entries (vr_model_version r) es \<Longrightarrow> wf_registry (set_entries t es r)"
  by (simp add: wf_registry_def)

lemma wf_ensure_entry: "wf_registry r \<Longrightarrow> wf_registry (ensure_entry t i name r)"
  unfolding ensure_entry_def
  by (rule wf_registry_set)
    (auto simp: wf_registry_def wf_entry_def intro!: wf_entries_update split: option.split)

lemma wf_edit_entry:
  assumes "wf_registry r"
    and "\<And>e. wf_entry (vr_model_version r) (i, e) \<Longrightarrow> wf_entry (vr_model_version r) (i, f e)"
  shows "wf_registry (edit_entry t i f r)"
proof (cases "map_of (entries_of r t) i")
  case (Some e)
  have wf: "wf_entries (vr_model_version r) (entries_of r t)" using assms(1) by (simp add: wf_registry_def)
  from wf_registry_set[OF assms(1) wf_entries_update[OF wf assms(2)[OF wf_entries_lookup[OF wf Some]]]]
  show ?thesis by (simp add: edit_entry_def Some)
qed (simp add: edit_entry_def assms(1))

lemma edit_entry_version: "vr_model_version (edit_entry t i f r) = vr_model_version r"
  by (simp add: edit_entry_def split: option.split)

lemma ensure_entry_version: "vr_model_version (ensure_entry t i name r) = vr_model_version r"
  by (simp add: ensure_entry_def)

text \<open>The operations keep the registry well formed and its model version.\<close>

lemma store_embedding_wf:
  assumes "e_model_version e = version" and "wf_registry r \<and> vr_model_version r = version"
  shows "wf_registry (fst (store_embedding t i e u r)) \<and> vr_model_version (fst (store_embedding t i e u r)) = version"
proof (cases "from_embedding i e")
  case (Inl x)
  then show ?thesis using assms(2) by (simp add: store_embedding_def bindS_def liftS_def)
next
  case (Inr p)
  have "p_model_version p = version" "speaker_key p = i" "vnorm (centroid p) = 1"
    using Inr assms l2_normalize_unit by (auto simp: from_embedding_def bindR_eq_Inr)
  then have "wf_entry version (i, x) \<Longrightarrow> wf_entry version (i, add_prototype p x)" for x
    by (auto simp: wf_entry_def add_prototype_def)
  then have "wf_registry (edit_entry t i (add_prototype p) r)"
    using assms(2) by (intro wf_edit_entry) auto
  then show ?thesis
    using Inr assms(2) by (simp add: store_embedding_def bindS_def liftS_def modifyS_def edit_entry_version)
qed

lemma accepted_version: "e \<in> set (accepted_embeddings version es) \<Longrightarrow> e_model_version e = version"
  by (auto simp: accepted_embeddings_def clip_reasons_of_def split: if_splits)

lemma wf_edit_metadata:
  "(\<And>e. entry_identity_id (f e) = entry_identity_id e \<and> entry_prototypes (f e) = entry_prototypes e) \<Longrightarrow>
     wf_registry r \<Longrightarrow> wf_registry (edit_entry t i f r)"
  by (rule wf_edit_entry) (auto simp: wf_entry_def)

lemma enroll_wf:
  assumes "wf_registry r"
  shows "wf_registry (fst (enroll check t i es name consent r))
    \<and> vr_model_version (fst (enroll check t i es name consent r)) = vr_model_version r"
proof (cases check)
  case (Inl e)
  then show ?thesis using assms by (simp add: enroll_def bindS_def liftS_def)
next
  case (Inr v)
  let ?v = "vr_model_version r"
  define r1 where "r1 = edit_entry t i (refresh_metadata name consent) (ensure_entry t i name r)"
  have r1: "wf_registry r1 \<and> vr_model_version r1 = ?v"
    unfolding r1_def using wf_ensure_entry[OF assms]
    by (simp add: wf_edit_metadata refresh_metadata_def edit_entry_version ensure_entry_version)
  let ?m = "foldS (store_embedding t i) (accepted_embeddings ?v es) ()"
  have m: "wf_registry (fst (?m r1)) \<and> vr_model_version (fst (?m r1)) = ?v"
    using r1 by (rule foldS_final) (rule store_embedding_wf[OF accepted_version])
  have "enroll check t i es name consent r = bindS ?m (\<lambda>_.
     bindS (modifyS (edit_entry t i (\<lambda>e. e\<lparr>entry_accepted_speech_ms := entry_accepted_speech_ms e
         + sum_list (map e_speech_duration_ms (accepted_embeddings ?v es))\<rparr>))) (\<lambda>_.
     readS (enroll_report t i es))) r1"
    unfolding enroll_def Inr bind_pure r1_def by (rule refl)
  then show ?thesis
    using m by (simp only:) (rule bindS_final, assumption,
        simp add: bind_pure readS_def wf_edit_metadata edit_entry_version)
qed

lemma delete_wf:
  assumes "wf_registry r"
  shows "wf_registry (fst (delete_identity check t i r))
    \<and> vr_model_version (fst (delete_identity check t i r)) = vr_model_version r"
proof -
  have "wf_entries (vr_model_version r) (AList.delete i (entries_of r t))"
    using assms distinct_delete[of "entries_of r t" i]
    by (auto simp: wf_registry_def wf_entries_def AList.delete_eq)
  from wf_registry_set[OF assms this] assms show ?thesis
    by (cases check) (simp_all add: delete_identity_def bindS_def liftS_def readS_def modifyS_def returnS_def)
qed

lemma registry_step_wf:
  assumes "wf_registry r"
  shows "wf_registry (registry_step op r) \<and> vr_model_version (registry_step op r) = vr_model_version r"
  using enroll_wf[OF assms] delete_wf[OF assms] by (cases op) auto

definition same_settings :: "voice_registry \<Rightarrow> voice_registry \<Rightarrow> bool" where
  "same_settings r r' \<longleftrightarrow> vr_accept_threshold r' = vr_accept_threshold r
     \<and> vr_ambiguous_margin r' = vr_ambiguous_margin r \<and> vr_model_version r' = vr_model_version r"

interpretation settings: state_relation same_settings
  by unfold_locales (auto simp: same_settings_def)

lemma edit_entry_settings: "same_settings r (edit_entry t i f r)"
  by (simp add: same_settings_def edit_entry_def split: option.split)

lemma ensure_entry_settings: "same_settings r (ensure_entry t i name r)"
  by (simp add: same_settings_def ensure_entry_def)

lemma enroll_settings: "settings.keeps (enroll check t i es name consent)"
  unfolding enroll_def store_embedding_def
  by (intro settings.keeps_intros settings.keeps_modify edit_entry_settings ensure_entry_settings)

lemma delete_settings: "settings.keeps (delete_identity check t i)"
  unfolding delete_identity_def
  by (intro settings.keeps_intros settings.keeps_modify) (simp add: same_settings_def)

lemma registry_step_settings: "same_settings r (registry_step op r)"
  using enroll_settings delete_settings by (cases op) (simp_all add: settings.keeps_def)

lemma registry_run_config: "same_settings r (fold registry_step ops r)"
proof (induction ops arbitrary: r)
  case (Cons op ops)
  from settings.R_trans[OF registry_step_settings Cons.IH] show ?case by simp
qed (simp add: settings.R_refl)

lemma registry_run_wf: "wf_registry r \<Longrightarrow> wf_registry (fold registry_step ops r)"
  using registry_step_wf by (induction ops arbitrary: r) auto


section \<open>Open-set identification\<close>

text \<open>The scores of the prototypes of an entry.\<close>

definition prototype_scores :: "speaker_embedding \<Rightarrow> registry_entry \<Rightarrow> real list" where
  "prototype_scores e entry = map (\<lambda>p. dot (centroid p) (e_vector e)) (entry_prototypes entry)"

definition best_of :: "speaker_embedding \<Rightarrow> registry_entry \<Rightarrow> real" where
  "best_of e entry = list_max (hd (prototype_scores e entry)) (tl (prototype_scores e entry))"

lemma best_of_max:
  assumes "entry_prototypes entry \<noteq> []"
  shows "best_of e entry \<in> set (prototype_scores e entry)"
    and "s \<in> set (prototype_scores e entry) \<Longrightarrow> s \<le> best_of e entry"
proof -
  obtain x xs where c: "prototype_scores e entry = x # xs"
    using assms by (cases "prototype_scores e entry") (auto simp: prototype_scores_def)
  show "best_of e entry \<in> set (prototype_scores e entry)"
    using list_max_in[of x xs] by (auto simp: best_of_def c)
  show "s \<in> set (prototype_scores e entry) \<Longrightarrow> s \<le> best_of e entry"
    using list_max_ge[of s x xs] by (auto simp: best_of_def c)
qed

lemma entry_score_best:
  assumes "\<forall>p\<in>set (entry_prototypes entry). p_model_version p = e_model_version e"
  shows "entry_score e entry = Inr (best_of e entry)"
proof -
  have "mapR (\<lambda>p. similarity p e) (entry_prototypes entry) = Inr (prototype_scores e entry)"
    unfolding prototype_scores_def by (rule mapR_total) (use assms in \<open>simp add: similarity_def\<close>)
  then show ?thesis by (simp add: entry_score_def best_of_def)
qed

definition candidates :: "registry_entries \<Rightarrow> registry_entry list" where
  "candidates es = filter (\<lambda>entry. entry_prototypes entry \<noteq> []) (map snd es)"

lemma entry_scores_best:
  assumes "wf_entries version es" and "e_model_version e = version"
  shows "entry_scores e es = Inr (map (\<lambda>entry. (best_of e entry, entry)) (candidates es))"
  unfolding entry_scores_def candidates_def
proof (rule mapR_total)
  fix entry assume "entry \<in> set (filter (\<lambda>entry. entry_prototypes entry \<noteq> []) (map snd es))"
  then have "\<forall>p\<in>set (entry_prototypes entry). p_model_version p = e_model_version e"
    using assms by (auto simp: wf_entries_def wf_entry_def)
  then show "bindR (entry_score e entry) (\<lambda>s. Inr (s, entry)) = Inr (best_of e entry, entry)"
    by (simp add: entry_score_best)
qed

lemma identify_cases:
  assumes "wf_registry r" and "identify check r t e = Inr d"
  obtains (null) "\<not> is_calibrated r" "d = decision VidUncalibrated None None None None ''thresholds_null''"
  | (other_model) "is_calibrated r" "e_model_version e \<noteq> vr_model_version r"
      "d = decision VidUnknown None None None None ''embedding_model_mismatch''"
  | (ranked) accept threshold where "vr_accept_threshold r = Some accept"
      "vr_ambiguous_margin r = Some threshold" "e_model_version e = vr_model_version r"
      "d = ranked_decision accept threshold
         (map (\<lambda>entry. (best_of e entry, entry)) (candidates (entries_of r t)))"
proof -
  have wf: "wf_entries (vr_model_version r) (entries_of r t)" using assms(1) by (simp add: wf_registry_def)
  note scores = entry_scores_best[OF wf]
  have "check = Inr ()" using assms(2) by (cases check) (auto simp: identify_def)
  then show thesis
    using assms(2) scores that
    by (auto simp: identify_def is_calibrated_def split: option.splits if_splits)
qed

text \<open>The first two of the ranking: no later score beats either of them.\<close>

lemma ranking_head:
  fixes b c :: real
  assumes "sort_key (\<lambda>s. - fst s) xs = (b, x) # others"
  shows "(b, x) \<in> set xs" and "\<forall>y\<in>set others. fst y \<le> b" and "set xs = insert (b, x) (set others)"
    and "others = (c, z) # rest \<Longrightarrow> \<forall>y\<in>set others. fst y \<le> c"
    and "mset xs = add_mset (b, x) (mset others)"
proof -
  have m: "mset xs = add_mset (b, x) (mset others)"
    using assms by (metis mset.simps(2) mset_sort)
  then show "mset xs = add_mset (b, x) (mset others)" .
  show "set xs = insert (b, x) (set others)" using m by (metis set_mset_add_mset_insert set_mset_mset)
  then show "(b, x) \<in> set xs" by simp
  have sorted: "sorted (map (\<lambda>s. - fst s) ((b, x) # others))" using sorted_sort_key[of "\<lambda>s. - fst s" xs] assms by simp
  then have "\<forall>y\<in>set others. - b \<le> - fst y" by simp
  then show "\<forall>y\<in>set others. fst y \<le> b" by simp
  show "\<forall>y\<in>set others. fst y \<le> c" if "others = (c, z) # rest"
  proof -
    have "\<forall>y\<in>set others. - c \<le> - fst y" using sorted that by simp
    then show ?thesis by simp
  qed
qed

text \<open>What an accepted identification says of the winner and of everyone else of the tenant.\<close>

definition clear_winner ::
  "registry_entries \<Rightarrow> speaker_embedding \<Rightarrow> real \<Rightarrow> real \<Rightarrow> voice_id_decision \<Rightarrow> string \<Rightarrow> registry_entry \<Rightarrow> bool" where
  "clear_winner es e accept threshold d i entry \<longleftrightarrow>
     map_of es i = Some entry \<and> vid_registry_speaker_id d = Some i
     \<and> vid_speaker_name d = Some (entry_display_name entry)
     \<and> vid_best_score d = Some (best_of e entry) \<and> accept \<le> best_of e entry
     \<and> best_of e entry \<in> set (prototype_scores e entry)
     \<and> (\<forall>s\<in>set (prototype_scores e entry). s \<le> best_of e entry)
     \<and> (\<forall>j other. j \<noteq> i \<longrightarrow> map_of es j = Some other \<longrightarrow>
          (\<forall>s\<in>set (prototype_scores e other). s \<le> best_of e entry - threshold))"

lemma ranked_enrolled:
  assumes wf: "wf_entries version es"
    and d: "d = ranked_decision accept threshold (map (\<lambda>entry. (best_of e entry, entry)) (candidates es))"
    and "vid_status d = VidEnrolled"
  shows "\<exists>i entry. clear_winner es e accept threshold d i entry"
proof -
  let ?scores = "map (\<lambda>entry. (best_of e entry, entry)) (candidates es)"
  obtain b entry others where ranking: "sort_key (\<lambda>s. - fst s) ?scores = (b, entry) # others"
    using assms(2,3) by (cases "sort_key (\<lambda>s. - fst s) ?scores") (auto simp: ranked_decision_def decision_def)
  note head = ranking_head[OF ranking]
  have b: "b = best_of e entry" and cand: "entry \<in> set (candidates es)" using head(1) by auto
  then obtain i where i: "(i, entry) \<in> set es" and ne: "entry_prototypes entry \<noteq> []"
    by (auto simp: candidates_def)
  have dist: "distinct (map fst es)" using wf by (simp add: wf_entries_def)
  have look: "map_of es i = Some entry" using i dist by simp
  have id: "entry_identity_id entry = i" using wf_entries_lookup[OF wf look] by (simp add: wf_entry_def)
  have fields: "vid_registry_speaker_id d = Some i" "vid_speaker_name d = Some (entry_display_name entry)"
      "vid_best_score d = Some b" "accept \<le> b"
      and margin: "\<And>c z rest. others = (c, z) # rest \<Longrightarrow> threshold \<le> b - c"
    using assms(3) id unfolding d ranked_decision_def ranking
    by (auto simp: decision_def Let_def split: if_splits list.splits)
  have rivals: "s \<le> b - threshold"
    if "j \<noteq> i" "map_of es j = Some other" "s \<in> set (prototype_scores e other)" for j other s
  proof -
    have "entry_identity_id other = j" using wf_entries_lookup[OF wf that(2)] by (simp add: wf_entry_def)
    then have "other \<noteq> entry" using that(1) id by auto
    moreover have "other \<in> set (candidates es)" and ne: "entry_prototypes other \<noteq> []"
      using map_of_SomeD[OF that(2)] that(3) by (force simp: candidates_def prototype_scores_def)+
    ultimately have rival: "(best_of e other, other) \<in> set others" using head(3) by auto
    then obtain c z rest where o: "others = (c, z) # rest" by (cases others) auto
    have "s \<le> best_of e other" by (rule best_of_max(2)[OF ne that(3)])
    also have "\<dots> \<le> c" using head(4)[OF o] rival by fastforce
    finally show ?thesis using margin[OF o] by simp
  qed
  have "clear_winner es e accept threshold d i entry"
    using look fields best_of_max[OF ne] rivals unfolding clear_winner_def b by blast
  then show ?thesis by blast
qed


text \<open>Three clips of one person and one of another, as two enrollments store them.\<close>

definition clip_of :: "real list \<Rightarrow> speaker_embedding" where
  "clip_of v = (unit_x 1)\<lparr>e_vector := v, e_speech_duration_ms := 6000\<rparr>"

definition demo_enrollments :: "registry_op list" where
  "demo_enrollments =
     [EnrollOp (Inr ()) ''acme'' ''ann'' [clip_of [1, 0]] (Some ''Ann'') None,
      EnrollOp (Inr ()) ''acme'' ''bob'' [clip_of [0, 1]] (Some ''Bob'') None]"

definition demo_registry :: voice_registry where
  "demo_registry = fold registry_step demo_enrollments (new_registry ''m'' (Some (1/2)) (Some (1/5)) 1 0)"

definition demo_entry :: "string \<Rightarrow> string \<Rightarrow> real list \<Rightarrow> registry_entry" where
  "demo_entry i name v = \<lparr>entry_identity_id = i, entry_display_name = name,
     entry_prototypes = [\<lparr>speaker_key = i, centroid = v, weight_sum = 1, p_model_version = ''m'',
        p_version = 1, contributing_segments = []\<rparr>],
     entry_accepted_speech_ms = 6000, entry_consent_ref = None\<rparr>"

lemma demo_clip:
  "v = [1, 0] \<or> v = [0, 1] \<Longrightarrow> from_embedding i (clip_of v) =
     Inr \<lparr>speaker_key = i, centroid = v, weight_sum = 1, p_model_version = ''m'', p_version = 1,
          contributing_segments = []\<rparr>"
  by (auto simp: from_embedding_def clip_of_def unit_x_def l2_normalize_def vscale_def vnorm_def dot_def)

lemma demo_accepted: "accepted_embeddings ''m'' [clip_of v] = [clip_of v]"
  by (simp add: accepted_embeddings_def clip_reasons_of_def clip_of_def unit_x_def)

lemma demo_step:
  assumes "v = [1, 0] \<or> v = [0, 1]" and "vr_model_version r = ''m''" and "map_of (entries_of r t) i = None"
    and "name \<noteq> []"
  shows "entries_of (registry_step (EnrollOp (Inr ()) t i [clip_of v] (Some name) None) r) t =
     entries_of r t @ [(i, demo_entry i name v)]"
proof -
  have new: "AList.update i e es = es @ [(i, e)]" if "map_of es i = None" for e and es :: registry_entries
    using that by (induction es) (auto split: if_splits)
  have again: "AList.update i e (es @ [(i, e')]) = es @ [(i, e)]" if "map_of es i = None" for e e' and es :: registry_entries
    using that by (induction es) (auto split: if_splits)
  have found: "map_of (es @ [(i, e)]) i = Some e" if "map_of es i = None" for e and es :: registry_entries
    using that by (simp add: map_add_def)
  have speech: "e_speech_duration_ms (clip_of v) = 6000" by (simp add: clip_of_def)
  show ?thesis
    using assms
    by (simp add: enroll_def bind_pure bind_assoc demo_accepted store_embedding_def demo_clip readS_def returnS_def
        ensure_entry_def edit_entry_def new again found refresh_metadata_def add_prototype_def
        demo_entry_def speech del: map_of_append)
qed

lemma demo_entries:
  "entries_of demo_registry ''acme'' =
     [(''ann'', demo_entry ''ann'' ''Ann'' [1, 0]), (''bob'', demo_entry ''bob'' ''Bob'' [0, 1])]"
proof -
  let ?r0 = "new_registry ''m'' (Some (1/2)) (Some (1/5)) 1 0"
  let ?r1 = "registry_step (EnrollOp (Inr ()) ''acme'' ''ann'' [clip_of [1, 0]] (Some ''Ann'') None) ?r0"
  have e0: "entries_of ?r0 ''acme'' = []" and v0: "vr_model_version ?r0 = ''m''"
    by (simp_all add: new_registry_def entries_of_def)
  have e1: "entries_of ?r1 ''acme'' = [(''ann'', demo_entry ''ann'' ''Ann'' [1, 0])]"
    by (subst demo_step) (simp_all only: e0 v0, simp_all)
  have v1: "vr_model_version ?r1 = ''m''"
    using registry_step_settings[of ?r0] v0 by (simp only: same_settings_def)
  have "entries_of (registry_step (EnrollOp (Inr ()) ''acme'' ''bob'' [clip_of [0, 1]] (Some ''Bob'') None) ?r1) ''acme''
      = [(''ann'', demo_entry ''ann'' ''Ann'' [1, 0])] @ [(''bob'', demo_entry ''bob'' ''Bob'' [0, 1])]"
    by (subst demo_step) (simp_all only: e1 v1, simp_all)
  then show ?thesis by (simp add: demo_registry_def demo_enrollments_def del: registry_step.simps)
qed

lemma demo_identified:
  "identify (Inr ()) demo_registry ''acme'' (clip_of [1, 0]) =
     Inr (decision VidEnrolled (Some ''ann'') (Some ''Ann'') (Some 1) (Some 1) ''accept'')"
proof -
  have config: "vr_accept_threshold demo_registry = Some (1/2)" "vr_ambiguous_margin demo_registry = Some (1/5)"
      "vr_model_version demo_registry = ''m''"
    using registry_run_config[of "new_registry ''m'' (Some (1/2)) (Some (1/5)) 1 0" demo_enrollments]
    by (simp_all add: demo_registry_def new_registry_def same_settings_def)
  show ?thesis
    by (simp add: identify_def config demo_entries entry_scores_def entry_score_def demo_entry_def
        similarity_def clip_of_def unit_x_def dot_def ranked_decision_def Let_def)
qed


section \<open>Deletion\<close>

text \<open>An operation on one identity of one tenant leaves every other entry of the registry alone.\<close>

definition others_entries :: "string \<Rightarrow> string \<Rightarrow> voice_registry \<Rightarrow> voice_registry \<Rightarrow> bool" where
  "others_entries t i r r' \<longleftrightarrow>
     (\<forall>u j. (u, j) \<noteq> (t, i) \<longrightarrow> map_of (entries_of r' u) j = map_of (entries_of r u) j)"

interpretation others_entries: state_relation "others_entries t i" for t i
  by unfold_locales (auto simp: others_entries_def)

lemma ensure_entry_only: "others_entries t i r (ensure_entry t i name r)"
  by (auto simp: others_entries_def ensure_entry_def update_conv split: option.split)

lemma edit_entry_only: "others_entries t i r (edit_entry t i f r)"
  by (auto simp: others_entries_def edit_entry_def update_conv split: option.split)

lemma enroll_only: "others_entries.keeps t i (enroll check t i es name consent)"
  unfolding enroll_def store_embedding_def
  by (intro others_entries.keeps_intros others_entries.keeps_modify ensure_entry_only edit_entry_only)

lemma delete_only: "others_entries.keeps t i (delete_identity check t i)"
  unfolding delete_identity_def
  by (intro others_entries.keeps_intros others_entries.keeps_modify)
    (simp add: others_entries_def delete_conv)

fun enrolls :: "string \<Rightarrow> string \<Rightarrow> registry_op \<Rightarrow> bool" where
  "enrolls t i (EnrollOp check u j es name consent) \<longleftrightarrow> u = t \<and> j = i"
| "enrolls t i (DeleteOp check u j) \<longleftrightarrow> False"

lemma delete_absent:
  "map_of (entries_of r t) i = None \<Longrightarrow> map_of (entries_of (fst (delete_identity check t i r)) t) i = None"
  by (cases check) (simp_all add: delete_identity_def bindS_def liftS_def readS_def modifyS_def returnS_def)

lemma step_absent:
  assumes "\<not> enrolls t i op" and "map_of (entries_of r t) i = None"
  shows "map_of (entries_of (registry_step op r) t) i = None"
proof (cases op)
  case (EnrollOp check u j es name consent)
  with assms have "(t, i) \<noteq> (u, j)" by auto
  then have "map_of (entries_of (fst (enroll check u j es name consent r)) t) i = map_of (entries_of r t) i"
    using enroll_only[of u j check es name consent]
    unfolding others_entries.keeps_def others_entries_def by blast
  with EnrollOp assms(2) show ?thesis by simp
next
  case (DeleteOp check u j)
  have "map_of (entries_of (fst (delete_identity check u j r)) t) i = None"
  proof (cases "(t, i) = (u, j)")
    case True
    with delete_absent[OF assms(2)] show ?thesis by auto
  next
    case False
    with delete_only[of u j check] assms(2) show ?thesis
      unfolding others_entries.keeps_def others_entries_def by metis
  qed
  with DeleteOp show ?thesis by simp
qed

lemma run_absent:
  "\<forall>op\<in>set ops. \<not> enrolls t i op \<Longrightarrow> map_of (entries_of r t) i = None \<Longrightarrow>
     map_of (entries_of (fold registry_step ops r) t) i = None"
  by (induction ops arbitrary: r) (auto simp: step_absent)

lemma absent_not_identified:
  assumes "wf_registry r" and "map_of (entries_of r t) i = None" and "identify check r t e = Inr d"
  shows "vid_registry_speaker_id d \<noteq> Some i"
  using assms(1,3)
proof (cases rule: identify_cases)
  case (ranked accept threshold)
  have wf: "wf_entries (vr_model_version r) (entries_of r t)" using assms(1) by (simp add: wf_registry_def)
  show ?thesis
  proof (cases "vid_status d = VidEnrolled")
    case True
    from ranked_enrolled[OF wf ranked(4) True] assms(2) show ?thesis by (auto simp: clear_winner_def)
  next
    case False
    then show ?thesis unfolding ranked(4) ranked_decision_def
      by (auto simp: decision_def Let_def split: list.split)
  qed
qed (simp_all add: decision_def)

text \<open>
  A deleted identity is gone. After a deletion of an identity, whatever operations follow, as
  long as the identity is not enrolled again, it does not exist for its tenant, asking for its
  templates is refused as an access to a foreign identity, and no identification names it.
\<close>

theorem deleted_identity_is_gone:
  assumes "wf_registry r" and "\<forall>op\<in>set ops. \<not> enrolls t i op"
  defines "r' \<equiv> fold registry_step ops (fst (delete_identity (Inr ()) t i r))"
  shows "\<not> identity_exists r' t i \<and> prototypes_of r' t i = Inl (Sastt TenantAccessDeniedError)
    \<and> (\<forall>check e d. identify check r' t e = Inr d \<longrightarrow> vid_registry_speaker_id d \<noteq> Some i)"
proof -
  have "map_of (entries_of (fst (delete_identity (Inr ()) t i r)) t) i = None"
    by (simp add: delete_identity_def bind_pure returnS_def delete_conv)
  from run_absent[OF assms(2) this] have gone: "map_of (entries_of r' t) i = None" by (simp add: r'_def)
  have "wf_registry r'" unfolding r'_def using registry_run_wf delete_wf[OF assms(1)] by blast
  then show ?thesis
    using gone absent_not_identified by (auto simp: identity_exists_def prototypes_of_def)
qed

theorem deleted_identity_is_gone_witness:
  "identity_exists demo_registry ''acme'' ''ann''
   \<and> \<not> identity_exists (fold registry_step [DeleteOp (Inr ()) ''acme'' ''bob'']
         (fst (delete_identity (Inr ()) ''acme'' ''ann'' demo_registry))) ''acme'' ''ann''"
proof -
  have "wf_registry demo_registry" unfolding demo_registry_def by (rule registry_run_wf[OF wf_new_registry])
  from deleted_identity_is_gone[OF this, where t = "''acme''" and i = "''ann''"
      and ops = "[DeleteOp (Inr ()) ''acme'' ''bob'']"]
  show ?thesis by (simp add: identity_exists_def demo_entries del: registry_step.simps)
qed

end
