(* ===== verification/PcmAudio.thy ===== *)
theory PcmAudio
  imports "HOL-Library.Word" AudioBuffer
begin

unbundle bit_operations_syntax

text \<open>
  The byte formats of \<^verbatim>\<open>src/src/sastt/application/streaming_pipeline.py\<close>: 16-bit little-endian PCM,
  which a session receives and spools, and the RIFF container in which the final pass hands the
  audio of the session to the decoder. Bytes and samples are machine words; \<open>astype("<i2")\<close>
  truncates towards zero and would wrap, which the clipping before it rules out.
\<close>

type_synonym bytes = "8 Word.word list"

section \<open>PCM\<close>

definition le16 :: "8 Word.word \<Rightarrow> 8 Word.word \<Rightarrow> 16 Word.word" where
  "le16 lo hi = word_cat hi lo"

definition bytes16 :: "16 Word.word \<Rightarrow> bytes" where
  "bytes16 w = [ucast w, ucast (drop_bit 8 w)]"

text \<open>\<open>np.frombuffer(payload, "<i2").astype(np.float32) / 32768.0\<close>, for a payload of even length.\<close>

fun pcm_samples :: "bytes \<Rightarrow> sample list" where
  "pcm_samples (lo # hi # rest) = Fin (of_int (sint (le16 lo hi)) / 32768) # pcm_samples rest"
| "pcm_samples _ = []"

definition pcm_word :: "real \<Rightarrow> 16 Word.word" where
  "pcm_word x = word_of_int (trunc (max (- 1) (min 1 x) * 32767))"

definition to_pcm16 :: "sample list \<Rightarrow> bytes" where
  "to_pcm16 xs = concat (map (\<lambda>s. bytes16 (pcm_word (fin_value s))) xs)"

section \<open>RIFF container\<close>

text \<open>\<open>struct.pack\<close> of an unsigned field of \<open>k\<close> bytes.\<close>

definition le_bytes :: "nat \<Rightarrow> int \<Rightarrow> bytes" where
  "le_bytes k n = map (\<lambda>i. word_of_int (n div 256 ^ i)) [0..<k]"

definition pack :: "nat \<Rightarrow> int \<Rightarrow> bytes res" where
  "pack k n = (if 0 \<le> n \<and> n < 256 ^ k then Inr (le_bytes k n) else Inl StructError)"

definition ascii :: "string \<Rightarrow> bytes" where
  "ascii s = map of_char s"

definition to_wav :: "sample list \<Rightarrow> int \<Rightarrow> bytes res" where
  "to_wav xs rate =
     (let pcm = to_pcm16 xs in
      bindR (pack 4 (36 + int (length pcm))) (\<lambda>riff_size.
      bindR (mapR (\<lambda>(k, n). pack k n)
          [(4, 16), (2, 1), (2, 1), (4, rate), (4, rate * 2), (2, 2), (2, 16)]) (\<lambda>fmt.
      bindR (pack 4 (int (length pcm))) (\<lambda>data_size.
        Inr (ascii ''RIFF'' @ riff_size @ ascii ''WAVEfmt '' @ concat fmt @
             ascii ''data'' @ data_size @ pcm)))))"

section \<open>Properties\<close>

lemma le16_bytes16: "le16 (ucast w) (ucast (drop_bit 8 w)) = w"
  unfolding le16_def by (rule bit_word_eqI) (auto simp: bit_word_cat_iff bit_ucast_iff bit_drop_bit_eq)

lemma length_pcm_samples: "even (length b) \<Longrightarrow> length (pcm_samples b) = length b div 2"
  by (induction b rule: pcm_samples.induct) auto

lemma length_to_pcm16: "length (to_pcm16 xs) = 2 * length xs"
  by (induction xs) (simp_all add: to_pcm16_def bytes16_def)

lemma pcm_samples_append:
  "even (length a) \<Longrightarrow> pcm_samples (a @ b) = pcm_samples a @ pcm_samples b"
  by (induction a rule: pcm_samples.induct) auto

lemma pcm_decode_encode:
  "pcm_samples (to_pcm16 xs) = map (\<lambda>s. Fin (of_int (sint (pcm_word (fin_value s))) / 32768)) xs"
  by (induction xs) (simp_all add: to_pcm16_def bytes16_def le16_bytes16)

lemma trunc_bounds: "\<bar>of_int (trunc x)\<bar> \<le> \<bar>x\<bar>" "\<bar>x - of_int (trunc x)\<bar> < 1" "0 \<le> x * of_int (trunc x)"
proof -
  consider (neg) "x < 0" "of_int (trunc x) \<le> (0::real)" "x \<le> of_int (trunc x)" "of_int (trunc x) < x + 1"
    | (pos) "0 \<le> x" "0 \<le> (of_int (trunc x) :: real)" "of_int (trunc x) \<le> x" "x < of_int (trunc x) + 1"
    unfolding trunc_def by (cases "x < 0") (simp_all, linarith+)
  then show "\<bar>of_int (trunc x)\<bar> \<le> \<bar>x\<bar>" "\<bar>x - of_int (trunc x)\<bar> < 1" "0 \<le> x * of_int (trunc x)"
    by (cases; simp add: mult_nonpos_nonpos)+
qed

lemma sint_pcm_word: "sint (pcm_word x) = trunc (max (- 1) (min 1 x) * 32767)"
proof -
  let ?y = "max (- 1) (min 1 x) * 32767"
  have "\<bar>?y\<bar> \<le> 32767" by (auto simp: abs_if max_def min_def)
  with trunc_bounds(1)[of ?y] have "\<bar>real_of_int (trunc ?y)\<bar> \<le> 32767" by linarith
  then have "- 32767 \<le> trunc ?y" "trunc ?y \<le> 32767" by linarith+
  then have range: "- (2 ^ 15) \<le> trunc ?y" "trunc ?y < 2 ^ 15" by simp_all
  have "sint (word_of_int k :: 16 Word.word) = k" if "- (2 ^ 15) \<le> k" "k < 2 ^ 15" for k
    using that by transfer (simp add: signed_take_bit_int_eq_self)
  from this[OF range] show ?thesis unfolding pcm_word_def .
qed

text \<open>
  Re-encoding the audio of a session. The final pass decodes the spooled PCM to floats divided
  by 32768 and encodes them multiplied by 32767. Decoding the result again gives as many samples,
  each within one quantisation step of the received one, never louder and never of the other sign.
\<close>

theorem pcm_reencoding_error:
  "list_all2 (\<lambda>s s'. \<bar>fin_value s - fin_value s'\<bar> \<le> 1 / 32768 \<and> \<bar>fin_value s'\<bar> \<le> \<bar>fin_value s\<bar>
      \<and> 0 \<le> fin_value s * fin_value s')
     (pcm_samples payload) (pcm_samples (to_pcm16 (pcm_samples payload)))"
proof (induction payload rule: pcm_samples.induct)
  case (1 lo hi rest)
  define v where "v = sint (le16 lo hi)"
  let ?x = "real_of_int v / 32768"
  have v: "- 32768 \<le> v" "v \<le> 32767"
    using sint_ge[of "le16 lo hi"] sint_lt[of "le16 lo hi"] by (simp_all add: v_def)
  then have "- 1 \<le> ?x" "?x \<le> 1" by simp_all
  then have clip: "max (- 1) (min 1 ?x) * 32767 = ?x * 32767" by simp
  let ?t = "trunc (?x * 32767)"
  have w: "sint (pcm_word ?x) = ?t" using sint_pcm_word[of ?x] clip by simp
  note b = trunc_bounds[of "?x * 32767"]
  have small: "\<bar>?x * 32767\<bar> \<le> \<bar>of_int v\<bar>" by (simp add: abs_mult)
  have louder: "\<bar>real_of_int ?t\<bar> \<le> \<bar>of_int v\<bar>" using b(1) small by linarith
  have "\<bar>of_int v - ?x * 32767\<bar> \<le> 1" using v by (auto simp: abs_if field_simps)
  then have "\<bar>of_int v - real_of_int ?t\<bar> < 2" using b(2) by linarith
  then have step: "\<bar>v - ?t\<bar> \<le> 1" by linarith
  have sign: "0 \<le> ?x * (of_int ?t / 32768)"
    using b(3) by (simp add: zero_le_mult_iff mult_le_0_iff zero_le_divide_iff divide_le_0_iff)
  have "\<bar>?x - of_int ?t / 32768\<bar> = of_int \<bar>v - ?t\<bar> / 32768" by (simp add: abs_if field_simps)
  also have "\<dots> \<le> 1 / 32768" using step by simp
  finally show ?case
    using 1 louder sign by (simp add: pcm_decode_encode w v_def[symmetric] divide_right_mono del: of_int_sint)
qed (simp_all add: to_pcm16_def)

text \<open>Reading a little-endian field, and a reader of 16-bit mono PCM files by the RIFF layout.\<close>

definition le_value :: "bytes \<Rightarrow> int" where
  "le_value bs = foldr (\<lambda>b a. uint b + 256 * a) bs 0"

definition field_at :: "nat \<Rightarrow> nat \<Rightarrow> bytes \<Rightarrow> bytes" where
  "field_at k i b = take k (drop i b)"

definition wav_parse :: "bytes \<Rightarrow> (int \<times> bytes) option" where
  "wav_parse b =
     (if field_at 4 0 b = ascii ''RIFF'' \<and> le_value (field_at 4 4 b) = int (length b) - 8
         \<and> field_at 8 8 b = ascii ''WAVEfmt '' \<and> le_value (field_at 4 16 b) = 16
         \<and> le_value (field_at 2 20 b) = 1 \<and> le_value (field_at 2 22 b) = 1
         \<and> le_value (field_at 4 28 b) = 2 * le_value (field_at 4 24 b)
         \<and> le_value (field_at 2 32 b) = 2 \<and> le_value (field_at 2 34 b) = 16
         \<and> field_at 4 36 b = ascii ''data'' \<and> le_value (field_at 4 40 b) = int (length b) - 44
      then Some (le_value (field_at 4 24 b), drop 44 b) else None)"

lemma le_bytes_Suc: "le_bytes (Suc k) n = word_of_int n # le_bytes k (n div 256)"
  unfolding le_bytes_def upt_conv_Cons[OF zero_less_Suc] map_Suc_upt[symmetric]
  by (simp add: zdiv_zmult2_eq)

lemma length_le_bytes [simp]: "length (le_bytes k n) = k"
  by (simp add: le_bytes_def)

lemma le_value_bytes: "0 \<le> n \<Longrightarrow> n < 256 ^ k \<Longrightarrow> le_value (le_bytes k n) = n"
proof (induction k arbitrary: n)
  case 0
  then show ?case by (simp add: le_value_def le_bytes_def)
next
  case (Suc k)
  then have "n div 256 < 256 ^ k" by (simp add: div_less_iff_less_mult mult.commute)
  with Suc have "le_value (le_bytes k (n div 256)) = n div 256" by simp
  then have "le_value (le_bytes (Suc k) n) = uint (word_of_int n :: 8 Word.word) + 256 * (n div 256)"
    by (simp add: le_bytes_Suc le_value_def)
  also have "uint (word_of_int n :: 8 Word.word) = n mod 256" by (simp add: uint_word_of_int)
  finally show ?case by simp
qed

lemma pack_eq_Inr: "pack k n = Inr b \<longleftrightarrow> b = le_bytes k n \<and> 0 \<le> n \<and> n < 256 ^ k"
  by (auto simp: pack_def)

lemma to_wav_eq_Inr:
  "to_wav xs rate = Inr b \<longleftrightarrow>
     b = ascii ''RIFF'' @ le_bytes 4 (36 + 2 * int (length xs)) @ ascii ''WAVEfmt '' @
         le_bytes 4 16 @ le_bytes 2 1 @ le_bytes 2 1 @ le_bytes 4 rate @ le_bytes 4 (rate * 2) @
         le_bytes 2 2 @ le_bytes 2 16 @ ascii ''data'' @ le_bytes 4 (2 * int (length xs)) @ to_pcm16 xs
     \<and> 36 + 2 * int (length xs) < 2 ^ 32 \<and> 0 \<le> rate \<and> rate * 2 < 2 ^ 32"
  by (auto simp: to_wav_def Let_def bindR_eq_Inr pack_eq_Inr length_to_pcm16)

text \<open>
  The container of the final pass. Writing succeeds exactly when the sizes fit the 32-bit
  fields of the format, which bounds a session to about 2^31 samples; and what is written reads
  back as 16-bit mono PCM of that rate whose data are the encoded samples, with both size fields
  exact.
\<close>

theorem wav_roundtrip:
  "((\<exists>b. to_wav xs rate = Inr b) \<longleftrightarrow>
      36 + 2 * int (length xs) < 2 ^ 32 \<and> 0 \<le> rate \<and> rate * 2 < 2 ^ 32)
   \<and> (\<forall>b. to_wav xs rate = Inr b \<longrightarrow> wav_parse b = Some (rate, to_pcm16 xs)
        \<and> length b = 44 + 2 * length xs)"
proof (intro conjI allI impI)
  fix b assume b: "to_wav xs rate = Inr b"
  then show len: "length b = 44 + 2 * length xs"
    by (simp add: to_wav_eq_Inr ascii_def length_to_pcm16)
  from b show "wav_parse b = Some (rate, to_pcm16 xs)"
    using len by (simp add: wav_parse_def to_wav_eq_Inr field_at_def le_value_bytes ascii_def)
qed (simp add: to_wav_eq_Inr)

theorem wav_roundtrip_witness:
  "wav_parse (ascii ''RIFF'' @ le_bytes 4 40 @ ascii ''WAVEfmt '' @
     le_bytes 4 16 @ le_bytes 2 1 @ le_bytes 2 1 @ le_bytes 4 16000 @ le_bytes 4 32000 @
     le_bytes 2 2 @ le_bytes 2 16 @ ascii ''data'' @ le_bytes 4 4 @ to_pcm16 [Fin 1, Fin (1/2)])
   = Some (16000, to_pcm16 [Fin 1, Fin (1/2)])"
proof -
  have "to_wav [Fin 1, Fin (1/2)] 16000 = Inr (ascii ''RIFF'' @ le_bytes 4 40 @ ascii ''WAVEfmt '' @
     le_bytes 4 16 @ le_bytes 2 1 @ le_bytes 2 1 @ le_bytes 4 16000 @ le_bytes 4 32000 @
     le_bytes 2 2 @ le_bytes 2 16 @ ascii ''data'' @ le_bytes 4 4 @ to_pcm16 [Fin 1, Fin (1/2)])"
    by (simp add: to_wav_eq_Inr)
  with wav_roundtrip[of "[Fin 1, Fin (1/2)]" 16000] show ?thesis by blast
qed

end
