(* ===== verification/Transcript.thy ===== *)
theory Transcript
  imports Speakers
begin

text \<open>
  Words, recognition results and the public transcript contract of
  \<^verbatim>\<open>src/src/sastt/domain/transcript.py\<close>: stable word identifiers, the checks of \<open>Word\<close>,
  \<open>Confidences\<close> and \<open>TranscriptSegment\<close>, the public dictionary, the final ordering and the text
  rendering.

  \<open>hashlib.sha256(...).hexdigest()\<close> and \<open>str.lower\<close> are arguments (\<open>sha\<close>, \<open>lower\<close>) of the word
  identifier; what is shown holds for every such pair of functions.
\<close>

section \<open>Words\<close>

definition SCHEMA_VERSION :: string where "SCHEMA_VERSION = ''2.0''"

definition WORD_ID_SAMPLE_ROUNDING :: int where "WORD_ID_SAMPLE_ROUNDING = 160"

definition track_text :: "nat option \<Rightarrow> string" where
  "track_text t = (case t of None \<Rightarrow> ''-'' | Some k \<Rightarrow> digits k)"

definition word_id_payload ::
  "(string \<Rightarrow> string) \<Rightarrow> (string \<Rightarrow> string) \<Rightarrow> string \<Rightarrow> int \<Rightarrow> string \<Rightarrow> nat option \<Rightarrow> int \<Rightarrow> string" where
  "word_id_payload sha lower session_id start txt track sample_rounding =
     session_id @ ''|'' @ str_int (start div sample_rounding * sample_rounding) @ ''|''
       @ take 16 (sha (lower (strip txt))) @ ''|'' @ track_text track"

definition stable_word_id ::
  "(string \<Rightarrow> string) \<Rightarrow> (string \<Rightarrow> string) \<Rightarrow> string \<Rightarrow> int \<Rightarrow> string \<Rightarrow> nat option \<Rightarrow> int \<Rightarrow> string" where
  "stable_word_id sha lower session_id start txt track sample_rounding =
     ''wrd_'' @ take 24 (sha (word_id_payload sha lower session_id start txt track sample_rounding))"

record word =
  w_text :: string
  w_start :: int
  w_end :: int
  raw_probability :: "real option"
  w_track :: "nat option"
  word_id :: "string option"

definition mk_word ::
  "string \<Rightarrow> int \<Rightarrow> int \<Rightarrow> real option \<Rightarrow> nat option \<Rightarrow> string option \<Rightarrow> word res" where
  "mk_word txt start fin prob track wid =
     (if start < 0 \<or> fin \<le> start then Inl (Sastt SchemaInvariantError)
      else Inr \<lparr>w_text = txt, w_start = start, w_end = fin, raw_probability = prob,
                w_track = track, word_id = wid\<rparr>)"

definition valid_word :: "word \<Rightarrow> bool" where
  "valid_word w \<longleftrightarrow> 0 \<le> w_start w \<and> w_start w < w_end w"

definition word_interval :: "word \<Rightarrow> time_interval" where
  "word_interval w = TI (w_start w) (w_end w)"

definition shifted :: "word \<Rightarrow> int \<Rightarrow> word res" where
  "shifted w offset_ms =
     mk_word (w_text w) (w_start w + offset_ms) (w_end w + offset_ms) (raw_probability w)
       (w_track w) (word_id w)"

definition with_stable_id ::
  "(string \<Rightarrow> string) \<Rightarrow> (string \<Rightarrow> string) \<Rightarrow> word \<Rightarrow> string \<Rightarrow> int \<Rightarrow> word res" where
  "with_stable_id sha lower w session_id rate =
     bindR (ms_to_samples (w_start w) rate) (\<lambda>s.
       mk_word (w_text w) (w_start w) (w_end w) (raw_probability w) (w_track w)
         (Some (stable_word_id sha lower session_id s (w_text w) (w_track w)
                  WORD_ID_SAMPLE_ROUNDING)))"

record asr_result =
  asr_words :: "word list"
  detected_language :: string
  language_score :: "real option"
  asr_model_version :: string
  asr_raw_scores :: "(string \<times> real) list"

definition asr_text :: "asr_result \<Rightarrow> string" where
  "asr_text r = strip (join '' '' (map w_text (asr_words r)))"

section \<open>Confidences and segments\<close>

record model_versions =
  mv_diarization :: "string option"
  mv_embedding :: "string option"
  mv_separation :: "string option"
  mv_asr :: "string option"
  mv_calibration :: "string option"

definition model_versions_to_dict :: "model_versions \<Rightarrow> json" where
  "model_versions_to_dict m = JObj
     [(''diarization'', json_opt JStr (mv_diarization m)),
      (''embedding'', json_opt JStr (mv_embedding m)),
      (''separation'', json_opt JStr (mv_separation m)),
      (''asr'', json_opt JStr (mv_asr m)),
      (''calibration'', json_opt JStr (mv_calibration m))]"

datatype confidence_status = Uncalibrated | Calibrated

record confidences =
  c_asr :: "real option"
  c_diarization :: "real option"
  c_linking :: "real option"
  c_voice_id :: "real option"
  c_overlap :: "real option"
  c_overall :: "real option"
  c_status :: confidence_status

definition no_confidences :: confidences where
  "no_confidences =
     \<lparr>c_asr = None, c_diarization = None, c_linking = None, c_voice_id = None,
      c_overlap = None, c_overall = None, c_status = Uncalibrated\<rparr>"

definition unit_or_none :: "real option \<Rightarrow> bool" where
  "unit_or_none v \<longleftrightarrow> (case v of None \<Rightarrow> True | Some x \<Rightarrow> 0 \<le> x \<and> x \<le> 1)"

definition mk_confidences :: "confidences \<Rightarrow> confidences res" where
  "mk_confidences c =
     (if \<not> (\<forall>v\<in>set [c_asr c, c_diarization c, c_linking c, c_voice_id c, c_overlap c,
                     c_overall c]. unit_or_none v)
        then Inl (Sastt SchemaInvariantError)
      else if c_status c = Uncalibrated \<and> c_overall c \<noteq> None
        then Inl (Sastt SchemaInvariantError)
      else Inr c)"

record segment =
  seg_session_id :: string
  seg_event_id :: string
  seg_start :: int
  seg_end :: int
  seg_text :: string
  seg_speaker_id :: string
  seg_session_speaker_id :: string
  seg_status :: identity_status
  seg_revision :: int
  seg_supersedes :: "string option"
  seg_registry_id :: "string option"
  seg_label :: string
  seg_name :: "string option"
  seg_is_overlap :: bool
  seg_concurrent :: "int option"
  seg_count_confidence :: "real option"
  seg_track :: "nat option"
  seg_backend :: "string option"
  seg_confidences :: confidences
  seg_raw_scores :: "(string \<times> real) list"
  seg_flags :: "string list"
  seg_degraded :: bool
  seg_is_final :: bool
  seg_versions :: model_versions
  seg_words :: "word list"
  seg_schema :: string

text \<open>
  \<open>_validate\<close>, run by the constructor. The check that \<open>identity_status\<close> is an \<open>IdentityStatus\<close>
  holds by typing.
\<close>

definition mk_segment :: "segment \<Rightarrow> segment res" where
  "mk_segment s =
     (if \<not> (0 \<le> seg_start s \<and> seg_start s < seg_end s) then Inl (Sastt SchemaInvariantError)
      else if seg_revision s < 1 then Inl (Sastt SchemaInvariantError)
      else if seg_backend s \<noteq> None \<and> seg_track s = None then Inl (Sastt SchemaInvariantError)
      else if \<not> unit_or_none (seg_count_confidence s) then Inl (Sastt SchemaInvariantError)
      else if seg_status s = StatusEnrolled
                \<and> (\<not> truthy (seg_registry_id s) \<or> \<not> truthy (seg_name s))
        then Inl (Sastt SchemaInvariantError)
      else if seg_status s \<noteq> StatusEnrolled \<and> seg_speaker_id s \<noteq> seg_session_speaker_id s
        then Inl (Sastt SchemaInvariantError)
      else Inr s)"

definition valid_segment :: "segment \<Rightarrow> bool" where
  "valid_segment s \<longleftrightarrow> mk_segment s = Inr s"

definition segment_interval :: "segment \<Rightarrow> time_interval" where
  "segment_interval s = TI (seg_start s) (seg_end s)"

definition segment_sort_key :: "segment \<Rightarrow> int \<times> string \<times> nat" where
  "segment_sort_key s =
     (seg_start s, seg_session_speaker_id s, case seg_track s of None \<Rightarrow> 0 | Some t \<Rightarrow> t)"

fun status_value :: "identity_status \<Rightarrow> string" where
  "status_value StatusProvisional = ''provisional''"
| "status_value StatusEnrolled = ''enrolled''"
| "status_value StatusAnonymous = ''anonymous''"
| "status_value StatusUnknown = ''unknown''"
| "status_value StatusAmbiguous = ''ambiguous''"

fun confidence_status_value :: "confidence_status \<Rightarrow> string" where
  "confidence_status_value Uncalibrated = ''uncalibrated''"
| "confidence_status_value Calibrated = ''calibrated''"

definition to_public_dict :: "segment \<Rightarrow> (string \<times> json) list" where
  "to_public_dict s =
     [(''schema_version'', JStr (seg_schema s)),
      (''session_id'', JStr (seg_session_id s)),
      (''event_id'', JStr (seg_event_id s)),
      (''revision'', JInt (seg_revision s)),
      (''supersedes_event_id'', json_opt JStr (seg_supersedes s)),
      (''start_ms'', JInt (seg_start s)),
      (''end_ms'', JInt (seg_end s)),
      (''text'', JStr (seg_text s)),
      (''speaker_id'', JStr (seg_speaker_id s)),
      (''session_speaker_id'', JStr (seg_session_speaker_id s)),
      (''registry_speaker_id'', json_opt JStr (seg_registry_id s)),
      (''speaker_label'', JStr (seg_label s)),
      (''speaker_name'', json_opt JStr (seg_name s)),
      (''identity_status'', JStr (status_value (seg_status s))),
      (''is_overlap'', JBool (seg_is_overlap s)),
      (''estimated_concurrent_speakers'', json_opt JInt (seg_concurrent s)),
      (''count_confidence'', json_opt JReal (seg_count_confidence s)),
      (''source_track'', json_opt (\<lambda>k. JInt (int k)) (seg_track s)),
      (''separation_backend'', json_opt JStr (seg_backend s)),
      (''asr_confidence'', json_opt JReal (c_asr (seg_confidences s))),
      (''diarization_confidence'', json_opt JReal (c_diarization (seg_confidences s))),
      (''linking_confidence'', json_opt JReal (c_linking (seg_confidences s))),
      (''voice_id_confidence'', json_opt JReal (c_voice_id (seg_confidences s))),
      (''overlap_confidence'', json_opt JReal (c_overlap (seg_confidences s))),
      (''overall_confidence'', json_opt JReal (c_overall (seg_confidences s))),
      (''confidence_status'', JStr (confidence_status_value (c_status (seg_confidences s)))),
      (''raw_scores'', JObj (map (\<lambda>(k, v). (k, JReal v)) (seg_raw_scores s))),
      (''quality_flags'', JList (map JStr (seg_flags s))),
      (''degraded_mode'', JBool (seg_degraded s)),
      (''is_final'', JBool (seg_is_final s)),
      (''model_versions'', model_versions_to_dict (seg_versions s))]"

definition sort_segments :: "segment list \<Rightarrow> segment list" where
  "sort_segments segs = sort_key segment_sort_key segs"

section \<open>Text rendering\<close>

text \<open>The UTF-8 bytes of the en dash, the em dash and the two quotation marks.\<close>

definition EN_DASH :: string where "EN_DASH = [CHR 0xE2, CHR 0x80, CHR 0x93]"
definition EM_DASH :: string where "EM_DASH = [CHR 0xE2, CHR 0x80, CHR 0x94]"
definition LEFT_QUOTE :: string where "LEFT_QUOTE = [CHR 0xE2, CHR 0x80, CHR 0x9C]"
definition RIGHT_QUOTE :: string where "RIGHT_QUOTE = [CHR 0xE2, CHR 0x80, CHR 0x9D]"

text \<open>\<open>_format_timestamp\<close>; the bounds of a segment are never negative.\<close>

definition format_timestamp :: "int \<Rightarrow> string" where
  "format_timestamp ms =
     (let minutes = ms div 60000; remainder = ms mod 60000;
          seconds = remainder div 1000; millis = remainder mod 1000
      in zero_pad 2 (nat minutes) @ '':'' @ zero_pad 2 (nat seconds) @ ''.''
           @ zero_pad 3 (nat millis))"

definition render_segment :: "segment \<Rightarrow> string" where
  "render_segment s =
     (let who = (if seg_status s = StatusEnrolled
                 then str_opt (seg_name s) @ '' ['' @ str_opt (seg_registry_id s) @ '']''
                 else if seg_label s \<noteq> [] then seg_label s else seg_session_speaker_id s)
      in format_timestamp (seg_start s) @ EN_DASH @ format_timestamp (seg_end s) @ '' '' @ EM_DASH
           @ '' '' @ who @ '': '' @ LEFT_QUOTE @ seg_text s @ RIGHT_QUOTE)"

definition render_transcript :: "segment list \<Rightarrow> string" where
  "render_transcript segs = join [CHR 10] (map render_segment (sort_segments segs))"

section \<open>Word identifiers\<close>

lemma mk_word_eq_Inr [simp]:
  "mk_word t s e p k i = Inr w \<longleftrightarrow> 0 \<le> s \<and> s < e \<and>
     w = \<lparr>w_text = t, w_start = s, w_end = e, raw_probability = p, w_track = k, word_id = i\<rparr>"
  by (auto simp: mk_word_def)

lemma shifted_eq_Inr:
  "shifted w d = Inr v \<longleftrightarrow>
     0 \<le> w_start w + d \<and> w_start w < w_end w \<and> v = w\<lparr>w_start := w_start w + d, w_end := w_end w + d\<rparr>"
  by (auto simp: shifted_def)

lemma shifted_valid: "shifted w d = Inr v \<Longrightarrow> valid_word v"
  by (auto simp: shifted_eq_Inr valid_word_def)

lemma to_samples_16k: "to_samples t 16000 = 16 * t"
  by (simp add: to_samples_def MS_PER_SECOND_def)

lemma word_bucket: "to_samples t 16000 div WORD_ID_SAMPLE_ROUNDING = t div 10"
proof -
  have "(16 * t) div (16 * 10) = t div (10::int)" by (rule div_mult_mult1) simp
  then show ?thesis by (simp add: to_samples_16k WORD_ID_SAMPLE_ROUNDING_def)
qed

lemma track_text_inj: "track_text a = track_text b \<longleftrightarrow> a = b"
proof -
  have minus: "''-'' \<noteq> digits k" for k
  proof
    assume "''-'' = digits k"
    then have "CHR ''-'' \<in> set (digits k)" by (metis list.set_intros(1))
    from digits_are_digits[OF this] show False by (simp add: is_digit_def)
  qed
  show ?thesis
    using minus minus[symmetric] by (auto simp: track_text_def dest: digits_inj split: option.splits)
qed

text \<open>Within a session the hashed payload determines its parts, when the digest has no bar.\<close>

lemma word_id_payload_inj:
  assumes "\<And>x. CHR ''|'' \<notin> set (sha x)"
  shows "word_id_payload sha lower sid s1 t1 k1 r = word_id_payload sha lower sid s2 t2 k2 r \<longleftrightarrow>
    s1 div r * r = s2 div r * r \<and>
    take 16 (sha (lower (strip t1))) = take 16 (sha (lower (strip t2))) \<and> k1 = k2"
    (is "?l \<longleftrightarrow> ?r")
proof
  let ?h = "\<lambda>t. take 16 (sha (lower (strip t)))"
  have no_bar: "CHR ''|'' \<notin> set (str_int n)" for n
    using str_int_chars[of "CHR ''|''" n] by (auto simp: is_digit_def)
  have hash: "CHR ''|'' \<notin> set (?h t)" for t
    by (meson assms in_set_takeD)
  assume ?l
  then have "str_int (s1 div r * r) @ CHR ''|'' # (?h t1 @ CHR ''|'' # track_text k1)
      = str_int (s2 div r * r) @ CHR ''|'' # (?h t2 @ CHR ''|'' # track_text k2)"
    by (simp add: word_id_payload_def)
  from split_at_separator[OF this no_bar no_bar]
  have num: "s1 div r * r = s2 div r * r"
    and rest: "?h t1 @ CHR ''|'' # track_text k1 = ?h t2 @ CHR ''|'' # track_text k2"
    by (auto dest: str_int_inj)
  from split_at_separator[OF rest hash hash] num show ?r by (simp add: track_text_inj)
qed (simp only: word_id_payload_def)

lemma with_stable_id_valid:
  assumes "valid_word w"
  shows "with_stable_id sha lower w sid 16000 = Inr (w\<lparr>word_id := Some (stable_word_id sha lower sid
    (to_samples (w_start w) 16000) (w_text w) (w_track w) WORD_ID_SAMPLE_ROUNDING)\<rparr>)"
proof -
  have 1: "ms_to_samples (w_start w) 16000 = Inr (to_samples (w_start w) 16000)"
    using assms by (simp add: ms_to_samples_def valid_word_def)
  have 2: "mk_word (w_text w) (w_start w) (w_end w) p k i = Inr (w\<lparr>raw_probability := p, w_track := k,
      word_id := i\<rparr>)" for p k i
    using assms by (simp add: valid_word_def)
  show ?thesis unfolding with_stable_id_def 1 bindR_Inr 2 by simp
qed

text \<open>
  Deduplication identity of words. At 16 kHz, two valid words of a session get the same
  identifier exactly when they start in the same 10 ms slot, have the same hash of their
  normalised text and the same source track, provided the digest is free of bars (it is
  hexadecimal) and does not collide on the two payloads.
\<close>

theorem stable_id_identity:
  assumes "valid_word u" and "valid_word v"
    and "\<And>x. CHR ''|'' \<notin> set (sha x)"
    and "\<And>p q. p \<in> P \<Longrightarrow> q \<in> P \<Longrightarrow> take 24 (sha p) = take 24 (sha q) \<Longrightarrow> p = q"
    and "P = (\<lambda>w. word_id_payload sha lower sid (to_samples (w_start w) 16000) (w_text w)
                 (w_track w) WORD_ID_SAMPLE_ROUNDING) ` {u, v}"
  shows "\<exists>u' v'. with_stable_id sha lower u sid 16000 = Inr u'
    \<and> with_stable_id sha lower v sid 16000 = Inr v'
    \<and> (word_id u' = word_id v' \<longleftrightarrow>
        w_start u div 10 = w_start v div 10 \<and> w_track u = w_track v \<and>
        take 16 (sha (lower (strip (w_text u)))) = take 16 (sha (lower (strip (w_text v)))))"
proof -
  let ?p = "\<lambda>w. word_id_payload sha lower sid (to_samples (w_start w) 16000) (w_text w) (w_track w)
      WORD_ID_SAMPLE_ROUNDING"
  let ?w = "\<lambda>w. w\<lparr>word_id := Some (''wrd_'' @ take 24 (sha (?p w)))\<rparr>"
  have ok: "with_stable_id sha lower w sid 16000 = Inr (?w w)" if "valid_word w" for w
    using with_stable_id_valid[OF that, of sha lower sid] by (simp only: stable_word_id_def)
  have "take 24 (sha (?p u)) = take 24 (sha (?p v)) \<longleftrightarrow> ?p u = ?p v"
    using assms(4)[of "?p u" "?p v"] assms(5) by auto
  then have same: "word_id (?w u) = word_id (?w v) \<longleftrightarrow> ?p u = ?p v" by simp
  have "?p u = ?p v \<longleftrightarrow> w_start u div 10 = w_start v div 10 \<and> w_track u = w_track v \<and>
      take 16 (sha (lower (strip (w_text u)))) = take 16 (sha (lower (strip (w_text v))))"
    unfolding word_id_payload_inj[OF assms(3)] word_bucket
    by (auto simp: WORD_ID_SAMPLE_ROUNDING_def)
  with ok[OF assms(1)] ok[OF assms(2)] same show ?thesis by blast
qed

definition word_at :: "int \<Rightarrow> string \<Rightarrow> word" where
  "word_at t txt = \<lparr>w_text = txt, w_start = t, w_end = t + 100, raw_probability = None,
     w_track = Some 0, word_id = None\<rparr>"

theorem stable_id_identity_witness:
  "\<exists>u' v'. with_stable_id (filter ((\<noteq>) (CHR ''|''))) id (word_at 1001 ''a'') ''s'' 16000 = Inr u'
    \<and> with_stable_id (filter ((\<noteq>) (CHR ''|''))) id (word_at 1009 '' a'') ''s'' 16000 = Inr v'
    \<and> word_id u' = word_id v'"
proof -
  let ?sha = "filter ((\<noteq>) (CHR ''|''))"
  have "word_id_payload ?sha id ''s'' (to_samples (w_start (word_at 1001 ''a'')) 16000)
      (w_text (word_at 1001 ''a'')) (w_track (word_at 1001 ''a'')) WORD_ID_SAMPLE_ROUNDING
    = word_id_payload ?sha id ''s'' (to_samples (w_start (word_at 1009 '' a'')) 16000)
      (w_text (word_at 1009 '' a'')) (w_track (word_at 1009 '' a'')) WORD_ID_SAMPLE_ROUNDING"
    by (simp add: word_id_payload_def word_at_def to_samples_16k WORD_ID_SAMPLE_ROUNDING_def
        strip_def is_space_def)
  then have "\<exists>u' v'. with_stable_id ?sha id (word_at 1001 ''a'') ''s'' 16000 = Inr u'
    \<and> with_stable_id ?sha id (word_at 1009 '' a'') ''s'' 16000 = Inr v'
    \<and> (word_id u' = word_id v' \<longleftrightarrow>
        w_start (word_at 1001 ''a'') div 10 = w_start (word_at 1009 '' a'') div 10
        \<and> w_track (word_at 1001 ''a'') = w_track (word_at 1009 '' a'') \<and>
        take 16 (?sha (id (strip (w_text (word_at 1001 ''a'')))))
          = take 16 (?sha (id (strip (w_text (word_at 1009 '' a''))))))"
    by (intro stable_id_identity) (auto simp: valid_word_def word_at_def)
  then show ?thesis by (simp add: word_at_def strip_def is_space_def)
qed

section \<open>The public contract\<close>

lemma mk_confidences_eq_Inr:
  "mk_confidences c = Inr d \<longleftrightarrow> d = c \<and>
     (\<forall>v\<in>{c_asr c, c_diarization c, c_linking c, c_voice_id c, c_overlap c, c_overall c}.
        unit_or_none v) \<and> (c_overall c \<noteq> None \<longrightarrow> c_status c = Calibrated)"
  by (cases "c_status c") (auto simp: mk_confidences_def)

lemma mk_segment_eq_Inr:
  "mk_segment s = Inr t \<longleftrightarrow> t = s \<and> 0 \<le> seg_start s \<and> seg_start s < seg_end s
     \<and> 1 \<le> seg_revision s \<and> (seg_backend s \<noteq> None \<longrightarrow> seg_track s \<noteq> None)
     \<and> unit_or_none (seg_count_confidence s)
     \<and> (if seg_status s = StatusEnrolled
        then truthy (seg_registry_id s) \<and> truthy (seg_name s)
        else seg_speaker_id s = seg_session_speaker_id s)"
  by (auto simp: mk_segment_def)

lemma mk_segment_raises: "mk_segment s = Inl e \<Longrightarrow> e = Sastt SchemaInvariantError"
  by (auto simp: mk_segment_def split: if_splits)

lemma status_value_inj: "status_value a = status_value b \<longleftrightarrow> a = b"
  by (cases a; cases b) auto

lemma confidence_status_value_inj: "confidence_status_value a = confidence_status_value b \<longleftrightarrow> a = b"
  by (cases a; cases b) auto

lemma json_opt_nat: "json_opt (\<lambda>k. JInt (int k)) a = json_opt (\<lambda>k. JInt (int k)) b \<longleftrightarrow> a = b"
  by (rule json_opt_inj) (auto simp: inj_on_def)

lemma map_JStr: "map JStr a = map JStr b \<longleftrightarrow> a = b"
  by (rule inj_map_eq_map) (simp add: inj_on_def)

lemma map_JReal_pairs:
  "map (\<lambda>(k, v). (k, JReal v)) a = map (\<lambda>(k, v). (k, JReal v)) b \<longleftrightarrow> a = b"
  by (rule inj_map_eq_map) (auto simp: inj_on_def)

lemma model_versions_to_dict_inj: "model_versions_to_dict a = model_versions_to_dict b \<longleftrightarrow> a = b"
  by (auto simp: model_versions_to_dict_def)

text \<open>
  The public dictionary loses nothing but the words: two segments with the same dictionary
  agree on every other field, confidences, flags and versions included.
\<close>

theorem public_dict_faithful:
  assumes "to_public_dict a = to_public_dict b"
  shows "a = b\<lparr>seg_words := seg_words a\<rparr>"
  using assms
  by (simp add: to_public_dict_def status_value_inj confidence_status_value_inj json_opt_nat
      map_JStr map_JReal_pairs model_versions_to_dict_inj)

definition example_segment :: segment where
  "example_segment = \<lparr>seg_session_id = ''ses_1'', seg_event_id = ''evt_1'', seg_start = 61005,
     seg_end = 62500, seg_text = ''xin chao'', seg_speaker_id = ''spk_1'',
     seg_session_speaker_id = ''spk_1'', seg_status = StatusAnonymous, seg_revision = 1,
     seg_supersedes = None, seg_registry_id = None, seg_label = ''Speaker 1'', seg_name = None,
     seg_is_overlap = False, seg_concurrent = Some 1, seg_count_confidence = None,
     seg_track = None, seg_backend = None, seg_confidences = no_confidences, seg_raw_scores = [],
     seg_flags = [], seg_degraded = False, seg_is_final = True,
     seg_versions = \<lparr>mv_diarization = None, mv_embedding = None, mv_separation = None,
       mv_asr = Some ''asr-1'', mv_calibration = None\<rparr>,
     seg_words = [], seg_schema = SCHEMA_VERSION\<rparr>"

lemma example_segment_valid: "mk_segment example_segment = Inr example_segment"
  by (simp add: mk_segment_def example_segment_def unit_or_none_def)

theorem public_dict_faithful_witness:
  "example_segment = (example_segment\<lparr>seg_words := [word_at 61005 ''xin'']\<rparr>)\<lparr>seg_words := []\<rparr>"
  using public_dict_faithful[of example_segment
      "example_segment\<lparr>seg_words := [word_at 61005 ''xin'']\<rparr>"]
  by (simp add: to_public_dict_def example_segment_def)

text \<open>
  The final order: every segment is kept, concurrent ones included, in the order of start
  time, then session speaker, then source track, and segments with the same key stay in the
  order given.
\<close>

theorem sort_segments_final_order:
  "mset (sort_segments segs) = mset segs
    \<and> sorted_wrt (\<lambda>a b. seg_start a < seg_start b
         \<or> seg_start a = seg_start b \<and> (seg_session_speaker_id a < seg_session_speaker_id b
         \<or> seg_session_speaker_id a = seg_session_speaker_id b
            \<and> snd (snd (segment_sort_key a)) \<le> snd (snd (segment_sort_key b)))) (sort_segments segs)
    \<and> (\<forall>k. filter (\<lambda>s. segment_sort_key s = k) (sort_segments segs)
           = filter (\<lambda>s. segment_sort_key s = k) segs)"
proof (intro conjI allI)
  have "sorted (map segment_sort_key (sort_segments segs))"
    by (simp add: sort_segments_def)
  then have "sorted_wrt (\<lambda>a b. segment_sort_key a \<le> segment_sort_key b) (sort_segments segs)"
    by (simp add: sorted_map)
  then show "sorted_wrt (\<lambda>a b. seg_start a < seg_start b
         \<or> seg_start a = seg_start b \<and> (seg_session_speaker_id a < seg_session_speaker_id b
         \<or> seg_session_speaker_id a = seg_session_speaker_id b
            \<and> snd (snd (segment_sort_key a)) \<le> snd (snd (segment_sort_key b)))) (sort_segments segs)"
    by (rule sorted_wrt_mono_rel[rotated])
      (auto simp: segment_sort_key_def less_eq_prod_def less_prod_def)
qed (simp_all add: sort_segments_def sort_key_stable)

section \<open>Timestamps\<close>

definition parse_timestamp :: "string \<Rightarrow> int" where
  "parse_timestamp s =
     (let m = takeWhile is_digit s; rest = drop (length m + 1) s
      in int (undigits m) * 60000 + int (undigits (take 2 rest)) * 1000
           + int (undigits (drop 3 rest)))"

text \<open>
  A rendered timestamp is exact: reading minutes, seconds and milliseconds back gives the
  time, with two digits of seconds and three of milliseconds.
\<close>

theorem timestamp_roundtrip:
  assumes "0 \<le> ms"
  shows "parse_timestamp (format_timestamp ms) = ms"
proof -
  define a where "a = zero_pad 2 (nat (ms div 60000))"
  define b where "b = zero_pad 2 (nat (ms mod 60000 div 1000))"
  define c where "c = zero_pad 3 (nat (ms mod 60000 mod 1000))"
  have fmt: "format_timestamp ms = a @ '':'' @ b @ ''.'' @ c"
    by (simp add: format_timestamp_def a_def b_def c_def Let_def)
  have "ms mod 60000 div 1000 < 100" by simp
  then have b2: "length b = 2"
    unfolding b_def by (intro length_zero_pad) simp_all
  have tw: "takeWhile is_digit (a @ '':'' @ b @ ''.'' @ c) = a"
    using zero_pad_digits[of _ 2 "nat (ms div 60000)"]
    by (simp add: a_def takeWhile_append2 is_digit_def)
  have "parse_timestamp (format_timestamp ms)
      = int (undigits a) * 60000 + int (undigits b) * 1000 + int (undigits c)"
    unfolding fmt parse_timestamp_def Let_def tw using b2 by simp
  also have "\<dots> = ms div 60000 * 60000 + ms mod 60000 div 1000 * 1000 + ms mod 60000 mod 1000"
    using assms by (simp add: a_def b_def c_def pos_imp_zdiv_nonneg_iff)
  finally show ?thesis by presburger
qed

theorem timestamp_roundtrip_witness:
  "parse_timestamp (format_timestamp 61005) = 61005"
  using timestamp_roundtrip[of 61005] by simp

end
