(* ===== verification/Regions.thy ===== *)
theory Regions
  imports Transcript Speakers Config
begin

text \<open>
  The module functions of \<^verbatim>\<open>src/src/sastt/application/offline_pipeline.py\<close> that cut the time line
  and the audio: interval difference, the union of overlap evidence, midpoint ownership of words,
  the splitting of long crops, the plausibility guard on transcripts and the pooling of speech for
  language identification. The lemmas show that the regions of one run partition the time line, so
  that a word has exactly one owner, and how much of a long crop its windows own.
\<close>

definition MIN_SOURCE_SPEECH_MS_WITH_TRANSCRIPT :: int where
  "MIN_SOURCE_SPEECH_MS_WITH_TRANSCRIPT = 100"

definition MIN_SOURCE_SPEECH_MS_PER_TOKEN :: int where
  "MIN_SOURCE_SPEECH_MS_PER_TOKEN = 60"

definition MIN_TOKENS_FOR_DENSITY_GATE :: int where
  "MIN_TOKENS_FOR_DENSITY_GATE = 4"

section \<open>Plausibility of a transcript\<close>

definition speech_total :: "time_interval list \<Rightarrow> int" where
  "speech_total speech = sum_list (map duration_ms speech)"

definition token_count :: "word list \<Rightarrow> int" where
  "token_count ws = sum_list (map (\<lambda>w. max 1 (int (length (split_ws (w_text w))))) ws)"

definition word_span_ms :: "word list \<Rightarrow> int" where
  "word_span_ms ws = list_max (w_end (hd ws)) (map w_end ws) - list_min (w_start (hd ws)) (map w_start ws)"

definition is_plausible_transcript :: "word list \<Rightarrow> time_interval list \<Rightarrow> bool" where
  "is_plausible_transcript ws speech =
     (if speech_total speech < MIN_SOURCE_SPEECH_MS_WITH_TRANSCRIPT then False
      else if token_count ws < MIN_TOKENS_FOR_DENSITY_GATE then True
      else let minimum_ms = token_count ws * MIN_SOURCE_SPEECH_MS_PER_TOKEN in
        minimum_ms \<le> speech_total speech \<and> minimum_ms \<le> word_span_ms ws)"

section \<open>Speech pooled for language identification\<close>

text \<open>The loop over the merged speech: the pieces, their total length, the first start sample.\<close>

fun pool_loop ::
  "audio_buffer \<Rightarrow> int \<Rightarrow> time_interval list \<Rightarrow> sample list list \<times> int \<times> int option \<Rightarrow>
     (sample list list \<times> int \<times> int option) res" where
  "pool_loop buf target [] acc = Inr acc"
| "pool_loop buf target (interval # rest) (pieces, pooled, start) =
     (case clamp interval (buf_interval buf) of
        None \<Rightarrow> pool_loop buf target rest (pieces, pooled, start)
      | Some clipped \<Rightarrow>
          if duration_ms clipped \<le> 0 then pool_loop buf target rest (pieces, pooled, start)
          else let take = min (duration_ms clipped) (target - pooled) in
            if take \<le> 0 then Inr (pieces, pooled, start)
            else
              bindR (mk_interval (ti_start clipped) (ti_start clipped + take)) (\<lambda>window.
              bindR (crop_ms buf window) (\<lambda>cut.
              bindR (to_mono cut) (\<lambda>crop.
                let acc = (pieces @ [hd (samples crop)], pooled + take,
                           (case start of None \<Rightarrow> Some (start_sample crop) | Some s \<Rightarrow> Some s))
                in if target \<le> pooled + take then Inr acc
                   else pool_loop buf target rest acc))))"

definition pool_speech ::
  "audio_buffer \<Rightarrow> time_interval list \<Rightarrow> int \<Rightarrow> audio_buffer option res" where
  "pool_speech buf speech target_ms =
     (if speech = [] then Inr None
      else bindR (pool_loop buf target_ms (merge_intervals (sort_key ti_start speech) 0) ([], 0, None))
        (\<lambda>(pieces, pooled, start).
          case start of
            None \<Rightarrow> Inr None
          | Some s \<Rightarrow>
              if pieces = [] \<or> pooled < target_ms div 2 then Inr None
              else bindR (mk_audio_buffer [concat pieces] (sample_rate buf) s [''mono'']
                            (source_clock_hz buf)) (\<lambda>b. Inr (Some b))))"

section \<open>Ownership, overlap regions and differences\<close>

definition word_midpoint :: "word \<Rightarrow> int" where
  "word_midpoint w = (w_start w + w_end w) div 2"

definition words_owned_by :: "word list \<Rightarrow> time_interval \<Rightarrow> word list" where
  "words_owned_by ws interval = filter (\<lambda>w. contains_ms interval (word_midpoint w)) ws"

definition source_buffer ::
  "separated_batch \<Rightarrow> nat \<Rightarrow> audio_buffer \<Rightarrow> audio_buffer res" where
  "source_buffer batch index crop =
     mk_audio_buffer [sources batch ! index] (batch_sample_rate batch) (batch_start_sample batch)
       [''mono''] (source_clock_hz crop)"

definition touching :: "overlap_region list \<Rightarrow> time_interval \<Rightarrow> overlap_region list" where
  "touching regions interval = filter (\<lambda>r. intersects (region_interval r) interval) regions"

text \<open>The region built for a merged interval from the evidence that intersects it.\<close>

definition merged_region :: "overlap_region list \<Rightarrow> time_interval \<Rightarrow> overlap_region" where
  "merged_region all_regions interval =
     (let activations = List.map_filter osd_activation (touching all_regions interval)
      in \<lparr>region_interval = interval,
          osd_activation = (case activations of [] \<Rightarrow> None | a # as \<Rightarrow> Some (list_max a as)),
          region_model_version = (case touching all_regions interval of
              [] \<Rightarrow> '''' | r # _ \<Rightarrow> region_model_version r),
          region_calibration_version = None\<rparr>)"

definition merge_overlap_regions ::
  "overlap_region list \<Rightarrow> overlap_region list \<Rightarrow> int \<Rightarrow> int \<Rightarrow> overlap_region list" where
  "merge_overlap_regions diarization_regions osd_regions merge_gap_ms min_duration_ms =
     (let all_regions = diarization_regions @ osd_regions
      in map (merged_region all_regions)
           (filter (\<lambda>i. min_duration_ms \<le> duration_ms i)
             (merge_intervals (map region_interval all_regions) merge_gap_ms)))"

text \<open>What is left of one interval after one hole.\<close>

definition cut_hole :: "time_interval \<Rightarrow> time_interval \<Rightarrow> time_interval list" where
  "cut_hole hole interval =
     (if \<not> intersects interval hole then [interval]
      else (if ti_start interval < ti_start hole then [TI (ti_start interval) (ti_start hole)] else [])
         @ (if ti_end hole < ti_end interval then [TI (ti_end hole) (ti_end interval)] else []))"

definition subtract_intervals :: "time_interval list \<Rightarrow> time_interval list \<Rightarrow> time_interval list" where
  "subtract_intervals intervals holes =
     fold (\<lambda>hole remaining. concat (map (cut_hole hole) remaining)) (merge_intervals holes 0)
       (merge_intervals intervals 0)"

section \<open>Splitting a long crop\<close>

function split_loop ::
  "int \<Rightarrow> int \<Rightarrow> int \<Rightarrow> int \<Rightarrow> int \<Rightarrow> int \<Rightarrow> (time_interval \<times> time_interval) list res" where
  "split_loop max_crop stitch padded_end region_end start owned_start =
     (if padded_end \<le> start then Inr []
      else let step = max (max_crop - stitch) 1;
               fin = min (start + max_crop) padded_end;
               owned_end = min (owned_start + step) region_end
        in bindR (if owned_start < owned_end
              then bindR (mk_interval start fin) (\<lambda>window.
                   bindR (mk_interval owned_start owned_end) (\<lambda>owned. Inr [(window, owned)]))
              else Inr []) (\<lambda>here.
             if padded_end \<le> fin then Inr here
             else bindR (split_loop max_crop stitch padded_end region_end (start + step) owned_end)
                    (\<lambda>rest. Inr (here @ rest))))"
  by pat_completeness auto

termination
  by (relation "measure (\<lambda>(_, _, padded_end, _, start, _). nat (padded_end - start))") auto

definition split_crop ::
  "time_interval \<Rightarrow> time_interval \<Rightarrow> int \<Rightarrow> int \<Rightarrow> (time_interval \<times> time_interval) list res" where
  "split_crop padded region max_crop_ms stitch_ms =
     (if duration_ms padded \<le> max_crop_ms then Inr [(padded, region)]
      else split_loop max_crop_ms stitch_ms (ti_end padded) (ti_end region) (ti_start padded)
             (ti_start region))"

section \<open>Interval difference\<close>

lemma cut_hole_exact:
  assumes "valid_interval i" and "valid_interval h"
  shows "covered (cut_hole h i) = span i - span h" and "separated 0 (cut_hole h i)"
    and "p \<in> set (cut_hole h i) \<Longrightarrow> valid_interval p \<and> ti_start i \<le> ti_start p \<and> ti_end p \<le> ti_end i"
  using assms by (auto simp: cut_hole_def separated_def interval_simps split: if_splits)

lemma cut_holes_exact:
  assumes "valid_interval h" and "\<forall>i\<in>set xs. valid_interval i" and "separated 0 xs"
  shows "covered (concat (map (cut_hole h) xs)) = covered xs - span h
    \<and> separated 0 (concat (map (cut_hole h) xs))
    \<and> (\<forall>p\<in>set (concat (map (cut_hole h) xs)). valid_interval p \<and> (\<exists>i\<in>set xs. ti_start i \<le> ti_start p))"
  using assms(2,3)
proof (induction xs)
  case (Cons i xs)
  have vi: "valid_interval i" using Cons.prems by simp
  note c = cut_hole_exact[OF vi assms(1)]
  have IH: "covered (concat (map (cut_hole h) xs)) = covered xs - span h"
      "separated 0 (concat (map (cut_hole h) xs))"
      "\<forall>p\<in>set (concat (map (cut_hole h) xs)). valid_interval p \<and> (\<exists>i\<in>set xs. ti_start i \<le> ti_start p)"
    using Cons.IH Cons.prems by (simp_all add: separated_Cons)
  have "ti_end p < ti_start q"
    if "p \<in> set (cut_hole h i)" "q \<in> set (concat (map (cut_hole h) xs))" for p q
  proof -
    from IH(3) that(2) obtain j where j: "j \<in> set xs" "ti_start j \<le> ti_start q" by blast
    have "ti_end i < ti_start j" using Cons.prems j(1) by (simp add: separated_Cons)
    with j c(3)[OF that(1)] show ?thesis by simp
  qed
  then have "separated 0 (cut_hole h i @ concat (map (cut_hole h) xs))"
    using c(2) IH(2) by (simp add: separated_def sorted_wrt_append)
  moreover have "valid_interval p \<and> (\<exists>i\<in>set (i # xs). ti_start i \<le> ti_start p)"
    if "p \<in> set (concat (map (cut_hole h) (i # xs)))" for p
    using that c(3)[of p] IH(3) by auto
  ultimately show ?case using IH(1) c(1) by auto
qed (simp add: separated_def)

lemma fold_cut_holes:
  assumes "\<forall>h\<in>set hs. valid_interval h" and "\<forall>i\<in>set xs. valid_interval i" and "separated 0 xs"
  defines "r \<equiv> fold (\<lambda>hole remaining. concat (map (cut_hole hole) remaining)) hs xs"
  shows "covered r = covered xs - covered hs \<and> separated 0 r \<and> (\<forall>p\<in>set r. valid_interval p)"
  unfolding r_def using assms(1-3)
proof (induction hs arbitrary: xs)
  case (Cons h hs)
  let ?ys = "concat (map (cut_hole h) xs)"
  have vh: "valid_interval h" using Cons.prems by simp
  note c = cut_holes_exact[OF vh Cons.prems(2,3)]
  have "covered (fold (\<lambda>hole remaining. concat (map (cut_hole hole) remaining)) hs ?ys)
      = covered ?ys - covered hs
    \<and> separated 0 (fold (\<lambda>hole remaining. concat (map (cut_hole hole) remaining)) hs ?ys)
    \<and> (\<forall>p\<in>set (fold (\<lambda>hole remaining. concat (map (cut_hole hole) remaining)) hs ?ys). valid_interval p)"
    by (rule Cons.IH) (use Cons.prems c in auto)
  then show ?case using c by (simp add: Diff_eq Int_assoc)
qed simp

lemma subtract_exact:
  assumes "\<forall>i\<in>set xs. valid_interval i" and "\<forall>h\<in>set hs. valid_interval h"
  shows "covered (subtract_intervals xs hs) = covered xs - covered hs"
    and "separated 0 (subtract_intervals xs hs)"
    and "\<forall>p\<in>set (subtract_intervals xs hs). valid_interval p"
  using fold_cut_holes[OF merge_intervals_valid[OF assms(2)] merge_intervals_valid[OF assms(1)]
      merge_intervals_separated]
  by (simp_all add: subtract_intervals_def merge_intervals_covered assms)

section \<open>One owner per word\<close>

text \<open>In a separated list the intervals that contain a point are at most one.\<close>

definition owners :: "int \<Rightarrow> time_interval list \<Rightarrow> nat" where
  "owners m xs = length (filter (\<lambda>i. contains_ms i m) xs)"

lemma owners_separated:
  "separated g xs \<Longrightarrow> 0 \<le> g \<Longrightarrow> \<forall>i\<in>set xs. valid_interval i \<Longrightarrow>
    owners m xs = (if m \<in> covered xs then 1 else 0)"
proof (induction xs)
  case (Cons i xs)
  then have IH: "owners m xs = (if m \<in> covered xs then 1 else 0)" by (simp add: separated_Cons)
  have "m \<notin> covered xs" if "m \<in> span i"
    using that Cons.prems by (force simp: separated_Cons covered_def span_def)
  then show ?case using IH by (auto simp: owners_def contains_ms_def span_def)
qed (simp add: owners_def)

lemma region_intervals:
  "map region_interval (merge_overlap_regions dia osd gap min_ms) =
     filter (\<lambda>i. min_ms \<le> duration_ms i) (merge_intervals (map region_interval (dia @ osd)) gap)"
  by (simp add: merge_overlap_regions_def merged_region_def Let_def comp_def)

lemma regions_separated:
  assumes "\<forall>r\<in>set (dia @ osd). valid_interval (region_interval r)"
  shows "separated gap (map region_interval (merge_overlap_regions dia osd gap min_ms))"
    and "\<forall>i\<in>set (map region_interval (merge_overlap_regions dia osd gap min_ms)). valid_interval i"
proof -
  show "separated gap (map region_interval (merge_overlap_regions dia osd gap min_ms))"
    using merge_intervals_separated unfolding region_intervals separated_def
    by (rule sorted_wrt_filter)
  have "\<forall>i\<in>set (map region_interval (dia @ osd)). valid_interval i" using assms by auto
  from merge_intervals_valid[OF this]
  show "\<forall>i\<in>set (map region_interval (merge_overlap_regions dia osd gap min_ms)). valid_interval i"
    unfolding region_intervals by auto
qed

lemma words_owned_count:
  "sum_list (map (\<lambda>i. count_list (words_owned_by ws i) w) xs)
     = owners (word_midpoint w) xs * count_list ws w"
proof (induction xs)
  case (Cons i xs)
  have "count_list (words_owned_by ws i) w
      = (if contains_ms i (word_midpoint w) then count_list ws w else 0)"
    by (induction ws) (auto simp: words_owned_by_def)
  then show ?case using Cons by (simp add: owners_def)
qed (simp add: owners_def)

text \<open>
  C19: One owner per word. The regions of a run, speech outside overlap and merged overlap regions
  together, share no millisecond, so a word whose midpoint lies in speech or overlap is kept by
  exactly one of them, as often as the recognizer gave it, and every other word by none: text at a
  boundary is neither emitted twice nor lost.
\<close>

theorem word_has_one_owner:
  fixes min_ms :: int
  assumes "\<forall>i\<in>set speech. valid_interval i" and "0 \<le> gap"
    and "\<forall>r\<in>set (dia @ osd). valid_interval (region_interval r)"
  defines "overlap \<equiv> map region_interval (merge_overlap_regions dia osd gap min_ms)"
  shows "sum_list (map (\<lambda>i. count_list (words_owned_by ws i) w) (subtract_intervals speech overlap @ overlap))
    = (if word_midpoint w \<in> covered speech \<union> covered overlap then count_list ws w else 0)"
proof -
  note reg = regions_separated[OF assms(3), of gap min_ms, folded overlap_def]
  note sub = subtract_exact[OF assms(1) reg(2)]
  have "owners m (subtract_intervals speech overlap @ overlap)
      = (if m \<in> covered speech \<union> covered overlap then 1 else 0)" for m
    using owners_separated[OF reg(1) assms(2) reg(2)] owners_separated[OF sub(2) _ sub(3)] sub(1)
    by (simp add: owners_def)
  then show ?thesis unfolding words_owned_count by simp
qed

definition plain_region :: "int \<Rightarrow> int \<Rightarrow> overlap_region" where
  "plain_region a b = \<lparr>region_interval = TI a b, osd_activation = None,
     region_model_version = '''', region_calibration_version = None\<rparr>"

theorem word_has_one_owner_witness:
  "sum_list (map (\<lambda>i. count_list (words_owned_by [word_at 450 ''hi''] i) (word_at 450 ''hi''))
     (subtract_intervals [TI 0 1000] [TI 500 800] @ [TI 500 800])) = 1"
proof -
  have o: "map region_interval (merge_overlap_regions [plain_region 500 800] [] 0 100) = [TI 500 800]"
    by (simp add: region_intervals plain_region_def merge_intervals_def duration_ms_def)
  have "word_midpoint (word_at 450 ''hi'') = 500" by (simp add: word_midpoint_def word_at_def)
  then show ?thesis
    using word_has_one_owner[where speech = "[TI 0 1000]" and gap = 0 and min_ms = 100
        and dia = "[plain_region 500 800]" and osd = "[]" and ws = "[word_at 450 ''hi'']"
        and w = "word_at 450 ''hi''", unfolded o]
    by (simp add: valid_interval_def plain_region_def span_def)
qed

section \<open>What the windows of a long crop own\<close>

text \<open>
  The loop from \<open>start\<close> and \<open>owned_start\<close>: the owned pieces follow each other without a gap from
  \<open>owned_start\<close>, and end at the end of the region when the last window reaches far enough.
\<close>

fun chained :: "int \<Rightarrow> time_interval list \<Rightarrow> bool" where
  "chained a [] = True"
| "chained a (i # is) = (ti_start i = a \<and> a < ti_end i \<and> chained (ti_end i) is)"

definition chain_end :: "int \<Rightarrow> time_interval list \<Rightarrow> int" where
  "chain_end a is = (if is = [] then a else ti_end (last is))"

lemma chained_covered: "chained a is \<Longrightarrow> covered is = {a..<chain_end a is} \<and> a \<le> chain_end a is"
proof (induction "is" arbitrary: a)
  case (Cons i "is")
  then have c: "covered is = {ti_end i..<chain_end (ti_end i) is}" "ti_end i \<le> chain_end (ti_end i) is"
    by auto
  have e: "chain_end a (i # is) = chain_end (ti_end i) is" by (simp add: chain_end_def)
  have "span i = {a..<ti_end i}" "a < ti_end i" using Cons.prems by (auto simp: span_def)
  then show ?case using c unfolding e by auto
qed (simp add: chain_end_def)

lemma chained_separated: "chained a is \<Longrightarrow> sorted_wrt (\<lambda>x y. ti_end x \<le> ti_start y) is"
proof (induction "is" arbitrary: a)
  case (Cons i "is")
  have "ti_end i \<le> ti_start j" if "j \<in> set is" "chained b is" "ti_end i \<le> b" for j b
    using that by (induction "is" arbitrary: b) auto
  then show ?case using Cons by auto
qed simp

declare split_loop.simps [simp del]

lemma split_loop_step:
  fixes region_end :: int
  assumes "0 < max_crop" and "stitch < max_crop" and "0 \<le> start" and "0 \<le> owned"
    and "start < padded_end"
  defines "step \<equiv> max_crop - stitch" and "fin \<equiv> min (start + max_crop) padded_end"
    and "oe \<equiv> min (owned + (max_crop - stitch)) region_end"
  defines "here \<equiv> (if owned < oe then [(TI start fin, TI owned oe)] else [])"
  shows "split_loop max_crop stitch padded_end region_end start owned =
      (if padded_end \<le> fin then Inr here
       else bindR (split_loop max_crop stitch padded_end region_end (start + step) oe)
              (\<lambda>rest. Inr (here @ rest)))"
proof -
  have m: "max (max_crop - stitch) 1 = max_crop - stitch" using assms by simp
  have "(if owned < oe then bindR (mk_interval start fin) (\<lambda>window.
      bindR (mk_interval owned oe) (\<lambda>piece. Inr [(window, piece)])) else Inr []) = Inr here"
    using assms(1-5) by (auto simp: mk_interval_def here_def fin_def)
  note h = this
  show ?thesis
    unfolding split_loop.simps[of max_crop stitch padded_end region_end start owned] Let_def m
      fin_def[symmetric] oe_def[symmetric] h step_def
    using assms(5) by simp
qed

definition owns_crop ::
  "int \<Rightarrow> int \<Rightarrow> int \<Rightarrow> int \<Rightarrow> int \<Rightarrow> int \<Rightarrow> (time_interval \<times> time_interval) list \<Rightarrow> bool" where
  "owns_crop max_crop stitch padded_end region_end start owned ws \<longleftrightarrow>
     chained owned (map snd ws) \<and> chain_end owned (map snd ws) \<le> region_end
     \<and> (\<forall>p\<in>set ws. valid_interval (fst p) \<and> start \<le> ti_start (fst p) \<and> ti_end (fst p) \<le> padded_end
          \<and> duration_ms (fst p) \<le> max_crop)
     \<and> (region_end - owned + stitch \<le> padded_end - start \<longrightarrow> chain_end owned (map snd ws) = region_end)"

lemma split_loop_owned:
  assumes "0 < max_crop" and "0 \<le> stitch" and "stitch < max_crop" and "0 \<le> start" and "0 \<le> owned"
    and "owned \<le> region_end" and "start < padded_end"
  shows "\<exists>ws. split_loop max_crop stitch padded_end region_end start owned = Inr ws
    \<and> owns_crop max_crop stitch padded_end region_end start owned ws"
  using assms(4-)
proof (induction "nat (padded_end - start)" arbitrary: start owned rule: less_induct)
  case less
  define step where "step = max_crop - stitch"
  define fin where "fin = min (start + max_crop) padded_end"
  define oe where "oe = min (owned + step) region_end"
  define here where "here = (if owned < oe then [(TI start fin, TI owned oe)] else [])"
  note unfold = split_loop_step[OF assms(1,3) less.prems(1,2,4), folded step_def, of region_end,
      folded fin_def oe_def, folded here_def]
  have step: "0 < step" using assms by (simp add: step_def)
  have fin: "start < fin" "fin \<le> padded_end" "fin - start \<le> max_crop"
    using assms less.prems by (auto simp: fin_def)
  have oe: "owned \<le> oe" "oe \<le> region_end" using assms less.prems by (auto simp: oe_def step_def)
  have at: "owned < oe \<or> oe = owned \<and> owned = region_end"
    using oe assms less.prems by (auto simp: oe_def step_def)
  have w: "valid_interval (TI start fin)" using fin less.prems by (simp add: valid_interval_def)
  show ?case
  proof (cases "padded_end \<le> fin")
    case True
    then have "padded_end - start \<le> max_crop" using fin by simp
    then have full: "region_end - owned + stitch \<le> padded_end - start \<longrightarrow> oe = region_end"
      using less.prems by (auto simp: oe_def step_def)
    have "owns_crop max_crop stitch padded_end region_end start owned here"
      using at full fin w oe unfolding owns_crop_def here_def
      by (auto simp: chain_end_def duration_ms_def)
    then show ?thesis unfolding unfold using True by simp
  next
    case False
    then have more: "start + step < padded_end" using assms by (auto simp: fin_def step_def)
    have "nat (padded_end - (start + step)) < nat (padded_end - start)" using step less.prems by simp
    from less.hyps[OF this, of oe] more step less.prems oe obtain ws where
      ws: "split_loop max_crop stitch padded_end region_end (start + step) oe = Inr ws"
        "owns_crop max_crop stitch padded_end region_end (start + step) oe ws" by auto
    have e: "chain_end owned (map snd (here @ ws)) = chain_end oe (map snd ws)"
      using at by (auto simp: here_def chain_end_def)
    have c: "chained owned (map snd (here @ ws))"
      using at ws(2) by (auto simp: here_def owns_crop_def)
    have full: "region_end - owned + stitch \<le> padded_end - start \<longrightarrow> chain_end oe (map snd ws) = region_end"
    proof
      assume a: "region_end - owned + stitch \<le> padded_end - start"
      show "chain_end oe (map snd ws) = region_end"
      proof (cases "oe = region_end")
        case True
        with ws(2) show ?thesis
          unfolding owns_crop_def using chained_covered[of oe "map snd ws"] by auto
      next
        case False
        then have "oe = owned + step" by (auto simp: oe_def step_def)
        with a ws(2) show ?thesis by (auto simp: owns_crop_def)
      qed
    qed
    have "\<forall>p\<in>set (here @ ws). valid_interval (fst p) \<and> start \<le> ti_start (fst p)
        \<and> ti_end (fst p) \<le> padded_end \<and> duration_ms (fst p) \<le> max_crop"
      using ws(2) w fin step by (auto simp: here_def owns_crop_def duration_ms_def)
    then have "owns_crop max_crop stitch padded_end region_end start owned (here @ ws)"
      using e c full ws(2) unfolding owns_crop_def by simp
    then show ?thesis unfolding unfold using False ws(1) by simp
  qed
qed

text \<open>
  Splitting a long crop terminates without an exception; its windows lie in the padded interval
  and are no longer than the limit; the pieces they own follow each other without a gap or an
  overlap from the start of the region, so a word is owned by at most one window. They reach the
  end of the region whenever the padding is together at least the stitch overlap.
\<close>

theorem split_crop_owns_region:
  assumes "valid_interval padded" and "valid_interval region" and "0 < max_crop"
    and "0 \<le> stitch" and "stitch < max_crop" and "max_crop < duration_ms padded"
  shows "\<exists>ws n. split_crop padded region max_crop stitch = Inr ws
    \<and> (\<forall>p\<in>set ws. valid_interval (fst p) \<and> span (fst p) \<subseteq> span padded \<and> duration_ms (fst p) \<le> max_crop)
    \<and> sorted_wrt (\<lambda>x y. ti_end x \<le> ti_start y) (map snd ws)
    \<and> covered (map snd ws) = {ti_start region..<n} \<and> n \<le> ti_end region
    \<and> (duration_ms region + stitch \<le> duration_ms padded \<longrightarrow> covered (map snd ws) = span region)"
proof -
  have "\<exists>ws. split_loop max_crop stitch (ti_end padded) (ti_end region) (ti_start padded) (ti_start region) = Inr ws
    \<and> owns_crop max_crop stitch (ti_end padded) (ti_end region) (ti_start padded) (ti_start region) ws"
    by (rule split_loop_owned) (use assms in \<open>auto simp: valid_interval_def\<close>)
  then obtain ws where
    ws: "split_crop padded region max_crop stitch = Inr ws" and
    o: "owns_crop max_crop stitch (ti_end padded) (ti_end region) (ti_start padded) (ti_start region) ws"
    using assms(6) by (auto simp: split_crop_def)
  let ?n = "chain_end (ti_start region) (map snd ws)"
  have ch: "chained (ti_start region) (map snd ws)" using o by (simp add: owns_crop_def)
  have "duration_ms region + stitch \<le> duration_ms padded \<longrightarrow> ?n = ti_end region"
    using o by (auto simp: owns_crop_def duration_ms_def)
  moreover have "\<forall>p\<in>set ws. valid_interval (fst p) \<and> span (fst p) \<subseteq> span padded
      \<and> duration_ms (fst p) \<le> max_crop"
    using o by (auto simp: owns_crop_def span_def)
  moreover have "?n \<le> ti_end region" using o by (simp add: owns_crop_def)
  ultimately show ?thesis
    using ws chained_covered[OF ch] chained_separated[OF ch]
    by (intro exI[of _ ws] exI[of _ ?n]) (simp add: span_def)
qed

lemma split_example:
  "split_crop (TI 0 19000) (TI 0 19000) 10000 1000
     = Inr [(TI 0 10000, TI 0 9000), (TI 9000 19000, TI 9000 18000)]"
  by (simp add: split_crop_def duration_ms_def split_loop.simps[of _ _ _ _ 0]
      split_loop.simps[of _ _ _ _ 9000] mk_interval_def Let_def)

theorem split_crop_owns_region_witness:
  "\<exists>ws. split_crop (TI 0 11000) (TI 500 10500) 10000 1000 = Inr ws
     \<and> covered (map snd ws) = span (TI 500 10500)"
  using split_crop_owns_region[of "TI 0 11000" "TI 500 10500" 10000 1000]
  by (auto simp: valid_interval_def duration_ms_def)

text \<open>
  With less padding than the stitch overlap the tail of a region can be lost. At the default
  crop limit and stitch overlap, a region of 19 seconds without padding, as in the retry after a
  failed separation or at the ends of a file, is split without an error into windows that own all
  but its last second: a word there belongs to no window.
\<close>

theorem split_crop_loses_tail:
  "bindR (split_crop (TI 0 19000) (TI 0 19000)
       (seconds_to_ms (max_crop_seconds (separation default_config)))
       (seconds_to_ms (stitch_overlap_seconds (separation default_config))))
     (\<lambda>ws. Inr (concat (map (\<lambda>p. words_owned_by [word_at 18200 ''lost''] (snd p)) ws))) = Inr []
   \<and> words_owned_by [word_at 18200 ''lost''] (TI 0 19000) = [word_at 18200 ''lost'']"
proof -
  have "seconds_to_ms (max_crop_seconds (separation default_config)) = 10000"
    "seconds_to_ms (stitch_overlap_seconds (separation default_config)) = 1000"
    by (simp_all add: default_config_def seconds_to_ms_def MS_PER_SECOND_def)
  then show ?thesis
    by (simp add: split_example words_owned_by_def word_midpoint_def word_at_def contains_ms_def)
qed

end
