(* ===== verification/OverlapRouter.thy ===== *)
theory OverlapRouter
  imports Config Speakers
begin

text \<open>
  Counting concurrent speakers and routing overlap regions,
  \<^verbatim>\<open>src/src/sastt/application/overlap_router.py\<close>: the order of evidence, the routing table row by
  row, and the check of a separated batch.
\<close>

datatype route =
    DIRECT_ASR
  | SEPARATE_TWO_SOURCE
  | SEPARATE_THREE_SOURCE_BETA
  | MIXTURE_ASR_UNSUPPORTED
  | DEGRADED_RESEARCH_DISABLED
  | SEPARATE_RESEARCH_MULTIDECODER
  | MULTICHANNEL_GSS
  | TARGET_EXTRACTION

definition WARNING_UNSUPPORTED_CONCURRENCY :: string where
  "WARNING_UNSUPPORTED_CONCURRENCY = ''unsupported_concurrency''"
definition WARNING_RESEARCH_DISABLED :: string where
  "WARNING_RESEARCH_DISABLED = ''research_checkpoint_disabled''"
definition WARNING_NARROWBAND_BETA :: string where
  "WARNING_NARROWBAND_BETA = ''narrowband_beta''"
definition WARNING_COUNT_UNCERTAIN :: string where
  "WARNING_COUNT_UNCERTAIN = ''count_uncertain''"
definition WARNING_SEPARATION_SUSPECT :: string where
  "WARNING_SEPARATION_SUSPECT = ''separation_suspect''"

record route_decision =
  rd_route :: route
  rd_requested :: "int option"
  rd_backend :: "string option"
  rd_count :: source_count_estimate
  rd_warnings :: "string list"
  rd_error :: "error_code option"
  rd_degraded :: bool

definition runs_separation :: "route_decision \<Rightarrow> bool" where
  "runs_separation d \<longleftrightarrow> rd_route d \<in>
     {SEPARATE_TWO_SOURCE, SEPARATE_THREE_SOURCE_BETA, SEPARATE_RESEARCH_MULTIDECODER,
      MULTICHANNEL_GSS, TARGET_EXTRACTION}"

record counting_evidence =
  roster_active_speakers :: "int option"
  roster_confidence :: "real option"
  diarization_active_speakers :: "int option"
  multichannel_activity_speakers :: "int option"
  multichannel_confidence :: "real option"
  research_estimate :: "int option"
  research_confidence :: "real option"
  is_multichannel :: bool
  has_activity_guidance :: bool
  enrolled_targets :: int

definition no_evidence :: counting_evidence where
  "no_evidence =
     \<lparr>roster_active_speakers = None, roster_confidence = None, diarization_active_speakers = None,
      multichannel_activity_speakers = None, multichannel_confidence = None,
      research_estimate = None, research_confidence = None, is_multichannel = False,
      has_activity_guidance = False, enrolled_targets = 0\<rparr>"

definition confident :: "int option \<Rightarrow> real option \<Rightarrow> real \<Rightarrow> bool" where
  "confident n conf minimum \<longleftrightarrow>
     n \<noteq> None \<and> (case conf of None \<Rightarrow> False | Some p \<Rightarrow> minimum \<le> p)"

definition estimate_source_count :: "counting_evidence \<Rightarrow> config \<Rightarrow> source_count_estimate" where
  "estimate_source_count e c =
     (let minimum = minimum_confidence (source_count c) in
      if confident (roster_active_speakers e) (roster_confidence e) minimum
        then \<lparr>sce_count = roster_active_speakers e, sce_confidence = roster_confidence e,
              sce_method = TsVad, count_uncertain = False\<rparr>
      else if confident (multichannel_activity_speakers e) (multichannel_confidence e) minimum
        then \<lparr>sce_count = multichannel_activity_speakers e,
              sce_confidence = multichannel_confidence e, sce_method = MultichannelActivity,
              count_uncertain = False\<rparr>
      else if mono_four_five_source_research (product c) \<and> research_estimate e \<noteq> None
        then \<lparr>sce_count = research_estimate e, sce_confidence = research_confidence e,
              sce_method = MultidecoderResearch, count_uncertain = False\<rparr>
      else (case diarization_active_speakers e of
          Some n \<Rightarrow> \<lparr>sce_count = Some (max 1 n), sce_confidence = None,
                     sce_method = DiarizationActivity, count_uncertain = True\<rparr>
        | None \<Rightarrow> \<lparr>sce_count = Some 2, sce_confidence = None, sce_method = FixedTwo,
                   count_uncertain = True\<rparr>))"

definition route_overlap ::
  "source_count_estimate \<Rightarrow> config \<Rightarrow> counting_evidence \<Rightarrow> bool \<Rightarrow> route_decision" where
  "route_overlap n c e osd_positive =
     (let warnings = (if count_uncertain n then [WARNING_COUNT_UNCERTAIN] else []);
          decide = (\<lambda>r requested backend ws err degraded.
             \<lparr>rd_route = r, rd_requested = requested, rd_backend = backend, rd_count = n,
              rd_warnings = warnings @ ws, rd_error = err, rd_degraded = degraded\<rparr>)
      in if \<not> osd_positive then decide DIRECT_ASR None None [] None False
         else if (case sce_count n of None \<Rightarrow> True | Some k \<Rightarrow> k \<le> 2)
           then decide SEPARATE_TWO_SOURCE (Some 2) (Some (two_source_backend (separation c)))
                  [] None False
         else let k = the (sce_count n) in
           if k = 3 then
             if three_source_beta (product c)
             then decide SEPARATE_THREE_SOURCE_BETA (Some 3)
                    (Some (three_source_backend (separation c))) [WARNING_NARROWBAND_BETA]
                    None False
             else decide MIXTURE_ASR_UNSUPPORTED None None [WARNING_UNSUPPORTED_CONCURRENCY]
                    (Some UNSUPPORTED_CONCURRENCY) True
           else if k = 4 \<or> k = 5 then
             if multichannel_gss (product c) \<and> is_multichannel e \<and> has_activity_guidance e
             then decide MULTICHANNEL_GSS (Some k) (Some ''gpu_gss'') [] None False
             else if mono_four_five_source_research (product c)
             then decide SEPARATE_RESEARCH_MULTIDECODER (Some k) (Some ''multidecoder_dprnn'')
                    [WARNING_RESEARCH_DISABLED] None True
             else decide DEGRADED_RESEARCH_DISABLED None None
                    [WARNING_UNSUPPORTED_CONCURRENCY, WARNING_RESEARCH_DISABLED]
                    (Some UNSUPPORTED_CONCURRENCY) True
           else if target_speaker_extraction (product c) \<and> 0 < enrolled_targets e
           then decide TARGET_EXTRACTION
                  (Some (min (enrolled_targets e) (max_session_speakers (product c))))
                  (Some ''wesep'') [] None False
           else decide DEGRADED_RESEARCH_DISABLED None None [WARNING_UNSUPPORTED_CONCURRENCY]
                  (Some UNSUPPORTED_CONCURRENCY) True)"

definition detect_separation_suspect :: "separated_batch \<Rightarrow> string list" where
  "detect_separation_suspect b =
     (if (case estimated_source_count b of
            None \<Rightarrow> False | Some n \<Rightarrow> requested_source_count b < n)
         \<or> (\<exists>q\<in>set (batch_quality b). \<not> passed_gate q)
      then [WARNING_SEPARATION_SUSPECT] else [])"

section \<open>Properties\<close>

text \<open>
  A count never claims more than its evidence: a method with a calibrated source has a
  confidence of at least the configured minimum, the research method needs its flag, and every
  other estimate is marked uncertain, carries no confidence and says at least one speaker.
\<close>

theorem count_claims_its_evidence:
  assumes "estimate_source_count e c = n"
  shows "(sce_method n \<in> {TsVad, MultichannelActivity} \<longrightarrow>
        (\<exists>p. sce_confidence n = Some p \<and> minimum_confidence (source_count c) \<le> p)
        \<and> sce_count n \<noteq> None \<and> \<not> count_uncertain n)
    \<and> (sce_method n = MultidecoderResearch \<longrightarrow> mono_four_five_source_research (product c))
    \<and> (sce_method n \<notin> {TsVad, MultichannelActivity, MultidecoderResearch} \<longrightarrow>
        count_uncertain n \<and> sce_confidence n = None \<and> (\<exists>k\<ge>1. sce_count n = Some k))"
  using assms[symmetric]
  by (auto simp: estimate_source_count_def Let_def confident_def split: option.splits)

theorem count_claims_its_evidence_witness:
  "\<exists>k\<ge>1. sce_count (estimate_source_count
      (no_evidence\<lparr>diarization_active_speakers := Some 3, roster_active_speakers := Some 2,
         roster_confidence := Some (1/2)\<rparr>) default_config) = Some k"
  using count_claims_its_evidence[OF refl, of "no_evidence\<lparr>diarization_active_speakers := Some 3,
      roster_active_speakers := Some 2, roster_confidence := Some (1/2)\<rparr>" default_config]
  by (simp add: estimate_source_count_def no_evidence_def default_config_def confident_def)

lemma route_cases:
  "rd_route (route_overlap n c e osd) \<in> {DIRECT_ASR, MIXTURE_ASR_UNSUPPORTED,
       DEGRADED_RESEARCH_DISABLED} \<or> runs_separation (route_overlap n c e osd)"
  by (cases "rd_route (route_overlap n c e osd)") (auto simp: runs_separation_def)

text \<open>
  The router takes a separation branch only where the configuration opens it: a separating
  route names a backend and the number of sources, two sources for a count of at most two or
  none and otherwise exactly the count (extraction apart); three sources need the beta flag, four
  or five the research flag or multichannel processing. A region it will not separate has no
  backend, and one refused for its concurrency is degraded and carries the error code.
\<close>

theorem route_respects_configuration:
  assumes "route_overlap n c e osd = d"
  shows "(runs_separation d \<longleftrightarrow> rd_backend d \<noteq> None) \<and> (rd_backend d = None \<longleftrightarrow> rd_requested d = None)
    \<and> (runs_separation d \<longrightarrow> osd)
    \<and> (rd_route d = SEPARATE_TWO_SOURCE \<longrightarrow> rd_requested d = Some 2 \<and> (\<forall>k. sce_count n = Some k \<longrightarrow> k \<le> 2))
    \<and> (rd_route d = SEPARATE_THREE_SOURCE_BETA \<longrightarrow>
         three_source_beta (product c) \<and> rd_requested d = Some 3 \<and> sce_count n = Some 3)
    \<and> (rd_route d = SEPARATE_RESEARCH_MULTIDECODER \<longrightarrow>
         mono_four_five_source_research (product c) \<and> rd_requested d = sce_count n \<and> rd_degraded d)
    \<and> (rd_route d = MULTICHANNEL_GSS \<longrightarrow>
         multichannel_gss (product c) \<and> is_multichannel e \<and> rd_requested d = sce_count n)
    \<and> (rd_error d = Some UNSUPPORTED_CONCURRENCY \<longleftrightarrow>
         rd_route d \<in> {MIXTURE_ASR_UNSUPPORTED, DEGRADED_RESEARCH_DISABLED})
    \<and> (rd_error d \<noteq> None \<longrightarrow> rd_degraded d \<and> \<not> runs_separation d
         \<and> WARNING_UNSUPPORTED_CONCURRENCY \<in> set (rd_warnings d))"
  using assms[symmetric]
  by (cases "sce_count n") (auto simp: route_overlap_def Let_def runs_separation_def)

theorem route_respects_configuration_witness:
  "\<not> runs_separation (route_overlap \<lparr>sce_count = Some 3, sce_confidence = None,
      sce_method = DiarizationActivity, count_uncertain = True\<rparr> default_config no_evidence True)"
  using route_respects_configuration[of "\<lparr>sce_count = Some 3, sce_confidence = None,
      sce_method = DiarizationActivity, count_uncertain = True\<rparr>" default_config no_evidence True]
  by (simp add: route_overlap_def default_config_def runs_separation_def)

text \<open>
  A configuration that passed the production gate never routes a region to the research
  separator, and never lets the research counter decide, whatever the evidence.
\<close>

theorem production_never_researches:
  assumes "validate_for_environment c PRODUCTION ms = Inr ()"
  shows "rd_route (route_overlap n c e osd) \<noteq> SEPARATE_RESEARCH_MULTIDECODER
    \<and> sce_method (estimate_source_count e c) \<noteq> MultidecoderResearch"
proof -
  have off: "\<not> mono_four_five_source_research (product c)"
    using assms by (auto simp: validate_for_environment_def is_production_def split: if_splits)
  then have "rd_route (route_overlap n c e osd) \<noteq> SEPARATE_RESEARCH_MULTIDECODER"
    by (cases "sce_count n") (auto simp: route_overlap_def Let_def)
  moreover have "sce_method (estimate_source_count e c) \<noteq> MultidecoderResearch"
    using off by (auto simp: estimate_source_count_def Let_def split: option.splits)
  ultimately show ?thesis ..
qed

theorem production_never_researches_witness:
  "sce_method (estimate_source_count (no_evidence\<lparr>research_estimate := Some 4\<rparr>) default_config)
     \<noteq> MultidecoderResearch"
  using production_never_researches[OF default_config_passes_gate] by blast

end
