(* ===== verification/SourceLinking.thy ===== *)
theory SourceLinking
  imports Config Prototypes
begin

text \<open>
  Permutation linking of separated sources, \<^verbatim>\<open>src/src/sastt/application/source_linking.py\<close>. A score
  matrix is a list of rows; \<open>None\<close> is minus infinity, also as the score of a decision. The solver
  \<open>scipy.optimize.linear_sum_assignment\<close> is the argument \<open>lsa\<close>, from a matrix to the list of its
  (row, column) pairs; that no row and no column occurs twice in its answer is the hypothesis
  \<open>matching lsa\<close> where a property needs it.
\<close>

definition REASON_NO_EMBEDDING :: string where "REASON_NO_EMBEDDING = ''no_embedding''"
definition REASON_UNCALIBRATED :: string where "REASON_UNCALIBRATED = ''uncalibrated_threshold''"
definition REASON_BELOW_ACCEPT :: string where "REASON_BELOW_ACCEPT = ''below_accept_threshold''"
definition REASON_LOW_MARGIN :: string where "REASON_LOW_MARGIN = ''low_margin''"
definition REASON_ASSIGNED_DUMMY :: string where "REASON_ASSIGNED_DUMMY = ''assigned_to_unknown''"
definition REASON_NO_PROTOTYPE :: string where "REASON_NO_PROTOTYPE = ''no_prototype''"
definition REASON_CONTESTED_IDENTITY :: string where
  "REASON_CONTESTED_IDENTITY = ''contested_identity''"
definition REASON_LINKED :: string where "REASON_LINKED = ''linked''"
definition REASON_LINKED_CONSTRAINED :: string where
  "REASON_LINKED_CONSTRAINED = ''linked_diarization_constrained''"

type_synonym score_row = "real option list"
type_synonym score_matrix = "score_row list"
type_synonym solver = "real list list \<Rightarrow> (nat \<times> nat) list"

section \<open>Score matrix\<close>

definition embedding_scores :: "prototype list \<Rightarrow> speaker_embedding option \<Rightarrow> score_row res" where
  "embedding_scores protos emb =
     (case emb of
        None \<Rightarrow> Inr (replicate (length protos) None)
      | Some e \<Rightarrow> mapR (\<lambda>p. bindR (similarity p e) (\<lambda>s. Inr (Some s))) protos)"

definition build_score_matrix ::
  "speaker_embedding option list \<Rightarrow> prototype list \<Rightarrow> score_matrix res" where
  "build_score_matrix embeddings protos = mapR (embedding_scores protos) embeddings"

definition blank_columns :: "string set \<Rightarrow> string list \<Rightarrow> score_matrix \<Rightarrow> score_matrix" where
  "blank_columns cand keys m = map (\<lambda>row. map2 (\<lambda>k s. if k \<in> cand then s else None) keys row) m"

definition restrict_to_candidates ::
  "score_matrix \<Rightarrow> string list \<Rightarrow> string set option \<Rightarrow> score_matrix" where
  "restrict_to_candidates m keys candidates =
     (case candidates of
        None \<Rightarrow> m
      | Some cand \<Rightarrow>
          if cand = {} then m
          else let restricted = blank_columns cand keys m
               in if \<forall>row\<in>set restricted. \<forall>s\<in>set row. s = None then m else restricted)"

text \<open>\<open>key_index\<close>: of a key that occurs twice the last index.\<close>

fun index_from :: "nat \<Rightarrow> string \<Rightarrow> string list \<Rightarrow> nat option" where
  "index_from j key [] = None"
| "index_from j key (k # ks) =
     (case index_from (Suc j) key ks of
        Some i \<Rightarrow> Some i
      | None \<Rightarrow> if k = key then Some j else None)"

definition boost_cell :: "real \<Rightarrow> nat \<Rightarrow> nat \<Rightarrow> score_matrix \<Rightarrow> score_matrix" where
  "boost_cell bonus i j m =
     (case m ! i ! j of None \<Rightarrow> m | Some s \<Rightarrow> m[i := (m ! i)[j := Some (s + bonus)]])"

definition apply_continuity_bonus ::
  "score_matrix \<Rightarrow> string list \<Rightarrow> (nat \<times> string) list option \<Rightarrow> real \<Rightarrow> score_matrix" where
  "apply_continuity_bonus m keys previous bonus =
     (case previous of
        None \<Rightarrow> m
      | Some mapping \<Rightarrow>
          if mapping = [] \<or> bonus \<le> 0 then m
          else fold (\<lambda>(track, key) boosted.
                 case index_from 0 key keys of
                   None \<Rightarrow> boosted
                 | Some j \<Rightarrow> if length boosted \<le> track then boosted
                             else boost_cell bonus track j boosted) mapping m)"

text \<open>One dummy column per source; the finite floor replaces minus infinity for the solver.\<close>

definition extend_matrix :: "real option \<Rightarrow> score_matrix \<Rightarrow> score_matrix" where
  "extend_matrix dummy_value m =
     map (\<lambda>i. m ! i @ map (\<lambda>k. if k = i then dummy_value else None) [0..<length m]) [0..<length m]"

definition finite_values :: "score_row \<Rightarrow> real list" where
  "finite_values row = map the (filter (\<lambda>s. s \<noteq> None) row)"

definition score_floor :: "score_matrix \<Rightarrow> real" where
  "score_floor m = list_min 0 (concat (map finite_values m)) - 1"

definition solvable :: "score_matrix \<Rightarrow> real list list" where
  "solvable m = map (map (\<lambda>s. case s of None \<Rightarrow> score_floor m | Some x \<Rightarrow> x)) m"

text \<open>\<open>np.argmax\<close>: the first index of the largest score.\<close>

fun above :: "real option \<Rightarrow> real option \<Rightarrow> bool" where
  "above (Some x) None = True"
| "above (Some x) (Some y) = (y < x)"
| "above None t = False"

fun argmax_from :: "nat \<Rightarrow> nat \<Rightarrow> real option \<Rightarrow> score_row \<Rightarrow> nat" where
  "argmax_from k best value [] = best"
| "argmax_from k best value (s # row) =
     (if above s value then argmax_from (Suc k) k s row else argmax_from (Suc k) best value row)"

definition argmax :: "score_row \<Rightarrow> nat" where
  "argmax row = (case row of [] \<Rightarrow> 0 | s # rest \<Rightarrow> argmax_from 1 0 s rest)"

definition top_two :: "score_row \<Rightarrow> real option \<times> real option" where
  "top_two row =
     (case rev (sort (finite_values row)) of
        [] \<Rightarrow> (None, None)
      | [x] \<Rightarrow> (Some x, None)
      | x # y # _ \<Rightarrow> (Some x, Some y))"

section \<open>Decisions\<close>

record linking_result =
  lr_decisions :: "linking_decision list"
  lr_matrix :: score_matrix
  lr_keys :: "string list"
  lr_calibrated :: bool

definition mapping :: "linking_result \<Rightarrow> (nat \<times> string) list" where
  "mapping r =
     map (\<lambda>d. (ld_source_track d, the (ld_session_speaker_id d)))
       (filter (\<lambda>d. ld_status d = Linked \<and> ld_session_speaker_id d \<noteq> None) (lr_decisions r))"

definition no_link ::
  "nat \<Rightarrow> link_status \<Rightarrow> real option \<Rightarrow> real option \<Rightarrow> string \<Rightarrow> linking_decision" where
  "no_link i st score margin why =
     \<lparr>ld_source_track = i, ld_session_speaker_id = None, ld_status = st, ld_score = score,
      ld_margin = margin, ld_reason = why\<rparr>"

definition linked_to ::
  "nat \<Rightarrow> string \<Rightarrow> real option \<Rightarrow> real option \<Rightarrow> string \<Rightarrow> linking_decision" where
  "linked_to i key score margin why =
     \<lparr>ld_source_track = i, ld_session_speaker_id = Some key, ld_status = Linked,
      ld_score = score, ld_margin = margin, ld_reason = why\<rparr>"

text \<open>\<open>argmax_owner\<close>: the sources whose own best finite score is in column \<open>j\<close>.\<close>

definition drawn_to :: "speaker_embedding option list \<Rightarrow> score_matrix \<Rightarrow> nat \<Rightarrow> nat list" where
  "drawn_to embeddings base j =
     filter (\<lambda>i. embeddings ! i \<noteq> None \<and> argmax (base ! i) = j \<and> base ! i ! j \<noteq> None)
       [0..<length embeddings]"

definition margin_of :: "score_row \<Rightarrow> real option" where
  "margin_of row =
     (case snd (top_two row) of None \<Rightarrow> None | Some top2 \<Rightarrow> Some (the (fst (top_two row)) - top2))"

text \<open>The tail of the loop body, for a source assigned to a speaker's column.\<close>

definition decide_assigned ::
  "source_linking_config \<Rightarrow> bool \<Rightarrow> bool \<Rightarrow> string \<Rightarrow> real option \<Rightarrow> real option \<Rightarrow> nat \<Rightarrow>
     linking_decision" where
  "decide_assigned cfg constrained contested key score margin i =
     (if constrained \<and> score \<noteq> None then linked_to i key score margin REASON_LINKED_CONSTRAINED
      else if (case score of None \<Rightarrow> True | Some s \<Rightarrow> s < the (sl_accept_threshold cfg))
        then no_link i LinkUnknown score margin REASON_BELOW_ACCEPT
      else if (case margin of None \<Rightarrow> False | Some d \<Rightarrow> d < the (sl_ambiguous_margin cfg))
        then no_link i LinkAmbiguous score margin REASON_LOW_MARGIN
      else if contested then no_link i LinkAmbiguous score margin REASON_CONTESTED_IDENTITY
      else linked_to i key score margin REASON_LINKED)"

definition decide_source ::
  "source_linking_config \<Rightarrow> bool \<Rightarrow> speaker_embedding option list \<Rightarrow> string list \<Rightarrow>
     score_matrix \<Rightarrow> (nat \<rightharpoonup> nat) \<Rightarrow> nat \<Rightarrow> linking_decision" where
  "decide_source cfg constrained embeddings keys base assignment i =
     (if embeddings ! i = None then no_link i LinkUnknown None None REASON_NO_EMBEDDING
      else let row = base ! i;
               j = (case assignment i of None \<Rightarrow> length keys | Some c \<Rightarrow> c);
               preferred = argmax row
           in if \<not> sl_is_calibrated cfg
                then no_link i LinkUncalibrated (fst (top_two row)) (margin_of row)
                       REASON_UNCALIBRATED
              else if length keys \<le> j
                then no_link i LinkUnknown (fst (top_two row)) (margin_of row)
                       REASON_ASSIGNED_DUMMY
              else decide_assigned cfg constrained
                     (1 < length (drawn_to embeddings base preferred) \<and> j \<noteq> preferred)
                     (keys ! j) (row ! j) (margin_of row) i)"

definition solve ::
  "solver \<Rightarrow> source_linking_config \<Rightarrow> bool \<Rightarrow> score_matrix \<Rightarrow> nat \<rightharpoonup> nat" where
  "solve lsa cfg constrained scored =
     (let dummy_value = (if constrained then None
            else Some (case sl_accept_threshold cfg of None \<Rightarrow> 0 | Some t \<Rightarrow> t))
      in map_of (rev (lsa (solvable (extend_matrix dummy_value scored)))))"

definition link_sources ::
  "solver \<Rightarrow> speaker_embedding option list \<Rightarrow> prototype list \<Rightarrow> source_linking_config \<Rightarrow>
     (nat \<times> string) list option \<Rightarrow> string set option \<Rightarrow> bool \<Rightarrow> linking_result res" where
  "link_sources lsa embeddings protos cfg previous candidates constrained =
     (let keys = map speaker_key protos in
      bindR (build_score_matrix embeddings protos) (\<lambda>m.
        let base = restrict_to_candidates m keys candidates;
            result = (\<lambda>ds. \<lparr>lr_decisions = ds, lr_matrix = base, lr_keys = keys,
                            lr_calibrated = sl_is_calibrated cfg\<rparr>)
        in if protos = []
           then Inr (result (map (\<lambda>i. no_link i LinkUnknown None None
                  (if embeddings ! i \<noteq> None then REASON_NO_PROTOTYPE else REASON_NO_EMBEDDING))
                [0..<length embeddings]))
           else let scored = apply_continuity_bonus base keys previous (continuity_bonus cfg);
                    assignment = solve lsa cfg constrained scored
                in Inr (result (map (decide_source cfg constrained embeddings keys base assignment)
                     [0..<length embeddings]))))"

text \<open>The reasons counted by the metric of unlinked sources.\<close>

definition count_unknowns :: "linking_decision list \<Rightarrow> string list" where
  "count_unknowns ds = map ld_reason (filter (\<lambda>d. ld_status d \<noteq> Linked) ds)"

definition hungarian_link ::
  "solver \<Rightarrow> source_linking_config \<Rightarrow> speaker_embedding option list \<Rightarrow> prototype list \<Rightarrow>
     (nat \<times> string) list option \<Rightarrow> linking_decision list res" where
  "hungarian_link lsa cfg embeddings protos previous =
     bindR (link_sources lsa embeddings protos cfg previous None False) (\<lambda>r. Inr (lr_decisions r))"

section \<open>Properties\<close>

definition matching :: "solver \<Rightarrow> bool" where
  "matching lsa \<longleftrightarrow> (\<forall>m. distinct (map fst (lsa m)) \<and> distinct (map snd (lsa m)))"

lemma solve_inj:
  assumes "matching lsa" and "solve lsa cfg b m i = Some j" and "solve lsa cfg b m i' = Some j"
  shows "i = i'"
proof -
  define pairs where "pairs = lsa (solvable (extend_matrix (if b then None
      else Some (case sl_accept_threshold cfg of None \<Rightarrow> 0 | Some t \<Rightarrow> t)) m))"
  have "(i, j) \<in> set pairs" "(i', j) \<in> set pairs"
    using assms(2,3) by (auto simp: solve_def pairs_def Let_def dest!: map_of_SomeD)
  moreover have "inj_on snd (set pairs)"
    using assms(1) by (simp add: matching_def pairs_def distinct_map)
  ultimately show ?thesis by (metis inj_onD prod.inject snd_conv)
qed

lemma no_link_fields [simp]:
  "ld_status (no_link i st sc mg why) = st" "ld_source_track (no_link i st sc mg why) = i"
  by (simp_all add: no_link_def)

lemma linked_to_fields [simp]:
  "ld_status (linked_to i k sc mg why) = Linked" "ld_source_track (linked_to i k sc mg why) = i"
  "ld_session_speaker_id (linked_to i k sc mg why) = Some k" "ld_score (linked_to i k sc mg why) = sc"
  "ld_margin (linked_to i k sc mg why) = mg"
  by (simp_all add: linked_to_def)

lemma decide_assigned_linked:
  assumes "ld_status (decide_assigned cfg b contested key score margin i) = Linked"
  shows "\<exists>s why. score = Some s \<and> decide_assigned cfg b contested key score margin i
      = linked_to i key score margin why
    \<and> (b \<or> the (sl_accept_threshold cfg) \<le> s
        \<and> (\<forall>d. margin = Some d \<longrightarrow> the (sl_ambiguous_margin cfg) \<le> d))"
  using assms by (cases score; cases margin) (auto simp: decide_assigned_def split: if_split_asm)

lemma decide_source_linked:
  assumes "ld_status (decide_source cfg b es keys base a i) = Linked"
  shows "\<exists>j s. es ! i \<noteq> None \<and> a i = Some j \<and> j < length keys \<and> sl_is_calibrated cfg
    \<and> base ! i ! j = Some s
    \<and> ld_session_speaker_id (decide_source cfg b es keys base a i) = Some (keys ! j)
    \<and> ld_score (decide_source cfg b es keys base a i) = Some s
    \<and> (b \<or> the (sl_accept_threshold cfg) \<le> s
        \<and> (\<forall>d. ld_margin (decide_source cfg b es keys base a i) = Some d \<longrightarrow>
             the (sl_ambiguous_margin cfg) \<le> d))"
proof -
  have e: "es ! i \<noteq> None" and cal: "sl_is_calibrated cfg"
    using assms by (auto simp: decide_source_def Let_def split: if_split_asm)
  then obtain j where j: "a i = Some j" "j < length keys"
    using assms by (cases "a i") (auto simp: decide_source_def Let_def split: if_split_asm)
  let ?c = "1 < length (drawn_to es base (argmax (base ! i))) \<and> j \<noteq> argmax (base ! i)"
  have d: "decide_source cfg b es keys base a i
      = decide_assigned cfg b ?c (keys ! j) (base ! i ! j) (margin_of (base ! i)) i"
    using e cal j by (auto simp: decide_source_def Let_def)
  from decide_assigned_linked[OF assms[unfolded d]] obtain s why where
    "base ! i ! j = Some s" "decide_source cfg b es keys base a i
      = linked_to i (keys ! j) (base ! i ! j) (margin_of (base ! i)) why"
    "b \<or> the (sl_accept_threshold cfg) \<le> s
        \<and> (\<forall>d. margin_of (base ! i) = Some d \<longrightarrow> the (sl_ambiguous_margin cfg) \<le> d)"
    unfolding d by blast
  then show ?thesis using e cal j by simp
qed

lemma decide_assigned_track [simp]: "ld_source_track (decide_assigned cfg b c key sc mg i) = i"
  by (simp add: decide_assigned_def)

lemma decide_source_track [simp]: "ld_source_track (decide_source cfg b es keys base a i) = i"
  by (simp add: decide_source_def Let_def)

lemma link_sources_cases:
  assumes "link_sources lsa es protos cfg prev cand b = Inr r"
  obtains m base a where "build_score_matrix es protos = Inr m"
    and "base = restrict_to_candidates m (map speaker_key protos) cand"
    and "a = solve lsa cfg b
           (apply_continuity_bonus base (map speaker_key protos) prev (continuity_bonus cfg))"
    and "lr_decisions r = (if protos = []
         then map (\<lambda>i. no_link i LinkUnknown None None
                (if es ! i \<noteq> None then REASON_NO_PROTOTYPE else REASON_NO_EMBEDDING)) [0..<length es]
         else map (decide_source cfg b es (map speaker_key protos) base a) [0..<length es])"
proof -
  from assms obtain m where m: "build_score_matrix es protos = Inr m"
    by (auto simp: link_sources_def Let_def elim: bindR_InrE)
  show thesis
  proof (rule that[OF m refl refl])
    show "lr_decisions r = (if protos = []
         then map (\<lambda>i. no_link i LinkUnknown None None
                (if es ! i \<noteq> None then REASON_NO_PROTOTYPE else REASON_NO_EMBEDDING)) [0..<length es]
         else map (decide_source cfg b es (map speaker_key protos)
                (restrict_to_candidates m (map speaker_key protos) cand)
                (solve lsa cfg b (apply_continuity_bonus
                   (restrict_to_candidates m (map speaker_key protos) cand)
                   (map speaker_key protos) prev (continuity_bonus cfg)))) [0..<length es])"
      using assms unfolding link_sources_def Let_def m bindR_Inr
      by (simp only: split: if_split_asm) auto
  qed
qed

lemma restrict_Some:
  "active \<noteq> {} \<Longrightarrow> restrict_to_candidates m keys (Some active) =
     (if \<forall>row\<in>set (blank_columns active keys m). \<forall>s\<in>set row. s = None then m
      else blank_columns active keys m)"
  by (simp add: restrict_to_candidates_def Let_def)

lemma blank_columns_nth:
  assumes "i < length m" and "j < length keys" and "length (m ! i) = length keys"
  shows "blank_columns active keys m ! i ! j = (if keys ! j \<in> active then m ! i ! j else None)"
    and "blank_columns active keys m ! i \<in> set (blank_columns active keys m)"
    and "blank_columns active keys m ! i ! j \<in> set (blank_columns active keys m ! i)"
proof -
  have "blank_columns active keys m ! i = map2 (\<lambda>k s. if k \<in> active then s else None) keys (m ! i)"
    using assms by (simp add: blank_columns_def)
  moreover have "length (blank_columns active keys m ! i) = length keys"
    using assms by (simp add: calculation)
  ultimately show "blank_columns active keys m ! i ! j = (if keys ! j \<in> active then m ! i ! j else None)"
    and "blank_columns active keys m ! i ! j \<in> set (blank_columns active keys m ! i)"
    using assms by (simp, metis nth_mem)
  show "blank_columns active keys m ! i \<in> set (blank_columns active keys m)"
    using assms by (simp add: blank_columns_def)
qed

lemma linked_decision:
  assumes "link_sources lsa es protos cfg prev cand b = Inr r"
    and "d \<in> set (lr_decisions r)" and "ld_status d = Linked"
  obtains m base a i j s where "build_score_matrix es protos = Inr m"
    and "base = restrict_to_candidates m (map speaker_key protos) cand"
    and "a = solve lsa cfg b
           (apply_continuity_bonus base (map speaker_key protos) prev (continuity_bonus cfg))"
    and "i < length es" and "es ! i \<noteq> None" and "ld_source_track d = i" and "a i = Some j"
    and "j < length protos" and "sl_is_calibrated cfg" and "base ! i ! j = Some s"
    and "ld_session_speaker_id d = Some (speaker_key (protos ! j))" and "ld_score d = Some s"
    and "b \<or> the (sl_accept_threshold cfg) \<le> s
        \<and> (\<forall>t. ld_margin d = Some t \<longrightarrow> the (sl_ambiguous_margin cfg) \<le> t)"
proof -
  from assms(1) obtain m base a where m: "build_score_matrix es protos = Inr m"
    and base: "base = restrict_to_candidates m (map speaker_key protos) cand"
    and a: "a = solve lsa cfg b
           (apply_continuity_bonus base (map speaker_key protos) prev (continuity_bonus cfg))"
    and ds: "lr_decisions r = (if protos = []
         then map (\<lambda>i. no_link i LinkUnknown None None
                (if es ! i \<noteq> None then REASON_NO_PROTOTYPE else REASON_NO_EMBEDDING)) [0..<length es]
         else map (decide_source cfg b es (map speaker_key protos) base a) [0..<length es])"
    by (rule link_sources_cases)
  have "protos \<noteq> []" using assms(2,3) ds by (auto simp: no_link_def split: if_splits)
  with assms(2) ds obtain i where i: "i < length es"
      "d = decide_source cfg b es (map speaker_key protos) base a i" by auto
  from decide_source_linked[of cfg b es "map speaker_key protos" base a i] assms(3) i(2)
  obtain j s where "es ! i \<noteq> None" "a i = Some j" "j < length protos" "sl_is_calibrated cfg"
      "base ! i ! j = Some s" "ld_session_speaker_id d = Some (map speaker_key protos ! j)"
      "ld_score d = Some s" "b \<or> the (sl_accept_threshold cfg) \<le> s
        \<and> (\<forall>t. ld_margin d = Some t \<longrightarrow> the (sl_ambiguous_margin cfg) \<le> t)"
    by auto
  with m base a i that show thesis by simp
qed

text \<open>
  Linking is one-to-one: if the solver returns a matching and the prototypes have different
  keys, no source is mapped twice and no two sources are mapped to the same speaker.
\<close>

theorem linked_one_to_one:
  assumes "matching lsa" and "distinct (map speaker_key protos)"
    and "link_sources lsa es protos cfg prev cand b = Inr r"
  shows "distinct (map fst (mapping r)) \<and> distinct (map snd (mapping r))
    \<and> snd ` set (mapping r) \<subseteq> speaker_key ` set protos"
proof -
  have tracks: "map ld_source_track (lr_decisions r) = [0..<length es]"
    using assms(3) by (rule link_sources_cases) (auto simp: no_link_def comp_def)
  then have dt: "distinct (map ld_source_track (lr_decisions r))" by simp
  let ?ds = "filter (\<lambda>d. ld_status d = Linked \<and> ld_session_speaker_id d \<noteq> None) (lr_decisions r)"
  have fst: "distinct (map ld_source_track ?ds)" using dt by (rule distinct_map_filter)
  have key: "ld_source_track d = ld_source_track d'"
    if d: "d \<in> set ?ds" and d': "d' \<in> set ?ds"
      and eq: "ld_session_speaker_id d = ld_session_speaker_id d'" for d d'
  proof -
    from d d' have in_ds: "d \<in> set (lr_decisions r)" "ld_status d = Linked"
      "d' \<in> set (lr_decisions r)" "ld_status d' = Linked" by auto
    from linked_decision[OF assms(3) in_ds(1,2)]
    obtain m j where 1: "build_score_matrix es protos = Inr m" "solve lsa cfg b
           (apply_continuity_bonus (restrict_to_candidates m (map speaker_key protos) cand)
              (map speaker_key protos) prev (continuity_bonus cfg)) (ld_source_track d) = Some j"
        "j < length protos" "ld_session_speaker_id d = Some (speaker_key (protos ! j))"
      by metis
    from linked_decision[OF assms(3) in_ds(3,4)]
    obtain m' j' where 2: "build_score_matrix es protos = Inr m'" "solve lsa cfg b
           (apply_continuity_bonus (restrict_to_candidates m' (map speaker_key protos) cand)
              (map speaker_key protos) prev (continuity_bonus cfg)) (ld_source_track d') = Some j'"
        "j' < length protos" "ld_session_speaker_id d' = Some (speaker_key (protos ! j'))"
      by metis
    have "speaker_key (protos ! j) = speaker_key (protos ! j')" using eq 1(4) 2(4) by simp
    then have "j = j'" using assms(2) 1(3) 2(3) by (simp add: distinct_conv_nth) metis
    then show ?thesis using solve_inj[OF assms(1)] 1(1,2) 2(1,2) by auto
  qed
  have "inj_on (\<lambda>d. the (ld_session_speaker_id d)) (set ?ds)"
  proof (rule inj_onI)
    fix d d' assume d: "d \<in> set ?ds" "d' \<in> set ?ds"
      and eq: "the (ld_session_speaker_id d) = the (ld_session_speaker_id d')"
    then have "ld_session_speaker_id d = ld_session_speaker_id d'" by auto
    from key[OF d this] fst d show "d = d'" by (auto simp: distinct_map dest: inj_onD)
  qed
  moreover have "distinct ?ds" using fst by (simp add: distinct_map)
  ultimately have snd: "distinct (map (\<lambda>d. the (ld_session_speaker_id d)) ?ds)"
    by (simp add: distinct_map)
  have "the (ld_session_speaker_id d) \<in> speaker_key ` set protos" if "d \<in> set ?ds" for d
  proof -
    from that have "d \<in> set (lr_decisions r)" "ld_status d = Linked" by auto
    from linked_decision[OF assms(3) this] show ?thesis by (metis imageI nth_mem option.sel)
  qed
  then have "snd ` set (mapping r) \<subseteq> speaker_key ` set protos"
    unfolding mapping_def by force
  with fst snd show ?thesis by (simp add: mapping_def comp_def)
qed


definition diagonal :: solver where
  "diagonal m = map (\<lambda>i. (i, i)) [0..<length m]"

lemma diagonal_matching: "matching diagonal"
  by (simp add: matching_def diagonal_def comp_def)

definition example_linking :: source_linking_config where
  "example_linking = \<lparr>sl_accept_threshold = Some (1/2), sl_ambiguous_margin = Some (1/10),
     continuity_bonus = 2/100, min_embedding_ms = None, restrict_to_active_clusters = True,
     sl_short_source_policy = PolicyUnknown, sl_embedding_window = WindowOwned\<rparr>"

definition example_prototype :: "string \<Rightarrow> real list \<Rightarrow> prototype" where
  "example_prototype k v = \<lparr>speaker_key = k, centroid = v, weight_sum = 1,
     p_model_version = ''m'', p_version = 1, contributing_segments = []\<rparr>"

lemma example_links:
  "\<exists>r. link_sources diagonal [Some (unit_x 1)] [example_prototype ''a'' [1, 0],
       example_prototype ''b'' [0, 1]] example_linking None None False = Inr r
     \<and> lr_decisions r = [linked_to 0 ''a'' (Some 1) (Some 1) REASON_LINKED]"
  by (simp add: link_sources_def build_score_matrix_def embedding_scores_def similarity_def unit_x_def
      example_prototype_def dot_def restrict_to_candidates_def apply_continuity_bonus_def
      solve_def example_linking_def diagonal_def extend_matrix_def solvable_def decide_source_def
      decide_assigned_def margin_of_def Let_def top_two_def finite_values_def sl_is_calibrated_def argmax_def drawn_to_def)

theorem linked_one_to_one_witness:
  "\<exists>r. link_sources diagonal [Some (unit_x 1)] [example_prototype ''a'' [1, 0],
       example_prototype ''b'' [0, 1]] example_linking None None False = Inr r
     \<and> distinct (map snd (mapping r))"
proof -
  obtain r where r: "link_sources diagonal [Some (unit_x 1)] [example_prototype ''a'' [1, 0],
       example_prototype ''b'' [0, 1]] example_linking None None False = Inr r"
    using example_links by blast
  from linked_one_to_one[OF diagonal_matching _ r] r show ?thesis
    by (simp add: example_prototype_def)
qed


end
