(* ===== verification/SessionState.thy ===== *)
theory SessionState
  imports Config Prototypes
begin

text \<open>
  The speakers of one session, \<^verbatim>\<open>src/src/sastt/application/session_state.py\<close>: creation, lookup through
  merges, prototype updates with their gates, cannot-link constraints, merges, promotion, Voice ID
  decisions and finalization. \<open>speakers\<close> and \<open>order\<close> are the dictionary and the list of the class;
  an object mutated in place is put back under its identifier. New identifiers are arguments.

  \<open>get\<close> follows \<open>merged_into\<close>; a chain of more steps than there are speakers is a cycle, on which
  the loop of the source would not return (\<open>Diverges\<close>). Where an operation raises, the model drops
  the state: what it may have changed before is not visible to a caller that gives up.
\<close>

section \<open>State\<close>

definition REASON_TOO_SHORT :: string where "REASON_TOO_SHORT = ''speech_shorter_than_minimum''"
definition REASON_NOT_ANONYMOUS :: string where "REASON_NOT_ANONYMOUS = ''identity_not_resolved''"
definition REASON_SEPARATED_DISABLED :: string where
  "REASON_SEPARATED_DISABLED = ''separated_updates_disabled''"
definition REASON_LOW_SOURCE_QUALITY :: string where
  "REASON_LOW_SOURCE_QUALITY = ''source_quality_gate''"
definition REASON_LOW_LINK_MARGIN :: string where "REASON_LOW_LINK_MARGIN = ''link_margin_gate''"
definition REASON_MODEL_MISMATCH :: string where
  "REASON_MODEL_MISMATCH = ''embedding_model_mismatch''"
definition REASON_UPDATED :: string where "REASON_UPDATED = ''updated''"
definition REASON_CREATED :: string where "REASON_CREATED = ''created''"

definition UNATTRIBUTED_LABEL :: string where "UNATTRIBUTED_LABEL = ''Unknown''"

definition temporary_label :: "nat \<Rightarrow> string" where
  "temporary_label index = ''Temporary Speaker '' @ digits index"

definition numbered_label :: "nat \<Rightarrow> string" where
  "numbered_label index = ''Speaker '' @ digits index"

record prototype_update =
  pu_accepted :: bool
  pu_reason :: string
  pu_speaker_id :: "string option"
  pu_version :: "nat option"

record label_change =
  lc_speaker :: string
  lc_previous :: string
  lc_new :: string
  lc_reason :: string

record session_state =
  ss_session_id :: string
  ss_config :: config
  ss_model_version :: string
  speakers :: "string \<Rightarrow> session_speaker option"
  order :: "string list"
  label_changes :: "label_change list"
  temporary_counter :: nat
  label_counter :: nat
  unattributed_id :: "string option"

definition new_session :: "string \<Rightarrow> config \<Rightarrow> string \<Rightarrow> session_state" where
  "new_session sid c version =
     \<lparr>ss_session_id = sid, ss_config = c, ss_model_version = version, speakers = Map.empty,
      order = [], label_changes = [], temporary_counter = 0, label_counter = 0,
      unattributed_id = None\<rparr>"

section \<open>Lookup\<close>

fun root :: "nat \<Rightarrow> (string \<Rightarrow> session_speaker option) \<Rightarrow> string \<Rightarrow> string res" where
  "root 0 sp i = Inl Diverges"
| "root (Suc n) sp i =
     (case sp i of
        None \<Rightarrow> Inl KeyError
      | Some s \<Rightarrow> (case merged_into s of None \<Rightarrow> Inr i | Some j \<Rightarrow> root n sp j))"

definition get :: "session_state \<Rightarrow> string \<Rightarrow> session_speaker res" where
  "get st i = bindR (root (Suc (length (order st))) (speakers st) i) (\<lambda>k. Inr (the (speakers st k)))"

definition active :: "session_state \<Rightarrow> session_speaker list" where
  "active st = filter (\<lambda>s. merged_into s = None) (List.map_filter (speakers st) (order st))"

definition active_speaker_count :: "session_state \<Rightarrow> int" where
  "active_speaker_count st = int (length (active st))"

definition session_limit :: "session_state \<Rightarrow> int" where
  "session_limit st = max_session_speakers (product (ss_config st))"

definition can_admit_speaker :: "session_state \<Rightarrow> bool" where
  "can_admit_speaker st \<longleftrightarrow> active_speaker_count st < session_limit st"

definition by_cluster :: "session_state \<Rightarrow> string \<Rightarrow> session_speaker option" where
  "by_cluster st c = first_such (\<lambda>s. speaker_cluster s = Some c) (active st)"

definition prototypes_of :: "session_speaker list \<Rightarrow> prototype list" where
  "prototypes_of ss = List.map_filter speaker_prototype ss"

definition prototypes :: "session_state \<Rightarrow> prototype list" where
  "prototypes st = prototypes_of (filter (\<lambda>s. speaker_state s \<noteq> PROVISIONAL) (active st))"

definition provisional_speakers :: "session_state \<Rightarrow> session_speaker list" where
  "provisional_speakers st = filter (\<lambda>s. speaker_state s = PROVISIONAL) (active st)"

definition provisional_prototypes :: "session_state \<Rightarrow> prototype list" where
  "provisional_prototypes st = prototypes_of (provisional_speakers st)"

definition linking_prototypes :: "session_state \<Rightarrow> prototype list" where
  "linking_prototypes st = prototypes_of (active st)"

definition minimum_speech_ms :: "session_state \<Rightarrow> int" where
  "minimum_speech_ms st =
     seconds_to_ms (minimum_clean_speech_seconds (speaker_embedding_cfg (ss_config st)))"

section \<open>Creation\<close>

definition put :: "session_speaker \<Rightarrow> session_state \<Rightarrow> session_state" where
  "put s st = st\<lparr>speakers := (speakers st)(session_speaker_id s \<mapsto> s)\<rparr>"

definition register :: "session_speaker \<Rightarrow> session_state \<Rightarrow> session_state res" where
  "register s st =
     (if speakers st (session_speaker_id s) \<noteq> None then Inl (Sastt InvalidStateTransitionError)
      else Inr ((put s st)\<lparr>order := order st @ [session_speaker_id s]\<rparr>))"

definition create_session_speaker ::
  "string \<Rightarrow> string option \<Rightarrow> string option \<Rightarrow> session_state \<Rightarrow>
     (session_state \<times> session_speaker) res" where
  "create_session_speaker fresh cluster label st =
     (if session_limit st \<le> active_speaker_count st
        then Inl (Sastt InvalidStateTransitionError)
      else let n = label_counter st + 1 in
        bindR (mk_machine SESSION_ANONYMOUS) (\<lambda>m.
          let s = new_session_speaker fresh m (or_else label (numbered_label n)) cluster
          in bindR (register s (st\<lparr>label_counter := n\<rparr>)) (\<lambda>st'. Inr (st', s))))"

definition create_temporary_speaker ::
  "string \<Rightarrow> session_state \<Rightarrow> (session_state \<times> session_speaker) res" where
  "create_temporary_speaker fresh st =
     (if \<not> can_admit_speaker st then Inl (Sastt InvalidStateTransitionError)
      else let n = temporary_counter st + 1 in
        bindR (mk_machine PROVISIONAL) (\<lambda>m.
          let s = new_session_speaker fresh m (temporary_label n) None
          in bindR (register s (st\<lparr>temporary_counter := n\<rparr>)) (\<lambda>st'. Inr (st', s))))"

definition unattributed_speaker ::
  "string \<Rightarrow> session_state \<Rightarrow> (session_state \<times> session_speaker) res" where
  "unattributed_speaker fresh st =
     (case unattributed_id st of
        Some i \<Rightarrow> (case speakers st i of None \<Rightarrow> Inl KeyError | Some s \<Rightarrow> Inr (st, s))
      | None \<Rightarrow>
          bindR (mk_machine PROVISIONAL) (\<lambda>m.
          bindR (transition m UNKNOWN ''insufficient_evidence'') (\<lambda>m'.
            let s = new_session_speaker fresh m' UNATTRIBUTED_LABEL None
            in bindR (register s st) (\<lambda>st'.
                 Inr (st'\<lparr>unattributed_id := Some (session_speaker_id s)\<rparr>, s)))))"

definition ensure_cluster_speaker ::
  "string \<Rightarrow> string \<Rightarrow> session_state \<Rightarrow> (session_state \<times> session_speaker) res" where
  "ensure_cluster_speaker fresh c st =
     (case by_cluster st c of
        Some s \<Rightarrow> Inr (st, s)
      | None \<Rightarrow> create_session_speaker fresh (Some c) None st)"

section \<open>Prototype updates\<close>

definition rejected :: "string \<Rightarrow> session_speaker \<Rightarrow> prototype_update" where
  "rejected why s =
     \<lparr>pu_accepted = False, pu_reason = why, pu_speaker_id = Some (session_speaker_id s),
      pu_version = None\<rparr>"

definition accepted_update :: "string \<Rightarrow> session_speaker \<Rightarrow> prototype \<Rightarrow> prototype_update" where
  "accepted_update why s p =
     \<lparr>pu_accepted = True, pu_reason = why, pu_speaker_id = Some (session_speaker_id s),
      pu_version = Some (p_version p)\<rparr>"

text \<open>The common tail of both update methods.\<close>

definition learn ::
  "session_speaker \<Rightarrow> speaker_embedding \<Rightarrow> session_state \<Rightarrow>
     (session_state \<times> prototype_update) res" where
  "learn s e st =
     (case speaker_prototype s of
        None \<Rightarrow>
          bindR (from_embedding (session_speaker_id s) e) (\<lambda>p.
            Inr (put (s\<lparr>speaker_prototype := Some p\<rparr>) st, accepted_update REASON_CREATED s p))
      | Some old \<Rightarrow>
          bindR (updated_with old e) (\<lambda>p.
            Inr (put (s\<lparr>prototype_history := prototype_history s @ [old],
                        speaker_prototype := Some p\<rparr>) st, accepted_update REASON_UPDATED s p)))"

definition update_prototype ::
  "string \<Rightarrow> speaker_embedding \<Rightarrow> real option \<Rightarrow> bool \<Rightarrow> session_state \<Rightarrow>
     (session_state \<times> prototype_update) res" where
  "update_prototype i e link_margin source_quality_passed st =
     bindR (get st i) (\<lambda>s.
       if e_model_version e \<noteq> ss_model_version st then Inr (st, rejected REASON_MODEL_MISMATCH s)
       else if e_speech_duration_ms e < minimum_speech_ms st
         then Inr (st, rejected REASON_TOO_SHORT s)
       else if speaker_state s \<in> {UNKNOWN, AMBIGUOUS}
         then Inr (st, rejected REASON_NOT_ANONYMOUS s)
       else if e_origin e = Separated
               \<and> \<not> update_from_separated_sources (speaker_embedding_cfg (ss_config st))
         then Inr (st, rejected REASON_SEPARATED_DISABLED s)
       else if e_origin e = Separated \<and> \<not> source_quality_passed
         then Inr (st, rejected REASON_LOW_SOURCE_QUALITY s)
       else if e_origin e = Separated
               \<and> (case (sl_ambiguous_margin (source_linking (ss_config st)), link_margin) of
                    (Some threshold, Some margin) \<Rightarrow> margin < threshold
                  | _ \<Rightarrow> True)
         then Inr (st, rejected REASON_LOW_LINK_MARGIN s)
       else learn s e st)"

definition buffer_provisional_embedding ::
  "string \<Rightarrow> speaker_embedding \<Rightarrow> session_state \<Rightarrow> (session_state \<times> prototype_update) res" where
  "buffer_provisional_embedding i e st =
     bindR (get st i) (\<lambda>s.
       if speaker_state s \<noteq> PROVISIONAL then Inr (st, rejected REASON_NOT_ANONYMOUS s)
       else if e_model_version e \<noteq> ss_model_version st
         then Inr (st, rejected REASON_MODEL_MISMATCH s)
       else if e_speech_duration_ms e < minimum_speech_ms st
         then Inr (st, rejected REASON_TOO_SHORT s)
       else learn s e st)"

section \<open>Constraints and merges\<close>

definition add_cannot_link :: "string \<Rightarrow> string \<Rightarrow> session_state \<Rightarrow> session_state res" where
  "add_cannot_link i j st =
     bindR (get st i) (\<lambda>a.
     bindR (get st j) (\<lambda>b.
       if session_speaker_id a = session_speaker_id b then Inr st
       else Inr (put (b\<lparr>cannot_link := insert (session_speaker_id a) (cannot_link b)\<rparr>)
                  (put (a\<lparr>cannot_link := insert (session_speaker_id b) (cannot_link a)\<rparr>) st))))"

definition can_merge :: "string \<Rightarrow> string \<Rightarrow> session_state \<Rightarrow> bool res" where
  "can_merge i j st =
     bindR (get st i) (\<lambda>source.
     bindR (get st j) (\<lambda>target.
       Inr (session_speaker_id source \<noteq> session_speaker_id target
            \<and> session_speaker_id target \<notin> cannot_link source)))"

text \<open>The moves of the source's state machine in \<open>merge\<close>.\<close>

definition merge_machine :: "machine \<Rightarrow> string \<Rightarrow> machine res" where
  "merge_machine m why =
     bindR (if m_state m = PROVISIONAL then transition m SESSION_ANONYMOUS why else Inr m) (\<lambda>m1.
       if m_state m1 = SESSION_ANONYMOUS then transition m1 MERGED why else Inr m1)"

definition merge ::
  "string \<Rightarrow> string \<Rightarrow> string \<Rightarrow> session_state \<Rightarrow> (session_state \<times> label_change) res" where
  "merge i j why st =
     bindR (get st i) (\<lambda>source.
     bindR (get st j) (\<lambda>target.
     bindR (can_merge (session_speaker_id source) (session_speaker_id target) st) (\<lambda>ok.
       if \<not> ok then Inl (Sastt InvalidStateTransitionError)
       else bindR (merge_machine (speaker_machine source) why) (\<lambda>m.
         let target' = target\<lparr>
               speaker_prototype := (case speaker_prototype target of
                   None \<Rightarrow> speaker_prototype source | Some p \<Rightarrow> Some p),
               cannot_link := cannot_link target
                 \<union> (cannot_link source - {session_speaker_id target})\<rparr>;
             source' = source\<lparr>speaker_machine := m,
               merged_into := Some (session_speaker_id target),
               display_label := display_label target\<rparr>;
             change = \<lparr>lc_speaker = session_speaker_id source,
               lc_previous = display_label source, lc_new = display_label target,
               lc_reason = why\<rparr>;
             st' = put source' (put target' st)
         in Inr (st'\<lparr>label_changes := label_changes st' @ [change]\<rparr>, change)))))"

section \<open>Identity resolution\<close>

definition relabel :: "session_speaker \<Rightarrow> string \<Rightarrow> string \<Rightarrow> session_state \<Rightarrow>
    session_state \<times> label_change" where
  "relabel s label why st =
     (let change = \<lparr>lc_speaker = session_speaker_id s, lc_previous = display_label s,
                    lc_new = label, lc_reason = why\<rparr>
      in ((put (s\<lparr>display_label := label\<rparr>) st)\<lparr>label_changes := label_changes st @ [change]\<rparr>,
          change))"

definition promote_provisional ::
  "string \<Rightarrow> string \<Rightarrow> string option \<Rightarrow> session_state \<Rightarrow>
     (session_state \<times> label_change option) res" where
  "promote_provisional i why label st =
     bindR (get st i) (\<lambda>s.
       if speaker_state s \<noteq> PROVISIONAL then Inr (st, None)
       else bindR (transition (speaker_machine s) SESSION_ANONYMOUS why) (\<lambda>m.
         let (st1, new_label) = (case label of
                None \<Rightarrow> (st\<lparr>label_counter := label_counter st + 1\<rparr>,
                         numbered_label (label_counter st + 1))
              | Some l \<Rightarrow> (st, l));
             r = relabel (s\<lparr>speaker_machine := m\<rparr>) new_label why st1
         in Inr (fst r, Some (snd r))))"

definition enrolled_machine :: "machine \<Rightarrow> machine res" where
  "enrolled_machine m =
     (if m_state m \<in> {PROVISIONAL, SESSION_ANONYMOUS} then transition m ENROLLED ''voice_id_accept''
      else if m_state m = AMBIGUOUS then transition m ENROLLED ''voice_id_reaccept''
      else Inr m)"

definition apply_voice_id ::
  "string \<Rightarrow> voice_id_decision \<Rightarrow> session_state \<Rightarrow> (session_state \<times> label_change option) res" where
  "apply_voice_id i d st =
     bindR (get st i) (\<lambda>s.
       if vid_status d = VidEnrolled then
         if \<not> truthy (vid_registry_speaker_id d) \<or> \<not> truthy (vid_speaker_name d)
         then Inl (Sastt InvalidStateTransitionError)
         else bindR (enrolled_machine (speaker_machine s)) (\<lambda>m.
           let r = relabel (s\<lparr>speaker_machine := m,
                    registry_speaker_id := vid_registry_speaker_id d,
                    speaker_name := vid_speaker_name d\<rparr>)
                 (or_else (vid_speaker_name d) []) ''voice_id_accept'' st
           in Inr (fst r, Some (snd r)))
       else if vid_status d = VidAmbiguous \<and> speaker_state s = ENROLLED then
         bindR (transition (speaker_machine s) AMBIGUOUS ''voice_id_contradiction'') (\<lambda>m.
           Inr (put (s\<lparr>speaker_machine := m\<rparr>) st, None))
       else Inr (st, None))"

text \<open>The loop body of \<open>finalize_unresolved\<close> for one speaker of the list taken before the loop.\<close>

definition finalize_one ::
  "string \<Rightarrow> session_state \<times> string list \<Rightarrow> (session_state \<times> string list) res" where
  "finalize_one i acc =
     (let (st, unresolved) = acc in
      case speakers st i of
        None \<Rightarrow> Inr acc
      | Some s \<Rightarrow>
          if speaker_state s \<noteq> PROVISIONAL then Inr acc
          else if speaker_prototype s = None then
            bindR (transition (speaker_machine s) UNKNOWN ''insufficient_evidence'') (\<lambda>m.
              Inr (put (s\<lparr>speaker_machine := m\<rparr>) st, unresolved @ [session_speaker_id s]))
          else if sl_is_calibrated (source_linking (ss_config st)) then
            bindR (promote_provisional (session_speaker_id s) ''separated_evidence_final'' None st)
              (\<lambda>(st', _). Inr (st', unresolved))
          else Inr acc)"

definition finalize_unresolved :: "session_state \<Rightarrow> (session_state \<times> string list) res" where
  "finalize_unresolved st =
     foldR finalize_one (map session_speaker_id (active st)) (st, [])"

definition drain_label_changes :: "session_state \<Rightarrow> session_state \<times> label_change list" where
  "drain_label_changes st = (st\<lparr>label_changes := []\<rparr>, label_changes st)"

text \<open>
  \<open>overlapping_clusters\<close>: the dictionary of intervals as an association list with distinct keys.
\<close>

definition overlapping_clusters ::
  "(string \<times> time_interval list) list \<Rightarrow> (string \<times> string) set" where
  "overlapping_clusters intervals =
     (let keys = sort (map fst intervals);
          of_key = (\<lambda>k. case map_of intervals k of None \<Rightarrow> [] | Some xs \<Rightarrow> xs)
      in set (concat (map (\<lambda>i.
           map (\<lambda>second. (keys ! i, second))
             (filter (\<lambda>second. \<exists>a\<in>set (of_key (keys ! i)). \<exists>b\<in>set (of_key second). intersects a b)
                (drop (Suc i) keys))) [0..<length keys])))"

end
