(* ===== verification/SessionInvariant.thy ===== *)
theory SessionInvariant
  imports SessionState
begin

text \<open>
  The invariant of \<open>SessionSpeakerState\<close> and how its operations evolve a session: every chain of
  merges ends, identifiers stay what they are, machines only make allowed moves and the number of
  speakers is bounded.
\<close>

section \<open>Merge chains\<close>

definition pointer :: "(string \<Rightarrow> session_speaker option) \<Rightarrow> string \<Rightarrow> string option option" where
  "pointer sp i = map_option merged_into (sp i)"

lemma root_end: "root n sp i = Inr k \<Longrightarrow> pointer sp k = Some None"
  by (induction n arbitrary: i) (auto simp: pointer_def split: option.splits)

lemma root_known: "root n sp i = Inr k \<Longrightarrow> sp i \<noteq> None"
  by (cases n) (auto split: option.splits)

lemma root_mono: "root n sp i = Inr k \<Longrightarrow> n \<le> m \<Longrightarrow> root m sp i = Inr k"
proof (induction n arbitrary: m i)
  case (Suc n)
  then show ?case by (cases m) (auto split: option.splits)
qed simp

lemma root_cong: "(\<And>j. pointer sp j = pointer sp' j) \<Longrightarrow> root n sp i = root n sp' i"
proof (induction n arbitrary: i)
  case (Suc n)
  from Suc.prems[of i] Suc.IH[OF Suc.prems] show ?case
    by (cases "sp i"; cases "sp' i") (auto simp: pointer_def split: option.splits)
qed simp

lemma root_of_root: "pointer sp i = Some None \<Longrightarrow> root (Suc n) sp i = Inr i"
  by (auto simp: pointer_def split: option.splits)

lemma root_extend:
  assumes "\<And>j. sp j \<noteq> None \<Longrightarrow> pointer sp' j = pointer sp j"
  shows "root n sp i = Inr k \<Longrightarrow> root n sp' i = Inr k"
proof (induction n arbitrary: i)
  case (Suc n)
  then have "sp i \<noteq> None" using root_known by blast
  from assms[OF this] Suc show ?case by (auto simp: pointer_def split: option.splits)
qed simp

text \<open>Pointing a root at another root lengthens a chain by at most one step.\<close>

lemma root_merge:
  assumes "pointer sp source = Some None" and "pointer sp target = Some None" and "source \<noteq> target"
    and sp': "\<And>j. pointer sp' j = (if j = source then Some (Some target) else pointer sp j)"
  shows "root n sp i = Inr k \<Longrightarrow> root (Suc n) sp' i = Inr (if k = source then target else k)"
proof (induction n arbitrary: i)
  case (Suc n)
  show ?case
  proof (cases "i = source")
    case True
    then have "k = source" using Suc.prems root_of_root[OF assms(1)] by simp
    moreover have "root (Suc n) sp' target = Inr target"
      by (rule root_of_root) (use sp'[of target] assms(2,3) in simp)
    ultimately show ?thesis
      using True sp'[of source] by (auto simp: pointer_def split: option.splits)
  next
    case False
    then have ptr: "pointer sp' i = pointer sp i" using sp' by simp
    show ?thesis
    proof (cases "pointer sp i = Some None")
      case True
      then have "k = i" using Suc.prems root_of_root by simp
      then show ?thesis using root_of_root[of sp' i "Suc n"] ptr True False by simp
    next
      case nroot: False
      then obtain s j where s: "sp i = Some s" "merged_into s = Some j"
        using Suc.prems by (auto simp: pointer_def split: option.splits)
      then obtain s' where s': "sp' i = Some s'" "merged_into s' = Some j"
        using ptr by (auto simp: pointer_def)
      from Suc.prems s have "root n sp j = Inr k" by simp
      from Suc.IH[OF this] show ?thesis using s' by simp
    qed
  qed
qed simp

section \<open>The invariant\<close>

definition merged_ids :: "session_state \<Rightarrow> string set" where
  "merged_ids st = {i \<in> set (order st). pointer (speakers st) i \<noteq> Some None}"

definition active_ids :: "session_state \<Rightarrow> string list" where
  "active_ids st = filter (\<lambda>i. pointer (speakers st) i = Some None) (order st)"

definition wf_speaker :: "string \<Rightarrow> session_speaker \<Rightarrow> bool" where
  "wf_speaker i s \<longleftrightarrow> session_speaker_id s = i \<and> (\<exists>m0. machine_run m0 (speaker_machine s))"

definition wf_session :: "session_state \<Rightarrow> bool" where
  "wf_session st \<longleftrightarrow>
     distinct (order st) \<and> dom (speakers st) = set (order st)
     \<and> (\<forall>i s. speakers st i = Some s \<longrightarrow> wf_speaker i s)
     \<and> (\<forall>i\<in>set (order st). \<exists>k. root (Suc (card (merged_ids st))) (speakers st) i = Inr k)
     \<and> (\<forall>i. unattributed_id st = Some i \<longrightarrow> i \<in> set (order st))
     \<and> int (length (active_ids st))
          \<le> max 0 (session_limit st) + (if unattributed_id st = None then 0 else 1)"

lemma wf_new_session [simp]: "wf_session (new_session sid c v)"
  by (simp add: wf_session_def new_session_def active_ids_def)

lemma active_eq: "active st = map (\<lambda>i. the (speakers st i)) (active_ids st)"
proof -
  have "filter (\<lambda>s. merged_into s = None) (List.map_filter sp xs)
      = map (\<lambda>i. the (sp i)) (filter (\<lambda>i. pointer sp i = Some None) xs)" for sp and xs :: "string list"
    by (induction xs) (auto simp: map_filter_simps pointer_def split: option.split)
  then show ?thesis by (simp add: active_def active_ids_def)
qed

lemma active_speaker_count_eq: "active_speaker_count st = int (length (active_ids st))"
  by (simp add: active_speaker_count_def active_eq)

lemma wf_session_speaker:
  assumes "wf_session st" and "speakers st i = Some s"
  shows "session_speaker_id s = i" and "i \<in> set (order st)" and "\<exists>m0. machine_run m0 (speaker_machine s)"
proof -
  have "dom (speakers st) = set (order st)" "wf_speaker i s"
    using assms by (simp_all add: wf_session_def)
  then show "session_speaker_id s = i" "i \<in> set (order st)" "\<exists>m0. machine_run m0 (speaker_machine s)"
    using assms(2) by (auto simp: wf_speaker_def)
qed

lemma set_active:
  assumes "wf_session st"
  shows "s \<in> set (active st) \<longleftrightarrow>
     speakers st (session_speaker_id s) = Some s \<and> merged_into s = None"
proof
  assume "s \<in> set (active st)"
  then obtain i where "s = the (speakers st i)" "pointer (speakers st) i = Some None"
    by (auto simp: active_eq active_ids_def)
  then have i: "speakers st i = Some s" "merged_into s = None" by (auto simp: pointer_def)
  with wf_session_speaker(1)[OF assms i(1)]
  show "speakers st (session_speaker_id s) = Some s \<and> merged_into s = None" by simp
next
  assume s: "speakers st (session_speaker_id s) = Some s \<and> merged_into s = None"
  then have "session_speaker_id s \<in> set (active_ids st)"
    using wf_session_speaker(2)[OF assms, of "session_speaker_id s" s]
    by (simp add: active_ids_def pointer_def)
  with s show "s \<in> set (active st)" by (force simp: active_eq)
qed

lemma merged_ids_bound: "card (merged_ids st) \<le> length (order st)"
proof -
  have "card (merged_ids st) \<le> card (set (order st))"
    by (rule card_mono) (auto simp: merged_ids_def)
  also have "\<dots> \<le> length (order st)" by (rule card_length)
  finally show ?thesis .
qed

text \<open>\<open>get\<close> returns for every identifier of the session, an active speaker stored under its own id.\<close>

lemma get_total:
  assumes "wf_session st" and "speakers st i \<noteq> None"
  shows "\<exists>s. get st i = Inr s"
proof -
  have "i \<in> set (order st)" using assms by (auto simp: wf_session_def)
  then obtain k where "root (Suc (card (merged_ids st))) (speakers st) i = Inr k"
    using assms(1) by (auto simp: wf_session_def)
  from root_mono[OF this, of "Suc (length (order st))"] merged_ids_bound[of st]
  show ?thesis by (simp add: get_def del: root.simps)
qed

lemma getD:
  assumes "wf_session st" and "get st i = Inr s"
  shows "speakers st (session_speaker_id s) = Some s" and "merged_into s = None"
    and "speakers st i \<noteq> None" and "wf_speaker (session_speaker_id s) s"
    and "root (Suc (length (order st))) (speakers st) i = Inr (session_speaker_id s)"
proof -
  from assms(2) obtain k where k: "root (Suc (length (order st))) (speakers st) i = Inr k"
      and s: "s = the (speakers st k)"
    by (auto simp: get_def bindR_eq_Inr simp del: root.simps)
  from root_end[OF k] s have sk: "speakers st k = Some s" "merged_into s = None"
    by (auto simp: pointer_def)
  then have "wf_speaker k s" using assms(1) by (simp add: wf_session_def)
  then show "speakers st (session_speaker_id s) = Some s" "merged_into s = None"
      "wf_speaker (session_speaker_id s) s" "speakers st i \<noteq> None"
      "root (Suc (length (order st))) (speakers st) i = Inr (session_speaker_id s)"
    using sk root_known[OF k] k by (auto simp: wf_speaker_def simp del: root.simps)
qed

lemma get_active:
  assumes "wf_session st" and "speakers st i = Some s" and "merged_into s = None"
  shows "get st i = Inr s"
  using assms by (auto simp: get_def)

lemma get_unknown: "speakers st i = None \<Longrightarrow> get st i = Inl KeyError"
  by (simp add: get_def)

section \<open>How a session evolves\<close>

definition speaker_evolves :: "session_speaker \<Rightarrow> session_speaker \<Rightarrow> bool" where
  "speaker_evolves s s' \<longleftrightarrow>
     session_speaker_id s' = session_speaker_id s
     \<and> moves (speaker_machine s) (speaker_machine s')
     \<and> (merged_into s \<noteq> None \<longrightarrow> merged_into s' = merged_into s)"

definition evolves :: "session_state \<Rightarrow> session_state \<Rightarrow> bool" where
  "evolves st st' \<longleftrightarrow>
     (\<forall>i s. speakers st i = Some s \<longrightarrow> (\<exists>s'. speakers st' i = Some s' \<and> speaker_evolves s s'))
     \<and> (\<exists>xs. order st' = order st @ xs) \<and> ss_config st' = ss_config st
     \<and> (unattributed_id st \<noteq> None \<longrightarrow> unattributed_id st' = unattributed_id st)"

lemma moves_trans: "moves b c \<Longrightarrow> moves a b \<Longrightarrow> moves a c"
  by (induction rule: moves.induct) (auto intro: moves.intros)

lemma moves_run: "moves m m' \<Longrightarrow> machine_run m0 m \<Longrightarrow> machine_run m0 m'"
  by (induction rule: moves.induct) (auto intro: machine_run.moved)

lemma transition_moves: "transition m t why = Inr m' \<Longrightarrow> moves m m'"
  by (rule moves.move[OF moves.stay])

lemma speaker_evolves_refl [simp]: "speaker_evolves s s"
  by (simp add: speaker_evolves_def moves.stay)

lemma speaker_evolves_trans: "speaker_evolves a b \<Longrightarrow> speaker_evolves b c \<Longrightarrow> speaker_evolves a c"
  unfolding speaker_evolves_def using moves_trans by metis

lemma evolves_refl [simp]: "evolves st st"
  by (auto simp: evolves_def)

lemma evolves_trans: "evolves a b \<Longrightarrow> evolves b c \<Longrightarrow> evolves a c"
  unfolding evolves_def by (smt (verit) append_assoc speaker_evolves_trans)

text \<open>Fields that no rule of the invariant mentions may change freely.\<close>

definition same_speakers :: "session_state \<Rightarrow> session_state \<Rightarrow> bool" where
  "same_speakers st st' \<longleftrightarrow> speakers st' = speakers st \<and> order st' = order st
     \<and> ss_config st' = ss_config st \<and> unattributed_id st' = unattributed_id st"

lemma same_speakers_wf:
  "same_speakers st st' \<Longrightarrow> wf_session st \<Longrightarrow> wf_session st' \<and> evolves st st'"
  by (simp add: same_speakers_def wf_session_def evolves_def merged_ids_def active_ids_def
      session_limit_def)

text \<open>Putting back a speaker that evolved without being merged.\<close>

lemma put_wf:
  assumes wf: "wf_session st" and s: "speakers st (session_speaker_id s) = Some s"
    and ev: "speaker_evolves s s'" and ptr: "merged_into s' = merged_into s"
  shows "wf_session (put s' st) \<and> evolves st (put s' st)"
proof
  let ?i = "session_speaker_id s"
  have sp: "speakers (put s' st) = (speakers st)(?i \<mapsto> s')"
    using ev by (simp add: put_def speaker_evolves_def)
  have pt: "pointer (speakers (put s' st)) j = pointer (speakers st) j" for j
    using s ptr by (simp add: pointer_def sp)
  have same: "order (put s' st) = order st" "ss_config (put s' st) = ss_config st"
      "unattributed_id (put s' st) = unattributed_id st"
    by (simp_all add: put_def)
  have ids: "merged_ids (put s' st) = merged_ids st" "active_ids (put s' st) = active_ids st"
    by (simp_all add: merged_ids_def active_ids_def pt same)
  have roots: "root n (speakers (put s' st)) j = root n (speakers st) j" for n j
    by (rule root_cong) (rule pt)
  have "wf_speaker ?i s" using wf s by (simp add: wf_session_def)
  then have w': "wf_speaker ?i s'"
    using ev moves_run by (auto simp: wf_speaker_def speaker_evolves_def)
  have in_order: "?i \<in> set (order st)" using wf s by (auto simp: wf_session_def)
  have "dom (speakers (put s' st)) = set (order st)"
    using wf in_order by (auto simp: sp wf_session_def)
  moreover have "\<forall>j t. speakers (put s' st) j = Some t \<longrightarrow> wf_speaker j t"
    using wf w' by (simp add: sp wf_session_def)
  ultimately show "wf_session (put s' st)"
    using wf by (simp add: wf_session_def same ids roots session_limit_def del: root.simps)
  show "evolves st (put s' st)"
    using s ev by (auto simp: evolves_def sp same)
qed

text \<open>Registering a new speaker.\<close>

lemma register_wf:
  assumes wf: "wf_session st" and w: "wf_speaker (session_speaker_id s) s"
    and nm: "merged_into s = None" and reg: "register s st = Inr st'"
    and u: "u = unattributed_id st \<or> unattributed_id st = None \<and> u = Some (session_speaker_id s)"
    and bound: "int (length (active_ids st)) + 1
        \<le> max 0 (session_limit st) + (if u = None then 0 else 1)"
  shows "wf_session (st'\<lparr>unattributed_id := u\<rparr>) \<and> evolves st (st'\<lparr>unattributed_id := u\<rparr>)
    \<and> speakers st' = (speakers st)(session_speaker_id s \<mapsto> s)
    \<and> order st' = order st @ [session_speaker_id s] \<and> speakers st (session_speaker_id s) = None
    \<and> unattributed_id st' = unattributed_id st \<and> ss_config st' = ss_config st"
proof -
  let ?i = "session_speaker_id s"
  let ?st = "st'\<lparr>unattributed_id := u\<rparr>"
  have fresh: "speakers st ?i = None" and st': "st' = (put s st)\<lparr>order := order st @ [?i]\<rparr>"
    using reg by (auto simp: register_def split: if_splits)
  have sp: "speakers st' = (speakers st)(?i \<mapsto> s)" "order st' = order st @ [?i]"
      "ss_config st' = ss_config st"
    by (simp_all add: st' put_def)
  have out: "?i \<notin> set (order st)" and dist: "distinct (order st)"
    and dom: "dom (speakers st) = set (order st)"
    using wf fresh by (auto simp: wf_session_def)
  have pt: "pointer (speakers st') j = (if j = ?i then Some None else pointer (speakers st) j)" for j
    using nm by (simp add: sp(1) pointer_def)
  have merged: "merged_ids ?st = merged_ids st"
    using out by (auto simp: merged_ids_def pt sp(2))
  have active: "active_ids ?st = active_ids st @ [?i]"
  proof -
    have "filter (\<lambda>j. pointer (speakers st') j = Some None) (order st)
        = filter (\<lambda>j. pointer (speakers st) j = Some None) (order st)"
      using out by (intro filter_cong) (auto simp: pt)
    then show ?thesis by (simp add: active_ids_def sp(2) pt)
  qed
  have roots: "\<exists>k. root (Suc (card (merged_ids st))) (speakers st') j = Inr k"
    if "j \<in> set (order st @ [?i])" for j
  proof (cases "j = ?i")
    case True
    then show ?thesis using root_of_root[of "speakers st'" ?i] pt by (auto simp del: root.simps)
  next
    case False
    with that wf obtain k where "root (Suc (card (merged_ids st))) (speakers st) j = Inr k"
      by (auto simp: wf_session_def simp del: root.simps)
    then have "root (Suc (card (merged_ids st))) (speakers st') j = Inr k"
      by (rule root_extend[rotated]) (use fresh pt in auto)
    then show ?thesis by blast
  qed
  have "\<forall>j t. speakers st' j = Some t \<longrightarrow> wf_speaker j t"
    using wf w by (simp add: sp(1) wf_session_def)
  moreover have "\<forall>j. u = Some j \<longrightarrow> j \<in> set (order st @ [?i])"
    using u wf by (auto simp: wf_session_def)
  moreover have "dom (speakers st') = set (order st')" using dom by (auto simp: sp)
  ultimately have "wf_session ?st"
    unfolding wf_session_def merged active
    using dist out roots bound by (simp add: sp session_limit_def del: root.simps)
  moreover have "evolves st ?st"
    using fresh u by (auto simp: evolves_def sp)
  ultimately show ?thesis using fresh by (simp add: st' put_def)
qed

text \<open>Merging one root into another.\<close>

lemma put_merge_wf:
  assumes wf: "wf_session st"
    and s: "speakers st (session_speaker_id s) = Some s" "merged_into s = None"
    and t: "speakers st (session_speaker_id t) = Some t" "merged_into t = None"
    and ne: "session_speaker_id s \<noteq> session_speaker_id t"
    and s': "session_speaker_id s' = session_speaker_id s"
      "merged_into s' = Some (session_speaker_id t)"
      "moves (speaker_machine s) (speaker_machine s')"
    and t': "speaker_evolves t t'" "merged_into t' = None"
  shows "wf_session (put s' (put t' st)) \<and> evolves st (put s' (put t' st))"
proof -
  let ?i = "session_speaker_id s" and ?j = "session_speaker_id t"
  let ?st = "put s' (put t' st)"
  have tid: "session_speaker_id t' = ?j" using t' by (simp add: speaker_evolves_def)
  have sp: "speakers ?st = (speakers st)(?j \<mapsto> t', ?i \<mapsto> s')" "order ?st = order st"
      "ss_config ?st = ss_config st" "unattributed_id ?st = unattributed_id st"
    using s' tid by (simp_all add: put_def)
  have pt: "pointer (speakers ?st) k = (if k = ?i then Some (Some ?j) else pointer (speakers st) k)"
    for k using s' t t' by (simp add: sp(1) pointer_def)
  have pi: "pointer (speakers st) ?i = Some None" "pointer (speakers st) ?j = Some None"
    using s t by (simp_all add: pointer_def)
  have oi: "?i \<in> set (order st)" "?j \<in> set (order st)"
    using wf_session_speaker(2)[OF wf] s t by blast+
  have "merged_ids ?st = insert ?i (merged_ids st)"
    using oi by (auto simp: merged_ids_def sp(2) pt)
  moreover have "?i \<notin> merged_ids st" "finite (merged_ids st)"
    using pi by (simp_all add: merged_ids_def)
  ultimately have card: "card (merged_ids ?st) = Suc (card (merged_ids st))" by simp
  have roots: "\<exists>k'. root (Suc (card (merged_ids ?st))) (speakers ?st) k = Inr k'"
    if "k \<in> set (order st)" for k
  proof -
    from that wf obtain r where "root (Suc (card (merged_ids st))) (speakers st) k = Inr r"
      by (auto simp: wf_session_def simp del: root.simps)
    from root_merge[OF pi ne pt this] show ?thesis unfolding card by (auto simp del: root.simps)
  qed
  have "length (active_ids ?st) \<le> length (active_ids st)"
  proof -
    have "length (filter P xs) \<le> length (filter Q xs)" if "\<And>x. P x \<Longrightarrow> Q x" for P Q and xs :: "string list"
      using that by (induction xs) (auto simp: le_SucI)
    note shorter = this
    show ?thesis unfolding active_ids_def sp(2) by (rule shorter) (use pt in \<open>auto split: if_splits\<close>)
  qed
  then have bound: "int (length (active_ids ?st))
      \<le> max 0 (session_limit st) + (if unattributed_id st = None then 0 else 1)"
    using wf by (auto simp: wf_session_def)
  have w: "wf_speaker ?i s'" "wf_speaker ?j t'"
    using wf_session_speaker(3)[OF wf s(1)] wf_session_speaker(3)[OF wf t(1)] s' t' tid moves_run
    by (auto simp: wf_speaker_def speaker_evolves_def)
  have "\<forall>k x. speakers ?st k = Some x \<longrightarrow> wf_speaker k x"
    using wf w by (simp add: sp(1) wf_session_def)
  moreover have "dom (speakers ?st) = set (order ?st)"
    using wf oi by (auto simp: sp wf_session_def)
  ultimately have "wf_session ?st"
    using wf roots bound unfolding wf_session_def sp(2,4) session_limit_def sp(3)
    by (simp del: root.simps)
  moreover have "speaker_evolves s s'" using s s' by (simp add: speaker_evolves_def)
  then have "evolves st ?st" using s t t' ne by (auto simp: evolves_def sp)
  ultimately show ?thesis ..
qed

section \<open>Every operation keeps the invariant\<close>

lemma wf_new_speaker:
  "machine_run m0 m \<Longrightarrow> wf_speaker i (new_session_speaker i m l c)"
  "merged_into (new_session_speaker i m l c) = None"
  "session_speaker_id (new_session_speaker i m l c) = i"
  "speaker_machine (new_session_speaker i m l c) = m"
  by (auto simp: wf_speaker_def new_session_speaker_def)

lemma register_admitted:
  assumes wf: "wf_session st" and same: "same_speakers st st1"
    and lim: "active_speaker_count st < session_limit st"
    and run: "machine_run m0 m" and reg: "register (new_session_speaker f m l c) st1 = Inr st'"
  shows "wf_session st' \<and> evolves st st' \<and> speakers st f = None
    \<and> speakers st' = (speakers st)(f \<mapsto> new_session_speaker f m l c)"
proof -
  let ?s = "new_session_speaker f m l c"
  have st1: "wf_session st1" "evolves st st1" using same_speakers_wf[OF same wf] by simp_all
  have bound: "int (length (active_ids st1)) + 1
      \<le> max 0 (session_limit st1) + (if unattributed_id st1 = None then 0 else 1)"
    using lim same
    by (simp add: active_speaker_count_eq active_ids_def session_limit_def same_speakers_def)
  have w: "wf_speaker (session_speaker_id ?s) ?s" "merged_into ?s = None"
    using run by (auto simp: wf_speaker_def new_session_speaker_def)
  note reg = register_wf[OF st1(1) w reg disjI1[OF refl] bound]
  then have "st'\<lparr>unattributed_id := unattributed_id st1\<rparr> = st'" by simp
  note reg[unfolded this]
  with same evolves_trans[OF st1(2)] show ?thesis
    by (auto simp: same_speakers_def new_session_speaker_def)
qed

lemma create_session_speaker_wf:
  assumes wf: "wf_session st" and ok: "create_session_speaker f c l st = Inr (st', s)"
  shows "wf_session st' \<and> evolves st st' \<and> session_speaker_id s = f \<and> speakers st f = None
    \<and> speakers st' = (speakers st)(f \<mapsto> s) \<and> merged_into s = None
    \<and> speaker_state s = SESSION_ANONYMOUS \<and> speaker_cluster s = c"
proof -
  let ?st = "st\<lparr>label_counter := label_counter st + 1\<rparr>"
  let ?l = "or_else l (numbered_label (label_counter st + 1))"
  from ok obtain m where m: "mk_machine SESSION_ANONYMOUS = Inr m"
    and lim: "active_speaker_count st < session_limit st"
    and s: "s = new_session_speaker f m ?l c"
    and reg: "register (new_session_speaker f m ?l c) ?st = Inr st'"
    by (auto simp: create_session_speaker_def Let_def bindR_eq_Inr split: if_splits)
  have "same_speakers st ?st" by (simp add: same_speakers_def)
  from register_admitted[OF wf this lim machine_run.created[OF m] reg] m show ?thesis
    by (simp add: s mk_machine_eq_Inr new_session_speaker_def)
qed

lemma create_temporary_speaker_wf:
  assumes wf: "wf_session st" and ok: "create_temporary_speaker f st = Inr (st', s)"
  shows "wf_session st' \<and> evolves st st' \<and> session_speaker_id s = f \<and> speakers st f = None
    \<and> speakers st' = (speakers st)(f \<mapsto> s) \<and> merged_into s = None
    \<and> speaker_state s = PROVISIONAL"
proof -
  let ?st = "st\<lparr>temporary_counter := temporary_counter st + 1\<rparr>"
  let ?l = "temporary_label (temporary_counter st + 1)"
  from ok obtain m where m: "mk_machine PROVISIONAL = Inr m"
    and lim: "active_speaker_count st < session_limit st"
    and s: "s = new_session_speaker f m ?l None"
    and reg: "register (new_session_speaker f m ?l None) ?st = Inr st'"
    by (auto simp: create_temporary_speaker_def can_admit_speaker_def Let_def bindR_eq_Inr
        split: if_splits)
  have "same_speakers st ?st" by (simp add: same_speakers_def)
  from register_admitted[OF wf this lim machine_run.created[OF m] reg] m show ?thesis
    by (simp add: s mk_machine_eq_Inr new_session_speaker_def)
qed

lemma unattributed_speaker_wf:
  assumes wf: "wf_session st" and ok: "unattributed_speaker f st = Inr (st', s)"
  shows "wf_session st' \<and> evolves st st' \<and> unattributed_id st' = Some (session_speaker_id s)
    \<and> speakers st' (session_speaker_id s) = Some s"
proof (cases "unattributed_id st")
  case (Some i)
  then show ?thesis
    using ok wf wf_session_speaker(1)[OF wf]
    by (auto simp: unattributed_speaker_def split: option.splits)
next
  case None
  from ok None obtain m m' st1 where m: "mk_machine PROVISIONAL = Inr m"
    and m': "transition m UNKNOWN ''insufficient_evidence'' = Inr m'"
    and s: "s = new_session_speaker f m' UNATTRIBUTED_LABEL None"
    and reg: "register s st = Inr st1"
    and st': "st' = st1\<lparr>unattributed_id := Some (session_speaker_id s)\<rparr>"
    by (auto simp: unattributed_speaker_def Let_def bindR_eq_Inr)
  have run: "machine_run PROVISIONAL m'"
    by (rule machine_run.moved[OF machine_run.created[OF m] m'])
  have "wf_session (st1\<lparr>unattributed_id := Some (session_speaker_id s)\<rparr>)
      \<and> evolves st (st1\<lparr>unattributed_id := Some (session_speaker_id s)\<rparr>)
    \<and> speakers st1 = (speakers st)(session_speaker_id s \<mapsto> s)
    \<and> order st1 = order st @ [session_speaker_id s] \<and> speakers st (session_speaker_id s) = None
    \<and> unattributed_id st1 = unattributed_id st \<and> ss_config st1 = ss_config st"
  proof (rule register_wf[OF wf _ _ reg])
    show "int (length (active_ids st)) + 1 \<le> max 0 (session_limit st)
        + (if Some (session_speaker_id s) = None then 0 else 1)"
      using wf None by (simp add: wf_session_def)
  qed (use wf_new_speaker run None in \<open>auto simp: s\<close>)
  then show ?thesis by (simp add: st')
qed

lemma learn_wf:
  assumes wf: "wf_session st" and s: "speakers st (session_speaker_id s) = Some s"
    and ok: "learn s e st = Inr (st', u)"
  shows "wf_session st' \<and> evolves st st'"
proof -
  from ok obtain s' where "st' = put s' st" "speaker_machine s' = speaker_machine s"
      "session_speaker_id s' = session_speaker_id s" "merged_into s' = merged_into s"
    by (auto simp: learn_def bindR_eq_Inr split: option.splits)
  with put_wf[OF wf s, of s'] show ?thesis by (simp add: speaker_evolves_def moves.stay)
qed

lemma update_prototype_wf:
  assumes "wf_session st" and "update_prototype i e lm q st = Inr (st', u)"
  shows "wf_session st' \<and> evolves st st'"
proof -
  from assms(2) obtain s where s: "get st i = Inr s" and "st' = st \<or> learn s e st = Inr (st', u)"
    by (auto simp: update_prototype_def bindR_eq_Inr split: if_splits)
  with learn_wf[OF assms(1) getD(1)[OF assms(1) s]] assms(1) show ?thesis by auto
qed

lemma buffer_provisional_embedding_wf:
  assumes "wf_session st" and "buffer_provisional_embedding i e st = Inr (st', u)"
  shows "wf_session st' \<and> evolves st st'"
proof -
  from assms(2) obtain s where s: "get st i = Inr s" and "st' = st \<or> learn s e st = Inr (st', u)"
    by (auto simp: buffer_provisional_embedding_def bindR_eq_Inr split: if_splits)
  with learn_wf[OF assms(1) getD(1)[OF assms(1) s]] assms(1) show ?thesis by auto
qed

lemma add_cannot_link_wf:
  assumes wf: "wf_session st" and ok: "add_cannot_link i j st = Inr st'"
  shows "wf_session st' \<and> evolves st st'"
proof -
  from ok obtain a b where a: "get st i = Inr a" and b: "get st j = Inr b"
    by (auto simp: add_cannot_link_def bindR_eq_Inr)
  have st': "st' = (if session_speaker_id a = session_speaker_id b then st
      else put (b\<lparr>cannot_link := insert (session_speaker_id a) (cannot_link b)\<rparr>)
             (put (a\<lparr>cannot_link := insert (session_speaker_id b) (cannot_link a)\<rparr>) st))"
    using ok a b by (simp add: add_cannot_link_def split: if_split_asm)
  show ?thesis
  proof (cases "session_speaker_id a = session_speaker_id b")
    case False
    let ?a = "a\<lparr>cannot_link := insert (session_speaker_id b) (cannot_link a)\<rparr>"
    let ?b = "b\<lparr>cannot_link := insert (session_speaker_id a) (cannot_link b)\<rparr>"
    have 1: "wf_session (put ?a st) \<and> evolves st (put ?a st)"
      by (rule put_wf[OF wf getD(1)[OF wf a]]) (simp_all add: speaker_evolves_def moves.stay)
    have "speakers (put ?a st) (session_speaker_id b) = Some b"
      using getD(1)[OF wf b] False by (simp add: put_def)
    then have "wf_session (put ?b (put ?a st)) \<and> evolves (put ?a st) (put ?b (put ?a st))"
      using 1 by (intro put_wf) (simp_all add: speaker_evolves_def moves.stay)
    then show ?thesis using 1 evolves_trans False by (auto simp: st')
  qed (use st' wf in simp)
qed

lemma merge_machine_moves: "merge_machine m why = Inr m' \<Longrightarrow> moves m m'"
  unfolding merge_machine_def
  by (auto simp: bindR_eq_Inr moves.stay intro: transition_moves moves.move split: if_splits)

lemma mergeD:
  assumes "merge i j why st = Inr (st', ch)"
  obtains s t m where "get st i = Inr s" and "get st j = Inr t"
    and "can_merge (session_speaker_id s) (session_speaker_id t) st = Inr True"
    and "merge_machine (speaker_machine s) why = Inr m"
    and "st' = (let st1 = put (s\<lparr>speaker_machine := m,
               merged_into := Some (session_speaker_id t), display_label := display_label t\<rparr>)
             (put (t\<lparr>speaker_prototype := (case speaker_prototype t of
                   None \<Rightarrow> speaker_prototype s | Some p \<Rightarrow> Some p),
               cannot_link := cannot_link t \<union> (cannot_link s - {session_speaker_id t})\<rparr>) st)
         in st1\<lparr>label_changes := label_changes st1 @ [ch]\<rparr>)"
proof -
  from assms obtain s t where s: "get st i = Inr s" and t: "get st j = Inr t"
    by (auto simp: merge_def elim!: bindR_InrE)
  with assms obtain ok where ok: "can_merge (session_speaker_id s) (session_speaker_id t) st = Inr ok"
    by (auto simp: merge_def elim!: bindR_InrE)
  with assms s t have "ok" by (auto simp: merge_def split: if_splits)
  with assms s t ok obtain m where m: "merge_machine (speaker_machine s) why = Inr m"
    by (auto simp: merge_def elim!: bindR_InrE)
  show thesis
    by (rule that[OF s t _ m]) (use assms s t ok \<open>ok\<close> m in \<open>auto simp: merge_def Let_def\<close>)
qed

lemma can_merge_ids:
  assumes "wf_session st" and "get st i = Inr s" and "get st j = Inr t"
  shows "can_merge (session_speaker_id s) (session_speaker_id t) st = can_merge i j st"
  using assms get_active[OF assms(1) getD(1,2)[OF assms(1,2)]]
    get_active[OF assms(1) getD(1,2)[OF assms(1,3)]]
  by (simp add: can_merge_def)

lemma merge_wf:
  assumes wf: "wf_session st" and ok: "merge i j why st = Inr (st', ch)"
  shows "wf_session st' \<and> evolves st st'"
  using ok
proof (rule mergeD)
  fix s t m
  assume s: "get st i = Inr s" and t: "get st j = Inr t"
    and cm: "can_merge (session_speaker_id s) (session_speaker_id t) st = Inr True"
    and m: "merge_machine (speaker_machine s) why = Inr m"
    and st': "st' = (let st1 = put (s\<lparr>speaker_machine := m,
               merged_into := Some (session_speaker_id t), display_label := display_label t\<rparr>)
             (put (t\<lparr>speaker_prototype := (case speaker_prototype t of
                   None \<Rightarrow> speaker_prototype s | Some p \<Rightarrow> Some p),
               cannot_link := cannot_link t \<union> (cannot_link s - {session_speaker_id t})\<rparr>) st)
         in st1\<lparr>label_changes := label_changes st1 @ [ch]\<rparr>)"
  have ne: "session_speaker_id s \<noteq> session_speaker_id t"
    using cm s t can_merge_ids[OF wf s t] by (simp add: can_merge_def)
  let ?s = "s\<lparr>speaker_machine := m, merged_into := Some (session_speaker_id t),
      display_label := display_label t\<rparr>"
  let ?t = "t\<lparr>speaker_prototype := (case speaker_prototype t of
                   None \<Rightarrow> speaker_prototype s | Some p \<Rightarrow> Some p),
               cannot_link := cannot_link t \<union> (cannot_link s - {session_speaker_id t})\<rparr>"
  have 1: "wf_session (put ?s (put ?t st)) \<and> evolves st (put ?s (put ?t st))"
    by (rule put_merge_wf[OF wf getD(1,2)[OF wf s] getD(1,2)[OF wf t] ne])
      (use merge_machine_moves[OF m] getD(2)[OF wf t] in
        \<open>simp_all add: speaker_evolves_def moves.stay\<close>)
  have "same_speakers (put ?s (put ?t st)) st'"
    by (simp add: st' Let_def same_speakers_def)
  from same_speakers_wf[OF this] 1 show ?thesis using evolves_trans by blast
qed

lemma relabel_wf:
  assumes wf: "wf_session st" and s: "speakers st (session_speaker_id s0) = Some s0"
    and ev: "speaker_evolves s0 s" and ptr: "merged_into s = merged_into s0"
    and ok: "st' = fst (relabel s l why st)"
  shows "wf_session st' \<and> evolves st st'"
proof -
  have 1: "wf_session (put (s\<lparr>display_label := l\<rparr>) st) \<and> evolves st (put (s\<lparr>display_label := l\<rparr>) st)"
    by (rule put_wf[OF wf s]) (use ev ptr in \<open>simp_all add: speaker_evolves_def\<close>)
  have "same_speakers (put (s\<lparr>display_label := l\<rparr>) st) st'"
    using ok by (auto simp: relabel_def Let_def same_speakers_def)
  from same_speakers_wf[OF this] 1 show ?thesis using evolves_trans by blast
qed

end
