(* ===== verification/SessionRuns.thy ===== *)
theory SessionRuns
  imports SessionInvariant
begin

text \<open>
  Runs of a session: every sequence of operations of \<open>SessionSpeakerState\<close>, the invariant along
  it, and the properties of its operations.
\<close>

lemma promote_provisional_wf:
  assumes wf: "wf_session st" and ok: "promote_provisional i why l st = Inr (st', ch)"
  shows "wf_session st' \<and> evolves st st'"
proof -
  from ok obtain s where s: "get st i = Inr s" by (auto simp: promote_provisional_def bindR_eq_Inr)
  show ?thesis
  proof (cases "speaker_state s = PROVISIONAL")
    case False
    then show ?thesis using ok s wf by (simp add: promote_provisional_def)
  next
    case True
    with ok s obtain m where m: "transition (speaker_machine s) SESSION_ANONYMOUS why = Inr m"
      by (auto simp: promote_provisional_def bindR_eq_Inr)
    define st1 where "st1 = (case l of None \<Rightarrow> st\<lparr>label_counter := label_counter st + 1\<rparr> | Some _ \<Rightarrow> st)"
    obtain lab where st': "st' = fst (relabel (s\<lparr>speaker_machine := m\<rparr>) lab why st1)"
      using ok s True m
      by (cases l) (auto simp: promote_provisional_def st1_def Let_def)
    have "same_speakers st st1" by (simp add: st1_def same_speakers_def split: option.split)
    note 1 = same_speakers_wf[OF this wf]
    have "speakers st1 = speakers st" by (simp add: st1_def split: option.split)
    with getD(1)[OF wf s] have "speakers st1 (session_speaker_id s) = Some s" by simp
    then have "wf_session st' \<and> evolves st1 st'"
      by (rule relabel_wf[OF conjunct1[OF 1] _ _ _ st'])
        (use transition_moves[OF m] in \<open>simp_all add: speaker_evolves_def\<close>)
    with 1 evolves_trans show ?thesis by blast
  qed
qed

lemma enrolled_machine_moves: "enrolled_machine m = Inr m' \<Longrightarrow> moves m m'"
  by (auto simp: enrolled_machine_def moves.stay intro: transition_moves split: if_splits)

lemma apply_voice_id_wf:
  assumes wf: "wf_session st" and ok: "apply_voice_id i d st = Inr (st', ch)"
  shows "wf_session st' \<and> evolves st st'"
proof -
  from ok obtain s where s: "get st i = Inr s" by (auto simp: apply_voice_id_def bindR_eq_Inr)
  note sp = getD(1)[OF wf s]
  consider (enrolled) m where "enrolled_machine (speaker_machine s) = Inr m"
      "st' = fst (relabel (s\<lparr>speaker_machine := m, registry_speaker_id := vid_registry_speaker_id d,
          speaker_name := vid_speaker_name d\<rparr>) (or_else (vid_speaker_name d) [])
          ''voice_id_accept'' st)"
    | (contradicted) m where "transition (speaker_machine s) AMBIGUOUS ''voice_id_contradiction'' = Inr m"
      "st' = put (s\<lparr>speaker_machine := m\<rparr>) st"
    | (kept) "st' = st"
    using ok s by (auto simp: apply_voice_id_def Let_def bindR_eq_Inr split: if_splits)
  then show ?thesis
  proof cases
    case enrolled
    then show ?thesis
      using enrolled_machine_moves by (intro relabel_wf[OF wf sp]) (auto simp: speaker_evolves_def)
  next
    case contradicted
    show ?thesis unfolding contradicted(2)
      by (rule put_wf[OF wf sp])
        (use transition_moves[OF contradicted(1)] in \<open>simp_all add: speaker_evolves_def\<close>)
  qed (use wf in simp)
qed

lemma finalize_one_wf:
  assumes wf: "wf_session st" and ok: "finalize_one i (st, us) = Inr (st', us')"
  shows "wf_session st' \<and> evolves st st'"
proof (cases "speakers st i")
  case None
  then show ?thesis using ok wf by (simp add: finalize_one_def)
next
  case (Some s)
  have sp: "speakers st (session_speaker_id s) = Some s"
    using wf_session_speaker(1)[OF wf Some] Some by simp
  consider (unknown) m where "transition (speaker_machine s) UNKNOWN ''insufficient_evidence'' = Inr m"
      "st' = put (s\<lparr>speaker_machine := m\<rparr>) st"
    | (promoted) ch where
      "promote_provisional (session_speaker_id s) ''separated_evidence_final'' None st = Inr (st', ch)"
    | (kept) "st' = st"
    using ok Some by (auto simp: finalize_one_def bindR_eq_Inr split: if_splits)
  then show ?thesis
  proof cases
    case unknown
    show ?thesis unfolding unknown(2)
      by (rule put_wf[OF wf sp])
        (use transition_moves[OF unknown(1)] in \<open>simp_all add: speaker_evolves_def\<close>)
  next
    case promoted
    then show ?thesis by (rule promote_provisional_wf[OF wf])
  qed (use wf in simp)
qed

lemma finalize_unresolved_wf:
  assumes wf: "wf_session st" and ok: "finalize_unresolved st = Inr (st', us)"
  shows "wf_session st' \<and> evolves st st'"
proof -
  let ?P = "\<lambda>acc. wf_session (fst acc) \<and> evolves st (fst acc)"
  have "?P (st', us)"
    using ok unfolding finalize_unresolved_def
  proof (rule foldR_invariant)
    fix i acc acc'
    assume P: "?P acc" and step: "finalize_one i acc = Inr acc'"
    then have "wf_session (fst acc') \<and> evolves (fst acc) (fst acc')"
      using finalize_one_wf[of "fst acc" i "snd acc" "fst acc'" "snd acc'"] by simp
    with P evolves_trans show "?P acc'" by blast
  qed (use wf in simp)
  then show ?thesis by simp
qed

section \<open>Runs\<close>

inductive session_step :: "session_state \<Rightarrow> session_state \<Rightarrow> bool" where
  create: "create_session_speaker f c l st = Inr (st', s) \<Longrightarrow> session_step st st'"
| temporary: "create_temporary_speaker f st = Inr (st', s) \<Longrightarrow> session_step st st'"
| unattributed: "unattributed_speaker f st = Inr (st', s) \<Longrightarrow> session_step st st'"
| update: "update_prototype i e lm q st = Inr (st', u) \<Longrightarrow> session_step st st'"
| buffer: "buffer_provisional_embedding i e st = Inr (st', u) \<Longrightarrow> session_step st st'"
| constrain: "add_cannot_link i j st = Inr st' \<Longrightarrow> session_step st st'"
| merge: "merge i j why st = Inr (st', ch) \<Longrightarrow> session_step st st'"
| promote: "promote_provisional i why l st = Inr (st', ch') \<Longrightarrow> session_step st st'"
| voice: "apply_voice_id i d st = Inr (st', ch') \<Longrightarrow> session_step st st'"
| finalize: "finalize_unresolved st = Inr (st', us) \<Longrightarrow> session_step st st'"
| drain: "drain_label_changes st = (st', lcs) \<Longrightarrow> session_step st st'"

inductive session_run :: "session_state \<Rightarrow> session_state \<Rightarrow> bool" where
  run_refl: "session_run st st"
| run_step: "session_run st0 st \<Longrightarrow> session_step st st' \<Longrightarrow> session_run st0 st'"

lemma session_step_wf:
  assumes "wf_session st" and "session_step st st'"
  shows "wf_session st' \<and> evolves st st'"
  using assms(2)
proof cases
  case create
  then show ?thesis using create_session_speaker_wf[OF assms(1)] by blast
next
  case temporary
  then show ?thesis using create_temporary_speaker_wf[OF assms(1)] by blast
next
  case unattributed
  then show ?thesis using unattributed_speaker_wf[OF assms(1)] by blast
next
  case update
  then show ?thesis by (rule update_prototype_wf[OF assms(1)])
next
  case buffer
  then show ?thesis by (rule buffer_provisional_embedding_wf[OF assms(1)])
next
  case constrain
  then show ?thesis by (rule add_cannot_link_wf[OF assms(1)])
next
  case merge
  then show ?thesis by (rule merge_wf[OF assms(1)])
next
  case promote
  then show ?thesis by (rule promote_provisional_wf[OF assms(1)])
next
  case voice
  then show ?thesis by (rule apply_voice_id_wf[OF assms(1)])
next
  case finalize
  then show ?thesis by (rule finalize_unresolved_wf[OF assms(1)])
next
  case (drain lcs)
  then have "same_speakers st st'" by (auto simp: drain_label_changes_def same_speakers_def)
  from same_speakers_wf[OF this assms(1)] show ?thesis .
qed

lemma session_run_wf:
  "session_run st st' \<Longrightarrow> wf_session st \<Longrightarrow> wf_session st' \<and> evolves st st'"
proof (induction rule: session_run.induct)
  case (run_step st0 st st')
  then show ?case using session_step_wf evolves_trans by blast
qed simp

lemma session_run_reachable: "session_run (new_session sid c v) st \<Longrightarrow> wf_session st"
  using session_run_wf by simp

text \<open>
  C1: The session invariant. In every state a session can reach, following merges from any of
  its identifiers ends at an active speaker stored under its own identifier, identifiers are
  distinct, each speaker's state has an auditable history, and the active speakers are at most
  the session limit plus the one unattributed sink.
\<close>

theorem session_invariant:
  assumes "session_run (new_session sid c v) st"
  shows "(\<forall>i. speakers st i \<noteq> None \<longrightarrow> (\<exists>s. get st i = Inr s \<and> s \<in> set (active st)
          \<and> speakers st (session_speaker_id s) = Some s))
    \<and> distinct (order st) \<and> dom (speakers st) = set (order st)
    \<and> (\<forall>i s. speakers st i = Some s \<longrightarrow> session_speaker_id s = i \<and> (\<exists>m0. machine_run m0 (speaker_machine s)))
    \<and> active_speaker_count st
        \<le> max 0 (session_limit st) + (if unattributed_id st = None then 0 else 1)"
proof -
  note wf = session_run_reachable[OF assms]
  have "\<exists>s. get st i = Inr s \<and> s \<in> set (active st) \<and> speakers st (session_speaker_id s) = Some s"
    if "speakers st i \<noteq> None" for i
    using get_total[OF wf that] getD[OF wf] set_active[OF wf] by blast
  moreover have "distinct (order st)" "dom (speakers st) = set (order st)"
    "active_speaker_count st
        \<le> max 0 (session_limit st) + (if unattributed_id st = None then 0 else 1)"
    using wf by (simp_all add: wf_session_def active_speaker_count_eq)
  ultimately show ?thesis using wf_session_speaker(1,3)[OF wf] by blast
qed

lemma example_session:
  "\<exists>st s. create_session_speaker ''a'' (Some ''c0'') None (new_session ''s'' default_config ''m'')
     = Inr (st, s) \<and> speakers st ''a'' \<noteq> None \<and> unattributed_id st = None \<and> active_speaker_count st = 1"
  by (simp add: create_session_speaker_def new_session_def default_config_def session_limit_def
      active_speaker_count_def active_def map_filter_simps mk_machine_def INITIAL_STATES_def Let_def
      register_def put_def new_session_speaker_def)

theorem session_invariant_witness:
  "\<exists>st s. get st ''a'' = Inr s \<and> s \<in> set (active st)"
proof -
  obtain st s where c: "create_session_speaker ''a'' (Some ''c0'') None
      (new_session ''s'' default_config ''m'') = Inr (st, s)" and a: "speakers st ''a'' \<noteq> None"
    using example_session by blast
  have "session_run (new_session ''s'' default_config ''m'') st"
    by (rule run_step[OF run_refl create[OF c]])
  from session_invariant[OF this] a show ?thesis by blast
qed

text \<open>
  Identifiers are never reused and never lost: along any run every speaker keeps its
  identifier, its state only makes allowed moves, once merged it stays merged into the same
  speaker, and later speakers are appended to the order.
\<close>

theorem identities_persist:
  assumes "session_run (new_session sid c v) st" and "session_run st st'" and "speakers st i = Some s"
  shows "\<exists>s'. speakers st' i = Some s' \<and> session_speaker_id s' = i
    \<and> moves (speaker_machine s) (speaker_machine s')
    \<and> (merged_into s \<noteq> None \<longrightarrow> merged_into s' = merged_into s)
    \<and> (\<exists>later. order st' = order st @ later)"
proof -
  note wf = session_run_reachable[OF assms(1)]
  have "evolves st st'" using session_run_wf[OF assms(2) wf] by simp
  then show ?thesis
    using assms(3) wf_session_speaker(1)[OF wf assms(3)]
    unfolding evolves_def speaker_evolves_def by metis
qed

theorem identities_persist_witness:
  "\<exists>(st' :: session_state) s'. speakers st' ''a'' = Some s' \<and> session_speaker_id s' = ''a''"
proof -
  obtain st s where c: "create_session_speaker ''a'' (Some ''c0'') None
      (new_session ''s'' default_config ''m'') = Inr (st, s)" and a: "speakers st ''a'' \<noteq> None"
    using example_session by blast
  then obtain x where x: "speakers st ''a'' = Some x" by blast
  have "session_run (new_session ''s'' default_config ''m'') st"
    by (rule run_step[OF run_refl create[OF c]])
  from identities_persist[OF this run_refl x] show ?thesis
    by blast
qed

section \<open>Merging\<close>

text \<open>
  A merge folds the first speaker into the second: afterwards both identifiers resolve to
  the second speaker, which keeps its state and inherits the prototype it lacked and the first
  one's constraints; a person already enrolled stays enrolled; the label change is queued. It is
  refused exactly when the two are the same or the first must not be linked with the second.
\<close>

theorem merge_redirects:
  assumes "session_run (new_session sid c v) st"
    and "get st i = Inr s" and "get st j = Inr t"
  shows "if session_speaker_id s = session_speaker_id t \<or> session_speaker_id t \<in> cannot_link s
    then merge i j why st = Inl (Sastt InvalidStateTransitionError)
    else \<exists>st' ch t'. merge i j why st = Inr (st', ch) \<and> get st' i = Inr t' \<and> get st' j = Inr t'
      \<and> session_speaker_id t' = session_speaker_id t \<and> speaker_machine t' = speaker_machine t
      \<and> cannot_link s - {session_speaker_id t} \<subseteq> cannot_link t'
      \<and> (speaker_prototype t' = None \<longrightarrow> speaker_prototype s = None)
      \<and> label_changes st' = label_changes st @ [ch]"
proof -
  note wf = session_run_reachable[OF assms(1)]
  note s = getD[OF wf assms(2)] and t = getD[OF wf assms(3)]
  have cm: "can_merge (session_speaker_id s) (session_speaker_id t) st
      = Inr (session_speaker_id s \<noteq> session_speaker_id t \<and> session_speaker_id t \<notin> cannot_link s)"
    using can_merge_ids[OF wf assms(2,3)] assms(2,3) by (simp add: can_merge_def)
  show ?thesis
  proof (cases "session_speaker_id s = session_speaker_id t \<or> session_speaker_id t \<in> cannot_link s")
    case True
    then show ?thesis using assms(2,3) cm by (auto simp: merge_def)
  next
    case False
    obtain m where m: "merge_machine (speaker_machine s) why = Inr m"
      by (cases "m_state (speaker_machine s)")
        (auto simp: merge_machine_def transition_def can_transition_def Let_def)
    let ?t = "t\<lparr>speaker_prototype := (case speaker_prototype t of
                   None \<Rightarrow> speaker_prototype s | Some p \<Rightarrow> Some p),
               cannot_link := cannot_link t \<union> (cannot_link s - {session_speaker_id t})\<rparr>"
    let ?s = "s\<lparr>speaker_machine := m, merged_into := Some (session_speaker_id t),
        display_label := display_label t\<rparr>"
    let ?ch = "\<lparr>lc_speaker = session_speaker_id s, lc_previous = display_label s,
        lc_new = display_label t, lc_reason = why\<rparr>"
    let ?st = "(put ?s (put ?t st))\<lparr>label_changes := label_changes st @ [?ch]\<rparr>"
    have ok: "merge i j why st = Inr (?st, ?ch)"
      using assms(2,3) cm False m by (simp add: merge_def Let_def put_def)
    have wf': "wf_session ?st" using merge_wf[OF wf ok] by simp
    have sp: "speakers ?st = (speakers st)(session_speaker_id t \<mapsto> ?t, session_speaker_id s \<mapsto> ?s)"
      by (simp add: put_def)
    have pt: "pointer (speakers ?st) k = (if k = session_speaker_id s
        then Some (Some (session_speaker_id t)) else pointer (speakers st) k)" for k
      using t(1,2) by (simp add: sp pointer_def)
    have pi: "pointer (speakers st) (session_speaker_id s) = Some None"
        "pointer (speakers st) (session_speaker_id t) = Some None"
      using s(1,2) t(1,2) by (simp_all add: pointer_def)
    have root_t: "root n (speakers ?st) k = Inr r \<Longrightarrow> r \<noteq> session_speaker_id s" for n k r
      using root_end[of n "speakers ?st" k r] pt by auto
    have st_t: "speakers ?st (session_speaker_id t) = Some ?t"
    proof -
      have "session_speaker_id t \<noteq> session_speaker_id s" using False by auto
      then show ?thesis by (simp only: sp fun_upd_apply if_False if_True refl)
    qed
    have resolve: "get ?st k = Inr ?t"
      if "root (Suc (length (order st))) (speakers st) k
          \<in> {Inr (session_speaker_id s), Inr (session_speaker_id t)}" for k
    proof -
      from that False have "root (Suc (Suc (length (order st)))) (speakers ?st) k
          = Inr (session_speaker_id t)"
        using root_merge[OF pi _ pt, of "Suc (length (order st))" k] by auto
      moreover have known: "speakers ?st k \<noteq> None"
        using root_known[OF calculation] .
      then obtain x where x: "get ?st k = Inr x" using get_total[OF wf'] by blast
      from getD(5)[OF wf' x] have "root (Suc (length (order ?st))) (speakers ?st) k
          = Inr (session_speaker_id x)" .
      from root_mono[OF this, of "Suc (Suc (length (order st)))"]
      have "root (Suc (Suc (length (order st)))) (speakers ?st) k = Inr (session_speaker_id x)"
        by (simp add: put_def del: root.simps)
      ultimately have "session_speaker_id x = session_speaker_id t" by (simp del: root.simps)
      with getD(1)[OF wf' x] have "speakers ?st (session_speaker_id t) = Some x" by (simp only:)
      with st_t have "Some x = Some ?t" by (simp only:)
      then have "x = ?t" by (simp only: option.inject)
      with x show ?thesis by (simp only:)
    qed
    from resolve[of i] resolve[of j] s(5) t(5) have "get ?st i = Inr ?t" "get ?st j = Inr ?t"
      by (simp_all del: root.simps)
    moreover have "label_changes ?st = label_changes st @ [?ch]" by simp
    ultimately show ?thesis
      using ok False by (auto intro!: exI[of _ ?st] exI[of _ ?ch] exI[of _ ?t] split: option.splits)
  qed
qed

text \<open>Three session speakers, as three calls of \<open>create_session_speaker\<close> make them.\<close>

definition anon :: "string \<Rightarrow> nat \<Rightarrow> session_speaker" where
  "anon i n = new_session_speaker i \<lparr>m_state = SESSION_ANONYMOUS, m_history = []\<rparr>
     (numbered_label n) (Some i)"

definition trio :: session_state where
  "trio = (new_session ''s'' default_config ''m'')\<lparr>
     speakers := [''a'' \<mapsto> anon ''a'' 1, ''b'' \<mapsto> anon ''b'' 2, ''c'' \<mapsto> anon ''c'' 3],
     order := [''a'', ''b'', ''c''], label_counter := 3\<rparr>"

lemma trio_run: "session_run (new_session ''s'' default_config ''m'') trio"
proof -
  let ?s0 = "new_session ''s'' default_config ''m''"
  let ?s1 = "?s0\<lparr>speakers := [''a'' \<mapsto> anon ''a'' 1], order := [''a''], label_counter := 1\<rparr>"
  let ?s2 = "?s0\<lparr>speakers := [''a'' \<mapsto> anon ''a'' 1, ''b'' \<mapsto> anon ''b'' 2],
      order := [''a'', ''b''], label_counter := 2\<rparr>"
  have lim: "max_session_speakers (product default_config) = 5" by (simp add: default_config_def)
  note defs = create_session_speaker_def new_session_def session_limit_def lim
      active_speaker_count_def active_def map_filter_simps mk_machine_def INITIAL_STATES_def Let_def
      register_def put_def new_session_speaker_def anon_def numeral_2_eq_2 numeral_3_eq_3
  have 1: "create_session_speaker ''a'' (Some ''a'') None ?s0 = Inr (?s1, anon ''a'' 1)"
    by (simp add: defs)
  have 2: "create_session_speaker ''b'' (Some ''b'') None ?s1 = Inr (?s2, anon ''b'' 2)"
    by (simp add: defs)
  have 3: "create_session_speaker ''c'' (Some ''c'') None ?s2 = Inr (trio, anon ''c'' 3)"
    by (simp add: defs trio_def)
  show ?thesis
    by (rule run_step[OF run_step[OF run_step[OF run_refl create[OF 1]] create[OF 2]] create[OF 3]])
qed

lemma trio_get:
  "get trio ''a'' = Inr (anon ''a'' 1)" "get trio ''b'' = Inr (anon ''b'' 2)"
  "get trio ''c'' = Inr (anon ''c'' 3)"
  by (simp_all add: get_def trio_def anon_def new_session_speaker_def)

theorem merge_redirects_witness:
  "\<exists>st' t'. get st' ''a'' = Inr t' \<and> get st' ''b'' = Inr t' \<and> session_speaker_id t' = ''b''"
  using merge_redirects[OF trio_run trio_get(1,2), of "''same''"]
  by (simp add: anon_def new_session_speaker_def) blast

text \<open>A speaker not involved in a merge is found as before.\<close>

lemma merge_keeps_others:
  assumes wf: "wf_session st" and i: "get st i = Inr s" and j: "get st j = Inr t"
    and ok: "merge i j why st = Inr (st', ch)" and k: "get st k = Inr x"
    and ne: "session_speaker_id x \<noteq> session_speaker_id s" "session_speaker_id x \<noteq> session_speaker_id t"
  shows "get st' k = Inr x"
  using ok
proof (rule mergeD)
  fix s1 t1 m
  assume "get st i = Inr s1" "get st j = Inr t1"
    and cm: "can_merge (session_speaker_id s1) (session_speaker_id t1) st = Inr True"
    and st': "st' = (let st1 = put (s1\<lparr>speaker_machine := m,
               merged_into := Some (session_speaker_id t1), display_label := display_label t1\<rparr>)
             (put (t1\<lparr>speaker_prototype := (case speaker_prototype t1 of
                   None \<Rightarrow> speaker_prototype s1 | Some p \<Rightarrow> Some p),
               cannot_link := cannot_link t1 \<union> (cannot_link s1 - {session_speaker_id t1})\<rparr>) st)
         in st1\<lparr>label_changes := label_changes st1 @ [ch]\<rparr>)"
  then have [simp]: "s1 = s" "t1 = t" using i j by simp_all
  have st_ne: "session_speaker_id s \<noteq> session_speaker_id t"
    using cm can_merge_ids[OF wf i j] i j by (simp add: can_merge_def)
  have len: "length (order st') = length (order st)" by (simp add: st' Let_def put_def)
  have sx: "speakers st' (session_speaker_id x) = Some x"
    using ne getD(1)[OF wf k] by (simp add: st' Let_def put_def)
  have pt: "pointer (speakers st') y = (if y = session_speaker_id s
      then Some (Some (session_speaker_id t)) else pointer (speakers st) y)" for y
    using getD(1,2)[OF wf j] by (simp add: st' Let_def put_def pointer_def)
  have pi: "pointer (speakers st) (session_speaker_id s) = Some None"
      "pointer (speakers st) (session_speaker_id t) = Some None"
    using getD(1,2)[OF wf i] getD(1,2)[OF wf j] by (simp_all add: pointer_def)
  from root_merge[OF pi st_ne pt getD(5)[OF wf k]] ne
  have r: "root (Suc (Suc (length (order st)))) (speakers st') k = Inr (session_speaker_id x)"
    by (simp del: root.simps)
  have wf': "wf_session st'" using merge_wf[OF wf ok] by simp
  from get_total[OF wf' root_known[OF r]] obtain y where y: "get st' k = Inr y" by blast
  from root_mono[OF getD(5)[OF wf' y], of "Suc (Suc (length (order st)))"] r len
  have "session_speaker_id y = session_speaker_id x" by (simp del: root.simps)
  with getD(1)[OF wf' y] have "speakers st' (session_speaker_id x) = Some y" by (simp only:)
  with sx y show ?thesis by (simp only: option.inject)
qed

text \<open>
  A constraint inherited through a merge is seen from one side only. When \<open>s\<close>, which must not
  be linked with \<open>x\<close>, is merged into \<open>t\<close>, then merging \<open>t\<close> into \<open>x\<close> is refused while merging \<open>x\<close> into \<open>t\<close>
  is allowed, so two people known to be different can still become one.
\<close>

theorem cannot_link_one_sided:
  assumes "session_run (new_session sid c v) st"
    and "get st i = Inr s" and "get st j = Inr t" and "get st k = Inr x"
    and "session_speaker_id x \<in> cannot_link s" and "session_speaker_id s \<in> cannot_link x"
    and "session_speaker_id t \<notin> cannot_link s" and "session_speaker_id t \<notin> cannot_link x"
    and "distinct [session_speaker_id s, session_speaker_id t, session_speaker_id x]"
    and "merge i j why st = Inr (st', ch)"
  shows "can_merge j k st' = Inr False \<and> can_merge k j st' = Inr True"
proof -
  note wf = session_run_reachable[OF assms(1)]
  have wf': "wf_session st'" using merge_wf[OF wf assms(10)] by simp
  from merge_redirects[OF assms(1-3), of why] assms(7,9,10)
  obtain t' where t': "get st' j = Inr t'" "session_speaker_id t' = session_speaker_id t"
      "cannot_link s - {session_speaker_id t} \<subseteq> cannot_link t'"
    by (auto split: if_splits)
  have k: "get st' k = Inr x"
    by (rule merge_keeps_others[OF wf assms(2,3,10,4)]) (use assms(9) in auto)
  show ?thesis
    using t' k assms(5,8,9) by (auto simp: can_merge_def)
qed

definition constrained_trio :: session_state where
  "constrained_trio = trio\<lparr>speakers := (speakers trio)(
     ''a'' \<mapsto> (anon ''a'' 1)\<lparr>cannot_link := {''c''}\<rparr>, ''c'' \<mapsto> (anon ''c'' 3)\<lparr>cannot_link := {''a''}\<rparr>)\<rparr>"

lemma constrained_trio_run:
  "session_run (new_session ''s'' default_config ''m'') constrained_trio"
proof (rule run_step[OF trio_run constrain])
  show "add_cannot_link ''a'' ''c'' trio = Inr constrained_trio"
    unfolding add_cannot_link_def trio_get bindR_Inr
    by (simp add: anon_def new_session_speaker_def put_def constrained_trio_def)
qed

lemma constrained_trio_get:
  "get constrained_trio ''a'' = Inr ((anon ''a'' 1)\<lparr>cannot_link := {''c''}\<rparr>)"
  "get constrained_trio ''b'' = Inr (anon ''b'' 2)"
  "get constrained_trio ''c'' = Inr ((anon ''c'' 3)\<lparr>cannot_link := {''a''}\<rparr>)"
  by (simp_all add: get_def constrained_trio_def trio_def anon_def new_session_speaker_def)

theorem cannot_link_one_sided_witness:
  "\<exists>st' ch. merge ''a'' ''b'' ''same'' constrained_trio = Inr (st', ch)
    \<and> can_merge ''b'' ''c'' st' = Inr False \<and> can_merge ''c'' ''b'' st' = Inr True"
proof -
  have "can_merge ''a'' ''b'' constrained_trio = Inr True"
    by (simp add: can_merge_def constrained_trio_get) (simp add: anon_def new_session_speaker_def)
  then obtain st' ch where m: "merge ''a'' ''b'' ''same'' constrained_trio = Inr (st', ch)"
    unfolding merge_def constrained_trio_get bindR_Inr
    by (simp add: anon_def new_session_speaker_def merge_machine_def transition_def
        can_transition_def Let_def)
  have "can_merge ''b'' ''c'' st' = Inr False \<and> can_merge ''c'' ''b'' st' = Inr True"
    by (rule cannot_link_one_sided[OF constrained_trio_run constrained_trio_get _ _ _ _ _ m])
      (simp_all add: anon_def new_session_speaker_def)
  with m show ?thesis by blast
qed

section \<open>Prototype updates\<close>

lemma learn_outcome:
  assumes "learn s e st = Inr (st', u)"
  shows "pu_accepted u \<and> (\<exists>p. speakers st' (session_speaker_id s) = Some p
    \<and> (case speaker_prototype s of
         None \<Rightarrow> from_embedding (session_speaker_id s) e = Inr (the (speaker_prototype p))
           \<and> prototype_history p = prototype_history s
       | Some old \<Rightarrow> updated_with old e = Inr (the (speaker_prototype p))
           \<and> prototype_history p = prototype_history s @ [old]))"
  using assms
  by (auto simp: learn_def bindR_eq_Inr accepted_update_def put_def split: option.splits)

text \<open>
  An update that is accepted passed every gate: the embedding is of the session's model and
  long enough, the speaker is not unknown or ambiguous, and a separated source also needs the
  feature flag, the quality gate and a margin of at least the calibrated threshold. The previous
  prototype is then kept in the history. An update that is not accepted changes nothing.
\<close>

theorem update_prototype_gates:
  assumes "update_prototype i e lm q st = Inr (st', u)"
  shows "if pu_accepted u then
      e_model_version e = ss_model_version st \<and> minimum_speech_ms st \<le> e_speech_duration_ms e
      \<and> (\<exists>s p. get st i = Inr s \<and> speaker_state s \<notin> {UNKNOWN, AMBIGUOUS}
          \<and> speakers st' (session_speaker_id s) = Some p
          \<and> prototype_history p = prototype_history s
              @ (case speaker_prototype s of None \<Rightarrow> [] | Some old \<Rightarrow> [old]))
      \<and> (e_origin e = Separated \<longrightarrow>
          update_from_separated_sources (speaker_embedding_cfg (ss_config st)) \<and> q
          \<and> (\<exists>m t. lm = Some m \<and> sl_ambiguous_margin (source_linking (ss_config st)) = Some t
               \<and> t \<le> m))
    else st' = st"
proof -
  from assms obtain s where s: "get st i = Inr s" by (auto simp: update_prototype_def bindR_eq_Inr)
  show ?thesis
  proof (cases "pu_accepted u")
    case True
    with assms s have l: "learn s e st = Inr (st', u)"
      and g: "e_model_version e = ss_model_version st" "minimum_speech_ms st \<le> e_speech_duration_ms e"
        "speaker_state s \<notin> {UNKNOWN, AMBIGUOUS}"
      and sep: "e_origin e = Separated \<Longrightarrow>
          update_from_separated_sources (speaker_embedding_cfg (ss_config st)) \<and> q
          \<and> (\<exists>m t. lm = Some m \<and> sl_ambiguous_margin (source_linking (ss_config st)) = Some t
               \<and> t \<le> m)"
      by (auto simp: update_prototype_def rejected_def not_less split: if_splits option.splits)
    from learn_outcome[OF l] obtain p where "speakers st' (session_speaker_id s) = Some p"
        "prototype_history p = prototype_history s
              @ (case speaker_prototype s of None \<Rightarrow> [] | Some old \<Rightarrow> [old])"
      by (auto split: option.splits)
    with True s g sep show ?thesis by auto
  next
    case False
    then have "st' = st"
      using assms s learn_outcome by (auto simp: update_prototype_def split: if_splits)
    with False show ?thesis by simp
  qed
qed

theorem update_prototype_gates_witness:
  "\<exists>st' u. update_prototype ''a'' (unit_x 1) None True trio = Inr (st', u) \<and> pu_accepted u
    \<and> minimum_speech_ms trio \<le> e_speech_duration_ms (unit_x 1)"
proof -
  have "minimum_speech_ms trio = 1500"
    by (simp add: minimum_speech_ms_def trio_def new_session_def default_config_def
        seconds_to_ms_def MS_PER_SECOND_def)
  moreover have "ss_model_version trio = ''m''" by (simp add: trio_def new_session_def)
  ultimately have "update_prototype ''a'' (unit_x 1) None True trio
      = learn (anon ''a'' 1) (unit_x 1) trio"
    unfolding update_prototype_def trio_get bindR_Inr
    by (simp add: unit_x_def anon_def new_session_speaker_def)
  moreover obtain st' u where "learn (anon ''a'' 1) (unit_x 1) trio = Inr (st', u)" "pu_accepted u"
    by (simp add: learn_def unit_x_def anon_def new_session_speaker_def from_embedding_def
        l2_normalize_def vscale_def vnorm_def dot_def accepted_update_def)
  ultimately have u: "update_prototype ''a'' (unit_x 1) None True trio = Inr (st', u)"
      "pu_accepted u" by simp_all
  with update_prototype_gates[OF u(1)] show ?thesis by auto
qed

section \<open>Finalization\<close>

lemma transition_to_unknown:
  "m_state m = PROVISIONAL \<Longrightarrow> \<exists>m'. transition m UNKNOWN why = Inr m' \<and> m_state m' = UNKNOWN"
  by (simp add: transition_def can_transition_def Let_def)

text \<open>One round settles its speaker and touches no other.\<close>

lemma finalize_one_outcome:
  assumes wf: "wf_session st" and s: "speakers st i = Some s" "merged_into s = None"
  shows "\<exists>st' us' s'. finalize_one i (st, us) = Inr (st', us') \<and> speakers st' i = Some s'
    \<and> merged_into s' = None \<and> (\<forall>j. j \<noteq> i \<longrightarrow> speakers st' j = speakers st j)
    \<and> (speaker_state s' = PROVISIONAL \<longrightarrow> speaker_prototype s' \<noteq> None
          \<and> \<not> sl_is_calibrated (source_linking (ss_config st)))
    \<and> (us' = us \<or> us' = us @ [i] \<and> speaker_state s' = UNKNOWN)"
proof -
  have sid: "session_speaker_id s = i" using wf_session_speaker(1)[OF wf s(1)] .
  show ?thesis
  proof (cases "speaker_state s = PROVISIONAL")
    case False
    then show ?thesis using s by (simp add: finalize_one_def)
  next
    case prov: True
    show ?thesis
    proof (cases "speaker_prototype s")
      case None
      from transition_to_unknown[OF prov] obtain m where
        "transition (speaker_machine s) UNKNOWN ''insufficient_evidence'' = Inr m" "m_state m = UNKNOWN"
        by blast
      then show ?thesis using s prov None sid by (simp add: finalize_one_def put_def)
    next
      case (Some p)
      show ?thesis
      proof (cases "sl_is_calibrated (source_linking (ss_config st))")
        case False
        then show ?thesis using s prov Some by (simp add: finalize_one_def)
      next
        case True
        have "get st i = Inr s" by (rule get_active[OF wf s])
        moreover have "transition (speaker_machine s) SESSION_ANONYMOUS ''separated_evidence_final''
            = Inr (\<lparr>m_state = SESSION_ANONYMOUS, m_history = m_history (speaker_machine s)
                @ [\<lparr>from_state = PROVISIONAL, to_state = SESSION_ANONYMOUS,
                    tr_reason = ''separated_evidence_final'',
                    tr_revision = m_revision (speaker_machine s) + 1\<rparr>]\<rparr>)"
          using prov by (simp add: transition_def can_transition_def Let_def)
        ultimately show ?thesis
          using s prov Some True sid
          by (simp add: finalize_one_def promote_provisional_def Let_def relabel_def put_def)
      qed
    qed
  qed
qed

lemma finalize_loop:
  assumes "wf_session st" and "\<forall>i\<in>set is. \<exists>s. speakers st i = Some s \<and> merged_into s = None"
  shows "\<exists>st' us'. foldR finalize_one is (st, us) = Inr (st', us')
    \<and> wf_session st' \<and> ss_config st' = ss_config st
    \<and> (\<forall>j. j \<notin> set is \<longrightarrow> speakers st' j = speakers st j)
    \<and> (distinct is \<longrightarrow> (\<forall>i\<in>set is. \<exists>s'. speakers st' i = Some s' \<and> merged_into s' = None
        \<and> (speaker_state s' = PROVISIONAL \<longrightarrow> speaker_prototype s' \<noteq> None
             \<and> \<not> sl_is_calibrated (source_linking (ss_config st)))
        \<and> (i \<in> set us' - set us \<longrightarrow> speaker_state s' = UNKNOWN)))
    \<and> set us' \<subseteq> set us \<union> set is"
  using assms
proof (induction "is" arbitrary: st us)
  case Nil
  then show ?case by simp
next
  case (Cons i rest)
  from Cons.prems(2) obtain s where s: "speakers st i = Some s" "merged_into s = None" by auto
  from finalize_one_outcome[OF Cons.prems(1) s, of us] obtain st1 us1 s1 where
    one: "finalize_one i (st, us) = Inr (st1, us1)" and s1: "speakers st1 i = Some s1" "merged_into s1 = None"
    and others: "\<forall>j. j \<noteq> i \<longrightarrow> speakers st1 j = speakers st j"
    and prov: "speaker_state s1 = PROVISIONAL \<longrightarrow> speaker_prototype s1 \<noteq> None
          \<and> \<not> sl_is_calibrated (source_linking (ss_config st))"
    and us1: "us1 = us \<or> us1 = us @ [i] \<and> speaker_state s1 = UNKNOWN" by blast
  note ev = finalize_one_wf[OF Cons.prems(1) one]
  then have cfg: "ss_config st1 = ss_config st" by (simp add: evolves_def)
  have "\<forall>j\<in>set rest. \<exists>s. speakers st1 j = Some s \<and> merged_into s = None"
    using Cons.prems(2) others s1 by (metis list.set_intros(2))
  from Cons.IH[OF conjunct1[OF ev] this, of us1] obtain st' us' where
    rest: "foldR finalize_one rest (st1, us1) = Inr (st', us')" and wf': "wf_session st'"
    and cfg': "ss_config st' = ss_config st1"
    and out: "\<forall>j. j \<notin> set rest \<longrightarrow> speakers st' j = speakers st1 j"
    and inn: "distinct rest \<longrightarrow> (\<forall>i\<in>set rest. \<exists>s'. speakers st' i = Some s' \<and> merged_into s' = None
        \<and> (speaker_state s' = PROVISIONAL \<longrightarrow> speaker_prototype s' \<noteq> None
             \<and> \<not> sl_is_calibrated (source_linking (ss_config st1)))
        \<and> (i \<in> set us' - set us1 \<longrightarrow> speaker_state s' = UNKNOWN))"
    and sub: "set us' \<subseteq> set us1 \<union> set rest" by blast
  have all: "foldR finalize_one (i # rest) (st, us) = Inr (st', us')" using one rest by simp
  have "\<exists>s'. speakers st' k = Some s' \<and> merged_into s' = None
        \<and> (speaker_state s' = PROVISIONAL \<longrightarrow> speaker_prototype s' \<noteq> None
             \<and> \<not> sl_is_calibrated (source_linking (ss_config st)))
        \<and> (k \<in> set us' - set us \<longrightarrow> speaker_state s' = UNKNOWN)"
    if d: "distinct (i # rest)" and k: "k \<in> set (i # rest)" for k
  proof (cases "k = i")
    case True
    then have "speakers st' k = Some s1" using d out s1 by simp
    moreover have "i \<in> set us' - set us \<longrightarrow> speaker_state s1 = UNKNOWN"
      using us1 sub d by auto
    ultimately show ?thesis using prov s1 True by auto
  next
    case False
    then have "k \<in> set rest" using k by simp
    then show ?thesis using inn d cfg us1 False by fastforce
  qed
  note settled = this
  show ?case
  proof (intro exI[of _ st'] exI[of _ us'] conjI impI ballI allI)
    show "set us' \<subseteq> set us \<union> set (i # rest)" using sub us1 by auto
    show "speakers st' j = speakers st j" if "j \<notin> set (i # rest)" for j
      using that out others by auto
    show "ss_config st' = ss_config st" using cfg cfg' by simp
  qed (rule all wf' settled | assumption)+
qed

text \<open>
  Finalization always completes and leaves nothing undecided: afterwards every active
  provisional speaker has evidence, and there is none at all when the linking thresholds are
  calibrated; the identifiers returned are those of speakers now \<open>UNKNOWN\<close>.
\<close>

theorem finalization_settles:
  assumes "session_run (new_session sid c v) st"
  shows "\<exists>st' us. finalize_unresolved st = Inr (st', us)
    \<and> (\<forall>s\<in>set (provisional_speakers st'). speaker_prototype s \<noteq> None
         \<and> \<not> sl_is_calibrated (source_linking (ss_config st')))
    \<and> (\<forall>i\<in>set us. \<exists>s. speakers st' i = Some s \<and> speaker_state s = UNKNOWN)"
proof -
  note wf = session_run_reachable[OF assms]
  let ?is = "map session_speaker_id (active st)"
  have known: "\<forall>i\<in>set ?is. \<exists>s. speakers st i = Some s \<and> merged_into s = None"
    using set_active[OF wf] by auto
  have "?is = active_ids st"
    unfolding active_eq map_map
    by (rule map_idI) (auto simp: active_ids_def pointer_def wf_session_speaker(1)[OF wf])
  then have dist: "distinct ?is" using wf by (simp add: active_ids_def wf_session_def)
  from finalize_loop[OF wf known, of "[]"] dist obtain st' us where
    ok: "finalize_unresolved st = Inr (st', us)" and wf': "wf_session st'"
    and cfg: "ss_config st' = ss_config st"
    and out: "\<forall>j. j \<notin> set ?is \<longrightarrow> speakers st' j = speakers st j"
    and inn: "\<forall>i\<in>set ?is. \<exists>s'. speakers st' i = Some s' \<and> merged_into s' = None
        \<and> (speaker_state s' = PROVISIONAL \<longrightarrow> speaker_prototype s' \<noteq> None
             \<and> \<not> sl_is_calibrated (source_linking (ss_config st)))
        \<and> (i \<in> set us - set [] \<longrightarrow> speaker_state s' = UNKNOWN)"
    and sub: "set us \<subseteq> set [] \<union> set ?is"
    unfolding finalize_unresolved_def by blast
  have "speaker_prototype s \<noteq> None \<and> \<not> sl_is_calibrated (source_linking (ss_config st'))"
    if "s \<in> set (provisional_speakers st')" for s
  proof -
    from that have s: "speakers st' (session_speaker_id s) = Some s" "merged_into s = None"
        "speaker_state s = PROVISIONAL"
      using set_active[OF wf'] by (auto simp: provisional_speakers_def)
    have "session_speaker_id s \<in> set ?is"
    proof (rule ccontr)
      assume a: "session_speaker_id s \<notin> set ?is"
      with out s(1) have "speakers st (session_speaker_id s) = Some s" by simp
      with s(2) set_active[OF wf, of s] have "s \<in> set (active st)" by simp
      with a show False by simp
    qed
    with inn s show ?thesis by (auto simp: cfg)
  qed
  moreover have "\<exists>s. speakers st' i = Some s \<and> speaker_state s = UNKNOWN" if "i \<in> set us" for i
  proof -
    from sub that have "i \<in> set ?is" by auto
    with inn that show ?thesis by fastforce
  qed
  ultimately show ?thesis using ok by blast
qed

theorem finalization_settles_witness:
  "\<exists>st' us. finalize_unresolved trio = Inr (st', us)"
  using finalization_settles[OF trio_run] by blast

section \<open>The unattributed sink\<close>

text \<open>
  The sink takes a speaker's place. Although it stands for nobody, it counts as active: in a
  session one short of its limit, making the sink is enough for every further session or
  temporary speaker to be refused.
\<close>

theorem sink_consumes_capacity:
  assumes "session_run (new_session sid c v) st" and "unattributed_id st = None"
    and "speakers st f = None" and "session_limit st \<le> active_speaker_count st + 1"
  shows "\<exists>st' s. unattributed_speaker f st = Inr (st', s)
    \<and> active_speaker_count st' = active_speaker_count st + 1
    \<and> create_session_speaker g cl l st' = Inl (Sastt InvalidStateTransitionError)
    \<and> create_temporary_speaker g st' = Inl (Sastt InvalidStateTransitionError)"
proof -
  note wf = session_run_reachable[OF assms(1)]
  obtain m where m: "mk_machine PROVISIONAL = Inr m" by (simp add: mk_machine_eq_Inr)
  then have "m_state m = PROVISIONAL" by (simp add: mk_machine_eq_Inr)
  from transition_to_unknown[OF this] obtain m' where
    m': "transition m UNKNOWN ''insufficient_evidence'' = Inr m'" by blast
  let ?s = "new_session_speaker f m' UNATTRIBUTED_LABEL None"
  have sid: "session_speaker_id ?s = f" "merged_into ?s = None"
    by (simp_all add: new_session_speaker_def)
  let ?st = "((put ?s st)\<lparr>order := order st @ [f]\<rparr>)\<lparr>unattributed_id := Some f\<rparr>"
  have ok: "unattributed_speaker f st = Inr (?st, ?s)"
    using assms(2,3) m m' by (simp add: unattributed_speaker_def register_def sid Let_def)
  have out: "f \<notin> set (order st)" using assms(3) wf by (auto simp: wf_session_def)
  have "active_ids ?st = active_ids st @ [f]"
  proof -
    have "filter (\<lambda>i. pointer (speakers ?st) i = Some None) (order st)
        = filter (\<lambda>i. pointer (speakers st) i = Some None) (order st)"
      using out by (intro filter_cong) (auto simp: pointer_def put_def sid)
    then show ?thesis by (simp add: active_ids_def pointer_def put_def sid)
  qed
  then have n: "active_speaker_count ?st = active_speaker_count st + 1"
    by (simp add: active_speaker_count_eq)
  have "session_limit ?st \<le> active_speaker_count ?st"
    using assms(4) n by (simp add: session_limit_def put_def)
  then have "create_session_speaker g cl l ?st = Inl (Sastt InvalidStateTransitionError)"
      "create_temporary_speaker g ?st = Inl (Sastt InvalidStateTransitionError)"
    unfolding create_session_speaker_def create_temporary_speaker_def can_admit_speaker_def
    by (simp_all only: if_True not_less)
  with ok n show ?thesis by blast
qed

theorem sink_consumes_capacity_witness:
  "\<exists>st' s. unattributed_speaker ''u'' (new_session ''s'' (default_config\<lparr>product :=
       (product default_config)\<lparr>max_session_speakers := 1\<rparr>\<rparr>) ''m'') = Inr (st', s)
    \<and> create_session_speaker ''a'' (Some ''c0'') None st' = Inl (Sastt InvalidStateTransitionError)"
  using sink_consumes_capacity[OF run_refl, of "''s''" "default_config\<lparr>product :=
       (product default_config)\<lparr>max_session_speakers := 1\<rparr>\<rparr>" "''m''" "''u''" "''a''" "Some ''c0''" None]
  by (simp add: new_session_def session_limit_def active_speaker_count_def active_def
      map_filter_simps) blast

end
