(* ===== verification/Roster.thy ===== *)
theory Roster
  imports SessionRuns
begin

text \<open>
  The interface through which fusion sees the speakers of a session: \<open>resolve\<close> gives the canonical
  identifier behind an identifier, \<open>ensure\<close> finds or makes the speaker of a cluster, \<open>sink\<close> the
  unattributed one. Fusion relies on admissions not moving anybody: what resolved before resolves
  to the same speaker afterwards. \<open>SessionSpeakerState\<close> provides it.
\<close>

locale speaker_roster =
  fixes good :: "'st \<Rightarrow> bool"
    and resolve :: "'st \<Rightarrow> string \<Rightarrow> exn + string"
    and ensure :: "string \<Rightarrow> string \<Rightarrow> 'st \<Rightarrow> exn + 'st \<times> string"
    and sink :: "string \<Rightarrow> 'st \<Rightarrow> exn + 'st \<times> string"
  assumes resolve_idem: "good st \<Longrightarrow> resolve st i = Inr k \<Longrightarrow> resolve st k = Inr k"
    and ensure_law: "good st \<Longrightarrow> ensure f c st = Inr (st', i) \<Longrightarrow>
      good st' \<and> resolve st' i = Inr i \<and> (\<forall>j k. resolve st j = Inr k \<longrightarrow> resolve st' j = Inr k)"
    and sink_law: "good st \<Longrightarrow> sink f st = Inr (st', i) \<Longrightarrow>
      good st' \<and> (\<exists>k. resolve st' i = Inr k) \<and> (\<forall>j k. resolve st j = Inr k \<longrightarrow> resolve st' j = Inr k)"
begin

inductive admits :: "'st \<Rightarrow> 'st \<Rightarrow> bool" where
  admits_refl: "admits st st"
| admits_ensure: "admits st0 st \<Longrightarrow> ensure f c st = Inr (st', i) \<Longrightarrow> admits st0 st'"
| admits_sink: "admits st0 st \<Longrightarrow> sink f st = Inr (st', i) \<Longrightarrow> admits st0 st'"

lemma admits_good: "admits st st' \<Longrightarrow> good st \<Longrightarrow> good st'"
  by (induction rule: admits.induct) (use ensure_law sink_law in blast)+

lemma admits_stable:
  "admits st st' \<Longrightarrow> good st \<Longrightarrow> resolve st j = Inr k \<Longrightarrow> resolve st' j = Inr k"
proof (induction rule: admits.induct)
  case (admits_refl st)
  then show ?case by simp
next
  case (admits_ensure st0 st f c st' i)
  then show ?case using ensure_law[of st f c st' i] admits_good by blast
next
  case (admits_sink st0 st f st' i)
  then show ?case using sink_law[of st f st' i] admits_good by blast
qed

lemma admits_trans: "admits b c \<Longrightarrow> admits a b \<Longrightarrow> admits a c"
  by (induction rule: admits.induct) (auto intro: admits.intros)

text \<open>A canonical identifier stays canonical through every admission.\<close>

lemma canonical_stays:
  "admits st st' \<Longrightarrow> good st \<Longrightarrow> resolve st i = Inr k \<Longrightarrow> resolve st' k = Inr k"
  using admits_stable resolve_idem by blast

end

section \<open>The session provides it\<close>

definition resolve_id :: "session_state \<Rightarrow> string \<Rightarrow> string res" where
  "resolve_id st i = bindR (get st i) (\<lambda>s. Inr (session_speaker_id s))"

definition ensure_id :: "string \<Rightarrow> string \<Rightarrow> session_state \<Rightarrow> (session_state \<times> string) res" where
  "ensure_id f c st =
     bindR (ensure_cluster_speaker f c st) (\<lambda>(st', s). Inr (st', session_speaker_id s))"

definition sink_id :: "string \<Rightarrow> session_state \<Rightarrow> (session_state \<times> string) res" where
  "sink_id f st = bindR (unattributed_speaker f st) (\<lambda>(st', s). Inr (st', session_speaker_id s))"

text \<open>Adding a speaker under a new identifier moves nobody.\<close>

lemma extend_resolve:
  assumes wf: "wf_session st" and wf': "wf_session st'" and f: "speakers st f = None"
    and sp: "speakers st' = (speakers st)(f \<mapsto> s)" and g: "get st j = Inr x"
  shows "get st' j = Inr x"
proof -
  have "root (Suc (length (order st))) (speakers st') j = Inr (session_speaker_id x)"
    by (rule root_extend[OF _ getD(5)[OF wf g]]) (use f in \<open>auto simp: sp pointer_def\<close>)
  from root_known[OF this] get_total[OF wf'] obtain y where y: "get st' j = Inr y" by blast
  let ?n = "max (Suc (length (order st))) (Suc (length (order st')))"
  from root_mono[OF getD(5)[OF wf' y], of ?n]
    root_mono[OF \<open>root (Suc (length (order st))) (speakers st') j = Inr (session_speaker_id x)\<close>, of ?n]
  have "session_speaker_id y = session_speaker_id x" by (simp del: root.simps)
  moreover have "session_speaker_id x \<noteq> f" using getD(1)[OF wf g] f by auto
  ultimately have "speakers st' (session_speaker_id y) = Some x" using getD(1)[OF wf g] by (simp add: sp)
  with getD(1)[OF wf' y] y show ?thesis by simp
qed

lemma ensure_cluster_speaker_outcome:
  assumes wf: "wf_session st" and ok: "ensure_cluster_speaker f c st = Inr (st', s)"
  shows "wf_session st' \<and> get st' (session_speaker_id s) = Inr s \<and> speaker_cluster s = Some c
    \<and> (\<forall>j x. get st j = Inr x \<longrightarrow> get st' j = Inr x)"
proof (cases "by_cluster st c")
  case None
  then have create: "create_session_speaker f (Some c) None st = Inr (st', s)"
    using ok by (simp add: ensure_cluster_speaker_def)
  note new = create_session_speaker_wf[OF wf create]
  then have "get st' (session_speaker_id s) = Inr s"
    using get_active[of st' "session_speaker_id s" s] by simp
  with new extend_resolve[OF wf] show ?thesis by blast
next
  case (Some x)
  then have "st' = st" "s = x" using ok by (auto simp: ensure_cluster_speaker_def)
  moreover from Some have "x \<in> set (active st) \<and> speaker_cluster x = Some c"
    by (auto simp: by_cluster_def dest: find_SomeD)
  ultimately show ?thesis using wf set_active[OF wf] get_active[OF wf] by auto
qed

lemma unattributed_speaker_outcome:
  assumes wf: "wf_session st" and ok: "unattributed_speaker f st = Inr (st', s)"
  shows "wf_session st' \<and> speakers st' (session_speaker_id s) = Some s
    \<and> (\<forall>j x. get st j = Inr x \<longrightarrow> get st' j = Inr x)"
proof (cases "unattributed_id st")
  case (Some i)
  then have "st' = st" using ok by (auto simp: unattributed_speaker_def split: option.splits)
  then show ?thesis using unattributed_speaker_wf[OF wf ok] by simp
next
  case None
  from ok None obtain m where s: "s = new_session_speaker f m UNATTRIBUTED_LABEL None"
    and st': "\<exists>st1. register s st = Inr st1 \<and> st' = st1\<lparr>unattributed_id := Some (session_speaker_id s)\<rparr>"
    by (auto simp: unattributed_speaker_def Let_def bindR_eq_Inr)
  then have "speakers st f = None" "speakers st' = (speakers st)(f \<mapsto> s)"
    by (auto simp: register_def put_def new_session_speaker_def split: if_splits)
  with unattributed_speaker_wf[OF wf ok] extend_resolve[OF wf] show ?thesis by blast
qed

interpretation session_roster: speaker_roster wf_session resolve_id ensure_id sink_id
proof
  fix st i k
  assume wf: "wf_session st" and "resolve_id st i = Inr k"
  then obtain s where "get st i = Inr s" "k = session_speaker_id s"
    by (auto simp: resolve_id_def bindR_eq_Inr)
  with getD(1,2)[OF wf] get_active[OF wf] show "resolve_id st k = Inr k"
    by (auto simp: resolve_id_def)
next
  fix st f c st' i
  assume wf: "wf_session st" and "ensure_id f c st = Inr (st', i)"
  then obtain s where s: "ensure_cluster_speaker f c st = Inr (st', s)" "i = session_speaker_id s"
    by (auto simp: ensure_id_def bindR_eq_Inr)
  from ensure_cluster_speaker_outcome[OF wf s(1)] s(2)
  show "wf_session st' \<and> resolve_id st' i = Inr i
      \<and> (\<forall>j k. resolve_id st j = Inr k \<longrightarrow> resolve_id st' j = Inr k)"
    by (auto simp: resolve_id_def bindR_eq_Inr)
next
  fix st f st' i
  assume wf: "wf_session st" and "sink_id f st = Inr (st', i)"
  then obtain s where s: "unattributed_speaker f st = Inr (st', s)" "i = session_speaker_id s"
    by (auto simp: sink_id_def bindR_eq_Inr)
  note out = unattributed_speaker_outcome[OF wf s(1)]
  then obtain x where "get st' i = Inr x" using get_total[of st' i] s(2) by auto
  with out show "wf_session st' \<and> (\<exists>k. resolve_id st' i = Inr k)
      \<and> (\<forall>j k. resolve_id st j = Inr k \<longrightarrow> resolve_id st' j = Inr k)"
    by (auto simp: resolve_id_def bindR_eq_Inr)
qed

end
