(* ===== verification/Fusion.thy ===== *)
theory Fusion
  imports Transcript Roster
begin

text \<open>
  Fusion of recognised words with speakers, \<^verbatim>\<open>src/src/sastt/application/fusion.py\<close>: confidence
  calibration, attribution of words to turns, coalescing into utterances, the public segments and
  the deduplication of realtime words.

  \<open>gen\<close> supplies the identifiers of new speakers (the next one is \<open>gen\<close> of the number of speakers
  so far), \<open>evt\<close> those of the segments. A calibrator is a function from raw scores to confidences.
\<close>

section \<open>Calibration\<close>

type_synonym raw_scores = "(string \<times> real) list"

definition null_calibrate :: "raw_scores \<Rightarrow> confidences res" where
  "null_calibrate scores = mk_confidences no_confidences"

record calibration_release =
  release_version :: string
  components :: "(string \<times> string \<times> real \<times> real) list"

text \<open>\<open>isinstance(a, (int, float))\<close>, which a Boolean passes, and \<open>float(a)\<close>.\<close>

fun json_number :: "json option \<Rightarrow> real option" where
  "json_number (Some (JInt n)) = Some (of_int n)"
| "json_number (Some (JReal x)) = Some x"
| "json_number (Some (JBool b)) = Some (if b then 1 else 0)"
| "json_number _ = None"

definition parse_component ::
  "string \<times> json \<Rightarrow> (string \<times> string \<times> real \<times> real) res" where
  "parse_component entry =
     (case entry of (component, item) \<Rightarrow>
        if component \<notin> {''asr'', ''diarization'', ''linking'', ''voice_id'', ''overlap''}
        then Inl (Sastt ConfigurationError)
        else (case item of
          JObj entries \<Rightarrow>
            (case (map_of entries ''raw_key'', json_number (map_of entries ''a''),
                   json_number (map_of entries ''b'')) of
               (Some (JStr raw_key), Some a, Some b) \<Rightarrow> Inr (component, raw_key, a, b)
             | _ \<Rightarrow> Inl (Sastt ConfigurationError))
        | _ \<Rightarrow> Inl (Sastt ConfigurationError)))"

text \<open>\<open>from_path\<close>; \<open>None\<close> is a file that cannot be read or is not JSON.\<close>

definition parse_release :: "json option \<Rightarrow> calibration_release res" where
  "parse_release raw =
     (case raw of
        Some (JObj doc) \<Rightarrow>
          (case map_of doc ''release_id'' of
             Some (JStr rid) \<Rightarrow>
               (case map_of doc ''components'' of
                  Some (JObj items) \<Rightarrow>
                    if items = [] then Inl (Sastt ConfigurationError)
                    else bindR (mapR parse_component items) (\<lambda>cs.
                           Inr \<lparr>release_version = rid, components = cs\<rparr>)
                | _ \<Rightarrow> Inl (Sastt ConfigurationError))
           | _ \<Rightarrow> Inl (Sastt ConfigurationError))
      | _ \<Rightarrow> Inl (Sastt ConfigurationError))"

definition logistic :: "real \<Rightarrow> real" where
  "logistic z = 1 / (1 + exp (- z))"

definition component_value :: "calibration_release \<Rightarrow> raw_scores \<Rightarrow> string \<Rightarrow> real option" where
  "component_value r scores component =
     (case map_of (components r) component of
        None \<Rightarrow> None
      | Some (raw_key, a, b) \<Rightarrow>
          (case map_of scores raw_key of
             None \<Rightarrow> None
           | Some score \<Rightarrow> Some (logistic (max (- 60) (min 60 (a * score + b))))))"

definition file_calibrate :: "calibration_release \<Rightarrow> raw_scores \<Rightarrow> confidences res" where
  "file_calibrate r scores =
     (let value = component_value r scores;
          available = List.map_filter value
            [''asr'', ''diarization'', ''linking'', ''voice_id'', ''overlap'']
      in mk_confidences
           \<lparr>c_asr = value ''asr'', c_diarization = value ''diarization'',
            c_linking = value ''linking'', c_voice_id = value ''voice_id'',
            c_overlap = value ''overlap'',
            c_overall = (if available = [] then None else Some (mean available)),
            c_status = Calibrated\<rparr>)"

text \<open>\<open>load_confidence_calibrator\<close>: \<open>file\<close> is the JSON of a path.\<close>

definition load_confidence_calibrator ::
  "(string \<Rightarrow> json option) \<Rightarrow> string option \<Rightarrow> (raw_scores \<Rightarrow> confidences res) res" where
  "load_confidence_calibrator file path =
     (if truthy path then bindR (parse_release (file (or_else path []))) (\<lambda>r. Inr (file_calibrate r))
      else Inr null_calibrate)"

section \<open>Attribution and coalescing\<close>

record word_group =
  wg_words :: "word list"
  wg_interval :: time_interval
  wg_is_overlap :: bool
  wg_track :: "nat option"
  wg_backend :: "string option"
  wg_speaker :: "string option"
  wg_concurrent :: "int option"
  wg_count_confidence :: "real option"
  wg_raw_scores :: raw_scores
  wg_flags :: "string list"
  wg_degraded :: bool

record utterance =
  ut_speaker :: string
  ut_words :: "word list"
  ut_group :: word_group

definition ut_start :: "utterance \<Rightarrow> int" where
  "ut_start u = list_min (w_start (hd (ut_words u))) (map w_start (ut_words u))"

definition ut_end :: "utterance \<Rightarrow> int" where
  "ut_end u = list_max (w_end (hd (ut_words u))) (map w_end (ut_words u))"

definition ut_text :: "utterance \<Rightarrow> string" where
  "ut_text u = strip (join '' '' (map w_text (ut_words u)))"

text \<open>The loop over the turns: the best cluster so far and its overlap.\<close>

definition consider_turn ::
  "session_state \<Rightarrow> word \<Rightarrow> string option \<Rightarrow> speaker_turn \<Rightarrow> string option \<times> int \<Rightarrow>
     string option \<times> int" where
  "consider_turn st w previous t best =
     (let overlap = intersection_ms (turn_interval t) (word_interval w) in
      if overlap \<le> 0 then best
      else let candidate = map_option session_speaker_id (by_cluster st (cluster_id t)) in
        if snd best < overlap then (Some (cluster_id t), overlap)
        else if overlap = snd best \<and> previous \<noteq> None \<and> candidate = previous
          then (Some (cluster_id t), snd best)
        else best)"

definition best_turn ::
  "session_state \<Rightarrow> word \<Rightarrow> string option \<Rightarrow> speaker_turn list \<Rightarrow> string option \<times> int" where
  "best_turn st w previous ts = fold (consider_turn st w previous) ts (None, 0)"

definition next_id :: "(nat \<Rightarrow> string) \<Rightarrow> session_state \<Rightarrow> string" where
  "next_id gen st = gen (length (order st))"

definition attribute_word ::
  "(nat \<Rightarrow> string) \<Rightarrow> word \<Rightarrow> speaker_turn list \<Rightarrow> string option \<Rightarrow> session_state \<Rightarrow>
     (session_state \<times> string option) res" where
  "attribute_word gen w ts previous st =
     (case fst (best_turn st w previous ts) of
        None \<Rightarrow> Inr (st, None)
      | Some c \<Rightarrow>
          bindR (ensure_cluster_speaker (next_id gen st) c st) (\<lambda>(st', s).
            Inr (st', Some (session_speaker_id s))))"

definition fallback_speaker_id ::
  "(nat \<Rightarrow> string) \<Rightarrow> session_state \<Rightarrow> (session_state \<times> string) res" where
  "fallback_speaker_id gen st =
     (case provisional_speakers st of
        s # _ \<Rightarrow> Inr (st, session_speaker_id s)
      | [] \<Rightarrow> bindR (unattributed_speaker (next_id gen st) st) (\<lambda>(st', s).
                Inr (st', session_speaker_id s)))"

definition SENTENCE_FINAL :: "string list" where
  "SENTENCE_FINAL = [''.'', ''?'', ''!'', [CHR 0xE2, CHR 0x80, CHR 0xA6]]"

definition ends_sentence :: "word \<Rightarrow> bool" where
  "ends_sentence w \<longleftrightarrow> (\<exists>suf\<in>set SENTENCE_FINAL. py_endswith (w_text w) suf)"

text \<open>The speaker of a word: of the group, else by attribution, else the fallback.\<close>

definition word_speaker ::
  "(nat \<Rightarrow> string) \<Rightarrow> word_group \<Rightarrow> speaker_turn list \<Rightarrow> word \<Rightarrow> string option \<Rightarrow> session_state \<Rightarrow>
     (session_state \<times> string) res" where
  "word_speaker gen g ts w previous st =
     bindR (if wg_is_overlap g \<or> wg_speaker g \<noteq> None then Inr (st, wg_speaker g)
            else attribute_word gen w ts previous st) (\<lambda>(st1, found).
     bindR (case found of Some i \<Rightarrow> Inr (st1, i) | None \<Rightarrow> fallback_speaker_id gen st1) (\<lambda>(st2, i).
     bindR (get st2 i) (\<lambda>s. Inr (st2, session_speaker_id s))))"

text \<open>Whether a word continues the current utterance, the last one of the group.\<close>

definition continues :: "int \<Rightarrow> utterance list \<Rightarrow> string \<Rightarrow> word \<Rightarrow> bool" where
  "continues max_pause us i w \<longleftrightarrow>
     us \<noteq> [] \<and> ut_speaker (last us) = i \<and> w_start w - ut_end (last us) \<le> max_pause
     \<and> \<not> ends_sentence (last (ut_words (last us)))"

definition add_word ::
  "int \<Rightarrow> word_group \<Rightarrow> string \<Rightarrow> word \<Rightarrow> utterance list \<Rightarrow> utterance list" where
  "add_word max_pause g i w us =
     (if continues max_pause us i w
      then butlast us @ [(last us)\<lparr>ut_words := ut_words (last us) @ [w]\<rparr>]
      else us @ [\<lparr>ut_speaker = i, ut_words = [w], ut_group = g\<rparr>])"

definition coalesce_word ::
  "(nat \<Rightarrow> string) \<Rightarrow> int \<Rightarrow> word_group \<Rightarrow> speaker_turn list \<Rightarrow> word \<Rightarrow>
     session_state \<times> string option \<times> utterance list \<Rightarrow>
     (session_state \<times> string option \<times> utterance list) res" where
  "coalesce_word gen max_pause g ts w acc =
     (case acc of (st, previous, us) \<Rightarrow>
        bindR (word_speaker gen g ts w previous st) (\<lambda>(st', i).
          Inr (st', Some i, add_word max_pause g i w us)))"

definition sorted_words :: "word_group \<Rightarrow> word list" where
  "sorted_words g = sort_key (\<lambda>w. (w_start w, w_end w)) (wg_words g)"

definition coalesce_group ::
  "(nat \<Rightarrow> string) \<Rightarrow> int \<Rightarrow> speaker_turn list \<Rightarrow> word_group \<Rightarrow> session_state \<times> utterance list \<Rightarrow>
     (session_state \<times> utterance list) res" where
  "coalesce_group gen max_pause ts g acc =
     (case acc of (st, us) \<Rightarrow>
        bindR (foldR (coalesce_word gen max_pause g ts) (sorted_words g) (st, None, []))
          (\<lambda>(st', _, own). Inr (st', us @ own)))"

definition coalesce ::
  "(nat \<Rightarrow> string) \<Rightarrow> int \<Rightarrow> word_group list \<Rightarrow> speaker_turn list \<Rightarrow> session_state \<Rightarrow>
     (session_state \<times> utterance list) res" where
  "coalesce gen max_pause groups ts st =
     foldR (coalesce_group gen max_pause ts) groups (st, [])"

section \<open>Segments\<close>

definition default_max_pause_ms :: "config \<Rightarrow> int" where
  "default_max_pause_ms c = seconds_to_ms (finalize_after_silence_seconds (streaming c))"

definition segment_scores :: "utterance \<Rightarrow> raw_scores" where
  "segment_scores u =
     (let scores = wg_raw_scores (ut_group u);
          probabilities = List.map_filter raw_probability (ut_words u)
      in if probabilities \<noteq> [] \<and> map_of scores ''asr_word_probability'' = None
         then scores @ [(''asr_word_probability'', mean probabilities)] else scores)"

definition segment_versions :: "model_versions \<Rightarrow> word_group \<Rightarrow> model_versions" where
  "segment_versions v g =
     (if truthy (wg_backend g) \<and> \<not> truthy (mv_separation v)
      then v\<lparr>mv_separation := wg_backend g\<rparr> else v)"

record fuse_options =
  fo_session_id :: string
  fo_versions :: model_versions
  fo_max_pause :: int
  fo_is_final :: bool
  fo_revision :: int
  fo_supersedes :: "string option"

definition fuse_utterance ::
  "(nat \<Rightarrow> string) \<Rightarrow> (raw_scores \<Rightarrow> confidences res) \<Rightarrow> fuse_options \<Rightarrow> session_state \<Rightarrow>
     nat \<times> utterance \<Rightarrow> segment res" where
  "fuse_utterance evt calibrate opts st nu =
     (case nu of (n, u) \<Rightarrow>
        bindR (get st (ut_speaker u)) (\<lambda>s.
        bindR (calibrate (segment_scores u)) (\<lambda>conf.
          let g = ut_group u in
          mk_segment
            \<lparr>seg_session_id = fo_session_id opts, seg_event_id = evt n, seg_start = ut_start u,
             seg_end = ut_end u, seg_text = ut_text u, seg_speaker_id = public_speaker_id s,
             seg_session_speaker_id = session_speaker_id s, seg_status = speaker_status s,
             seg_revision = fo_revision opts, seg_supersedes = fo_supersedes opts,
             seg_registry_id = registry_speaker_id s, seg_label = display_label s,
             seg_name = speaker_name s, seg_is_overlap = wg_is_overlap g,
             seg_concurrent = wg_concurrent g, seg_count_confidence = wg_count_confidence g,
             seg_track = wg_track g, seg_backend = wg_backend g, seg_confidences = conf,
             seg_raw_scores = segment_scores u, seg_flags = wg_flags g,
             seg_degraded = wg_degraded g, seg_is_final = fo_is_final opts,
             seg_versions = segment_versions (fo_versions opts) g, seg_words = ut_words u,
             seg_schema = SCHEMA_VERSION\<rparr>)))"

definition assert_concurrency_preserved :: "word_group list \<Rightarrow> segment list \<Rightarrow> unit res" where
  "assert_concurrency_preserved groups segs =
     guardR (sum_list (map (\<lambda>s. length (seg_words s)) segs)
              \<noteq> sum_list (map (\<lambda>g. length (wg_words g)) groups)) (Sastt SchemaInvariantError)"

definition fuse ::
  "(nat \<Rightarrow> string) \<Rightarrow> (nat \<Rightarrow> string) \<Rightarrow> (raw_scores \<Rightarrow> confidences res) \<Rightarrow> fuse_options \<Rightarrow>
     word_group list \<Rightarrow> speaker_turn list \<Rightarrow> session_state \<Rightarrow> (session_state \<times> segment list) res" where
  "fuse gen evt calibrate opts groups ts st =
     bindR (coalesce gen (fo_max_pause opts) groups ts st) (\<lambda>(st', us).
     bindR (mapR (fuse_utterance evt calibrate opts st') (zip [0..<length us] us)) (\<lambda>segs.
     bindR (assert_concurrency_preserved groups segs) (\<lambda>_. Inr (st', segs))))"

definition dedup_words :: "word list \<Rightarrow> word list \<Rightarrow> int \<Rightarrow> word list" where
  "dedup_words existing incoming tolerance_ms =
     filter (\<lambda>w.
       \<not> (truthy (word_id w) \<and> (\<exists>o'\<in>set existing. truthy (word_id o') \<and> word_id o' = word_id w))
       \<and> \<not> (\<exists>o'\<in>set existing. w_text o' = w_text w \<and> \<bar>w_start o' - w_start w\<bar> \<le> tolerance_ms))
       incoming"

definition identity_status_of :: "session_state \<Rightarrow> string \<Rightarrow> identity_status res" where
  "identity_status_of st i = bindR (get st i) (\<lambda>s. Inr (speaker_status s))"

end
