(* ===== verification/Pipeline.thy ===== *)
theory Pipeline
  imports PcmAudio Events Effects Regions OverlapRouter SourceLinking Fusion
begin

text \<open>
  The offline pipeline, \<^verbatim>\<open>src/src/sastt/application/offline_pipeline.py\<close>. The models and the decoder
  of \<^verbatim>\<open>src/src/sastt/ports\<close> are fields of \<open>ports\<close>: functions of their arguments that may raise. A
  method that changes the session is an action on \<open>session_state\<close>; the run is an action on the
  world that its stage reports change. Metrics and tracing contexts are not modelled.
\<close>

record separator =
  sep_backend :: string
  sep_separate :: "audio_buffer \<Rightarrow> int \<Rightarrow> separated_batch res"

record ports =
  port_decode :: "bytes \<Rightarrow> audio_asset res"
  port_vad :: "audio_buffer \<Rightarrow> time_interval list res"
  port_diarize :: "audio_buffer \<Rightarrow> int \<Rightarrow> int \<Rightarrow> diarization_result res"
  port_detect_overlap :: "audio_buffer \<Rightarrow> overlap_region list res"
  port_transcribe :: "audio_buffer \<Rightarrow> string option \<Rightarrow> nat option \<Rightarrow> asr_result res"
  port_detect_language :: "audio_buffer \<Rightarrow> (string \<times> real) res"
  port_embed :: "audio_buffer \<Rightarrow> time_interval list \<Rightarrow> embedding_origin \<Rightarrow> int option \<Rightarrow> nat option \<Rightarrow>
    speaker_embedding res"
  port_separator :: "separator option"
  port_three_source_separator :: "separator option"
  port_identify :: "(string \<Rightarrow> speaker_embedding \<Rightarrow> voice_id_decision res) option"
  port_assignment :: solver
  diarizer_version :: string
  embedder_version :: string
  recognizer_version :: string

text \<open>\<open>OfflinePipeline\<close>; \<open>pl_fresh\<close> and \<open>pl_event_id\<close> stand for \<open>new_id\<close>.\<close>

record pipeline =
  pl_config :: config
  pl_ports :: ports
  pl_tenant :: string
  pl_calibrate :: "raw_scores \<Rightarrow> confidences res"
  pl_calibration_version :: "string option"
  pl_provisional_continuity :: bool
  pl_fresh :: "nat \<Rightarrow> string"
  pl_event_id :: "nat \<Rightarrow> string"

text \<open>The two fields of the pipeline that change: the language decided for the session.\<close>

record language_pin =
  pinned_language :: "string option"
  language_probability :: "real option"

definition no_pin :: language_pin where
  "no_pin = \<lparr>pinned_language = None, language_probability = None\<rparr>"

definition WARNING_UNRELIABLE_SEPARATED_TRANSCRIPT :: string where
  "WARNING_UNRELIABLE_SEPARATED_TRANSCRIPT = ''unreliable_separated_transcript''"
definition WARNING_UNRELIABLE_MIXTURE_TRANSCRIPT :: string where
  "WARNING_UNRELIABLE_MIXTURE_TRANSCRIPT = ''unreliable_mixture_transcript''"
definition WARNING_UNRELIABLE_NON_OVERLAP_TRANSCRIPT :: string where
  "WARNING_UNRELIABLE_NON_OVERLAP_TRANSCRIPT = ''unreliable_non_overlap_transcript''"
definition WARNING_LANGUAGE_UNCERTAIN :: string where
  "WARNING_LANGUAGE_UNCERTAIN = ''session_language_uncertain''"

definition MAX_CLEAN_PROTOTYPE_SEGMENTS :: nat where
  "MAX_CLEAN_PROTOTYPE_SEGMENTS = 3"

section \<open>Session language\<close>

definition session_language :: "pipeline \<Rightarrow> language_pin \<Rightarrow> string option" where
  "session_language p pin =
     (if truthy (rec_language (asr (pl_config p))) then rec_language (asr (pl_config p))
      else pinned_language pin)"

definition pin_language :: "string option \<Rightarrow> real option \<Rightarrow> language_pin \<Rightarrow> language_pin" where
  "pin_language language probability pin =
     (if truthy language then \<lparr>pinned_language = language, language_probability = probability\<rparr> else pin)"

definition resolve_session_language ::
  "pipeline \<Rightarrow> audio_buffer \<Rightarrow> time_interval list \<Rightarrow> language_pin \<times> string list \<Rightarrow>
     (language_pin \<times> string list) res" where
  "resolve_session_language p buf speech acc =
     (let (pin, warnings) = acc; settings = language_detection (asr (pl_config p)) in
      if truthy (rec_language (asr (pl_config p))) \<or> lang_mode settings \<noteq> AutoOnce then Inr acc
      else if pinned_language pin \<noteq> None then Inr acc
      else bindR (pool_speech buf speech (seconds_to_ms (sample_seconds settings))) (\<lambda>pooled.
        case pooled of
          None \<Rightarrow> Inr acc
        | Some b \<Rightarrow>
            bindR (port_detect_language (pl_ports p) b) (\<lambda>(language, probability).
              if probability < min_probability settings
              then Inr (pin, if WARNING_LANGUAGE_UNCERTAIN \<in> set warnings then warnings
                             else warnings @ [WARNING_LANGUAGE_UNCERTAIN])
              else Inr (\<lparr>pinned_language = Some language,
                         language_probability = Some probability\<rparr>, warnings))))"

section \<open>Evidence from diarization\<close>

definition clusters_over :: "diarization_result \<Rightarrow> time_interval \<Rightarrow> string list" where
  "clusters_over d interval =
     nub (map cluster_id (filter (\<lambda>t. intersects (turn_interval t) interval) (regular_tracks d)))"

definition counting_evidence_over ::
  "diarization_result option \<Rightarrow> time_interval \<Rightarrow> counting_evidence" where
  "counting_evidence_over diar interval =
     (case diar of
        None \<Rightarrow> no_evidence
      | Some d \<Rightarrow>
          if clusters_over d interval = [] then no_evidence
          else no_evidence\<lparr>diarization_active_speakers := Some (int (length (clusters_over d interval)))\<rparr>)"

definition active_speakers ::
  "pipeline \<Rightarrow> diarization_result option \<Rightarrow> time_interval \<Rightarrow> session_state \<Rightarrow> string set option \<times> nat" where
  "active_speakers p diar interval st =
     (case diar of
        None \<Rightarrow> (None, 0)
      | Some d \<Rightarrow>
          if \<not> restrict_to_active_clusters (source_linking (pl_config p)) then (None, 0)
          else let keys = nub (map session_speaker_id
                     (List.map_filter (by_cluster st) (clusters_over d interval))) in
            if keys = [] then (None, 0)
            else (Some (set keys \<union> set (map session_speaker_id
                     (filter (\<lambda>s. speaker_cluster s = None) (active st)))), length keys))"

definition linking_minimum_speech_ms :: "pipeline \<Rightarrow> int" where
  "linking_minimum_speech_ms p =
     (case min_embedding_ms (source_linking (pl_config p)) of
        Some m \<Rightarrow> m
      | None \<Rightarrow> seconds_to_ms (minimum_clean_speech_seconds (speaker_embedding_cfg (pl_config p))))"

section \<open>Embeddings\<close>

definition embed_buffer ::
  "pipeline \<Rightarrow> audio_buffer \<Rightarrow> time_interval \<Rightarrow> embedding_origin \<Rightarrow> nat option \<Rightarrow>
     time_interval list option \<Rightarrow> int option \<Rightarrow> speaker_embedding option res" where
  "embed_buffer p buf interval origin track speech_intervals minimum =
     (case crop_ms buf interval of
        Inl (Sastt e) \<Rightarrow> Inr None
      | Inl e \<Rightarrow> Inl e
      | Inr crop \<Rightarrow>
          bindR (case speech_intervals of Some s \<Rightarrow> Inr s | None \<Rightarrow> port_vad (pl_ports p) crop) (\<lambda>speech.
            case port_embed (pl_ports p) crop speech origin minimum track of
              Inl e \<Rightarrow> if e = Sastt InsufficientSpeechForEmbeddingError then Inr None else Inl e
            | Inr emb \<Rightarrow> Inr (Some emb)))"

section \<open>Global speakers\<close>

definition per_cluster :: "diarization_result \<Rightarrow> (string \<times> time_interval list) list" where
  "per_cluster d =
     map (\<lambda>c. (c, map turn_interval (filter (\<lambda>t. cluster_id t = c) (regular_tracks d))))
       (nub (map cluster_id (regular_tracks d)))"

text \<open>
  The pairs of \<open>overlapping_clusters\<close> are a Python set; its order does not matter, because adding
  constraints commutes, and the model takes the sorted one.
\<close>

definition constrain_clusters ::
  "string \<times> string \<Rightarrow> unit \<Rightarrow> (session_state, unit) action" where
  "constrain_clusters pair u =
     bindS (readS (\<lambda>st. (by_cluster st (fst pair), by_cluster st (snd pair)))) (\<lambda>found.
       case found of
         (Some a, Some b) \<Rightarrow>
           updateS (\<lambda>st. bindR (add_cannot_link (session_speaker_id a) (session_speaker_id b) st)
             (\<lambda>st'. Inr (st', ())))
       | _ \<Rightarrow> returnS ())"

definition learn_clean_segment ::
  "pipeline \<Rightarrow> audio_buffer \<Rightarrow> string \<Rightarrow> time_interval \<Rightarrow> unit \<Rightarrow> (session_state, unit) action" where
  "learn_clean_segment p buf sid interval u =
     bindS (readS minimum_speech_ms) (\<lambda>minimum.
       if duration_ms interval < minimum then returnS ()
       else bindS (liftS (embed_buffer p buf interval Clean None None None)) (\<lambda>emb.
         case emb of
           None \<Rightarrow> returnS ()
         | Some e \<Rightarrow> bindS (updateS (update_prototype sid e None True)) (\<lambda>_. returnS ())))"

definition clean_segments :: "time_interval list \<Rightarrow> overlap_region list \<Rightarrow> time_interval list" where
  "clean_segments intervals regions =
     take MAX_CLEAN_PROTOTYPE_SEGMENTS
       (sort_key (\<lambda>i. - duration_ms i)
         (subtract_intervals (merge_intervals intervals 0) (map region_interval regions)))"

definition learn_cluster ::
  "pipeline \<Rightarrow> audio_buffer \<Rightarrow> overlap_region list \<Rightarrow> string \<times> time_interval list \<Rightarrow> unit \<Rightarrow>
     (session_state, unit) action" where
  "learn_cluster p buf regions cluster u =
     bindS (readS (\<lambda>st. by_cluster st (fst cluster))) (\<lambda>found.
       case found of
         None \<Rightarrow> returnS ()
       | Some s \<Rightarrow> foldS (learn_clean_segment p buf (session_speaker_id s))
                     (clean_segments (snd cluster) regions) ())"

definition build_global_speakers ::
  "pipeline \<Rightarrow> diarization_result \<Rightarrow> overlap_region list \<Rightarrow> audio_buffer \<Rightarrow>
     (session_state, unit) action" where
  "build_global_speakers p d regions buf =
     bindS (mapS (\<lambda>c. updateS (\<lambda>st. ensure_cluster_speaker (next_id (pl_fresh p) st) c st)) (cluster_ids d))
       (\<lambda>_. bindS (foldS constrain_clusters
                (sorted_list_of_set (overlapping_clusters (per_cluster d))) ())
       (\<lambda>_. foldS (learn_cluster p buf regions) (per_cluster d) ()))"

section \<open>Transcription outside overlap\<close>

definition speech_group :: "word list \<Rightarrow> time_interval \<Rightarrow> raw_scores \<Rightarrow> word_group" where
  "speech_group ws interval scores =
     \<lparr>wg_words = ws, wg_interval = interval, wg_is_overlap = False, wg_track = None,
      wg_backend = None, wg_speaker = None, wg_concurrent = None, wg_count_confidence = None,
      wg_raw_scores = scores, wg_flags = [], wg_degraded = False\<rparr>"

definition transcribe_interval ::
  "pipeline \<Rightarrow> language_pin \<Rightarrow> audio_buffer \<Rightarrow> time_interval \<Rightarrow> word_group list \<times> string list \<Rightarrow>
     (word_group list \<times> string list) res" where
  "transcribe_interval p pin buf interval acc =
     (if duration_ms interval < 50 then Inr acc
      else bindR (crop_ms buf interval) (\<lambda>crop.
        bindR (port_transcribe (pl_ports p) crop (session_language p pin) None) (\<lambda>r.
          let ws = words_owned_by (asr_words r) interval in
          if ws = [] then Inr acc
          else if \<not> is_plausible_transcript ws [interval]
            then Inr (fst acc, snd acc @ [WARNING_UNRELIABLE_NON_OVERLAP_TRANSCRIPT])
          else Inr (fst acc @ [speech_group ws interval (asr_raw_scores r)], snd acc))))"

definition transcribe_non_overlap ::
  "pipeline \<Rightarrow> language_pin \<Rightarrow> audio_buffer \<Rightarrow> time_interval list \<Rightarrow> overlap_region list \<Rightarrow> string list \<Rightarrow>
     (word_group list \<times> string list) res" where
  "transcribe_non_overlap p pin buf speech regions warnings =
     foldR (transcribe_interval p pin buf) (subtract_intervals speech (map region_interval regions))
       ([], warnings)"

section \<open>Mixture fallback\<close>

text \<open>\<open>raw_scores[key] = value\<close> on a dictionary kept in insertion order.\<close>

definition dict_set :: "string \<Rightarrow> 'v \<Rightarrow> (string \<times> 'v) list \<Rightarrow> (string \<times> 'v) list" where
  "dict_set k v d = (if k \<in> set (map fst d) then map (\<lambda>(k', x). (k', if k' = k then v else x)) d
                     else d @ [(k, v)])"

definition dict_set_opt :: "string \<Rightarrow> 'v option \<Rightarrow> (string \<times> 'v) list \<Rightarrow> (string \<times> 'v) list" where
  "dict_set_opt k v d = (case v of None \<Rightarrow> d | Some x \<Rightarrow> dict_set k x d)"

text \<open>The groups together with the list of warnings, to which the method may append.\<close>

definition mixture_fallback ::
  "pipeline \<Rightarrow> language_pin \<Rightarrow> audio_buffer \<Rightarrow> overlap_region \<Rightarrow> route_decision \<Rightarrow> string list \<Rightarrow>
     (word_group list \<times> string list) res" where
  "mixture_fallback p pin buf region decision warnings =
     bindR (crop_ms buf (region_interval region)) (\<lambda>crop.
     bindR (port_transcribe (pl_ports p) crop (session_language p pin) None) (\<lambda>r.
       let ws = words_owned_by (asr_words r) (region_interval region) in
       if ws = [] then Inr ([], warnings)
       else bindR (port_vad (pl_ports p) crop) (\<lambda>speech.
         if \<not> is_plausible_transcript ws speech
         then Inr ([], warnings @ [WARNING_UNRELIABLE_MIXTURE_TRANSCRIPT])
         else Inr ([\<lparr>wg_words = ws, wg_interval = region_interval region, wg_is_overlap = True,
                     wg_track = None, wg_backend = None, wg_speaker = None,
                     wg_concurrent = sce_count (rd_count decision),
                     wg_count_confidence = sce_confidence (rd_count decision),
                     wg_raw_scores = dict_set_opt ''osd_activation'' (osd_activation region)
                       (asr_raw_scores r),
                     wg_flags = sort (nub warnings), wg_degraded = True\<rparr>], warnings))))"

section \<open>Separation and linking\<close>

text \<open>What the first loop over the sources of a batch collects for one source.\<close>

record prepared_source =
  ps_buffer :: audio_buffer
  ps_speech :: "time_interval list"
  ps_embedding :: "speaker_embedding option"

definition prepare_source ::
  "pipeline \<Rightarrow> separated_batch \<Rightarrow> audio_buffer \<Rightarrow> time_interval \<Rightarrow> time_interval \<Rightarrow> nat \<Rightarrow>
     prepared_source res" where
  "prepare_source p batch crop window owned index =
     bindR (source_buffer batch index crop) (\<lambda>source.
     bindR (if 0 < duration_ms owned then crop_ms source owned else Inr source) (\<lambda>asr_buffer.
     bindR (port_vad (pl_ports p) asr_buffer) (\<lambda>speech.
     bindR (if sl_embedding_window (source_linking (pl_config p)) = WindowPadded
               \<and> 0 < duration_ms owned \<and> window \<noteq> owned
            then bindR (port_vad (pl_ports p) source) (\<lambda>s. Inr (window, s))
            else Inr (owned, speech)) (\<lambda>(embed_interval, embed_speech).
     bindR (embed_buffer p source embed_interval Separated (Some index) (Some embed_speech)
              (Some (linking_minimum_speech_ms p))) (\<lambda>emb.
       Inr \<lparr>ps_buffer = asr_buffer, ps_speech = speech, ps_embedding = emb\<rparr>)))))"

text \<open>The speaker a source is given, and the warning when it gets none.\<close>

definition identify_source ::
  "pipeline \<Rightarrow> linking_decision \<Rightarrow> speaker_embedding option \<Rightarrow> bool \<Rightarrow>
     (session_state, string option \<times> string list) action" where
  "identify_source p link emb quality_passed =
     (case ld_session_speaker_id link of
        None \<Rightarrow>
          bindS (readS (\<lambda>st. (case emb of None \<Rightarrow> False
                   | Some e \<Rightarrow> minimum_speech_ms st \<le> e_speech_duration_ms e) \<and> can_admit_speaker st))
            (\<lambda>usable.
              if usable then
                bindS (updateS (\<lambda>st. create_temporary_speaker (next_id (pl_fresh p) st) st)) (\<lambda>s.
                bindS (updateS (buffer_provisional_embedding (session_speaker_id s) (the emb))) (\<lambda>_.
                  returnS (Some (session_speaker_id s), [])))
              else returnS (None, [''unidentified_source'']))
      | Some sid \<Rightarrow>
          (case emb of
             None \<Rightarrow> returnS (Some sid, [])
           | Some e \<Rightarrow>
               bindS (updateS (\<lambda>st. bindR (get st sid) (\<lambda>s. Inr (st, s)))) (\<lambda>s.
               bindS (updateS (if speaker_state s = PROVISIONAL
                        then buffer_provisional_embedding sid e
                        else update_prototype sid e (ld_margin link) quality_passed)) (\<lambda>_.
                 returnS (Some sid, [])))))"

definition constrain_to ::
  "string option \<Rightarrow> string list \<Rightarrow> (session_state, string list) action" where
  "constrain_to speaker assigned =
     (case speaker of
        None \<Rightarrow> returnS assigned
      | Some sid \<Rightarrow>
          bindS (foldS (\<lambda>other u. updateS (\<lambda>st. bindR (add_cannot_link other sid st) (\<lambda>st'. Inr (st', ()))))
                   assigned ()) (\<lambda>_. returnS (assigned @ [sid])))"

type_synonym region_result = "word_group list \<times> string list \<times> bool"

definition source_group ::
  "route_decision \<Rightarrow> overlap_region \<Rightarrow> string \<Rightarrow> string list \<Rightarrow> time_interval \<Rightarrow> nat \<Rightarrow>
     linking_decision \<Rightarrow> string option \<Rightarrow> word list \<Rightarrow> raw_scores \<Rightarrow> word_group" where
  "source_group decision region backend suspect owned index link speaker ws scores =
     \<lparr>wg_words = ws, wg_interval = owned, wg_is_overlap = True, wg_track = Some index,
      wg_backend = Some backend, wg_speaker = speaker,
      wg_concurrent = sce_count (rd_count decision),
      wg_count_confidence = sce_confidence (rd_count decision),
      wg_raw_scores = dict_set_opt ''osd_activation'' (osd_activation region)
        (dict_set_opt ''speaker_cosine_similarity'' (ld_score link) scores),
      wg_flags = rd_warnings decision @ suspect, wg_degraded = rd_degraded decision\<rparr>"

text \<open>
  One pass of the loop over the links of a crop: the speakers assigned so far in this crop, the
  groups and the warnings. It returns from the whole method with the mixture fallback when the text
  of a source is not plausible for its speech.
\<close>

definition link_source ::
  "pipeline \<Rightarrow> language_pin \<Rightarrow> audio_buffer \<Rightarrow> overlap_region \<Rightarrow> route_decision \<Rightarrow> string \<Rightarrow>
     separated_batch \<Rightarrow> string list \<Rightarrow> time_interval \<Rightarrow> nat \<times> prepared_source \<times> linking_decision \<Rightarrow>
     string list \<times> word_group list \<times> string list \<Rightarrow>
     (session_state, region_result + (string list \<times> word_group list \<times> string list)) action" where
  "link_source p pin buf region decision backend batch suspect owned item acc =
     (case item of (index, src, link) \<Rightarrow> case acc of (assigned, groups, warnings) \<Rightarrow>
        bindS (liftS (port_transcribe (pl_ports p) (ps_buffer src) (session_language p pin) (Some index)))
          (\<lambda>r. let ws = words_owned_by (asr_words r) owned in
            if ws = [] then returnS (Inr acc)
            else if \<not> is_plausible_transcript ws (ps_speech src) then
              bindS (liftS (mixture_fallback p pin buf region decision
                       (warnings @ [WARNING_UNRELIABLE_SEPARATED_TRANSCRIPT])))
                (\<lambda>(gs, warned). returnS (Inl (gs, warned, True)))
            else
              bindS (identify_source p link (ps_embedding src)
                       (passed_gate (batch_quality batch ! index))) (\<lambda>(speaker, unidentified).
              bindS (constrain_to speaker assigned) (\<lambda>assigned'.
                returnS (Inr (assigned',
                  groups @ [source_group decision region backend suspect owned index link speaker ws
                              (asr_raw_scores r)],
                  warnings @ unidentified))))))"

text \<open>One window of the region: groups, warnings and the mapping of the window before.\<close>

definition separate_window ::
  "pipeline \<Rightarrow> language_pin \<Rightarrow> audio_buffer \<Rightarrow> overlap_region \<Rightarrow> route_decision \<Rightarrow> separator \<Rightarrow>
     diarization_result option \<Rightarrow> time_interval \<times> time_interval \<Rightarrow>
     word_group list \<times> string list \<times> (nat \<times> string) list option \<Rightarrow>
     (session_state, region_result +
        (word_group list \<times> string list \<times> (nat \<times> string) list option)) action" where
  "separate_window p pin buf region decision sep diar piece acc =
     (case piece of (window, owned) \<Rightarrow> case acc of (groups, warnings, previous) \<Rightarrow>
        let requested = (case rd_requested decision of None \<Rightarrow> 2 | Some k \<Rightarrow> if k = 0 then 2 else k) in
        bindS (liftS (bindR (crop_ms buf window) (\<lambda>crop.
                bindR (sep_separate sep crop requested) (\<lambda>batch.
                bindR (mapR (prepare_source p batch crop window owned) [0..<batch_source_count batch])
                  (\<lambda>srcs. Inr (batch, srcs)))))) (\<lambda>(batch, srcs).
        let suspect = detect_separation_suspect batch;
            embeddings = map ps_embedding srcs;
            embedded = length (filter (\<lambda>e. e \<noteq> None) embeddings);
            cfg = source_linking (pl_config p) in
        bindS (readS (active_speakers p diar window)) (\<lambda>(active_keys, active_clusters).
        bindS (readS (if pl_provisional_continuity p then linking_prototypes else prototypes)) (\<lambda>protos.
        bindS (liftS (link_sources (port_assignment (pl_ports p)) embeddings protos cfg previous
                 active_keys
                 (sl_short_source_policy cfg = PolicyDiarizationConstrained
                  \<and> 1 < active_clusters \<and> active_clusters = embedded))) (\<lambda>result.
        bindS (untilS (link_source p pin buf region decision (sep_backend sep) batch suspect owned)
                 (zip [0..<length srcs] (zip srcs (lr_decisions result)))
                 ([], groups, warnings @ suspect)) (\<lambda>r.
          returnS (case r of
              Inl ret \<Rightarrow> Inl ret
            | Inr (_, groups', warnings') \<Rightarrow> Inr (groups', warnings', Some (mapping result)))))))))"

definition separate_and_link ::
  "pipeline \<Rightarrow> language_pin \<Rightarrow> audio_buffer \<Rightarrow> overlap_region \<Rightarrow> time_interval \<Rightarrow> route_decision \<Rightarrow>
     separator \<Rightarrow> diarization_result option \<Rightarrow> (session_state, region_result) action" where
  "separate_and_link p pin buf region padded decision sep diar =
     bindS (liftS (split_crop padded (region_interval region)
              (seconds_to_ms (max_crop_seconds (separation (pl_config p))))
              (seconds_to_ms (stitch_overlap_seconds (separation (pl_config p)))))) (\<lambda>pieces.
     bindS (untilS (separate_window p pin buf region decision sep diar) pieces ([], [], None)) (\<lambda>r.
       returnS (case r of Inl ret \<Rightarrow> ret | Inr (groups, warnings, _) \<Rightarrow> (groups, warnings, False))))"

section \<open>One overlap region\<close>

definition separator_for :: "pipeline \<Rightarrow> route_decision \<Rightarrow> separator option" where
  "separator_for p decision =
     (if rd_route decision = SEPARATE_THREE_SOURCE_BETA
      then port_three_source_separator (pl_ports p) else port_separator (pl_ports p))"

definition fall_back ::
  "pipeline \<Rightarrow> language_pin \<Rightarrow> audio_buffer \<Rightarrow> overlap_region \<Rightarrow> route_decision \<Rightarrow> string list \<Rightarrow> bool \<Rightarrow>
     (session_state, region_result) action" where
  "fall_back p pin buf region decision warnings degraded =
     bindS (liftS (mixture_fallback p pin buf region decision warnings))
       (\<lambda>(groups, warned). returnS (groups, warned, degraded))"

definition handle_overlap_region ::
  "pipeline \<Rightarrow> language_pin \<Rightarrow> audio_buffer \<Rightarrow> overlap_region \<Rightarrow> route_decision \<Rightarrow>
     diarization_result option \<Rightarrow> (session_state, region_result) action" where
  "handle_overlap_region p pin buf region decision diar =
     (let warnings = rd_warnings decision in
      if \<not> runs_separation decision \<or> port_separator (pl_ports p) = None
      then fall_back p pin buf region decision warnings
             (rd_degraded decision \<or> port_separator (pl_ports p) = None)
      else case separator_for p decision of
        None \<Rightarrow> fall_back p pin buf region decision (warnings @ [''separator_unavailable'']) True
      | Some sep \<Rightarrow>
          bindS (liftS (pad_interval (region_interval region)
                   (seconds_to_ms (overlap_context_seconds (audio (pl_config p))))
                   (buf_start_ms buf) (Some (buf_end_ms buf)))) (\<lambda>padded.
          catchS (Sastt SeparationFailedError)
            (bindS (catchS (Sastt SeparationFailedError)
                (separate_and_link p pin buf region padded decision sep diar)
                (separate_and_link p pin buf region (region_interval region) decision sep diar))
              (\<lambda>(groups, extra, failed).
                 returnS (groups, warnings @ extra, rd_degraded decision \<or> failed)))
            (fall_back p pin buf region decision (warnings @ [''separation_failed_degraded'']) True)))"

section \<open>Reconciliation and Voice ID\<close>

definition pseudo_embedding ::
  "prototype \<Rightarrow> int \<Rightarrow> embedding_origin \<Rightarrow> speaker_embedding res" where
  "pseudo_embedding proto speech_ms origin =
     mk_embedding (centroid proto) (p_model_version proto) 1 speech_ms origin None None"

definition reconcile_one ::
  "pipeline \<Rightarrow> prototype list \<Rightarrow> string \<Rightarrow> unit \<Rightarrow> (session_state, unit) action" where
  "reconcile_one p protos sid u =
     bindS (readS (\<lambda>st. (speakers st sid, minimum_speech_ms st))) (\<lambda>(found, minimum).
       case Option.bind found speaker_prototype of
         None \<Rightarrow> returnS ()
       | Some proto \<Rightarrow>
           bindS (liftS (pseudo_embedding proto minimum Separated)) (\<lambda>pseudo.
           bindS (liftS (link_sources (port_assignment (pl_ports p)) [Some pseudo] protos
                    (source_linking (pl_config p)) None None False)) (\<lambda>result.
             let d = hd (lr_decisions result) in
             case ld_session_speaker_id d of
               None \<Rightarrow> returnS ()
             | Some target \<Rightarrow>
                 if ld_status d \<noteq> Linked then returnS ()
                 else bindS (updateS (\<lambda>st. bindR (can_merge sid target st) (\<lambda>ok. Inr (st, ok)))) (\<lambda>ok.
                   if \<not> ok then returnS ()
                   else bindS (updateS (merge sid target ''overlap_start_reconciliation''))
                          (\<lambda>_. returnS ())))))"

definition reconcile_temporary_speakers :: "pipeline \<Rightarrow> (session_state, unit) action" where
  "reconcile_temporary_speakers p =
     bindS (readS (\<lambda>st. (prototypes st, map session_speaker_id (provisional_speakers st))))
       (\<lambda>(protos, provisional).
         if protos = [] then returnS ()
         else foldS (reconcile_one p protos) provisional ())"

definition voice_id_one ::
  "pipeline \<Rightarrow> (string \<Rightarrow> speaker_embedding \<Rightarrow> voice_id_decision res) \<Rightarrow> string \<Rightarrow> unit \<Rightarrow>
     (session_state, unit) action" where
  "voice_id_one p identify sid u =
     bindS (readS (\<lambda>st. (speakers st sid, minimum_speech_ms st))) (\<lambda>(found, minimum).
       case Option.bind found speaker_prototype of
         None \<Rightarrow> returnS ()
       | Some proto \<Rightarrow>
           bindS (liftS (bindR (pseudo_embedding proto minimum Clean) (identify (pl_tenant p)))) (\<lambda>decision.
           bindS (updateS (apply_voice_id sid decision)) (\<lambda>_. returnS ())))"

definition apply_registry :: "pipeline \<Rightarrow> (session_state, unit) action" where
  "apply_registry p =
     (case port_identify (pl_ports p) of
        None \<Rightarrow> returnS ()
      | Some identify \<Rightarrow>
          if \<not> vi_enabled (voice_id (pl_config p)) then returnS ()
          else bindS (readS (\<lambda>st. map session_speaker_id (active st)))
                 (\<lambda>ids. foldS (voice_id_one p identify) ids ()))"

section \<open>The run\<close>

record offline_result =
  or_job_id :: string
  or_state :: job_state
  or_segments :: "segment list"
  or_config :: config
  or_versions :: model_versions
  or_warnings :: "string list"
  or_degraded :: bool
  or_estimated_speakers :: int
  or_overlap_regions :: nat
  or_speech_ms :: int
  or_session_speakers :: int
  or_input_sha256 :: string

definition result_succeeded :: "offline_result \<Rightarrow> bool" where
  "result_succeeded r \<longleftrightarrow> or_state r \<in> {SUCCEEDED, DEGRADED_SUCCEEDED}"

definition pipeline_versions :: "pipeline \<Rightarrow> model_versions" where
  "pipeline_versions p =
     \<lparr>mv_diarization = Some (diarizer_version (pl_ports p)),
      mv_embedding = Some (embedder_version (pl_ports p)), mv_separation = None,
      mv_asr = Some (recognizer_version (pl_ports p)), mv_calibration = pl_calibration_version p\<rparr>"

definition decode_stage :: "pipeline \<Rightarrow> bytes \<Rightarrow> audio_asset res" where
  "decode_stage p payload =
     bindR (port_decode (pl_ports p) payload) (\<lambda>asset.
       if \<lfloor>max_file_hours (audio (pl_config p)) * 3600000\<rfloor> < asset_duration_ms asset
       then Inl (Sastt AudioTooLongError) else Inr asset)"

definition diarization_stage ::
  "pipeline \<Rightarrow> audio_buffer \<Rightarrow> (diarization_result \<times> overlap_region list) res" where
  "diarization_stage p buf =
     (let c = pl_config p in
      bindR (port_diarize (pl_ports p) buf (min_speakers (diarization c)) (max_speakers (diarization c)))
        (\<lambda>d. bindR (port_detect_overlap (pl_ports p) buf) (\<lambda>osd.
           Inr (d, merge_overlap_regions (overlap_regions d) osd
                     (seconds_to_ms (merge_gap_seconds (overlap_detection c)))
                     (seconds_to_ms (min_duration_seconds (overlap_detection c)))))))"

definition transcription_stage ::
  "pipeline \<Rightarrow> language_pin \<Rightarrow> audio_buffer \<Rightarrow> overlap_region list \<Rightarrow>
     (language_pin \<times> time_interval list \<times> word_group list \<times> string list) res" where
  "transcription_stage p pin buf regions =
     bindR (port_vad (pl_ports p) buf) (\<lambda>speech.
     bindR (resolve_session_language p buf speech (pin, [])) (\<lambda>(pin', warnings).
     bindR (transcribe_non_overlap p pin' buf speech regions warnings) (\<lambda>(groups, warnings').
       Inr (pin', speech, groups, warnings'))))"

text \<open>The decision for one region, and the loop over the regions.\<close>

definition decide_region ::
  "pipeline \<Rightarrow> diarization_result \<Rightarrow> overlap_region \<Rightarrow> route_decision" where
  "decide_region p d region =
     (let evidence = counting_evidence_over (Some d) (region_interval region) in
      route_overlap (estimate_source_count evidence (pl_config p)) (pl_config p) evidence True)"

definition separate_region ::
  "pipeline \<Rightarrow> language_pin \<Rightarrow> audio_buffer \<Rightarrow> diarization_result \<Rightarrow> overlap_region \<Rightarrow>
     region_result \<Rightarrow> (session_state, region_result) action" where
  "separate_region p pin buf d region acc =
     (case acc of (groups, warnings, degraded) \<Rightarrow>
        bindS (handle_overlap_region p pin buf region (decide_region p d region) (Some d))
          (\<lambda>(gs, ws, deg). returnS (groups @ gs, warnings @ ws, degraded \<or> deg)))"

definition linking_stage :: "pipeline \<Rightarrow> (session_state, unit) action" where
  "linking_stage p =
     bindS (reconcile_temporary_speakers p) (\<lambda>_.
     bindS (apply_registry p) (\<lambda>_.
     bindS (updateS finalize_unresolved) (\<lambda>_. returnS ())))"

definition fusion_options :: "pipeline \<Rightarrow> string \<Rightarrow> fuse_options" where
  "fusion_options p session =
     \<lparr>fo_session_id = session, fo_versions = pipeline_versions p,
      fo_max_pause = default_max_pause_ms (pl_config p), fo_is_final = True, fo_revision = 1,
      fo_supersedes = None\<rparr>"

text \<open>Everything the run does to the session once the audio is transcribed outside overlap.\<close>

definition fusion_stage ::
  "pipeline \<Rightarrow> string \<Rightarrow> diarization_result \<Rightarrow> word_group list \<Rightarrow> (session_state, segment list) action" where
  "fusion_stage p session d groups =
     bindS (updateS (fuse (pl_fresh p) (pl_event_id p) (pl_calibrate p) (fusion_options p session) groups
              (regular_tracks d))) (\<lambda>segs. returnS (sort_segments segs))"

text \<open>\<open>report\<close> is the callback \<open>on_stage\<close>; it acts on the world \<open>'w\<close> and may raise.\<close>

definition offline_run ::
  "pipeline \<Rightarrow> language_pin \<Rightarrow> bytes \<Rightarrow> string option \<Rightarrow> string option \<Rightarrow> session_state option \<Rightarrow>
     (job_state \<Rightarrow> ('w, unit) action) \<Rightarrow> ('w, offline_result) action" where
  "offline_run p pin payload job session_id given report =
     (let jid = (case job of None \<Rightarrow> ''job_local'' | Some j \<Rightarrow> j);
          session = or_else session_id jid;
          st0 = (case given of Some st \<Rightarrow> st
                 | None \<Rightarrow> new_session session (pl_config p) (embedder_version (pl_ports p))) in
      bindS (report PREPROCESSING) (\<lambda>_.
      bindS (liftS (decode_stage p payload)) (\<lambda>asset.
      bindS (report DIARIZING) (\<lambda>_.
      bindS (liftS (diarization_stage p (mono_16k asset))) (\<lambda>(d, regions).
      bindS (liftS (runS (build_global_speakers p d regions (mono_16k asset)) st0)) (\<lambda>(st1, _).
      bindS (report TRANSCRIBING) (\<lambda>_.
      bindS (liftS (transcription_stage p pin (mono_16k asset) regions)) (\<lambda>(pin', speech, groups, warned).
      bindS (if regions = [] then returnS () else report SEPARATING) (\<lambda>_.
      bindS (liftS (runS (foldS (separate_region p pin' (mono_16k asset) d) regions
               (groups, warned, warned \<noteq> [])) st1)) (\<lambda>(st2, all_groups, warnings, degraded).
      bindS (report LINKING) (\<lambda>_.
      bindS (liftS (runS (linking_stage p) st2)) (\<lambda>(st3, _).
      bindS (report FUSING) (\<lambda>_.
      bindS (liftS (runS (fusion_stage p session d all_groups) st3)) (\<lambda>(st4, segs).
        returnS \<lparr>or_job_id = jid,
                 or_state = (if degraded then DEGRADED_SUCCEEDED else SUCCEEDED),
                 or_segments = segs, or_config = pl_config p, or_versions = pipeline_versions p,
                 or_warnings = sort (nub warnings), or_degraded = degraded,
                 or_estimated_speakers = estimated_session_speakers d,
                 or_overlap_regions = length regions, or_speech_ms = speech_total speech,
                 or_session_speakers = active_speaker_count st4,
                 or_input_sha256 = input_sha256 asset\<rparr>))))))))))))))"

end
