(* ===== verification/FusionProps.thy ===== *)
theory FusionProps
  imports Fusion
begin

text \<open>
  What fusion guarantees: the contract of calibrators as an interface with its two providers, the
  attribution of words to turns, and that no word of any group is lost or moved into another.
\<close>

section \<open>Calibrators\<close>

text \<open>
  A calibrator emits confidences that satisfy their own checks, and no overall value unless it is
  calibrated; a client that stores them needs no further check.
\<close>

locale calibrator =
  fixes calibrate :: "raw_scores \<Rightarrow> exn + confidences"
  assumes total: "\<exists>c. calibrate scores = Inr c"
    and checked: "calibrate scores = Inr c \<Longrightarrow> mk_confidences c = Inr c"
begin

lemma never_raises: "calibrate scores \<noteq> Inl e"
  using total[of scores] by auto

lemma confidences_bounded:
  assumes "calibrate scores = Inr c"
  shows "\<forall>v\<in>{c_asr c, c_diarization c, c_linking c, c_voice_id c, c_overlap c, c_overall c}.
      unit_or_none v"
    and "c_overall c \<noteq> None \<Longrightarrow> c_status c = Calibrated"
  using checked[OF assms] by (auto simp: mk_confidences_eq_Inr)

end

lemma logistic_unit: "0 \<le> logistic z \<and> logistic z \<le> 1"
proof -
  have "0 < exp (- z)" by simp
  then have "0 < 1 + exp (- z)" "1 \<le> 1 + exp (- z)" by linarith+
  then show ?thesis by (simp only: logistic_def divide_le_eq_1 zero_le_divide_iff) simp
qed

lemma component_value_unit: "unit_or_none (component_value r scores c)"
  using logistic_unit by (auto simp: component_value_def unit_or_none_def split: option.splits)

lemma mean_unit:
  assumes "xs \<noteq> []" and "\<forall>x\<in>set xs. 0 \<le> x \<and> x \<le> (1::real)"
  shows "0 \<le> mean xs \<and> mean xs \<le> 1"
proof -
  have "0 \<le> sum_list xs" using assms(2) by (intro sum_list_nonneg) auto
  moreover have "sum_list xs \<le> real (length xs)"
    using assms(2) by (induction xs) auto
  ultimately show ?thesis using assms(1) by (simp add: mean_def divide_le_eq)
qed

interpretation null_calibrator: calibrator null_calibrate
  by unfold_locales (auto simp: null_calibrate_def mk_confidences_def no_confidences_def unit_or_none_def)

interpretation file_calibrator: calibrator "file_calibrate r" for r
proof
  fix scores
  let ?v = "component_value r scores"
  let ?av = "List.map_filter ?v [''asr'', ''diarization'', ''linking'', ''voice_id'', ''overlap'']"
  let ?c = "\<lparr>c_asr = ?v ''asr'', c_diarization = ?v ''diarization'',
            c_linking = ?v ''linking'', c_voice_id = ?v ''voice_id'',
            c_overlap = ?v ''overlap'',
            c_overall = (if ?av = [] then None else Some (mean ?av)), c_status = Calibrated\<rparr>"
  have "\<forall>x\<in>set ?av. 0 \<le> x \<and> x \<le> 1"
  proof (rule map_filter_all)
    show "0 \<le> y \<and> y \<le> 1" if "?v k = Some y" for k y
      using component_value_unit[of r scores k] that by (simp add: unit_or_none_def)
  qed
  then have "unit_or_none (c_overall ?c)" using mean_unit[of ?av] by (simp add: unit_or_none_def)
  then have ok: "mk_confidences ?c = Inr ?c"
    unfolding mk_confidences_eq_Inr using component_value_unit by simp
  have same: "file_calibrate r scores = mk_confidences ?c"
    by (simp only: file_calibrate_def Let_def)
  show "\<exists>c. file_calibrate r scores = Inr c" unfolding same ok by blast
  show "mk_confidences c = Inr c" if "file_calibrate r scores = Inr c" for c
    using that ok unfolding same by (metis sum.inject(2))
qed

text \<open>
  Confidences are never invented. Without a release every component is null and the status
  is uncalibrated; with one, calibration always succeeds, a component whose raw score is missing
  stays null and every other value, the overall one included, is between 0 and 1.
\<close>

theorem confidence_policy:
  "null_calibrate scores = Inr no_confidences
    \<and> (\<exists>c. file_calibrate r scores = Inr c \<and> c_status c = Calibrated
        \<and> list_all unit_or_none [c_asr c, c_diarization c, c_linking c, c_voice_id c, c_overlap c,
             c_overall c]
        \<and> (c_asr c \<noteq> None \<longleftrightarrow>
            (\<exists>key a b x. map_of (components r) ''asr'' = Some (key, a, b) \<and> map_of scores key = Some x))
        \<and> (c_overall c = None \<longleftrightarrow> (c_asr c = None \<and> c_diarization c = None \<and> c_linking c = None
             \<and> c_voice_id c = None \<and> c_overlap c = None)))"
proof -
  obtain c where c: "file_calibrate r scores = Inr c" using file_calibrator.total by blast
  note b = file_calibrator.confidences_bounded(1)[OF c]
  have shape: "c = \<lparr>c_asr = component_value r scores ''asr'',
      c_diarization = component_value r scores ''diarization'',
      c_linking = component_value r scores ''linking'', c_voice_id = component_value r scores ''voice_id'',
      c_overlap = component_value r scores ''overlap'',
      c_overall = (let av = List.map_filter (component_value r scores)
          [''asr'', ''diarization'', ''linking'', ''voice_id'', ''overlap'']
        in if av = [] then None else Some (mean av)), c_status = Calibrated\<rparr>"
    using c by (simp add: file_calibrate_def Let_def mk_confidences_eq_Inr)
  have "c_asr c \<noteq> None \<longleftrightarrow>
      (\<exists>key a b x. map_of (components r) ''asr'' = Some (key, a, b) \<and> map_of scores key = Some x)"
    by (simp add: shape component_value_def split: option.split prod.split)
  moreover have "c_overall c = None \<longleftrightarrow> (c_asr c = None \<and> c_diarization c = None \<and> c_linking c = None
      \<and> c_voice_id c = None \<and> c_overlap c = None)"
    by (simp add: shape Let_def map_filter_simps split: option.split)
  moreover have "c_status c = Calibrated" by (simp add: shape)
  ultimately show ?thesis
    using b c by (simp add: null_calibrate_def mk_confidences_def no_confidences_def unit_or_none_def)
qed

section \<open>Attribution\<close>

text \<open>The loop keeps a turn of the largest overlap so far, and none only if no turn overlaps.\<close>

definition overlap_with :: "word \<Rightarrow> speaker_turn \<Rightarrow> int" where
  "overlap_with w t = intersection_ms (turn_interval t) (word_interval w)"

lemma best_turn_fold:
  assumes "fold (consider_turn st w prev) ts (c0, n0) = (c, n)"
    and "0 \<le> n0" and "c0 = None \<longleftrightarrow> n0 = 0"
  shows "n0 \<le> n \<and> (c = None \<longleftrightarrow> n = 0) \<and> (\<forall>t\<in>set ts. overlap_with w t \<le> n)
    \<and> (c = c0 \<and> n = n0 \<or> (\<exists>t\<in>set ts. c = Some (cluster_id t) \<and> overlap_with w t = n))"
  using assms
proof (induction ts arbitrary: c0 n0)
  case Nil
  then show ?case by simp
next
  case (Cons t ts)
  define b where "b = consider_turn st w prev t (c0, n0)"
  obtain c1 n1 where b1: "b = (c1, n1)" by force
  have rec: "fold (consider_turn st w prev) ts (c1, n1) = (c, n)"
    using Cons.prems(1) b1 by (simp add: b_def)
  have step: "n0 \<le> n1 \<and> (c1 = None \<longleftrightarrow> n1 = 0) \<and> overlap_with w t \<le> n1
      \<and> (c1 = c0 \<and> n1 = n0 \<or> c1 = Some (cluster_id t) \<and> overlap_with w t = n1)"
    using b1 Cons.prems(2,3)
    by (auto simp: b_def consider_turn_def Let_def overlap_with_def split: if_splits)
  from Cons.IH[OF rec] step Cons.prems(2) show ?case by auto
qed

lemma overlap_with_nonneg: "0 \<le> overlap_with w t"
  by (simp add: overlap_with_def intersection_ms_def)

text \<open>
  A word goes to a turn it overlaps most. If any turn overlaps the word, attribution gives the
  active speaker of the cluster of a turn whose overlap is the largest; if none does it gives
  nobody and changes nothing.
\<close>

theorem attribution_maximal_overlap:
  assumes "session_run (new_session sid c v) st"
    and "attribute_word gen w ts prev st = Inr (st', found)"
  shows "case found of
      None \<Rightarrow> st' = st \<and> (\<forall>t\<in>set ts. overlap_with w t = 0)
    | Some i \<Rightarrow> \<exists>t s. t \<in> set ts \<and> 0 < overlap_with w t
        \<and> (\<forall>t'\<in>set ts. overlap_with w t' \<le> overlap_with w t)
        \<and> get st' i = Inr s \<and> session_speaker_id s = i \<and> speaker_cluster s = Some (cluster_id t)"
proof -
  note wf = session_run_reachable[OF assms(1)]
  obtain cl n where b: "best_turn st w prev ts = (cl, n)" by force
  from best_turn_fold[of st w prev ts None 0 cl n] b
  have best: "0 \<le> n" "cl = None \<longleftrightarrow> n = 0" "\<forall>t\<in>set ts. overlap_with w t \<le> n"
    "cl = None \<and> n = 0 \<or> (\<exists>t\<in>set ts. cl = Some (cluster_id t) \<and> overlap_with w t = n)"
    by (auto simp: best_turn_def)
  show ?thesis
  proof (cases cl)
    case None
    then have "st' = st" "found = None" using assms(2) b by (auto simp: attribute_word_def)
    moreover have "overlap_with w t = 0" if "t \<in> set ts" for t
      using best None that overlap_with_nonneg[of w t] by force
    ultimately show ?thesis by simp
  next
    case (Some k)
    with assms(2) b obtain s where s: "ensure_cluster_speaker (next_id gen st) k st = Inr (st', s)"
        "found = Some (session_speaker_id s)"
      by (auto simp: attribute_word_def bindR_eq_Inr)
    from best(4) Some obtain t where t: "t \<in> set ts" "k = cluster_id t" "overlap_with w t = n" by auto
    have "0 < overlap_with w t" using best(1,2) Some t by auto
    with t best(3) ensure_cluster_speaker_outcome[OF wf s(1)] show ?thesis
      unfolding s(2) option.case by blast
  qed
qed

definition turn_of :: "string \<Rightarrow> int \<Rightarrow> int \<Rightarrow> speaker_turn" where
  "turn_of c a b = \<lparr>cluster_id = c, turn_interval = TI a b, turn_kind = Regular, turn_score = None\<rparr>"

theorem attribution_maximal_overlap_witness:
  "\<exists>st' s. attribute_word digits (word_at 0 ''x'') [turn_of ''a'' 0 40, turn_of ''b'' 30 100] None trio
      = Inr (st', Some ''b'') \<and> get st' ''b'' = Inr s \<and> speaker_cluster s = Some ''b''"
proof -
  have "attribute_word digits (word_at 0 ''x'') [turn_of ''a'' 0 40, turn_of ''b'' 30 100] None trio
      = Inr (trio, Some ''b'')"
    by (simp add: attribute_word_def best_turn_def consider_turn_def turn_of_def word_at_def
        word_interval_def intersection_ms_def ensure_cluster_speaker_def by_cluster_def active_def
        trio_def anon_def new_session_speaker_def map_filter_simps Let_def)
  moreover have "overlap_with (word_at 0 ''x'') (turn_of ''a'' 0 40) = 40"
      "overlap_with (word_at 0 ''x'') (turn_of ''b'' 30 100) = 70"
    by (simp_all add: overlap_with_def intersection_ms_def turn_of_def word_at_def word_interval_def)
  moreover have "cluster_id (turn_of c a b) = c" for c a b by (simp add: turn_of_def)
  ultimately show ?thesis
    using attribution_maximal_overlap[OF trio_run, of digits "word_at 0 ''x''"
        "[turn_of ''a'' 0 40, turn_of ''b'' 30 100]" None trio "Some ''b''"] by auto
qed

section \<open>Coalescing loses nothing\<close>

lemma attribute_word_admits:
  assumes wf: "wf_session st" and ok: "attribute_word gen w ts prev st = Inr (st', found)"
  shows "session_roster.admits st st' \<and> (\<forall>i. found = Some i \<longrightarrow> resolve_id st' i = Inr i)"
proof (cases "fst (best_turn st w prev ts)")
  case None
  then show ?thesis using ok session_roster.admits_refl by (auto simp: attribute_word_def)
next
  case (Some k)
  with ok obtain i where i: "ensure_id (next_id gen st) k st = Inr (st', i)" "found = Some i"
    by (auto simp: attribute_word_def ensure_id_def bindR_eq_Inr)
  then show ?thesis
    using session_roster.ensure_law[OF wf i(1)]
      session_roster.admits_ensure[OF session_roster.admits_refl i(1)] by simp
qed

lemma fallback_admits:
  assumes "fallback_speaker_id gen st = Inr (st', i)"
  shows "session_roster.admits st st'"
proof (cases "provisional_speakers st")
  case Nil
  then have "sink_id (next_id gen st) st = Inr (st', i)"
    using assms by (simp add: fallback_speaker_id_def sink_id_def)
  then show ?thesis by (rule session_roster.admits_sink[OF session_roster.admits_refl])
next
  case Cons
  then show ?thesis using assms session_roster.admits_refl by (auto simp: fallback_speaker_id_def)
qed

lemma word_speaker_admits:
  assumes wf: "wf_session st" and ok: "word_speaker gen g ts w prev st = Inr (st', i)"
  shows "session_roster.admits st st' \<and> resolve_id st' i = Inr i"
proof -
  from ok obtain st1 found st2 j s where
    1: "(if wg_is_overlap g \<or> wg_speaker g \<noteq> None then Inr (st, wg_speaker g)
         else attribute_word gen w ts prev st) = Inr (st1, found)"
    and 2: "(case found of Some i \<Rightarrow> Inr (st1, i) | None \<Rightarrow> fallback_speaker_id gen st1) = Inr (st2, j)"
    and 3: "get st2 j = Inr s" "st' = st2" "i = session_speaker_id s"
    by (auto simp: word_speaker_def bindR_eq_Inr)
  have a1: "session_roster.admits st st1"
    using 1 attribute_word_admits[OF wf] session_roster.admits_refl by (auto split: if_splits)
  have a2: "session_roster.admits st1 st2"
    using 2 fallback_admits session_roster.admits_refl by (auto split: option.splits)
  from session_roster.admits_trans[OF a2 a1] have a: "session_roster.admits st st'" using 3 by simp
  then have "wf_session st'" using session_roster.admits_good wf by blast
  with 3 getD(1,2) get_active have "resolve_id st' i = Inr i" by (auto simp: resolve_id_def)
  with a show ?thesis ..
qed

lemma add_word_words:
  "concat (map ut_words (add_word p g i w us)) = concat (map ut_words us) @ [w]"
proof (cases "continues p us i w")
  case True
  then have ne: "us \<noteq> []" by (simp add: continues_def)
  obtain ys u where "us = ys @ [u]" using ne by (cases us rule: rev_cases) auto
  then show ?thesis using True by (simp add: add_word_def)
qed (simp add: add_word_def)

definition own_utterances :: "session_state \<Rightarrow> word_group \<Rightarrow> utterance list \<Rightarrow> bool" where
  "own_utterances st g us \<longleftrightarrow>
     (\<forall>u\<in>set us. ut_words u \<noteq> [] \<and> ut_group u = g \<and> resolve_id st (ut_speaker u) = Inr (ut_speaker u))"

lemma own_utterances_later:
  "own_utterances st g us \<Longrightarrow> session_roster.admits st st' \<Longrightarrow> wf_session st \<Longrightarrow> own_utterances st' g us"
  using session_roster.canonical_stays unfolding own_utterances_def by blast

lemma add_word_own:
  assumes "own_utterances st g us" and "resolve_id st i = Inr i"
  shows "own_utterances st g (add_word p g i w us)"
proof (cases "continues p us i w")
  case True
  then have ne: "us \<noteq> []" by (simp add: continues_def)
  have "u \<in> set us" if "u \<in> set (butlast us)" for u using that by (rule in_set_butlastD)
  then show ?thesis
    using assms True last_in_set[OF ne] unfolding own_utterances_def add_word_def by auto
next
  case False
  then show ?thesis using assms by (auto simp: own_utterances_def add_word_def)
qed

lemma coalesce_word_eq:
  "coalesce_word gen p g ts w (st, prev, us) = Inr acc \<longleftrightarrow>
     (\<exists>st1 i. word_speaker gen g ts w prev st = Inr (st1, i) \<and> acc = (st1, Some i, add_word p g i w us))"
  by (auto simp: coalesce_word_def bindR_eq_Inr)

lemma coalesce_group_eq:
  "coalesce_group gen p ts g (st, us) = Inr acc \<longleftrightarrow>
     (\<exists>st1 pr own. foldR (coalesce_word gen p g ts) (sorted_words g) (st, None, []) = Inr (st1, pr, own)
        \<and> acc = (st1, us @ own))"
  by (auto simp: coalesce_group_def bindR_eq_Inr)

lemma coalesce_words:
  assumes "wf_session st" and "own_utterances st g us"
    and "foldR (coalesce_word gen p g ts) ws (st, prev, us) = Inr (st', prev', us')"
  shows "session_roster.admits st st' \<and> own_utterances st' g us'
    \<and> concat (map ut_words us') = concat (map ut_words us) @ ws"
  using assms
proof (induction ws arbitrary: st prev us)
  case Nil
  then show ?case using session_roster.admits_refl by simp
next
  case (Cons w ws)
  from Cons.prems(3) obtain st1 i where
    sp: "word_speaker gen g ts w prev st = Inr (st1, i)"
    and rest: "foldR (coalesce_word gen p g ts) ws (st1, Some i, add_word p g i w us) = Inr (st', prev', us')"
    by (auto simp: coalesce_word_eq bindR_eq_Inr)
  note a = word_speaker_admits[OF Cons.prems(1) sp]
  have wf1: "wf_session st1" using session_roster.admits_good a Cons.prems(1) by blast
  have own: "own_utterances st1 g (add_word p g i w us)"
    using add_word_own own_utterances_later[OF Cons.prems(2) _ Cons.prems(1)] a by blast
  from Cons.IH[OF wf1 own rest] a session_roster.admits_trans show ?case
    by (auto simp: add_word_words)
qed

text \<open>One list of utterances per group, in order.\<close>

lemma coalesce_groups:
  assumes "wf_session st" and "foldR (coalesce_group gen p ts) groups (st, us0) = Inr (st', us)"
  shows "\<exists>parts. us = us0 @ concat parts \<and> session_roster.admits st st'
    \<and> list_all2 (\<lambda>g own. concat (map ut_words own) = sorted_words g \<and> own_utterances st' g own) groups parts"
  using assms
proof (induction groups arbitrary: st us0)
  case Nil
  then show ?case using session_roster.admits_refl by (intro exI[of _ "[]"]) simp
next
  case (Cons g groups)
  from Cons.prems(2) obtain st1 pr own where
    one: "foldR (coalesce_word gen p g ts) (sorted_words g) (st, None, []) = Inr (st1, pr, own)"
    and rest: "foldR (coalesce_group gen p ts) groups (st1, us0 @ own) = Inr (st', us)"
    by (auto simp: coalesce_group_eq bindR_eq_Inr)
  have a: "session_roster.admits st st1" "own_utterances st1 g own"
      "concat (map ut_words own) = sorted_words g"
    using coalesce_words[OF Cons.prems(1) _ one] by (auto simp: own_utterances_def)
  have wf1: "wf_session st1" using session_roster.admits_good a(1) Cons.prems(1) by blast
  from Cons.IH[OF wf1 rest] obtain parts where
    p: "us = us0 @ own @ concat parts" "session_roster.admits st1 st'"
      "list_all2 (\<lambda>g own. concat (map ut_words own) = sorted_words g \<and> own_utterances st' g own) groups parts"
    by auto
  then show ?case
    using a own_utterances_later[OF a(2) p(2) wf1] session_roster.admits_trans
    by (intro exI[of _ "own # parts"]) auto
qed

section \<open>Segments\<close>

lemma fuse_utterance_fields:
  assumes "fuse_utterance evt cal opts st (n, u) = Inr s"
  shows "seg_words s = ut_words u \<and> seg_start s = ut_start u \<and> seg_end s = ut_end u
    \<and> seg_is_overlap s = wg_is_overlap (ut_group u) \<and> seg_track s = wg_track (ut_group u)
    \<and> seg_event_id s = evt n \<and> (\<exists>sp. get st (ut_speaker u) = Inr sp
        \<and> seg_session_speaker_id s = session_speaker_id sp \<and> seg_status s = speaker_status sp)
    \<and> mk_segment s = Inr s"
  using assms by (auto simp: fuse_utterance_def Let_def bindR_eq_Inr mk_segment_eq_Inr)

lemma ut_bounds: "w \<in> set (ut_words u) \<Longrightarrow> ut_start u \<le> w_start w \<and> w_end w \<le> ut_end u"
  by (simp add: ut_start_def ut_end_def list_min_le list_max_ge)

definition faithful_run :: "session_state \<Rightarrow> word_group \<Rightarrow> segment list \<Rightarrow> bool" where
  "faithful_run st g ss \<longleftrightarrow> concat (map seg_words ss) = sorted_words g
     \<and> (\<forall>s\<in>set ss. seg_words s \<noteq> [] \<and> seg_is_overlap s = wg_is_overlap g \<and> seg_track s = wg_track g
          \<and> (\<forall>w\<in>set (seg_words s). seg_start s \<le> w_start w \<and> w_end w \<le> seg_end s)
          \<and> (\<exists>sp\<in>set (active st). seg_session_speaker_id s = session_speaker_id sp))"

lemma fuse_utterance_faithful:
  assumes wf: "wf_session st" and u: "ut_words u \<noteq> []" and f: "fuse_utterance evt cal opts st (n, u) = Inr s"
  shows "seg_words s \<noteq> [] \<and> seg_is_overlap s = wg_is_overlap (ut_group u) \<and> seg_track s = wg_track (ut_group u)
    \<and> (\<forall>w\<in>set (seg_words s). seg_start s \<le> w_start w \<and> w_end w \<le> seg_end s)
    \<and> (\<exists>sp\<in>set (active st). seg_session_speaker_id s = session_speaker_id sp)"
proof -
  note fl = fuse_utterance_fields[OF f]
  then obtain x where x: "get st (ut_speaker u) = Inr x"
      "seg_session_speaker_id s = session_speaker_id x" by blast
  have "x \<in> set (active st)" using getD[OF wf x(1)] set_active[OF wf] by simp
  then show ?thesis using fl u ut_bounds x(2) by auto
qed

lemma fused_run_faithful:
  assumes wf: "wf_session st" and o: "concat (map ut_words p) = sorted_words g" "own_utterances st g p"
    and f: "list_all2 (\<lambda>u s. \<exists>n. fuse_utterance evt cal opts st (n, u) = Inr s) p ss"
  shows "faithful_run st g ss"
proof -
  have "map seg_words ss = map ut_words p"
    using f fuse_utterance_fields by (induction rule: list_all2_induct) fastforce+
  moreover have "\<exists>u n. u \<in> set p \<and> fuse_utterance evt cal opts st (n, u) = Inr s" if "s \<in> set ss" for s
    using that f by (auto simp: list_all2_conv_all_nth in_set_conv_nth)
  ultimately show ?thesis
    using o fuse_utterance_faithful[OF wf] unfolding faithful_run_def own_utterances_def by metis
qed

lemma fuse_runs_faithful:
  assumes wf: "wf_session st" and ok: "fuse gen evt cal opts groups ts st = Inr (st', segs)"
  shows "wf_session st' \<and> (\<exists>parts. segs = concat parts \<and> list_all2 (faithful_run st') groups parts)"
proof -
  from ok obtain us where co: "coalesce gen (fo_max_pause opts) groups ts st = Inr (st', us)"
    and segs: "mapR (fuse_utterance evt cal opts st') (zip [0..<length us] us) = Inr segs"
    by (auto simp: fuse_def bindR_eq_Inr)
  from coalesce_groups[OF wf co[unfolded coalesce_def]] obtain parts where us: "us = concat parts"
    and ad: "session_roster.admits st st'"
    and own: "list_all2 (\<lambda>g own. concat (map ut_words own) = sorted_words g
        \<and> own_utterances st' g own) groups parts" by auto
  have wf': "wf_session st'" using session_roster.admits_good[OF ad wf] .
  have "list_all2 (\<lambda>x s. fuse_utterance evt cal opts st' x = Inr s) (zip [0..<length us] us) segs"
    by (rule mapR_list_all2[OF segs])
  then have "list_all2 (\<lambda>u s. \<exists>n. fuse_utterance evt cal opts st' (n, u) = Inr s) (concat parts) segs"
    by (auto simp: us list_all2_conv_all_nth)
  from list_all2_concat_split[OF this] obtain sparts where sp: "segs = concat sparts"
    and rel: "list_all2 (list_all2 (\<lambda>u s. \<exists>n. fuse_utterance evt cal opts st' (n, u) = Inr s)) parts sparts"
    by metis
  have "list_all2 (faithful_run st') groups sparts"
  proof (rule list_all2_trans[OF _ own rel])
    fix g p ss
    assume o: "concat (map ut_words p) = sorted_words g \<and> own_utterances st' g p"
      and f: "list_all2 (\<lambda>u s. \<exists>n. fuse_utterance evt cal opts st' (n, u) = Inr s) p ss"
    show "faithful_run st' g ss" by (rule fused_run_faithful[OF wf' conjunct1[OF o] conjunct2[OF o] f])
  qed
  with sp wf' show ?thesis by blast
qed

text \<open>
  C33: Fusion keeps concurrency and loses no word. The segments split into one run per word group,
  in order; the words of a run are those of its group sorted by time, its segments are non-empty,
  cover their words, carry the group's overlap flag and source track, and belong to a speaker
  that is active in the session afterwards.
\<close>

theorem fusion_keeps_every_word:
  assumes "session_run (new_session sid c v) st"
    and "fuse gen evt cal opts groups ts st = Inr (st', segs)"
  shows "\<exists>parts. segs = concat parts \<and> list_all2 (faithful_run st') groups parts"
  using fuse_runs_faithful[OF session_run_reachable[OF assms(1)] assms(2)] by (rule conjunct2)

definition overlap_group :: word_group where
  "overlap_group = \<lparr>wg_words = [word_at 0 ''hi''], wg_interval = TI 0 100, wg_is_overlap = True,
     wg_track = Some 1, wg_backend = None, wg_speaker = Some ''b'', wg_concurrent = Some 2,
     wg_count_confidence = None, wg_raw_scores = [], wg_flags = [], wg_degraded = False\<rparr>"

definition final_pass :: fuse_options where
  "final_pass = \<lparr>fo_session_id = ''s'', fo_versions = seg_versions example_segment, fo_max_pause = 800,
     fo_is_final = True, fo_revision = 1, fo_supersedes = None\<rparr>"

lemma overlap_group_fuses:
  "\<exists>segs. fuse digits digits null_calibrate final_pass [overlap_group] [] trio = Inr (trio, segs)"
proof -
  have g: "get trio ''b'' = Inr (anon ''b'' 2)"
    by (simp add: get_def root_def trio_def anon_def new_session_speaker_def)
  have "coalesce digits (fo_max_pause final_pass) [overlap_group] [] trio
      = Inr (trio, [\<lparr>ut_speaker = ''b'', ut_words = [word_at 0 ''hi''], ut_group = overlap_group\<rparr>])"
    by (simp add: coalesce_def coalesce_group_def coalesce_word_def word_speaker_def g add_word_def
        continues_def sorted_words_def overlap_group_def anon_def new_session_speaker_def)
  then show ?thesis
    by (simp add: fuse_def fuse_utterance_def g Let_def null_calibrate_def mk_confidences_def
        no_confidences_def mk_segment_def ut_start_def ut_end_def
        word_at_def final_pass_def overlap_group_def anon_def new_session_speaker_def
        m_status_def public_speaker_id_def unit_or_none_def assert_concurrency_preserved_def)
qed

theorem fusion_keeps_every_word_witness:
  "\<exists>segs parts. fuse digits digits null_calibrate final_pass [overlap_group] [] trio = Inr (trio, segs)
     \<and> segs = concat parts \<and> list_all2 (faithful_run trio) [overlap_group] parts"
proof -
  from overlap_group_fuses obtain segs
    where "fuse digits digits null_calibrate final_pass [overlap_group] [] trio = Inr (trio, segs)" by blast
  with fusion_keeps_every_word[OF trio_run this] show ?thesis by blast
qed

end
