(* ===== verification/PipelineGroups.thy ===== *)
theory PipelineGroups
  imports PipelineProps
begin

text \<open>
  What the word groups of an overlap region are: either one group per separated source, with its
  track and backend, or the mixture fallback, which claims no source and no speaker and is marked
  degraded; in both cases the words lie in the region.
\<close>

text \<open>The words of a group are not empty and have their midpoints in its interval.\<close>

definition words_inside :: "word_group \<Rightarrow> bool" where
  "words_inside g \<longleftrightarrow> wg_words g \<noteq> [] \<and> (\<forall>w\<in>set (wg_words g). contains_ms (wg_interval g) (word_midpoint w))"

definition separated_group :: "string \<Rightarrow> route_decision \<Rightarrow> word_group \<Rightarrow> bool" where
  "separated_group backend decision g \<longleftrightarrow>
     wg_is_overlap g \<and> wg_track g \<noteq> None \<and> wg_backend g = Some backend
     \<and> wg_degraded g = rd_degraded decision"

definition mixture_group :: "word_group \<Rightarrow> bool" where
  "mixture_group g \<longleftrightarrow>
     wg_is_overlap g \<and> wg_track g = None \<and> wg_backend g = None \<and> wg_speaker g = None \<and> wg_degraded g"

definition inside_region :: "overlap_region \<Rightarrow> word_group \<Rightarrow> bool" where
  "inside_region region g \<longleftrightarrow> words_inside g
     \<and> ti_start (region_interval region) \<le> ti_start (wg_interval g)
     \<and> ti_end (wg_interval g) \<le> ti_end (region_interval region)"

lemma words_owned_inside:
  "words_owned_by ws i \<noteq> [] \<Longrightarrow> wg_words g = words_owned_by ws i \<Longrightarrow> wg_interval g = i \<Longrightarrow> words_inside g"
  by (auto simp: words_inside_def words_owned_by_def)

lemma mixture_fallback_groups:
  assumes "mixture_fallback p pin buf region decision warnings = Inr (gs, warned)"
  shows "(\<forall>g\<in>set gs. mixture_group g \<and> inside_region region g) \<and> set warnings \<subseteq> set warned"
  using assms
  by (auto simp: mixture_fallback_def bindR_eq_Inr Let_def mixture_group_def inside_region_def
      split: if_splits intro: words_owned_inside)

lemma split_loop_inside:
  assumes "split_loop max_crop stitch padded_end region_end start owned_start = Inr ws"
    and "owned_start \<le> region_end"
  shows "\<forall>p\<in>set ws. owned_start \<le> ti_start (snd p) \<and> ti_end (snd p) \<le> region_end"
  using assms
proof (induction max_crop stitch padded_end region_end start owned_start arbitrary: ws
    rule: split_loop.induct)
  case (1 max_crop stitch padded_end region_end start owned_start)
  define step where "step = max (max_crop - stitch) 1"
  define oe where "oe = min (owned_start + step) region_end"
  define fin where "fin = min (start + max_crop) padded_end"
  have oe: "owned_start \<le> oe" "oe \<le> region_end" using 1(3) by (auto simp: oe_def step_def)
  show ?case
  proof (cases "padded_end \<le> start")
    case True
    then show ?thesis using 1(2) by (simp add: split_loop.simps)
  next
    case False
    from 1(2)[unfolded split_loop.simps[of max_crop stitch padded_end region_end start owned_start]
        Let_def, folded step_def, folded oe_def fin_def] False obtain here where
      h: "(if owned_start < oe then bindR (mk_interval start fin) (\<lambda>window.
            bindR (mk_interval owned_start oe) (\<lambda>owned. Inr [(window, owned)])) else Inr []) = Inr here"
      and r: "(if padded_end \<le> fin then Inr here
         else bindR (split_loop max_crop stitch padded_end region_end (start + step) oe)
                    (\<lambda>rest. Inr (here @ rest))) = Inr ws"
      by (simp add: bindR_eq_Inr del: if_split) blast
    have here: "\<forall>p\<in>set here. owned_start \<le> ti_start (snd p) \<and> ti_end (snd p) \<le> region_end"
      using h oe by (auto simp: bindR_eq_Inr split: if_splits)
    show ?thesis
    proof (cases "padded_end \<le> fin")
      case True
      then show ?thesis using r here by simp
    next
      case more: False
      with r obtain rest where
        rest: "split_loop max_crop stitch padded_end region_end (start + step) oe = Inr rest" "ws = here @ rest"
        by (auto simp: bindR_eq_Inr)
      have "\<forall>p\<in>set rest. oe \<le> ti_start (snd p) \<and> ti_end (snd p) \<le> region_end"
        by (rule 1(1)[OF False step_def fin_def oe_def more rest(1) oe(2)])
      then show ?thesis using here rest(2) oe by force
    qed
  qed
qed

lemma split_crop_inside:
  assumes "split_crop padded region max_crop stitch = Inr ws" and "valid_interval region"
    and "(window, owned) \<in> set ws"
  shows "ti_start region \<le> ti_start owned \<and> ti_end owned \<le> ti_end region"
  using assms split_loop_inside[of max_crop stitch "ti_end padded" "ti_end region" "ti_start padded"
      "ti_start region" ws]
  by (auto simp: split_crop_def valid_interval_def split: if_splits)

text \<open>The groups of one crop.\<close>

lemma link_source_groups:
  assumes "link_source p pin buf region decision backend batch sus owned item (assigned, gs, warned) st
      = (st', Inr r)"
    and "\<forall>g\<in>set gs. P g"
    and new: "\<And>g. words_inside g \<Longrightarrow> wg_interval g = owned \<Longrightarrow> separated_group backend decision g \<Longrightarrow> P g"
  shows "case r of Inl (mgs, _, failed) \<Rightarrow> failed \<and> (\<forall>g\<in>set mgs. mixture_group g \<and> inside_region region g)
    | Inr (_, gs', _) \<Rightarrow> \<forall>g\<in>set gs'. P g"
proof -
  obtain index src link where item: "item = (index, src, link)" by (cases item) auto
  from assms(1) obtain asr :: asr_result where
    rest: "(let ws = words_owned_by (asr_words asr) owned in
            if ws = [] then returnS (Inr (assigned, gs, warned))
            else if \<not> is_plausible_transcript ws (ps_speech src) then
              bindS (liftS (mixture_fallback p pin buf region decision
                       (warned @ [WARNING_UNRELIABLE_SEPARATED_TRANSCRIPT])))
                (\<lambda>(gs, warned). returnS (Inl (gs, warned, True)))
            else
              bindS (identify_source p link (ps_embedding src)
                       (passed_gate (batch_quality batch ! index))) (\<lambda>(speaker, unidentified).
              bindS (constrain_to speaker assigned) (\<lambda>assigned'.
                returnS (Inr (assigned',
                  gs @ [source_group decision region backend sus owned index link speaker ws
                              (asr_raw_scores asr)],
                  warned @ unidentified))))) st = (st', Inr r)"
    by (auto simp: link_source_def item action_simps)
  let ?ws = "words_owned_by (asr_words asr) owned"
  consider "?ws = []" | "?ws \<noteq> []" "\<not> is_plausible_transcript ?ws (ps_speech src)"
    | "?ws \<noteq> []" "is_plausible_transcript ?ws (ps_speech src)" by blast
  then show ?thesis
  proof cases
    case 1
    then show ?thesis using rest assms(2) by (auto simp: returnS_def Let_def)
  next
    case 2
    then obtain mgs w where "mixture_fallback p pin buf region decision
        (warned @ [WARNING_UNRELIABLE_SEPARATED_TRANSCRIPT]) = Inr (mgs, w)" "r = Inl (mgs, w, True)"
      using rest by (auto simp: action_simps Let_def)
    then show ?thesis using mixture_fallback_groups by auto
  next
    case 3
    then obtain assigned' warned' speaker where r: "r = Inr (assigned',
        gs @ [source_group decision region backend sus owned index link speaker ?ws (asr_raw_scores asr)], warned')"
      using rest by (auto simp: action_simps Let_def)
    let ?g = "source_group decision region backend sus owned index link speaker ?ws (asr_raw_scores asr)"
    have "P ?g"
      by (rule new)
        (use 3 in \<open>auto simp: words_inside_def words_owned_by_def source_group_def separated_group_def\<close>)
    then show ?thesis using assms(2) r by simp
  qed
qed

text \<open>
  The groups of a region: without a fallback, separated groups whose intervals are pieces of the
  region; with one, only the groups of the mixture.
\<close>

definition crop_groups :: "overlap_region \<Rightarrow> string \<Rightarrow> route_decision \<Rightarrow> word_group list \<Rightarrow> bool" where
  "crop_groups region backend decision gs \<longleftrightarrow>
     (\<forall>g\<in>set gs. separated_group backend decision g \<and> inside_region region g)"

definition fallback_groups :: "overlap_region \<Rightarrow> word_group list \<Rightarrow> bool" where
  "fallback_groups region gs \<longleftrightarrow> (\<forall>g\<in>set gs. mixture_group g \<and> inside_region region g)"

lemma separate_window_groups:
  assumes "separate_window p pin buf region decision sep diar (window, owned) (gs, warned, previous) st
      = (st', Inr r)"
    and "crop_groups region (sep_backend sep) decision gs"
    and "ti_start (region_interval region) \<le> ti_start owned \<and> ti_end owned \<le> ti_end (region_interval region)"
  shows "case r of Inl (mgs, _, failed) \<Rightarrow> failed \<and> fallback_groups region mgs
    | Inr (gs', _, _) \<Rightarrow> crop_groups region (sep_backend sep) decision gs'"
proof -
  let ?P = "\<lambda>g. separated_group (sep_backend sep) decision g \<and> inside_region region g"
  obtain keys n where "active_speakers p diar window st = (keys, n)" by (cases "active_speakers p diar window st")
  with assms(1) obtain batch sus items st1 st2 one and result :: linking_result where
    u: "untilS (link_source p pin buf region decision (sep_backend sep) batch sus owned) items
          ([], gs, warned @ sus) st1 = (st2, Inr one)"
    and r: "r = (case one of Inl ret \<Rightarrow> Inl ret
            | Inr (_, groups', warnings') \<Rightarrow> Inr (groups', warnings', Some (mapping result)))"
    by (auto simp: separate_window_def action_simps Let_def)
  have "case one of Inl ret \<Rightarrow> (case ret of (mgs, _, failed) \<Rightarrow> failed \<and> fallback_groups region mgs)
      | Inr acc' \<Rightarrow> (case acc' of (_, gs', _) \<Rightarrow> \<forall>g\<in>set gs'. ?P g)"
  proof (rule untilS_invariant[OF _ u])
    show "case ([], gs, warned @ sus) of (_, gs', _) \<Rightarrow> \<forall>g\<in>set gs'. ?P g"
      using assms(2) by (simp add: crop_groups_def)
  next
    fix item a t t' a'
    assume a: "case a of (_, gs', _) \<Rightarrow> \<forall>g\<in>set gs'. ?P g"
      and l: "link_source p pin buf region decision (sep_backend sep) batch sus owned item a t = (t', Inr (Inr a'))"
    obtain as gs1 ws1 where a_eq: "a = (as, gs1, ws1)" by (cases a)
    from link_source_groups[OF l[unfolded a_eq], of ?P] a a_eq assms(3)
    show "case a' of (_, gs', _) \<Rightarrow> \<forall>g\<in>set gs'. ?P g"
      by (auto simp: inside_region_def)
  next
    fix item a t t' ret
    assume a: "case a of (_, gs', _) \<Rightarrow> \<forall>g\<in>set gs'. ?P g"
      and l: "link_source p pin buf region decision (sep_backend sep) batch sus owned item a t = (t', Inr (Inl ret))"
    obtain as gs1 ws1 where a_eq: "a = (as, gs1, ws1)" by (cases a)
    from link_source_groups[OF l[unfolded a_eq], of ?P] a a_eq assms(3)
    show "case ret of (mgs, _, failed) \<Rightarrow> failed \<and> fallback_groups region mgs"
      by (auto simp: inside_region_def fallback_groups_def)
  qed
  then show ?thesis unfolding r by (auto simp: crop_groups_def split: sum.splits)
qed

lemma separate_and_link_groups:
  assumes "separate_and_link p pin buf region padded decision sep diar st = (st', Inr (gs, warned, failed))"
    and "valid_interval (region_interval region)"
  shows "if failed then fallback_groups region gs else crop_groups region (sep_backend sep) decision gs"
proof -
  from assms(1) obtain pieces st1 one where
    pieces: "split_crop padded (region_interval region)
              (seconds_to_ms (max_crop_seconds (separation (pl_config p))))
              (seconds_to_ms (stitch_overlap_seconds (separation (pl_config p)))) = Inr pieces"
    and u: "untilS (separate_window p pin buf region decision sep diar) pieces ([], [], None) st = (st1, Inr one)"
    and r: "(gs, warned, failed)
        = (case one of Inl ret \<Rightarrow> ret | Inr (groups, warnings, _) \<Rightarrow> (groups, warnings, False))"
    by (auto simp: separate_and_link_def action_simps)
  let ?P = "\<lambda>acc. case acc of (gs, _, _) \<Rightarrow> crop_groups region (sep_backend sep) decision gs"
  let ?Q = "\<lambda>ret. case ret of (mgs, _, failed) \<Rightarrow> failed \<and> fallback_groups region mgs"
  have step: "case r of Inl ret \<Rightarrow> ?Q ret | Inr a' \<Rightarrow> ?P a'"
    if "x \<in> set pieces" "?P a" "separate_window p pin buf region decision sep diar x a t = (t', Inr r)"
    for x a t t' r
  proof -
    obtain window owned where x: "x = (window, owned)" by (cases x)
    obtain gs1 ws1 prev where a: "a = (gs1, ws1, prev)" by (cases a)
    from separate_window_groups[OF that(3)[unfolded x a]] that(2)
      split_crop_inside[OF pieces assms(2) that(1)[unfolded x]]
    show ?thesis by (auto simp: a split: sum.splits)
  qed
  have "case one of Inl ret \<Rightarrow> ?Q ret | Inr acc' \<Rightarrow> ?P acc'"
  proof (rule untilS_invariant[OF _ u])
    show "?P ([], [], None)" by (simp add: crop_groups_def)
  next
    fix x a t t' a'
    assume "x \<in> set pieces" "?P a" "separate_window p pin buf region decision sep diar x a t = (t', Inr (Inr a'))"
    from step[OF this] show "?P a'" by (cases a') simp
  next
    fix x a t t' ret
    assume "x \<in> set pieces" "?P a" "separate_window p pin buf region decision sep diar x a t = (t', Inr (Inl ret))"
    from step[OF this] show "?Q ret" by (cases ret) simp
  qed
  then show ?thesis using r by (auto split: sum.splits prod.splits)
qed

lemma decided_region_degraded: "\<not> runs_separation (decide_region p d region) \<Longrightarrow> rd_degraded (decide_region p d region)"
  by (auto simp: decide_region_def route_overlap_def runs_separation_def Let_def split: if_splits option.splits)

lemma handled_region_groups:
  assumes "valid_interval (region_interval region)"
    and "handle_overlap_region p pin buf region decision diar st = (st', Inr (gs, warned, degraded))"
    and "decision = decide_region p d region"
  shows "(\<not> degraded \<longrightarrow> runs_separation decision \<and> (\<exists>sep. separator_for p decision = Some sep
        \<and> crop_groups region (sep_backend sep) decision gs))
    \<and> (fallback_groups region gs \<or> (\<exists>sep. separator_for p decision = Some sep
        \<and> crop_groups region (sep_backend sep) decision gs))"
proof -
  have fb: "fallback_groups region gs1"
    if "fall_back p pin buf region decision ws1 b s = (s', Inr (gs1, ws2, b2))" for gs1 ws1 b s s' ws2 b2
    using that mixture_fallback_groups by (auto simp: fall_back_def action_simps fallback_groups_def)
  have flag: "b2 = b"
    if "fall_back p pin buf region decision ws1 b s = (s', Inr (gs1, ws2, b2))" for gs1 ws1 b s s' ws2 b2
    using that by (auto simp: fall_back_def action_simps)
  show ?thesis
  proof (cases "\<not> runs_separation decision \<or> port_separator (pl_ports p) = None")
    case True
    then have "fall_back p pin buf region decision (rd_warnings decision)
        (rd_degraded decision \<or> port_separator (pl_ports p) = None) st = (st', Inr (gs, warned, degraded))"
      using assms(2) by (simp add: handle_overlap_region_def Let_def)
    from fb[OF this] have "fallback_groups region gs" .
    moreover have "degraded" using flag[OF \<open>fall_back _ _ _ _ _ _ _ _ = _\<close>] True decided_region_degraded
      unfolding assms(3) by metis
    ultimately show ?thesis by simp
  next
    case sep_on: False
    then obtain s0 where s0: "port_separator (pl_ports p) = Some s0" "runs_separation decision" by auto
    show ?thesis
    proof (cases "separator_for p decision")
      case None
      then have "fall_back p pin buf region decision (rd_warnings decision @ [''separator_unavailable''])
          True st = (st', Inr (gs, warned, degraded))"
        using assms(2) s0 by (simp add: handle_overlap_region_def Let_def)
      from fb[OF this] flag[OF this] show ?thesis by simp
    next
      case (Some sep)
      let ?E = "Sastt SeparationFailedError"
      have good: "(\<not> d \<longrightarrow> crop_groups region (sep_backend sep) decision gs1)
          \<and> (fallback_groups region gs1 \<or> crop_groups region (sep_backend sep) decision gs1)"
        if "separate_and_link p pin buf region padded decision sep diar s = (s', Inr (gs1, ws1, d))"
        for padded s s' gs1 ws1 d
        using separate_and_link_groups[OF that assms(1)] by (cases d) auto
      from assms(2) s0 Some obtain padded where
        "catchS ?E
            (bindS (catchS ?E
                (separate_and_link p pin buf region padded decision sep diar)
                (separate_and_link p pin buf region (region_interval region) decision sep diar))
              (\<lambda>(groups, extra, failed).
                 returnS (groups, rd_warnings decision @ extra, rd_degraded decision \<or> failed)))
            (fall_back p pin buf region decision (rd_warnings decision @ [''separation_failed_degraded'']) True)
          st = (st', Inr (gs, warned, degraded))"
        by (auto simp: handle_overlap_region_def Let_def action_simps)
      then consider
        (separated) pad s ws1 d where
          "separate_and_link p pin buf region pad decision sep diar s = (st', Inr (gs, ws1, d))"
          "degraded = (rd_degraded decision \<or> d)"
      | (failed) s where "fall_back p pin buf region decision
            (rd_warnings decision @ [''separation_failed_degraded'']) True s = (st', Inr (gs, warned, degraded))"
        by (auto simp: catchS_eq_Inr action_simps)
      then show ?thesis
      proof cases
        case separated
        then show ?thesis using good[OF separated(1)] sep_on Some by auto
      next
        case failed
        from fb[OF this] flag[OF this] show ?thesis by simp
      qed
    qed
  qed
qed

text \<open>
  C18: A region is never reported as better than it is. When handling a region succeeds and is not
  marked degraded, the router chose separation and every group is one separated source, with its
  track and the backend that produced it; otherwise the groups are either all of that kind or all
  from the mixture, which names no track, no backend and no speaker and is marked degraded. In every
  case each group has words, and they lie in the region.
\<close>

theorem region_groups_honest:
  assumes "valid_interval (region_interval region)"
    and "handle_overlap_region p pin buf region decision diar st = (st', Inr (gs, warned, degraded))"
    and "decision = decide_region p d region"
  shows "(\<not> degraded \<longrightarrow> runs_separation decision \<and> (\<exists>sep. separator_for p decision = Some sep
        \<and> crop_groups region (sep_backend sep) decision gs))
    \<and> (fallback_groups region gs \<or> (\<exists>sep. separator_for p decision = Some sep
        \<and> crop_groups region (sep_backend sep) decision gs))"
  by (rule handled_region_groups[OF assms])

section \<open>A concrete pipeline\<close>

text \<open>One second of audio, one speaker, a recognizer that hears one word, no separator, no registry.\<close>

definition demo_buffer :: audio_buffer where
  "demo_buffer = \<lparr>samples = [replicate 16000 (Fin 0)], sample_rate = 16000, start_sample = 0,
     channel_layout = [''mono''], source_clock_hz = 16000\<rparr>"

definition demo_asset :: audio_asset where
  "demo_asset = \<lparr>original = demo_buffer, mono_16k = demo_buffer, input_sha256 = ''f'',
     container_format = ''wav'', quality = \<lparr>clipping_ratio = 0, rms = 0, dc_offset = 0,
       aq_speech_duration_ms = 1000, estimated_snr_db = None\<rparr>, channel_map = [''mono'']\<rparr>"

definition demo_diarization :: diarization_result where
  "demo_diarization = \<lparr>turns = [], regular_tracks = [turn_of ''c0'' 0 1000], exclusive_tracks = None,
     overlap_regions = [], estimated_session_speakers = 1, diar_model_version = ''d''\<rparr>"

definition demo_ports :: ports where
  "demo_ports = \<lparr>port_decode = (\<lambda>_. Inr demo_asset), port_vad = (\<lambda>_. Inr [TI 0 1000]),
     port_diarize = (\<lambda>_ _ _. Inr demo_diarization), port_detect_overlap = (\<lambda>_. Inr []),
     port_transcribe = (\<lambda>_ _ _. Inr \<lparr>asr_words = [word_at 400 ''hi''], detected_language = ''vi'',
        language_score = None, asr_model_version = ''a'', asr_raw_scores = []\<rparr>),
     port_detect_language = (\<lambda>_. Inr (''vi'', 1)),
     port_embed = (\<lambda>_ _ _ _ _. Inl (Sastt InsufficientSpeechForEmbeddingError)),
     port_separator = None, port_three_source_separator = None, port_identify = None,
     port_assignment = diagonal, diarizer_version = ''d'', embedder_version = ''m'',
     recognizer_version = ''a''\<rparr>"

definition demo_pipeline :: pipeline where
  "demo_pipeline = \<lparr>pl_config = default_config\<lparr>asr := (asr default_config)\<lparr>rec_language := Some ''vi''\<rparr>\<rparr>,
     pl_ports = demo_ports, pl_tenant = ''tenant_local'', pl_calibrate = null_calibrate,
     pl_calibration_version = None, pl_provisional_continuity = True, pl_fresh = digits,
     pl_event_id = digits\<rparr>"

lemma demo_crop: "crop_ms demo_buffer (TI 0 1000) = Inr demo_buffer"
  by (simp add: crop_ms_def demo_buffer_def to_samples_def MS_PER_SECOND_def end_sample_def
      num_samples_def row_length_def mk_audio_buffer_def rectangular_def MIN_CHANNELS_def
      MAX_CHANNELS_def Let_def)

lemma demo_ports_simps [simp]:
  "port_transcribe (pl_ports demo_pipeline) b l t = Inr \<lparr>asr_words = [word_at 400 ''hi''],
     detected_language = ''vi'', language_score = None, asr_model_version = ''a'', asr_raw_scores = []\<rparr>"
  "port_vad (pl_ports demo_pipeline) b = Inr [TI 0 1000]"
  "port_separator (pl_ports demo_pipeline) = None"
  by (simp_all add: demo_pipeline_def demo_ports_def)

lemma demo_words: "words_owned_by [word_at 400 ''hi''] (TI 0 1000) = [word_at 400 ''hi'']"
  by (simp add: words_owned_by_def word_midpoint_def word_at_def contains_ms_def)

lemma demo_plausible: "is_plausible_transcript [word_at 400 ''hi''] [TI 0 1000]"
  by (simp add: is_plausible_transcript_def speech_total_def duration_ms_def token_count_def
      word_at_def is_space_def MIN_SOURCE_SPEECH_MS_WITH_TRANSCRIPT_def MIN_TOKENS_FOR_DENSITY_GATE_def)

theorem region_groups_honest_witness:
  "\<exists>g warned. handle_overlap_region demo_pipeline no_pin demo_buffer (plain_region 0 1000)
       (decide_region demo_pipeline demo_diarization (plain_region 0 1000)) None trio
     = (trio, Inr ([g], warned, True)) \<and> mixture_group g \<and> inside_region (plain_region 0 1000) g"
proof -
  let ?d = "decide_region demo_pipeline demo_diarization (plain_region 0 1000)"
  obtain g warned where h: "handle_overlap_region demo_pipeline no_pin demo_buffer (plain_region 0 1000)
      ?d None trio = (trio, Inr ([g], warned, True))" and m: "wg_track g = None"
    by (auto simp: handle_overlap_region_def Let_def fall_back_def mixture_fallback_def plain_region_def
        demo_crop demo_words demo_plausible bindS_def liftS_def returnS_def)
  have "valid_interval (region_interval (plain_region 0 1000))"
    by (simp add: plain_region_def valid_interval_def)
  from region_groups_honest[OF this h refl] h m show ?thesis
    by (auto simp: fallback_groups_def crop_groups_def separated_group_def)
qed

end
