(* ===== verification/PipelineRun.thy ===== *)
theory PipelineRun
  imports PipelineGroups
begin

text \<open>
  The whole offline run: the order in which stages are reported, also when a report or a stage
  fails, and what the result of a successful run is made of.
\<close>

section \<open>The stages\<close>

text \<open>A run does nothing to the world but what its reports do.\<close>

context state_relation
begin

lemma keeps_offline_run:
  assumes "\<And>st. keeps (report st)"
  shows "keeps (offline_run p pin wav j sid given report)"
  unfolding offline_run_def Let_def by (intro keeps_intros assms)

end

text \<open>A report that writes the stage down and then answers as \<open>f\<close> does.\<close>

definition traced :: "(job_state \<Rightarrow> unit res) \<Rightarrow> job_state \<Rightarrow> (job_state list, unit) action" where
  "traced f s tr = (tr @ [s], f s)"

definition stage_order :: "bool \<Rightarrow> job_state list" where
  "stage_order overlap = PREPROCESSING # DIARIZING # TRANSCRIBING # (if overlap then [SEPARATING] else [])
     @ [LINKING, FUSING]"

text \<open>An action that adds to the trace the beginning of one of the planned lists of stages.\<close>

definition traces :: "(bool \<Rightarrow> job_state list) \<Rightarrow> (job_state list, 'a) action \<Rightarrow> bool" where
  "traces planned m \<longleftrightarrow> (\<forall>tr. \<exists>b n. fst (m tr) = tr @ take n (planned b))"

lemma traces_return: "traces planned (returnS x)"
  unfolding traces_def returnS_def by (metis append.right_neutral fst_conv take_0)

lemma traces_lift_bind:
  assumes "\<And>x. traces planned (f x)"
  shows "traces planned (bindS (liftS r) f)"
proof (cases r)
  case (Inl e)
  then show ?thesis
    using traces_return[of planned] by (simp add: bindS_def liftS_def traces_def returnS_def)
next
  case (Inr x)
  then show ?thesis using assms[of x] by (simp add: bindS_def liftS_def traces_def)
qed

lemma traces_report_bind:
  assumes "\<And>x. traces planned (g x)"
  shows "traces (\<lambda>b. s # planned b) (bindS (traced f s) g)"
  unfolding traces_def
proof
  fix tr
  obtain b n where n: "fst (g u (tr @ [s])) = (tr @ [s]) @ take n (planned b)" for u
  proof -
    from assms obtain b n where "fst (g () (tr @ [s])) = (tr @ [s]) @ take n (planned b)"
      unfolding traces_def by blast
    then show ?thesis using that by (metis (full_types) unit.exhaust)
  qed
  show "\<exists>b n. fst (bindS (traced f s) g tr) = tr @ take n (s # planned b)"
  proof (cases "f s")
    case (Inl e)
    then have "fst (bindS (traced f s) g tr) = tr @ take 1 (s # planned b)"
      by (simp add: bindS_def traced_def)
    then show ?thesis by blast
  next
    case (Inr u)
    then have "fst (bindS (traced f s) g tr) = tr @ take (Suc n) (s # planned b)"
      using n[of u] by (simp add: bindS_def traced_def)
    then show ?thesis by blast
  qed
qed

lemma traces_optional:
  assumes "\<And>x. traces (\<lambda>_. xs) (g x)"
  shows "traces (\<lambda>b. (if b then [s] else []) @ xs) (bindS (if c then returnS () else traced f s) g)"
proof (cases c)
  case True
  have "\<exists>n. fst (g u tr) = tr @ take n xs" for u tr using assms unfolding traces_def by metis
  then have "\<exists>n. fst (bindS (returnS ()) g tr) = tr @ take n ((if False then [s] else []) @ xs)" for tr
    by (simp add: bindS_def returnS_def)
  then show ?thesis using True unfolding traces_def by (metis (full_types))
next
  case False
  have "traces (\<lambda>b. s # xs) (bindS (traced f s) g)" by (rule traces_report_bind) (rule assms)
  then have "\<exists>n. fst (bindS (traced f s) g tr) = tr @ take n ((if True then [s] else []) @ xs)" for tr
    unfolding traces_def by simp
  then show ?thesis using False unfolding traces_def by (metis (full_types))
qed

lemma traces_pair: "(\<And>x y. traces ys (f x y)) \<Longrightarrow> traces ys (case v of (x, y) \<Rightarrow> f x y)"
  by (simp split: prod.split)

lemma traced_eq_Inr: "traced f s tr = (tr', Inr u) \<longleftrightarrow> tr' = tr @ [s] \<and> f s = Inr u"
  by (auto simp: traced_def)

lemma offline_run_traces:
  "traces stage_order (offline_run p pin payload job sid given (traced f))"
proof -
  have "stage_order = (\<lambda>b. PREPROCESSING # DIARIZING # TRANSCRIBING #
      (if b then [SEPARATING] else []) @ [LINKING, FUSING])"
    by (rule ext) (simp add: stage_order_def)
  note planned = this
  show ?thesis
    unfolding offline_run_def Let_def planned
    by (intro traces_report_bind traces_lift_bind traces_pair traces_optional traces_return)
qed


section \<open>The concrete run\<close>

definition demo_speaker :: session_speaker where
  "demo_speaker = new_session_speaker ''0'' \<lparr>m_state = SESSION_ANONYMOUS, m_history = []\<rparr>
     (numbered_label 1) (Some ''c0'')"

definition demo_session :: session_state where
  "demo_session = (new_session ''job_local'' (pl_config demo_pipeline) ''m'')\<lparr>
     speakers := [''0'' \<mapsto> demo_speaker], order := [''0''], label_counter := 1\<rparr>"

lemma demo_decode: "decode_stage demo_pipeline payload = Inr demo_asset"
  by (simp add: decode_stage_def demo_pipeline_def demo_ports_def asset_duration_ms_def demo_asset_def
      demo_buffer_def buf_duration_ms_def to_ms_def num_samples_def row_length_def default_config_def
      MS_PER_SECOND_def)

lemma demo_mono: "mono_16k demo_asset = demo_buffer"
  by (simp add: demo_asset_def)

lemma demo_diarized: "diarization_stage demo_pipeline demo_buffer = Inr (demo_diarization, [])"
  by (simp add: diarization_stage_def demo_pipeline_def demo_ports_def demo_diarization_def
      merge_overlap_regions_def Let_def)

lemma demo_fresh: "digits 0 = ''0''"
  by code_simp

lemma demo_limit: "max_session_speakers (product (pl_config demo_pipeline)) = 5"
  by (simp add: demo_pipeline_def default_config_def)

lemma demo_clusters: "cluster_ids demo_diarization = [''c0'']"
    "per_cluster demo_diarization = [(''c0'', [TI 0 1000])]"
  by (simp_all add: cluster_ids_def per_cluster_def demo_diarization_def turn_of_def)

lemma demo_ensure:
  "ensure_cluster_speaker (next_id (pl_fresh demo_pipeline) (new_session ''job_local'' (pl_config demo_pipeline) ''m''))
     ''c0'' (new_session ''job_local'' (pl_config demo_pipeline) ''m'') = Inr (demo_session, demo_speaker)"
  by (simp add: ensure_cluster_speaker_def by_cluster_def active_def new_session_def map_filter_simps
      create_session_speaker_def session_limit_def active_speaker_count_def demo_limit mk_machine_def
      INITIAL_STATES_def Let_def register_def put_def new_session_speaker_def next_id_def demo_session_def
      demo_speaker_def) (simp add: demo_pipeline_def demo_fresh)

lemma demo_by_cluster: "by_cluster demo_session ''c0'' = Some demo_speaker"
  by (simp add: by_cluster_def active_def demo_session_def map_filter_simps demo_speaker_def
      new_session_speaker_def)

lemma demo_embed: "embed_buffer demo_pipeline demo_buffer (TI 0 1000) Clean None None None = Inr None"
  by (simp add: embed_buffer_def demo_crop) (simp add: demo_pipeline_def demo_ports_def)

lemma demo_built:
  "runS (build_global_speakers demo_pipeline demo_diarization [] demo_buffer)
     (new_session ''job_local'' (pl_config demo_pipeline) ''m'') = Inr (demo_session, ())"
proof -
  have seg: "clean_segments [TI 0 1000] [] = [TI 0 1000]"
    by (simp add: clean_segments_def subtract_intervals_def merge_intervals_def
        MAX_CLEAN_PROTOTYPE_SEGMENTS_def)
  have none: "overlapping_clusters [(''c0'', [TI 0 1000])] = {}"
    by (simp add: overlapping_clusters_def Let_def)
  show ?thesis
    by (simp add: build_global_speakers_def demo_clusters runS_eq_Inr bindS_def updateS_def demo_ensure
        returnS_def none learn_cluster_def readS_def demo_by_cluster seg learn_clean_segment_def
        demo_embed liftS_def)
qed

lemma demo_transcribed:
  "transcription_stage demo_pipeline pin demo_buffer [] =
     Inr (pin, [TI 0 1000], [speech_group [word_at 400 ''hi''] (TI 0 1000) []], [])"
proof -
  have "resolve_session_language demo_pipeline demo_buffer [TI 0 1000] (pin, []) = Inr (pin, [])"
    by (simp add: resolve_session_language_def demo_pipeline_def)
  moreover have "subtract_intervals [TI 0 1000] [] = [TI 0 1000]"
    by (simp add: subtract_intervals_def merge_intervals_def)
  ultimately show ?thesis
    by (simp add: transcription_stage_def transcribe_non_overlap_def transcribe_interval_def
        duration_ms_def demo_crop demo_words demo_plausible Let_def)
qed

lemma demo_linked: "runS (linking_stage demo_pipeline) demo_session = Inr (demo_session, ())"
proof -
  have a: "active demo_session = [demo_speaker]"
    by (simp add: active_def demo_session_def map_filter_simps demo_speaker_def new_session_speaker_def)
  have "prototypes demo_session = []"
    by (simp add: prototypes_def a prototypes_of_def map_filter_simps demo_speaker_def new_session_speaker_def)
  moreover have "finalize_unresolved demo_session = Inr (demo_session, [])"
  proof -
    have "session_speaker_id demo_speaker = ''0''" "speaker_state demo_speaker = SESSION_ANONYMOUS"
        "speakers demo_session ''0'' = Some demo_speaker"
      by (simp_all add: demo_session_def demo_speaker_def new_session_speaker_def)
    then show ?thesis by (simp add: finalize_unresolved_def a finalize_one_def)
  qed
  moreover have "apply_registry demo_pipeline demo_session = (demo_session, Inr ())"
    by (simp add: apply_registry_def demo_pipeline_def demo_ports_def returnS_def)
  ultimately show ?thesis
    by (simp add: linking_stage_def reconcile_temporary_speakers_def runS_eq_Inr bindS_def readS_def
        returnS_def updateS_def)
qed

lemma demo_fused:
  "\<exists>seg. runS (fusion_stage demo_pipeline ''job_local'' demo_diarization
      [speech_group [word_at 400 ''hi''] (TI 0 1000) []]) demo_session = Inr (demo_session, [seg])
    \<and> 0 \<le> seg_start seg \<and> seg_start seg < seg_end seg"
proof -
  have g: "SessionState.get demo_session ''0'' = Inr demo_speaker"
    by (simp add: get_def demo_session_def demo_speaker_def new_session_speaker_def)
  have b: "best_turn demo_session (word_at 400 ''hi'') None (regular_tracks demo_diarization) = (Some ''c0'', 100)"
    by (simp add: best_turn_def demo_diarization_def consider_turn_def turn_of_def word_at_def
        word_interval_def intersection_ms_def Let_def)
  have "coalesce (pl_fresh demo_pipeline) (fo_max_pause (fusion_options demo_pipeline ''job_local''))
      [speech_group [word_at 400 ''hi''] (TI 0 1000) []] (regular_tracks demo_diarization) demo_session
      = Inr (demo_session, [\<lparr>ut_speaker = ''0'', ut_words = [word_at 400 ''hi''],
          ut_group = speech_group [word_at 400 ''hi''] (TI 0 1000) []\<rparr>])"
    by (simp add: coalesce_def coalesce_group_def coalesce_word_def word_speaker_def g add_word_def
        continues_def sorted_words_def speech_group_def attribute_word_def b ensure_cluster_speaker_def
        demo_by_cluster) (simp add: demo_speaker_def new_session_speaker_def g)
  then show ?thesis
    by (simp add: fusion_stage_def runS_eq_Inr bindS_def updateS_def fuse_def fuse_utterance_def g Let_def)
      (simp add: demo_pipeline_def null_calibrate_def mk_confidences_def
        no_confidences_def mk_segment_def ut_start_def ut_end_def word_at_def fusion_options_def
        speech_group_def demo_speaker_def new_session_speaker_def m_status_def public_speaker_id_def
        unit_or_none_def assert_concurrency_preserved_def returnS_def sort_segments_def)
qed

text \<open>The run of the concrete pipeline, whatever is done when it reports its stages.\<close>

lemma demo_reports:
  assumes "report PREPROCESSING w0 = (w1, Inr ())" and "report DIARIZING w1 = (w2, Inr ())"
    and "report TRANSCRIBING w2 = (w3, Inr ())" and "report LINKING w3 = (w4, Inr ())"
    and "report FUSING w4 = (w5, Inr ())"
    and "job \<in> {None, Some ''job_local''}" and "sid \<in> {None, Some ''job_local''}"
  shows "\<exists>r seg. offline_run demo_pipeline pin payload job sid None report w0 = (w5, Inr r)
     \<and> or_segments r = [seg] \<and> or_warnings r = [] \<and> \<not> or_degraded r \<and> or_overlap_regions r = 0
     \<and> 0 \<le> seg_start seg \<and> seg_start seg < seg_end seg"
proof -
  from demo_fused obtain seg where "runS (fusion_stage demo_pipeline ''job_local'' demo_diarization
      [speech_group [word_at 400 ''hi''] (TI 0 1000) []]) demo_session = Inr (demo_session, [seg])"
    and interval: "0 \<le> seg_start seg" "seg_start seg < seg_end seg" by blast
  moreover have "embedder_version (pl_ports demo_pipeline) = ''m''"
    by (simp add: demo_pipeline_def demo_ports_def)
  moreover have "runS (foldS (separate_region demo_pipeline pin demo_buffer demo_diarization) [] acc) st
      = Inr (st, acc)" for pin acc st by (simp add: runS_eq_Inr returnS_def)
  ultimately show ?thesis
    by (intro exI[of _ "\<lparr>or_job_id = ''job_local'', or_state = SUCCEEDED, or_segments = [seg],
        or_config = pl_config demo_pipeline, or_versions = pipeline_versions demo_pipeline, or_warnings = [],
        or_degraded = False, or_estimated_speakers = estimated_session_speakers demo_diarization,
        or_overlap_regions = 0, or_speech_ms = speech_total [TI 0 1000],
        or_session_speakers = active_speaker_count demo_session, or_input_sha256 = input_sha256 demo_asset\<rparr>"]
        exI[of _ seg])
      (use assms in \<open>auto simp: offline_run_def Let_def bindS_def liftS_def demo_decode demo_mono
        demo_diarized demo_built demo_transcribed demo_linked returnS_def\<close>)
qed

lemma demo_run:
  "\<exists>r. offline_run demo_pipeline no_pin [] None None None (traced (\<lambda>_. Inr ())) []
     = ([PREPROCESSING, DIARIZING, TRANSCRIBING, LINKING, FUSING], Inr r) \<and> or_overlap_regions r = 0"
proof -
  let ?report = "traced (\<lambda>_. Inr ())"
  have report: "?report s tr = (tr @ [s], Inr ())" for s tr by (simp add: traced_def)
  show ?thesis
    using demo_reports[where report = ?report, OF report[of _ "[]"] report report report report,
        where job = None and sid = None and pin = no_pin and payload = "[]"] by auto
qed

lemma demo_quiet_run:
  "\<exists>r seg. offline_run demo_pipeline pin payload None (Some ''job_local'') None (\<lambda>stage. returnS ()) ()
     = ((), Inr r) \<and> or_segments r = [seg] \<and> or_warnings r = []"
proof -
  let ?report = "\<lambda>stage. returnS ()"
  have report: "?report s () = ((), Inr ())" for s :: job_state by (simp add: returnS_def)
  show ?thesis
    using demo_reports[where report = ?report, OF report report report report report,
        where job = None and sid = "Some ''job_local''" and pin = pin and payload = payload] by auto
qed


section \<open>What a transcript is made of\<close>

text \<open>A group of speech outside overlap, or one of an overlap region of the run.\<close>

definition placed_group :: "time_interval list \<Rightarrow> overlap_region list \<Rightarrow> word_group \<Rightarrow> bool" where
  "placed_group speech regions g \<longleftrightarrow> words_inside g \<and>
     (if wg_is_overlap g then \<exists>region\<in>set regions. inside_region region g
      else wg_speaker g = None \<and> wg_track g = None
        \<and> wg_interval g \<in> set (subtract_intervals speech (map region_interval regions)))"

lemma transcribe_non_overlap_groups:
  assumes "transcribe_non_overlap p pin buf speech regions warned = Inr (gs, warned')"
  shows "\<forall>g\<in>set gs. placed_group speech regions g"
proof -
  let ?P = "\<lambda>acc. \<forall>g\<in>set (fst acc). placed_group speech regions g"
  have "?P (gs, warned')"
  proof (rule foldR_invariant[OF assms[unfolded transcribe_non_overlap_def]])
    fix interval acc acc'
    assume i: "interval \<in> set (subtract_intervals speech (map region_interval regions))"
      and P: "?P acc" and step: "transcribe_interval p pin buf interval acc = Inr acc'"
    have "placed_group speech regions (speech_group (words_owned_by ws interval) interval scores)"
      if "words_owned_by ws interval \<noteq> []" for ws scores
      using that i words_owned_inside[OF that]
      by (simp add: placed_group_def speech_group_def)
    then show "?P acc'"
      using P step by (auto simp: transcribe_interval_def bindR_eq_Inr Let_def split: if_splits)
  qed simp
  then show ?thesis by simp
qed

lemma separate_region_groups:
  assumes "separate_region p pin buf d region (gs, warned, degraded) st = (st', Inr (gs', warned', degraded'))"
    and "\<forall>g\<in>set gs. placed_group speech regions g" and "region \<in> set regions"
    and "valid_interval (region_interval region)"
  shows "\<forall>g\<in>set gs'. placed_group speech regions g"
proof -
  from assms(1) obtain new w deg where
    h: "handle_overlap_region p pin buf region (decide_region p d region) (Some d) st = (st', Inr (new, w, deg))"
    and gs': "gs' = gs @ new" by (auto simp: separate_region_def action_simps)
  have "\<forall>g\<in>set new. wg_is_overlap g \<and> inside_region region g"
    using handled_region_groups[OF assms(4) h refl]
    by (auto simp: fallback_groups_def crop_groups_def mixture_group_def separated_group_def)
  then show ?thesis using assms(2,3) gs' by (auto simp: placed_group_def inside_region_def)
qed

lemma separated_groups:
  assumes "foldS (separate_region p pin buf d) rs acc st = (st', Inr acc')"
    and "\<forall>g\<in>set (fst acc). placed_group speech regions g" and "set rs \<subseteq> set regions"
    and "\<forall>r\<in>set regions. valid_interval (region_interval r)"
  shows "\<forall>g\<in>set (fst acc'). placed_group speech regions g"
proof (rule foldS_invariant[where P = "\<lambda>a. \<forall>g\<in>set (fst a). placed_group speech regions g", OF assms(2,1)])
  fix region a t t' a'
  assume "region \<in> set rs" "\<forall>g\<in>set (fst a). placed_group speech regions g"
    "separate_region p pin buf d region a t = (t', Inr a')"
  then show "\<forall>g\<in>set (fst a'). placed_group speech regions g"
    using separate_region_groups[of p pin buf d region "fst a" "fst (snd a)" "snd (snd a)" t t'
        "fst a'" "fst (snd a')" "snd (snd a')"] assms(3,4) by auto
qed

lemma diarized_regions_valid:
  assumes "diarization_stage p buf = Inr (d, regions)"
    and "\<And>osd. port_detect_overlap (pl_ports p) buf = Inr osd \<Longrightarrow>
      \<forall>r\<in>set (overlap_regions d @ osd). valid_interval (region_interval r)"
  shows "\<forall>r\<in>set regions. valid_interval (region_interval r)"
proof -
  from assms(1) obtain osd gap m where "port_detect_overlap (pl_ports p) buf = Inr osd"
      "regions = merge_overlap_regions (overlap_regions d) osd gap m"
    by (auto simp: diarization_stage_def bindR_eq_Inr Let_def)
  then show ?thesis using regions_separated(2)[OF assms(2), of osd gap m] by auto
qed

lemma session_run_config: "session_run (new_session sid c v) st \<Longrightarrow> ss_config st = c"
  using session_run_wf[OF _ wf_new_session] by (fastforce simp: evolves_def new_session_def)

text \<open>
  The transcript of a job. A run that succeeds has taken the session of the job from its empty
  state by session operations only, so the session invariant holds in the final state and at most
  the session limit and the unattributed sink are counted; its segments are the final order of one
  faithful run of segments per word group; and each group has the words of one piece of speech
  outside overlap, without a speaker of its own, or of a part of one overlap region.
\<close>

theorem transcript_of_a_job:
  assumes "offline_run p pin payload job sid None report w = (w', Inr r)"
    and "decode_stage p payload = Inr asset"
    and "diarization_stage p (mono_16k asset) = Inr (d, regions)"
    and "\<And>osd. port_detect_overlap (pl_ports p) (mono_16k asset) = Inr osd \<Longrightarrow>
      \<forall>r\<in>set (overlap_regions d @ osd). valid_interval (region_interval r)"
  defines "session \<equiv> or_else sid (case job of None \<Rightarrow> ''job_local'' | Some j \<Rightarrow> j)"
  shows "\<exists>speech st groups parts. port_vad (pl_ports p) (mono_16k asset) = Inr speech
    \<and> session_run (new_session session (pl_config p) (embedder_version (pl_ports p))) st
    \<and> or_session_speakers r = active_speaker_count st
    \<and> or_session_speakers r \<le> max 0 (max_session_speakers (product (pl_config p))) + 1
    \<and> or_segments r = sort_segments (concat parts)
    \<and> list_all2 (faithful_run st) groups parts
    \<and> (\<forall>g\<in>set groups. placed_group speech regions g)"
proof -
  let ?st0 = "new_session session (pl_config p) (embedder_version (pl_ports p))"
  from assms(1-3) obtain st1 pin' speech groups warned st2 all_groups warnings degraded st3 st4 segs where
    b: "runS (build_global_speakers p d regions (mono_16k asset)) ?st0 = Inr (st1, ())"
    and t: "transcription_stage p pin (mono_16k asset) regions = Inr (pin', speech, groups, warned)"
    and s: "runS (foldS (separate_region p pin' (mono_16k asset) d) regions (groups, warned, warned \<noteq> [])) st1
      = Inr (st2, all_groups, warnings, degraded)"
    and l: "runS (linking_stage p) st2 = Inr (st3, ())"
    and f: "runS (fusion_stage p session d all_groups) st3 = Inr (st4, segs)"
    and r: "or_segments r = segs" "or_session_speakers r = active_speaker_count st4"
    unfolding session_def by (auto simp: offline_run_def Let_def action_simps)
  have run3: "session_run ?st0 st3"
    using keeps_runS[OF keeps_build b] keeps_runS[OF session_moves.keeps_fold[OF keeps_separate_region] s]
      keeps_runS[OF keeps_linking l] by (blast intro: session_run_trans)
  have run4: "session_run ?st0 st4" using run3 keeps_runS[OF keeps_fusion f] by (rule session_run_trans)
  from f obtain raw where fu: "fuse (pl_fresh p) (pl_event_id p) (pl_calibrate p) (fusion_options p session)
      all_groups (regular_tracks d) st3 = Inr (st4, raw)" and segs: "segs = sort_segments raw"
    by (auto simp: fusion_stage_def action_simps)
  from fuse_runs_faithful[OF session_run_reachable[OF run3] fu] obtain parts where
    wf4: "wf_session st4" and parts: "raw = concat parts" "list_all2 (faithful_run st4) all_groups parts" by blast
  have sp: "port_vad (pl_ports p) (mono_16k asset) = Inr speech"
    and tn: "\<exists>w1. transcribe_non_overlap p pin' (mono_16k asset) speech regions w1 = Inr (groups, warned)"
    using t by (auto simp: transcription_stage_def bindR_eq_Inr)
  have "\<forall>g\<in>set groups. placed_group speech regions g"
    using tn transcribe_non_overlap_groups by blast
  with separated_groups[OF s[unfolded runS_eq_Inr], of speech regions]
    diarized_regions_valid[OF assms(3,4)]
  have "\<forall>g\<in>set all_groups. placed_group speech regions g" by simp
  moreover have "active_speaker_count st4 \<le> max 0 (max_session_speakers (product (pl_config p))) + 1"
  proof -
    have "session_limit st4 = max_session_speakers (product (pl_config p))"
      using session_run_config[OF run4] by (simp add: session_limit_def new_session_def)
    then show ?thesis using wf4 by (auto simp: wf_session_def active_speaker_count_eq split: if_splits)
  qed
  ultimately have "port_vad (pl_ports p) (mono_16k asset) = Inr speech \<and> session_run ?st0 st4
    \<and> or_session_speakers r = active_speaker_count st4
    \<and> or_session_speakers r \<le> max 0 (max_session_speakers (product (pl_config p))) + 1
    \<and> or_segments r = sort_segments (concat parts) \<and> list_all2 (faithful_run st4) all_groups parts
    \<and> (\<forall>g\<in>set all_groups. placed_group speech regions g)"
    using sp run4 r segs parts by simp
  then show ?thesis by (intro exI)
qed

theorem transcript_of_a_job_witness:
  "\<exists>r st groups parts. snd (offline_run demo_pipeline no_pin [] None None None (traced (\<lambda>_. Inr ())) []) = Inr r
     \<and> or_segments r = sort_segments (concat parts) \<and> list_all2 (faithful_run st) groups parts
     \<and> (\<forall>g\<in>set groups. placed_group [TI 0 1000] [] g)"
proof -
  from demo_run obtain tr r where
    run: "offline_run demo_pipeline no_pin [] None None None (traced (\<lambda>_. Inr ())) [] = (tr, Inr r)" by blast
  have "port_detect_overlap (pl_ports demo_pipeline) (mono_16k demo_asset) = Inr osd \<Longrightarrow>
      \<forall>r\<in>set (overlap_regions demo_diarization @ osd). valid_interval (region_interval r)" for osd
    by (simp add: demo_pipeline_def demo_ports_def demo_diarization_def)
  from transcript_of_a_job[OF run demo_decode demo_diarized[folded demo_mono] this] run
  show ?thesis by auto
qed

end
