(* ===== verification/JsonFields.thy ===== *)
theory JsonFields
  imports Prelude
begin

text \<open>
  Reading a JSON object back into a value: the access \<open>d[k]\<close>, the optional access \<open>d.get(k)\<close> and
  the access with a default, as the services use them on event payloads, queued tasks and database
  rows. A field of another kind than the one written is read as an error.
\<close>

fun as_str :: "json \<Rightarrow> string res" where
  "as_str (JStr s) = Inr s"
| "as_str _ = Inl TypeError"

fun as_int :: "json \<Rightarrow> int res" where
  "as_int (JInt n) = Inr n"
| "as_int _ = Inl TypeError"

fun as_real :: "json \<Rightarrow> real res" where
  "as_real (JReal x) = Inr x"
| "as_real _ = Inl TypeError"

fun as_list :: "json \<Rightarrow> json list res" where
  "as_list (JList xs) = Inr xs"
| "as_list _ = Inl TypeError"

fun as_obj :: "json \<Rightarrow> (string \<times> json) list res" where
  "as_obj (JObj xs) = Inr xs"
| "as_obj _ = Inl TypeError"

text \<open>\<open>int\<close> of a text: an optional sign and digits, with single underscores between them.\<close>

fun grouped :: "string \<Rightarrow> bool" where
  "grouped [] \<longleftrightarrow> False"
| "grouped [c] \<longleftrightarrow> is_digit c"
| "grouped (c # d # s) \<longleftrightarrow> is_digit c \<and> (grouped (d # s) \<or> d = CHR ''_'' \<and> grouped s)"

definition int_of_text :: "string \<Rightarrow> int res" where
  "int_of_text s =
     (let t = strip s;
          u = (if take 1 t \<in> {''-'', ''+''} then drop 1 t else t)
      in if \<not> grouped u then Inl ValueError
         else Inr ((if take 1 t = ''-'' then - 1 else 1) * int (undigits (filter is_digit u))))"

text \<open>\<open>int(v)\<close>.\<close>

definition json_int :: "json \<Rightarrow> int res" where
  "json_int v =
     (case v of JInt n \<Rightarrow> Inr n | JReal x \<Rightarrow> Inr (trunc x) | JBool b \<Rightarrow> Inr (if b then 1 else 0)
        | JStr s \<Rightarrow> int_of_text s | _ \<Rightarrow> Inl TypeError)"

text \<open>\<open>str(v)\<close>: a text is itself; \<open>show\<close> writes every other value.\<close>

definition text_value :: "(json \<Rightarrow> string) \<Rightarrow> json \<Rightarrow> string" where
  "text_value show v = (case v of JStr s \<Rightarrow> s | _ \<Rightarrow> show v)"

text \<open>\<open>bool(v)\<close>.\<close>

fun json_truth :: "json \<Rightarrow> bool" where
  "json_truth JNull = False"
| "json_truth (JBool b) = b"
| "json_truth (JInt n) = (n \<noteq> 0)"
| "json_truth (JReal x) = (x \<noteq> 0)"
| "json_truth (JStr s) = (s \<noteq> [])"
| "json_truth (JList xs) = (xs \<noteq> [])"
| "json_truth (JObj xs) = (xs \<noteq> [])"

definition field :: "(string \<times> json) list \<Rightarrow> string \<Rightarrow> (json \<Rightarrow> 'a res) \<Rightarrow> 'a res" where
  "field d k f = (case map_of d k of None \<Rightarrow> Inl KeyError | Some v \<Rightarrow> f v)"

definition field_opt :: "(string \<times> json) list \<Rightarrow> string \<Rightarrow> (json \<Rightarrow> 'a res) \<Rightarrow> 'a option res" where
  "field_opt d k f =
     (case map_of d k of
        None \<Rightarrow> Inr None
      | Some v \<Rightarrow> if v = JNull then Inr None else bindR (f v) (\<lambda>a. Inr (Some a)))"

text \<open>\<open>payload.get(k) or default\<close>.\<close>

definition field_or :: "(string \<times> json) list \<Rightarrow> string \<Rightarrow> 'a \<Rightarrow> (json \<Rightarrow> 'a res) \<Rightarrow> 'a res" where
  "field_or d k dflt f =
     (case map_of d k of
        None \<Rightarrow> Inr dflt
      | Some v \<Rightarrow> if json_truth v then f v else Inr dflt)"

text \<open>\<open>d.get(k, default)\<close>.\<close>

definition field_default :: "(string \<times> json) list \<Rightarrow> string \<Rightarrow> 'a \<Rightarrow> (json \<Rightarrow> 'a res) \<Rightarrow> 'a res" where
  "field_default d k dflt f = (case map_of d k of None \<Rightarrow> Inr dflt | Some v \<Rightarrow> f v)"

lemma field_default_Some: "map_of d k = Some v \<Longrightarrow> field_default d k dflt f = f v"
  by (simp add: field_default_def)

lemma field_Some: "map_of d k = Some v \<Longrightarrow> field d k f = f v"
  by (simp add: field_def)

lemma field_opt_str: "map_of d k = Some (json_opt JStr a) \<Longrightarrow> field_opt d k as_str = Inr a"
  by (cases a) (simp_all add: field_opt_def)

lemma field_opt_int: "map_of d k = Some (json_opt JInt a) \<Longrightarrow> field_opt d k as_int = Inr a"
  by (cases a) (simp_all add: field_opt_def)

lemma field_opt_real: "map_of d k = Some (json_opt JReal a) \<Longrightarrow> field_opt d k as_real = Inr a"
  by (cases a) (simp_all add: field_opt_def)

lemma field_opt_nat:
  "map_of d k = Some (json_opt (\<lambda>n. JInt (int n)) a) \<Longrightarrow> field_opt d k as_int = Inr (map_option int a)"
  by (cases a) (simp_all add: field_opt_def)

lemma field_or_bool: "map_of d k = Some (JBool b) \<Longrightarrow> field_or d k False (\<lambda>v. Inr True) = Inr b"
  by (cases b) (simp_all add: field_or_def)

lemma field_or_str: "map_of d k = Some (JStr s) \<Longrightarrow> field_or d k [] as_str = Inr s"
  by (simp add: field_or_def)

lemma read_scores: "mapR (\<lambda>(k, w). bindR (as_real w) (\<lambda>r. Inr (k, r))) (map (\<lambda>(k, v). (k, JReal v)) xs) = Inr xs"
  by (induction xs) auto

lemma field_or_scores:
  "map_of d k = Some (JObj (map (\<lambda>(k, v). (k, JReal v)) xs)) \<Longrightarrow>
     field_or d k [] (\<lambda>v. bindR (as_obj v) (mapR (\<lambda>(k, w). bindR (as_real w) (\<lambda>r. Inr (k, r))))) = Inr xs"
  by (cases xs) (simp_all add: field_or_def read_scores split: prod.split)

lemma field_or_flags:
  "map_of d k = Some (JList (map JStr xs)) \<Longrightarrow>
     field_or d k [] (\<lambda>v. bindR (as_list v) (mapR as_str)) = Inr xs"
proof -
  have "mapR as_str (map JStr xs) = Inr xs" by (induction xs) auto
  then show "map_of d k = Some (JList (map JStr xs)) \<Longrightarrow> ?thesis"
    by (cases xs) (simp_all add: field_or_def)
qed

end
