(* ===== verification/Streaming.thy ===== *)
theory Streaming
  imports PipelineRun JsonFields
begin

text \<open>
  The near-realtime session, \<^verbatim>\<open>src/src/sastt/application/streaming_pipeline.py\<close>: the ring buffer of
  received PCM, the rolling step that transcribes closed speech and emits provisional events, the
  label revisions, and the final pass that runs the offline pipeline over the spooled audio and
  publishes the finals. Every method is an action on \<open>stream_session\<close>; what the constructor fixes is
  the record \<open>stream\<close>. Clock and identifiers are functions of the number of events in the log.
  Metrics and timing are not modelled.
\<close>

section \<open>State\<close>

record emitted =
  em_event_id :: string
  em_start :: int
  em_end :: int
  em_speaker :: string
  em_track :: "nat option"

record stream =
  str_session_id :: string
  str_pipeline :: pipeline
  str_keep_audio :: bool
  str_clock :: "int \<Rightarrow> int"
  str_event_id :: "int \<Rightarrow> string"
  str_config_version :: string
  str_final_fresh :: "nat \<Rightarrow> string"
  str_final_event_id :: "nat \<Rightarrow> string"

record stream_session =
  sx_state :: stream_state
  sx_log :: event_log
  sx_speakers :: session_state
  sx_pin :: language_pin
  sx_samples :: "sample list"
  sx_total :: int
  sx_spool :: "bytes option"
  sx_emitted :: "emitted list"
  sx_emitted_until :: int
  sx_last_process :: int
  sx_finalized :: bool

abbreviation str_config :: "stream \<Rightarrow> config" where
  "str_config x \<equiv> pl_config (str_pipeline x)"

abbreviation str_ports :: "stream \<Rightarrow> ports" where
  "str_ports x \<equiv> pl_ports (str_pipeline x)"

definition LOG_RETENTION :: int where "LOG_RETENTION = 10000"

definition new_stream_session :: "stream \<Rightarrow> stream_session" where
  "new_stream_session x =
     \<lparr>sx_state = CREATED, sx_log = new_log (str_session_id x) LOG_RETENTION,
      sx_speakers = new_session (str_session_id x) (str_config x) (embedder_version (str_ports x)),
      sx_pin = no_pin, sx_samples = [], sx_total = 0,
      sx_spool = (if str_keep_audio x then Some [] else None), sx_emitted = [],
      sx_emitted_until = 0, sx_last_process = 0, sx_finalized = False\<rparr>"

definition on_speakers :: "(session_state, 'a) action \<Rightarrow> (stream_session, 'a) action" where
  "on_speakers = zoomS sx_speakers (\<lambda>st s. s\<lparr>sx_speakers := st\<rparr>)"

section \<open>Derived values\<close>

definition stream_rate :: "stream \<Rightarrow> int" where
  "stream_rate x = canonical_sample_rate (audio (str_config x))"

definition hop_ms :: "stream \<Rightarrow> int" where
  "hop_ms x = seconds_to_ms (diarization_hop_seconds (streaming (str_config x)))"

definition window_ms :: "stream \<Rightarrow> int" where
  "window_ms x = seconds_to_ms (diarization_window_seconds (streaming (str_config x)))"

definition ring_ms :: "stream \<Rightarrow> int" where
  "ring_ms x = seconds_to_ms (ring_buffer_seconds (streaming (str_config x)))"

definition silence_ms :: "stream \<Rightarrow> int" where
  "silence_ms x = seconds_to_ms (finalize_after_silence_seconds (streaming (str_config x)))"

definition now_ms :: "stream \<Rightarrow> (stream_session, int) action" where
  "now_ms x s = (s, samples_to_ms (sx_total s) (stream_rate x))"

section \<open>Events\<close>

definition versions_to_dict :: "model_versions \<Rightarrow> (string \<times> string option) list" where
  "versions_to_dict v =
     [(''diarization'', mv_diarization v), (''embedding'', mv_embedding v),
      (''separation'', mv_separation v), (''asr'', mv_asr v), (''calibration'', mv_calibration v)]"

text \<open>A request with the defaults of \<open>append\<close>.\<close>

definition plain_request :: "event_type \<Rightarrow> (string \<times> json) list \<Rightarrow> stream \<Rightarrow> append_request" where
  "plain_request kind payload x =
     \<lparr>rq_type = kind, rq_now = 0, rq_fresh = [], rq_revision = 1, rq_supersedes = None,
      rq_final = False, rq_payload = payload, rq_versions = [],
      rq_config = Some (str_config_version x), rq_dedup = None, rq_event_id = None\<rparr>"

definition versioned_request :: "event_type \<Rightarrow> (string \<times> json) list \<Rightarrow> stream \<Rightarrow> append_request" where
  "versioned_request kind payload x =
     (plain_request kind payload x)\<lparr>rq_versions := versions_to_dict (pipeline_versions (str_pipeline x))\<rparr>"

text \<open>\<open>self.log.append(...)\<close>: the clock is read and an identifier made for the event.\<close>

definition append_event :: "stream \<Rightarrow> append_request \<Rightarrow> (stream_session, server_event) action" where
  "append_event x r =
     updateS (\<lambda>s. let n = log_sequence (sx_log s) in
       bindR (log_append (r\<lparr>rq_now := str_clock x n, rq_fresh := str_event_id x n\<rparr>) (sx_log s))
         (\<lambda>(l, e). Inr (s\<lparr>sx_log := l\<rparr>, e)))"

definition start_stream :: "stream \<Rightarrow> (stream_session, server_event) action" where
  "start_stream x =
     bindS (readS sx_state) (\<lambda>m.
       if m \<noteq> CREATED then liftS (Inl (Sastt PlainSasttError))
       else bindS (modifyS (\<lambda>s. s\<lparr>sx_state := STREAMING\<rparr>)) (\<lambda>_.
         append_event x (versioned_request SESSION_STARTED
           [(''session_id'', JStr (str_session_id x)), (''sample_rate'', JInt (stream_rate x)),
            (''frame_ms'', JInt (frame_ms (streaming (str_config x)))),
            (''max_session_speakers'', JInt (max_session_speakers (product (str_config x))))] x)))"

definition fail_stream :: "stream \<Rightarrow> string \<Rightarrow> string \<Rightarrow> (stream_session, server_event) action" where
  "fail_stream x code message =
     bindS (modifyS (\<lambda>s. s\<lparr>sx_state := STREAM_FAILED\<rparr>)) (\<lambda>_.
       append_event x (plain_request SESSION_FAILED
         [(''error_code'', JStr code), (''message'', JStr message)] x))"

definition replay_stream :: "int \<Rightarrow> stream_session \<Rightarrow> server_event list res" where
  "replay_stream last_seen s = replay_from (sx_log s) last_seen"

text \<open>Label changes become revisions; a delivered event is never rewritten.\<close>

definition revision_of :: "stream \<Rightarrow> label_change \<Rightarrow> append_request" where
  "revision_of x c =
     (versioned_request TRANSCRIPT_REVISION
        [(''session_speaker_id'', JStr (lc_speaker c)), (''previous_label'', JStr (lc_previous c)),
         (''speaker_label'', JStr (lc_new c)), (''reason'', JStr (lc_reason c))] x)\<lparr>rq_revision := 2\<rparr>"

definition drain_label_revisions :: "stream \<Rightarrow> (stream_session, server_event list) action" where
  "drain_label_revisions x =
     bindS (on_speakers (updateS (\<lambda>st. Inr (drain_label_changes st)))) (\<lambda>changes.
       mapS (\<lambda>c. append_event x (revision_of x c)) changes)"

section \<open>The rolling step\<close>

text \<open>\<open>_window_buffer\<close>: the configured window of the newest samples, at its absolute position.\<close>

definition window_buffer :: "stream \<Rightarrow> stream_session \<Rightarrow> audio_buffer option res" where
  "window_buffer x s =
     (if sx_samples s = [] then Inr None
      else bindR (ms_to_samples (window_ms x) (stream_rate x)) (\<lambda>n.
        let chunk = py_last n (sx_samples s);
            start = max 0 (sx_total s - int (length chunk))
        in if chunk = [] then Inr None
           else bindR (mk_audio_buffer [chunk] (stream_rate x) start [''mono''] (stream_rate x))
                  (\<lambda>b. Inr (Some b))))"

definition closed_speech ::
  "stream \<Rightarrow> bool \<Rightarrow> int \<Rightarrow> int \<Rightarrow> time_interval list \<Rightarrow> time_interval list" where
  "closed_speech x force now until speech =
     filter (\<lambda>i. until < ti_end i \<and> (force \<or> silence_ms x \<le> now - ti_end i)) speech"

definition close_region ::
  "stream \<Rightarrow> bool \<Rightarrow> int \<Rightarrow> audio_buffer \<Rightarrow> diarization_result \<Rightarrow> time_interval \<Rightarrow> overlap_region \<Rightarrow>
     word_group list \<Rightarrow> (stream_session, word_group list) action" where
  "close_region x force now buf d pending region groups =
     (case clamp (region_interval region) pending of
        None \<Rightarrow> returnS groups
      | Some clipped \<Rightarrow>
          if \<not> force \<and> now - ti_end clipped < silence_ms x then returnS groups
          else bindS (readS sx_pin) (\<lambda>pin.
            bindS (on_speakers (handle_overlap_region (str_pipeline x) pin buf region
                     (decide_region (str_pipeline x) d region) (Some d))) (\<lambda>(gs, ws, deg).
              returnS (groups @ gs))))"

definition close_interval ::
  "stream \<Rightarrow> bool \<Rightarrow> int \<Rightarrow> audio_buffer \<Rightarrow> diarization_result \<Rightarrow> overlap_region list \<Rightarrow>
     time_interval \<Rightarrow> word_group list \<Rightarrow> (stream_session, word_group list) action" where
  "close_interval x force now buf d overlaps interval groups =
     bindS (readS sx_emitted_until) (\<lambda>until.
     bindS (liftS (mk_interval (max (ti_start interval) until) (ti_end interval))) (\<lambda>pending.
     bindS (readS sx_pin) (\<lambda>pin.
     bindS (liftS (transcribe_non_overlap (str_pipeline x) pin buf [pending] overlaps [])) (\<lambda>(gs, ws).
       foldS (close_region x force now buf d pending) overlaps (groups @ gs)))))"

definition emit_segment :: "stream \<Rightarrow> segment \<Rightarrow> (stream_session, server_event) action" where
  "emit_segment x seg =
     bindS (append_event x (versioned_request TRANSCRIPT_PROVISIONAL (to_public_dict seg) x)) (\<lambda>e.
     bindS (modifyS (\<lambda>s. s\<lparr>sx_emitted := sx_emitted s @ [\<lparr>em_event_id = ev_id e,
         em_start = seg_start seg, em_end = seg_end seg, em_speaker = seg_session_speaker_id seg,
         em_track = seg_track seg\<rparr>]\<rparr>)) (\<lambda>_. returnS e))"

text \<open>The segments of this step get the identifiers after those of the events so far.\<close>

definition rolling_options :: "stream \<Rightarrow> fuse_options" where
  "rolling_options x = (fusion_options (str_pipeline x) (str_session_id x))\<lparr>fo_is_final := False\<rparr>"

definition emit_provisional ::
  "stream \<Rightarrow> word_group list \<Rightarrow> speaker_turn list \<Rightarrow> (stream_session, server_event list) action" where
  "emit_provisional x groups ts =
     (if groups = [] then returnS []
      else bindS (readS (\<lambda>s. nat (log_sequence (sx_log s)))) (\<lambda>k.
        bindS (on_speakers (updateS (fuse (pl_fresh (str_pipeline x))
                 (\<lambda>n. pl_event_id (str_pipeline x) (k + n)) (pl_calibrate (str_pipeline x))
                 (rolling_options x) groups ts))) (\<lambda>segs.
          mapS (emit_segment x) (sort_segments segs))))"

definition resolve_language ::
  "stream \<Rightarrow> audio_buffer \<Rightarrow> time_interval list \<Rightarrow> (stream_session, unit) action" where
  "resolve_language x buf speech =
     updateS (\<lambda>s. bindR (resolve_session_language (str_pipeline x) buf speech (sx_pin s, []))
       (\<lambda>(pin, ws). Inr (s\<lparr>sx_pin := pin\<rparr>, ())))"

definition process_window ::
  "stream \<Rightarrow> bool \<Rightarrow> int \<Rightarrow> audio_buffer \<Rightarrow> (stream_session, server_event list) action" where
  "process_window x force now buf =
     bindS (liftS (diarization_stage (str_pipeline x) buf)) (\<lambda>(d, overlaps).
     bindS (on_speakers (build_global_speakers (str_pipeline x) d overlaps buf)) (\<lambda>_.
     bindS (liftS (port_vad (str_ports x) buf)) (\<lambda>speech.
     bindS (resolve_language x buf speech) (\<lambda>_.
     bindS (readS sx_emitted_until) (\<lambda>until.
       let closed = closed_speech x force now until speech in
       if closed = [] then drain_label_revisions x
       else bindS (foldS (close_interval x force now buf d overlaps) closed []) (\<lambda>groups.
         bindS (emit_provisional x groups (regular_tracks d)) (\<lambda>events.
         bindS (modifyS (\<lambda>s. s\<lparr>sx_emitted_until :=
             list_max (sx_emitted_until s) (map ti_end closed)\<rparr>)) (\<lambda>_.
         bindS (drain_label_revisions x) (\<lambda>revisions.
           returnS (events @ revisions))))))))))"

definition process :: "stream \<Rightarrow> bool \<Rightarrow> (stream_session, server_event list) action" where
  "process x force =
     bindS (now_ms x) (\<lambda>now.
     bindS (modifyS (\<lambda>s. s\<lparr>sx_last_process := now\<rparr>)) (\<lambda>_.
     bindS (\<lambda>s. (s, window_buffer x s)) (\<lambda>b.
       case b of None \<Rightarrow> returnS [] | Some buf \<Rightarrow> process_window x force now buf)))"

definition maybe_process :: "stream \<Rightarrow> (stream_session, server_event list) action" where
  "maybe_process x =
     bindS (now_ms x) (\<lambda>now. bindS (readS sx_last_process) (\<lambda>done_ms.
       if now - done_ms < hop_ms x then returnS [] else process x False))"

section \<open>Ingest\<close>

definition receive_frame :: "bytes \<Rightarrow> stream_session \<Rightarrow> stream_session" where
  "receive_frame payload s =
     (let frame = pcm_samples payload in
      s\<lparr>sx_spool := (case sx_spool s of None \<Rightarrow> None | Some b \<Rightarrow> Some (b @ payload)),
        sx_total := sx_total s + int (length frame), sx_samples := sx_samples s @ frame\<rparr>)"

definition trim_ring :: "int \<Rightarrow> stream_session \<Rightarrow> stream_session" where
  "trim_ring ring s =
     (if ring < int (length (sx_samples s))
      then s\<lparr>sx_samples := py_last ring (sx_samples s)\<rparr> else s)"

definition push_pcm :: "stream \<Rightarrow> bytes \<Rightarrow> (stream_session, server_event list) action" where
  "push_pcm x payload =
     bindS (readS sx_state) (\<lambda>m.
       if m \<noteq> STREAMING then liftS (Inl (Sastt SessionClockDiscontinuityError))
       else if odd (length payload) then liftS (Inl (Sastt PlainSasttError))
       else bindS (modifyS (receive_frame payload)) (\<lambda>_.
         bindS (liftS (ms_to_samples (ring_ms x) (stream_rate x))) (\<lambda>ring.
         bindS (modifyS (trim_ring ring)) (\<lambda>_. maybe_process x))))"

definition push_audio :: "stream \<Rightarrow> audio_buffer \<Rightarrow> (stream_session, server_event list) action" where
  "push_audio x buf =
     (if sample_rate buf \<noteq> stream_rate x then liftS (Inl (Sastt PlainSasttError))
      else bindS (liftS (to_mono buf)) (\<lambda>m. push_pcm x (to_pcm16 (hd (samples m)))))"

section \<open>The final pass\<close>

definition final_pipeline :: "stream \<Rightarrow> pipeline" where
  "final_pipeline x =
     (str_pipeline x)\<lparr>pl_provisional_continuity := True, pl_fresh := str_final_fresh x,
        pl_event_id := str_final_event_id x\<rparr>"

definition final_pin :: "stream \<Rightarrow> language_pin \<Rightarrow> language_pin" where
  "final_pin x pin =
     pin_language (session_language (str_pipeline x) pin) (language_probability pin) no_pin"

definition all_session_samples :: "stream_session \<Rightarrow> sample list" where
  "all_session_samples s = (case sx_spool s of None \<Rightarrow> sx_samples s | Some b \<Rightarrow> pcm_samples b)"

text \<open>The offline pipeline over the whole audio, with a clean session state and no stage callback.\<close>

definition final_run :: "stream \<Rightarrow> stream_session \<Rightarrow> offline_result res" where
  "final_run x s =
     bindR (to_wav (all_session_samples s) (stream_rate x)) (\<lambda>payload.
     bindR (samples_to_ms (int (length (all_session_samples s))) (stream_rate x)) (\<lambda>_.
       snd (offline_run (final_pipeline x) (final_pin x (sx_pin s)) payload None
              (Some (str_session_id x)) None (\<lambda>stage. returnS ()) ())))"

text \<open>
  The provisional event a final replaces: overlapping, not replaced before, one of the same source
  track first, then the longest overlap, then the earliest.
\<close>

fun consider_emitted ::
  "segment \<Rightarrow> string set \<Rightarrow> emitted \<Rightarrow> string option \<times> nat \<times> int \<Rightarrow> string option \<times> nat \<times> int" where
  "consider_emitted seg used e (best, best_key) =
     (if em_event_id e \<in> used then (best, best_key)
      else let overlap = intersection_ms (TI (em_start e) (em_end e)) (segment_interval seg);
               key = (if em_track e = seg_track seg then 1 else 0, overlap)
           in if overlap \<le> 0 then (best, best_key)
              else if best_key < key then (Some (em_event_id e), key)
              else (best, best_key))"

definition superseded_event_id :: "emitted list \<Rightarrow> segment \<Rightarrow> string set \<Rightarrow> string option" where
  "superseded_event_id es seg used = fst (fold (consider_emitted seg used) es (None, 0, 0))"

definition final_reason :: string where
  "final_reason = ''final_pass_reconciliation''"

text \<open>The rolling identity that a final replaces is merged into its speaker or promoted.\<close>

definition reconcile_identity :: "segment \<Rightarrow> emitted \<Rightarrow> (session_state, unit) action" where
  "reconcile_identity seg prior =
     bindS (updateS (\<lambda>st. bindR (get st (em_speaker prior)) (\<lambda>s. Inr (st, s)))) (\<lambda>speaker.
       if speaker_state speaker = PROVISIONAL \<and> py_startswith (seg_label seg) ''Speaker '' then
         bindS (readS (\<lambda>st. first_such (\<lambda>c. session_speaker_id c \<noteq> session_speaker_id speaker
                   \<and> speaker_state c \<noteq> PROVISIONAL \<and> display_label c = seg_label seg) (active st)))
           (\<lambda>target.
         bindS (case target of None \<Rightarrow> returnS False
                | Some t \<Rightarrow> updateS (\<lambda>st. bindR (can_merge (session_speaker_id speaker)
                       (session_speaker_id t) st) (\<lambda>ok. Inr (st, ok)))) (\<lambda>ok.
           if ok then bindS (updateS (merge (session_speaker_id speaker)
                         (session_speaker_id (the target)) final_reason)) (\<lambda>_. returnS ())
           else bindS (updateS (promote_provisional (em_speaker prior) final_reason
                         (Some (seg_label seg)))) (\<lambda>_. returnS ())))
       else returnS ())"

definition prepare_final ::
  "segment \<Rightarrow> string set \<times> (segment \<times> string option) list \<Rightarrow>
     (stream_session, string set \<times> (segment \<times> string option) list) action" where
  "prepare_final seg acc =
     (case acc of (used, prepared) \<Rightarrow>
        bindS (readS sx_emitted) (\<lambda>es.
        let superseded = superseded_event_id es seg used in
        if truthy superseded then
          bindS (case first_such (\<lambda>e. Some (em_event_id e) = superseded) (rev es) of
                   None \<Rightarrow> returnS ()
                 | Some prior \<Rightarrow> on_speakers (reconcile_identity seg prior)) (\<lambda>_.
            returnS (insert (the superseded) used, prepared @ [(seg, superseded)]))
        else returnS (used, prepared @ [(seg, superseded)])))"

definition final_dedup_key :: "segment \<Rightarrow> string" where
  "final_dedup_key seg =
     str_int (seg_start seg) @ '':'' @ str_int (seg_end seg) @ '':'' @ seg_session_speaker_id seg @
     '':'' @ (case seg_track seg of None \<Rightarrow> ''None'' | Some t \<Rightarrow> digits t)"

definition final_request :: "stream \<Rightarrow> offline_result \<Rightarrow> segment \<times> string option \<Rightarrow> append_request" where
  "final_request x r p =
     (plain_request TRANSCRIPT_FINAL (to_public_dict (fst p)) x)
       \<lparr>rq_revision := if truthy (snd p) then 2 else 1, rq_supersedes := snd p, rq_final := True,
        rq_versions := versions_to_dict (or_versions r), rq_dedup := Some (final_dedup_key (fst p))\<rparr>"

definition warning_request :: "stream \<Rightarrow> offline_result \<Rightarrow> append_request" where
  "warning_request x r =
     plain_request PIPELINE_WARNING
       [(''warnings'', JList (map JStr (or_warnings r))), (''degraded_mode'', JBool (or_degraded r))] x"

definition final_pass :: "stream \<Rightarrow> (stream_session, server_event list) action" where
  "final_pass x =
     bindS (readS sx_samples) (\<lambda>ring.
       if ring = [] then returnS []
       else bindS (\<lambda>s. (s, final_run x s)) (\<lambda>r.
         bindS (drain_label_revisions x) (\<lambda>before.
         bindS (foldS prepare_final (or_segments r) ({}, [])) (\<lambda>(used, prepared).
         bindS (drain_label_revisions x) (\<lambda>after.
         bindS (mapS (\<lambda>p. append_event x (final_request x r p)) prepared) (\<lambda>finals.
         bindS (if or_warnings r = [] then returnS []
                else mapS (append_event x) [warning_request x r]) (\<lambda>warned.
           returnS (before @ after @ finals @ warned))))))))"

definition finalize_stream :: "stream \<Rightarrow> (stream_session, server_event list) action" where
  "finalize_stream x =
     bindS (readS sx_finalized) (\<lambda>already.
       if already then returnS []
       else bindS (modifyS (\<lambda>s. s\<lparr>sx_state := FINALIZING\<rparr>)) (\<lambda>_.
         bindS (process x True) (\<lambda>events.
         bindS (final_pass x) (\<lambda>finals.
         bindS (modifyS (\<lambda>s. s\<lparr>sx_state := FINALIZED, sx_finalized := True\<rparr>)) (\<lambda>_.
         bindS (readS (\<lambda>s. length (final_events (sx_log s)))) (\<lambda>count.
         bindS (now_ms x) (\<lambda>now.
         bindS (append_event x (versioned_request SESSION_FINALIZED
                  [(''segments'', JInt (int count)), (''audio_duration_ms'', JInt now)] x)) (\<lambda>e.
           returnS (events @ finals @ [e])))))))))"

section \<open>The result\<close>

fun status_of_value :: "string \<Rightarrow> identity_status res" where
  "status_of_value s =
     (if s = ''provisional'' then Inr StatusProvisional
      else if s = ''enrolled'' then Inr StatusEnrolled
      else if s = ''anonymous'' then Inr StatusAnonymous
      else if s = ''unknown'' then Inr StatusUnknown
      else if s = ''ambiguous'' then Inr StatusAmbiguous
      else Inl ValueError)"

definition no_versions :: model_versions where
  "no_versions = \<lparr>mv_diarization = None, mv_embedding = None, mv_separation = None, mv_asr = None,
     mv_calibration = None\<rparr>"

definition segment_from_payload :: "(string \<times> json) list \<Rightarrow> segment res" where
  "segment_from_payload d =
     bindR (field d ''session_id'' as_str) (\<lambda>sid.
     bindR (field d ''event_id'' as_str) (\<lambda>eid.
     bindR (field d ''start_ms'' as_int) (\<lambda>s.
     bindR (field d ''end_ms'' as_int) (\<lambda>e.
     bindR (field d ''text'' as_str) (\<lambda>txt.
     bindR (field d ''speaker_id'' as_str) (\<lambda>spk.
     bindR (field d ''session_speaker_id'' as_str) (\<lambda>sspk.
     bindR (field d ''identity_status'' (\<lambda>v. bindR (as_str v) status_of_value)) (\<lambda>status.
     bindR (field d ''revision'' as_int) (\<lambda>rev_no.
     bindR (field_opt d ''supersedes_event_id'' as_str) (\<lambda>sup.
     bindR (field_opt d ''registry_speaker_id'' as_str) (\<lambda>reg.
     bindR (field_or d ''speaker_label'' [] as_str) (\<lambda>label.
     bindR (field_opt d ''speaker_name'' as_str) (\<lambda>name.
     bindR (field_or d ''is_overlap'' False (\<lambda>v. Inr True)) (\<lambda>ovl.
     bindR (field_opt d ''estimated_concurrent_speakers'' as_int) (\<lambda>conc.
     bindR (field_opt d ''count_confidence'' as_real) (\<lambda>cc.
     bindR (field_opt d ''source_track'' as_int) (\<lambda>track.
     bindR (field_opt d ''separation_backend'' as_str) (\<lambda>backend.
     bindR (mk_confidences no_confidences) (\<lambda>conf.
     bindR (field_or d ''raw_scores'' [] (\<lambda>v. bindR (as_obj v) (mapR (\<lambda>(k, w).
              bindR (as_real w) (\<lambda>r. Inr (k, r)))))) (\<lambda>scores.
     bindR (field_or d ''quality_flags'' [] (\<lambda>v. bindR (as_list v) (mapR as_str))) (\<lambda>flags.
     bindR (field_or d ''degraded_mode'' False (\<lambda>v. Inr True)) (\<lambda>deg.
     bindR (field_or d ''is_final'' False (\<lambda>v. Inr True)) (\<lambda>fin.
       mk_segment \<lparr>seg_session_id = sid, seg_event_id = eid, seg_start = s, seg_end = e,
         seg_text = txt, seg_speaker_id = spk, seg_session_speaker_id = sspk, seg_status = status,
         seg_revision = rev_no, seg_supersedes = sup, seg_registry_id = reg, seg_label = label,
         seg_name = name, seg_is_overlap = ovl, seg_concurrent = conc, seg_count_confidence = cc,
         seg_track = map_option nat track, seg_backend = backend, seg_confidences = conf,
         seg_raw_scores = scores, seg_flags = flags, seg_degraded = deg, seg_is_final = fin,
         seg_versions = no_versions, seg_words = [], seg_schema = SCHEMA_VERSION\<rparr>)))))))))))))))))))))))"

definition stream_result :: "stream_session \<Rightarrow> segment list res" where
  "stream_result s =
     bindR (mapR segment_from_payload (map ev_payload
              (filter (\<lambda>e. ev_type e = TRANSCRIPT_FINAL) (final_events (sx_log s))))) (\<lambda>segs.
       Inr (sort_segments segs))"

end
