(* ===== verification/StreamProps.thy ===== *)
theory StreamProps
  imports Streaming
begin

text \<open>
  What a realtime session guarantees whatever the models answer and whichever calls fail: its
  speakers only make session moves, its log only grows, a language once decided stays, the rolling
  window shows the audio that was received at its true position, finals replace provisional events
  one to one, and nothing happens after finalization.
\<close>

section \<open>Relations along a session\<close>

definition log_grows :: "event_log \<Rightarrow> event_log \<Rightarrow> bool" where
  "log_grows l l' \<longleftrightarrow> (\<forall>hs. log_stores l hs \<longrightarrow> (\<exists>es. log_stores l' (hs @ es)))"

lemma log_grows_refl: "log_grows l l"
  unfolding log_grows_def by (metis append_Nil2)

lemma log_grows_trans: "log_grows l m \<Longrightarrow> log_grows m n \<Longrightarrow> log_grows l n"
  unfolding log_grows_def by (metis append_assoc)

lemma log_append_grows: "log_append r l = Inr (l', e) \<Longrightarrow> log_grows l l'"
  unfolding log_grows_def using log_append_stores by (metis append_Nil2)

definition stream_evolves :: "stream_session \<Rightarrow> stream_session \<Rightarrow> bool" where
  "stream_evolves s s' \<longleftrightarrow> session_run (sx_speakers s) (sx_speakers s') \<and> log_grows (sx_log s) (sx_log s')
     \<and> (pinned_language (sx_pin s) \<noteq> None \<longrightarrow> sx_pin s' = sx_pin s)
     \<and> (\<exists>es. sx_emitted s' = sx_emitted s @ es) \<and> sx_emitted_until s \<le> sx_emitted_until s'"

text \<open>The received audio is not touched.\<close>

definition audio_kept :: "stream_session \<Rightarrow> stream_session \<Rightarrow> bool" where
  "audio_kept s s' \<longleftrightarrow> sx_samples s' = sx_samples s \<and> sx_total s' = sx_total s \<and> sx_spool s' = sx_spool s"

interpretation evolving: state_relation stream_evolves
proof
  show "stream_evolves s s" for s
    unfolding stream_evolves_def using run_refl log_grows_refl by simp
  show "stream_evolves s u" if "stream_evolves s t" "stream_evolves t u" for s t u
    using that unfolding stream_evolves_def
    by (metis append_assoc log_grows_trans order_trans session_run_trans)
qed

interpretation same_audio: state_relation audio_kept
  by unfold_locales (auto simp: audio_kept_def)

section \<open>Every method evolves the session\<close>

lemma evolving_speakers:
  "session_moves.keeps m \<Longrightarrow> evolving.keeps (on_speakers m)"
  by (auto simp: evolving.keeps_def on_speakers_def zoomS_def stream_evolves_def log_grows_refl
      dest: session_moves.keepsD split: prod.split)

lemma same_audio_speakers: "same_audio.keeps (on_speakers m)"
  by (auto simp: same_audio.keeps_def on_speakers_def zoomS_def audio_kept_def split: prod.split)

lemma evolving_append: "evolving.keeps (append_event x r)"
  unfolding append_event_def Let_def
  by (rule evolving.keeps_update)
    (auto simp: bindR_eq_Inr stream_evolves_def run_refl intro: log_append_grows)

lemma same_audio_append: "same_audio.keeps (append_event x r)"
  unfolding append_event_def Let_def
  by (rule same_audio.keeps_update) (auto simp: bindR_eq_Inr audio_kept_def)

lemma resolve_keeps_pin:
  "resolve_session_language p buf speech (pin, ws) = Inr (pin', ws') \<Longrightarrow>
     pinned_language pin \<noteq> None \<Longrightarrow> pin' = pin"
  by (auto simp: resolve_session_language_def Let_def split: if_splits)

lemma evolving_language: "evolving.keeps (resolve_language x buf speech)"
  unfolding resolve_language_def
  by (rule evolving.keeps_update)
    (auto simp: bindR_eq_Inr stream_evolves_def run_refl log_grows_refl dest: resolve_keeps_pin)

lemma same_audio_language: "same_audio.keeps (resolve_language x buf speech)"
  unfolding resolve_language_def
  by (rule same_audio.keeps_update) (auto simp: bindR_eq_Inr audio_kept_def)

lemma keeps_drain: "session_moves.keeps (updateS (\<lambda>st. Inr (drain_label_changes st)))"
  by (rule session_moves.keeps_update) (auto intro: session_run_one[OF session_step.drain])

lemma keeps_promote: "session_moves.keeps (updateS (promote_provisional i why label))"
  by (rule session_moves.keeps_update) (rule session_run_one[OF session_step.promote])

lemma keeps_reconcile_identity: "session_moves.keeps (reconcile_identity seg prior)"
  unfolding reconcile_identity_def by (intro session_ops keeps_promote)

text \<open>Updates of the other fields.\<close>

lemma evolving_fields:
  "evolving.keeps (modifyS (\<lambda>s. s\<lparr>sx_state := m\<rparr>))"
  "evolving.keeps (modifyS (\<lambda>s. s\<lparr>sx_state := m, sx_finalized := b\<rparr>))"
  "evolving.keeps (modifyS (\<lambda>s. s\<lparr>sx_last_process := n\<rparr>))"
  "evolving.keeps (modifyS (\<lambda>s. s\<lparr>sx_emitted := sx_emitted s @ es\<rparr>))"
  "evolving.keeps (modifyS (\<lambda>s. s\<lparr>sx_emitted_until := list_max (sx_emitted_until s) ns\<rparr>))"
  "evolving.keeps (modifyS (receive_frame payload))"
  "evolving.keeps (modifyS (trim_ring ring))"
  by (rule evolving.keeps_modify;
      simp add: stream_evolves_def run_refl log_grows_refl list_max_ge receive_frame_def trim_ring_def Let_def)+

lemma same_audio_fields:
  "same_audio.keeps (modifyS (\<lambda>s. s\<lparr>sx_state := m\<rparr>))"
  "same_audio.keeps (modifyS (\<lambda>s. s\<lparr>sx_state := m, sx_finalized := b\<rparr>))"
  "same_audio.keeps (modifyS (\<lambda>s. s\<lparr>sx_last_process := n\<rparr>))"
  "same_audio.keeps (modifyS (\<lambda>s. s\<lparr>sx_emitted := sx_emitted s @ es\<rparr>))"
  "same_audio.keeps (modifyS (\<lambda>s. s\<lparr>sx_emitted_until := list_max (sx_emitted_until s) ns\<rparr>))"
  by (rule same_audio.keeps_modify; simp add: audio_kept_def)+

lemmas evolving_ops =
  evolving_append evolving_language  evolving_fields evolving_speakers evolving.keeps_intros
  keeps_drain keeps_fuse keeps_build keeps_region keeps_reconcile_identity

lemmas same_audio_ops =
  same_audio_append same_audio_language  same_audio_fields same_audio_speakers
  same_audio.keeps_intros

lemma evolving_process: "evolving.keeps (process x force)"
  unfolding process_def process_window_def close_interval_def close_region_def emit_provisional_def
    emit_segment_def drain_label_revisions_def now_ms_def Let_def
  by (intro evolving_ops)

lemma same_audio_process: "same_audio.keeps (process x force)"
  unfolding process_def process_window_def close_interval_def close_region_def emit_provisional_def
    emit_segment_def drain_label_revisions_def now_ms_def Let_def
  by (intro same_audio_ops)

lemma evolving_maybe: "evolving.keeps (maybe_process x)"
  unfolding maybe_process_def now_ms_def by (intro evolving_ops evolving_process)

lemma same_audio_maybe: "same_audio.keeps (maybe_process x)"
  unfolding maybe_process_def now_ms_def by (intro same_audio_ops same_audio_process)

lemma evolving_final_pass: "evolving.keeps (final_pass x)"
  unfolding final_pass_def prepare_final_def drain_label_revisions_def Let_def by (intro evolving_ops)

lemma same_audio_final_pass: "same_audio.keeps (final_pass x)"
  unfolding final_pass_def prepare_final_def drain_label_revisions_def Let_def by (intro same_audio_ops)

section \<open>Operations of a client\<close>

datatype stream_op = StartOp | PushOp bytes | PushAudioOp audio_buffer | FinalizeOp | FailOp string string

fun stream_step :: "stream \<Rightarrow> stream_op \<Rightarrow> stream_session \<Rightarrow> stream_session" where
  "stream_step x StartOp s = fst (start_stream x s)"
| "stream_step x (PushOp payload) s = fst (push_pcm x payload s)"
| "stream_step x (PushAudioOp buf) s = fst (push_audio x buf s)"
| "stream_step x FinalizeOp s = fst (finalize_stream x s)"
| "stream_step x (FailOp code message) s = fst (fail_stream x code message s)"

lemma evolving_push: "evolving.keeps (push_pcm x payload)"
  unfolding push_pcm_def by (intro evolving_ops evolving_maybe)

lemma evolving_methods:
  "evolving.keeps (start_stream x)" "evolving.keeps (push_audio x buf)"
  "evolving.keeps (finalize_stream x)" "evolving.keeps (fail_stream x code message)"
  unfolding start_stream_def push_audio_def finalize_stream_def fail_stream_def now_ms_def
  by (intro evolving_ops evolving_push evolving_process evolving_final_pass)+

lemma stream_step_evolves: "stream_evolves s (stream_step x op s)"
  using evolving_push evolving_methods by (cases op) (simp_all add: evolving.keeps_def)

lemma stream_run_evolves: "stream_evolves s (fold (stream_step x) ops s)"
proof (induction ops arbitrary: s)
  case (Cons op ops)
  from evolving.R_trans[OF stream_step_evolves Cons.IH] show ?case by simp
qed (simp add: evolving.R_refl)

lemma new_stream_valid:
  "wf_session (sx_speakers (new_stream_session x))" "log_stores (sx_log (new_stream_session x)) []"
  using wf_new_session log_stores_new[of LOG_RETENTION] by (simp_all add: new_stream_session_def LOG_RETENTION_def)

lemma stream_run_invariant:
  "wf_session (sx_speakers (fold (stream_step x) ops (new_stream_session x)))"
  "\<exists>hs. log_stores (sx_log (fold (stream_step x) ops (new_stream_session x))) hs"
proof -
  have ev: "stream_evolves (new_stream_session x) (fold (stream_step x) ops (new_stream_session x))"
    by (rule stream_run_evolves)
  then show "wf_session (sx_speakers (fold (stream_step x) ops (new_stream_session x)))"
    using new_stream_valid(1) session_run_wf unfolding stream_evolves_def by blast
  from ev show "\<exists>hs. log_stores (sx_log (fold (stream_step x) ops (new_stream_session x))) hs"
    using new_stream_valid(2) unfolding stream_evolves_def log_grows_def by metis
qed


section \<open>The ring buffer\<close>

text \<open>The ring is the end of the received audio, and the spool, if there is one, all of it.\<close>

definition wf_audio :: "bool \<Rightarrow> stream_session \<Rightarrow> bool" where
  "wf_audio keep s \<longleftrightarrow> (keep \<longrightarrow> sx_spool s \<noteq> None) \<and> (\<exists>received k. sx_samples s = drop k received \<and> sx_total s = int (length received)
     \<and> (\<forall>b. sx_spool s = Some b \<longrightarrow> even (length b) \<and> pcm_samples b = received))"

lemma wf_audio_kept: "audio_kept s s' \<Longrightarrow> wf_audio keep s \<Longrightarrow> wf_audio keep s'"
  by (simp add: audio_kept_def wf_audio_def)

lemma wf_audio_receive:
  assumes "wf_audio keep s" and "even (length payload)"
  shows "wf_audio keep (receive_frame payload s)"
proof -
  from assms(1) obtain received k where keep: "keep \<longrightarrow> sx_spool s \<noteq> None" and r: "sx_samples s = drop k received" "sx_total s = int (length received)"
    "\<forall>b. sx_spool s = Some b \<longrightarrow> even (length b) \<and> pcm_samples b = received" by (auto simp: wf_audio_def)
  let ?all = "received @ pcm_samples payload"
  have "sx_samples (receive_frame payload s) = drop (min k (length received)) ?all"
    using r(1) by (simp add: receive_frame_def Let_def min_def)
  moreover have "sx_total (receive_frame payload s) = int (length ?all)"
    using r(2) by (simp add: receive_frame_def Let_def)
  moreover have "\<forall>b. sx_spool (receive_frame payload s) = Some b \<longrightarrow> even (length b) \<and> pcm_samples b = ?all"
    using r(3) assms(2) by (auto simp: receive_frame_def Let_def pcm_samples_append split: option.splits)
  moreover have "keep \<longrightarrow> sx_spool (receive_frame payload s) \<noteq> None"
    using keep by (auto simp: receive_frame_def Let_def)
  ultimately show ?thesis unfolding wf_audio_def by blast
qed

lemma wf_audio_trim: "wf_audio keep s \<Longrightarrow> wf_audio keep (trim_ring n s)"
proof -
  assume "wf_audio keep s"
  then obtain received k where keep: "keep \<longrightarrow> sx_spool s \<noteq> None" and r: "sx_samples s = drop k received" "sx_total s = int (length received)"
    "\<forall>b. sx_spool s = Some b \<longrightarrow> even (length b) \<and> pcm_samples b = received" by (auto simp: wf_audio_def)
  obtain j where "py_last n (sx_samples s) = drop j (sx_samples s)" using py_last_suffix by blast
  then have "\<exists>i. sx_samples (trim_ring n s) = drop i received"
    using r(1) by (auto simp: trim_ring_def drop_drop)
  then obtain i where "sx_samples (trim_ring n s) = drop i received" by blast
  moreover have "sx_total (trim_ring n s) = sx_total s" "sx_spool (trim_ring n s) = sx_spool s"
    by (simp_all add: trim_ring_def)
  ultimately show ?thesis using keep r unfolding wf_audio_def by metis
qed

lemma wf_audio_push:
  assumes "wf_audio keep s"
  shows "wf_audio keep (fst (push_pcm x payload s))"
proof (cases "sx_state s \<noteq> STREAMING \<or> odd (length payload)")
  case True
  then show ?thesis using assms by (auto simp: push_pcm_def bind_pure liftS_def)
next
  case False
  let ?s1 = "receive_frame payload s"
  have w1: "wf_audio keep ?s1" using wf_audio_receive[OF assms] False by simp
  show ?thesis
  proof (cases "ms_to_samples (ring_ms x) (stream_rate x)")
    case (Inl e)
    then have "fst (push_pcm x payload s) = ?s1" using False by (simp add: push_pcm_def bind_pure bind_raise)
    then show ?thesis using w1 by simp
  next
    case (Inr ring)
    have "fst (push_pcm x payload s) = fst (maybe_process x (trim_ring ring ?s1))"
      using False Inr by (simp add: push_pcm_def bind_pure)
    moreover have "audio_kept (trim_ring ring ?s1) (fst (maybe_process x (trim_ring ring ?s1)))"
      using same_audio_maybe[of x] by (simp add: same_audio.keeps_def)
    ultimately show ?thesis using wf_audio_kept wf_audio_trim[OF w1] by metis
  qed
qed

lemma wf_audio_step: "wf_audio keep s \<Longrightarrow> wf_audio keep (stream_step x op s)"
proof (cases op)
  case StartOp
  have "same_audio.keeps (start_stream x)" unfolding start_stream_def by (intro same_audio_ops)
  with StartOp show "wf_audio keep s \<Longrightarrow> ?thesis" by (auto simp: same_audio.keeps_def intro: wf_audio_kept)
next
  case (PushAudioOp buf)
  then show "wf_audio keep s \<Longrightarrow> ?thesis"
    using wf_audio_push
    by (cases "to_mono buf") (simp_all add: push_audio_def bindS_def liftS_def)
next
  case FinalizeOp
  have "same_audio.keeps (finalize_stream x)" unfolding finalize_stream_def now_ms_def
    by (intro same_audio_ops same_audio_process same_audio_final_pass)
  with FinalizeOp show "wf_audio keep s \<Longrightarrow> ?thesis" by (auto simp: same_audio.keeps_def intro: wf_audio_kept)
next
  case (FailOp c m)
  have "same_audio.keeps (fail_stream x c m)" unfolding fail_stream_def by (intro same_audio_ops)
  with FailOp show "wf_audio keep s \<Longrightarrow> ?thesis" by (auto simp: same_audio.keeps_def intro: wf_audio_kept)
qed (simp add: wf_audio_push)

lemma wf_audio_run: "wf_audio (str_keep_audio x) (fold (stream_step x) ops (new_stream_session x))"
proof -
  have "wf_audio keep s \<Longrightarrow> wf_audio keep (fold (stream_step x) ops s)" for keep s
    by (induction ops arbitrary: s) (simp_all add: wf_audio_step)
  moreover have "wf_audio (str_keep_audio x) (new_stream_session x)" by (auto simp: wf_audio_def new_stream_session_def)
  ultimately show ?thesis by blast
qed

text \<open>
  C15: The rolling window. In every reachable session that keeps its audio, the window that the
  models are given ends at the last received sample and holds, at every absolute sample position
  it covers, exactly the sample received there, however often the ring was trimmed and whatever
  steps failed in between.
\<close>

theorem window_shows_received_audio:
  fixes x :: stream and ops :: "stream_op list"
  assumes "str_keep_audio x"
  defines "s \<equiv> fold (stream_step x) ops (new_stream_session x)"
  assumes "window_buffer x s = Inr (Some b)"
  shows "\<exists>spool. sx_spool s = Some spool \<and> end_sample b = int (length (pcm_samples spool))
    \<and> 0 \<le> start_sample b
    \<and> (\<forall>k. start_sample b \<le> k \<and> k < end_sample b \<longrightarrow> sample_at b 0 k = Some (pcm_samples spool ! nat k))"
proof -
  have wf: "wf_audio True s" using wf_audio_run[of x ops] assms(1) by (simp add: s_def)
  then obtain spool where sp: "sx_spool s = Some spool" by (auto simp: wf_audio_def)
  with wf obtain k where k: "sx_samples s = drop k (pcm_samples spool)"
    and total: "sx_total s = int (length (pcm_samples spool))" by (auto simp: wf_audio_def)
  from assms(3) obtain n chunk where chunk: "chunk = py_last n (sx_samples s)" "chunk \<noteq> []"
    and b: "samples b = [chunk]" "start_sample b = max 0 (sx_total s - int (length chunk))"
    by (auto simp: window_buffer_def bindR_eq_Inr Let_def mk_audio_buffer_eq_Inr split: if_splits)
  obtain j where "py_last n (sx_samples s) = drop j (sx_samples s)" using py_last_suffix by blast
  then have c: "chunk = drop (k + j) (pcm_samples spool)" using chunk(1) k by (simp add: add.commute)
  let ?all = "pcm_samples spool"
  have len: "length chunk = length ?all - (k + j)" "k + j < length ?all" using c chunk(2) by auto
  have start: "start_sample b = int (k + j)" using b(2) total len by simp
  have end_b: "end_sample b = int (length ?all)"
    using start len b(1) by (simp add: end_sample_def num_samples_def row_length_def)
  have "sample_at b 0 i = Some (?all ! nat i)" if "start_sample b \<le> i" "i < end_sample b" for i
  proof -
    have "nat (i - int (k + j)) < length chunk" using that start end_b len by simp
    moreover have "k + j + nat (i - int (k + j)) = nat i" using that start by simp
    ultimately have "chunk ! nat (i - int (k + j)) = ?all ! nat i" using c len(2) by simp
    then show ?thesis using that start b(1) by (simp add: sample_at_def num_channels_def)
  qed
  then show ?thesis using sp start end_b by auto
qed

text \<open>A short session of the demonstration pipeline: it is started and receives two samples.\<close>

definition demo_stream :: stream where
  "demo_stream = \<lparr>str_session_id = ''job_local'',
     str_pipeline = demo_pipeline\<lparr>pl_provisional_continuity := False\<rparr>, str_keep_audio = True,
     str_clock = (\<lambda>n. n), str_event_id = (\<lambda>n. if n = 0 then ''evt_0'' else ''evt_1''),
     str_config_version = ''cfg_1'', str_final_fresh = digits, str_final_event_id = digits\<rparr>"

lemma demo_event_id: "str_event_id demo_stream 0 = ''evt_0''" "str_event_id demo_stream 1 = ''evt_1''"
  by (simp_all add: demo_stream_def)

lemma demo_started:
  obtains l where "stream_step demo_stream StartOp (new_stream_session demo_stream) =
    (new_stream_session demo_stream)\<lparr>sx_state := STREAMING, sx_log := l\<rparr>"
    "log_sequence l = 1" "log_keys l = {(''evt_0'', 1)}" "log_finals l = Map.empty"
  by (auto simp: start_stream_def append_event_def bind_pure new_stream_session_def updateS_def
      Let_def log_append_def final_of_def new_log_def versioned_request_def plain_request_def
      new_event_def demo_event_id)

lemma demo_rate: "stream_rate demo_stream = 16000" "ring_ms demo_stream = 30000"
    "window_ms demo_stream = 10000" "hop_ms demo_stream = 2000"
  by (simp_all add: stream_rate_def ring_ms_def window_ms_def hop_ms_def demo_stream_def
      demo_pipeline_def default_config_def seconds_to_ms_def MS_PER_SECOND_def)

definition demo_client :: "stream_op list" where
  "demo_client = [StartOp, PushOp [0, 0, 0, 64]]"

lemma demo_received:
  obtains l where "fold (stream_step demo_stream) demo_client (new_stream_session demo_stream) =
    (new_stream_session demo_stream)\<lparr>sx_state := STREAMING, sx_log := l, sx_spool := Some [0, 0, 0, 64],
       sx_total := 2, sx_samples := [Fin 0, Fin (1/2)]\<rparr>"
    "log_sequence l = 1" "log_keys l = {(''evt_0'', 1)}" "log_finals l = Map.empty"
proof -
  obtain l where l: "stream_step demo_stream StartOp (new_stream_session demo_stream) =
    (new_stream_session demo_stream)\<lparr>sx_state := STREAMING, sx_log := l\<rparr>"
    and log: "log_sequence l = 1" "log_keys l = {(''evt_0'', 1)}" "log_finals l = Map.empty"
    by (rule demo_started)
  let ?s = "(new_stream_session demo_stream)\<lparr>sx_state := STREAMING, sx_log := l\<rparr>"
  have pcm: "pcm_samples [0, 0, 0, 64] = [Fin 0, Fin (1/2)]"
    by (simp add: le16_def word_cat_eq')
  have keep: "str_keep_audio demo_stream" by (simp add: demo_stream_def)
  have look: "bindS (now_ms demo_stream) f s = f (to_ms 2 16000) s" if "sx_total s = 2" for f :: "int \<Rightarrow> (stream_session, server_event list) action" and s
    using that by (simp add: bindS_def now_ms_def samples_to_ms_def demo_rate)
  have "stream_step demo_stream (PushOp [0, 0, 0, 64]) ?s = ?s\<lparr>sx_spool := Some [0, 0, 0, 64],
       sx_total := 2, sx_samples := [Fin 0, Fin (1/2)]\<rparr>"
    using pcm keep
    by (simp add: push_pcm_def bind_pure receive_frame_def Let_def ms_to_samples_def to_samples_def demo_rate
        MS_PER_SECOND_def trim_ring_def maybe_process_def look to_ms_def
        new_stream_session_def returnS_def)
  with l show thesis by (intro that[OF _ log]) (simp add: demo_client_def)
qed

theorem window_shows_received_audio_witness:
  "\<exists>b. window_buffer demo_stream (fold (stream_step demo_stream) demo_client (new_stream_session demo_stream)) = Inr (Some b)
     \<and> sample_at b 0 1 = Some (Fin (1/2))"
proof -
  let ?s = "fold (stream_step demo_stream) demo_client (new_stream_session demo_stream)"
  obtain l where s: "?s = (new_stream_session demo_stream)\<lparr>sx_state := STREAMING, sx_log := l,
       sx_spool := Some [0, 0, 0, 64], sx_total := 2, sx_samples := [Fin 0, Fin (1/2)]\<rparr>"
    by (rule demo_received)
  obtain b where b: "window_buffer demo_stream ?s = Inr (Some b)" "start_sample b = 0" "end_sample b = 2"
    unfolding s
    by (auto simp: window_buffer_def ms_to_samples_def to_samples_def demo_rate MS_PER_SECOND_def py_last_def
        mk_audio_buffer_def rectangular_def row_length_def MIN_CHANNELS_def MAX_CHANNELS_def
        end_sample_def num_samples_def)
  have "str_keep_audio demo_stream" by (simp add: demo_stream_def)
  from window_shows_received_audio[OF this b(1)] s b show ?thesis by (auto simp: le16_def word_cat_eq')
qed

section \<open>Life cycle\<close>

lemma append_event_outcome:
  assumes "append_event x r s = (s', Inr e)" and "\<not> rq_final r"
  shows "ev_type e = rq_type r" and "\<exists>l. s' = s\<lparr>sx_log := l\<rparr>"
proof -
  let ?r = "r\<lparr>rq_now := str_clock x (log_sequence (sx_log s)), rq_fresh := str_event_id x (log_sequence (sx_log s))\<rparr>"
  from assms(1) obtain l where l: "log_append ?r (sx_log s) = Inr (l, e)" "s' = s\<lparr>sx_log := l\<rparr>"
    by (auto simp: append_event_def action_simps Let_def bindR_eq_Inr)
  have "final_of (sx_log s) ?r = None" using assms(2) by (simp add: final_of_def)
  from log_append_new[OF l(1) this] show "ev_type e = rq_type r" by (auto simp: new_event_def)
  from l show "\<exists>l. s' = s\<lparr>sx_log := l\<rparr>" by blast
qed

lemma finalized_again: "sx_finalized s \<Longrightarrow> finalize_stream x s = (s, Inr [])"
  by (simp add: finalize_stream_def bind_pure returnS_def)

lemma push_outside: "sx_state s \<noteq> STREAMING \<Longrightarrow> push_pcm x payload s = (s, Inl (Sastt SessionClockDiscontinuityError))"
  by (simp add: push_pcm_def bind_pure liftS_def)

text \<open>
  The end of a session. A finalization that succeeds leaves the session finalized, its last
  event is \<open>session.finalized\<close>; every further finalization returns no events and changes nothing,
  and every further frame is refused and changes nothing.
\<close>

theorem finalization_is_final:
  assumes "finalize_stream x s = (s', Inr evs)" and "\<not> sx_finalized s"
  shows "sx_state s' = FINALIZED \<and> sx_finalized s' \<and> evs \<noteq> [] \<and> ev_type (last evs) = SESSION_FINALIZED
    \<and> finalize_stream x s' = (s', Inr [])
    \<and> push_pcm x payload s' = (s', Inl (Sastt SessionClockDiscontinuityError))"
proof -
  from assms obtain s1 s2 s3 r e n where
    fin: "s2 = s1\<lparr>sx_state := FINALIZED, sx_finalized := True\<rparr>" and look: "now_ms x s2 = (s3, Inr n)"
    and app: "append_event x r s3 = (s', Inr e)" and r: "rq_type r = SESSION_FINALIZED" "\<not> rq_final r"
    and evs: "evs \<noteq> []" "last evs = e"
    by (auto simp: finalize_stream_def action_simps versioned_request_def plain_request_def)
  have "s3 = s2" using look by (simp add: now_ms_def)
  then have "sx_state s' = FINALIZED" "sx_finalized s'" using append_event_outcome(2)[OF app r(2)] fin by auto
  moreover have "ev_type e = SESSION_FINALIZED" using append_event_outcome(1)[OF app r(2)] r(1) by simp
  ultimately show ?thesis using evs finalized_again push_outside by simp
qed

section \<open>Finals\<close>

definition overlap_ms :: "emitted \<Rightarrow> segment \<Rightarrow> int" where
  "overlap_ms e seg = intersection_ms (TI (em_start e) (em_end e)) (segment_interval seg)"

definition replace_key :: "segment \<Rightarrow> emitted \<Rightarrow> nat \<times> int" where
  "replace_key seg e = (if em_track e = seg_track seg then 1 else 0, overlap_ms e seg)"

text \<open>The choice of the replaced event is a maximum of the key over the usable events.\<close>

definition best_candidate :: "segment \<Rightarrow> string set \<Rightarrow> emitted list \<Rightarrow> string option \<Rightarrow> nat \<times> int \<Rightarrow> bool" where
  "best_candidate seg used es best key \<longleftrightarrow>
     (case best of
        None \<Rightarrow> key = (0, 0) \<and> (\<forall>e\<in>set es. em_event_id e \<in> used \<or> overlap_ms e seg \<le> 0)
      | Some i \<Rightarrow> (\<exists>e\<in>set es. em_event_id e = i \<and> i \<notin> used \<and> 0 < overlap_ms e seg \<and> key = replace_key seg e)
          \<and> (\<forall>e\<in>set es. em_event_id e \<in> used \<or> overlap_ms e seg \<le> 0 \<or> replace_key seg e \<le> key))"

lemma best_candidate_step:
  assumes "best_candidate seg used es best key"
    and "consider_emitted seg used e (best, key) = (best', key')"
  shows "best_candidate seg used (es @ [e]) best' key'"
proof (cases "em_event_id e \<in> used \<or> overlap_ms e seg \<le> 0")
  case True
  then have "best' = best" "key' = key" using assms(2) by (auto simp: Let_def overlap_ms_def split: if_splits)
  then show ?thesis using assms(1) True by (auto simp: best_candidate_def split: option.splits)
next
  case usable: False
  then have step: "(best', key') = (if key < replace_key seg e then (Some (em_event_id e), replace_key seg e) else (best, key))"
    using assms(2) by (simp add: Let_def overlap_ms_def replace_key_def split: if_splits)
  show ?thesis
  proof (cases "key < replace_key seg e")
    case True
    then have "best' = Some (em_event_id e)" "key' = replace_key seg e" using step by auto
    then show ?thesis using assms(1) usable True
      by (auto simp: best_candidate_def split: option.splits intro: order_trans order_less_imp_le)
  next
    case False
    then have same: "best' = best" "key' = key" using step by auto
    have "best \<noteq> None"
    proof
      assume "best = None"
      then have "key = (0, 0)" using assms(1) by (simp add: best_candidate_def)
      then have "key < replace_key seg e" using usable by (simp add: replace_key_def less_prod_def)
      then show False using False by simp
    qed
    then show ?thesis using assms(1) same usable False
      by (auto simp: best_candidate_def not_less split: option.splits)
  qed
qed

lemma best_candidate_fold:
  assumes "best_candidate seg used es best key"
  shows "\<exists>b k. fold (consider_emitted seg used) later_es (best, key) = (b, k) \<and> best_candidate seg used (es @ later_es) b k"
  using assms
proof (induction later_es arbitrary: es best key)
  case (Cons e later_es)
  obtain b k where step: "consider_emitted seg used e (best, key) = (b, k)" by (cases "consider_emitted seg used e (best, key)")
  from Cons.IH[OF best_candidate_step[OF Cons.prems step]] step show ?case by simp
qed simp

lemma superseded_best: "\<exists>key. best_candidate seg used es (superseded_event_id es seg used) key"
proof -
  have "best_candidate seg used [] None (0, 0)" by (simp add: best_candidate_def)
  from best_candidate_fold[OF this, of es] obtain b k where
    "fold (consider_emitted seg used) es (None, (0, 0)) = (b, k)" "best_candidate seg used es b k" by auto
  then have "best_candidate seg used es (superseded_event_id es seg used) k"
    by (simp add: superseded_event_id_def)
  then show ?thesis by blast
qed

text \<open>The events that the segments of a final pass replace, segment by segment.\<close>

fun choices :: "emitted list \<Rightarrow> string set \<Rightarrow> segment list \<Rightarrow> (segment \<times> string option) list" where
  "choices es used [] = []"
| "choices es used (seg # segs) =
     (let sid = superseded_event_id es seg used
      in (seg, sid) # choices es (if truthy sid then insert (the sid) used else used) segs)"

definition replaced :: "(segment \<times> string option) list \<Rightarrow> string list" where
  "replaced ps = List.map_filter (\<lambda>p. if truthy (snd p) then snd p else None) ps"

lemma superseded_fresh:
  assumes "superseded_event_id es seg used = Some i"
  shows "i \<notin> used" and "\<exists>e\<in>set es. em_event_id e = i \<and> 0 < overlap_ms e seg"
  using superseded_best[of seg used es] assms by (auto simp: best_candidate_def)

lemma choices_distinct: "distinct (replaced (choices es used segs)) \<and> set (replaced (choices es used segs)) \<inter> used = {}"
proof (induction segs arbitrary: used)
  case Nil
  then show ?case by (simp add: replaced_def map_filter_simps)
next
  case (Cons seg segs)
  let ?sid = "superseded_event_id es seg used"
  show ?case
  proof (cases "truthy ?sid")
    case True
    then obtain i where i: "?sid = Some i" by (cases ?sid) auto
    then have "replaced (choices es used (seg # segs)) = i # replaced (choices es (insert i used) segs)"
      using True by (simp add: replaced_def map_filter_simps)
    then show ?thesis using Cons.IH[of "insert i used"] superseded_fresh(1)[OF i] by auto
  next
    case False
    then have "replaced (choices es used (seg # segs)) = replaced (choices es used segs)"
      by (simp add: replaced_def map_filter_simps)
    then show ?thesis using Cons.IH[of used] by simp
  qed
qed

lemma choices_overlap:
  "(seg, Some i) \<in> set (choices es used segs) \<Longrightarrow> \<exists>e\<in>set es. em_event_id e = i \<and> 0 < overlap_ms e seg"
  by (induction segs arbitrary: used) (auto simp: Let_def intro: superseded_fresh(2)[OF sym])

lemma prepare_final_outcome:
  assumes "prepare_final seg (used, prepared) s = (s', Inr acc)"
  defines "sid \<equiv> superseded_event_id (sx_emitted s) seg used"
  shows "acc = (if truthy sid then insert (the sid) used else used, prepared @ [(seg, sid)])
    \<and> sx_emitted s' = sx_emitted s \<and> stream_evolves s s'"
proof -
  have "evolving.keeps (prepare_final seg (used, prepared))"
    unfolding prepare_final_def Let_def by (intro evolving_ops)
  then have ev: "stream_evolves s s'" using evolving.keepsD assms(1) by blast
  let ?prior = "first_such (\<lambda>e. Some (em_event_id e) = sid) (rev (sx_emitted s))"
  let ?reconcile = "case ?prior of None \<Rightarrow> returnS () | Some prior \<Rightarrow> on_speakers (reconcile_identity seg prior)"
  have emitted: "sx_emitted (fst (?reconcile s)) = sx_emitted s"
    by (simp add: on_speakers_def zoomS_def returnS_def split: option.split prod.split)
  show ?thesis
  proof (cases "truthy sid")
    case True
    then have "\<exists>v. ?reconcile s = (s', Inr v) \<and> acc = (insert (the sid) used, prepared @ [(seg, sid)])"
      using assms(1) unfolding prepare_final_def sid_def by (simp add: bind_pure Let_def action_simps)
    then show ?thesis using emitted ev True by (metis fst_conv)
  next
    case False
    then show ?thesis
      using assms(1) ev unfolding prepare_final_def sid_def by (simp add: bind_pure Let_def action_simps)
  qed
qed

lemma prepare_finals_outcome:
  assumes "foldS prepare_final segs (used, prepared) s = (s', Inr (used', prepared'))"
  shows "prepared' = prepared @ choices (sx_emitted s) used segs \<and> stream_evolves s s'"
  using assms
proof (induction segs arbitrary: used prepared s)
  case Nil
  then show ?case by (simp add: action_simps evolving.R_refl)
next
  case (Cons seg segs)
  from Cons.prems obtain t u ps where t: "prepare_final seg (used, prepared) s = (t, Inr (u, ps))"
    "foldS prepare_final segs (u, ps) t = (s', Inr (used', prepared'))" by (auto simp: action_simps)
  note one = prepare_final_outcome[OF t(1)]
  from Cons.IH[OF t(2)] one evolving.R_trans[of s t s'] show ?case by (auto simp: Let_def)
qed

interpretation same_emitted: state_relation "\<lambda>s s'. sx_emitted s' = sx_emitted s"
  by unfold_locales auto

lemma drain_emitted: "drain_label_revisions x s = (s', Inr es) \<Longrightarrow> sx_emitted s' = sx_emitted s"
proof -
  have "same_emitted.keeps (append_event x r)" for r
    unfolding append_event_def Let_def by (rule same_emitted.keeps_update) (auto simp: bindR_eq_Inr)
  moreover have "same_emitted.keeps (on_speakers m)" for m :: "(session_state, label_change list) action"
    by (simp add: same_emitted.keeps_def on_speakers_def zoomS_def split: prod.split)
  ultimately have "same_emitted.keeps (drain_label_revisions x)"
    unfolding drain_label_revisions_def by (intro same_emitted.keeps_bind same_emitted.keeps_map)
  then show "drain_label_revisions x s = (s', Inr es) \<Longrightarrow> sx_emitted s' = sx_emitted s"
    by (rule same_emitted.keepsD)
qed

lemma append_final_outcome:
  assumes "append_event x r s = (s', Inr e)" and "rq_final r" and "rq_dedup r = Some k"
    and "\<exists>hs. log_stores (sx_log s) hs"
  shows "(\<exists>hs. log_stores (sx_log s') hs) \<and> ev_final e \<and> ev_dedup e = Some k"
proof -
  let ?r = "r\<lparr>rq_now := str_clock x (log_sequence (sx_log s)), rq_fresh := str_event_id x (log_sequence (sx_log s))\<rparr>"
  from assms(1) obtain l where l: "log_append ?r (sx_log s) = Inr (l, e)" "s' = s\<lparr>sx_log := l\<rparr>"
    by (auto simp: append_event_def action_simps Let_def bindR_eq_Inr)
  obtain hs where hs: "log_stores (sx_log s) hs" using assms(4) by blast
  then have stores: "\<exists>hs. log_stores (sx_log s') hs"
    using log_append_stores[OF hs l(1)] l(2) by (auto split: if_splits)
  show ?thesis
  proof (cases "final_of (sx_log s) ?r")
    case None
    from log_append_new[OF l(1) None] have "e = new_event (sx_log s) ?r" by blast
    then show ?thesis using stores assms(2,3) by simp
  next
    case (Some e0)
    then have "e0 = e" using l(1) by (simp add: log_append_def)
    then have "log_finals (sx_log s) k = Some e" using Some assms(3) by (auto simp: final_of_Some)
    then show ?thesis using hs stores by (auto simp: log_stores_def)
  qed
qed


section \<open>The result endpoint\<close>

lemma status_of_value_value: "status_of_value (status_value st) = Inr st"
  by (cases st) simp_all

text \<open>
  What the result endpoint returns. Reading the public payload of a segment back gives the
  segment with every field but four: the confidences are always the uncalibrated ones, the model
  versions and the words are empty, and the schema version is the current one. So a calibrated
  session loses its confidences between its final events and its result.
\<close>

theorem result_of_payload:
  assumes "valid_segment seg"
  shows "segment_from_payload (to_public_dict seg) = Inr (seg\<lparr>seg_confidences := no_confidences,
     seg_versions := no_versions, seg_words := [], seg_schema := SCHEMA_VERSION\<rparr>)"
proof -
  let ?d = "to_public_dict seg"
  have strs: "field ?d ''session_id'' as_str = Inr (seg_session_id seg)"
      "field ?d ''event_id'' as_str = Inr (seg_event_id seg)" "field ?d ''text'' as_str = Inr (seg_text seg)"
      "field ?d ''speaker_id'' as_str = Inr (seg_speaker_id seg)"
      "field ?d ''session_speaker_id'' as_str = Inr (seg_session_speaker_id seg)"
    and ints: "field ?d ''start_ms'' as_int = Inr (seg_start seg)" "field ?d ''end_ms'' as_int = Inr (seg_end seg)"
      "field ?d ''revision'' as_int = Inr (seg_revision seg)"
    and status: "field ?d ''identity_status'' (\<lambda>v. bindR (as_str v) status_of_value) = Inr (seg_status seg)"
    by (simp_all add: field_def to_public_dict_def status_of_value_value del: status_of_value.simps)
  have opts: "field_opt ?d ''supersedes_event_id'' as_str = Inr (seg_supersedes seg)"
      "field_opt ?d ''registry_speaker_id'' as_str = Inr (seg_registry_id seg)"
      "field_opt ?d ''speaker_name'' as_str = Inr (seg_name seg)"
      "field_opt ?d ''separation_backend'' as_str = Inr (seg_backend seg)"
    by (rule field_opt_str, simp add: to_public_dict_def)+
  have nums: "field_opt ?d ''estimated_concurrent_speakers'' as_int = Inr (seg_concurrent seg)"
      "field_opt ?d ''count_confidence'' as_real = Inr (seg_count_confidence seg)"
      "field_opt ?d ''source_track'' as_int = Inr (map_option int (seg_track seg))"
    by (rule field_opt_int, simp add: to_public_dict_def, rule field_opt_real, simp add: to_public_dict_def,
        rule field_opt_nat, simp add: to_public_dict_def)
  have flags: "field_or ?d ''is_overlap'' False (\<lambda>v. Inr True) = Inr (seg_is_overlap seg)"
      "field_or ?d ''degraded_mode'' False (\<lambda>v. Inr True) = Inr (seg_degraded seg)"
      "field_or ?d ''is_final'' False (\<lambda>v. Inr True) = Inr (seg_is_final seg)"
    by (rule field_or_bool, simp add: to_public_dict_def)+
  have rest: "field_or ?d ''speaker_label'' [] as_str = Inr (seg_label seg)"
      "field_or ?d ''raw_scores'' [] (\<lambda>v. bindR (as_obj v) (mapR (\<lambda>(k, w).
         bindR (as_real w) (\<lambda>r. Inr (k, r))))) = Inr (seg_raw_scores seg)"
      "field_or ?d ''quality_flags'' [] (\<lambda>v. bindR (as_list v) (mapR as_str)) = Inr (seg_flags seg)"
    by (rule field_or_str, simp add: to_public_dict_def, rule field_or_scores, simp add: to_public_dict_def,
        rule field_or_flags, simp add: to_public_dict_def)
  have conf: "mk_confidences no_confidences = Inr no_confidences"
    by (simp add: mk_confidences_def no_confidences_def unit_or_none_def)
  have track: "map_option nat (map_option int tr) = tr" for tr by (cases tr) simp_all
  show ?thesis
    using assms unfolding segment_from_payload_def strs ints status opts nums flags rest conf bindR_Inr track
    by (simp add: valid_segment_def mk_segment_eq_Inr)
qed

definition calibrated_segment :: segment where
  "calibrated_segment = example_segment\<lparr>seg_confidences := no_confidences\<lparr>c_asr := Some (9/10),
     c_overall := Some (9/10), c_status := Calibrated\<rparr>\<rparr>"

theorem result_of_payload_witness:
  "mk_segment calibrated_segment = Inr calibrated_segment
   \<and> segment_from_payload (to_public_dict calibrated_segment) \<noteq> Inr calibrated_segment
   \<and> segment_from_payload (to_public_dict calibrated_segment) = Inr (example_segment\<lparr>seg_versions := no_versions\<rparr>)"
proof -
  have valid: "mk_segment calibrated_segment = Inr calibrated_segment"
    using example_segment_valid by (simp add: calibrated_segment_def mk_segment_eq_Inr)
  from result_of_payload[of calibrated_segment] valid
  have read: "segment_from_payload (to_public_dict calibrated_segment) = Inr (example_segment\<lparr>seg_versions := no_versions\<rparr>)"
    by (simp add: valid_segment_def calibrated_segment_def example_segment_def)
  moreover have "calibrated_segment \<noteq> example_segment\<lparr>seg_versions := no_versions\<rparr>"
    by (simp add: calibrated_segment_def example_segment_def no_confidences_def)
  ultimately show ?thesis using valid by simp
qed

lemma demo_final_pipeline: "final_pipeline demo_stream = demo_pipeline" "str_session_id demo_stream = ''job_local''"
  by (simp_all add: final_pipeline_def demo_stream_def demo_pipeline_def)

lemma demo_final_run:
  assumes "sx_spool s = Some [0, 0, 0, 64]"
  shows "\<exists>r seg. final_run demo_stream s = Inr r \<and> or_segments r = [seg] \<and> or_warnings r = []"
proof -
  have "length (all_session_samples s) = 2" using assms by (simp add: all_session_samples_def)
  then obtain payload where "to_wav (all_session_samples s) (stream_rate demo_stream) = Inr payload"
    using wav_roundtrip[of "all_session_samples s" "stream_rate demo_stream"] by (auto simp: demo_rate)
  moreover obtain r seg where "offline_run demo_pipeline (final_pin demo_stream (sx_pin s)) payload None
      (Some ''job_local'') None (\<lambda>stage. returnS ()) () = ((), Inr r)" "or_segments r = [seg]" "or_warnings r = []"
    using demo_quiet_run by blast
  ultimately show ?thesis
    by (simp add: final_run_def demo_rate demo_final_pipeline samples_to_ms_def)
qed

lemma demo_final_pass:
  "\<exists>s' e. final_pass demo_stream (fold (stream_step demo_stream) demo_client
      (new_stream_session demo_stream)) = (s', Inr [e]) \<and> ev_type e = TRANSCRIPT_FINAL"
proof -
  let ?s = "fold (stream_step demo_stream) demo_client (new_stream_session demo_stream)"
  obtain l where s: "?s = (new_stream_session demo_stream)\<lparr>sx_state := STREAMING, sx_log := l,
       sx_spool := Some [0, 0, 0, 64], sx_total := 2, sx_samples := [Fin 0, Fin (1/2)]\<rparr>" (is "_ = ?c")
    and log: "log_sequence l = 1" "log_keys l = {(''evt_0'', 1)}" "log_finals l = Map.empty"
    by (rule demo_received)
  obtain r seg where r: "final_run demo_stream ?c = Inr r" "or_segments r = [seg]" "or_warnings r = []"
    using demo_final_run[of ?c] by auto
  have drain: "drain_label_revisions demo_stream ?c = (?c, Inr [])"
    by (simp add: drain_label_revisions_def on_speakers_def zoomS_def updateS_def drain_label_changes_def
        bindS_def returnS_def new_stream_session_def new_session_def)
  have prep: "prepare_final seg ({}, []) ?c = (?c, Inr ({}, [(seg, None)]))"
    by (simp add: prepare_final_def bind_pure superseded_event_id_def new_stream_session_def returnS_def)
  obtain l' e where app: "append_event demo_stream (final_request demo_stream r (seg, None)) ?c =
      (?c\<lparr>sx_log := l'\<rparr>, Inr e)" "ev_type e = TRANSCRIPT_FINAL"
    by (auto simp: append_event_def updateS_def Let_def log log_append_def final_of_def new_event_def
        final_request_def plain_request_def demo_event_id)
  have look: "bindS (\<lambda>s. (s, f s)) g s = bindS (liftS (f s)) g s" for f g s
    by (simp add: bindS_def liftS_def)
  have "final_pass demo_stream ?c = (?c\<lparr>sx_log := l'\<rparr>, Inr [e])"
    using r by (simp add: final_pass_def bind_pure look bindS_def[of "drain_label_revisions _"] drain prep
        bindS_def[of "prepare_final _ _"] app bindS_def[of "append_event _ _"] bind_assoc returnS_def)
  then show ?thesis using s app(2) by auto
qed


theorem finalization_is_final_witness:
  "\<exists>s' evs. finalize_stream demo_stream (new_stream_session demo_stream) = (s', Inr evs)
     \<and> sx_state s' = FINALIZED \<and> finalize_stream demo_stream s' = (s', Inr [])"
proof -
  let ?s = "new_stream_session demo_stream"
  have look: "bindS (now_ms demo_stream) f s = f 0 s" if "sx_total s = 0"
    for f :: "int \<Rightarrow> (stream_session, server_event list) action" and s
    using that by (simp add: bindS_def now_ms_def samples_to_ms_def demo_rate to_ms_def)
  have read: "bindS (\<lambda>s. (s, f s)) g s = bindS (liftS (f s)) g s" for f g s
    by (simp add: bindS_def liftS_def)
  have proc: "process demo_stream True s = (s\<lparr>sx_last_process := 0\<rparr>, Inr [])"
    if "sx_total s = 0" "sx_samples s = []" for s
    using that by (simp add: process_def look bind_pure read window_buffer_def returnS_def)
  have pass: "final_pass demo_stream s = (s, Inr [])" if "sx_samples s = []" for s
    using that by (simp add: final_pass_def bind_pure returnS_def)
  have app: "\<exists>s' e. append_event demo_stream (versioned_request SESSION_FINALIZED payload demo_stream) s
      = (s', Inr e)" if "log_keys (sx_log s) = {}" for payload s
    using that by (auto simp: append_event_def updateS_def Let_def log_append_def final_of_def
        versioned_request_def plain_request_def)
  let ?t = "?s\<lparr>sx_state := FINALIZED, sx_last_process := 0, sx_finalized := True\<rparr>"
  have "log_keys (sx_log ?t) = {}" by (simp add: new_stream_session_def new_log_def)
  from app[OF this] obtain s' e where "append_event demo_stream (versioned_request SESSION_FINALIZED
      [(''segments'', JInt (int (length (final_events (sx_log ?t))))), (''audio_duration_ms'', JInt 0)]
      demo_stream) ?t = (s', Inr e)" by blast
  then have "\<exists>s' evs. finalize_stream demo_stream ?s = (s', Inr evs)"
    by (simp add: finalize_stream_def bind_pure bindS_def[of "process _ _"] proc bindS_def[of "final_pass _"]
        pass look new_stream_session_def bindS_def[of "append_event _ _"] returnS_def)
  then obtain s' evs where run: "finalize_stream demo_stream ?s = (s', Inr evs)" by blast
  have "\<not> sx_finalized ?s" by (simp add: new_stream_session_def)
  from finalization_is_final[OF run this] run show ?thesis by blast
qed


end
