(* ===== verification/Database.thy ===== *)
theory Database
  imports MemoryStore Effects JsonFields Transcript "HOL-Library.Option_ord"
begin

text \<open>
  The PostgreSQL adapters of \<^verbatim>\<open>src/src/sastt/adapters/persistence/postgres.py\<close>: the tables of
  \<^verbatim>\<open>src/migrations/0001_initial.sql\<close> they use, every SQL statement as an operation on these tables
  with the unique indexes and checks of the schema, and the methods of \<open>PostgresJobStore\<close> and
  \<open>PostgresEventStore\<close> built from them. A \<open>with connection\<close> block is a transaction: an exception
  inside undoes it. Identifiers and the clock are arguments; \<open>created_at\<close> and \<open>updated_at\<close>, which no
  statement reads, are left out. A JSONB value is the value it was written from.
\<close>

section \<open>Tables\<close>

record job_row =
  jr_id :: string
  jr_tenant :: string
  jr_key :: string
  jr_state :: string
  jr_input :: string
  jr_config :: "string option"
  jr_error :: "string option"
  jr_warnings :: json
  jr_degraded :: bool

record segment_row =
  sr_id :: string
  sr_job :: string
  sr_session :: string
  sr_tenant :: string
  sr_start :: int
  sr_end :: int
  sr_speaker :: "string option"
  sr_track :: "int option"
  sr_overlap :: bool
  sr_payload :: "(string \<times> json) list"

record event_row =
  er_id :: string
  er_session :: string
  er_tenant :: string
  er_seq :: int
  er_revision :: int
  er_type :: string
  er_supersedes :: "string option"
  er_final :: bool
  er_payload :: "(string \<times> json) list"

record db =
  db_jobs :: "job_row list"
  db_segments :: "segment_row list"
  db_events :: "event_row list"

definition empty_db :: db where
  "empty_db = \<lparr>db_jobs = [], db_segments = [], db_events = []\<rparr>"

definition transaction :: "('s, 'a) action \<Rightarrow> ('s, 'a) action" where
  "transaction m s = (case m s of (s', Inl e) \<Rightarrow> (s, Inl e) | (s', Inr x) \<Rightarrow> (s', Inr x))"

section \<open>Jobs\<close>

fun job_state_value :: "job_state \<Rightarrow> string" where
  "job_state_value QUEUED = ''QUEUED''"
| "job_state_value PREPROCESSING = ''PREPROCESSING''"
| "job_state_value DIARIZING = ''DIARIZING''"
| "job_state_value TRANSCRIBING = ''TRANSCRIBING''"
| "job_state_value SEPARATING = ''SEPARATING''"
| "job_state_value LINKING = ''LINKING''"
| "job_state_value FUSING = ''FUSING''"
| "job_state_value SUCCEEDED = ''SUCCEEDED''"
| "job_state_value DEGRADED_SUCCEEDED = ''DEGRADED_SUCCEEDED''"
| "job_state_value FAILED = ''FAILED''"
| "job_state_value CANCELLED = ''CANCELLED''"

definition JOB_STATES :: "job_state list" where
  "JOB_STATES = [QUEUED, PREPROCESSING, DIARIZING, TRANSCRIBING, SEPARATING, LINKING, FUSING,
     SUCCEEDED, DEGRADED_SUCCEEDED, FAILED, CANCELLED]"

text \<open>\<open>JobState(text)\<close>.\<close>

definition job_state_of :: "string \<Rightarrow> job_state res" where
  "job_state_of v = (case List.find (\<lambda>st. job_state_value st = v) JOB_STATES of
       None \<Rightarrow> Inl ValueError | Some st \<Rightarrow> Inr st)"

text \<open>\<open>list(row[7] or [])\<close>.\<close>

definition warnings_of :: "json \<Rightarrow> string list res" where
  "warnings_of v = (if json_truth v then bindR (as_list v) (mapR as_str) else Inr [])"

definition job_from_row :: "job_row \<Rightarrow> job res" where
  "job_from_row r =
     bindR (job_state_of (jr_state r)) (\<lambda>st.
     bindR (warnings_of (jr_warnings r)) (\<lambda>ws.
       Inr \<lparr>job_id = jr_id r, tenant_id = jr_tenant r, idempotency_key = jr_key r,
            input_hash = jr_input r, job_status = st, job_config = jr_config r,
            job_error = jr_error r, job_warnings = ws, job_degraded = jr_degraded r\<rparr>))"

text \<open>
  \<open>INSERT ... ON CONFLICT (tenant_id, idempotency_key) DO NOTHING RETURNING id\<close>; a duplicate
  primary key is an error.
\<close>

definition insert_job :: "job_row \<Rightarrow> (db, bool) action" where
  "insert_job r =
     updateS (\<lambda>d.
       if \<exists>x\<in>set (db_jobs d). jr_tenant x = jr_tenant r \<and> jr_key x = jr_key r then Inr (d, False)
       else if jr_id r \<in> jr_id ` set (db_jobs d) then Inl DatabaseError
       else Inr (d\<lparr>db_jobs := db_jobs d @ [r]\<rparr>, True))"

definition select_job :: "(job_row \<Rightarrow> bool) \<Rightarrow> (db, job_row option) action" where
  "select_job c = readS (\<lambda>d. List.find c (db_jobs d))"

definition update_jobs :: "string \<Rightarrow> string \<Rightarrow> (job_row \<Rightarrow> job_row) \<Rightarrow> (db, unit) action" where
  "update_jobs tenant jid f =
     modifyS (\<lambda>d. d\<lparr>db_jobs := map (\<lambda>r. if jr_id r = jid \<and> jr_tenant r = tenant then f r else r) (db_jobs d)\<rparr>)"

definition pg_create_or_get ::
  "string \<Rightarrow> string \<Rightarrow> string \<Rightarrow> string \<Rightarrow> string option \<Rightarrow> (db, job \<times> bool) action" where
  "pg_create_or_get fresh tenant key input config =
     bindS (transaction
       (bindS (insert_job \<lparr>jr_id = fresh, jr_tenant = tenant, jr_key = key,
                 jr_state = job_state_value QUEUED, jr_input = input, jr_config = config,
                 jr_error = None, jr_warnings = JList [], jr_degraded = False\<rparr>) (\<lambda>inserted.
        if inserted then returnS (Inl (new_job fresh tenant key input config, True))
        else bindS (select_job (\<lambda>r. jr_tenant r = tenant \<and> jr_key r = key)) (\<lambda>row.
               returnS (Inr row))))) (\<lambda>r.
     case r of
       Inl created \<Rightarrow> returnS created
     | Inr None \<Rightarrow> liftS (Inl (Sastt PlainSasttError))
     | Inr (Some row) \<Rightarrow>
         bindS (liftS (job_from_row row)) (\<lambda>existing.
           if input_hash existing \<noteq> input then liftS (Inl (Sastt IdempotencyConflictError))
           else returnS (existing, False)))"

definition pg_get :: "string \<Rightarrow> string \<Rightarrow> (db, job) action" where
  "pg_get tenant jid =
     bindS (select_job (\<lambda>r. jr_id r = jid \<and> jr_tenant r = tenant)) (\<lambda>row.
       case row of None \<Rightarrow> liftS (Inl (Sastt TenantAccessDeniedError))
       | Some r \<Rightarrow> liftS (job_from_row r))"

text \<open>The \<open>UPDATE\<close> of \<open>update_state\<close> writes what the job was when it was read.\<close>

definition write_job :: "string \<Rightarrow> string \<Rightarrow> job \<Rightarrow> (db, unit) action" where
  "write_job tenant jid j =
     update_jobs tenant jid (\<lambda>r. r\<lparr>jr_state := job_state_value (job_status j), jr_error := job_error j,
       jr_warnings := JList (map JStr (job_warnings j)), jr_degraded := job_degraded j\<rparr>)"

definition pg_update_state :: "string \<Rightarrow> string \<Rightarrow> job_state \<Rightarrow> (db, job) action" where
  "pg_update_state tenant jid st =
     bindS (pg_get tenant jid) (\<lambda>j.
     bindS (liftS (job_transition j st)) (\<lambda>j'.
     bindS (transaction (write_job tenant jid j')) (\<lambda>_. returnS j')))"

definition pg_set_error :: "string \<Rightarrow> string \<Rightarrow> string \<Rightarrow> (db, job) action" where
  "pg_set_error tenant jid code =
     bindS (pg_get tenant jid) (\<lambda>j.
     bindS (transaction (update_jobs tenant jid (\<lambda>r. r\<lparr>jr_error := Some code\<rparr>))) (\<lambda>_.
       returnS (j\<lparr>job_error := Some code\<rparr>)))"

section \<open>Results\<close>

text \<open>A text or number column from a value of the dictionary.\<close>

definition insert_segment :: "segment_row \<Rightarrow> (db, unit) action" where
  "insert_segment r =
     updateS (\<lambda>d.
       if sr_id r \<in> sr_id ` set (db_segments d) then Inl DatabaseError
       else if \<not> (0 \<le> sr_start r \<and> sr_start r < sr_end r) then Inl DatabaseError
       else Inr (d\<lparr>db_segments := db_segments d @ [r]\<rparr>, ()))"

definition segment_row_of ::
  "string \<Rightarrow> string \<Rightarrow> string \<Rightarrow> string \<Rightarrow> (string \<times> json) list \<Rightarrow> segment_row res" where
  "segment_row_of fresh tenant jid session seg =
     bindR (field_or seg ''event_id'' fresh as_str) (\<lambda>eid.
     bindR (field seg ''start_ms'' as_int) (\<lambda>s.
     bindR (field seg ''end_ms'' as_int) (\<lambda>e.
     bindR (field_opt seg ''session_speaker_id'' as_str) (\<lambda>spk.
     bindR (field_opt seg ''source_track'' as_int) (\<lambda>track.
     bindR (field_default seg ''is_overlap'' False (\<lambda>v. Inr (json_truth v))) (\<lambda>ovl.
       Inr \<lparr>sr_id = eid, sr_job = jid, sr_session = session, sr_tenant = tenant, sr_start = s,
            sr_end = e, sr_speaker = spk, sr_track = track, sr_overlap = ovl, sr_payload = seg\<rparr>))))))"

text \<open>\<open>fresh n\<close> is the identifier for the segment inserted when the table holds \<open>n\<close> rows.\<close>

definition save_segment ::
  "(nat \<Rightarrow> string) \<Rightarrow> string \<Rightarrow> string \<Rightarrow> string \<Rightarrow> (string \<times> json) list \<Rightarrow> unit \<Rightarrow> (db, unit) action" where
  "save_segment fresh tenant jid session seg acc =
     bindS (readS (\<lambda>d. length (db_segments d))) (\<lambda>n.
     bindS (liftS (segment_row_of (fresh n) tenant jid session seg)) insert_segment)"

definition save_result ::
  "(nat \<Rightarrow> string) \<Rightarrow> string \<Rightarrow> string \<Rightarrow> (string \<times> json) list list \<Rightarrow> string \<Rightarrow> string list \<Rightarrow> bool \<Rightarrow>
     (db, int) action" where
  "save_result fresh tenant jid segs session warnings degraded =
     transaction
       (bindS (modifyS (\<lambda>d. d\<lparr>db_segments :=
            filter (\<lambda>r. \<not> (sr_job r = jid \<and> sr_tenant r = tenant)) (db_segments d)\<rparr>)) (\<lambda>_.
        bindS (foldS (save_segment fresh tenant jid session) segs ()) (\<lambda>_.
        bindS (update_jobs tenant jid (\<lambda>r. r\<lparr>jr_warnings := JList (map JStr warnings),
            jr_degraded := degraded\<rparr>)) (\<lambda>_.
          returnS (int (length segs))))))"

text \<open>
  \<open>ORDER BY start_ms, session_speaker_id NULLS FIRST, source_track NULLS FIRST\<close>. \<open>collate\<close> is the
  collation of the text column; \<open>scan\<close> is the order in which the database happens to read the rows,
  which decides between rows that the clause does not order.
\<close>

definition result_key :: "(string \<Rightarrow> 'k::linorder) \<Rightarrow> segment_row \<Rightarrow> int \<times> 'k option \<times> int option" where
  "result_key collate r = (sr_start r, map_option collate (sr_speaker r), sr_track r)"

definition load_result ::
  "(string \<Rightarrow> 'k::linorder) \<Rightarrow> (segment_row list \<Rightarrow> segment_row list) \<Rightarrow> string \<Rightarrow> string \<Rightarrow>
     (db, (string \<times> json) list list) action" where
  "load_result collate scan tenant jid =
     readS (\<lambda>d. map sr_payload (sort_key (result_key collate)
       (scan (filter (\<lambda>r. sr_job r = jid \<and> sr_tenant r = tenant) (db_segments d)))))"

section \<open>Events\<close>

definition EVENT_TYPES :: "event_type list" where
  "EVENT_TYPES = [SESSION_STARTED, TRANSCRIPT_PROVISIONAL, TRANSCRIPT_REVISION, TRANSCRIPT_FINAL,
     PIPELINE_WARNING, SESSION_FINALIZED, SESSION_FAILED]"

definition event_type_of :: "string \<Rightarrow> event_type res" where
  "event_type_of v = (case List.find (\<lambda>t. event_type_value t = v) EVENT_TYPES of
       None \<Rightarrow> Inl ValueError | Some t \<Rightarrow> Inr t)"

definition optional_str :: "json \<Rightarrow> string option res" where
  "optional_str v = (if v = JNull then Inr None else bindR (as_str v) (\<lambda>s. Inr (Some s)))"

definition event_from_payload :: "(string \<times> json) list \<Rightarrow> server_event res" where
  "event_from_payload d =
     bindR (field d ''event_id'' as_str) (\<lambda>eid.
     bindR (field d ''session_id'' as_str) (\<lambda>sid.
     bindR (field d ''sequence_number'' as_int) (\<lambda>n.
     bindR (field d ''type'' (\<lambda>v. bindR (as_str v) event_type_of)) (\<lambda>ty.
     bindR (field_default d ''server_time_ms'' 0 as_int) (\<lambda>time.
     bindR (field_default d ''revision'' 1 as_int) (\<lambda>rev_no.
     bindR (field_opt d ''supersedes_event_id'' as_str) (\<lambda>sup.
     bindR (field_default d ''is_final'' False (\<lambda>v. Inr (json_truth v))) (\<lambda>fin.
     bindR (field_default d ''payload'' [] as_obj) (\<lambda>payload.
     bindR (field_default d ''model_versions'' [] (\<lambda>v. bindR (as_obj v)
              (mapR (\<lambda>(k, w). bindR (optional_str w) (\<lambda>s. Inr (k, s)))))) (\<lambda>versions.
     bindR (field_opt d ''config_version'' as_str) (\<lambda>cfg.
     bindR (field_opt d ''dedup_key'' as_str) (\<lambda>dedup.
       Inr \<lparr>ev_id = eid, ev_session = sid, ev_seq = n, ev_type = ty, ev_time = time,
            ev_revision = rev_no, ev_supersedes = sup, ev_final = fin, ev_payload = payload,
            ev_versions = versions, ev_config = cfg, ev_dedup = dedup\<rparr>))))))))))))"

text \<open>\<open>MAX\<close> and \<open>MIN\<close> of the session's sequence numbers, 0 for a session without events.\<close>

definition session_seqs :: "string \<Rightarrow> db \<Rightarrow> int list" where
  "session_seqs sid d = map er_seq (filter (\<lambda>r. er_session r = sid) (db_events d))"

definition highest_seq :: "string \<Rightarrow> db \<Rightarrow> int" where
  "highest_seq sid d = (case session_seqs sid d of [] \<Rightarrow> 0 | n # ns \<Rightarrow> list_max n ns)"

definition lowest_seq :: "string \<Rightarrow> db \<Rightarrow> int" where
  "lowest_seq sid d = (case session_seqs sid d of [] \<Rightarrow> 0 | n # ns \<Rightarrow> list_min n ns)"

text \<open>The primary key, the two unique indexes of the table; a violation is reported as a domain error.\<close>

definition insert_event :: "event_row \<Rightarrow> (db, unit) action" where
  "insert_event r =
     updateS (\<lambda>d.
       if \<exists>x\<in>set (db_events d). er_id x = er_id r
            \<or> er_session x = er_session r \<and> er_seq x = er_seq r
            \<or> er_session x = er_session r \<and> er_id x = er_id r \<and> er_revision x = er_revision r
       then Inl (Sastt PlainSasttError)
       else Inr (d\<lparr>db_events := db_events d @ [r]\<rparr>, ()))"

definition event_row_of :: "server_event \<Rightarrow> event_row res" where
  "event_row_of e =
     bindR (field_or (ev_payload e) ''tenant_id'' ''unknown'' as_str) (\<lambda>tenant.
       Inr \<lparr>er_id = ev_id e, er_session = ev_session e, er_tenant = tenant, er_seq = ev_seq e,
            er_revision = ev_revision e, er_type = event_type_value (ev_type e),
            er_supersedes = ev_supersedes e, er_final = ev_final e,
            er_payload = event_to_dict e @ [(''dedup_key'', json_opt JStr (ev_dedup e))]\<rparr>)"

definition pg_append :: "server_event \<Rightarrow> (db, server_event) action" where
  "pg_append e =
     bindS (liftS (event_row_of e)) (\<lambda>row.
     transaction
       (bindS (readS (highest_seq (ev_session e))) (\<lambda>highest.
        if ev_seq e \<le> highest then liftS (Inl (Sastt PlainSasttError))
        else bindS (insert_event row) (\<lambda>_. returnS e))))"

definition pg_replay :: "string \<Rightarrow> int \<Rightarrow> (db, server_event list) action" where
  "pg_replay sid last_seen =
     bindS (readS (lowest_seq sid)) (\<lambda>lowest.
       if lowest \<noteq> 0 \<and> last_seen < lowest - 1 then liftS (Inl (Sastt PlainSasttError))
       else bindS (readS (\<lambda>d. sort_key er_seq
              (filter (\<lambda>r. er_session r = sid \<and> last_seen < er_seq r) (db_events d)))) (\<lambda>rows.
         liftS (mapR (\<lambda>r. event_from_payload (er_payload r)) rows)))"

definition pg_last_sequence_number :: "string \<Rightarrow> (db, int) action" where
  "pg_last_sequence_number sid = readS (highest_seq sid)"

end
