(* ===== verification/TaskQueue.thy ===== *)
theory TaskQueue
  imports Effects JsonFields "HOL-Library.Multiset"
begin

text \<open>
  The work queues of \<^verbatim>\<open>src/src/sastt/adapters/queue/redis_queue.py\<close>: tasks and their serialised
  form, and the operations of \<open>RedisTaskQueue\<close> on Redis lists. The Redis client is a record of
  commands; what the code relies on is that each command is atomic and does what the Redis manual
  says to the lists, and that a command which raises (a lost connection) had either its effect or
  none. An entry of a list is the JSON value whose text the code stores.
\<close>

section \<open>Tasks\<close>

record task =
  task_id :: string
  task_queue :: string
  task_tenant :: string
  task_job :: string
  task_payload :: "(string \<times> json) list"
  task_enqueued :: int
  task_attempts :: int

definition to_json :: "task \<Rightarrow> json" where
  "to_json t = JObj
     [(''task_id'', JStr (task_id t)),
      (''queue'', JStr (task_queue t)),
      (''tenant_id'', JStr (task_tenant t)),
      (''job_id'', JStr (task_job t)),
      (''payload'', JObj (task_payload t)),
      (''enqueued_ms'', JInt (task_enqueued t)),
      (''attempts'', JInt (task_attempts t))]"

definition from_json :: "json \<Rightarrow> task res" where
  "from_json raw =
     bindR (as_obj raw) (\<lambda>d.
     bindR (field d ''task_id'' as_str) (\<lambda>i.
     bindR (field d ''queue'' as_str) (\<lambda>name.
     bindR (field d ''tenant_id'' as_str) (\<lambda>tenant.
     bindR (field d ''job_id'' as_str) (\<lambda>job.
     bindR (field_default d ''payload'' [] as_obj) (\<lambda>payload.
     bindR (field_default d ''enqueued_ms'' 0 as_int) (\<lambda>enqueued.
     bindR (field_default d ''attempts'' 0 as_int) (\<lambda>attempts.
       Inr \<lparr>task_id = i, task_queue = name, task_tenant = tenant, task_job = job,
            task_payload = payload, task_enqueued = enqueued, task_attempts = attempts\<rparr>))))))))"

text \<open>The clock is an argument.\<close>

definition age_ms :: "int \<Rightarrow> task \<Rightarrow> int" where
  "age_ms now t = max 0 (now - task_enqueued t)"

definition ALL_QUEUES :: "string list" where
  "ALL_QUEUES = [''asr.realtime'', ''speaker.realtime'', ''asr.batch'', ''speaker.batch'',
     ''separation.two_source'', ''separation.beta'', ''gss.batch'', ''fusion'']"

section \<open>The Redis client\<close>

record 's redis =
  rd_lpush :: "string \<Rightarrow> json \<Rightarrow> ('s, int) action"
  rd_rpoplpush :: "string \<Rightarrow> string \<Rightarrow> ('s, json option) action"
  rd_brpoplpush :: "string \<Rightarrow> string \<Rightarrow> int \<Rightarrow> ('s, json option) action"
  rd_lrem :: "string \<Rightarrow> int \<Rightarrow> json \<Rightarrow> ('s, int) action"
  rd_rpop :: "string \<Rightarrow> ('s, json option) action"
  rd_llen :: "string \<Rightarrow> ('s, int) action"
  rd_lindex :: "string \<Rightarrow> int \<Rightarrow> ('s, json option) action"
  rd_delete :: "string \<Rightarrow> ('s, int) action"

text \<open>What the Redis manual says a command does to the lists, and what it replies.\<close>

type_synonym lists = "string \<Rightarrow> json list"

definition list_push :: "string \<Rightarrow> json \<Rightarrow> lists \<Rightarrow> lists \<times> int" where
  "list_push k v L = (L(k := v # L k), int (Suc (length (L k))))"

definition list_pop :: "string \<Rightarrow> lists \<Rightarrow> lists \<times> json option" where
  "list_pop k L = (if L k = [] then (L, None) else (L(k := butlast (L k)), Some (last (L k))))"

definition list_move :: "string \<Rightarrow> string \<Rightarrow> lists \<Rightarrow> lists \<times> json option" where
  "list_move k k' L =
     (case list_pop k L of
        (L', None) \<Rightarrow> (L', None)
      | (L', Some v) \<Rightarrow> (L'(k' := v # L' k'), Some v))"

definition list_remove_one :: "string \<Rightarrow> json \<Rightarrow> lists \<Rightarrow> lists \<times> int" where
  "list_remove_one k v L = (L(k := remove1 v (L k)), if v \<in> set (L k) then 1 else 0)"

definition list_drop :: "string \<Rightarrow> lists \<Rightarrow> lists \<times> int" where
  "list_drop k L = (L(k := []), if L k = [] then 0 else 1)"

text \<open>A command that does \<open>f\<close>; if it raises, it did \<open>f\<close> or nothing.\<close>

definition command :: "('s \<Rightarrow> lists) \<Rightarrow> ('s, 'a) action \<Rightarrow> (lists \<Rightarrow> lists \<times> 'a) \<Rightarrow> bool" where
  "command view m f \<longleftrightarrow> (\<forall>s s' r. m s = (s', r) \<longrightarrow>
     (case r of Inr v \<Rightarrow> (view s', v) = f (view s)
              | Inl e \<Rightarrow> view s' = view s \<or> view s' = fst (f (view s))))"

text \<open>
  The blocking move waits for an element: it may also give up, and then nothing has changed. The
  code uses \<open>LREM\<close> with the count 1 and \<open>LINDEX\<close> with the index -1 only.
\<close>

definition redis_lists :: "'s redis \<Rightarrow> ('s \<Rightarrow> lists) \<Rightarrow> bool" where
  "redis_lists c view \<longleftrightarrow>
     (\<forall>k v. command view (rd_lpush c k v) (list_push k v))
   \<and> (\<forall>k k'. command view (rd_rpoplpush c k k') (list_move k k'))
   \<and> (\<forall>k k' n s s' r. rd_brpoplpush c k k' n s = (s', r) \<longrightarrow>
        (case r of Inr (Some v) \<Rightarrow> (view s', Some v) = list_move k k' (view s)
                 | Inr None \<Rightarrow> view s' = view s
                 | Inl e \<Rightarrow> view s' = view s \<or> view s' = fst (list_move k k' (view s))))
   \<and> (\<forall>k v. command view (rd_lrem c k 1 v) (list_remove_one k v))
   \<and> (\<forall>k. command view (rd_rpop c k) (list_pop k))
   \<and> (\<forall>k. command view (rd_llen c k) (\<lambda>L. (L, int (length (L k)))))
   \<and> (\<forall>k. command view (rd_lindex c k (- 1))
        (\<lambda>L. (L, if L k = [] then None else Some (last (L k)))))
   \<and> (\<forall>k. command view (rd_delete c k) (list_drop k))"

text \<open>A store of lists in which no command fails: the hypotheses can hold.\<close>

definition total_command :: "('s \<Rightarrow> 's \<times> 'a) \<Rightarrow> ('s, 'a) action" where
  "total_command f s = (case f s of (s', v) \<Rightarrow> (s', Inr v))"

definition list_client :: "lists redis" where
  "list_client = \<lparr>rd_lpush = (\<lambda>k v. total_command (list_push k v)),
     rd_rpoplpush = (\<lambda>k k'. total_command (list_move k k')),
     rd_brpoplpush = (\<lambda>k k' n. total_command (list_move k k')),
     rd_lrem = (\<lambda>k n v. total_command (list_remove_one k v)),
     rd_rpop = (\<lambda>k. total_command (list_pop k)),
     rd_llen = (\<lambda>k. total_command (\<lambda>L. (L, int (length (L k))))),
     rd_lindex = (\<lambda>k i. total_command (\<lambda>L. (L, if L k = [] then None else Some (last (L k))))),
     rd_delete = (\<lambda>k. total_command (list_drop k))\<rparr>"

section \<open>The queue\<close>

record 's queue =
  tq_client :: "'s redis"
  tq_namespace :: string
  tq_max_depth :: int
  tq_visibility :: int

definition queue_key :: "'s queue \<Rightarrow> string \<Rightarrow> string" where
  "queue_key q name = tq_namespace q @ '':queue:'' @ name"

definition processing_key :: "'s queue \<Rightarrow> string \<Rightarrow> string \<Rightarrow> string" where
  "processing_key q name consumer = tq_namespace q @ '':processing:'' @ name @ '':'' @ consumer"

definition dead_key :: "'s queue \<Rightarrow> string \<Rightarrow> string" where
  "dead_key q name = tq_namespace q @ '':dead:'' @ name"

definition depth :: "'s queue \<Rightarrow> string \<Rightarrow> ('s, int) action" where
  "depth q name = rd_llen (tq_client q) (queue_key q name)"

definition new_task :: "string \<Rightarrow> int \<Rightarrow> string \<Rightarrow> string \<Rightarrow> string \<Rightarrow> (string \<times> json) list option \<Rightarrow> task" where
  "new_task fresh now name tenant job payload =
     \<lparr>task_id = fresh, task_queue = name, task_tenant = tenant, task_job = job,
      task_payload = (case payload of None \<Rightarrow> [] | Some d \<Rightarrow> d), task_enqueued = now, task_attempts = 0\<rparr>"

definition enqueue ::
  "'s queue \<Rightarrow> string \<Rightarrow> int \<Rightarrow> string \<Rightarrow> string \<Rightarrow> string \<Rightarrow> (string \<times> json) list option \<Rightarrow>
     ('s, task) action" where
  "enqueue q fresh now name tenant job payload =
     (if name \<notin> set ALL_QUEUES then liftS (Inl (Sastt PlainSasttError))
      else bindS (depth q name) (\<lambda>d.
        if tq_max_depth q \<le> d then liftS (Inl (Sastt RedisQueueOverloadedError))
        else let t = new_task fresh now name tenant job payload in
          bindS (rd_lpush (tq_client q) (queue_key q name) (to_json t)) (\<lambda>_. returnS t)))"

definition reserve_from :: "'s queue \<Rightarrow> string \<Rightarrow> string \<Rightarrow> unit \<Rightarrow> ('s, task + unit) action" where
  "reserve_from q consumer name acc =
     bindS (rd_rpoplpush (tq_client q) (queue_key q name) (processing_key q name consumer)) (\<lambda>raw.
       case raw of None \<Rightarrow> returnS (Inr ())
       | Some v \<Rightarrow> bindS (liftS (from_json v)) (\<lambda>t. returnS (Inl t)))"

definition reserve :: "'s queue \<Rightarrow> string list \<Rightarrow> string \<Rightarrow> int \<Rightarrow> ('s, task option) action" where
  "reserve q names consumer timeout =
     bindS (untilS (reserve_from q consumer) names ()) (\<lambda>r.
       case r of
         Inl t \<Rightarrow> returnS (Some t)
       | Inr _ \<Rightarrow> (case names of
             [] \<Rightarrow> liftS (Inl IndexError)
           | name # _ \<Rightarrow>
               bindS (rd_brpoplpush (tq_client q) (queue_key q name) (processing_key q name consumer)
                        timeout) (\<lambda>raw.
               case raw of None \<Rightarrow> returnS None
               | Some v \<Rightarrow> bindS (liftS (from_json v)) (\<lambda>t. returnS (Some t)))))"

definition ack :: "'s queue \<Rightarrow> task \<Rightarrow> string \<Rightarrow> ('s, bool) action" where
  "ack q t consumer =
     bindS (rd_lrem (tq_client q) (processing_key q (task_queue t) consumer) 1 (to_json t)) (\<lambda>n.
       returnS (n \<noteq> 0))"

definition retry :: "'s queue \<Rightarrow> task \<Rightarrow> string \<Rightarrow> int \<Rightarrow> ('s, bool) action" where
  "retry q t consumer max_attempts =
     bindS (ack q t consumer) (\<lambda>_.
       let again = to_json (t\<lparr>task_attempts := task_attempts t + 1\<rparr>) in
       if max_attempts \<le> task_attempts t + 1
       then bindS (rd_lpush (tq_client q) (dead_key q (task_queue t)) again) (\<lambda>_. returnS False)
       else bindS (rd_lpush (tq_client q) (queue_key q (task_queue t)) again) (\<lambda>_. returnS True))"

text \<open>
  One turn of the loop of \<open>requeue_stale\<close>: \<open>Inl\<close> ends the loop, \<open>Inr\<close> continues it with the count.
\<close>

definition requeue_one :: "'s queue \<Rightarrow> string \<Rightarrow> string \<Rightarrow> int \<Rightarrow> nat \<Rightarrow> ('s, nat + nat) action" where
  "requeue_one q name consumer now moved =
     bindS (rd_rpop (tq_client q) (processing_key q name consumer)) (\<lambda>popped.
       case popped of None \<Rightarrow> returnS (Inl moved)
       | Some raw \<Rightarrow>
           bindS (liftS (from_json raw)) (\<lambda>t.
             if age_ms now t < tq_visibility q
             then bindS (rd_lpush (tq_client q) (processing_key q name consumer) raw) (\<lambda>_.
                    returnS (Inl moved))
             else bindS (rd_lpush (tq_client q) (queue_key q name) raw) (\<lambda>_.
                    returnS (Inr (Suc moved)))))"

text \<open>The clock may move between turns: it is a function of the number of tasks moved so far.\<close>

partial_function (option) requeue_loop ::
  "'s queue \<Rightarrow> string \<Rightarrow> string \<Rightarrow> (nat \<Rightarrow> int) \<Rightarrow> nat \<Rightarrow> 's \<Rightarrow> ('s \<times> nat res) option" where
  "requeue_loop q name consumer clock moved s =
     (case requeue_one q name consumer (clock moved) moved s of
        (s', Inl e) \<Rightarrow> Some (s', Inl e)
      | (s', Inr (Inl n)) \<Rightarrow> Some (s', Inr n)
      | (s', Inr (Inr n)) \<Rightarrow> requeue_loop q name consumer clock n s')"

definition requeue_stale ::
  "'s queue \<Rightarrow> string \<Rightarrow> string \<Rightarrow> (nat \<Rightarrow> int) \<Rightarrow> 's \<Rightarrow> ('s \<times> nat res) option" where
  "requeue_stale q name consumer clock = requeue_loop q name consumer clock 0"

definition oldest_age_ms :: "'s queue \<Rightarrow> int \<Rightarrow> string \<Rightarrow> ('s, int) action" where
  "oldest_age_ms q now name =
     bindS (rd_lindex (tq_client q) (queue_key q name) (- 1)) (\<lambda>raw.
       case raw of None \<Rightarrow> returnS 0
       | Some v \<Rightarrow> bindS (liftS (from_json v)) (\<lambda>t. returnS (age_ms now t)))"

definition stats :: "'s queue \<Rightarrow> int \<Rightarrow> ('s, (string \<times> int \<times> int) list) action" where
  "stats q now = mapS (\<lambda>name. bindS (depth q name) (\<lambda>d.
     bindS (oldest_age_ms q now name) (\<lambda>a. returnS (name, d, a)))) ALL_QUEUES"

definition purge :: "'s queue \<Rightarrow> string \<Rightarrow> ('s, int) action" where
  "purge q name =
     bindS (depth q name) (\<lambda>removed.
     bindS (rd_delete (tq_client q) (queue_key q name)) (\<lambda>_. returnS removed))"

end
