(* ===== verification/Worker.thy ===== *)
theory Worker
  imports Database TaskQueue PipelineRun
begin

text \<open>
  The batch worker of \<^verbatim>\<open>src/src/sastt/workers/offline_worker.py\<close>: it takes a task from the queues,
  runs the offline pipeline on the task's audio while it moves the job through its states in the
  job table, stores the segments, and acknowledges, retries or gives up the task. The state is that
  of the Redis client together with the tables of the database; the object store, the loading of
  models and scenarios and the configuration are functions of the record \<open>worker\<close>. Logging, metrics
  and the command line are left out.
\<close>

record 's world =
  w_redis :: 's
  w_db :: db

text \<open>\<open>wk_message\<close> is \<open>str(exc)\<close>; \<open>'c\<close> stands for scenarios.\<close>

record ('s, 'c) worker =
  wk_queue :: "'s queue"
  wk_names :: "string list"
  wk_consumer :: string
  wk_object :: "string \<Rightarrow> string \<Rightarrow> bytes res"
  wk_scenario :: "json \<Rightarrow> 'c res"
  wk_adapters :: "'c option \<Rightarrow> ports res"
  wk_config :: config
  wk_calibration_file :: "string \<Rightarrow> json option"
  wk_calibration_version :: "string option"
  wk_fresh :: "nat \<Rightarrow> string"
  wk_event_id :: "nat \<Rightarrow> string"
  wk_segment_id :: "nat \<Rightarrow> string"
  wk_message :: "exn \<Rightarrow> string"

definition in_redis :: "('s, 'a) action \<Rightarrow> ('s world, 'a) action" where
  "in_redis = zoomS w_redis (\<lambda>r w. w\<lparr>w_redis := r\<rparr>)"

definition in_db :: "(db, 'a) action \<Rightarrow> ('s world, 'a) action" where
  "in_db = zoomS w_db (\<lambda>d w. w\<lparr>w_db := d\<rparr>)"

section \<open>One task\<close>

definition load_audio :: "('s, 'c) worker \<Rightarrow> task \<Rightarrow> bytes res" where
  "load_audio wk t =
     (case map_of (task_payload t) ''audio_key'' of
        Some (JStr key) \<Rightarrow> if key = [] then Inl (Sastt PlainSasttError) else wk_object wk (task_tenant t) key
      | _ \<Rightarrow> Inl (Sastt PlainSasttError))"

definition task_scenario :: "('s, 'c) worker \<Rightarrow> task \<Rightarrow> 'c option res" where
  "task_scenario wk t =
     (case map_of (task_payload t) ''scenario'' of
        None \<Rightarrow> Inr None
      | Some v \<Rightarrow> if json_truth v then bindR (wk_scenario wk v) (\<lambda>c. Inr (Some c)) else Inr None)"

text \<open>\<open>float(...)\<close> of the timeout; a timeout given as text is read as an error.\<close>

definition task_timeout :: "task \<Rightarrow> real res" where
  "task_timeout t =
     field_default (task_payload t) ''timeout_seconds'' 3600 (\<lambda>v. case v of
         JInt n \<Rightarrow> Inr (of_int n) | JReal x \<Rightarrow> Inr x | JBool b \<Rightarrow> Inr (if b then 1 else 0)
       | JStr s \<Rightarrow> Inl ValueError | _ \<Rightarrow> Inl TypeError)"

definition task_language :: "task \<Rightarrow> string option res" where
  "task_language t =
     (case map_of (task_payload t) ''language'' of
        None \<Rightarrow> Inr None
      | Some JNull \<Rightarrow> Inr None
      | Some (JStr s) \<Rightarrow> Inr (Some s)
      | Some v \<Rightarrow> Inl (Sastt PlainSasttError))"

definition job_config_of :: "config \<Rightarrow> string option \<Rightarrow> config" where
  "job_config_of c language = c\<lparr>asr := (asr c)\<lparr>rec_language := language\<rparr>\<rparr>"

text \<open>
  What the constructor gets: no tenant is passed, so the pipeline works for the default one; a
  calibration version goes with a calibration file.
\<close>

definition task_pipeline :: "('s, 'c) worker \<Rightarrow> ports \<Rightarrow> config \<Rightarrow> (raw_scores \<Rightarrow> confidences res) \<Rightarrow> pipeline" where
  "task_pipeline wk ports c calibrate =
     \<lparr>pl_config = c, pl_ports = ports, pl_tenant = ''tenant_local'', pl_calibrate = calibrate,
      pl_calibration_version = (if truthy (calibration_path (confidence c)) then wk_calibration_version wk else None),
      pl_provisional_continuity = True, pl_fresh = wk_fresh wk, pl_event_id = wk_event_id wk\<rparr>"

text \<open>Everything \<open>handle\<close> does before the pipeline runs; nothing of it changes the state.\<close>

definition prepare_task :: "('s, 'c) worker \<Rightarrow> task \<Rightarrow> (bytes \<times> pipeline) res" where
  "prepare_task wk t =
     bindR (load_audio wk t) (\<lambda>wav.
     bindR (task_scenario wk t) (\<lambda>scenario.
     bindR (task_timeout t) (\<lambda>_.
     bindR (task_language t) (\<lambda>language.
     bindR (wk_adapters wk scenario) (\<lambda>ports.
     let c = job_config_of (wk_config wk) language in
     bindR (load_confidence_calibrator (wk_calibration_file wk) (calibration_path (confidence c))) (\<lambda>calibrate.
       Inr (wav, task_pipeline wk ports c calibrate)))))))"

definition update_stage :: "task \<Rightarrow> job_state \<Rightarrow> ('s world, unit) action" where
  "update_stage t st = in_db (bindS (pg_update_state (task_tenant t) (task_job t) st) (\<lambda>_. returnS ()))"

definition run_task :: "bytes \<Rightarrow> pipeline \<Rightarrow> task \<Rightarrow> ('s world, offline_result) action" where
  "run_task wav p t =
     offline_run p no_pin wav (Some (task_job t)) (Some (task_job t)) None (update_stage t)"

definition store_outcome :: "('s, 'c) worker \<Rightarrow> task \<Rightarrow> offline_result \<Rightarrow> (db, unit) action" where
  "store_outcome wk t r =
     bindS (save_result (wk_segment_id wk) (task_tenant t) (task_job t) (map to_public_dict (or_segments r))
              (task_job t) (or_warnings r) (or_degraded r)) (\<lambda>_.
     bindS (pg_update_state (task_tenant t) (task_job t)
              (if or_degraded r then DEGRADED_SUCCEEDED else SUCCEEDED)) (\<lambda>_. returnS ()))"

definition handle :: "('s, 'c) worker \<Rightarrow> task \<Rightarrow> ('s world, unit) action" where
  "handle wk t =
     bindS (liftS (prepare_task wk t)) (\<lambda>(wav, p).
     bindS (run_task wav p t) (\<lambda>r.
       in_db (store_outcome wk t r)))"

section \<open>The loop\<close>

fun contains :: "string \<Rightarrow> string \<Rightarrow> bool" where
  "contains needle [] \<longleftrightarrow> needle = []"
| "contains needle (c # s) \<longleftrightarrow> take (length needle) (c # s) = needle \<or> contains needle s"

definition failure_code :: "string \<Rightarrow> string" where
  "failure_code message = (if contains ''separation'' message then ''SEPARATION_FAILED'' else ''MODEL_NOT_READY'')"

text \<open>\<open>try: ... except Exception: log\<close>: what was changed stays changed.\<close>

definition ignoring_errors :: "('s, 'a) action \<Rightarrow> ('s, unit) action" where
  "ignoring_errors m s = (fst (m s), Inr ())"

definition fail_job :: "task \<Rightarrow> string \<Rightarrow> (db, unit) action" where
  "fail_job t message =
     ignoring_errors
       (bindS (pg_set_error (task_tenant t) (task_job t) (failure_code message)) (\<lambda>_.
        pg_update_state (task_tenant t) (task_job t) FAILED))"

text \<open>The task taken: \<open>handle\<close> with its \<open>except\<close> and \<open>else\<close> branches.\<close>

definition settle :: "('s, 'c) worker \<Rightarrow> task \<Rightarrow> ('s world, unit) action" where
  "settle wk t w =
     (case handle wk t w of
        (w', Inl e) \<Rightarrow>
          bindS (in_redis (retry (wk_queue wk) t (wk_consumer wk) 3)) (\<lambda>again.
            if again then returnS () else in_db (fail_job t (wk_message wk e))) w'
      | (w', Inr _) \<Rightarrow> bindS (in_redis (ack (wk_queue wk) t (wk_consumer wk))) (\<lambda>_. returnS ()) w')"

definition work_once :: "('s, 'c) worker \<Rightarrow> ('s world, unit) action" where
  "work_once wk =
     bindS (in_redis (reserve (wk_queue wk) (wk_names wk) (wk_consumer wk) 2)) (\<lambda>taken.
       case taken of None \<Rightarrow> returnS () | Some t \<Rightarrow> settle wk t)"

text \<open>
  \<open>run_forever\<close> until the signal that stops it arrives after \<open>n\<close> turns: first the tasks of a dead
  consumer of the same name are returned, queue by queue. The result is \<open>None\<close> if that does not end.
\<close>

fun recover :: "('s, 'c) worker \<Rightarrow> (string \<Rightarrow> nat \<Rightarrow> int) \<Rightarrow> string list \<Rightarrow> 's world \<Rightarrow> ('s world \<times> unit res) option" where
  "recover wk clock [] w = Some (w, Inr ())"
| "recover wk clock (n # ns) w =
     (case requeue_stale (wk_queue wk) n (wk_consumer wk) (clock n) (w_redis w) of
        None \<Rightarrow> None
      | Some (s, Inl e) \<Rightarrow> Some (w\<lparr>w_redis := s\<rparr>, Inl e)
      | Some (s, Inr k) \<Rightarrow> recover wk clock ns (w\<lparr>w_redis := s\<rparr>))"

fun work :: "('s, 'c) worker \<Rightarrow> nat \<Rightarrow> ('s world, unit) action" where
  "work wk 0 = returnS ()"
| "work wk (Suc n) = bindS (work_once wk) (\<lambda>_. work wk n)"

definition run_worker ::
  "('s, 'c) worker \<Rightarrow> (string \<Rightarrow> nat \<Rightarrow> int) \<Rightarrow> nat \<Rightarrow> 's world \<Rightarrow> ('s world \<times> unit res) option" where
  "run_worker wk clock n w =
     (case recover wk clock (wk_names wk) w of
        None \<Rightarrow> None
      | Some (w', Inl e) \<Rightarrow> Some (w', Inl e)
      | Some (w', Inr _) \<Rightarrow> Some (work wk n w'))"

text \<open>\<open>main --once\<close>.\<close>

definition run_single :: "('s, 'c) worker \<Rightarrow> ('s world, unit) action" where
  "run_single wk =
     bindS (in_redis (reserve (wk_queue wk) (wk_names wk) (wk_consumer wk) 5)) (\<lambda>taken.
       case taken of None \<Rightarrow> returnS ()
       | Some t \<Rightarrow> bindS (handle wk t) (\<lambda>_.
           bindS (in_redis (ack (wk_queue wk) t (wk_consumer wk))) (\<lambda>_. returnS ())))"

end
