(* ===== verification/QueueProps.thy ===== *)
theory QueueProps
  imports TaskQueue
begin

text \<open>
  What the work queues promise: a task is never lost except where the code gives it up, the lists
  together are a bag that only enqueueing fills and only acknowledging empties, tasks are taken by
  priority and then by age, a task that keeps failing is parked, and returning the tasks of a dead
  consumer ends.
\<close>

section \<open>Tasks and keys\<close>

lemma from_to_json [simp]: "from_json (to_json t) = Inr t"
  by (simp add: from_json_def to_json_def field_def field_default_def)

lemma to_json_inject: "to_json t = to_json u \<longleftrightarrow> t = u"
  by (metis from_to_json sum.inject(2))

lemma queue_key_inject [simp]: "queue_key q a = queue_key q b \<longleftrightarrow> a = b"
  by (simp add: queue_key_def)

lemma keys_apart [simp]:
  "queue_key q a \<noteq> processing_key q b c" "processing_key q b c \<noteq> queue_key q a"
  "queue_key q a \<noteq> dead_key q b" "dead_key q b \<noteq> queue_key q a"
  "processing_key q b c \<noteq> dead_key q a" "dead_key q a \<noteq> processing_key q b c"
  by (simp_all add: queue_key_def processing_key_def dead_key_def)

section \<open>Commands\<close>

lemma command_returns: "command view m f \<Longrightarrow> m s = (s', Inr v) \<Longrightarrow> (view s', v) = f (view s)"
  by (fastforce simp: command_def)

lemma command_raises:
  "command view m f \<Longrightarrow> m s = (s', Inl e) \<Longrightarrow> view s' = view s \<or> view s' = fst (f (view s))"
  by (fastforce simp: command_def)

lemma command_effect:
  assumes "command view m f"
  shows "view (fst (m s)) = view s \<or> view (fst (m s)) = fst (f (view s))"
proof (cases "snd (m s)")
  case (Inl e)
  then show ?thesis using command_raises[OF assms, of s "fst (m s)" e] by (metis prod.collapse)
next
  case (Inr v)
  then have "(view (fst (m s)), v) = f (view s)"
    using command_returns[OF assms, of s "fst (m s)" v] by (metis prod.collapse)
  then show ?thesis by (metis fst_conv)
qed

lemma commandD:
  assumes "redis_lists c view"
  shows "command view (rd_lpush c k v) (list_push k v)"
    and "command view (rd_rpoplpush c k k') (list_move k k')"
    and "command view (rd_lrem c k 1 v) (list_remove_one k v)"
    and "command view (rd_rpop c k) (list_pop k)"
    and "command view (rd_llen c k) (\<lambda>L. (L, int (length (L k))))"
    and "command view (rd_delete c k) (list_drop k)"
    and "command view (rd_lindex c k (- 1)) (\<lambda>L. (L, if L k = [] then None else Some (last (L k))))"
  using assms unfolding redis_lists_def by blast+

lemma blocking_move:
  assumes "redis_lists c view" and "rd_brpoplpush c k k' n s = (s', r)"
  shows "view s' = view s \<or> view s' = fst (list_move k k' (view s))"
    and "r = Inr None \<Longrightarrow> view s' = view s"
    and "r = Inr (Some v) \<Longrightarrow> (view s', Some v) = list_move k k' (view s)"
proof -
  have law: "case r of Inr (Some v) \<Rightarrow> (view s', Some v) = list_move k k' (view s)
      | Inr None \<Rightarrow> view s' = view s
      | Inl e \<Rightarrow> view s' = view s \<or> view s' = fst (list_move k k' (view s))"
    using assms unfolding redis_lists_def by blast
  show "view s' = view s \<or> view s' = fst (list_move k k' (view s))"
    using law by (auto split: sum.splits option.splits dest: arg_cong[where f = fst])
  show "r = Inr None \<Longrightarrow> view s' = view s"
    and "r = Inr (Some v) \<Longrightarrow> (view s', Some v) = list_move k k' (view s)" using law by simp_all
qed

text \<open>A command does what the action on the lists says when it is seen through the view.\<close>

lemma list_client_lists: "redis_lists list_client (\<lambda>L. L)"
  by (auto simp: redis_lists_def list_client_def command_def total_command_def list_move_def list_pop_def
      split: prod.splits sum.splits option.splits if_splits)

section \<open>Entries\<close>

text \<open>The task an entry is about, and lists that hold an entry of a kind.\<close>

definition entry_id :: "json \<Rightarrow> string option" where
  "entry_id v = (case from_json v of Inl e \<Rightarrow> None | Inr t \<Rightarrow> Some (task_id t))"

definition is_task :: "string \<Rightarrow> json \<Rightarrow> bool" where
  "is_task i v \<longleftrightarrow> entry_id v = Some i"

definition holds :: "(json \<Rightarrow> bool) \<Rightarrow> lists \<Rightarrow> bool" where
  "holds P L \<longleftrightarrow> (\<exists>k. \<exists>v\<in>set (L k). P v)"

lemma entry_id_to_json [simp]: "entry_id (to_json t) = Some (task_id t)"
  by (simp add: entry_id_def)

lemma is_task_to_json [simp]: "is_task i (to_json t) \<longleftrightarrow> task_id t = i"
  by (simp add: is_task_def)

lemma holds_push: "holds P L \<or> P v \<Longrightarrow> holds P (fst (list_push k v L))"
  by (auto simp: holds_def list_push_def)

lemma list_pop_cases:
  obtains "L k = []" "list_pop k L = (L, None)"
  | xs v where "L k = xs @ [v]" "list_pop k L = (L(k := xs), Some v)"
  by (cases "L k" rule: rev_cases) (auto simp: list_pop_def)

lemma holds_pop:
  assumes "list_pop k L = (L', Some v)" and "holds P L" and "\<not> P v"
  shows "holds P L'"
proof (cases rule: list_pop_cases[of L k])
  case (2 xs w)
  from assms(2) obtain k' u where u: "u \<in> set (L k')" "P u" by (auto simp: holds_def)
  have "L' = L(k := xs)" "w = v" using 2 assms(1) by auto
  then have "u \<in> set (L' k')" using u assms(3) 2 by (cases "k' = k") auto
  with u show ?thesis by (auto simp: holds_def)
qed (use assms in auto)

lemma holds_move: "holds P L \<Longrightarrow> holds P (fst (list_move k k' L))"
proof (cases rule: list_pop_cases[of L k])
  case (2 xs v)
  assume "holds P L"
  have move: "fst (list_move k k' L) = fst (list_push k' v (L(k := xs)))"
    using 2 by (simp add: list_move_def list_push_def)
  show ?thesis unfolding move by (rule holds_push) (use holds_pop[OF 2(2) \<open>holds P L\<close>] in blast)
qed (simp add: list_move_def)

lemma holds_remove_one:
  assumes "holds P L" and "\<not> P v"
  shows "holds P (fst (list_remove_one k v L))"
proof -
  from assms(1) obtain k' u where u: "u \<in> set (L k')" "P u" by (auto simp: holds_def)
  then have "u \<noteq> v" using assms(2) by auto
  then have "u \<in> set (fst (list_remove_one k v L) k')"
    using u by (auto simp: list_remove_one_def in_set_remove1)
  with u show ?thesis by (auto simp: holds_def)
qed

section \<open>Operations\<close>

text \<open>The calls of producers and consumers; a step says whether the call returned.\<close>

datatype queue_op =
    EnqueueOp string int string string string "(string \<times> json) list option"
  | ReserveOp "string list" string int
  | AckOp task string
  | RetryOp task string int
  | RequeueOp string string "nat \<Rightarrow> int"
  | PurgeOp string

definition returned :: "'a res \<Rightarrow> bool" where
  "returned r = (case r of Inl e \<Rightarrow> False | Inr x \<Rightarrow> True)"

lemma returned_simps [simp]: "returned (Inl e) = False" "returned (Inr x) = True"
  by (simp_all add: returned_def)

inductive queue_step :: "'s queue \<Rightarrow> queue_op \<Rightarrow> 's \<Rightarrow> bool \<Rightarrow> 's \<Rightarrow> bool" for q where
  step_enqueue: "enqueue q i now n te j p s = (s', r) \<Longrightarrow> queue_step q (EnqueueOp i now n te j p) s (returned r) s'"
| step_reserve: "reserve q ns c t s = (s', r) \<Longrightarrow> queue_step q (ReserveOp ns c t) s (returned r) s'"
| step_ack: "ack q t c s = (s', r) \<Longrightarrow> queue_step q (AckOp t c) s (returned r) s'"
| step_retry: "retry q t c m s = (s', r) \<Longrightarrow> queue_step q (RetryOp t c m) s (returned r) s'"
| step_requeue: "requeue_stale q n c clock s = Some (s', r) \<Longrightarrow> queue_step q (RequeueOp n c clock) s (returned r) s'"
| step_purge: "purge q n s = (s', r) \<Longrightarrow> queue_step q (PurgeOp n) s (returned r) s'"

inductive queue_run :: "'s queue \<Rightarrow> (queue_op \<times> bool) list \<Rightarrow> 's \<Rightarrow> 's \<Rightarrow> bool" for q where
  run_none: "queue_run q [] s s"
| run_more: "queue_step q op s ok s1 \<Longrightarrow> queue_run q ops s1 s' \<Longrightarrow> queue_run q ((op, ok) # ops) s s'"

inductive_simps queue_run_Nil [simp]: "queue_run q [] s s'"
inductive_simps queue_run_Cons [simp]: "queue_run q ((op, ok) # ops) s s'"

text \<open>The steps that may let a task go: its acknowledgement, a purge, and a retry or a return of stale
tasks that is interrupted between taking the task out and pushing it again.\<close>

definition keeps_task :: "string \<Rightarrow> queue_op \<Rightarrow> bool \<Rightarrow> bool" where
  "keeps_task i op ok = (case op of
       AckOp t c \<Rightarrow> task_id t \<noteq> i
     | RetryOp t c m \<Rightarrow> ok \<or> task_id t \<noteq> i
     | RequeueOp n c clock \<Rightarrow> ok
     | PurgeOp n \<Rightarrow> False
     | _ \<Rightarrow> True)"

subsection \<open>What each operation does to the lists\<close>

text \<open>A relation between the lists before and after that commands keep is kept by the operations.\<close>

lemma untilS_final:
  assumes "P s" and "\<And>x a s. x \<in> set xs \<Longrightarrow> P s \<Longrightarrow> P (fst (f x a s))"
  shows "P (fst (untilS f xs acc s))"
  using assms
proof (induction xs arbitrary: acc s)
  case Nil
  then show ?case by (simp add: returnS_def)
next
  case (Cons x xs)
  have "P (fst (f x acc s))" by (rule Cons.prems(2)) (use Cons.prems(1) in auto)
  then show ?case
    unfolding untilS.simps
    by (rule bindS_final)
      (auto split: sum.split simp: returnS_def intro!: Cons.IH Cons.prems(2))
qed

lemma fst_liftS [simp]: "fst (liftS r s) = s" and fst_returnS [simp]: "fst (returnS x s) = s"
  by (simp_all add: liftS_def returnS_def)

lemma reserve_final:
  assumes laws: "redis_lists (tq_client q) view" and P: "P (view s)"
    and move: "\<And>L n. n \<in> set names \<Longrightarrow> P L \<Longrightarrow> P (fst (list_move (queue_key q n) (processing_key q n c) L))"
  shows "P (view (fst (reserve q names c timeout s)))"
proof -
  have one: "P (view (fst (reserve_from q c n a s)))" if "n \<in> set names" "P (view s)" for n a s
    unfolding reserve_from_def
    by (rule bindS_final[where P = "\<lambda>s. P (view s)"])
      (use command_effect[OF commandD(2)[OF laws], of "queue_key q n" "processing_key q n c" s] that move
        in \<open>auto split: option.split intro: bindS_final[where P = "\<lambda>s. P (view s)"]\<close>)
  have loop: "P (view (fst (untilS (reserve_from q c) names () s)))"
    by (rule untilS_final[where P = "\<lambda>s. P (view s)"]) (use P one in auto)
  have blocking: "P (view (fst (rd_brpoplpush (tq_client q) (queue_key q n) (processing_key q n c) timeout t)))"
    if "n \<in> set names" "P (view t)" for n t
  proof -
    obtain t' r where eq: "rd_brpoplpush (tq_client q) (queue_key q n) (processing_key q n c) timeout t = (t', r)"
      by (meson surj_pair)
    show ?thesis using blocking_move(1)[OF laws eq] that(2) move[OF that] eq by auto
  qed
  show ?thesis
    unfolding reserve_def
    by (rule bindS_final[where P = "\<lambda>s. P (view s)"], rule loop)
      (auto split: sum.split list.split option.split simp: blocking
        intro!: bindS_final[where P = "\<lambda>s. P (view s)"])
qed

lemma depth_view: "redis_lists (tq_client q) view \<Longrightarrow> view (fst (depth q n s)) = view s"
  using command_effect[OF commandD(5)[of "tq_client q" view "queue_key q n"], of s] by (auto simp: depth_def)

lemma depth_returns:
  assumes "redis_lists (tq_client q) view" and "depth q n s = (s', Inr d)"
  shows "view s' = view s \<and> d = int (length (view s (queue_key q n)))"
  using command_returns[OF commandD(5)[OF assms(1), of "queue_key q n"], of s s' d] assms(2)
  by (simp add: depth_def)

lemma push_returns:
  "redis_lists c view \<Longrightarrow> rd_lpush c k v s = (s', Inr n) \<Longrightarrow> view s' = fst (list_push k v (view s))"
  using command_returns[OF commandD(1)] by (metis fst_conv)

lemma enqueue_effect:
  assumes laws: "redis_lists (tq_client q) view"
  shows "view (fst (enqueue q i now n te j p s)) = view s
       \<or> view (fst (enqueue q i now n te j p s))
           = fst (list_push (queue_key q n) (to_json (new_task i now n te j p)) (view s))"
proof (cases "n \<in> set ALL_QUEUES")
  case True
  let ?push = "rd_lpush (tq_client q) (queue_key q n) (to_json (new_task i now n te j p))"
  let ?Q = "\<lambda>L. L = view s \<or> L = fst (list_push (queue_key q n) (to_json (new_task i now n te j p)) (view s))"
  have push: "?Q (view (fst (bindS ?push (\<lambda>_. returnS x) t)))" if "view t = view s" for t and x :: task
    by (rule bindS_final[where P = "\<lambda>s. ?Q (view s)"])
      (use command_effect[OF commandD(1)[OF laws], of "queue_key q n" "to_json (new_task i now n te j p)" t] that in auto)
  show ?thesis
  proof (cases "snd (depth q n s)")
    case (Inl e)
    then show ?thesis using True depth_view[OF laws] by (simp add: enqueue_def bindS_raises)
  next
    case (Inr d)
    then show ?thesis
      using True depth_view[OF laws, of n s] push[OF depth_view[OF laws, of n s]]
      by (auto simp: enqueue_def bindS_returns Let_def)
  qed
qed (simp add: enqueue_def)

lemma enqueue_returns:
  assumes laws: "redis_lists (tq_client q) view" and "enqueue q i now n te j p s = (s', Inr t)"
  shows "n \<in> set ALL_QUEUES" and "int (length (view s (queue_key q n))) < tq_max_depth q"
    and "t = new_task i now n te j p"
    and "view s' = fst (list_push (queue_key q n) (to_json t) (view s))"
proof -
  from assms(2) obtain s1 d s2 m where
    n: "n \<in> set ALL_QUEUES" and d: "depth q n s = (s1, Inr d)" "d < tq_max_depth q"
    and push: "rd_lpush (tq_client q) (queue_key q n) (to_json (new_task i now n te j p)) s1 = (s2, Inr m)"
    and t: "t = new_task i now n te j p" "s' = s2"
    by (auto simp: enqueue_def action_simps Let_def split: if_splits)
  note len = depth_returns[OF laws d(1)]
  show "n \<in> set ALL_QUEUES" by (rule n)
  show "int (length (view s (queue_key q n))) < tq_max_depth q" using len d(2) by simp
  show "t = new_task i now n te j p" by (rule t)
  show "view s' = fst (list_push (queue_key q n) (to_json t) (view s))"
    using push_returns[OF laws push] len t by simp
qed

lemma ack_effect:
  assumes laws: "redis_lists (tq_client q) view"
  shows "view (fst (ack q t c s)) = view s
       \<or> view (fst (ack q t c s))
           = fst (list_remove_one (processing_key q (task_queue t) c) (to_json t) (view s))"
  unfolding ack_def
  by (rule bindS_final)
    (use command_effect[OF commandD(3)[OF laws], of "processing_key q (task_queue t) c" "to_json t" s] in auto)

lemma ack_returns:
  assumes laws: "redis_lists (tq_client q) view" and "ack q t c s = (s', Inr b)"
  shows "view s' = fst (list_remove_one (processing_key q (task_queue t) c) (to_json t) (view s))"
    and "b \<longleftrightarrow> to_json t \<in> set (view s (processing_key q (task_queue t) c))"
proof -
  from assms(2) obtain n where
    lrem: "rd_lrem (tq_client q) (processing_key q (task_queue t) c) 1 (to_json t) s = (s', Inr n)" and b: "b = (n \<noteq> 0)"
    by (auto simp: ack_def action_simps)
  have eq: "(view s', n) = list_remove_one (processing_key q (task_queue t) c) (to_json t) (view s)"
    by (rule command_returns[OF commandD(3)[OF laws] lrem])
  show "view s' = fst (list_remove_one (processing_key q (task_queue t) c) (to_json t) (view s))"
    using eq by (metis fst_conv)
  have "n = snd (list_remove_one (processing_key q (task_queue t) c) (to_json t) (view s))"
    using eq by (metis snd_conv)
  then show "b \<longleftrightarrow> to_json t \<in> set (view s (processing_key q (task_queue t) c))"
    using b by (simp add: list_remove_one_def)
qed

definition retry_key :: "'s queue \<Rightarrow> task \<Rightarrow> int \<Rightarrow> string" where
  "retry_key q t m = (if m \<le> task_attempts t + 1 then dead_key q (task_queue t) else queue_key q (task_queue t))"

lemma retry_alt:
  "retry q t c m = bindS (ack q t c) (\<lambda>_.
     bindS (rd_lpush (tq_client q) (retry_key q t m) (to_json (t\<lparr>task_attempts := task_attempts t + 1\<rparr>))) (\<lambda>_.
       returnS (task_attempts t + 1 < m)))"
  by (simp add: retry_def retry_key_def Let_def cong: if_cong)

lemma retry_returns:
  assumes laws: "redis_lists (tq_client q) view" and "retry q t c m s = (s', Inr b)"
  shows "view s' = fst (list_push (retry_key q t m) (to_json (t\<lparr>task_attempts := task_attempts t + 1\<rparr>))
           (fst (list_remove_one (processing_key q (task_queue t) c) (to_json t) (view s))))"
    and "b \<longleftrightarrow> task_attempts t + 1 < m"
proof -
  from assms(2) obtain s1 x n where a: "ack q t c s = (s1, Inr x)"
    and p: "rd_lpush (tq_client q) (retry_key q t m) (to_json (t\<lparr>task_attempts := task_attempts t + 1\<rparr>)) s1 = (s', Inr n)"
    and b: "b \<longleftrightarrow> task_attempts t + 1 < m"
    by (auto simp: retry_alt action_simps)
  show "view s' = fst (list_push (retry_key q t m) (to_json (t\<lparr>task_attempts := task_attempts t + 1\<rparr>))
           (fst (list_remove_one (processing_key q (task_queue t) c) (to_json t) (view s))))"
    using push_returns[OF laws p] ack_returns(1)[OF laws a] by simp
  show "b \<longleftrightarrow> task_attempts t + 1 < m" by (rule b)
qed

subsection \<open>Returning stale tasks\<close>

lemma requeue_one_returns:
  assumes laws: "redis_lists (tq_client q) view" and "requeue_one q n c now moved s = (s', Inr r)"
  obtains (empty) "view s (processing_key q n c) = []" "view s' = view s" "r = Inl moved"
  | (fresh) xs raw t where "view s (processing_key q n c) = xs @ [raw]" "from_json raw = Inr t"
      "age_ms now t < tq_visibility q" "r = Inl moved"
      "view s' = (view s)(processing_key q n c := raw # xs)"
  | (stale) xs raw t where "view s (processing_key q n c) = xs @ [raw]" "from_json raw = Inr t"
      "tq_visibility q \<le> age_ms now t" "r = Inr (Suc moved)"
      "view s' = (view s)(processing_key q n c := xs, queue_key q n := raw # view s (queue_key q n))"
proof -
  from assms(2) obtain s1 popped where
    pop: "rd_rpop (tq_client q) (processing_key q n c) s = (s1, Inr popped)"
    and rest: "(case popped of None \<Rightarrow> returnS (Inl moved)
       | Some raw \<Rightarrow> bindS (liftS (from_json raw)) (\<lambda>t.
             if age_ms now t < tq_visibility q
             then bindS (rd_lpush (tq_client q) (processing_key q n c) raw) (\<lambda>_. returnS (Inl moved))
             else bindS (rd_lpush (tq_client q) (queue_key q n) raw) (\<lambda>_. returnS (Inr (Suc moved))))) s1
       = (s', Inr r)"
    by (auto simp: requeue_one_def action_simps)
  have p: "(view s1, popped) = list_pop (processing_key q n c) (view s)"
    by (rule command_returns[OF commandD(4)[OF laws] pop])
  show ?thesis
  proof (cases rule: list_pop_cases[of "view s" "processing_key q n c"])
    case 1
    with p rest show ?thesis by (intro empty) (auto simp: action_simps)
  next
    case (2 xs raw)
    then have popped: "popped = Some raw" and s1: "view s1 = (view s)(processing_key q n c := xs)"
      using p by auto
    from rest popped obtain t where t: "from_json raw = Inr t"
      and push: "(if age_ms now t < tq_visibility q
             then bindS (rd_lpush (tq_client q) (processing_key q n c) raw) (\<lambda>_. returnS (Inl moved))
             else bindS (rd_lpush (tq_client q) (queue_key q n) raw) (\<lambda>_. returnS (Inr (Suc moved)))) s1
       = (s', Inr r)" by (auto simp: action_simps)
    show ?thesis
    proof (cases "age_ms now t < tq_visibility q")
      case True
      with push obtain m where m: "rd_lpush (tq_client q) (processing_key q n c) raw s1 = (s', Inr m)"
        and r: "r = Inl moved" by (auto simp: action_simps)
      show ?thesis
        by (rule fresh[OF 2(1) t True r]) (use push_returns[OF laws m] s1 in \<open>simp add: list_push_def\<close>)
    next
      case False
      with push obtain m where m: "rd_lpush (tq_client q) (queue_key q n) raw s1 = (s', Inr m)"
        and r: "r = Inr (Suc moved)" by (auto simp: action_simps)
      show ?thesis
        by (rule stale[OF 2(1) t _ r])
          (use push_returns[OF laws m] s1 False in \<open>simp_all add: list_push_def\<close>)
    qed
  qed
qed

text \<open>The loop ends whatever the commands do: every turn that continues has shortened the list.\<close>

lemma requeue_loop_returns:
  assumes laws: "redis_lists (tq_client q) view"
  shows "\<exists>s' r. requeue_loop q n c clock moved s = Some (s', r)"
proof (induction "length (view s (processing_key q n c))" arbitrary: moved s rule: less_induct)
  case less
  obtain s1 r where one: "requeue_one q n c (clock moved) moved s = (s1, r)" by (meson surj_pair)
  show ?case
  proof (cases "\<exists>k. r = Inr (Inr k)")
    case True
    then obtain k where r: "r = Inr (Inr k)" by blast
    from requeue_one_returns[OF laws one[unfolded r]]
    have "length (view s1 (processing_key q n c)) < length (view s (processing_key q n c))" by cases auto
    from less.hyps[OF this, of k] show ?thesis using one r by (subst requeue_loop.simps) simp
  next
    case False
    then show ?thesis using one by (subst requeue_loop.simps) (auto split: sum.split)
  qed
qed

text \<open>What the loop moves: the oldest tasks of the list while they are stale.\<close>

lemma requeue_loop_moves:
  assumes laws: "redis_lists (tq_client q) view"
  shows "requeue_loop q n c clock moved s = Some (s', Inr k) \<Longrightarrow>
    (\<exists>xs ys. view s (processing_key q n c) = xs @ ys \<and> k = moved + length ys
      \<and> view s' (queue_key q n) = ys @ view s (queue_key q n)
      \<and> (\<forall>j<length ys. \<exists>t. from_json (rev ys ! j) = Inr t \<and> tq_visibility q \<le> age_ms (clock (moved + j)) t)
      \<and> (if xs = [] then view s' (processing_key q n c) = []
         else view s' (processing_key q n c) = last xs # butlast xs
           \<and> (\<exists>t. from_json (last xs) = Inr t \<and> age_ms (clock k) t < tq_visibility q))
      \<and> (\<forall>key. key \<noteq> queue_key q n \<longrightarrow> key \<noteq> processing_key q n c \<longrightarrow> view s' key = view s key))"
proof (induction "length (view s (processing_key q n c))" arbitrary: moved s rule: less_induct)
  case less
  from less.prems obtain s1 r where one: "requeue_one q n c (clock moved) moved s = (s1, Inr r)"
    and rest: "(case r of Inl m \<Rightarrow> Some (s1, Inr m) | Inr m \<Rightarrow> requeue_loop q n c clock m s1) = Some (s', Inr k)"
    by (subst (asm) requeue_loop.simps) (auto split: prod.splits sum.splits)
  from laws one show ?case
  proof (cases rule: requeue_one_returns)
    case empty
    then show ?thesis using rest by (intro exI[of _ "[]"]) auto
  next
    case (fresh xs raw t)
    then show ?thesis using rest by (intro exI[of _ "xs @ [raw]"] exI[of _ "[]"]) auto
  next
    case (stale xs raw t)
    have shorter: "length (view s1 (processing_key q n c)) < length (view s (processing_key q n c))"
      using stale by simp
    have "requeue_loop q n c clock (Suc moved) s1 = Some (s', Inr k)" using rest stale by simp
    from less.hyps[OF shorter this] obtain us ys where
      ys: "xs = us @ ys" "k = Suc moved + length ys"
        "view s' (queue_key q n) = ys @ raw # view s (queue_key q n)"
        "\<forall>j<length ys. \<exists>t. from_json (rev ys ! j) = Inr t \<and> tq_visibility q \<le> age_ms (clock (Suc moved + j)) t"
        "if us = [] then view s' (processing_key q n c) = []
         else view s' (processing_key q n c) = last us # butlast us
           \<and> (\<exists>t. from_json (last us) = Inr t \<and> age_ms (clock k) t < tq_visibility q)"
      and others: "\<forall>key. key \<noteq> queue_key q n \<longrightarrow> key \<noteq> processing_key q n c \<longrightarrow> view s' key = view s key"
      using stale(5) by auto
    have all: "\<exists>t. from_json (rev (ys @ [raw]) ! j) = Inr t \<and> tq_visibility q \<le> age_ms (clock (moved + j)) t"
      if "j < length (ys @ [raw])" for j
      using that ys(4) stale(2,3) by (cases j) auto
    show ?thesis
      by (intro exI[of _ us] exI[of _ "ys @ [raw]"] conjI)
        (use stale ys others all in \<open>auto simp: nth_append\<close>)
  qed
qed

section \<open>No task is lost\<close>

lemma retry_final:
  assumes laws: "redis_lists (tq_client q) view" and "P (view s)"
    and "\<And>L. P L \<Longrightarrow> P (fst (list_remove_one (processing_key q (task_queue t) c) (to_json t) L))"
    and "\<And>L. P L \<Longrightarrow> P (fst (list_push (retry_key q t m) (to_json (t\<lparr>task_attempts := task_attempts t + 1\<rparr>)) L))"
  shows "P (view (fst (retry q t c m s)))"
proof -
  let ?again = "to_json (t\<lparr>task_attempts := task_attempts t + 1\<rparr>)"
  have push: "P (view (fst (bindS (rd_lpush (tq_client q) (retry_key q t m) ?again) (\<lambda>_. returnS x) u)))"
    if "P (view u)" for u and x :: bool
    by (rule bindS_final[where P = "\<lambda>s. P (view s)"])
      (use command_effect[OF commandD(1)[OF laws], of "retry_key q t m" ?again u] assms(4)[OF that] that in auto)
  show ?thesis
    unfolding retry_alt
    by (rule bindS_final[where P = "\<lambda>s. P (view s)"])
      (use ack_effect[OF laws, of t c s] assms(2) assms(3)[OF assms(2)] push in auto)
qed

lemma holds_requeue:
  assumes laws: "redis_lists (tq_client q) view" and "requeue_stale q n c clock s = Some (s', Inr k)"
    and "holds P (view s)"
  shows "holds P (view s')"
proof -
  from requeue_loop_moves[OF laws, of n c clock 0 s s' k] assms(2) obtain xs ys where
    lists: "view s (processing_key q n c) = xs @ ys"
      "view s' (queue_key q n) = ys @ view s (queue_key q n)"
      "xs \<noteq> [] \<Longrightarrow> view s' (processing_key q n c) = last xs # butlast xs"
      "\<And>key. key \<noteq> queue_key q n \<Longrightarrow> key \<noteq> processing_key q n c \<Longrightarrow> view s' key = view s key"
    unfolding requeue_stale_def by metis
  from assms(3) obtain key u where u: "u \<in> set (view s key)" "P u" by (auto simp: holds_def)
  have "u \<in> set (view s' (processing_key q n c))" if "u \<in> set xs"
    using that lists(3) by (cases xs rule: rev_cases) auto
  then have "\<exists>key'. u \<in> set (view s' key')"
    using u(1) lists(1,2,4) by (metis Un_iff set_append)
  with u(2) show ?thesis by (auto simp: holds_def)
qed

lemma queue_step_holds:
  assumes laws: "redis_lists (tq_client q) view"
    and "queue_step q op s ok s'" and "keeps_task i op ok" and held: "holds (is_task i) (view s)"
  shows "holds (is_task i) (view s')"
  using assms(2)
proof (cases rule: queue_step.cases)
  case (step_enqueue j now n te job p r)
  then show ?thesis using enqueue_effect[OF laws, of j now n te job p s] held by (auto intro: holds_push)
next
  case (step_reserve ns c t r)
  then show ?thesis
    using reserve_final[OF laws, of "holds (is_task i)", OF held, where names = ns and c = c and timeout = t]
    by (auto intro: holds_move)
next
  case (step_ack t c r)
  then show ?thesis
    using ack_effect[OF laws, of t c s] held assms(3) by (auto simp: keeps_task_def holds_remove_one)
next
  case (step_retry t c m r)
  show ?thesis
  proof (cases "task_id t = i")
    case True
    then obtain b where "retry q t c m s = (s', Inr b)"
      using step_retry assms(3) by (cases r) (auto simp: keeps_task_def)
    from retry_returns(1)[OF laws this] show ?thesis using True by (simp add: holds_push)
  next
    case False
    then show ?thesis
      using retry_final[OF laws, of "holds (is_task i)", OF held, where t = t and c = c and m = m] step_retry
      by (auto simp: holds_remove_one holds_push)
  qed
next
  case (step_requeue n c clock r)
  then obtain k where "requeue_stale q n c clock s = Some (s', Inr k)"
    using assms(3) by (cases r) (auto simp: keeps_task_def)
  from holds_requeue[OF laws this held] show ?thesis .
qed (use assms(3) in \<open>simp add: keeps_task_def\<close>)

text \<open>
  C23: A task that is anywhere in the queues stays there. Take any sequence of calls by producers and
  consumers, in which calls may fail because a Redis command raises at any point, before or after it
  took effect. A task that was in some list before is in some list afterwards unless the sequence
  acknowledges it, purges a queue, or contains a retry of it or a return of stale tasks that was
  interrupted. So a consumer may die at any time between taking a task and finishing it.
\<close>

theorem no_task_is_lost:
  assumes "redis_lists (tq_client q) view" and "queue_run q ops s s'"
    and "\<forall>(op, ok)\<in>set ops. keeps_task i op ok" and "holds (is_task i) (view s)"
  shows "holds (is_task i) (view s')"
  using assms(2-4)
proof (induction rule: queue_run.induct)
  case (run_more op s ok s1 ops s')
  from queue_step_holds[OF assms(1) run_more.hyps(1) _ run_more.prems(2)] run_more.prems(1)
  have "holds (is_task i) (view s1)" by auto
  with run_more.IH run_more.prems(1) show ?case by auto
qed

section \<open>The bag of tasks\<close>

definition bag :: "string set \<Rightarrow> lists \<Rightarrow> json multiset" where
  "bag K L = (\<Sum>k\<in>K. mset (L k))"

lemma bag_update:
  assumes "finite K" and "k \<in> K"
  shows "bag K (L(k := xs)) + mset (L k) = bag K L + mset xs"
  using assms by (simp add: bag_def sum.remove[where x = k])

lemma bag_push: "finite K \<Longrightarrow> k \<in> K \<Longrightarrow> bag K (fst (list_push k v L)) = add_mset v (bag K L)"
  using bag_update[of K k L "v # L k"] by (simp add: list_push_def)

lemma bag_move:
  assumes "finite K" "k \<in> K" "k' \<in> K"
  shows "bag K (fst (list_move k k' L)) = bag K L"
proof (cases rule: list_pop_cases[of L k])
  case (2 xs v)
  have move: "fst (list_move k k' L) = fst (list_push k' v (L(k := xs)))"
    using 2 by (simp add: list_move_def list_push_def)
  have "bag K (L(k := xs)) + mset (L k) = bag K L + mset xs" by (rule bag_update[OF assms(1,2)])
  then have "add_mset v (bag K (L(k := xs))) = bag K L" using 2(1) by simp
  then show ?thesis unfolding move using bag_push[OF assms(1,3)] by simp
qed (simp add: list_move_def)

lemma bag_remove_one:
  assumes "finite K" "k \<in> K"
  shows "bag K (fst (list_remove_one k v L)) = (if v \<in> set (L k) then bag K L - {#v#} else bag K L)"
    and "v \<in> set (L k) \<Longrightarrow> v \<in># bag K L"
proof -
  have eq: "bag K (L(k := remove1 v (L k))) + mset (L k) = bag K L + (mset (L k) - {#v#})"
    using bag_update[OF assms, of L "remove1 v (L k)"] by simp
  show "bag K (fst (list_remove_one k v L)) = (if v \<in> set (L k) then bag K L - {#v#} else bag K L)"
  proof (cases "v \<in> set (L k)")
    case True
    then obtain M where "mset (L k) = add_mset v M" by (metis set_mset_mset multi_member_split)
    with eq have "add_mset v (bag K (L(k := remove1 v (L k)))) + M = bag K L + M" by simp
    then have "bag K L = add_mset v (bag K (L(k := remove1 v (L k))))" by (simp only: add_right_cancel)
    then show ?thesis using True by (auto simp: list_remove_one_def)
  qed (use eq in \<open>simp add: list_remove_one_def remove1_idem fun_upd_idem\<close>)
  show "v \<in># bag K L" if "v \<in> set (L k)" using that assms by (auto simp: bag_def sum.remove[where x = k])
qed

lemma bag_requeue:
  assumes laws: "redis_lists (tq_client q) view" and "requeue_stale q n c clock s = Some (s', Inr k)"
    and "finite K" "queue_key q n \<in> K" "processing_key q n c \<in> K"
  shows "bag K (view s') = bag K (view s)"
proof -
  let ?qk = "queue_key q n" and ?pk = "processing_key q n c"
  from requeue_loop_moves[OF laws, of n c clock 0 s s' k] assms(2) obtain xs ys where
    lists: "view s ?pk = xs @ ys" "view s' ?qk = ys @ view s ?qk"
      "xs = [] \<Longrightarrow> view s' ?pk = []" "xs \<noteq> [] \<Longrightarrow> view s' ?pk = last xs # butlast xs"
      and others: "\<And>key. key \<noteq> ?qk \<Longrightarrow> key \<noteq> ?pk \<Longrightarrow> view s' key = view s key"
    unfolding requeue_stale_def by metis
  have pk: "mset (view s' ?pk) = mset xs" using lists(3,4) by (cases xs rule: rev_cases) auto
  have two: "bag K L = mset (L ?qk) + mset (L ?pk) + (\<Sum>k\<in>K - {?qk} - {?pk}. mset (L k))" for L
    using assms(3-5) by (simp add: bag_def sum.remove[where x = ?qk] sum.remove[where x = ?pk] add.assoc)
  have "(\<Sum>k\<in>K - {?qk} - {?pk}. mset (view s' k)) = (\<Sum>k\<in>K - {?qk} - {?pk}. mset (view s k))"
    by (rule sum.cong) (auto simp: others)
  then show ?thesis using two[of "view s'"] two[of "view s"] lists(1,2) pk by (simp add: ac_simps)
qed

text \<open>The lists a call touches, and what the call does to the bag of entries when it returns.\<close>

fun touches :: "'s queue \<Rightarrow> queue_op \<Rightarrow> string set" where
  "touches q (EnqueueOp i now n te j p) = {queue_key q n}"
| "touches q (ReserveOp ns c t) = queue_key q ` set ns \<union> (\<lambda>n. processing_key q n c) ` set ns"
| "touches q (AckOp t c) = {processing_key q (task_queue t) c}"
| "touches q (RetryOp t c m) = {processing_key q (task_queue t) c, queue_key q (task_queue t), dead_key q (task_queue t)}"
| "touches q (RequeueOp n c clock) = {queue_key q n, processing_key q n c}"
| "touches q (PurgeOp n) = {queue_key q n}"

fun ledger :: "queue_op \<Rightarrow> json multiset \<Rightarrow> json multiset \<Rightarrow> bool" where
  "ledger (EnqueueOp i now n te j p) B B' \<longleftrightarrow> B' = add_mset (to_json (new_task i now n te j p)) B"
| "ledger (AckOp t c) B B' \<longleftrightarrow> B' = B \<or> B = add_mset (to_json t) B'"
| "ledger (RetryOp t c m) B B' \<longleftrightarrow>
     (\<exists>C. (C = B \<or> B = add_mset (to_json t) C)
        \<and> B' = add_mset (to_json (t\<lparr>task_attempts := task_attempts t + 1\<rparr>)) C)"
| "ledger (PurgeOp n) B B' \<longleftrightarrow> B' \<subseteq># B"
| "ledger _ B B' \<longleftrightarrow> B' = B"

lemma bag_remove:
  assumes "finite K" "k \<in> K"
  shows "bag K (fst (list_remove_one k v L)) = bag K L \<or> bag K L = add_mset v (bag K (fst (list_remove_one k v L)))"
  using bag_remove_one[OF assms, where L = L and v = v] by auto

lemma ledger_step:
  assumes laws: "redis_lists (tq_client q) view" and "queue_step q op s True s'"
    and K: "finite K" "touches q op \<subseteq> K"
  shows "ledger op (bag K (view s)) (bag K (view s'))"
  using assms(2)
proof (cases rule: queue_step.cases)
  case (step_enqueue i now n te j p r)
  then obtain t where "enqueue q i now n te j p s = (s', Inr t)" by (cases r) auto
  from enqueue_returns(3,4)[OF laws this] show ?thesis using step_enqueue K by (simp add: bag_push)
next
  case (step_reserve ns c t r)
  have "queue_key q n \<in> K \<and> processing_key q n c \<in> K" if "n \<in> set ns" for n
    using that K step_reserve by auto
  then have "bag K (view (fst (reserve q ns c t s))) = bag K (view s)"
    by (intro reserve_final[OF laws, where P = "\<lambda>L. bag K L = bag K (view s)"])
      (simp_all add: bag_move[OF K(1)])
  then show ?thesis using step_reserve by simp
next
  case (step_ack t c r)
  then obtain b where "ack q t c s = (s', Inr b)" by (cases r) auto
  from ack_returns(1)[OF laws this] show ?thesis
    using step_ack K bag_remove[OF K(1), of "processing_key q (task_queue t) c"] by simp
next
  case (step_retry t c m r)
  then obtain b where b: "retry q t c m s = (s', Inr b)" by (cases r) auto
  let ?L = "fst (list_remove_one (processing_key q (task_queue t) c) (to_json t) (view s))"
  have "retry_key q t m \<in> K" using K step_retry by (simp add: retry_key_def)
  from bag_push[OF K(1) this] retry_returns(1)[OF laws b]
  have "bag K (view s') = add_mset (to_json (t\<lparr>task_attempts := task_attempts t + 1\<rparr>)) (bag K ?L)" by simp
  moreover have "bag K ?L = bag K (view s) \<or> bag K (view s) = add_mset (to_json t) (bag K ?L)"
    by (rule bag_remove) (use K step_retry in auto)
  ultimately show ?thesis unfolding step_retry ledger.simps by blast
next
  case (step_requeue n c clock r)
  then obtain k where "requeue_stale q n c clock s = Some (s', Inr k)" by (cases r) auto
  from bag_requeue[OF laws this K(1)] show ?thesis using step_requeue K by simp
next
  case (step_purge n r)
  then obtain b s1 s2 where b: "depth q n s = (s1, Inr b)" "rd_delete (tq_client q) (queue_key q n) s1 = (s', Inr s2)"
    by (cases r) (auto simp: purge_def action_simps)
  have "view s' = (view s)(queue_key q n := [])"
    using command_returns[OF commandD(6)[OF laws] b(2)] depth_returns[OF laws b(1)] by (simp add: list_drop_def)
  moreover have "bag K ((view s)(queue_key q n := [])) + mset (view s (queue_key q n)) = bag K (view s)"
    using bag_update[OF K(1), of "queue_key q n" "view s" "[]"] K step_purge by simp
  ultimately have "bag K (view s) = bag K (view s') + mset (view s (queue_key q n))" by simp
  then show ?thesis unfolding step_purge ledger.simps by simp
qed

fun ledger_run :: "queue_op list \<Rightarrow> json multiset \<Rightarrow> json multiset \<Rightarrow> bool" where
  "ledger_run [] B B' \<longleftrightarrow> B' = B"
| "ledger_run (op # ops) B B' \<longleftrightarrow> (\<exists>C. ledger op B C \<and> ledger_run ops C B')"

text \<open>
  C24: All lists together are one bag of tasks. A sequence of calls that return, by any number of
  producers and consumers, acts on the bag of all entries of the lists it touches as the abstract
  ledger does: enqueueing adds the new task, reserving and returning stale tasks move entries but
  change nothing, an acknowledgement takes out at most the one task acknowledged, a retry replaces
  one entry by the same task with one more attempt, and only a purge drops waiting tasks.
\<close>

theorem queue_refines_bag:
  assumes "redis_lists (tq_client q) view" and "queue_run q (map (\<lambda>op. (op, True)) ops) s s'"
    and "finite K" and "\<forall>op\<in>set ops. touches q op \<subseteq> K"
  shows "ledger_run ops (bag K (view s)) (bag K (view s'))"
  using assms(2,4)
proof (induction ops arbitrary: s)
  case (Cons op ops)
  from Cons.prems(1) obtain s1 where s1: "queue_step q op s True s1"
    "queue_run q (map (\<lambda>op. (op, True)) ops) s1 s'" by auto
  from ledger_step[OF assms(1) s1(1) assms(3)] Cons.prems(2)
  have "ledger op (bag K (view s)) (bag K (view s1))" by simp
  moreover have "ledger_run ops (bag K (view s1)) (bag K (view s'))"
    by (rule Cons.IH[OF s1(2)]) (use Cons.prems(2) in simp)
  ultimately show ?case by auto
qed simp

section \<open>Tasks that keep failing\<close>

lemma requeue_one_final:
  assumes laws: "redis_lists (tq_client q) view" and P: "P (view s)"
    and pop: "\<And>L. P L \<Longrightarrow> P (fst (list_pop (processing_key q n c) L))"
    and push: "\<And>L L' v key. P L \<Longrightarrow> list_pop (processing_key q n c) L = (L', Some v) \<Longrightarrow>
       key \<in> {processing_key q n c, queue_key q n} \<Longrightarrow> P (fst (list_push key v L'))"
  shows "P (view (fst (requeue_one q n c now moved s)))"
proof -
  let ?m = "rd_rpop (tq_client q) (processing_key q n c)"
  have popped: "P (view (fst (?m s)))" using command_effect[OF commandD(4)[OF laws], of "processing_key q n c" s] P pop by auto
  show ?thesis
  proof (cases "snd (?m s)")
    case (Inl e)
    then show ?thesis using popped by (simp add: requeue_one_def bindS_raises)
  next
    case (Inr v)
    have eq: "(view (fst (?m s)), v) = list_pop (processing_key q n c) (view s)"
      by (rule command_returns[OF commandD(4)[OF laws]]) (use Inr in \<open>metis prod.collapse\<close>)
    have again: "P (view (fst (bindS (rd_lpush (tq_client q) key raw) (\<lambda>_. returnS x) (fst (?m s)))))"
      if "v = Some raw" "key \<in> {processing_key q n c, queue_key q n}" for key raw and x :: "nat + nat"
      by (rule bindS_final[where P = "\<lambda>s. P (view s)"])
        (use command_effect[OF commandD(1)[OF laws], of key raw "fst (?m s)"] popped
          push[OF P _ that(2), of "view (fst (?m s))" raw] eq that in auto)
    have lifted: "fst (bindS (liftS z) f t) = (case z of Inl e \<Rightarrow> t | Inr y \<Rightarrow> fst (f y t))"
      for z and f :: "task \<Rightarrow> ('a, nat + nat) action" and t
      by (cases z) (simp_all add: bind_lift bind_raise)
    show ?thesis
      using popped again by (simp add: requeue_one_def bindS_returns Inr lifted split: option.split sum.split)
  qed
qed

lemma requeue_loop_final:
  assumes laws: "redis_lists (tq_client q) view"
    and pop: "\<And>L. P L \<Longrightarrow> P (fst (list_pop (processing_key q n c) L))"
    and push: "\<And>L L' v key. P L \<Longrightarrow> list_pop (processing_key q n c) L = (L', Some v) \<Longrightarrow>
       key \<in> {processing_key q n c, queue_key q n} \<Longrightarrow> P (fst (list_push key v L'))"
  shows "requeue_loop q n c clock moved s = Some (s', r) \<Longrightarrow> P (view s) \<Longrightarrow> P (view s')"
proof (induction "length (view s (processing_key q n c))" arbitrary: moved s rule: less_induct)
  case less
  obtain s1 one where one: "requeue_one q n c (clock moved) moved s = (s1, one)" by (meson surj_pair)
  have P1: "P (view s1)"
    using requeue_one_final[OF laws less.prems(2) pop push, where now = "clock moved" and moved = moved] one by simp
  show ?case
  proof (cases "\<exists>k. one = Inr (Inr k)")
    case True
    then obtain k where k: "one = Inr (Inr k)" by blast
    from requeue_one_returns[OF laws one[unfolded k]]
    have "length (view s1 (processing_key q n c)) < length (view s (processing_key q n c))" by cases auto
    moreover have "requeue_loop q n c clock k s1 = Some (s', r)"
      using less.prems(1) one k by (subst (asm) requeue_loop.simps) simp
    ultimately show ?thesis using less.hyps P1 by blast
  next
    case False
    then have "s' = s1" using less.prems(1) one by (subst (asm) requeue_loop.simps) (auto split: sum.splits)
    then show ?thesis using P1 by simp
  qed
qed

text \<open>
  The number of failed attempts an entry carries; waiting and reserved tasks have fewer than the
  bound, parked ones have reached it.
\<close>

definition failures :: "json \<Rightarrow> int" where
  "failures v = (case from_json v of Inl e \<Rightarrow> 0 | Inr t \<Rightarrow> task_attempts t)"

definition live_keys :: "'s queue \<Rightarrow> string set" where
  "live_keys q = range (queue_key q) \<union> {processing_key q n c | n c. True}"

definition parked :: "int \<Rightarrow> 's queue \<Rightarrow> lists \<Rightarrow> bool" where
  "parked m q L \<longleftrightarrow> (\<forall>k\<in>live_keys q. \<forall>v\<in>set (L k). failures v < m)
     \<and> (\<forall>n. \<forall>v\<in>set (L (dead_key q n)). m \<le> failures v)"

lemma failures_to_json [simp]: "failures (to_json t) = task_attempts t"
  by (simp add: failures_def)

lemma live_keys [simp]: "queue_key q n \<in> live_keys q" "processing_key q n c \<in> live_keys q" "dead_key q n \<notin> live_keys q"
  by (auto simp: live_keys_def)

lemma parked_push_live:
  "parked m q L \<Longrightarrow> k \<in> live_keys q \<Longrightarrow> failures v < m \<Longrightarrow> parked m q (fst (list_push k v L))"
  using live_keys(3) by (fastforce simp: parked_def list_push_def)

lemma parked_push_dead:
  "parked m q L \<Longrightarrow> m \<le> failures v \<Longrightarrow> parked m q (fst (list_push (dead_key q n) v L))"
  using live_keys(3) by (fastforce simp: parked_def list_push_def)

lemma parked_shrink:
  "parked m q L \<Longrightarrow> set xs \<subseteq> set (L k) \<Longrightarrow> parked m q (L(k := xs))"
  by (auto simp: parked_def)

lemma parked_pop:
  assumes "parked m q L" and "k \<in> live_keys q" and "list_pop k L = (L', r)"
  shows "parked m q L'" and "r = Some v \<Longrightarrow> failures v < m"
proof -
  have "parked m q L' \<and> (r = Some v \<longrightarrow> failures v < m)"
  proof (cases rule: list_pop_cases[of L k])
    case (2 xs w)
    then have "L' = L(k := xs)" "r = Some w" using assms(3) by auto
    then show ?thesis using assms(1,2) 2(1) parked_shrink[OF assms(1), of xs k] by (auto simp: parked_def)
  qed (use assms in auto)
  then show "parked m q L'" and "r = Some v \<Longrightarrow> failures v < m" by simp_all
qed

lemma parked_move:
  assumes "parked m q L" and "k \<in> live_keys q" and "k' \<in> live_keys q"
  shows "parked m q (fst (list_move k k' L))"
proof -
  obtain L' r where pop: "list_pop k L = (L', r)" by (meson surj_pair)
  note p = parked_pop[OF assms(1,2) pop]
  show ?thesis
  proof (cases r)
    case (Some v)
    have "fst (list_move k k' L) = fst (list_push k' v L')" using pop Some by (simp add: list_move_def list_push_def)
    then show ?thesis using parked_push_live[OF p(1) assms(3) p(2)[OF Some]] by simp
  qed (use p pop in \<open>simp add: list_move_def\<close>)
qed

lemma parked_remove_one: "parked m q L \<Longrightarrow> parked m q (fst (list_remove_one k v L))"
  by (simp add: list_remove_one_def parked_shrink set_remove1_subset)

lemma queue_step_parked:
  assumes laws: "redis_lists (tq_client q) view" and "queue_step q op s ok s'"
    and bound: "0 < m" "\<And>t c k. op = RetryOp t c k \<Longrightarrow> k = m" and parked: "parked m q (view s)"
  shows "parked m q (view s')"
  using assms(2)
proof (cases rule: queue_step.cases)
  case (step_enqueue j now n te job p r)
  then show ?thesis using enqueue_effect[OF laws, of j now n te job p s] parked bound(1)
    by (auto intro!: parked_push_live simp: new_task_def)
next
  case (step_reserve ns c t r)
  then show ?thesis
    using reserve_final[OF laws, of "parked m q", OF parked, where names = ns and c = c and timeout = t]
    by (simp add: parked_move)
next
  case (step_ack t c r)
  then show ?thesis using ack_effect[OF laws, of t c s] parked by (auto intro: parked_remove_one)
next
  case (step_retry t c k r)
  have "k = m" by (rule bound(2)) (rule step_retry)
  have "parked m q (view (fst (retry q t c m s)))"
  proof (rule retry_final[OF laws, of "parked m q", OF parked])
    fix L assume "parked m q L"
    then show "parked m q (fst (list_push (retry_key q t m) (to_json (t\<lparr>task_attempts := task_attempts t + 1\<rparr>)) L))"
      by (auto simp: retry_key_def intro: parked_push_live parked_push_dead)
  qed (rule parked_remove_one)
  then show ?thesis using step_retry \<open>k = m\<close> by simp
next
  case (step_requeue n c clock r)
  show ?thesis
  proof (rule requeue_loop_final[OF laws, where P = "parked m q", OF _ _ _ parked])
    show "requeue_loop q n c clock 0 s = Some (s', r)" using step_requeue by (simp add: requeue_stale_def)
    show "parked m q (fst (list_pop (processing_key q n c) L))" if "parked m q L" for L
      using parked_pop(1)[OF that live_keys(2)] by (metis prod.collapse)
    show "parked m q (fst (list_push key v L'))"
      if "parked m q L" "list_pop (processing_key q n c) L = (L', Some v)"
        "key \<in> {processing_key q n c, queue_key q n}" for L L' v key
      using parked_pop[OF that(1) live_keys(2) that(2)] that(3) by (auto intro: parked_push_live)
  qed
next
  case (step_purge n r)
  let ?Q = "\<lambda>t. parked m q (view t)"
  have del: "?Q (fst (rd_delete (tq_client q) (queue_key q n) t))" if "?Q t" for t
    using command_effect[OF commandD(6)[OF laws], of "queue_key q n" t] that parked_shrink[OF that, of "[]"]
    by (auto simp: list_drop_def)
  have "?Q (fst (purge q n s))"
    unfolding purge_def
  proof (rule bindS_final[where P = ?Q])
    show "?Q (fst (depth q n s))" using parked by (simp add: depth_view[OF laws])
    show "?Q (fst (bindS (rd_delete (tq_client q) (queue_key q n)) (\<lambda>_. returnS x) t))" if "?Q t" for x t
      by (rule bindS_final[where P = ?Q]) (use del[OF that] in auto)
  qed
  then show ?thesis using step_purge by simp
qed

text \<open>
  A task that keeps failing is parked. If every retry uses the bound \<open>m\<close>, then along every
  sequence of calls, failed ones included, the tasks that wait or are being worked on have failed
  fewer than \<open>m\<close> times, so none is delivered more often than \<open>m\<close> times through retries, and a task on a
  dead list has failed at least \<open>m\<close> times.
\<close>

theorem failing_tasks_are_parked:
  assumes "redis_lists (tq_client q) view" and "queue_run q ops s s'"
    and "0 < m" and "\<forall>t c k ok. (RetryOp t c k, ok) \<in> set ops \<longrightarrow> k = m"
    and "parked m q (view s)"
  shows "parked m q (view s')"
  using assms(2,4,5)
proof (induction rule: queue_run.induct)
  case (run_more op s ok s1 ops s')
  have "parked m q (view s1)"
    by (rule queue_step_parked[OF assms(1) run_more.hyps(1) assms(3) _ run_more.prems(2)])
      (use run_more.prems(1) in auto)
  with run_more.IH run_more.prems(1) show ?case by (meson list.set_intros(2))
qed

section \<open>Order of delivery\<close>

lemma list_move_cases:
  obtains "L k = []" "list_move k k' L = (L, None)"
  | xs v where "L k = xs @ [v]" "list_move k k' L = ((L(k := xs))(k' := v # (L(k := xs)) k'), Some v)"
  by (cases rule: list_pop_cases[of L k]) (auto simp: list_move_def)

lemma reserve_from_returns:
  assumes laws: "redis_lists (tq_client q) view" and "reserve_from q c n a s = (s', Inr r)"
  shows "case r of Inr u \<Rightarrow> view s (queue_key q n) = [] \<and> view s' = view s
     | Inl t \<Rightarrow> \<exists>xs v. view s (queue_key q n) = xs @ [v] \<and> from_json v = Inr t
         \<and> view s' = (view s)(queue_key q n := xs, processing_key q n c := v # view s (processing_key q n c))"
proof -
  from assms(2) obtain s1 raw where
    move: "rd_rpoplpush (tq_client q) (queue_key q n) (processing_key q n c) s = (s1, Inr raw)"
    and rest: "(case raw of None \<Rightarrow> returnS (Inr ())
       | Some v \<Rightarrow> bindS (liftS (from_json v)) (\<lambda>t. returnS (Inl t))) s1 = (s', Inr r)"
    by (auto simp: reserve_from_def action_simps)
  have eq: "(view s1, raw) = list_move (queue_key q n) (processing_key q n c) (view s)"
    by (rule command_returns[OF commandD(2)[OF laws] move])
  show ?thesis
    by (cases rule: list_move_cases[of "view s" "queue_key q n" "processing_key q n c"])
      (use eq rest in \<open>auto simp: action_simps\<close>)
qed

lemma reserve_loop_returns:
  assumes laws: "redis_lists (tq_client q) view"
  shows "untilS (reserve_from q c) names a s = (s', Inr r) \<Longrightarrow>
     (case r of Inr u \<Rightarrow> (\<forall>n\<in>set names. view s (queue_key q n) = []) \<and> view s' = view s
      | Inl t \<Rightarrow> \<exists>before n after xs v. names = before @ n # after
         \<and> (\<forall>b\<in>set before. view s (queue_key q b) = [])
         \<and> view s (queue_key q n) = xs @ [v] \<and> from_json v = Inr t
         \<and> view s' = (view s)(queue_key q n := xs, processing_key q n c := v # view s (processing_key q n c)))"
proof (induction names arbitrary: a s)
  case Nil
  then show ?case by (auto simp: action_simps)
next
  case (Cons n names)
  from Cons.prems obtain s1 one where one: "reserve_from q c n a s = (s1, Inr one)"
    and rest: "(case one of Inl t \<Rightarrow> returnS (Inl t) | Inr u \<Rightarrow> untilS (reserve_from q c) names u) s1 = (s', Inr r)"
    by (auto simp: action_simps)
  note first = reserve_from_returns[OF laws one]
  show ?case
  proof (cases one)
    case (Inl t)
    then have "r = Inl t" "s' = s1" using rest by (auto simp: action_simps)
    then show ?thesis using first Inl by (auto intro: exI[of _ "[]"])
  next
    case (Inr u)
    then have rest': "untilS (reserve_from q c) names u s1 = (s', Inr r)" and same: "view s1 = view s"
      and none: "view s (queue_key q n) = []" using rest first by auto
    from Cons.IH[OF rest'] show ?thesis
    proof (cases r)
      case (Inl t)
      with Cons.IH[OF rest'] same obtain before k after xs v where
        "names = before @ k # after" "\<forall>b\<in>set before. view s (queue_key q b) = []"
        "view s (queue_key q k) = xs @ [v]" "from_json v = Inr t"
        "view s' = (view s)(queue_key q k := xs, processing_key q k c := v # view s (processing_key q k c))"
        by auto
      with none Inl show ?thesis
        by (auto intro!: exI[of _ "n # before"])
    qed (use none same in auto)
  qed
qed

lemma reserve_returns:
  assumes laws: "redis_lists (tq_client q) view" and "reserve q names c timeout s = (s', Inr r)"
  shows "case r of None \<Rightarrow> (\<forall>n\<in>set names. view s (queue_key q n) = []) \<and> view s' = view s
     | Some t \<Rightarrow> \<exists>before n after xs v. names = before @ n # after
         \<and> (\<forall>b\<in>set before. view s (queue_key q b) = [])
         \<and> view s (queue_key q n) = xs @ [v] \<and> from_json v = Inr t
         \<and> view s' = (view s)(queue_key q n := xs, processing_key q n c := v # view s (processing_key q n c))"
proof -
  from assms(2) obtain s1 one where loop: "untilS (reserve_from q c) names () s = (s1, Inr one)"
    and rest: "(case one of Inl t \<Rightarrow> returnS (Some t)
       | Inr u \<Rightarrow> (case names of [] \<Rightarrow> liftS (Inl IndexError)
           | n # ns \<Rightarrow> bindS (rd_brpoplpush (tq_client q) (queue_key q n) (processing_key q n c) timeout)
               (\<lambda>raw. case raw of None \<Rightarrow> returnS None
                  | Some v \<Rightarrow> bindS (liftS (from_json v)) (\<lambda>t. returnS (Some t))))) s1 = (s', Inr r)"
    by (auto simp: reserve_def action_simps)
  note first = reserve_loop_returns[OF laws loop]
  show ?thesis
  proof (cases one)
    case (Inl t)
    then show ?thesis using first rest by (auto simp: action_simps)
  next
    case (Inr u)
    then have empty: "\<forall>n\<in>set names. view s (queue_key q n) = []" and same: "view s1 = view s" using first by auto
    from rest Inr obtain n ns s2 raw where names: "names = n # ns"
      and wait: "rd_brpoplpush (tq_client q) (queue_key q n) (processing_key q n c) timeout s1 = (s2, Inr raw)"
      and final: "(case raw of None \<Rightarrow> returnS None
          | Some v \<Rightarrow> bindS (liftS (from_json v)) (\<lambda>t. returnS (Some t))) s2 = (s', Inr r)"
      by (cases names) (auto simp: action_simps)
    have "raw = None"
      using blocking_move(3)[OF laws wait] empty same names
      by (cases raw) (auto simp: list_move_def list_pop_def)
    then show ?thesis using blocking_move(2)[OF laws wait] final empty same by (auto simp: action_simps)
  qed
qed

text \<open>
  What a consumer gets. When the commands return, it gets the oldest task of the first of its
  queues that has one, although later queues may hold older tasks, the task has moved to its own
  processing list and nothing else has changed; it gets nothing only when all its queues are empty.
\<close>

theorem reserve_takes_oldest:
  assumes "redis_lists (tq_client q) view" and "reserve q names c timeout s = (s', Inr r)"
  shows "case r of None \<Rightarrow> (\<forall>n\<in>set names. view s (queue_key q n) = []) \<and> view s' = view s
     | Some t \<Rightarrow> \<exists>before n after xs v. names = before @ n # after
         \<and> (\<forall>b\<in>set before. view s (queue_key q b) = [])
         \<and> view s (queue_key q n) = xs @ [v] \<and> from_json v = Inr t
         \<and> view s' = (view s)(queue_key q n := xs, processing_key q n c := v # view s (processing_key q n c))"
  by (rule reserve_returns[OF assms])

section \<open>Recovery and failures\<close>


text \<open>A store whose pushes fail.\<close>

definition unreachable_client :: "exn \<Rightarrow> lists redis" where
  "unreachable_client e = list_client\<lparr>rd_lpush := (\<lambda>k v. liftS (Inl e))\<rparr>"

lemma unreachable_client_lists: "redis_lists (unreachable_client e) (\<lambda>L. L)"
  using list_client_lists by (simp add: redis_lists_def unreachable_client_def command_def liftS_def)

text \<open>
  Where delivery is not at least once. A retry first removes the task from the processing list
  and then pushes it again; if the push fails, the task is in no list any more, whatever the
  exception. The same task was held before the call.
\<close>

theorem interrupted_retry_loses_task:
  fixes t :: task and e :: exn and ns c :: string and d v :: int
  defines "q \<equiv> \<lparr>tq_client = unreachable_client e, tq_namespace = ns, tq_max_depth = d, tq_visibility = v\<rparr>"
  defines "L \<equiv> (\<lambda>_. [])(processing_key q (task_queue t) c := [to_json t])"
  shows "redis_lists (tq_client q) (\<lambda>L. L) \<and> holds (is_task (task_id t)) L
    \<and> snd (retry q t c m L) = Inl e \<and> \<not> holds (is_task (task_id t)) (fst (retry q t c m L))"
proof -
  let ?k = "processing_key q (task_queue t) c"
  have client: "tq_client q = unreachable_client e" by (simp add: q_def)
  have "ack q t c L = ((\<lambda>_. []), Inr True)"
    by (auto simp: ack_def client unreachable_client_def list_client_def total_command_def list_remove_one_def
        L_def bindS_def returnS_def split: prod.splits sum.splits)
  then have "retry q t c m L = ((\<lambda>_. []), Inl e)"
    by (simp add: retry_alt bindS_def client unreachable_client_def liftS_def)
  moreover have "holds (is_task (task_id t)) L" unfolding holds_def by (rule exI[of _ ?k]) (simp add: L_def)
  ultimately show ?thesis using unreachable_client_lists by (simp add: client holds_def)
qed

text \<open>
  Backpressure. An accepted task is the newest of a queue that stays within its bound, and
  nothing else has changed. A queue at its bound, or an unknown queue, refuses the task and no list
  changes; the refusal of a full queue has no public error code, although the documentation of the
  class names \<open>QUEUE_OVERLOADED\<close>.
\<close>

theorem enqueue_backpressure:
  assumes laws: "redis_lists (tq_client q) view" and run: "enqueue q i now n te j p s = (s', r)"
  shows "(\<forall>t. r = Inr t \<longrightarrow> n \<in> set ALL_QUEUES \<and> t = new_task i now n te j p
        \<and> view s' = (view s)(queue_key q n := to_json t # view s (queue_key q n))
        \<and> int (length (view s' (queue_key q n))) \<le> tq_max_depth q)
    \<and> (n \<notin> set ALL_QUEUES \<longrightarrow> r = Inl (Sastt PlainSasttError) \<and> view s' = view s)
    \<and> (\<forall>d. n \<in> set ALL_QUEUES \<longrightarrow> snd (depth q n s) = Inr d \<longrightarrow>
        tq_max_depth q \<le> int (length (view s (queue_key q n))) \<longrightarrow>
        r = Inl (Sastt RedisQueueOverloadedError) \<and> view s' = view s
        \<and> code_of RedisQueueOverloadedError = None)"
proof (intro conjI allI impI)
  fix t assume t: "r = Inr t"
  note e = enqueue_returns[OF laws run[unfolded t]]
  show "n \<in> set ALL_QUEUES" "t = new_task i now n te j p" by (rule e)+
  show "view s' = (view s)(queue_key q n := to_json t # view s (queue_key q n))"
    using e(4) by (simp add: list_push_def)
  then show "int (length (view s' (queue_key q n))) \<le> tq_max_depth q" using e(2) by simp
next
  assume "n \<notin> set ALL_QUEUES"
  then show "r = Inl (Sastt PlainSasttError)" "view s' = view s" using run by (auto simp: enqueue_def liftS_def)
next
  fix d assume n: "n \<in> set ALL_QUEUES" and d: "snd (depth q n s) = Inr d"
    and full: "tq_max_depth q \<le> int (length (view s (queue_key q n)))"
  have "d = int (length (view s (queue_key q n)))"
    using depth_returns[OF laws] d by (metis prod.collapse)
  then have "enqueue q i now n te j p s = (fst (depth q n s), Inl (Sastt RedisQueueOverloadedError))"
    using n full using d by (simp add: enqueue_def bindS_returns[of "depth q n" s d] liftS_def)
  then show "r = Inl (Sastt RedisQueueOverloadedError)" "view s' = view s"
    using run depth_view[OF laws] by auto
  show "code_of RedisQueueOverloadedError = None" by simp
qed

section \<open>A concrete queue\<close>

text \<open>Applications at a queue over a store of lists: one task waits, a consumer takes it and fails.\<close>

definition demo_queue :: "lists queue" where
  "demo_queue = \<lparr>tq_client = list_client, tq_namespace = ''sastt'', tq_max_depth = 10, tq_visibility = 300000\<rparr>"

definition demo_task :: task where
  "demo_task = new_task ''tsk_1'' 0 ''asr.batch'' ''acme'' ''job_1'' None"

definition demo_lists :: lists where
  "demo_lists = (\<lambda>_. [])(queue_key demo_queue ''asr.batch'' := [to_json demo_task])"

lemma demo_laws: "redis_lists (tq_client demo_queue) (\<lambda>L. L)"
  by (simp add: demo_queue_def list_client_lists)

lemmas demo_eval = demo_queue_def list_client_def total_command_def list_move_def list_pop_def list_push_def
  list_remove_one_def bindS_def returnS_def liftS_def queue_key_def processing_key_def dead_key_def

definition demo_reserved :: lists where
  "demo_reserved = (\<lambda>_. [])(processing_key demo_queue ''asr.batch'' ''w1'' := [to_json demo_task])"

lemma demo_reserve: "reserve demo_queue [''asr.batch''] ''w1'' 5 demo_lists = (demo_reserved, Inr (Some demo_task))"
  by (auto simp: reserve_def reserve_from_def demo_lists_def demo_reserved_def demo_eval)

lemma demo_retry:
  "retry demo_queue demo_task ''w1'' 3 demo_reserved
     = ((\<lambda>_. [])(queue_key demo_queue ''asr.batch'' := [to_json (demo_task\<lparr>task_attempts := 1\<rparr>)]), Inr True)"
  by (auto simp: retry_alt ack_def retry_key_def demo_reserved_def demo_eval demo_task_def new_task_def)

lemma demo_queue_run:
  "queue_run demo_queue [(ReserveOp [''asr.batch''] ''w1'' 5, True), (RetryOp demo_task ''w1'' 3, True)] demo_lists
     ((\<lambda>_. [])(queue_key demo_queue ''asr.batch'' := [to_json (demo_task\<lparr>task_attempts := 1\<rparr>)]))"
  using step_reserve[OF demo_reserve] step_retry[OF demo_retry] by auto

lemma demo_holds: "holds (is_task ''tsk_1'') demo_lists"
  unfolding holds_def
  by (rule exI[of _ "queue_key demo_queue ''asr.batch''"])
    (simp add: demo_lists_def demo_task_def new_task_def)

theorem no_task_is_lost_witness:
  "holds (is_task ''tsk_1'') (\<lambda>k. if k = queue_key demo_queue ''asr.batch'' then [to_json (demo_task\<lparr>task_attempts := 1\<rparr>)] else [])"
proof -
  have "holds (is_task ''tsk_1'') ((\<lambda>_. [])(queue_key demo_queue ''asr.batch'' := [to_json (demo_task\<lparr>task_attempts := 1\<rparr>)]))"
    by (rule no_task_is_lost[where view = "\<lambda>L. L", OF demo_laws demo_queue_run])
      (auto simp: keeps_task_def demo_holds)
  then show ?thesis by (simp add: fun_upd_def)
qed

theorem queue_refines_bag_witness:
  "let K = {queue_key demo_queue ''asr.batch'', processing_key demo_queue ''asr.batch'' ''w1'', dead_key demo_queue ''asr.batch''}
   in ledger_run [ReserveOp [''asr.batch''] ''w1'' 5, RetryOp demo_task ''w1'' 3]
        {#to_json demo_task#} {#to_json (demo_task\<lparr>task_attempts := 1\<rparr>)#}"
proof -
  let ?K = "{queue_key demo_queue ''asr.batch'', processing_key demo_queue ''asr.batch'' ''w1'', dead_key demo_queue ''asr.batch''}"
  have q: "task_queue demo_task = ''asr.batch''" by (simp add: demo_task_def new_task_def)
  have "ledger_run [ReserveOp [''asr.batch''] ''w1'' 5, RetryOp demo_task ''w1'' 3] (bag ?K demo_lists)
     (bag ?K ((\<lambda>_. [])(queue_key demo_queue ''asr.batch'' := [to_json (demo_task\<lparr>task_attempts := 1\<rparr>)])))"
    by (rule queue_refines_bag[where view = "\<lambda>L. L", OF demo_laws]) (use demo_queue_run q in auto)
  then show ?thesis by (simp add: bag_def demo_lists_def Let_def)
qed

theorem failing_tasks_are_parked_witness:
  "parked 3 demo_queue ((\<lambda>_. [])(queue_key demo_queue ''asr.batch'' := [to_json (demo_task\<lparr>task_attempts := 1\<rparr>)]))"
  by (rule failing_tasks_are_parked[where view = "\<lambda>L. L", OF demo_laws demo_queue_run])
    (use live_keys(3)[of demo_queue] in
      \<open>auto simp: parked_def demo_lists_def demo_task_def new_task_def\<close>)

theorem reserve_takes_oldest_witness:
  "\<exists>before n after xs v. [''asr.batch''] = before @ n # after
     \<and> demo_lists (queue_key demo_queue n) = xs @ [v] \<and> from_json v = Inr demo_task"
  using reserve_takes_oldest[OF demo_laws demo_reserve] by fastforce

lemma demo_requeue:
  "requeue_stale demo_queue ''asr.batch'' ''w1'' (\<lambda>_. 300000) demo_reserved = Some (demo_lists, Inr 1)"
proof -
  have one: "requeue_one demo_queue ''asr.batch'' ''w1'' 300000 0 demo_reserved = (demo_lists, Inr (Inr 1))"
    by (auto simp: requeue_one_def demo_reserved_def demo_lists_def demo_eval age_ms_def demo_task_def new_task_def)
  have two: "requeue_one demo_queue ''asr.batch'' ''w1'' 300000 1 demo_lists = (demo_lists, Inr (Inl 1))"
    by (auto simp: requeue_one_def demo_lists_def demo_eval)
  show ?thesis
    unfolding requeue_stale_def
    by (subst requeue_loop.simps, simp only: one prod.case sum.case)
      (subst requeue_loop.simps, simp only: two prod.case sum.case)
qed


theorem enqueue_backpressure_witness:
  "snd (enqueue (demo_queue\<lparr>tq_max_depth := 1\<rparr>) ''tsk_2'' 7 ''asr.batch'' ''acme'' ''job_2'' None demo_lists)
     = Inl (Sastt RedisQueueOverloadedError)"
proof -
  let ?q = "demo_queue\<lparr>tq_max_depth := 1\<rparr>"
  obtain s' r where run: "enqueue ?q ''tsk_2'' 7 ''asr.batch'' ''acme'' ''job_2'' None demo_lists = (s', r)"
    by (meson surj_pair)
  have laws: "redis_lists (tq_client ?q) (\<lambda>L. L)" using demo_laws by simp
  have "snd (depth ?q ''asr.batch'' demo_lists) = Inr 1"
    and "int (length (demo_lists (queue_key ?q ''asr.batch''))) = 1" and "''asr.batch'' \<in> set ALL_QUEUES"
    by (simp_all add: depth_def demo_lists_def demo_eval ALL_QUEUES_def)
  with enqueue_backpressure[OF laws run] have "r = Inl (Sastt RedisQueueOverloadedError)" by auto
  then show ?thesis using run by simp
qed

end
