(* ===== verification/DatabaseProps.thy ===== *)
theory DatabaseProps
  imports Database "HOL-Library.Multiset"
begin

text \<open>
  What the PostgreSQL adapters guarantee: the job table refines the in-memory job store, a stored
  result is read back complete and ordered and belongs to one job of one tenant, the event table is
  another provider of the event stream interface, and where two writers of one job can undo each
  other.
\<close>

section \<open>Values of columns\<close>

lemma job_state_of_value [simp]: "job_state_of (job_state_value st) = Inr st"
  by (cases st) (simp_all add: job_state_of_def JOB_STATES_def)

lemma warnings_of_list [simp]: "warnings_of (JList (map JStr ws)) = Inr ws"
proof -
  have "mapR as_str (map JStr ws) = Inr ws" by (induction ws) auto
  then show ?thesis by (cases ws) (simp_all add: warnings_of_def)
qed

lemma event_type_of_value [simp]: "event_type_of (event_type_value t) = Inr t"
  by (cases t) (simp_all add: event_type_of_def EVENT_TYPES_def)

lemma find_unique:
  assumes "distinct (map f xs)"
  shows "List.find (\<lambda>x. f x = k) xs = Some x \<longleftrightarrow> x \<in> set xs \<and> f x = k"
  using assms by (induction xs) auto

lemma find_unique_and:
  assumes "distinct (map f xs)"
  shows "List.find (\<lambda>x. f x = k \<and> P x) xs
    = (case List.find (\<lambda>x. f x = k) xs of None \<Rightarrow> None | Some x \<Rightarrow> if P x then Some x else None)"
  using assms
proof (induction xs)
  case (Cons y ys)
  have "List.find (\<lambda>x. f x = f y) ys = None"
    using Cons.prems unfolding find_None_iff by (metis distinct.simps(2) image_eqI list.set_map list.simps(9))
  moreover have "List.find (\<lambda>x. f x = f y \<and> P x) ys = None"
    using Cons.prems unfolding find_None_iff by (metis distinct.simps(2) image_eqI list.set_map list.simps(9))
  ultimately show ?case using Cons by (cases "f y = k") auto
qed simp

lemma find_map: "(\<And>x. P (g x) = P x) \<Longrightarrow> List.find P (map g xs) = map_option g (List.find P xs)"
  by (induction xs) auto

section \<open>The job table refines the in-memory store\<close>

definition readable :: "job_row \<Rightarrow> bool" where
  "readable r \<longleftrightarrow> (\<exists>j. job_from_row r = Inr j)"

definition wf_db :: "db \<Rightarrow> bool" where
  "wf_db d \<longleftrightarrow> distinct (map jr_id (db_jobs d))
     \<and> distinct (map (\<lambda>r. (jr_tenant r, jr_key r)) (db_jobs d)) \<and> (\<forall>r\<in>set (db_jobs d). readable r)"

definition row_job :: "job_row \<Rightarrow> job" where
  "row_job r = (case job_from_row r of Inr j \<Rightarrow> j | Inl e \<Rightarrow> undefined)"

text \<open>The job store a table stands for.\<close>

definition jobs_of :: "db \<Rightarrow> job_store" where
  "jobs_of d = \<lparr>js_jobs = (\<lambda>i. map_option row_job (List.find (\<lambda>r. jr_id r = i) (db_jobs d))),
     js_by_key = (\<lambda>k. map_option jr_id (List.find (\<lambda>r. (jr_tenant r, jr_key r) = k) (db_jobs d)))\<rparr>"

lemma readable_job: "readable r \<Longrightarrow> job_from_row r = Inr (row_job r)"
  by (auto simp: readable_def row_job_def)

lemma row_job_eq:
  assumes "readable r"
  obtains st ws where "job_state_of (jr_state r) = Inr st" "warnings_of (jr_warnings r) = Inr ws"
    "row_job r = \<lparr>job_id = jr_id r, tenant_id = jr_tenant r, idempotency_key = jr_key r,
       input_hash = jr_input r, job_status = st, job_config = jr_config r, job_error = jr_error r,
       job_warnings = ws, job_degraded = jr_degraded r\<rparr>"
proof -
  obtain j where j: "job_from_row r = Inr j" using assms by (auto simp: readable_def)
  then have "row_job r = j" by (simp add: row_job_def)
  with j show ?thesis by (auto simp: job_from_row_def bindR_eq_Inr intro: that)
qed

lemma row_job_fields:
  assumes "readable r"
  shows "job_id (row_job r) = jr_id r" "tenant_id (row_job r) = jr_tenant r"
    "idempotency_key (row_job r) = jr_key r" "input_hash (row_job r) = jr_input r"
    "job_config (row_job r) = jr_config r" "job_error (row_job r) = jr_error r"
    "job_degraded (row_job r) = jr_degraded r"
  by (rule row_job_eq[OF assms], simp)+

text \<open>An operation of the adapter does to the table what the operation of the store does to the store.\<close>

definition simulates :: "db \<Rightarrow> (db, 'a) action \<Rightarrow> (job_store \<Rightarrow> (job_store \<times> 'a) res) \<Rightarrow> bool" where
  "simulates d m f \<longleftrightarrow>
     (case f (jobs_of d) of
        Inl e \<Rightarrow> m d = (d, Inl e)
      | Inr (s, x) \<Rightarrow> (\<exists>d'. m d = (d', Inr x) \<and> wf_db d' \<and> jobs_of d' = s
           \<and> db_segments d' = db_segments d \<and> db_events d' = db_events d))"

lemma found_row:
  assumes "wf_db d" and "List.find (\<lambda>r. jr_id r = i) (db_jobs d) = Some r"
  shows "r \<in> set (db_jobs d)" "jr_id r = i" "readable r"
  using assms find_unique[of jr_id "db_jobs d" i r] by (auto simp: wf_db_def)

lemma pg_get_simulates:
  assumes "wf_db d"
  shows "pg_get t i d = (d, job_get t i (jobs_of d))"
proof (cases "List.find (\<lambda>r. jr_id r = i) (db_jobs d)")
  case None
  then show ?thesis using assms
    by (simp add: pg_get_def select_job_def bind_read find_unique_and[of jr_id] wf_db_def job_get_def jobs_of_def liftS_def)
next
  case (Some r)
  note r = found_row[OF assms Some]
  show ?thesis using Some assms row_job_fields[OF r(3)] readable_job[OF r(3)]
    by (simp add: pg_get_def select_job_def bind_read find_unique_and[of jr_id] wf_db_def job_get_def jobs_of_def liftS_def)
qed

lemma update_jobs_effect:
  "update_jobs t i f d
     = (d\<lparr>db_jobs := map (\<lambda>r. if jr_id r = i \<and> jr_tenant r = t then f r else r) (db_jobs d)\<rparr>, Inr ())"
  by (simp add: update_jobs_def modifyS_def)

lemma update_one_row:
  assumes wf: "wf_db d" and get: "job_get t i (jobs_of d) = Inr j"
    and f: "\<And>r. jr_id (f r) = jr_id r \<and> jr_tenant (f r) = jr_tenant r \<and> jr_key (f r) = jr_key r"
    and row: "\<And>r. readable r \<Longrightarrow> row_job r = j \<Longrightarrow> job_from_row (f r) = Inr j'"
  defines "d' \<equiv> d\<lparr>db_jobs := map (\<lambda>r. if jr_id r = i \<and> jr_tenant r = t then f r else r) (db_jobs d)\<rparr>"
  shows "wf_db d' \<and> jobs_of d' = put_job j' i (jobs_of d)"
proof -
  let ?g = "\<lambda>r. if jr_id r = i \<and> jr_tenant r = t then f r else r"
  have g: "jr_id (?g r) = jr_id r" "jr_tenant (?g r) = jr_tenant r" "jr_key (?g r) = jr_key r" for r
    using f by auto
  from get obtain r where r: "List.find (\<lambda>r. jr_id r = i) (db_jobs d) = Some r" "row_job r = j" "tenant_id j = t"
    by (auto simp: job_get_def jobs_of_def split: option.splits if_splits)
  note row_r = found_row[OF wf r(1)]
  have t: "jr_tenant r = t" using row_job_fields(2)[OF row_r(3)] r by simp
  have new: "job_from_row (f r) = Inr j'" by (rule row[OF row_r(3) r(2)])
  have only: "x = r" if "x \<in> set (db_jobs d)" "jr_id x = i" for x
    using that find_unique[of jr_id "db_jobs d" i x] wf r(1) by (auto simp: wf_db_def)
  have read: "readable (?g x)" if "x \<in> set (db_jobs d)" for x
    using that only[OF that] new wf by (auto simp: wf_db_def readable_def)
  have "map jr_id (db_jobs d') = map jr_id (db_jobs d)"
    "map (\<lambda>r. (jr_tenant r, jr_key r)) (db_jobs d') = map (\<lambda>r. (jr_tenant r, jr_key r)) (db_jobs d)"
    using g by (auto simp: d'_def)
  moreover have "readable r" if "r \<in> set (db_jobs d')" for r
  proof -
    have "set (db_jobs d') = ?g ` set (db_jobs d)" by (simp add: d'_def)
    with that obtain x where "x \<in> set (db_jobs d)" "r = ?g x" by blast
    then show ?thesis using read by simp
  qed
  ultimately have wf': "wf_db d'" using wf by (simp add: wf_db_def)
  have keys: "List.find (\<lambda>r. (jr_tenant r, jr_key r) = k) (db_jobs d')
      = map_option ?g (List.find (\<lambda>r. (jr_tenant r, jr_key r) = k) (db_jobs d))" for k
    unfolding d'_def by (simp, rule find_map) (simp add: g)
  have ids: "List.find (\<lambda>r. jr_id r = k) (db_jobs d') = map_option ?g (List.find (\<lambda>r. jr_id r = k) (db_jobs d))" for k
    unfolding d'_def by (simp, rule find_map) (simp add: g)
  have "js_jobs (jobs_of d') k = ((js_jobs (jobs_of d))(i \<mapsto> j')) k" for k
  proof (cases "k = i")
    case True
    then show ?thesis using r(1) row_r(2) t new by (simp add: jobs_of_def ids row_job_def)
  next
    case False
    have "?g x = x" if "List.find (\<lambda>r. jr_id r = k) (db_jobs d) = Some x" for x
      using found_row(2)[OF wf that] False by simp
    then show ?thesis using False by (cases "List.find (\<lambda>r. jr_id r = k) (db_jobs d)") (simp_all add: jobs_of_def ids)
  qed
  moreover have "js_by_key (jobs_of d') k = js_by_key (jobs_of d) k" for k
    by (cases "List.find (\<lambda>r. (jr_tenant r, jr_key r) = k) (db_jobs d)") (simp_all add: jobs_of_def keys g)
  ultimately have "jobs_of d' = put_job j' i (jobs_of d)"
    by (simp add: put_job_def jobs_of_def fun_eq_iff)
  with wf' show ?thesis by blast
qed

lemma transaction_updates: "transaction (update_jobs t i f) = update_jobs t i f"
  by (rule ext) (simp add: transaction_def update_jobs_effect)

lemma pg_update_state_simulates:
  assumes "wf_db d"
  shows "simulates d (pg_update_state t i st) (update_state t i st)"
proof (cases "job_get t i (jobs_of d)")
  case (Inl e)
  then show ?thesis
    by (simp add: simulates_def update_state_def pg_update_state_def bindS_def pg_get_simulates[OF assms])
next
  case (Inr j)
  show ?thesis
  proof (cases "job_transition j st")
    case (Inl e)
    then show ?thesis using Inr
      by (simp add: simulates_def update_state_def pg_update_state_def bindS_def liftS_def pg_get_simulates[OF assms])
  next
    case j': (Inr j')
    then have "j' = j\<lparr>job_status := st\<rparr>" by (simp add: job_transition_eq_Inr)
    then have row: "job_from_row (r\<lparr>jr_state := job_state_value (job_status j'), jr_error := job_error j',
        jr_warnings := JList (map JStr (job_warnings j')), jr_degraded := job_degraded j'\<rparr>) = Inr j'"
      if "readable r" "row_job r = j" for r
      using that row_job_fields[OF that(1)] by (auto simp: job_from_row_def)
    have "wf_db (fst (write_job t i j' d)) \<and> jobs_of (fst (write_job t i j' d)) = put_job j' i (jobs_of d)"
      unfolding write_job_def update_jobs_effect fst_conv
      by (rule update_one_row[OF assms Inr]) (simp_all add: row)
    moreover have "pg_update_state t i st d = (fst (write_job t i j' d), Inr j')"
      using Inr j'
      by (simp add: pg_update_state_def bindS_def liftS_def returnS_def pg_get_simulates[OF assms]
          write_job_def transaction_updates update_jobs_effect)
    ultimately show ?thesis using Inr j'
      by (simp add: simulates_def update_state_def write_job_def update_jobs_effect)
  qed
qed

lemma set_error_row:
  assumes "readable r"
  shows "job_from_row (r\<lparr>jr_error := Some code\<rparr>) = Inr ((row_job r)\<lparr>job_error := Some code\<rparr>)"
  by (rule row_job_eq[OF assms]) (simp add: job_from_row_def)

lemma pg_set_error_simulates:
  assumes "wf_db d"
  shows "simulates d (pg_set_error t i code) (set_error t i code)"
proof (cases "job_get t i (jobs_of d)")
  case (Inl e)
  then show ?thesis
    by (simp add: simulates_def set_error_def pg_set_error_def bindS_def pg_get_simulates[OF assms])
next
  case (Inr j)
  let ?j = "j\<lparr>job_error := Some code\<rparr>" and ?u = "update_jobs t i (\<lambda>r. r\<lparr>jr_error := Some code\<rparr>)"
  have row: "job_from_row (r\<lparr>jr_error := Some code\<rparr>) = Inr ?j" if "readable r" "row_job r = j" for r
    using set_error_row[OF that(1)] that(2) by simp
  have "wf_db (fst (?u d)) \<and> jobs_of (fst (?u d)) = put_job ?j i (jobs_of d)"
    unfolding update_jobs_effect fst_conv
    by (rule update_one_row[OF assms Inr]) (simp_all add: row)
  moreover have "pg_set_error t i code d = (fst (?u d), Inr ?j)"
    using Inr by (simp add: pg_set_error_def bindS_def returnS_def pg_get_simulates[OF assms]
        transaction_updates update_jobs_effect)
  ultimately show ?thesis using Inr
    by (simp add: simulates_def set_error_def Let_def update_jobs_effect)
qed

lemma pg_create_simulates:
  assumes wf: "wf_db d" and fresh: "js_jobs (jobs_of d) fresh = None"
  shows "simulates d (pg_create_or_get fresh t k h c)
    (\<lambda>s. bindR (create_or_get fresh t k h c s) (\<lambda>(s', j, new). Inr (s', (j, new))))"
proof (cases "List.find (\<lambda>r. (jr_tenant r, jr_key r) = (t, k)) (db_jobs d)")
  case (Some r)
  then have r: "r \<in> set (db_jobs d)" "jr_tenant r = t" "jr_key r = k"
    using find_SomeD[OF Some] by auto
  then have read: "readable r" and same: "List.find (\<lambda>x. jr_id x = jr_id r) (db_jobs d) = Some r"
    using wf find_unique[of jr_id "db_jobs d"] by (auto simp: wf_db_def)
  have abs: "js_by_key (jobs_of d) (t, k) = Some (jr_id r)" "js_jobs (jobs_of d) (jr_id r) = Some (row_job r)"
    using Some same by (simp_all add: jobs_of_def)
  have "\<exists>x\<in>set (db_jobs d). jr_tenant x = t \<and> jr_key x = k" using r by blast
  then show ?thesis
    using Some abs readable_job[OF read] row_job_fields(4)[OF read] wf
    by (simp add: simulates_def create_or_get_def pg_create_or_get_def transaction_def insert_job_def
        updateS_def bindS_def select_job_def readS_def returnS_def liftS_def)
next
  case None
  let ?r = "\<lparr>jr_id = fresh, jr_tenant = t, jr_key = k, jr_state = job_state_value QUEUED, jr_input = h,
      jr_config = c, jr_error = None, jr_warnings = JList [], jr_degraded = False\<rparr>"
  let ?d = "d\<lparr>db_jobs := db_jobs d @ [?r]\<rparr>"
  have new: "\<not> (\<exists>x\<in>set (db_jobs d). jr_tenant x = t \<and> jr_key x = k)"
    using None by (auto simp: find_None_iff)
  have id: "fresh \<notin> jr_id ` set (db_jobs d)"
    using fresh by (auto simp: jobs_of_def find_None_iff)
  have job: "job_from_row ?r = Inr (new_job fresh t k h c)"
    using warnings_of_list[of "[]"] by (simp add: job_from_row_def new_job_def del: job_state_value.simps)
  then have row: "row_job ?r = new_job fresh t k h c" by (simp add: row_job_def)
  have find_snoc: "List.find P (xs @ [x]) = (case List.find P xs of None \<Rightarrow> if P x then Some x else None | Some y \<Rightarrow> Some y)"
    for P and xs :: "job_row list" and x by (induction xs) auto
  have "wf_db ?d" using wf new id job by (auto simp: wf_db_def readable_def)
  moreover have "jobs_of ?d = \<lparr>js_jobs = (js_jobs (jobs_of d))(fresh \<mapsto> new_job fresh t k h c),
      js_by_key = (js_by_key (jobs_of d))((t, k) \<mapsto> fresh)\<rparr>"
    using fresh None row by (auto simp: jobs_of_def find_snoc fun_eq_iff split: option.split)
  moreover have "js_by_key (jobs_of d) (t, k) = None" using None by (simp add: jobs_of_def)
  moreover have "insert_job ?r d = (?d, Inr True)" using new id by (auto simp: insert_job_def updateS_def)
  ultimately show ?thesis
    by (simp add: simulates_def create_or_get_def pg_create_or_get_def transaction_def
        bindS_def returnS_def new_job_def Let_def)
qed

text \<open>
  C25: The job table is the in-memory job store. On a well-formed table every method of the
  PostgreSQL adapter returns what the method of the in-memory store returns on the store the table
  stands for, the same exception included; after a success the new table stands for the new store
  and stays well formed, after an exception nothing has changed, and the other tables are untouched.
\<close>

theorem job_table_refines_store:
  assumes "wf_db d"
  shows "pg_get t i d = (d, job_get t i (jobs_of d))
    \<and> simulates d (pg_update_state t i st) (update_state t i st)
    \<and> simulates d (pg_set_error t i code) (set_error t i code)
    \<and> (js_jobs (jobs_of d) fresh = None \<longrightarrow>
        simulates d (pg_create_or_get fresh t k h c)
          (\<lambda>s. bindR (create_or_get fresh t k h c s) (\<lambda>(s', j, new). Inr (s', (j, new)))))"
  using pg_get_simulates[OF assms] pg_update_state_simulates[OF assms]
    pg_set_error_simulates[OF assms] pg_create_simulates[OF assms] by blast

lemma wf_empty_db: "wf_db empty_db"
  by (simp add: wf_db_def empty_db_def)

lemma jobs_of_empty: "jobs_of empty_db = empty_job_store"
  by (simp add: jobs_of_def empty_db_def empty_job_store_def)

theorem job_table_refines_store_witness:
  "\<exists>d. pg_create_or_get ''job_1'' ''acme'' ''k'' ''h'' None empty_db
      = (d, Inr (new_job ''job_1'' ''acme'' ''k'' ''h'' None, True))
    \<and> js_by_key (jobs_of d) (''acme'', ''k'') = Some ''job_1''"
proof -
  have "simulates empty_db (pg_create_or_get ''job_1'' ''acme'' ''k'' ''h'' None)
     (\<lambda>s. bindR (create_or_get ''job_1'' ''acme'' ''k'' ''h'' None s) (\<lambda>(s', j, new). Inr (s', (j, new))))"
    using job_table_refines_store[OF wf_empty_db, where fresh = "''job_1''"]
    by (simp add: jobs_of_empty empty_job_store_def)
  then show ?thesis
    by (auto simp: simulates_def jobs_of_empty create_or_get_def empty_job_store_def Let_def new_job_def)
qed

section \<open>Two writers of one job\<close>

text \<open>
  The guard against leaving a terminal state is not atomic. \<open>update_state\<close> checks the job it has
  read and then writes it in another transaction without looking at the state again. So a worker
  that read a job before another worker finished it writes its own state over the terminal one,
  although the check refuses the same move on the finished job.
\<close>

theorem terminal_state_can_be_overwritten:
  assumes "wf_db d" and "pg_get t i d = (d, Inr j)" and "\<not> job_is_terminal j"
    and "job_transition j st = Inr j'" and "st \<notin> TERMINAL_JOB_STATES"
    and "pg_update_state t i SUCCEEDED d = (d1, Inr j1)"
  shows "\<exists>d2. write_job t i j' d1 = (d2, Inr ()) \<and> pg_get t i d1 = (d1, Inr j1) \<and> job_is_terminal j1
    \<and> pg_get t i d2 = (d2, Inr j') \<and> job_status j' = st \<and> \<not> job_is_terminal j'
    \<and> pg_update_state t i st d1 = (d1, Inl ValueError)"
proof -
  have get: "job_get t i (jobs_of d) = Inr j" using assms(2) pg_get_simulates[OF assms(1)] by simp
  have j': "j' = j\<lparr>job_status := st\<rparr>" using assms(4) by (simp add: job_transition_eq_Inr)
  have upd: "update_state t i SUCCEEDED (jobs_of d)
      = Inr (put_job (j\<lparr>job_status := SUCCEEDED\<rparr>) i (jobs_of d), j\<lparr>job_status := SUCCEEDED\<rparr>)"
    using get assms(3) by (simp add: update_state_def job_transition_def)
  from pg_update_state_simulates[OF assms(1), of t i SUCCEEDED] assms(6) upd
  have d1: "wf_db d1" "jobs_of d1 = put_job j1 i (jobs_of d)" and j1: "j1 = j\<lparr>job_status := SUCCEEDED\<rparr>"
    by (auto simp: simulates_def)
  have t: "tenant_id j = t" using get by (simp add: job_get_eq_Inr)
  have get1: "job_get t i (jobs_of d1) = Inr j1" using d1(2) t j1 by (simp add: job_get_def put_job_def)
  let ?w = "\<lambda>r. r\<lparr>jr_state := job_state_value (job_status j'), jr_error := job_error j',
        jr_warnings := JList (map JStr (job_warnings j')), jr_degraded := job_degraded j'\<rparr>"
  have row: "job_from_row (?w r) = Inr j'" if "readable r" "row_job r = j1" for r
    using that row_job_fields[OF that(1)] by (auto simp: job_from_row_def j' j1)
  have w: "wf_db (fst (write_job t i j' d1)) \<and> jobs_of (fst (write_job t i j' d1)) = put_job j' i (jobs_of d1)"
    unfolding write_job_def update_jobs_effect fst_conv
    by (rule update_one_row[OF d1(1) get1]) (simp_all add: row)
  then have "pg_get t i (fst (write_job t i j' d1)) = (fst (write_job t i j' d1), Inr j')"
    using t by (simp add: pg_get_simulates job_get_def put_job_def j')
  moreover have "pg_get t i d1 = (d1, Inr j1)" using get1 by (simp add: pg_get_simulates[OF d1(1)])
  moreover have "pg_update_state t i st d1 = (d1, Inl ValueError)"
    using pg_update_state_simulates[OF d1(1), of t i st] get1 assms(5) j1
    by (auto simp: simulates_def update_state_def job_transition_def job_is_terminal_def TERMINAL_JOB_STATES_def)
  moreover have "job_is_terminal j1" "\<not> job_is_terminal j'"
    using assms(5) by (simp_all add: j1 j' job_is_terminal_def TERMINAL_JOB_STATES_def)
  moreover have "write_job t i j' d1 = (fst (write_job t i j' d1), Inr ())"
    by (simp add: write_job_def update_jobs_effect)
  ultimately show ?thesis using j' by (metis job.select_convs(5) job.update_convs(5) job.surjective)
qed

section \<open>Results\<close>

definition start_of :: "(string \<times> json) list \<Rightarrow> int" where
  "start_of seg = (case map_of seg ''start_ms'' of Some (JInt n) \<Rightarrow> n | _ \<Rightarrow> 0)"

definition stored_as :: "string \<Rightarrow> string \<Rightarrow> (string \<times> json) list \<Rightarrow> segment_row \<Rightarrow> bool" where
  "stored_as t i seg r \<longleftrightarrow> sr_payload r = seg \<and> sr_job r = i \<and> sr_tenant r = t \<and> sr_start r = start_of seg"

lemma as_int_eq_Inr: "as_int v = Inr n \<longleftrightarrow> v = JInt n"
  by (cases v) auto

lemma segment_row_of_stored:
  "segment_row_of fresh t i sid seg = Inr r \<Longrightarrow> stored_as t i seg r"
  by (auto simp: segment_row_of_def bindR_eq_Inr stored_as_def start_of_def field_def as_int_eq_Inr
      split: option.splits)

lemma save_segments_append:
  assumes "foldS (save_segment fresh t i sid) segs () d = (d', Inr u)"
  shows "\<exists>rows. list_all2 (stored_as t i) segs rows \<and> db_segments d' = db_segments d @ rows
    \<and> db_jobs d' = db_jobs d \<and> db_events d' = db_events d"
  using assms
proof (induction segs arbitrary: d)
  case Nil
  then show ?case by (simp add: action_simps)
next
  case (Cons seg segs)
  from Cons.prems obtain d1 where one: "save_segment fresh t i sid seg () d = (d1, Inr ())"
    and rest: "foldS (save_segment fresh t i sid) segs () d1 = (d', Inr u)"
    by (auto simp: action_simps)
  from one obtain r where r: "segment_row_of (fresh (length (db_segments d))) t i sid seg = Inr r"
    and d1: "d1 = d\<lparr>db_segments := db_segments d @ [r]\<rparr>"
    by (auto simp: save_segment_def insert_segment_def action_simps split: if_splits)
  from Cons.IH[OF rest] obtain rows where "list_all2 (stored_as t i) segs rows"
    "db_segments d' = db_segments d1 @ rows" "db_jobs d' = db_jobs d1" "db_events d' = db_events d1" by blast
  with segment_row_of_stored[OF r] d1 show ?case by (intro exI[of _ "r # rows"]) simp
qed

lemma sorted_result_rows:
  "sorted (map sr_start (sort_key (result_key collate) rows))"
proof -
  have "sorted (map (result_key collate) (sort_key (result_key collate) rows))" by simp
  then have "sorted_wrt (\<lambda>a b. result_key collate a \<le> result_key collate b) (sort_key (result_key collate) rows)"
    by (simp add: sorted_wrt_map)
  then have "sorted_wrt (\<lambda>a b. sr_start a \<le> sr_start b) (sort_key (result_key collate) rows)"
    by (rule sorted_wrt_mono_rel[rotated]) (auto simp: result_key_def less_eq_prod_def)
  then show ?thesis by (simp add: sorted_wrt_map)
qed

lemma saved_result:
  assumes save: "save_result fresh t i segs sid ws deg d = (d', r)"
    and scan: "\<forall>rows. mset (scan rows) = mset rows"
  shows "(\<forall>e. r = Inl e \<longrightarrow> d' = d)
    \<and> (\<forall>n. r = Inr n \<longrightarrow> n = int (length segs)
        \<and> (\<exists>rs. load_result collate scan t i d' = (d', Inr rs) \<and> mset rs = mset segs \<and> sorted (map start_of rs))
        \<and> (\<forall>t' i'. (t', i') \<noteq> (t, i) \<longrightarrow>
             snd (load_result collate scan t' i' d') = snd (load_result collate scan t' i' d)))"
proof (cases r)
  case (Inl e)
  then show ?thesis using save by (auto simp: save_result_def transaction_def split: prod.splits sum.splits)
next
  case (Inr n)
  let ?d0 = "d\<lparr>db_segments := filter (\<lambda>r. \<not> (sr_job r = i \<and> sr_tenant r = t)) (db_segments d)\<rparr>"
  from save Inr obtain d1 u js where fold: "foldS (save_segment fresh t i sid) segs () ?d0 = (d1, Inr u)"
    and d': "d' = d1\<lparr>db_jobs := js\<rparr>" and n: "n = int (length segs)"
    by (auto simp: save_result_def transaction_def bind_modify action_simps update_jobs_effect
        split: prod.splits sum.splits)
  from save_segments_append[OF fold] obtain rows where rows: "list_all2 (stored_as t i) segs rows"
    and segments: "db_segments d' = filter (\<lambda>r. \<not> (sr_job r = i \<and> sr_tenant r = t)) (db_segments d) @ rows"
    unfolding d' by auto
  have mine: "sr_job x = i \<and> sr_tenant x = t \<and> sr_start x = start_of (sr_payload x)" if "x \<in> set rows" for x
    using that rows by (auto simp: list_all2_conv_all_nth in_set_conv_nth stored_as_def)
  have payloads: "map sr_payload rows = segs"
    using rows by (auto simp: list_all2_conv_all_nth stored_as_def intro: nth_equalityI)
  have "filter (\<lambda>r. sr_job r = i \<and> sr_tenant r = t) (db_segments d') = rows"
    using mine by (auto simp: segments filter_empty_conv filter_id_conv)
  then have load: "load_result collate scan t i d'
      = (d', Inr (map sr_payload (sort_key (result_key collate) (scan rows))))"
    by (simp add: load_result_def readS_def)
  have "mset (map sr_payload (sort_key (result_key collate) (scan rows))) = mset segs"
    using scan payloads by (metis mset_map mset_sort)
  moreover have "set (sort_key (result_key collate) (scan rows)) = set rows"
    using scan by (metis mset_eq_setD set_sort)
  then have starts: "map start_of (map sr_payload (sort_key (result_key collate) (scan rows)))
      = map sr_start (sort_key (result_key collate) (scan rows))" using mine by simp
  have "sorted (map start_of (map sr_payload (sort_key (result_key collate) (scan rows))))"
    unfolding starts by (rule sorted_result_rows)
  moreover have "filter (\<lambda>r. sr_job r = i' \<and> sr_tenant r = t') (db_segments d')
      = filter (\<lambda>r. sr_job r = i' \<and> sr_tenant r = t') (db_segments d)" if "(t', i') \<noteq> (t, i)" for t' i'
  proof -
    have "filter (\<lambda>r. sr_job r = i' \<and> sr_tenant r = t') rows = []" using mine that by (auto simp: filter_empty_conv)
    then show ?thesis using that by (auto simp: segments intro: filter_cong)
  qed
  ultimately show ?thesis using Inr n load by (auto simp: load_result_def readS_def)
qed

text \<open>
  C26: A stored result is read back whole. Saving is all or nothing: if it raises, no table has
  changed. If it succeeds, reading the job's result gives every saved segment exactly once and
  nothing else, whatever an earlier attempt stored, in the order of their start; results of other
  jobs and of other tenants read as before, in whatever order the database scans its rows.
\<close>

theorem result_is_read_back:
  assumes save: "save_result fresh t i segs sid ws deg d = (d', r)"
    and scan: "\<forall>rows. mset (scan rows) = mset rows"
  shows "(\<forall>e. r = Inl e \<longrightarrow> d' = d)
    \<and> (\<forall>n. r = Inr n \<longrightarrow> n = int (length segs)
        \<and> (\<exists>rs. load_result collate scan t i d' = (d', Inr rs) \<and> mset rs = mset segs \<and> sorted (map start_of rs))
        \<and> (\<forall>t' i'. (t', i') \<noteq> (t, i) \<longrightarrow>
             snd (load_result collate scan t' i' d') = snd (load_result collate scan t' i' d)))"
  by (rule saved_result[OF assms])

section \<open>Events\<close>

lemma optional_str_opt: "optional_str (json_opt JStr a) = Inr a"
  by (cases a) (simp_all add: optional_str_def)

lemma read_versions:
  "mapR (\<lambda>(k, w). bindR (optional_str w) (\<lambda>s. Inr (k, s))) (map (\<lambda>(k, v). (k, json_opt JStr v)) xs) = Inr xs"
  by (induction xs) (auto simp: optional_str_opt)

text \<open>The stored form of an event, with the deduplication key that the wire form omits.\<close>

definition stored_event :: "server_event \<Rightarrow> (string \<times> json) list" where
  "stored_event e = event_to_dict e @ [(''dedup_key'', json_opt JStr (ev_dedup e))]"

lemma event_round_trip: "event_from_payload (stored_event e) = Inr e"
proof -
  let ?d = "stored_event e"
  have strs: "field ?d ''event_id'' as_str = Inr (ev_id e)" "field ?d ''session_id'' as_str = Inr (ev_session e)"
    and seq: "field ?d ''sequence_number'' as_int = Inr (ev_seq e)"
    and ty: "field ?d ''type'' (\<lambda>v. bindR (as_str v) event_type_of) = Inr (ev_type e)"
    by (simp_all add: stored_event_def event_to_dict_def field_def)
  have nums: "field_default ?d ''server_time_ms'' 0 as_int = Inr (ev_time e)"
    "field_default ?d ''revision'' 1 as_int = Inr (ev_revision e)"
    "field_default ?d ''is_final'' False (\<lambda>v. Inr (json_truth v)) = Inr (ev_final e)"
    "field_default ?d ''payload'' [] as_obj = Inr (ev_payload e)"
    by (simp_all add: stored_event_def event_to_dict_def field_default_def)
  have versions: "field_default ?d ''model_versions'' [] (\<lambda>v. bindR (as_obj v)
      (mapR (\<lambda>(k, w). bindR (optional_str w) (\<lambda>s. Inr (k, s))))) = Inr (ev_versions e)"
    by (simp add: stored_event_def event_to_dict_def field_default_def read_versions)
  have opts: "field_opt ?d ''supersedes_event_id'' as_str = Inr (ev_supersedes e)"
    "field_opt ?d ''config_version'' as_str = Inr (ev_config e)" "field_opt ?d ''dedup_key'' as_str = Inr (ev_dedup e)"
    by (rule field_opt_str, simp add: stored_event_def event_to_dict_def)+
  show ?thesis unfolding event_from_payload_def strs seq ty nums versions opts by simp
qed

definition event_row_for :: "event_row \<Rightarrow> server_event \<Rightarrow> bool" where
  "event_row_for r e \<longleftrightarrow> er_session r = ev_session e \<and> er_seq r = ev_seq e \<and> er_payload r = stored_event e"

definition pg_stores :: "string \<Rightarrow> db \<Rightarrow> server_event list \<Rightarrow> bool" where
  "pg_stores sid d hs \<longleftrightarrow>
     sorted_wrt (<) (map ev_seq (filter (\<lambda>e. ev_session e = sid) hs))
     \<and> list_all2 event_row_for (filter (\<lambda>r. er_session r = sid) (db_events d)) (filter (\<lambda>e. ev_session e = sid) hs)"

lemma session_seqs_stored:
  "pg_stores sid d hs \<Longrightarrow> session_seqs sid d = map ev_seq (filter (\<lambda>e. ev_session e = sid) hs)"
  unfolding pg_stores_def session_seqs_def
  by (auto simp: list_all2_conv_all_nth event_row_for_def intro: nth_equalityI)

lemma highest_seq_ge: "n \<in> set (session_seqs sid d) \<Longrightarrow> n \<le> highest_seq sid d"
  by (auto simp: highest_seq_def split: list.splits intro: list_max_ge)

lemma lowest_seq_le: "n \<in> set (session_seqs sid d) \<Longrightarrow> lowest_seq sid d \<le> n"
  by (auto simp: lowest_seq_def list_min_eq_Min split: list.splits)

lemma pg_append_stores:
  assumes st: "pg_stores sid d hs" and ok: "runS (pg_append e) d = Inr (d', x)"
  shows "if d' = d then x \<in> set hs else pg_stores sid d' (hs @ [x])"
proof -
  from ok obtain row where row: "event_row_of e = Inr row" and x: "x = e"
    and new: "highest_seq (ev_session e) d < ev_seq e" and d': "d' = d\<lparr>db_events := db_events d @ [row]\<rparr>"
    by (auto simp: runS_eq_Inr pg_append_def transaction_def bind_lift bind_read insert_event_def
        updateS_def liftS_def bindS_def returnS_def readS_def split: prod.splits sum.splits if_splits)
  have r: "event_row_for row e"
    using row by (auto simp: event_row_of_def bindR_eq_Inr event_row_for_def stored_event_def)
  have "length (db_events d') \<noteq> length (db_events d)" by (simp add: d')
  then have "d' \<noteq> d" by metis
  moreover have "pg_stores sid d' (hs @ [e])"
  proof (cases "ev_session e = sid")
    case True
    have "ev_seq y < ev_seq e" if "y \<in> set hs" "ev_session y = sid" for y
      using highest_seq_ge[of "ev_seq y" sid d] session_seqs_stored[OF st] that new True by force
    then show ?thesis using st r True
      by (auto simp: pg_stores_def d' event_row_for_def sorted_wrt_append intro: list_all2_appendI)
  next
    case False
    then show ?thesis using st r by (simp add: pg_stores_def d' event_row_for_def)
  qed
  ultimately show ?thesis using x by simp
qed

lemma pg_replay_value:
  assumes st: "pg_stores sid d hs"
  shows "pg_replay sid n d = (d, if lowest_seq sid d \<noteq> 0 \<and> n < lowest_seq sid d - 1
     then Inl (Sastt PlainSasttError) else Inr (filter (\<lambda>e. ev_session e = sid \<and> n < ev_seq e) hs))"
proof -
  let ?own = "filter (\<lambda>e. ev_session e = sid) hs"
  let ?rows = "filter (\<lambda>r. er_session r = sid) (db_events d)"
  let ?late = "filter (\<lambda>r. n < er_seq r) ?rows"
  have rows: "list_all2 event_row_for ?rows ?own" and srt: "sorted_wrt (<) (map ev_seq ?own)"
    using st by (simp_all add: pg_stores_def)
  have "list_all2 event_row_for xs ys \<Longrightarrow>
      list_all2 event_row_for (filter (\<lambda>r. n < er_seq r) xs) (filter (\<lambda>e. n < ev_seq e) ys)" for xs ys
    by (induction rule: list_all2_induct) (auto simp: event_row_for_def)
  from this[OF rows] have late: "list_all2 event_row_for ?late (filter (\<lambda>e. n < ev_seq e) ?own)" .
  have "map er_seq ?rows = map ev_seq ?own"
    using session_seqs_stored[OF st] by (simp add: session_seqs_def)
  with srt have "sorted (map er_seq ?rows)" by (metis strict_sorted_imp_sorted)
  then have "sorted (map er_seq ?late)" by (rule sorted_filter)
  then have order: "sort_key er_seq ?late = ?late" by (rule sort_key_id_if_sorted)
  have read: "mapR (\<lambda>r. event_from_payload (er_payload r)) rs = Inr xs" if "list_all2 event_row_for rs xs" for rs xs
    using that by (induction rule: list_all2_induct) (simp_all add: event_row_for_def event_round_trip)
  show ?thesis
    unfolding pg_replay_def
    by (simp add: bind_read liftS_def order[unfolded filter_filter] read[OF late, unfolded filter_filter])
qed

lemma pg_replay_exact:
  assumes "pg_stores sid d hs" and "snd (pg_replay sid n d) = Inr es"
  shows "es = filter (\<lambda>e. ev_session e = sid \<and> n < ev_seq e) hs"
  using assms(2) unfolding pg_replay_value[OF assms(1)] by (simp split: if_split_asm)

interpretation event_table: event_stream "\<lambda>e. runS (pg_append e)" "\<lambda>d n. snd (pg_replay sid n d)" ev_seq
    "\<lambda>e. ev_session e = sid" "pg_stores sid" for sid
proof
  fix d hs e d' x
  assume "pg_stores sid d hs" "runS (pg_append e) d = Inr (d', x)"
  then show "if d' = d then x \<in> set hs else pg_stores sid d' (hs @ [x])" by (rule pg_append_stores)
next
  fix d hs n es
  assume "pg_stores sid d hs" "snd (pg_replay sid n d) = Inr es"
  then show "es = filter (\<lambda>e. ev_session e = sid \<and> n < ev_seq e) hs" by (rule pg_replay_exact)
next
  fix d hs
  assume "pg_stores sid d hs"
  then show "sorted_wrt (<) (map ev_seq (filter (\<lambda>e. ev_session e = sid) hs))" by (simp add: pg_stores_def)
qed

text \<open>
  The event table delivers exactly once. A client that reads a session through reconnects, while
  events of any session are appended, has received exactly that session's events with a positive
  number up to its cursor, unchanged by the trip through the table, in order and each once.
\<close>

theorem event_table_exactly_once:
  assumes "event_table.served sid d hs c ds"
  shows "ds = filter (\<lambda>e. ev_session e = sid \<and> 0 < ev_seq e \<and> ev_seq e \<le> c) hs
    \<and> distinct ds \<and> sorted_wrt (<) (map ev_seq ds)"
  using event_table.served_exact[OF assms] event_table.served_distinct[OF assms]
  by (simp add: conj_commute conj_left_commute)

section \<open>Concrete tables\<close>

definition demo_event :: server_event where
  "demo_event = \<lparr>ev_id = ''evt_1'', ev_session = ''s'', ev_seq = 1, ev_type = SESSION_STARTED, ev_time = 5,
     ev_revision = 1, ev_supersedes = None, ev_final = False, ev_payload = [], ev_versions = [],
     ev_config = None, ev_dedup = None\<rparr>"

theorem event_table_exactly_once_witness:
  "\<exists>d. event_table.served ''s'' d [demo_event] 1 [demo_event] \<and> distinct [demo_event]"
proof -
  have "pg_stores ''s'' empty_db []" by (simp add: pg_stores_def empty_db_def)
  then have start: "event_table.served ''s'' empty_db [] 0 []" by (rule event_table.served_start)
  obtain d where d: "runS (pg_append demo_event) empty_db = Inr (d, demo_event)" "db_events d \<noteq> []"
    by (simp add: runS_def pg_append_def bindS_def liftS_def transaction_def readS_def returnS_def
        event_row_of_def field_or_def demo_event_def insert_event_def updateS_def empty_db_def
        highest_seq_def session_seqs_def)
  then have "d \<noteq> empty_db" by (auto simp: empty_db_def)
  then have 1: "event_table.served ''s'' d [demo_event] 0 []"
    using event_table.served_append[OF start d(1)] by simp
  then have st: "pg_stores ''s'' d [demo_event]" using event_table.served_exact by blast
  have "session_seqs ''s'' d = [1]" using session_seqs_stored[OF st] by (simp add: demo_event_def)
  then have "lowest_seq ''s'' d = 1" by (simp add: lowest_seq_def)
  then obtain es where es: "snd (pg_replay ''s'' 0 d) = Inr es"
    using pg_replay_value[OF st, of 0] by simp
  with pg_replay_exact[OF st es] have "es = [demo_event]" by (simp add: demo_event_def)
  with event_table.served_reconnect[OF 1 es]
  have 2: "event_table.served ''s'' d [demo_event] 1 [demo_event]" by (simp add: demo_event_def)
  from event_table_exactly_once[OF 2] 2 show ?thesis by blast
qed

text \<open>Two segments saved out of order into a table that holds another tenant's result.\<close>

definition demo_dict :: "string \<Rightarrow> int \<Rightarrow> (string \<times> json) list" where
  "demo_dict i n = [(''event_id'', JStr i), (''start_ms'', JInt n), (''end_ms'', JInt (n + 5))]"

definition demo_saved :: db where
  "demo_saved = fst (save_result (\<lambda>_. ''seg'') ''acme'' ''job_1'' [demo_dict ''b'' 10, demo_dict ''a'' 0] ''job_1'' [] False empty_db)"

lemma demo_save:
  "save_result (\<lambda>_. ''seg'') ''acme'' ''job_1'' [demo_dict ''b'' 10, demo_dict ''a'' 0] ''job_1'' [] False empty_db
     = (demo_saved, Inr 2)"
  by (simp add: demo_saved_def save_result_def transaction_def bindS_def modifyS_def save_segment_def readS_def
      liftS_def returnS_def segment_row_of_def demo_dict_def field_or_def field_def field_opt_def
      field_default_def insert_segment_def updateS_def update_jobs_effect empty_db_def)

theorem result_is_read_back_witness:
  "\<exists>rs. snd (load_result length rev ''acme'' ''job_1'' demo_saved) = Inr rs
     \<and> mset rs = {#demo_dict ''a'' 0, demo_dict ''b'' 10#} \<and> sorted (map start_of rs)"
  using result_is_read_back[OF demo_save, where scan = rev and collate = length] by fastforce

theorem terminal_state_can_be_overwritten_witness:
  "\<exists>d j'. pg_get ''acme'' ''job_1'' d = (d, Inr j') \<and> job_status j' = DIARIZING
     \<and> (\<exists>d1 j1. pg_get ''acme'' ''job_1'' d1 = (d1, Inr j1) \<and> job_is_terminal j1
          \<and> write_job ''acme'' ''job_1'' j' d1 = (d, Inr ()))"
proof -
  let ?j = "new_job ''job_1'' ''acme'' ''k'' ''h'' None"
  obtain d where create: "pg_create_or_get ''job_1'' ''acme'' ''k'' ''h'' None empty_db = (d, Inr (?j, True))"
    and sim: "wf_db d" "js_jobs (jobs_of d) = [''job_1'' \<mapsto> ?j]"
    using pg_create_simulates[OF wf_empty_db, where fresh = "''job_1''" and t = "''acme''" and k = "''k''" and h = "''h''" and c = None]
    by (auto simp: simulates_def jobs_of_empty create_or_get_def empty_job_store_def Let_def new_job_def)
  have get: "pg_get ''acme'' ''job_1'' d = (d, Inr ?j)"
    by (simp add: pg_get_simulates[OF sim(1)] job_get_def sim(2) new_job_def)
  have open_job: "\<not> job_is_terminal ?j" by (simp add: new_job_def job_is_terminal_def TERMINAL_JOB_STATES_def)
  have move: "job_transition ?j DIARIZING = Inr (?j\<lparr>job_status := DIARIZING\<rparr>)"
    using open_job by (simp add: job_transition_def)
  have "update_state ''acme'' ''job_1'' SUCCEEDED (jobs_of d)
      = Inr (put_job (?j\<lparr>job_status := SUCCEEDED\<rparr>) ''job_1'' (jobs_of d), ?j\<lparr>job_status := SUCCEEDED\<rparr>)"
    using open_job by (simp add: update_state_def job_get_def sim(2) new_job_def job_transition_def)
  with pg_update_state_simulates[OF sim(1), of "''acme''" "''job_1''" SUCCEEDED]
  obtain d1 where upd: "pg_update_state ''acme'' ''job_1'' SUCCEEDED d = (d1, Inr (?j\<lparr>job_status := SUCCEEDED\<rparr>))"
    by (auto simp: simulates_def)
  have "DIARIZING \<notin> TERMINAL_JOB_STATES" by (simp add: TERMINAL_JOB_STATES_def)
  from terminal_state_can_be_overwritten[OF sim(1) get open_job move this upd] show ?thesis by blast
qed

end
