(* ===== verification/WorkerProps.thy ===== *)
theory WorkerProps
  imports Worker QueueProps DatabaseProps
begin

text \<open>
  What the batch worker guarantees over the queues, the job table and the pipeline together: a job
  reported as finished has exactly the segments of its run as its result, a finished job and its
  result are never changed by another delivery, a task leaves the queues only when its job has
  finished, and a task that is given up leaves no open job behind.
\<close>

lemma in_db_eq: "in_db m w = (w\<lparr>w_db := fst (m (w_db w))\<rparr>, snd (m (w_db w)))"
  by (simp add: in_db_def zoomS_def split: prod.split)

lemma in_redis_eq: "in_redis m w = (w\<lparr>w_redis := fst (m (w_redis w))\<rparr>, snd (m (w_redis w)))"
  by (simp add: in_redis_def zoomS_def split: prod.split)

lemma in_db_returns: "in_db m w = (w', Inr x) \<longleftrightarrow> (\<exists>d. m (w_db w) = (d, Inr x) \<and> w' = w\<lparr>w_db := d\<rparr>)"
  by (cases "m (w_db w)") (auto simp: in_db_eq)

lemma in_redis_returns: "in_redis m w = (w', Inr x) \<longleftrightarrow> (\<exists>s. m (w_redis w) = (s, Inr x) \<and> w' = w\<lparr>w_redis := s\<rparr>)"
  by (cases "m (w_redis w)") (auto simp: in_redis_eq)

section \<open>Jobs along the operations of the tables\<close>

text \<open>A well-formed job table stays one, and no job is lost, changes hands or leaves a terminal state.\<close>

definition db_evolves :: "db \<Rightarrow> db \<Rightarrow> bool" where
  "db_evolves d d' \<longleftrightarrow> (wf_db d \<longrightarrow> wf_db d' \<and> jobs_kept (jobs_of d) (jobs_of d'))"

lemma wf_db_jobs: "wf_db d \<Longrightarrow> wf_jobs (jobs_of d)"
proof -
  assume wf: "wf_db d"
  have key: "\<exists>r. r \<in> set (db_jobs d) \<and> jr_id r = i \<and> jr_tenant r = t \<and> jr_key r = k"
    if "js_by_key (jobs_of d) (t, k) = Some i" for t k i
    using that by (auto simp: jobs_of_def dest!: find_SomeD)
  have row: "List.find (\<lambda>x. jr_id x = jr_id r) (db_jobs d) = Some r"
    "List.find (\<lambda>x. (jr_tenant x, jr_key x) = (jr_tenant r, jr_key r)) (db_jobs d) = Some r"
    if "r \<in> set (db_jobs d)" for r
    using that wf find_unique[of jr_id "db_jobs d" _ r]
      find_unique[of "\<lambda>r. (jr_tenant r, jr_key r)" "db_jobs d" "(jr_tenant r, jr_key r)" r]
    by (auto simp: wf_db_def)
  have read: "readable r" if "r \<in> set (db_jobs d)" for r using that wf by (auto simp: wf_db_def)
  show "wf_jobs (jobs_of d)"
    unfolding wf_jobs_def
  proof (intro conjI allI impI)
    fix t k i assume "js_by_key (jobs_of d) (t, k) = Some i"
    from key[OF this] obtain r where r: "r \<in> set (db_jobs d)" "jr_id r = i" "jr_tenant r = t" "jr_key r = k" by blast
    then show "\<exists>j. js_jobs (jobs_of d) i = Some j \<and> tenant_id j = t \<and> idempotency_key j = k"
      using row(1)[OF r(1)] row_job_fields[OF read[OF r(1)]] by (auto simp: jobs_of_def)
  next
    fix i j assume "js_jobs (jobs_of d) i = Some j"
    then obtain r where r: "r \<in> set (db_jobs d)" "jr_id r = i" "j = row_job r"
      by (auto simp: jobs_of_def dest!: find_SomeD)
    then show "job_id j = i" "js_by_key (jobs_of d) (tenant_id j, idempotency_key j) = Some i"
      using row(2)[OF r(1)] row_job_fields[OF read[OF r(1)]] by (simp_all add: jobs_of_def)
  qed
qed

interpretation tables: state_relation db_evolves
  by unfold_locales (auto simp: db_evolves_def intro: jobs_kept_trans)

lemma simulates_final:
  assumes "simulates d m f"
  shows "case f (jobs_of d) of Inl e \<Rightarrow> fst (m d) = d
    | Inr (s, x) \<Rightarrow> wf_db (fst (m d)) \<and> jobs_of (fst (m d)) = s
        \<and> db_segments (fst (m d)) = db_segments d \<and> db_events (fst (m d)) = db_events d"
  using assms by (auto simp: simulates_def split: sum.splits prod.splits)

lemma update_state_evolves: "db_evolves d (fst (pg_update_state t i st d))"
  unfolding db_evolves_def
proof
  assume wf: "wf_db d"
  show "wf_db (fst (pg_update_state t i st d)) \<and> jobs_kept (jobs_of d) (jobs_of (fst (pg_update_state t i st d)))"
    using simulates_final[OF pg_update_state_simulates[OF wf, of t i st]] wf
      update_state_kept[OF wf_db_jobs[OF wf]] by (auto split: sum.splits)
qed

lemma set_error_evolves: "db_evolves d (fst (pg_set_error t i code d))"
  unfolding db_evolves_def
proof
  assume wf: "wf_db d"
  show "wf_db (fst (pg_set_error t i code d)) \<and> jobs_kept (jobs_of d) (jobs_of (fst (pg_set_error t i code d)))"
    using simulates_final[OF pg_set_error_simulates[OF wf, of t i code]] wf
      set_error_kept[OF wf_db_jobs[OF wf]] by (auto split: sum.splits)
qed

lemma same_segments:
  "db_segments (fst (pg_update_state t i st d)) = db_segments d"
  "db_segments (fst (pg_set_error t i code d)) = db_segments d"
  by (auto simp: pg_update_state_def pg_set_error_def pg_get_def select_job_def bindS_def readS_def liftS_def
      returnS_def write_job_def transaction_updates update_jobs_effect split: option.split sum.split prod.split)

lemma save_result_jobs:
  assumes "save_result fresh t i segs sid ws deg d = (d', Inr n)"
  shows "db_jobs d' = map (\<lambda>r. if jr_id r = i \<and> jr_tenant r = t
      then r\<lparr>jr_warnings := JList (map JStr ws), jr_degraded := deg\<rparr> else r) (db_jobs d)"
proof -
  let ?d0 = "d\<lparr>db_segments := filter (\<lambda>r. \<not> (sr_job r = i \<and> sr_tenant r = t)) (db_segments d)\<rparr>"
  from assms obtain d1 u where fold: "foldS (save_segment fresh t i sid) segs () ?d0 = (d1, Inr u)"
    and d': "db_jobs d' = map (\<lambda>r. if jr_id r = i \<and> jr_tenant r = t
      then r\<lparr>jr_warnings := JList (map JStr ws), jr_degraded := deg\<rparr> else r) (db_jobs d1)"
    by (auto simp: save_result_def transaction_def bind_modify action_simps update_jobs_effect
        split: prod.splits sum.splits)
  from save_segments_append[OF fold] have "db_jobs d1 = db_jobs d" by auto
  with d' show ?thesis by simp
qed

lemma save_result_raises: "save_result fresh t i segs sid ws deg d = (d', Inl e) \<Longrightarrow> d' = d"
  by (auto simp: save_result_def transaction_def split: prod.splits sum.splits)

lemma wf_db_jobs_only: "db_jobs d' = db_jobs d \<Longrightarrow> wf_db d' = wf_db d \<and> jobs_of d' = jobs_of d"
  by (simp add: wf_db_def jobs_of_def)

text \<open>The job of a saved result gets its warnings and its degraded flag, and no other job changes.\<close>

lemma save_result_job:
  assumes wf: "wf_db d" and save: "save_result fresh t i segs sid ws deg d = (d', Inr n)"
  shows "wf_db d' \<and> jobs_of d' = (case job_get t i (jobs_of d) of Inl e \<Rightarrow> jobs_of d
     | Inr j \<Rightarrow> put_job (j\<lparr>job_warnings := ws, job_degraded := deg\<rparr>) i (jobs_of d))"
proof (cases "job_get t i (jobs_of d)")
  case (Inr j)
  let ?f = "\<lambda>r. r\<lparr>jr_warnings := JList (map JStr ws), jr_degraded := deg\<rparr>"
  let ?d = "d\<lparr>db_jobs := map (\<lambda>r. if jr_id r = i \<and> jr_tenant r = t then ?f r else r) (db_jobs d)\<rparr>"
  have row: "job_from_row (?f r) = Inr (j\<lparr>job_warnings := ws, job_degraded := deg\<rparr>)"
    if "readable r" "row_job r = j" for r
    by (rule row_job_eq[OF that(1)]) (use that(2) in \<open>auto simp: job_from_row_def\<close>)
  have "wf_db ?d \<and> jobs_of ?d = put_job (j\<lparr>job_warnings := ws, job_degraded := deg\<rparr>) i (jobs_of d)"
    by (rule update_one_row[OF wf Inr]) (simp_all add: row)
  moreover have "db_jobs d' = db_jobs ?d" using save_result_jobs[OF save] by simp
  ultimately show ?thesis using Inr wf_db_jobs_only[of d' ?d] by simp
next
  case (Inl e)
  have none: "\<not> (jr_id r = i \<and> jr_tenant r = t)" if "r \<in> set (db_jobs d)" for r
  proof
    assume r: "jr_id r = i \<and> jr_tenant r = t"
    have "List.find (\<lambda>x. jr_id x = i) (db_jobs d) = Some r"
      using that r wf find_unique[of jr_id "db_jobs d" i r] by (auto simp: wf_db_def)
    moreover have "readable r" using that wf by (auto simp: wf_db_def)
    ultimately show False using Inl r row_job_fields(2)[of r] by (simp add: job_get_def jobs_of_def)
  qed
  have "db_jobs d' = db_jobs d"
    by (rule trans[OF save_result_jobs[OF save]], rule map_idI, rule if_not_P, rule none)
  from wf_db_jobs_only[OF this] show ?thesis using wf Inl by simp
qed

lemma save_result_evolves: "db_evolves d (fst (save_result fresh t i segs sid ws deg d))"
  unfolding db_evolves_def
proof
  assume wf: "wf_db d"
  obtain d' r where run: "save_result fresh t i segs sid ws deg d = (d', r)" by (meson surj_pair)
  show "wf_db (fst (save_result fresh t i segs sid ws deg d))
    \<and> jobs_kept (jobs_of d) (jobs_of (fst (save_result fresh t i segs sid ws deg d)))"
  proof (cases r)
    case (Inl e)
    then show ?thesis using save_result_raises run wf by fastforce
  next
    case (Inr n)
    note s = save_result_job[OF wf run[unfolded Inr]]
    show ?thesis
    proof (cases "job_get t i (jobs_of d)")
      case j: (Inr j)
      have "jobs_kept (jobs_of d) (put_job (j\<lparr>job_warnings := ws, job_degraded := deg\<rparr>) i (jobs_of d))"
        using put_job_kept[OF wf_db_jobs[OF wf], of i j] j by (simp add: job_get_eq_Inr job_kept_def)
      then show ?thesis using s run j by simp
    qed (use s run in simp)
  qed
qed

section \<open>The worker's run\<close>

text \<open>During a run only the job table changes: the lists of Redis and the stored results stay.\<close>

definition only_jobs :: "'s world \<Rightarrow> 's world \<Rightarrow> bool" where
  "only_jobs w w' \<longleftrightarrow> w_redis w' = w_redis w \<and> db_segments (w_db w') = db_segments (w_db w)
     \<and> db_evolves (w_db w) (w_db w')"

interpretation running: state_relation only_jobs
  by unfold_locales (auto simp: only_jobs_def intro: tables.R_refl tables.R_trans)

lemma update_stage_only_jobs: "running.keeps (update_stage t st)"
  by (simp add: running.keeps_def update_stage_def in_db_eq bind_ignore only_jobs_def same_segments
      update_state_evolves)

lemma run_task_only_jobs: "running.keeps (run_task wav p t)"
  unfolding run_task_def by (rule running.keeps_offline_run) (rule update_stage_only_jobs)

lemma handle_cases:
  obtains (unprepared) e where "prepare_task wk t = Inl e" "handle wk t w = (w, Inl e)"
  | (run_failed) wav p w1 e where "prepare_task wk t = Inr (wav, p)" "run_task wav p t w = (w1, Inl e)"
      "handle wk t w = (w1, Inl e)" "only_jobs w w1"
  | (finished) wav p w1 r where "prepare_task wk t = Inr (wav, p)" "run_task wav p t w = (w1, Inr r)"
      "handle wk t w = in_db (store_outcome wk t r) w1" "only_jobs w w1"
proof (cases "prepare_task wk t")
  case (Inl e)
  then show ?thesis using unprepared by (simp add: handle_def bind_raise)
next
  case (Inr x)
  obtain wav p where x: "x = (wav, p)" by (cases x)
  obtain w1 r where run: "run_task wav p t w = (w1, r)" by (meson surj_pair)
  have only: "only_jobs w w1" using running.keepsD[OF run_task_only_jobs run] .
  have handled: "handle wk t w = (case r of Inl e \<Rightarrow> (w1, Inl e) | Inr r \<Rightarrow> in_db (store_outcome wk t r) w1)"
    using Inr x run by (simp add: handle_def bind_lift) (simp add: bindS_def split: sum.split)
  show ?thesis
    by (cases r) (use run_failed finished Inr x run only handled in auto)
qed

lemma tables_keep:
  "tables.keeps (pg_update_state t i st)" "tables.keeps (pg_set_error t i code)"
  "tables.keeps (save_result fresh t i segs sid ws deg)"
  by (simp_all add: tables.keeps_def update_state_evolves set_error_evolves save_result_evolves)

lemma store_outcome_keeps: "tables.keeps (store_outcome wk t r)"
  unfolding store_outcome_def by (intro tables.keeps_intros tables_keep)

lemma fail_job_keeps: "tables.keeps (fail_job t m)"
proof -
  have "tables.keeps (bindS (pg_set_error a b c) (\<lambda>_. pg_update_state a b FAILED))" for a b c
    by (intro tables.keeps_intros tables_keep)
  then show ?thesis by (simp add: tables.keeps_def fail_job_def ignoring_errors_def)
qed

lemma handle_evolves: "db_evolves (w_db w) (w_db (fst (handle wk t w))) \<and> w_redis (fst (handle wk t w)) = w_redis w"
proof (cases rule: handle_cases[of wk t w])
  case unprepared
  then show ?thesis by (simp add: tables.R_refl)
next
  case run_failed
  then show ?thesis by (simp add: only_jobs_def)
next
  case (finished wav p w1 r)
  have "db_evolves (w_db w1) (fst (store_outcome wk t r (w_db w1)))"
    using store_outcome_keeps[unfolded tables.keeps_def] by blast
  then show ?thesis using finished by (auto simp: in_db_eq only_jobs_def intro: tables.R_trans)
qed

section \<open>A finished task\<close>

text \<open>The outcome of a run that succeeded is stored when the job of the task is still open.\<close>

lemma store_outcome_returns:
  assumes wf: "wf_db d" and run: "store_outcome wk t r d = (d', Inr u)"
    and scan: "\<forall>rows. mset (scan rows) = mset rows"
  shows "\<exists>j rs. wf_db d' \<and> job_get (task_tenant t) (task_job t) (jobs_of d') = Inr j
     \<and> job_status j = (if or_degraded r then DEGRADED_SUCCEEDED else SUCCEEDED)
     \<and> job_warnings j = or_warnings r \<and> job_degraded j = or_degraded r
     \<and> load_result collate scan (task_tenant t) (task_job t) d' = (d', Inr rs)
     \<and> mset rs = mset (map to_public_dict (or_segments r)) \<and> sorted (map start_of rs)"
proof -
  let ?t = "task_tenant t" and ?i = "task_job t"
  let ?st = "if or_degraded r then DEGRADED_SUCCEEDED else SUCCEEDED"
  from run obtain d1 n j where save: "save_result (wk_segment_id wk) ?t ?i (map to_public_dict (or_segments r)) ?i
      (or_warnings r) (or_degraded r) d = (d1, Inr n)"
    and upd: "pg_update_state ?t ?i ?st d1 = (d', Inr j)"
    by (auto simp: store_outcome_def action_simps)
  note saved = save_result_job[OF wf save]
  have wf1: "wf_db d1" using saved by simp
  from simulates_final[OF pg_update_state_simulates[OF wf1, of ?t ?i ?st]] upd
    pg_update_state_simulates[OF wf1, of ?t ?i ?st]
  have new: "update_state ?t ?i ?st (jobs_of d1) = Inr (jobs_of d', j)" and wf': "wf_db d'"
    and segs: "db_segments d' = db_segments d1"
    by (auto simp: simulates_def split: sum.splits)
  from new obtain j1 where j1: "job_get ?t ?i (jobs_of d1) = Inr j1" and j: "j = j1\<lparr>job_status := ?st\<rparr>"
    and jobs': "jobs_of d' = put_job j ?i (jobs_of d1)"
    by (auto simp: update_state_def bindR_eq_Inr job_transition_eq_Inr)
  have "job_warnings j1 = or_warnings r \<and> job_degraded j1 = or_degraded r"
  proof (cases "job_get ?t ?i (jobs_of d)")
    case (Inl e)
    then show ?thesis using j1 saved by simp
  next
    case (Inr j0)
    then have "jobs_of d1 = put_job (j0\<lparr>job_warnings := or_warnings r, job_degraded := or_degraded r\<rparr>) ?i (jobs_of d)"
      using saved by simp
    then show ?thesis using j1 by (auto simp: job_get_eq_Inr put_job_def)
  qed
  moreover have "job_get ?t ?i (jobs_of d') = Inr j"
    using j1 j jobs' by (simp add: job_get_eq_Inr put_job_def)
  moreover obtain rs where "load_result collate scan ?t ?i d1 = (d1, Inr rs)"
    "mset rs = mset (map to_public_dict (or_segments r))" "sorted (map start_of rs)"
    using saved_result[OF save scan, of collate] by blast
  then have "load_result collate scan ?t ?i d' = (d', Inr rs)
    \<and> mset rs = mset (map to_public_dict (or_segments r)) \<and> sorted (map start_of rs)"
    using segs by (simp add: load_result_def readS_def)
  ultimately show ?thesis using wf' j by (intro exI[of _ j] exI[of _ rs]) simp
qed

text \<open>
  C12: What a finished task leaves. If the worker handles a task without an exception, the pipeline
  has run on the audio of the task, the job has the successful state that tells whether the run was
  degraded, with the warnings of the run, and reading its result gives the public form of exactly
  the segments of the run, ordered by their start. The queues have not been touched.
\<close>

theorem finished_task_has_its_result:
  assumes wf: "wf_db (w_db w)" and run: "handle wk t w = (w', Inr u)"
    and scan: "\<forall>rows. mset (scan rows) = mset rows"
  shows "\<exists>wav p w1 r j rs. prepare_task wk t = Inr (wav, p) \<and> run_task wav p t w = (w1, Inr r)
     \<and> pg_get (task_tenant t) (task_job t) (w_db w') = (w_db w', Inr j)
     \<and> job_status j = (if or_degraded r then DEGRADED_SUCCEEDED else SUCCEEDED)
     \<and> job_warnings j = or_warnings r \<and> job_degraded j = or_degraded r
     \<and> load_result collate scan (task_tenant t) (task_job t) (w_db w') = (w_db w', Inr rs)
     \<and> mset rs = mset (map to_public_dict (or_segments r)) \<and> sorted (map start_of rs)
     \<and> w_redis w' = w_redis w"
proof (cases rule: handle_cases[of wk t w])
  case (finished wav p w1 r)
  have wf1: "wf_db (w_db w1)" using finished(4) wf by (simp add: only_jobs_def db_evolves_def)
  have "in_db (store_outcome wk t r) w1 = (w', Inr u)" using finished(3) run by simp
  then obtain d where d: "store_outcome wk t r (w_db w1) = (d, Inr u)" and w': "w' = w1\<lparr>w_db := d\<rparr>"
    unfolding in_db_returns by blast
  from store_outcome_returns[OF wf1 d scan, of collate] obtain j rs where out:
    "wf_db d" "job_get (task_tenant t) (task_job t) (jobs_of d) = Inr j"
    "job_status j = (if or_degraded r then DEGRADED_SUCCEEDED else SUCCEEDED)"
    "job_warnings j = or_warnings r \<and> job_degraded j = or_degraded r"
    "load_result collate scan (task_tenant t) (task_job t) d = (d, Inr rs)
     \<and> mset rs = mset (map to_public_dict (or_segments r)) \<and> sorted (map start_of rs)" by blast
  have "pg_get (task_tenant t) (task_job t) d = (d, Inr j)" using out by (simp add: pg_get_simulates)
  then show ?thesis
    using finished out w'
    by (intro exI[of _ wav] exI[of _ p] exI[of _ w1] exI[of _ r] exI[of _ j] exI[of _ rs])
      (simp add: only_jobs_def)
qed (use run in auto)

section \<open>Finished jobs\<close>

text \<open>A delivery of a job that has finished raises before it changes anything.\<close>

lemma handle_terminal:
  assumes wf: "wf_db (w_db w)" and job: "job_get (task_tenant t) (task_job t) (jobs_of (w_db w)) = Inr j"
    and terminal: "job_is_terminal j"
  shows "\<exists>e. handle wk t w = (w, Inl e)"
proof -
  have "PREPROCESSING \<noteq> job_status j" using terminal by (auto simp: job_is_terminal_def TERMINAL_JOB_STATES_def)
  then have "update_state (task_tenant t) (task_job t) PREPROCESSING (jobs_of (w_db w)) = Inl ValueError"
    using job terminal by (simp add: update_state_def job_transition_def)
  then have "pg_update_state (task_tenant t) (task_job t) PREPROCESSING (w_db w) = (w_db w, Inl ValueError)"
    using pg_update_state_simulates[OF wf, of "task_tenant t" "task_job t" PREPROCESSING] by (simp add: simulates_def)
  then have "update_stage t PREPROCESSING w = (w, Inl ValueError)"
    by (simp add: update_stage_def in_db_eq bindS_def)
  then have run: "run_task wav p t w = (w, Inl ValueError)" for wav p
    by (simp add: run_task_def offline_run_def Let_def bindS_def)
  show ?thesis by (cases rule: handle_cases[of wk t w]) (use run in auto)
qed

definition rows_of :: "string \<Rightarrow> string \<Rightarrow> db \<Rightarrow> segment_row list" where
  "rows_of t i d = filter (\<lambda>r. sr_job r = i \<and> sr_tenant r = t) (db_segments d)"

lemma load_rows: "load_result collate scan t i d = (d, Inr (map sr_payload (sort_key (result_key collate) (scan (rows_of t i d)))))"
  by (simp add: load_result_def readS_def rows_of_def)

lemma save_result_others:
  assumes "(t', i') \<noteq> (t, i)"
  shows "rows_of t' i' (fst (save_result fresh t i segs sid ws deg d)) = rows_of t' i' d"
proof -
  obtain d' r where run: "save_result fresh t i segs sid ws deg d = (d', r)" by (meson surj_pair)
  show ?thesis
  proof (cases r)
    case (Inl e)
    then show ?thesis using save_result_raises run by fastforce
  next
    case (Inr n)
    let ?d0 = "d\<lparr>db_segments := filter (\<lambda>r. \<not> (sr_job r = i \<and> sr_tenant r = t)) (db_segments d)\<rparr>"
    from run Inr obtain d1 u js where fold: "foldS (save_segment fresh t i sid) segs () ?d0 = (d1, Inr u)"
      and d': "d' = d1\<lparr>db_jobs := js\<rparr>"
      by (auto simp: save_result_def transaction_def bind_modify action_simps update_jobs_effect
          split: prod.splits sum.splits)
    from save_segments_append[OF fold] obtain rows where rows: "list_all2 (stored_as t i) segs rows"
      and segments: "db_segments d1 = db_segments ?d0 @ rows" by blast
    have "sr_job x = i \<and> sr_tenant x = t" if "x \<in> set rows" for x
      using that rows by (auto simp: list_all2_conv_all_nth in_set_conv_nth stored_as_def)
    then have "filter (\<lambda>r. sr_job r = i' \<and> sr_tenant r = t') rows = []" using assms by (auto simp: filter_empty_conv)
    then show ?thesis using assms run d' by (auto simp: rows_of_def segments intro: filter_cong)
  qed
qed

text \<open>The jobs evolve, and a finished job keeps its rows.\<close>

definition keeps_finished :: "'s world \<Rightarrow> 's world \<Rightarrow> bool" where
  "keeps_finished w w' \<longleftrightarrow> db_evolves (w_db w) (w_db w')
     \<and> (wf_db (w_db w) \<longrightarrow> (\<forall>t i j. job_get t i (jobs_of (w_db w)) = Inr j \<longrightarrow> job_is_terminal j \<longrightarrow>
          rows_of t i (w_db w') = rows_of t i (w_db w)))"

lemma terminal_kept:
  assumes "db_evolves d d'" and "wf_db d" and "job_get t i (jobs_of d) = Inr j" and "job_is_terminal j"
  shows "\<exists>j'. job_get t i (jobs_of d') = Inr j' \<and> job_is_terminal j' \<and> job_status j' = job_status j"
  using assms unfolding db_evolves_def jobs_kept_def job_kept_def
  by (fastforce simp: job_get_eq_Inr job_is_terminal_def)

interpretation deliveries: state_relation keeps_finished
proof
  fix s t u :: "'a world"
  show "keeps_finished s s" by (simp add: keeps_finished_def tables.R_refl)
  assume st: "keeps_finished s t" and tu: "keeps_finished t u"
  have ev: "db_evolves (w_db s) (w_db u)"
    using st tu tables.R_trans unfolding keeps_finished_def by blast
  have "rows_of a i (w_db u) = rows_of a i (w_db s)"
    if wf: "wf_db (w_db s)" and job: "job_get a i (jobs_of (w_db s)) = Inr j" and closed: "job_is_terminal j" for a i j
  proof -
    have "wf_db (w_db t)" using st wf by (simp add: keeps_finished_def db_evolves_def)
    moreover obtain j' where "job_get a i (jobs_of (w_db t)) = Inr j'" "job_is_terminal j'"
      using terminal_kept[OF _ wf job closed] st unfolding keeps_finished_def by blast
    ultimately have "rows_of a i (w_db u) = rows_of a i (w_db t)" using tu unfolding keeps_finished_def by blast
    moreover have "rows_of a i (w_db t) = rows_of a i (w_db s)" using st wf job closed unfolding keeps_finished_def by blast
    ultimately show ?thesis by simp
  qed
  then show "keeps_finished s u" using ev unfolding keeps_finished_def by blast
qed

lemma rows_same_segments: "db_segments d' = db_segments d \<Longrightarrow> rows_of t i d' = rows_of t i d"
  by (simp add: rows_of_def)

lemma handle_keeps_finished: "keeps_finished w (fst (handle wk t w))"
  unfolding keeps_finished_def
proof (intro conjI impI allI)
  show "db_evolves (w_db w) (w_db (fst (handle wk t w)))" using handle_evolves by blast
  fix a i j assume wf: "wf_db (w_db w)" and job: "job_get a i (jobs_of (w_db w)) = Inr j" and closed: "job_is_terminal j"
  show "rows_of a i (w_db (fst (handle wk t w))) = rows_of a i (w_db w)"
  proof (cases "(a, i) = (task_tenant t, task_job t)")
    case True
    then show ?thesis using handle_terminal[OF wf _ closed, of t wk] job by auto
  next
    case other: False
    show ?thesis
    proof (cases rule: handle_cases[of wk t w])
      case (finished wav p w1 r)
      have "rows_of a i (fst (store_outcome wk t r (w_db w1))) = rows_of a i (w_db w1)"
        unfolding store_outcome_def
        by (rule bindS_final[where P = "\<lambda>d. rows_of a i d = rows_of a i (w_db w1)"])
          (simp_all add: save_result_others[OF other] bind_ignore rows_same_segments[OF same_segments(1)])
      moreover have "rows_of a i (w_db w1) = rows_of a i (w_db w)"
        using finished by (auto simp: only_jobs_def intro: rows_same_segments)
      ultimately show ?thesis using finished by (simp add: in_db_eq)
    qed (auto simp: only_jobs_def intro: rows_same_segments)
  qed
qed

lemma redis_keeps_finished: "deliveries.keeps (in_redis m)"
  by (simp add: deliveries.keeps_def in_redis_eq keeps_finished_def tables.R_refl)

lemma fail_job_rows: "rows_of a i (fst (fail_job t m d)) = rows_of a i d"
proof -
  have "db_segments (fst (bindS (pg_set_error x y z) (\<lambda>_. pg_update_state x y FAILED) d)) = db_segments d" for x y z
    by (rule bindS_final[where P = "\<lambda>d'. db_segments d' = db_segments d"]) (simp_all add: same_segments)
  then show ?thesis by (intro rows_same_segments) (simp add: fail_job_def ignoring_errors_def)
qed

lemma fail_job_keeps_finished: "deliveries.keeps (in_db (fail_job t m))"
  using fail_job_keeps[of t m]
  by (simp add: deliveries.keeps_def in_db_eq keeps_finished_def fail_job_rows tables.keeps_def)

lemma settle_alt:
  "settle wk t w = (case snd (handle wk t w) of
      Inl e \<Rightarrow> bindS (in_redis (retry (wk_queue wk) t (wk_consumer wk) 3)) (\<lambda>again.
            if again then returnS () else in_db (fail_job t (wk_message wk e))) (fst (handle wk t w))
    | Inr _ \<Rightarrow> bindS (in_redis (ack (wk_queue wk) t (wk_consumer wk))) (\<lambda>_. returnS ()) (fst (handle wk t w)))"
  by (cases "handle wk t w"; cases "snd (handle wk t w)") (simp_all add: settle_def)

lemma settle_keeps_finished: "deliveries.keeps (settle wk t)"
proof -
  have retry: "deliveries.keeps (bindS (in_redis (retry (wk_queue wk) t (wk_consumer wk) 3)) (\<lambda>again.
            if again then returnS () else in_db (fail_job t (wk_message wk e))))" for e
    by (intro deliveries.keeps_intros redis_keeps_finished fail_job_keeps_finished)
  have ack: "deliveries.keeps (bindS (in_redis (ack (wk_queue wk) t (wk_consumer wk))) (\<lambda>_. returnS ()))"
    by (intro deliveries.keeps_intros redis_keeps_finished)
  show ?thesis
    unfolding deliveries.keeps_def settle_alt
  proof
    fix w
    note handled = handle_keeps_finished[of w wk t]
    show "keeps_finished w (fst (case snd (handle wk t w) of
      Inl e \<Rightarrow> bindS (in_redis (retry (wk_queue wk) t (wk_consumer wk) 3)) (\<lambda>again.
            if again then returnS () else in_db (fail_job t (wk_message wk e))) (fst (handle wk t w))
    | Inr _ \<Rightarrow> bindS (in_redis (ack (wk_queue wk) t (wk_consumer wk))) (\<lambda>_. returnS ()) (fst (handle wk t w))))"
      using retry[unfolded deliveries.keeps_def, THEN spec, THEN deliveries.R_trans[OF handled]]
        ack[unfolded deliveries.keeps_def, THEN spec, THEN deliveries.R_trans[OF handled]]
      by (auto split: sum.split)
  qed
qed

lemma work_once_keeps_finished: "deliveries.keeps (work_once wk)"
  unfolding work_once_def by (intro deliveries.keeps_intros redis_keeps_finished settle_keeps_finished)

lemma work_keeps_finished: "deliveries.keeps (work wk n)"
proof (induction n)
  case (Suc n)
  then show ?case by (auto intro: deliveries.keeps_intros work_once_keeps_finished)
qed (auto intro: deliveries.keeps_intros)


section \<open>No job is dropped\<close>

text \<open>An entry that asks for a job of a tenant, and a job that has succeeded.\<close>

definition asks_for :: "string \<Rightarrow> string \<Rightarrow> json \<Rightarrow> bool" where
  "asks_for tenant i v \<longleftrightarrow> (case from_json v of Inl e \<Rightarrow> False | Inr t \<Rightarrow> task_tenant t = tenant \<and> task_job t = i)"

definition done_in :: "string \<Rightarrow> string \<Rightarrow> db \<Rightarrow> bool" where
  "done_in tenant i d \<longleftrightarrow> (case job_get tenant i (jobs_of d) of Inl e \<Rightarrow> False
     | Inr j \<Rightarrow> job_status j \<in> {SUCCEEDED, DEGRADED_SUCCEEDED})"

lemma asks_for_to_json [simp]: "asks_for tn i (to_json t) \<longleftrightarrow> task_tenant t = tn \<and> task_job t = i"
  by (simp add: asks_for_def)

lemma done_in_kept:
  assumes "db_evolves d d'" and "wf_db d" and "done_in tn i d"
  shows "done_in tn i d'"
proof -
  from assms(3) obtain j where j: "job_get tn i (jobs_of d) = Inr j" "job_status j \<in> {SUCCEEDED, DEGRADED_SUCCEEDED}"
    by (auto simp: done_in_def split: sum.splits)
  then have "job_is_terminal j" by (auto simp: job_is_terminal_def TERMINAL_JOB_STATES_def)
  from terminal_kept[OF assms(1,2) j(1) this] j(2) show ?thesis by (auto simp: done_in_def)
qed

lemma fail_job_returns: "in_db (fail_job t m) w = (w\<lparr>w_db := fst (fail_job t m (w_db w))\<rparr>, Inr ())"
  by (simp add: in_db_eq fail_job_def ignoring_errors_def)

text \<open>What taking one task does to the entries for one job.\<close>

lemma settle_returns:
  assumes "settle wk t w = (w', Inr u)"
  obtains (failed) e b s w1 where "handle wk t w = (w1, Inl e)"
      "retry (wk_queue wk) t (wk_consumer wk) 3 (w_redis w1) = (s, Inr b)"
      "w' = (if b then w1\<lparr>w_redis := s\<rparr>
             else w1\<lparr>w_redis := s, w_db := fst (fail_job t (wk_message wk e) (w_db w1))\<rparr>)"
  | (handled) b s w1 where "handle wk t w = (w1, Inr ())"
      "ack (wk_queue wk) t (wk_consumer wk) (w_redis w1) = (s, Inr b)" "w' = w1\<lparr>w_redis := s\<rparr>"
proof (cases "handle wk t w")
  case (Pair w1 r)
  show ?thesis
  proof (cases r)
    case (Inl e)
    then have "bindS (in_redis (retry (wk_queue wk) t (wk_consumer wk) 3)) (\<lambda>again.
        if again then returnS () else in_db (fail_job t (wk_message wk e))) w1 = (w', Inr u)"
      using assms Pair by (simp add: settle_def)
    then obtain s b where "retry (wk_queue wk) t (wk_consumer wk) 3 (w_redis w1) = (s, Inr b)"
      and "(if b then returnS () else in_db (fail_job t (wk_message wk e))) (w1\<lparr>w_redis := s\<rparr>) = (w', Inr u)"
      by (auto simp: bindS_eq_Inr in_redis_returns)
    then show ?thesis using failed Pair Inl by (auto simp: returnS_def fail_job_returns split: if_splits)
  next
    case (Inr x)
    then have "bindS (in_redis (ack (wk_queue wk) t (wk_consumer wk))) (\<lambda>_. returnS ()) w1 = (w', Inr u)"
      using assms Pair by (simp add: settle_def)
    then show ?thesis using handled Pair Inr by (auto simp: bindS_eq_Inr in_redis_returns returnS_def)
  qed
qed

lemma settle_keeps_job:
  assumes laws: "redis_lists (tq_client (wk_queue wk)) view" and wf: "wf_db (w_db w)"
    and run: "settle wk t w = (w', Inr u)" and held: "holds (asks_for tn i) (view (w_redis w))"
  shows "holds (asks_for tn i) (view (w_redis w')) \<or> done_in tn i (w_db w')"
  using run
proof (cases rule: settle_returns)
  case (failed e b s w1)
  have same: "w_redis w1 = w_redis w" using handle_evolves[of w wk t] failed(1) by simp
  let ?L = "fst (list_remove_one (processing_key (wk_queue wk) (task_queue t) (wk_consumer wk)) (to_json t)
    (view (w_redis w)))"
  have "holds (asks_for tn i) ?L \<or> asks_for tn i (to_json t)"
    using holds_remove_one[OF held] by blast
  then have "holds (asks_for tn i) (view s)"
    using retry_returns(1)[OF laws failed(2)] same by (auto intro: holds_push)
  then show ?thesis using failed(3) by simp
next
  case (handled b s w1)
  show ?thesis
  proof (cases "asks_for tn i (to_json t)")
    case False
    then have "holds (asks_for tn i) (view s)"
      using holds_remove_one[OF held] ack_returns(1)[OF laws handled(2)] handle_evolves[of w wk t] handled(1) by simp
    then show ?thesis using handled(3) by simp
  next
    case True
    have "done_in tn i (w_db w1)"
    proof (cases rule: handle_cases[of wk t w])
      case (finished wav p w2 r)
      then have "wf_db (w_db w2)" using wf by (simp add: only_jobs_def db_evolves_def)
      moreover have "in_db (store_outcome wk t r) w2 = (w1, Inr ())" using finished(3) handled(1) by simp
      ultimately show ?thesis
        using store_outcome_returns[where scan = "\<lambda>x. x" and wk = wk and t = t] True
        unfolding in_db_returns by (fastforce simp: done_in_def)
    qed (use handled(1) in auto)
    then show ?thesis using handled(3) by simp
  qed
qed

lemma work_once_keeps_job:
  assumes laws: "redis_lists (tq_client (wk_queue wk)) view" and wf: "wf_db (w_db w)"
    and run: "work_once wk w = (w', Inr u)" and held: "holds (asks_for tn i) (view (w_redis w))"
  shows "holds (asks_for tn i) (view (w_redis w')) \<or> done_in tn i (w_db w')"
proof -
  let ?reserve = "reserve (wk_queue wk) (wk_names wk) (wk_consumer wk) 2"
  from run obtain s taken where res: "?reserve (w_redis w) = (s, Inr taken)"
    and rest: "(case taken of None \<Rightarrow> returnS () | Some t \<Rightarrow> settle wk t) (w\<lparr>w_redis := s\<rparr>) = (w', Inr u)"
    by (auto simp: work_once_def bindS_eq_Inr in_redis_returns)
  have held': "holds (asks_for tn i) (view (w_redis (w\<lparr>w_redis := s\<rparr>)))"
    using reserve_final[OF laws, of "holds (asks_for tn i)", OF held, of "wk_names wk" "wk_consumer wk" 2] res
    by (simp add: holds_move)
  show ?thesis
  proof (cases taken)
    case None
    then show ?thesis using rest held' by (simp add: returnS_def)
  next
    case (Some t)
    then have "settle wk t (w\<lparr>w_redis := s\<rparr>) = (w', Inr u)" using rest by simp
    from settle_keeps_job[OF laws _ this held'] wf show ?thesis by simp
  qed
qed

lemma work_once_evolves: "db_evolves (w_db w) (w_db (fst (work_once wk w)))"
  using work_once_keeps_finished[of wk] by (simp add: deliveries.keeps_def keeps_finished_def)

lemma work_keeps_job:
  assumes laws: "redis_lists (tq_client (wk_queue wk)) view"
  shows "work wk n w = (w', Inr u) \<Longrightarrow> wf_db (w_db w) \<Longrightarrow>
    holds (asks_for tn i) (view (w_redis w)) \<or> done_in tn i (w_db w) \<Longrightarrow>
    holds (asks_for tn i) (view (w_redis w')) \<or> done_in tn i (w_db w')"
proof (induction n arbitrary: w)
  case 0
  then show ?case by (simp add: returnS_def)
next
  case (Suc n)
  from Suc.prems(1) obtain w1 where one: "work_once wk w = (w1, Inr ())" and rest: "work wk n w1 = (w', Inr u)"
    by (auto simp: bindS_eq_Inr)
  have ev: "db_evolves (w_db w) (w_db w1)" using work_once_evolves[of w wk] one by simp
  have "holds (asks_for tn i) (view (w_redis w1)) \<or> done_in tn i (w_db w1)"
    using Suc.prems(3) work_once_keeps_job[OF laws Suc.prems(2) one] done_in_kept[OF ev Suc.prems(2)] by blast
  moreover have "wf_db (w_db w1)" using ev Suc.prems(2) by (simp add: db_evolves_def)
  ultimately show ?case using Suc.IH[OF rest] by blast
qed

text \<open>
  C5: No job is dropped. While the commands of the queue client return, a job for which some list of
  the queues holds a task at the start has, after any number of turns of the worker, still a task in
  some list (waiting, taken or dead), or it has succeeded. The failures of the models, the storage,
  the tables and the pipeline do not matter, nor do deliveries of the same task twice.
\<close>

theorem no_job_is_dropped:
  assumes "redis_lists (tq_client (wk_queue wk)) view" and "wf_db (w_db w)"
    and "work wk n w = (w', Inr u)" and "holds (asks_for tenant i) (view (w_redis w))"
  shows "holds (asks_for tenant i) (view (w_redis w'))
    \<or> (\<exists>j. pg_get tenant i (w_db w') = (w_db w', Inr j) \<and> job_status j \<in> {SUCCEEDED, DEGRADED_SUCCEEDED})"
proof -
  have "db_evolves (w_db w) (w_db w')"
    using deliveries.keepsD[OF work_keeps_finished assms(3)] by (simp add: keeps_finished_def)
  then have "wf_db (w_db w')" using assms(2) by (simp add: db_evolves_def)
  then show ?thesis
    using work_keeps_job[OF assms(1,3,2), of tenant i] assms(4)
    by (auto simp: done_in_def pg_get_simulates split: sum.splits)
qed

section \<open>Failures\<close>

lemma fail_job_effect:
  assumes wf: "wf_db d" and job: "job_get (task_tenant t) (task_job t) (jobs_of d) = Inr j"
  shows "\<exists>j'. job_get (task_tenant t) (task_job t) (jobs_of (fst (fail_job t m d))) = Inr j'
    \<and> job_error j' = Some (failure_code m)
    \<and> job_status j' = (if job_is_terminal j then job_status j else FAILED)"
proof -
  let ?tn = "task_tenant t" and ?i = "task_job t" and ?j = "j\<lparr>job_error := Some (failure_code m)\<rparr>"
  have set: "set_error ?tn ?i (failure_code m) (jobs_of d) = Inr (put_job ?j ?i (jobs_of d), ?j)"
    using job by (simp add: set_error_def Let_def)
  obtain d1 where d1: "pg_set_error ?tn ?i (failure_code m) d = (d1, Inr ?j)" "wf_db d1"
      "jobs_of d1 = put_job ?j ?i (jobs_of d)"
    using pg_set_error_simulates[OF wf, of ?tn ?i "failure_code m"] set by (auto simp: simulates_def)
  have job1: "job_get ?tn ?i (jobs_of d1) = Inr ?j" using job d1(3) by (simp add: job_get_eq_Inr put_job_def)
  have run: "fst (fail_job t m d) = fst (pg_update_state ?tn ?i FAILED d1)"
    using d1(1) by (simp add: fail_job_def ignoring_errors_def bindS_def)
  note sim = pg_update_state_simulates[OF d1(2), of ?tn ?i FAILED, unfolded simulates_def]
  show ?thesis
  proof (cases "job_is_terminal j \<and> FAILED \<noteq> job_status j")
    case True
    then have "update_state ?tn ?i FAILED (jobs_of d1) = Inl ValueError"
      using job1 by (simp add: update_state_def job_transition_def job_is_terminal_def)
    then have "fst (fail_job t m d) = d1" using sim run by simp
    then show ?thesis using job1 True by simp
  next
    case False
    let ?f = "?j\<lparr>job_status := FAILED\<rparr>"
    have "update_state ?tn ?i FAILED (jobs_of d1) = Inr (put_job ?f ?i (jobs_of d1), ?f)"
      using job1 False by (simp add: update_state_def job_transition_def job_is_terminal_def)
    then have "jobs_of (fst (fail_job t m d)) = put_job ?f ?i (jobs_of d1)" using sim run by auto
    then have "job_get ?tn ?i (jobs_of (fst (fail_job t m d))) = Inr ?f"
      using job1 by (simp add: job_get_eq_Inr put_job_def)
    then show ?thesis using False by auto
  qed
qed

text \<open>
  C32: What a failed run leads to. If the handling of a task raises and the queue's commands return,
  the task is not in the worker's hands any more: with fewer than three failures it waits again with
  one more failure and the database is as the run left it; with the third failure it is on the dead
  list and its job is in a terminal state, namely \<open>FAILED\<close> unless it was terminal before. Such a
  job also gets the error code of the failure, even when it had succeeded and the failure is only
  that a second delivery of its task was refused.
\<close>

theorem failed_task_is_retried_or_closed:
  assumes "redis_lists (tq_client (wk_queue wk)) view" and "wf_db (w_db w)"
    and "handle wk t w = (w1, Inl e)" and "settle wk t w = (w', Inr u)"
    and "pg_get (task_tenant t) (task_job t) (w_db w1) = (w_db w1, Inr j)"
  shows "let again = to_json (t\<lparr>task_attempts := task_attempts t + 1\<rparr>);
      code = failure_code (wk_message wk e);
      taken = processing_key (wk_queue wk) (task_queue t) (wk_consumer wk);
      L = view (w_redis w); L' = view (w_redis w') in
    L' taken = remove1 (to_json t) (L taken)
    \<and> (task_attempts t + 1 < 3 \<longrightarrow> w_db w' = w_db w1
         \<and> L' (queue_key (wk_queue wk) (task_queue t)) = again # L (queue_key (wk_queue wk) (task_queue t)))
    \<and> (3 \<le> task_attempts t + 1 \<longrightarrow>
         L' (dead_key (wk_queue wk) (task_queue t)) = again # L (dead_key (wk_queue wk) (task_queue t))
         \<and> (\<exists>j'. pg_get (task_tenant t) (task_job t) (w_db w') = (w_db w', Inr j')
              \<and> job_is_terminal j' \<and> job_error j' = Some code
              \<and> job_status j' = (if job_is_terminal j then job_status j else FAILED)))"
  using assms(4)
proof (cases rule: settle_returns)
  case (failed e' b s w2)
  have eq: "e' = e" "w2 = w1" using failed(1) assms(3) by auto
  have redis: "w_redis w1 = w_redis w" and ev: "db_evolves (w_db w) (w_db w1)"
    using handle_evolves[of w wk t] assms(3) by auto
  note r = retry_returns[OF assms(1) failed(2)[unfolded eq redis]]
  have wf1: "wf_db (w_db w1)" using ev assms(2) by (simp add: db_evolves_def)
  have j: "job_get (task_tenant t) (task_job t) (jobs_of (w_db w1)) = Inr j"
    using assms(5) pg_get_simulates[OF wf1] by simp
  have db: "w_db w' = (if b then w_db w1 else fst (fail_job t (wk_message wk e) (w_db w1)))" and s: "w_redis w' = s"
    using failed(3) by (simp_all add: eq)
  have closed: "\<exists>j'. pg_get (task_tenant t) (task_job t) (w_db w') = (w_db w', Inr j')
      \<and> job_is_terminal j' \<and> job_error j' = Some (failure_code (wk_message wk e))
      \<and> job_status j' = (if job_is_terminal j then job_status j else FAILED)" if "\<not> b"
  proof -
    have "wf_db (w_db w')" using fail_job_keeps[of t "wk_message wk e"] wf1 db that
      by (simp add: tables.keeps_def db_evolves_def)
    then show ?thesis using fail_job_effect[OF wf1 j, of "wk_message wk e"] db that
      by (auto simp: pg_get_simulates job_is_terminal_def TERMINAL_JOB_STATES_def split: if_splits)
  qed
  show ?thesis
    using r closed db s by (auto simp: Let_def retry_key_def list_push_def list_remove_one_def)
qed (use assms(3) in auto)

section \<open>A concrete worker\<close>

text \<open>Applications at a worker over lists and tables, whose models are those of the concrete pipeline.\<close>

definition demo_row :: "job_state \<Rightarrow> job_row" where
  "demo_row st = \<lparr>jr_id = ''job_local'', jr_tenant = ''acme'', jr_key = ''k'', jr_state = job_state_value st,
     jr_input = ''h'', jr_config = None, jr_error = None, jr_warnings = JList [], jr_degraded = False\<rparr>"

definition demo_table :: "job_state \<Rightarrow> db" where
  "demo_table st = empty_db\<lparr>db_jobs := [demo_row st]\<rparr>"

definition demo_job_task :: task where
  "demo_job_task = new_task ''tsk_1'' 0 ''asr.batch'' ''acme'' ''job_local''
     (Some [(''audio_key'', JStr ''a.wav''), (''language'', JStr ''vi'')])"

definition demo_worker :: "(lists, unit) worker" where
  "demo_worker = \<lparr>wk_queue = demo_queue, wk_names = [''asr.batch''], wk_consumer = ''w1'',
     wk_object = (\<lambda>_ _. Inr []), wk_scenario = (\<lambda>_. Inr ()), wk_adapters = (\<lambda>_. Inr demo_ports),
     wk_config = default_config, wk_calibration_file = (\<lambda>_. None), wk_calibration_version = None,
     wk_fresh = digits, wk_event_id = digits, wk_segment_id = (\<lambda>_. ''seg''), wk_message = (\<lambda>_. ''boom'')\<rparr>"

lemma demo_row_job: "job_from_row (demo_row st) = Inr ((new_job ''job_local'' ''acme'' ''k'' ''h'' None)\<lparr>job_status := st\<rparr>)"
  by (simp add: job_from_row_def demo_row_def warnings_of_def new_job_def)

lemma demo_table_wf: "wf_db (demo_table st)"
  by (simp add: wf_db_def demo_table_def empty_db_def readable_def demo_row_job)

lemma demo_update:
  assumes "db_jobs d = [demo_row st]" and "st \<notin> TERMINAL_JOB_STATES"
  shows "\<exists>j. pg_update_state ''acme'' ''job_local'' st' d = (d\<lparr>db_jobs := [demo_row st']\<rparr>, Inr j)"
proof -
  let ?j = "(new_job ''job_local'' ''acme'' ''k'' ''h'' None)\<lparr>job_status := st\<rparr>"
  have mine: "jr_id (demo_row st) = ''job_local''" "jr_tenant (demo_row st) = ''acme''" by (simp_all add: demo_row_def)
  have "pg_get ''acme'' ''job_local'' d = (d, Inr ?j)"
    using assms(1) by (simp add: pg_get_def select_job_def readS_def bindS_def liftS_def mine demo_row_job)
  moreover have "job_transition ?j st' = Inr (?j\<lparr>job_status := st'\<rparr>)"
    using assms(2) by (simp add: job_transition_def job_is_terminal_def)
  ultimately show ?thesis
    using assms(1) mine by (simp add: pg_update_state_def bindS_def liftS_def transaction_def write_job_def
        update_jobs_effect returnS_def) (simp add: demo_row_def new_job_def)
qed

lemma demo_table_get: "pg_get ''acme'' ''job_local'' (demo_table st)
    = (demo_table st, Inr ((new_job ''job_local'' ''acme'' ''k'' ''h'' None)\<lparr>job_status := st\<rparr>))"
  by (simp add: pg_get_def select_job_def readS_def bindS_def liftS_def demo_table_def demo_row_job)
    (simp add: demo_row_def)

lemma demo_stage:
  assumes "st \<notin> TERMINAL_JOB_STATES"
  shows "update_stage demo_job_task st' \<lparr>w_redis = L, w_db = demo_table st\<rparr> = (\<lparr>w_redis = L, w_db = demo_table st'\<rparr>, Inr ())"
  using demo_update[of "demo_table st" st st'] assms
  by (auto simp: update_stage_def in_db_eq demo_job_task_def new_task_def bindS_def demo_table_def returnS_def)

lemma demo_uncalibrated: "truthy (calibration_path (confidence default_config)) = False"
  by (simp add: default_config_def truthy.simps)

lemma demo_prepare: "prepare_task demo_worker demo_job_task = Inr ([], demo_pipeline)"
  by (simp add: prepare_task_def demo_worker_def demo_job_task_def new_task_def load_audio_def task_scenario_def
      task_timeout_def field_default_def task_language_def job_config_of_def load_confidence_calibrator_def
      task_pipeline_def demo_pipeline_def demo_uncalibrated)

lemma demo_segment_row:
  "\<exists>row. segment_row_of fresh tn i sid (to_public_dict seg) = Inr row \<and> sr_start row = seg_start seg
     \<and> sr_end row = seg_end seg \<and> sr_job row = i \<and> sr_tenant row = tn"
  by (cases "seg_track seg")
    (auto simp: segment_row_of_def to_public_dict_def field_or_def field_def field_opt_def field_default_def)

lemma demo_stored:
  assumes "or_segments r = [seg]" "or_warnings r = []" "\<not> or_degraded r" "0 \<le> seg_start seg" "seg_start seg < seg_end seg"
  shows "\<exists>d. store_outcome demo_worker demo_job_task r (demo_table FUSING) = (d, Inr ())"
proof -
  obtain row where row: "segment_row_of ''seg'' ''acme'' ''job_local'' ''job_local'' (to_public_dict seg) = Inr row"
    "sr_start row = seg_start seg" "sr_end row = seg_end seg" using demo_segment_row by metis
  have "save_result (wk_segment_id demo_worker) (task_tenant demo_job_task) (task_job demo_job_task) (map to_public_dict (or_segments r))
      (task_job demo_job_task) (or_warnings r) (or_degraded r) (demo_table FUSING)
      = ((demo_table FUSING)\<lparr>db_segments := [row]\<rparr>, Inr 1)"
    using row assms(4,5) by (simp add: assms(1-3) demo_worker_def demo_job_task_def new_task_def save_result_def transaction_def
        bindS_def modifyS_def save_segment_def readS_def liftS_def returnS_def insert_segment_def updateS_def
        update_jobs_effect demo_table_def empty_db_def demo_row_def)
  moreover from demo_update[of "(demo_table FUSING)\<lparr>db_segments := [row]\<rparr>" FUSING SUCCEEDED]
  obtain d j where "pg_update_state ''acme'' ''job_local'' SUCCEEDED ((demo_table FUSING)\<lparr>db_segments := [row]\<rparr>) = (d, Inr j)"
    by (auto simp: demo_table_def TERMINAL_JOB_STATES_def)
  ultimately show ?thesis
    using assms(3) by (simp add: store_outcome_def bindS_def demo_job_task_def new_task_def returnS_def)
qed

definition demo_world :: "job_state \<Rightarrow> lists world" where
  "demo_world st = \<lparr>w_redis = (\<lambda>_. [])(queue_key demo_queue ''asr.batch'' := [to_json demo_job_task]),
     w_db = demo_table st\<rparr>"

lemma demo_handled: "\<exists>w'. handle demo_worker demo_job_task \<lparr>w_redis = L, w_db = demo_table QUEUED\<rparr> = (w', Inr ())"
proof -
  have opened: "st \<notin> TERMINAL_JOB_STATES" if "st \<in> {QUEUED, PREPROCESSING, DIARIZING, TRANSCRIBING, LINKING}" for st
    using that by (auto simp: TERMINAL_JOB_STATES_def)
  note stage = demo_stage[OF opened, of _ _ L]
  have "\<exists>r seg. offline_run demo_pipeline no_pin [] (Some ''job_local'') (Some ''job_local'') None
       (update_stage demo_job_task) \<lparr>w_redis = L, w_db = demo_table QUEUED\<rparr>
       = (\<lparr>w_redis = L, w_db = demo_table FUSING\<rparr>, Inr r)
     \<and> or_segments r = [seg] \<and> or_warnings r = [] \<and> \<not> or_degraded r \<and> or_overlap_regions r = 0
     \<and> 0 \<le> seg_start seg \<and> seg_start seg < seg_end seg"
    by (rule demo_reports) ((rule stage, simp)+, simp_all)
  then obtain r seg where run: "run_task [] demo_pipeline demo_job_task \<lparr>w_redis = L, w_db = demo_table QUEUED\<rparr>
       = (\<lparr>w_redis = L, w_db = demo_table FUSING\<rparr>, Inr r)" and
    r: "or_segments r = [seg]" "or_warnings r = []" "\<not> or_degraded r" "0 \<le> seg_start seg" "seg_start seg < seg_end seg"
    by (auto simp: run_task_def demo_job_task_def new_task_def)
  obtain d where "store_outcome demo_worker demo_job_task r (demo_table FUSING) = (d, Inr ())"
    using demo_stored[OF r] by blast
  then show ?thesis
    using run by (simp add: handle_def demo_prepare bind_lift bindS_def in_db_eq liftS_def)
qed

theorem finished_task_has_its_result_witness:
  "\<exists>w' j rs. handle demo_worker demo_job_task (demo_world QUEUED) = (w', Inr ())
     \<and> pg_get ''acme'' ''job_local'' (w_db w') = (w_db w', Inr j) \<and> job_status j \<in> {SUCCEEDED, DEGRADED_SUCCEEDED}
     \<and> load_result length rev ''acme'' ''job_local'' (w_db w') = (w_db w', Inr rs)"
proof -
  obtain w' where run: "handle demo_worker demo_job_task (demo_world QUEUED) = (w', Inr ())"
    using demo_handled by (auto simp: demo_world_def)
  have "wf_db (w_db (demo_world QUEUED))" by (simp add: demo_world_def demo_table_wf)
  from finished_task_has_its_result[OF this run, where scan = rev and collate = length] show ?thesis
    using run by (fastforce simp: demo_job_task_def new_task_def)
qed



lemma demo_take:
  "reserve demo_queue [''asr.batch''] ''w1'' n ((\<lambda>_. [])(queue_key demo_queue ''asr.batch'' := [to_json t]))
     = ((\<lambda>_. [])(processing_key demo_queue ''asr.batch'' ''w1'' := [to_json t]), Inr (Some t))"
  by (auto simp: reserve_def reserve_from_def demo_eval)

lemma demo_turn: "\<exists>w'. work demo_worker 1 (demo_world QUEUED) = (w', Inr ())"
proof -
  let ?L = "(\<lambda>_. [])(processing_key demo_queue ''asr.batch'' ''w1'' := [to_json demo_job_task])"
  obtain w1 where "handle demo_worker demo_job_task \<lparr>w_redis = ?L, w_db = demo_table QUEUED\<rparr> = (w1, Inr ())"
    using demo_handled by blast
  moreover obtain s b where "ack demo_queue demo_job_task ''w1'' (w_redis w1) = (s, Inr b)"
    by (auto simp: ack_def demo_eval split: prod.splits)
  moreover have "wk_queue demo_worker = demo_queue" "wk_names demo_worker = [''asr.batch'']"
    "wk_consumer demo_worker = ''w1''" by (simp_all add: demo_worker_def)
  ultimately show ?thesis
    by (simp add: work_once_def settle_def bindS_def in_redis_eq demo_world_def demo_take returnS_def)
qed

theorem no_job_is_dropped_witness:
  "\<exists>w'. work demo_worker 1 (demo_world QUEUED) = (w', Inr ()) \<and> (holds (asks_for ''acme'' ''job_local'') (w_redis w')
    \<or> (\<exists>j. pg_get ''acme'' ''job_local'' (w_db w') = (w_db w', Inr j) \<and> job_status j \<in> {SUCCEEDED, DEGRADED_SUCCEEDED}))"
proof -
  obtain w' where run: "work demo_worker 1 (demo_world QUEUED) = (w', Inr ())" using demo_turn by blast
  have held: "holds (asks_for ''acme'' ''job_local'') (w_redis (demo_world QUEUED))"
    unfolding holds_def by (rule exI[of _ "queue_key demo_queue ''asr.batch''"])
      (simp add: demo_world_def demo_job_task_def new_task_def)
  have laws: "redis_lists (tq_client (wk_queue demo_worker)) (\<lambda>L. L)" by (simp add: demo_worker_def demo_laws)
  have "wf_db (w_db (demo_world QUEUED))" by (simp add: demo_world_def demo_table_wf)
  from no_job_is_dropped[where view = "\<lambda>L. L", OF laws this run held] run show ?thesis by blast
qed

definition demo_failing_task :: task where
  "demo_failing_task = demo_job_task\<lparr>task_payload := [], task_attempts := 2\<rparr>"

definition demo_taken :: "lists world" where
  "demo_taken = \<lparr>w_redis = (\<lambda>_. [])(processing_key demo_queue ''asr.batch'' ''w1'' := [to_json demo_failing_task]),
     w_db = demo_table QUEUED\<rparr>"

theorem failed_task_is_retried_or_closed_witness:
  "\<exists>w' j. settle demo_worker demo_failing_task demo_taken = (w', Inr ())
     \<and> w_redis w' (dead_key demo_queue ''asr.batch'') = [to_json (demo_failing_task\<lparr>task_attempts := 3\<rparr>)]
     \<and> pg_get ''acme'' ''job_local'' (w_db w') = (w_db w', Inr j) \<and> job_status j = FAILED
     \<and> job_error j = Some ''MODEL_NOT_READY''"
proof -
  have task: "task_tenant demo_failing_task = ''acme''" "task_job demo_failing_task = ''job_local''"
    "task_queue demo_failing_task = ''asr.batch''" "task_attempts demo_failing_task = 2" "task_payload demo_failing_task = []"
    by (simp_all add: demo_failing_task_def demo_job_task_def new_task_def)
  have worker: "wk_queue demo_worker = demo_queue" "wk_consumer demo_worker = ''w1''" "wk_message demo_worker e = ''boom''" for e
    by (simp_all add: demo_worker_def)
  have failing: "handle demo_worker demo_failing_task demo_taken = (demo_taken, Inl (Sastt PlainSasttError))"
    by (simp add: handle_def prepare_task_def load_audio_def task bind_raise)
  obtain s b where again: "retry demo_queue demo_failing_task ''w1'' 3 (w_redis demo_taken) = (s, Inr b)"
    by (auto simp: retry_alt ack_def demo_eval split: prod.splits)
  obtain w' where run: "settle demo_worker demo_failing_task demo_taken = (w', Inr ())"
    by (cases b) (simp_all add: settle_def failing bindS_def in_redis_eq worker again fail_job_returns returnS_def)
  have laws: "redis_lists (tq_client (wk_queue demo_worker)) (\<lambda>L. L)" by (simp add: worker demo_laws)
  have wf: "wf_db (w_db demo_taken)" and get: "pg_get (task_tenant demo_failing_task) (task_job demo_failing_task)
     (w_db demo_taken) = (w_db demo_taken, Inr ((new_job ''job_local'' ''acme'' ''k'' ''h'' None)\<lparr>job_status := QUEUED\<rparr>))"
    by (simp_all add: demo_taken_def demo_table_wf task demo_table_get)
  have "w_redis demo_taken (dead_key demo_queue ''asr.batch'') = []" by (simp add: demo_taken_def)
  moreover have "failure_code ''boom'' = ''MODEL_NOT_READY''" by (simp add: failure_code_def)
  ultimately show ?thesis
    using failed_task_is_retried_or_closed[where view = "\<lambda>L. L", OF laws wf failing run get, unfolded Let_def task worker] run
    by (auto simp: job_is_terminal_def TERMINAL_JOB_STATES_def)
qed

end
