(* ===== verification/PgRegistry.thy ===== *)
theory PgRegistry
  imports VoiceRegistry Database
begin

text \<open>
  The voice registry over PostgreSQL and pgvector of
  \<^verbatim>\<open>src/src/sastt/adapters/persistence/pgvector_registry.py\<close>. The tables of
  \<^verbatim>\<open>src/migrations/0001_initial.sql\<close> are lists of rows, each statement the operation on rows it
  stands for, and a connection block is a transaction. The cosine distance of pgvector, the hash of
  a clip and the order in which the database delivers rows that no clause orders are arguments.
\<close>

section \<open>Tables\<close>

record identity_row =
  ir_id :: string
  ir_tenant :: string
  ir_external :: "string option"
  ir_name :: "string option"
  ir_consent :: string
  ir_deleted :: bool

record template_row =
  tr_id :: string
  tr_identity :: string
  tr_tenant :: string
  tr_release :: string
  tr_vector :: "real list"
  tr_quality :: real
  tr_speech :: int
  tr_hash :: string

record audit_row =
  au_tenant :: string
  au_actor :: string
  au_action :: string
  au_subject :: string
  au_details :: "(string \<times> json) list"

record voice_db =
  vd_identities :: "identity_row list"
  vd_templates :: "template_row list"
  vd_audit :: "audit_row list"

record pg_registry =
  pr_version :: string
  pr_accept :: "real option"
  pr_margin :: "real option"
  pr_minimum_clips :: int
  pr_minimum_speech :: int

definition EMBEDDING_DIMENSION :: nat where
  "EMBEDDING_DIMENSION = 192"

definition MIN_CLIP_MS :: int where
  "MIN_CLIP_MS = 3000"

definition MAX_CLIP_MS :: int where
  "MAX_CLIP_MS = 15000"

definition pg_is_calibrated :: "pg_registry \<Rightarrow> bool" where
  "pg_is_calibrated g \<longleftrightarrow> pr_accept g \<noteq> None \<and> pr_margin g \<noteq> None"

section \<open>Enrollment\<close>

definition pg_clip_reasons :: "pg_registry \<Rightarrow> speaker_embedding \<Rightarrow> string list" where
  "pg_clip_reasons g e =
     (if e_model_version e \<noteq> pr_version g then [''embedding_model_mismatch''] else []) @
     (if e_speech_duration_ms e < MIN_CLIP_MS then [''clip_shorter_than_3s''] else []) @
     (if MAX_CLIP_MS < e_speech_duration_ms e then [''clip_longer_than_15s''] else []) @
     (if e_origin e = Separated then [''separated_source_not_allowed''] else [])"

definition pg_clip_report :: "pg_registry \<Rightarrow> nat \<times> speaker_embedding \<Rightarrow> enrollment_clip_report" where
  "pg_clip_report g = (\<lambda>(index, e).
     let reasons = pg_clip_reasons g e in
       \<lparr>clip_index = index, clip_accepted = (reasons = []),
        clip_speech_duration_ms = e_speech_duration_ms e, clip_reasons = reasons\<rparr>)"

definition pg_accepted :: "pg_registry \<Rightarrow> speaker_embedding list \<Rightarrow> speaker_embedding list" where
  "pg_accepted g es = filter (\<lambda>e. pg_clip_reasons g e = []) es"

text \<open>
  \<open>INSERT ... ON CONFLICT (id) DO UPDATE ... WHERE voice_identities.tenant_id = EXCLUDED.tenant_id\<close>.
  The new name and reference are never null, so \<open>COALESCE\<close> takes them. The other unique index of the
  table is on tenant and external identifier.
\<close>

definition upsert_identity :: "identity_row \<Rightarrow> (voice_db, unit) action" where
  "upsert_identity r =
     updateS (\<lambda>d.
       if ir_id r \<in> ir_id ` set (vd_identities d) then
         Inr (d\<lparr>vd_identities := map (\<lambda>x. if ir_id x = ir_id r \<and> ir_tenant x = ir_tenant r
            then x\<lparr>ir_name := ir_name r, ir_consent := ir_consent r\<rparr> else x) (vd_identities d)\<rparr>, ())
       else if \<exists>x\<in>set (vd_identities d). ir_tenant x = ir_tenant r \<and> ir_external x = ir_external r
            \<and> ir_external x \<noteq> None
         then Inl DatabaseError
       else Inr (d\<lparr>vd_identities := vd_identities d @ [r]\<rparr>, ()))"

text \<open>
  \<open>INSERT ... ON CONFLICT (identity_id, model_release_id, source_hash) DO NOTHING\<close>; the identity must
  exist, whoever owns it.
\<close>

definition same_clip :: "template_row \<Rightarrow> template_row \<Rightarrow> bool" where
  "same_clip x y \<longleftrightarrow> tr_identity x = tr_identity y \<and> tr_release x = tr_release y \<and> tr_hash x = tr_hash y"

definition insert_template :: "template_row \<Rightarrow> (voice_db, unit) action" where
  "insert_template r =
     updateS (\<lambda>d.
       if \<exists>x\<in>set (vd_templates d). same_clip x r then Inr (d, ())
       else if tr_id r \<in> tr_id ` set (vd_templates d) then Inl DatabaseError
       else if tr_identity r \<notin> ir_id ` set (vd_identities d) then Inl DatabaseError
       else Inr (d\<lparr>vd_templates := vd_templates d @ [r]\<rparr>, ()))"

definition to_vector_literal :: "speaker_embedding \<Rightarrow> real list res" where
  "to_vector_literal e =
     (if length (e_vector e) \<noteq> EMBEDDING_DIMENSION then Inl ValueError else Inr (e_vector e))"

definition store_template ::
  "(nat \<Rightarrow> string) \<Rightarrow> (real list \<Rightarrow> int \<Rightarrow> string) \<Rightarrow> string \<Rightarrow> string \<Rightarrow> speaker_embedding \<Rightarrow> unit \<Rightarrow>
     (voice_db, unit) action" where
  "store_template fresh hash tenant i e acc =
     bindS (readS (\<lambda>d. length (vd_templates d))) (\<lambda>n.
     bindS (liftS (to_vector_literal e)) (\<lambda>v.
       insert_template \<lparr>tr_id = fresh n, tr_identity = i, tr_tenant = tenant,
         tr_release = e_model_version e, tr_vector = v, tr_quality = e_quality e,
         tr_speech = e_speech_duration_ms e, tr_hash = hash (e_vector e) (e_speech_duration_ms e)\<rparr>))"

definition templates_for :: "string \<Rightarrow> string \<Rightarrow> string \<Rightarrow> voice_db \<Rightarrow> template_row list" where
  "templates_for i tenant version d =
     filter (\<lambda>t. tr_identity t = i \<and> tr_tenant t = tenant \<and> tr_release t = version) (vd_templates d)"

definition audit :: "string \<Rightarrow> string \<Rightarrow> string \<Rightarrow> (string \<times> json) list \<Rightarrow> (voice_db, unit) action" where
  "audit tenant act subject details =
     modifyS (\<lambda>d. d\<lparr>vd_audit := vd_audit d @ [\<lparr>au_tenant = tenant, au_actor = ''system'',
       au_action = act, au_subject = subject, au_details = details\<rparr>]\<rparr>)"

definition pg_policy_reasons :: "pg_registry \<Rightarrow> nat \<Rightarrow> int \<Rightarrow> string list" where
  "pg_policy_reasons g stored speech =
     (if int stored < pr_minimum_clips g then [''fewer_than_minimum_clips''] else []) @
     (if speech < pr_minimum_speech g then [''insufficient_total_speech''] else [])"

definition pg_enroll ::
  "(nat \<Rightarrow> string) \<Rightarrow> (real list \<Rightarrow> int \<Rightarrow> string) \<Rightarrow> pg_registry \<Rightarrow> unit res \<Rightarrow> string \<Rightarrow> string \<Rightarrow>
     speaker_embedding list \<Rightarrow> string option \<Rightarrow> string option \<Rightarrow> (voice_db, enrollment_report) action" where
  "pg_enroll fresh hash g check tenant i es name consent =
     bindS (liftS check) (\<lambda>_.
     let accepted = pg_accepted g es in
     bindS (transaction
       (bindS (upsert_identity \<lparr>ir_id = i, ir_tenant = tenant, ir_external = Some i,
            ir_name = Some (or_else name i), ir_consent = or_else consent ''unspecified'',
            ir_deleted = False\<rparr>) (\<lambda>_.
        bindS (foldS (store_template fresh hash tenant i) accepted ()) (\<lambda>_.
        bindS (readS (templates_for i tenant (pr_version g))) (\<lambda>stored.
        bindS (audit tenant ''voice_identity.enroll'' i
            [(''accepted'', JInt (int (length accepted))),
             (''rejected'', JInt (int (length es) - int (length accepted)))]) (\<lambda>_.
          returnS (length stored, sum_list (map tr_speech stored)))))))) (\<lambda>(stored, speech).
     let reasons = pg_policy_reasons g stored speech in
       returnS \<lparr>identity_id = i, accepted_clips = length accepted,
         rejected_clips = length es - length accepted, total_speech_ms = speech,
         prototype_count = stored, embedding_model_version = pr_version g,
         meets_policy = (reasons = []), clips = map (pg_clip_report g) (enumerate 0 es),
         policy_reasons = reasons\<rparr>))"

section \<open>Identification\<close>

text \<open>The rows of the query: an identity with its best similarity, for identities with templates.\<close>

definition identity_score ::
  "(real list \<Rightarrow> real list \<Rightarrow> real) \<Rightarrow> real list \<Rightarrow> template_row list \<Rightarrow> real option" where
  "identity_score distance v ts =
     (case map (\<lambda>t. 1 - distance (tr_vector t) v) ts of [] \<Rightarrow> None | s # ss \<Rightarrow> Some (list_max s ss))"

definition identity_scores ::
  "(real list \<Rightarrow> real list \<Rightarrow> real) \<Rightarrow> string \<Rightarrow> string \<Rightarrow> real list \<Rightarrow> voice_db \<Rightarrow> (real \<times> identity_row) list" where
  "identity_scores distance version tenant v d =
     List.map_filter (\<lambda>r. map_option (\<lambda>s. (s, r))
         (identity_score distance v (templates_for (ir_id r) tenant version d)))
       (filter (\<lambda>r. \<not> ir_deleted r) (vd_identities d))"

definition best_two ::
  "(real list \<Rightarrow> real list \<Rightarrow> real) \<Rightarrow> ((real \<times> identity_row) list \<Rightarrow> (real \<times> identity_row) list) \<Rightarrow>
     string \<Rightarrow> string \<Rightarrow> real list \<Rightarrow> voice_db \<Rightarrow> (real \<times> identity_row) list" where
  "best_two distance scan version tenant v d =
     take 2 (sort_key (\<lambda>p. - fst p) (scan (identity_scores distance version tenant v d)))"

definition pg_decide :: "real \<Rightarrow> real \<Rightarrow> (real \<times> identity_row) list \<Rightarrow> voice_id_decision" where
  "pg_decide accept threshold rows =
     (case rows of
        [] \<Rightarrow> decision VidUnknown None None None None ''empty_registry''
      | (best, r) # others \<Rightarrow>
          let margin = (case others of [] \<Rightarrow> None | (second, _) # _ \<Rightarrow> Some (best - second)) in
          if best < accept then decision VidUnknown None None (Some best) margin ''below_accept''
          else if (case margin of None \<Rightarrow> False | Some m \<Rightarrow> m < threshold)
            then decision VidAmbiguous None None (Some best) margin ''low_margin''
          else decision VidEnrolled (Some (ir_id r)) (ir_name r) (Some best) margin ''accept'')"

definition pg_identify ::
  "(real list \<Rightarrow> real list \<Rightarrow> real) \<Rightarrow> ((real \<times> identity_row) list \<Rightarrow> (real \<times> identity_row) list) \<Rightarrow>
     pg_registry \<Rightarrow> unit res \<Rightarrow> string \<Rightarrow> speaker_embedding \<Rightarrow> (voice_db, voice_id_decision) action" where
  "pg_identify distance scan g check tenant e =
     bindS (liftS check) (\<lambda>_.
       case (pr_accept g, pr_margin g) of
         (Some accept, Some threshold) \<Rightarrow>
           if e_model_version e \<noteq> pr_version g
           then returnS (decision VidUnknown None None None None ''embedding_model_mismatch'')
           else bindS (liftS (to_vector_literal e)) (\<lambda>v.
                bindS (readS (best_two distance scan (pr_version g) tenant v)) (\<lambda>rows.
                  returnS (pg_decide accept threshold rows)))
       | _ \<Rightarrow> returnS (decision VidUncalibrated None None None None ''thresholds_null''))"

section \<open>Deletion and lookup\<close>

text \<open>The templates of an identity go with it, whatever tenant they are stored under.\<close>

definition pg_delete_identity :: "unit res \<Rightarrow> string \<Rightarrow> string \<Rightarrow> (voice_db, bool) action" where
  "pg_delete_identity check tenant i =
     bindS (liftS check) (\<lambda>_. transaction
       (bindS (readS (\<lambda>d. \<exists>r\<in>set (vd_identities d). ir_id r = i \<and> ir_tenant r = tenant)) (\<lambda>deleted.
        bindS (if deleted
               then bindS (modifyS (\<lambda>d. d\<lparr>
                      vd_identities := filter (\<lambda>r. \<not> (ir_id r = i \<and> ir_tenant r = tenant)) (vd_identities d),
                      vd_templates := filter (\<lambda>t. tr_identity t \<noteq> i) (vd_templates d)\<rparr>)) (\<lambda>_.
                    audit tenant ''voice_identity.delete'' i [(''cascade'', JStr ''templates'')])
               else returnS ()) (\<lambda>_. returnS deleted))))"

definition pg_identity_exists :: "string \<Rightarrow> string \<Rightarrow> voice_db \<Rightarrow> bool" where
  "pg_identity_exists tenant i d \<longleftrightarrow>
     (\<exists>r\<in>set (vd_identities d). ir_id r = i \<and> ir_tenant r = tenant \<and> \<not> ir_deleted r)"

definition template_prototype :: "string \<Rightarrow> string \<Rightarrow> template_row \<Rightarrow> prototype res" where
  "template_prototype version i t =
     bindR (mk_embedding (tr_vector t) version (tr_quality t) (tr_speech t) Clean None None)
       (from_embedding i)"

definition pg_prototypes_of ::
  "(template_row list \<Rightarrow> template_row list) \<Rightarrow> pg_registry \<Rightarrow> string \<Rightarrow> string \<Rightarrow>
     (voice_db, prototype list) action" where
  "pg_prototypes_of scan g tenant i =
     bindS (readS (pg_identity_exists tenant i)) (\<lambda>known.
       if \<not> known then liftS (Inl (Sastt TenantAccessDeniedError))
       else bindS (readS (\<lambda>d. scan (templates_for i tenant (pr_version g) d))) (\<lambda>rows.
         liftS (mapR (template_prototype (pr_version g) i) rows)))"

end
