(* ===== verification/PgRegistryProps.thy ===== *)
theory PgRegistryProps
  imports PgRegistry RegistryProps DatabaseProps
begin

text \<open>
  What the registry over PostgreSQL guarantees: its decision is the one of the in-memory registry on
  the rows of the query, posting a clip again changes nothing, tenants whose identities do not
  collide are apart, deletion is complete, and what happens when two tenants use one identifier.
\<close>

section \<open>The decision rule\<close>

lemma map_insort_key:
  assumes "\<And>x. k (f x) = k' x"
  shows "insort_key k (f x) (map f xs) = map f (insort_key k' x xs)"
  by (induction xs) (auto simp: assms)

lemma sort_key_map:
  assumes "\<And>x. k (f x) = k' x"
  shows "sort_key k (map f xs) = map f (sort_key k' xs)"
  by (induction xs) (simp_all add: map_insort_key[of k f k', OF assms])

text \<open>The entry of the in-memory registry that a row stands for.\<close>

definition entry_of :: "identity_row \<Rightarrow> registry_entry" where
  "entry_of r = \<lparr>entry_identity_id = ir_id r, entry_display_name = the (ir_name r),
     entry_prototypes = [], entry_accepted_speech_ms = 0, entry_consent_ref = Some (ir_consent r)\<rparr>"

lemma pg_decide_ranked:
  assumes "\<And>s r. (s, r) \<in> set rows \<Longrightarrow> ir_name r \<noteq> None"
  shows "pg_decide accept threshold (take 2 (sort_key (\<lambda>p. - fst p) rows))
    = ranked_decision accept threshold (map (\<lambda>(s, r). (s, entry_of r)) rows)"
proof -
  let ?f = "\<lambda>(s, r). (s, entry_of r)"
  let ?rows = "sort_key (\<lambda>p. - fst p) rows"
  have mapped: "sort_key (\<lambda>s. - fst s) (map ?f rows) = map ?f ?rows"
    by (rule sort_key_map) (simp add: case_prod_beta)
  have named: "ir_name r \<noteq> None" if "(s, r) \<in> set ?rows" for s r using that assms by simp
  show ?thesis
  proof (cases ?rows)
    case Nil
    then show ?thesis by (simp add: pg_decide_def ranked_decision_def mapped)
  next
    case (Cons p ps)
    obtain s r where p: "p = (s, r)" by (cases p)
    have "ir_name r \<noteq> None" using named Cons p by auto
    then show ?thesis
      unfolding ranked_decision_def mapped
      by (cases ps) (auto simp: Cons p pg_decide_def entry_of_def Let_def split: prod.splits)
  qed
qed

lemma identity_scores_rows:
  "(s, r) \<in> set (identity_scores distance version tenant v d) \<longleftrightarrow>
     r \<in> set (vd_identities d) \<and> \<not> ir_deleted r
     \<and> identity_score distance v (templates_for (ir_id r) tenant version d) = Some s"
  by (force simp: identity_scores_def List.map_filter_def)


section \<open>Enrollment\<close>

text \<open>The reasons are those of the in-memory registry.\<close>

lemma same_clip_reasons: "pg_clip_reasons g e = clip_reasons_of (pr_version g) e"
  by (simp add: pg_clip_reasons_def clip_reasons_of_def MIN_CLIP_MS_def MAX_CLIP_MS_def)

definition enrolled_row :: "string \<Rightarrow> string \<Rightarrow> string option \<Rightarrow> string option \<Rightarrow> identity_row" where
  "enrolled_row tenant i name consent = \<lparr>ir_id = i, ir_tenant = tenant, ir_external = Some i,
     ir_name = Some (or_else name i), ir_consent = or_else consent ''unspecified'', ir_deleted = False\<rparr>"

definition pg_report ::
  "pg_registry \<Rightarrow> string \<Rightarrow> speaker_embedding list \<Rightarrow> template_row list \<Rightarrow> enrollment_report" where
  "pg_report g i es stored =
     (let speech = sum_list (map tr_speech stored); reasons = pg_policy_reasons g (length stored) speech in
      \<lparr>identity_id = i, accepted_clips = length (pg_accepted g es),
       rejected_clips = length es - length (pg_accepted g es), total_speech_ms = speech,
       prototype_count = length stored, embedding_model_version = pr_version g,
       meets_policy = (reasons = []), clips = map (pg_clip_report g) (enumerate 0 es),
       policy_reasons = reasons\<rparr>)"

definition enroll_audit :: "pg_registry \<Rightarrow> string \<Rightarrow> string \<Rightarrow> speaker_embedding list \<Rightarrow> audit_row" where
  "enroll_audit g tenant i es = \<lparr>au_tenant = tenant, au_actor = ''system'', au_action = ''voice_identity.enroll'',
     au_subject = i, au_details = [(''accepted'', JInt (int (length (pg_accepted g es)))),
       (''rejected'', JInt (int (length es) - int (length (pg_accepted g es))))]\<rparr>"

lemma transaction_returns: "transaction m s = (s', Inr x) \<longleftrightarrow> m s = (s', Inr x)"
  by (auto simp: transaction_def split: prod.splits sum.splits)

lemma pg_enroll_returns:
  "pg_enroll fresh hash g check tenant i es name consent d = (d', Inr rep) \<longleftrightarrow>
     check = Inr () \<and> (\<exists>d1 d2. upsert_identity (enrolled_row tenant i name consent) d = (d1, Inr ())
       \<and> foldS (store_template fresh hash tenant i) (pg_accepted g es) () d1 = (d2, Inr ())
       \<and> d' = d2\<lparr>vd_audit := vd_audit d2 @ [enroll_audit g tenant i es]\<rparr>
       \<and> rep = pg_report g i es (templates_for i tenant (pr_version g) d2))"
  by (auto simp: pg_enroll_def action_simps transaction_returns audit_def enrolled_row_def enroll_audit_def
      pg_report_def Let_def)

lemma pg_enroll_raises: "pg_enroll fresh hash g check tenant i es name consent d = (d', Inl e) \<Longrightarrow> d' = d"
  by (auto simp: pg_enroll_def bindS_def liftS_def transaction_def returnS_def Let_def
      split: prod.splits sum.splits)


subsection \<open>Storing templates\<close>

definition clip_of_embedding :: "(real list \<Rightarrow> int \<Rightarrow> string) \<Rightarrow> string \<Rightarrow> speaker_embedding \<Rightarrow> string \<times> string \<times> string" where
  "clip_of_embedding hash i e = (i, e_model_version e, hash (e_vector e) (e_speech_duration_ms e))"

definition clip_of_row :: "template_row \<Rightarrow> string \<times> string \<times> string" where
  "clip_of_row x = (tr_identity x, tr_release x, tr_hash x)"

lemma store_template_cases:
  assumes "store_template fresh hash tenant i e u d = (d', Inr v)"
  obtains (known) "clip_of_embedding hash i e \<in> clip_of_row ` set (vd_templates d)" "d' = d"
      "length (e_vector e) = EMBEDDING_DIMENSION"
  | (stored) x where "d' = d\<lparr>vd_templates := vd_templates d @ [x]\<rparr>" "clip_of_row x = clip_of_embedding hash i e"
      "tr_tenant x = tenant" "tr_vector x = e_vector e" "length (e_vector e) = EMBEDDING_DIMENSION"
      "clip_of_embedding hash i e \<notin> clip_of_row ` set (vd_templates d)"
      "i \<in> ir_id ` set (vd_identities d)"
proof -
  let ?r = "\<lparr>tr_id = fresh (length (vd_templates d)), tr_identity = i, tr_tenant = tenant,
     tr_release = e_model_version e, tr_vector = e_vector e, tr_quality = e_quality e,
     tr_speech = e_speech_duration_ms e, tr_hash = hash (e_vector e) (e_speech_duration_ms e)\<rparr>"
  have clip: "same_clip x ?r \<longleftrightarrow> clip_of_row x = clip_of_embedding hash i e" for x
    by (simp add: same_clip_def clip_of_row_def clip_of_embedding_def)
  have row: "clip_of_row ?r = clip_of_embedding hash i e" by (simp add: clip_of_row_def clip_of_embedding_def)
  from assms have len: "length (e_vector e) = EMBEDDING_DIMENSION" and
    insert: "insert_template ?r d = (d', Inr ())"
    by (auto simp: store_template_def action_simps to_vector_literal_def split: if_splits)
  show ?thesis
  proof (cases "clip_of_embedding hash i e \<in> clip_of_row ` set (vd_templates d)")
    case True
    then have "\<exists>x\<in>set (vd_templates d). same_clip x ?r" by (auto simp: clip)
    then have "d' = d" using insert by (simp add: insert_template_def updateS_def)
    then show ?thesis using known True len by blast
  next
    case False
    then have "\<not> (\<exists>x\<in>set (vd_templates d). same_clip x ?r)" unfolding clip by (metis image_eqI)
    then have "d' = d\<lparr>vd_templates := vd_templates d @ [?r]\<rparr>" "i \<in> ir_id ` set (vd_identities d)"
      using insert by (auto simp: insert_template_def updateS_def split: if_splits)
    then show ?thesis by (intro stored[of ?r]) (use row False len in simp_all)
  qed
qed

lemma store_templates_grow:
  "foldS (store_template fresh hash tenant i) es u d = (d', Inr v) \<Longrightarrow>
     \<exists>xs. d' = d\<lparr>vd_templates := vd_templates d @ xs\<rparr>
       \<and> (\<forall>x\<in>set xs. tr_identity x = i \<and> tr_tenant x = tenant \<and> tr_vector x \<in> e_vector ` set es
            \<and> clip_of_row x \<notin> clip_of_row ` set (vd_templates d))
       \<and> (\<forall>e\<in>set es. length (e_vector e) = EMBEDDING_DIMENSION
            \<and> clip_of_embedding hash i e \<in> clip_of_row ` set (vd_templates d'))"
proof (induction es arbitrary: u d)
  case Nil
  then show ?case by (intro exI[of _ "[]"]) (simp add: action_simps)
next
  case (Cons e es)
  from Cons.prems obtain d1 w where one: "store_template fresh hash tenant i e u d = (d1, Inr w)"
    and rest: "foldS (store_template fresh hash tenant i) es w d1 = (d', Inr v)" by (auto simp: action_simps)
  from Cons.IH[OF rest] obtain xs where xs: "d' = d1\<lparr>vd_templates := vd_templates d1 @ xs\<rparr>"
    "\<forall>x\<in>set xs. tr_identity x = i \<and> tr_tenant x = tenant \<and> tr_vector x \<in> e_vector ` set es
        \<and> clip_of_row x \<notin> clip_of_row ` set (vd_templates d1)"
    "\<forall>e\<in>set es. length (e_vector e) = EMBEDDING_DIMENSION
       \<and> clip_of_embedding hash i e \<in> clip_of_row ` set (vd_templates d')" by blast
  from one show ?case
  proof (cases rule: store_template_cases)
    case known
    then show ?thesis using xs by (intro exI[of _ xs]) auto
  next
    case (stored x)
    have "tr_identity x = i" using stored(2) by (simp add: clip_of_row_def clip_of_embedding_def)
    then show ?thesis using xs stored by (intro exI[of _ "x # xs"]) auto
  qed
qed

lemma store_templates_again:
  assumes "\<And>e. e \<in> set es \<Longrightarrow> length (e_vector e) = EMBEDDING_DIMENSION
      \<and> clip_of_embedding hash i e \<in> clip_of_row ` set (vd_templates d)"
  shows "foldS (store_template fresh hash tenant i) es () d = (d, Inr ())"
  using assms
proof (induction es)
  case Nil
  then show ?case by (simp add: returnS_def)
next
  case (Cons e es)
  have "\<exists>x\<in>set (vd_templates d). clip_of_row x = clip_of_embedding hash i e" using Cons.prems[of e] by auto
  then have "store_template fresh hash tenant i e () d = (d, Inr ())"
    using Cons.prems[of e]
    by (auto simp: store_template_def bind_pure to_vector_literal_def insert_template_def updateS_def same_clip_def
        clip_of_row_def clip_of_embedding_def)
  then show ?case using Cons by (simp add: bindS_def)
qed


subsection \<open>Posting a clip again\<close>

lemma upsert_again:
  assumes "upsert_identity (enrolled_row tenant i name consent) d = (d1, Inr ())"
    and "vd_identities d2 = vd_identities d1"
  shows "upsert_identity (enrolled_row tenant i name consent) d2 = (d2, Inr ())"
proof -
  let ?r = "enrolled_row tenant i name consent"
  let ?set = "\<lambda>x. if ir_id x = i \<and> ir_tenant x = tenant
     then x\<lparr>ir_name := ir_name ?r, ir_consent := ir_consent ?r\<rparr> else x"
  have row: "ir_id ?r = i" "ir_tenant ?r = tenant" by (simp_all add: enrolled_row_def)
  have settled: "map ?set (vd_identities d1) = vd_identities d1" and member: "i \<in> ir_id ` set (vd_identities d1)"
  proof -
    have "i \<in> ir_id ` set (vd_identities d1) \<and> map ?set (vd_identities d1) = vd_identities d1"
    proof (cases "i \<in> ir_id ` set (vd_identities d)")
      case True
      then have d1: "vd_identities d1 = map ?set (vd_identities d)"
        using assms(1) by (auto simp: upsert_identity_def updateS_def row)
      have ids: "ir_id \<circ> ?set = ir_id" by (rule ext) simp
      have "?set (?set x) = ?set x" for x by simp
      then have "map ?set (vd_identities d1) = vd_identities d1" by (simp add: d1)
      moreover have "i \<in> ir_id ` set (vd_identities d1)" using True by (simp only: d1 set_map image_comp ids)
      ultimately show ?thesis by blast
    next
      case False
      then have d1: "vd_identities d1 = vd_identities d @ [?r]"
        using assms(1) by (auto simp: upsert_identity_def updateS_def row split: if_splits)
      have "map ?set (vd_identities d) = vd_identities d" using False by (intro map_idI) auto
      then show ?thesis by (simp add: d1 row)
    qed
    then show "map ?set (vd_identities d1) = vd_identities d1" "i \<in> ir_id ` set (vd_identities d1)" by blast+
  qed
  have "upsert_identity ?r d2 = (d2\<lparr>vd_identities := map ?set (vd_identities d2)\<rparr>, Inr ())"
    using member by (simp add: upsert_identity_def updateS_def row assms(2))
  then show ?thesis using settled by (simp add: assms(2))
qed

text \<open>
  Posting enrollment clips again is a no-op. After an enrollment that returned, the same request
  returns the same report, with other identifiers drawn for the templates, and leaves the identities
  and the templates as they are; only one more line is in the audit.
\<close>

theorem pg_enroll_again:
  assumes "pg_enroll fresh hash g check tenant i es name consent d = (d1, Inr rep)"
  shows "\<exists>d2. pg_enroll fresh' hash g (Inr ()) tenant i es name consent d1 = (d2, Inr rep)
    \<and> vd_templates d2 = vd_templates d1 \<and> vd_identities d2 = vd_identities d1
    \<and> vd_audit d2 = vd_audit d1 @ [enroll_audit g tenant i es]"
proof -
  from assms obtain da db where up: "upsert_identity (enrolled_row tenant i name consent) d = (da, Inr ())"
    and fold: "foldS (store_template fresh hash tenant i) (pg_accepted g es) () da = (db, Inr ())"
    and d1: "d1 = db\<lparr>vd_audit := vd_audit db @ [enroll_audit g tenant i es]\<rparr>"
    and rep: "rep = pg_report g i es (templates_for i tenant (pr_version g) db)"
    unfolding pg_enroll_returns by blast
  from store_templates_grow[OF fold] have ids: "vd_identities d1 = vd_identities da"
    and known: "\<And>e. e \<in> set (pg_accepted g es) \<Longrightarrow> length (e_vector e) = EMBEDDING_DIMENSION
      \<and> clip_of_embedding hash i e \<in> clip_of_row ` set (vd_templates d1)"
    by (auto simp: d1)
  have "upsert_identity (enrolled_row tenant i name consent) d1 = (d1, Inr ())"
    by (rule upsert_again[OF up ids])
  moreover have "foldS (store_template fresh' hash tenant i) (pg_accepted g es) () d1 = (d1, Inr ())"
    by (rule store_templates_again) (rule known)
  moreover have "templates_for i tenant (pr_version g) d1 = templates_for i tenant (pr_version g) db"
    by (simp add: templates_for_def d1)
  ultimately show ?thesis
    unfolding pg_enroll_returns by (auto simp: rep intro!: exI)
qed


section \<open>Tenants\<close>

text \<open>Identifiers are unique, and a template belongs to the tenant of its identity.\<close>

definition id_keys :: "voice_db \<Rightarrow> (string \<times> string) list" where
  "id_keys d = map (\<lambda>r. (ir_id r, ir_tenant r)) (vd_identities d)"

definition owned :: "voice_db \<Rightarrow> bool" where
  "owned d \<longleftrightarrow> distinct (map fst (id_keys d))
     \<and> (\<forall>x\<in>set (vd_templates d). (tr_identity x, tr_tenant x) \<in> set (id_keys d))"

definition free_for :: "string \<Rightarrow> string \<Rightarrow> voice_db \<Rightarrow> bool" where
  "free_for tenant i d \<longleftrightarrow> (\<forall>t. (i, t) \<in> set (id_keys d) \<longrightarrow> t = tenant)"

lemma id_keys_mem: "(i, t) \<in> set (id_keys d) \<longleftrightarrow> (\<exists>r\<in>set (vd_identities d). ir_id r = i \<and> ir_tenant r = t)"
  by (auto simp: id_keys_def)

lemma id_keys_fst: "i \<in> fst ` set (id_keys d) \<longleftrightarrow> i \<in> ir_id ` set (vd_identities d)"
  by (simp add: id_keys_def image_image)

text \<open>What one tenant has in the tables.\<close>

definition rows_of_tenant :: "string \<Rightarrow> voice_db \<Rightarrow> identity_row list \<times> template_row list" where
  "rows_of_tenant t d = (filter (\<lambda>r. ir_tenant r = t) (vd_identities d), filter (\<lambda>x. tr_tenant x = t) (vd_templates d))"

lemma upsert_keys:
  assumes "upsert_identity (enrolled_row tenant i name consent) d = (d1, Inr ())"
  shows "id_keys d1 = id_keys d @ (if i \<in> fst ` set (id_keys d) then [] else [(i, tenant)])"
    and "vd_templates d1 = vd_templates d"
    and "t \<noteq> tenant \<Longrightarrow> filter (\<lambda>r. ir_tenant r = t) (vd_identities d1) = filter (\<lambda>r. ir_tenant r = t) (vd_identities d)"
proof -
  let ?r = "enrolled_row tenant i name consent"
  let ?set = "\<lambda>x. if ir_id x = i \<and> ir_tenant x = tenant
     then x\<lparr>ir_name := ir_name ?r, ir_consent := ir_consent ?r\<rparr> else x"
  have row: "ir_id ?r = i" "ir_tenant ?r = tenant" by (simp_all add: enrolled_row_def)
  have d1: "d1 = d\<lparr>vd_identities := if i \<in> fst ` set (id_keys d) then map ?set (vd_identities d)
      else vd_identities d @ [?r]\<rparr>"
    using assms by (auto simp: upsert_identity_def updateS_def row id_keys_fst split: if_splits)
  show "vd_templates d1 = vd_templates d" by (simp add: d1)
  show "id_keys d1 = id_keys d @ (if i \<in> fst ` set (id_keys d) then [] else [(i, tenant)])"
    by (cases "i \<in> fst ` set (id_keys d)") (simp_all add: d1, simp_all add: id_keys_def row)
  have "filter (\<lambda>r. ir_tenant r = t) (map ?set xs) = filter (\<lambda>r. ir_tenant r = t) xs" if "t \<noteq> tenant" for xs
    using that by (induction xs) auto
  then show "filter (\<lambda>r. ir_tenant r = t) (vd_identities d1) = filter (\<lambda>r. ir_tenant r = t) (vd_identities d)"
    if "t \<noteq> tenant"
    using that by (cases "i \<in> fst ` set (id_keys d)") (simp_all only: d1 if_True if_False, simp_all add: row)
qed

lemma enroll_owned:
  assumes own: "owned d" and free: "free_for tenant i d"
    and run: "pg_enroll fresh hash g check tenant i es name consent d = (d', Inr rep)"
  shows "owned d'" and "t \<noteq> tenant \<Longrightarrow> rows_of_tenant t d' = rows_of_tenant t d"
proof -
  from run obtain d1 d2 where up: "upsert_identity (enrolled_row tenant i name consent) d = (d1, Inr ())"
    and fold: "foldS (store_template fresh hash tenant i) (pg_accepted g es) () d1 = (d2, Inr ())"
    and d': "d' = d2\<lparr>vd_audit := vd_audit d2 @ [enroll_audit g tenant i es]\<rparr>"
    unfolding pg_enroll_returns by blast
  note keys = upsert_keys[OF up]
  from store_templates_grow[OF fold] obtain xs where d2: "d2 = d1\<lparr>vd_templates := vd_templates d1 @ xs\<rparr>"
    and xs: "\<And>x. x \<in> set xs \<Longrightarrow> tr_identity x = i \<and> tr_tenant x = tenant" by blast
  have new: "id_keys d' = id_keys d @ (if i \<in> fst ` set (id_keys d) then [] else [(i, tenant)])"
    using keys(1) by (simp add: d' d2 id_keys_def)
  have templates: "vd_templates d' = vd_templates d @ xs" using keys(2) by (simp add: d' d2)
  have "(i, tenant) \<in> set (id_keys d')" using free by (force simp: new free_for_def)
  moreover have "distinct (map fst (id_keys d'))" "set (id_keys d) \<subseteq> set (id_keys d')"
    using own by (auto simp: new owned_def)
  ultimately show "owned d'" using own xs by (auto simp: owned_def templates)
  show "rows_of_tenant t d' = rows_of_tenant t d" if "t \<noteq> tenant"
  proof -
    have "filter (\<lambda>x. tr_tenant x = t) xs = []" using xs that by (auto simp: filter_empty_conv)
    then show ?thesis using keys(2,3) that by (simp add: rows_of_tenant_def d' d2)
  qed
qed

lemma delete_returns:
  "pg_delete_identity check tenant i d = (d', Inr b) \<longleftrightarrow>
     check = Inr () \<and> b = ((i, tenant) \<in> set (id_keys d))
     \<and> d' = (if b then d\<lparr>vd_identities := filter (\<lambda>r. \<not> (ir_id r = i \<and> ir_tenant r = tenant)) (vd_identities d),
          vd_templates := filter (\<lambda>t. tr_identity t \<noteq> i) (vd_templates d),
          vd_audit := vd_audit d @ [\<lparr>au_tenant = tenant, au_actor = ''system'', au_action = ''voice_identity.delete'',
            au_subject = i, au_details = [(''cascade'', JStr ''templates'')]\<rparr>]\<rparr> else d)"
  unfolding id_keys_mem
  by (cases "\<exists>r\<in>set (vd_identities d). ir_id r = i \<and> ir_tenant r = tenant")
    (auto simp: pg_delete_identity_def action_simps transaction_returns audit_def)

lemma owned_template:
  assumes "owned d" and "x \<in> set (vd_templates d)" and "(tr_identity x, t) \<in> set (id_keys d)"
  shows "tr_tenant x = t"
proof -
  have "(tr_identity x, tr_tenant x) \<in> set (id_keys d)" using assms by (simp add: owned_def)
  moreover have "distinct (map fst (id_keys d))" using assms(1) by (simp add: owned_def)
  ultimately show ?thesis using assms(3) eq_key_imp_eq_value by metis
qed

lemma delete_owned:
  assumes own: "owned d" and run: "pg_delete_identity check tenant i d = (d', Inr True)"
  shows "owned d'" and "t \<noteq> tenant \<Longrightarrow> rows_of_tenant t d' = rows_of_tenant t d"
    and "vd_templates d' = filter (\<lambda>t. tr_identity t \<noteq> i) (vd_templates d)" and "i \<notin> fst ` set (id_keys d')"
proof -
  have mine: "(i, tenant) \<in> set (id_keys d)" using run by (simp add: delete_returns)
  have d': "vd_identities d' = filter (\<lambda>r. \<not> (ir_id r = i \<and> ir_tenant r = tenant)) (vd_identities d)"
    and templates: "vd_templates d' = filter (\<lambda>t. tr_identity t \<noteq> i) (vd_templates d)"
    using run by (auto simp: delete_returns)
  have keys: "id_keys d' = filter (\<lambda>k. k \<noteq> (i, tenant)) (id_keys d)"
    by (simp add: id_keys_def d' filter_map comp_def)
  show "owned d'" using own by (auto simp: owned_def keys templates distinct_map_filter)
  show "vd_templates d' = filter (\<lambda>t. tr_identity t \<noteq> i) (vd_templates d)" by (rule templates)
  have "distinct (map fst (id_keys d))" using own by (simp add: owned_def)
  then show "i \<notin> fst ` set (id_keys d')" using mine eq_key_imp_eq_value by (fastforce simp: keys)
  show "rows_of_tenant t d' = rows_of_tenant t d" if "t \<noteq> tenant"
    using that owned_template[OF own _, of _ tenant] mine
    by (auto simp: rows_of_tenant_def d' templates intro!: filter_cong)
qed


lemma pg_identify_enrolled:
  assumes "pg_identify distance scan g check tenant e d = (d', Inr dec)" and "vid_status dec = VidEnrolled"
    and "\<forall>rows. mset (scan rows) = mset rows"
  obtains s r where "(s, r) \<in> set (identity_scores distance (pr_version g) tenant (e_vector e) d)"
    "vid_registry_speaker_id dec = Some (ir_id r)" "vid_speaker_name dec = ir_name r"
proof -
  let ?rows = "best_two distance scan (pr_version g) tenant (e_vector e) d"
  from assms(1,2) obtain accept threshold where dec: "dec = pg_decide accept threshold ?rows"
    by (auto simp: pg_identify_def action_simps to_vector_literal_def decision_def split: option.splits if_splits)
  obtain s r rest where rows: "?rows = (s, r) # rest"
    using assms(2) by (cases ?rows) (auto simp: dec pg_decide_def decision_def)
  have "(s, r) \<in> set ?rows" by (simp add: rows)
  then have "(s, r) \<in> set (scan (identity_scores distance (pr_version g) tenant (e_vector e) d))"
    by (auto simp: best_two_def dest: in_set_takeD)
  then have "(s, r) \<in> set (identity_scores distance (pr_version g) tenant (e_vector e) d)"
    using assms(3) mset_eq_setD by metis
  moreover have "vid_registry_speaker_id dec = Some (ir_id r) \<and> vid_speaker_name dec = ir_name r"
    using assms(2) by (auto simp: dec rows pg_decide_def decision_def Let_def split: if_splits list.splits option.splits)
  ultimately show ?thesis using that by blast
qed

lemma scored_has_template:
  assumes "(s, r) \<in> set (identity_scores distance version tenant v d)"
  obtains x where "x \<in> set (vd_templates d)" "tr_identity x = ir_id r" "tr_tenant x = tenant"
proof -
  have "templates_for (ir_id r) tenant version d \<noteq> []"
    using assms by (auto simp: identity_scores_rows identity_score_def)
  then obtain x where "x \<in> set (templates_for (ir_id r) tenant version d)" using last_in_set by blast
  then show ?thesis using that by (auto simp: templates_for_def)
qed

text \<open>
  Tenants are apart as long as no identifier is used by two of them. Then identification names
  only identities of the caller's tenant that are not deleted, enrolling an identity of its own and
  deleting keep this so, and neither changes a row of another tenant; a deletion takes all templates
  of the identity with it.
\<close>

theorem pg_tenants_apart:
  assumes "owned d" and "\<forall>rows. mset (scan rows) = mset rows"
  shows "(\<forall>d' dec. pg_identify distance scan g check tenant e d = (d', Inr dec) \<longrightarrow> vid_status dec = VidEnrolled \<longrightarrow>
      (\<exists>r\<in>set (vd_identities d). ir_tenant r = tenant \<and> \<not> ir_deleted r
         \<and> vid_registry_speaker_id dec = Some (ir_id r) \<and> vid_speaker_name dec = ir_name r))
    \<and> (\<forall>d' rep. free_for tenant i d \<longrightarrow> pg_enroll fresh hash g check tenant i es name consent d = (d', Inr rep) \<longrightarrow>
      owned d' \<and> (\<forall>t. t \<noteq> tenant \<longrightarrow> rows_of_tenant t d' = rows_of_tenant t d))
    \<and> (\<forall>d'. pg_delete_identity check tenant i d = (d', Inr True) \<longrightarrow>
      owned d' \<and> (\<forall>t. t \<noteq> tenant \<longrightarrow> rows_of_tenant t d' = rows_of_tenant t d)
      \<and> \<not> pg_identity_exists tenant i d' \<and> (\<forall>x\<in>set (vd_templates d'). tr_identity x \<noteq> i))"
proof (intro conjI allI impI)
  fix d' dec assume "pg_identify distance scan g check tenant e d = (d', Inr dec)" "vid_status dec = VidEnrolled"
  then obtain s r where row: "(s, r) \<in> set (identity_scores distance (pr_version g) tenant (e_vector e) d)"
    and named: "vid_registry_speaker_id dec = Some (ir_id r)" "vid_speaker_name dec = ir_name r"
    using assms(2) by (rule pg_identify_enrolled)
  from row obtain x where x: "x \<in> set (vd_templates d)" "tr_identity x = ir_id r" "tr_tenant x = tenant"
    by (rule scored_has_template)
  have r: "r \<in> set (vd_identities d)" "\<not> ir_deleted r" using row by (auto simp: identity_scores_rows)
  then have "(tr_identity x, ir_tenant r) \<in> set (id_keys d)" using x(2) by (auto simp: id_keys_mem)
  then have "ir_tenant r = tenant" using owned_template[OF assms(1) x(1)] x(3) by simp
  then show "\<exists>r\<in>set (vd_identities d). ir_tenant r = tenant \<and> \<not> ir_deleted r
      \<and> vid_registry_speaker_id dec = Some (ir_id r) \<and> vid_speaker_name dec = ir_name r"
    using r named by blast
next
  fix d' assume del: "pg_delete_identity check tenant i d = (d', Inr True)"
  note gone = delete_owned[OF assms(1) del]
  show "\<not> pg_identity_exists tenant i d'" using gone(4) by (auto simp: pg_identity_exists_def id_keys_fst)
  show "\<forall>x\<in>set (vd_templates d'). tr_identity x \<noteq> i" using gone(3) by simp
  show "owned d'" by (rule gone(1))
  show "rows_of_tenant t d' = rows_of_tenant t d" if "t \<noteq> tenant" for t by (rule gone(2)[OF that])
next
  fix d' rep
  assume enroll: "free_for tenant i d" "pg_enroll fresh hash g check tenant i es name consent d = (d', Inr rep)"
  show "owned d'" by (rule enroll_owned(1)[OF assms(1) enroll])
  show "rows_of_tenant t d' = rows_of_tenant t d" if "t \<noteq> tenant" for t
    by (rule enroll_owned(2)[OF assms(1) enroll that])
qed

section \<open>One identifier, two tenants\<close>

lemma filter_single:
  assumes "distinct (map f xs)" and "r \<in> set xs" and "\<And>x. x \<in> set xs \<Longrightarrow> P x \<longleftrightarrow> f x = f r"
  shows "filter P xs = [r]"
  using assms
proof (induction xs)
  case (Cons x xs)
  show ?case
  proof (cases "x = r")
    case True
    have "f y \<noteq> f x" if "y \<in> set xs" for y using Cons.prems(1) that by (auto simp: image_iff)
    then have "filter P xs = []" using Cons.prems(3) True by (auto simp: filter_empty_conv)
    then show ?thesis using True Cons.prems(3) by simp
  next
    case False
    then have r: "r \<in> set xs" using Cons.prems(2) by simp
    then have "f x \<noteq> f r" using Cons.prems(1) by (metis distinct.simps(2) image_eqI list.set_map list.simps(9))
    then show ?thesis using Cons r by simp
  qed
qed simp

lemma foreign_enroll:
  assumes own: "owned d" and r: "r \<in> set (vd_identities d)" "ir_id r = i" "ir_tenant r \<noteq> b"
    and run: "pg_enroll fresh hash g check b i es name consent d = (d', Inr rep)"
  shows "vd_identities d' = vd_identities d"
    and "\<exists>xs. vd_templates d' = vd_templates d @ xs
      \<and> (\<forall>x\<in>set xs. tr_identity x = i \<and> tr_tenant x = b \<and> tr_vector x \<in> e_vector ` set (pg_accepted g es))"
    and "rep = pg_report g i es (templates_for i b (pr_version g) d')"
proof -
  from run obtain d1 d2 where up: "upsert_identity (enrolled_row b i name consent) d = (d1, Inr ())"
    and fold: "foldS (store_template fresh hash b i) (pg_accepted g es) () d1 = (d2, Inr ())"
    and d': "d' = d2\<lparr>vd_audit := vd_audit d2 @ [enroll_audit g b i es]\<rparr>"
    and rep: "rep = pg_report g i es (templates_for i b (pr_version g) d2)"
    unfolding pg_enroll_returns by blast
  have unique: "ir_tenant x \<noteq> b" if "x \<in> set (vd_identities d)" "ir_id x = i" for x
  proof -
    have "(i, ir_tenant x) \<in> set (id_keys d)" "(i, ir_tenant r) \<in> set (id_keys d)"
      using that r by (auto simp: id_keys_mem)
    then show ?thesis using own r(3) eq_key_imp_eq_value by (metis owned_def)
  qed
  let ?r = "enrolled_row b i name consent"
  let ?set = "\<lambda>x. if ir_id x = i \<and> ir_tenant x = b
     then x\<lparr>ir_name := ir_name ?r, ir_consent := ir_consent ?r\<rparr> else x"
  have row: "ir_id ?r = i" "ir_tenant ?r = b" by (simp_all add: enrolled_row_def)
  have "i \<in> ir_id ` set (vd_identities d)" using r by auto
  then have "d1 = d\<lparr>vd_identities := map ?set (vd_identities d)\<rparr>"
    using up by (simp add: upsert_identity_def updateS_def row)
  moreover have "map ?set (vd_identities d) = vd_identities d" using unique by (intro map_idI) auto
  ultimately have d1: "d1 = d" by simp
  from store_templates_grow[OF fold] show "vd_identities d' = vd_identities d"
    "\<exists>xs. vd_templates d' = vd_templates d @ xs
      \<and> (\<forall>x\<in>set xs. tr_identity x = i \<and> tr_tenant x = b \<and> tr_vector x \<in> e_vector ` set (pg_accepted g es))"
    by (auto simp: d' d1)
  show "rep = pg_report g i es (templates_for i b (pr_version g) d')" using rep by (simp add: d' templates_for_def)
qed

text \<open>The best score of one tenant that has the templates of one identity only.\<close>

lemma only_scored:
  assumes "distinct (map ir_id (vd_identities d))" and "r \<in> set (vd_identities d)" "\<not> ir_deleted r"
    and "\<forall>x\<in>set (vd_templates d). tr_tenant x = b \<longrightarrow> tr_identity x = ir_id r"
    and "identity_score distance v (templates_for (ir_id r) b version d) = Some s"
  shows "identity_scores distance version b v d = [(s, r)]"
proof -
  let ?score = "\<lambda>x. identity_score distance v (templates_for (ir_id x) b version d)"
  have none: "?score x = None" if "ir_id x \<noteq> ir_id r" for x
  proof -
    have "templates_for (ir_id x) b version d = []"
      using that assms(4) by (auto simp: templates_for_def filter_empty_conv)
    then show ?thesis by (simp add: identity_score_def)
  qed
  have same: "?score x = Some s" if "ir_id x = ir_id r" for x using that assms(5) by simp
  let ?rows = "filter (\<lambda>x. \<not> ir_deleted x) (vd_identities d)"
  have "List.map_filter (\<lambda>x. map_option (\<lambda>s. (s, x)) (?score x)) ?rows
      = map (\<lambda>x. (s, x)) (filter (\<lambda>x. ir_id x = ir_id r) ?rows)"
  proof -
    have "map_option (\<lambda>s. (s, x)) (?score x) = (if ir_id x = ir_id r then Some (s, x) else None)" for x
      using none[of x] same[of x] by (cases "ir_id x = ir_id r") auto
    then have row: "(\<lambda>x. map_option (\<lambda>s. (s, x)) (?score x)) = (\<lambda>x. if ir_id x = ir_id r then Some (s, x) else None)"
      by (rule ext)
    have "List.map_filter (\<lambda>x. if ir_id x = ir_id r then Some (s, x) else None) xs
        = map (\<lambda>x. (s, x)) (filter (\<lambda>x. ir_id x = ir_id r) xs)" for xs
      by (induction xs) (simp_all add: map_filter_simps)
    then show ?thesis unfolding row .
  qed
  moreover have "filter (\<lambda>x. ir_id x = ir_id r) ?rows = [r]"
    by (rule filter_single[where f = ir_id]) (use assms(1-3) in \<open>auto simp: distinct_map_filter\<close>)
  ultimately show ?thesis by (simp add: identity_scores_def)
qed

text \<open>
  One identifier used by two tenants. When a tenant enrolls a clip under an identifier that
  another tenant owns, the call reports success, but the identity does not exist for the caller.
  Its template is stored under the identity of the other tenant all the same: identifying the same
  voice gives the caller the display name of the other tenant's identity, and when the other tenant
  deletes its identity, the caller's templates go with it.
\<close>

theorem pg_shared_identifier:
  assumes "owned d" and "r \<in> set (vd_identities d)" "ir_id r = i" "ir_tenant r \<noteq> b" "\<not> ir_deleted r"
    and "\<forall>x\<in>set (vd_templates d). tr_tenant x \<noteq> b"
    and "pg_enroll fresh hash g check b i [e] name consent d = (d', Inr rep)" and "prototype_count rep = 1"
    and "pr_accept g = Some accept" and "pr_margin g = Some threshold"
    and "accept \<le> 1 - distance (e_vector e) (e_vector e)" and "\<forall>rows. mset (scan rows) = mset rows"
  shows "\<not> pg_identity_exists b i d'
    \<and> pg_identify distance scan g (Inr ()) b e d' = (d', Inr (decision VidEnrolled (Some i) (ir_name r)
         (Some (1 - distance (e_vector e) (e_vector e))) None ''accept''))
    \<and> (\<forall>d''. pg_delete_identity (Inr ()) (ir_tenant r) i d' = (d'', Inr True) \<longrightarrow>
         (\<forall>x\<in>set (vd_templates d''). tr_tenant x \<noteq> b))"
proof -
  note run = assms(7) and own = assms(1) and r = assms(2-5)
  note enrolled = foreign_enroll[OF own r(1,2,3) run]
  obtain xs where templates: "vd_templates d' = vd_templates d @ xs" and
    xs: "\<And>x. x \<in> set xs \<Longrightarrow> tr_identity x = i \<and> tr_tenant x = b \<and> tr_vector x \<in> e_vector ` set (pg_accepted g [e])"
    using enrolled(2) by blast
  have "length (templates_for i b (pr_version g) d') = 1"
    using assms(8) by (simp add: enrolled(3) pg_report_def Let_def)
  then obtain x where x: "templates_for i b (pr_version g) d' = [x]" by (auto simp: length_Suc_conv)
  have in_templates: "x \<in> set (vd_templates d')" and "tr_tenant x = b"
    using arg_cong[OF x, of set] by (auto simp: templates_for_def)
  then have "x \<in> set xs" using assms(6) by (auto simp: templates)
  with xs have vec: "tr_vector x \<in> e_vector ` set (pg_accepted g [e])" by blast
  then have accepted: "pg_clip_reasons g e = []" and vector: "tr_vector x = e_vector e"
    by (auto simp: pg_accepted_def split: if_splits)
  have version: "e_model_version e = pr_version g" using accepted by (simp add: pg_clip_reasons_def split: if_splits)
  from run obtain d1 d2 where fold: "foldS (store_template fresh hash b i) (pg_accepted g [e]) () d1 = (d2, Inr ())"
    unfolding pg_enroll_returns by blast
  have "length (e_vector e) = EMBEDDING_DIMENSION"
    using store_templates_grow[OF fold] accepted by (auto simp: pg_accepted_def)
  then have literal: "to_vector_literal e = Inr (e_vector e)" by (simp add: to_vector_literal_def)
  have distinct: "distinct (map ir_id (vd_identities d'))"
    using own by (simp add: owned_def enrolled(1) id_keys_def comp_def)
  have only: "\<forall>x\<in>set (vd_templates d'). tr_tenant x = b \<longrightarrow> tr_identity x = ir_id r"
    using xs assms(6) r(2) by (auto simp: templates)
  have "identity_score distance (e_vector e) (templates_for (ir_id r) b (pr_version g) d')
      = Some (1 - distance (e_vector e) (e_vector e))"
    using x r(2) by (simp add: identity_score_def vector)
  from only_scored[OF distinct _ r(4) only this] r(1) have scores:
    "identity_scores distance (pr_version g) b (e_vector e) d' = [(1 - distance (e_vector e) (e_vector e), r)]"
    by (simp add: enrolled(1))
  have scan: "scan [p] = [p]" for p using assms(12) by (metis mset_single_iff mset.simps(1,2))
  have identify: "pg_identify distance scan g (Inr ()) b e d' = (d', Inr (decision VidEnrolled (Some i) (ir_name r)
         (Some (1 - distance (e_vector e) (e_vector e))) None ''accept''))"
    using assms(9-11) r(2)
    by (simp add: pg_identify_def bind_pure version literal best_two_def scores scan returnS_def pg_decide_def)
  have unseen: "\<not> pg_identity_exists b i d'"
  proof
    assume "pg_identity_exists b i d'"
    then have "(i, b) \<in> set (id_keys d)" by (auto simp: pg_identity_exists_def enrolled(1) id_keys_mem)
    moreover have "(i, ir_tenant r) \<in> set (id_keys d)" using r by (auto simp: id_keys_mem)
    ultimately show False using own r(3) eq_key_imp_eq_value by (metis owned_def)
  qed
  have "tr_tenant x \<noteq> b" if "pg_delete_identity (Inr ()) (ir_tenant r) i d' = (d'', Inr True)"
    "x \<in> set (vd_templates d'')" for d'' x
    using that xs assms(6) by (auto simp: delete_returns templates)
  then show ?thesis using identify unseen by blast
qed

section \<open>Concrete tables\<close>

definition demo_voice :: speaker_embedding where
  "demo_voice = \<lparr>e_vector = 1 # replicate 191 0, e_model_version = ''m'', e_quality = 1,
     e_speech_duration_ms = 5000, e_origin = Clean, e_interval = None, e_source_track = None\<rparr>"

definition demo_pg :: pg_registry where
  "demo_pg = \<lparr>pr_version = ''m'', pr_accept = Some (1/2), pr_margin = Some (1/10), pr_minimum_clips = 1,
     pr_minimum_speech = 1000\<rparr>"

definition demo_identity :: identity_row where
  "demo_identity = \<lparr>ir_id = ''vid'', ir_tenant = ''acme'', ir_external = Some ''vid'', ir_name = Some ''Alice'',
     ir_consent = ''c'', ir_deleted = False\<rparr>"

definition demo_template :: "string \<Rightarrow> template_row" where
  "demo_template t = \<lparr>tr_id = ''0'', tr_identity = ''vid'', tr_tenant = t, tr_release = ''m'',
     tr_vector = 1 # replicate 191 0, tr_quality = 1, tr_speech = 5000, tr_hash = ''h''\<rparr>"

definition demo_voices :: "template_row list \<Rightarrow> voice_db" where
  "demo_voices ts = \<lparr>vd_identities = [demo_identity], vd_templates = ts, vd_audit = []\<rparr>"

lemma demo_voice_accepted: "pg_accepted demo_pg [demo_voice] = [demo_voice]"
  by (simp add: pg_accepted_def pg_clip_reasons_def demo_pg_def demo_voice_def MIN_CLIP_MS_def MAX_CLIP_MS_def)

lemma demo_voice_length: "length (e_vector demo_voice) = EMBEDDING_DIMENSION"
  by (simp add: demo_voice_def EMBEDDING_DIMENSION_def)

lemma demo_store:
  "store_template (\<lambda>_. ''0'') (\<lambda>_ _. ''h'') t ''vid'' demo_voice () (demo_voices []) = (demo_voices [demo_template t], Inr ())"
  by (simp add: store_template_def bind_pure to_vector_literal_def demo_voice_length insert_template_def updateS_def
      demo_voices_def demo_identity_def) (simp add: demo_voice_def demo_template_def)

lemma demo_enroll:
  "\<exists>d' rep. pg_enroll (\<lambda>_. ''0'') (\<lambda>_ _. ''h'') demo_pg (Inr ()) t ''vid'' [demo_voice] (Some ''Alice'') (Some ''c'')
      (demo_voices []) = (d', Inr rep) \<and> prototype_count rep = 1"
proof -
  have "upsert_identity (enrolled_row t ''vid'' (Some ''Alice'') (Some ''c'')) (demo_voices []) = (demo_voices [], Inr ())"
    by (simp add: upsert_identity_def updateS_def enrolled_row_def demo_voices_def demo_identity_def)
  moreover have "foldS (store_template (\<lambda>_. ''0'') (\<lambda>_ _. ''h'') t ''vid'') [demo_voice] () (demo_voices [])
      = (demo_voices [demo_template t], Inr ())" by (simp add: bindS_def demo_store returnS_def)
  moreover have "templates_for ''vid'' t (pr_version demo_pg) (demo_voices [demo_template t]) = [demo_template t]"
    by (simp add: templates_for_def demo_voices_def demo_template_def demo_pg_def)
  ultimately show ?thesis
    unfolding pg_enroll_returns demo_voice_accepted by (auto simp: pg_report_def Let_def intro!: exI)
qed

lemma demo_voices_owned: "owned (demo_voices [])" "owned (demo_voices [demo_template ''acme''])"
  by (simp_all add: owned_def id_keys_def demo_voices_def demo_identity_def demo_template_def)


theorem pg_enroll_again_witness:
  "\<exists>d1 d2 rep. pg_enroll (\<lambda>_. ''9'') (\<lambda>_ _. ''h'') demo_pg (Inr ()) ''acme'' ''vid'' [demo_voice] (Some ''Alice'') (Some ''c'') d1
      = (d2, Inr rep) \<and> vd_templates d2 = vd_templates d1 \<and> prototype_count rep = 1"
proof -
  obtain d1 rep where "pg_enroll (\<lambda>_. ''0'') (\<lambda>_ _. ''h'') demo_pg (Inr ()) ''acme'' ''vid'' [demo_voice]
      (Some ''Alice'') (Some ''c'') (demo_voices []) = (d1, Inr rep)" "prototype_count rep = 1" using demo_enroll by blast
  with pg_enroll_again[OF this(1), where fresh' = "\<lambda>_. ''9''"] show ?thesis by blast
qed

theorem pg_tenants_apart_witness:
  "\<exists>d'. pg_delete_identity (Inr ()) ''acme'' ''vid'' (demo_voices [demo_template ''acme'']) = (d', Inr True)
     \<and> \<not> pg_identity_exists ''acme'' ''vid'' d'"
proof -
  let ?d = "demo_voices [demo_template ''acme'']"
  have "(''vid'', ''acme'') \<in> set (id_keys ?d)" by (simp add: id_keys_def demo_voices_def demo_identity_def)
  then obtain d' where "pg_delete_identity (Inr ()) ''acme'' ''vid'' ?d = (d', Inr True)" by (simp add: delete_returns)
  with pg_tenants_apart[OF demo_voices_owned(2), where scan = rev] show ?thesis by fastforce
qed

theorem pg_shared_identifier_witness:
  "\<exists>d'. \<not> pg_identity_exists ''umbrella'' ''vid'' d'
    \<and> pg_identify (\<lambda>_ _. 0) rev demo_pg (Inr ()) ''umbrella'' demo_voice d'
       = (d', Inr (decision VidEnrolled (Some ''vid'') (Some ''Alice'') (Some 1) None ''accept''))"
proof -
  obtain d' rep where run: "pg_enroll (\<lambda>_. ''0'') (\<lambda>_ _. ''h'') demo_pg (Inr ()) ''umbrella'' ''vid'' [demo_voice]
      (Some ''Alice'') (Some ''c'') (demo_voices []) = (d', Inr rep)" "prototype_count rep = 1" using demo_enroll by blast
  have "demo_identity \<in> set (vd_identities (demo_voices []))" "ir_id demo_identity = ''vid''"
    "ir_tenant demo_identity \<noteq> ''umbrella''" "\<not> ir_deleted demo_identity" "ir_name demo_identity = Some ''Alice''"
    "\<forall>x\<in>set (vd_templates (demo_voices [])). tr_tenant x \<noteq> ''umbrella''"
    "pr_accept demo_pg = Some (1/2)" "pr_margin demo_pg = Some (1/10)"
    by (simp_all add: demo_voices_def demo_identity_def demo_pg_def)
  note demo = this
  show ?thesis
    using pg_shared_identifier[OF demo_voices_owned(1) demo(1,2,3,4,6) run demo(7,8), where distance = "\<lambda>_ _. 0" and scan = rev]
      demo(5) by auto
qed

end
