(* ===== verification/ObjectStorage.thy ===== *)
theory ObjectStorage
  imports MemoryStore Effects PcmAudio
begin

text \<open>
  The object store over an S3 bucket of \<^verbatim>\<open>src/src/sastt/adapters/storage/s3.py\<close>, and what it promises:
  objects are read back, and tenants whose names contain no slash cannot reach each other's objects.
  The S3 client is a parameter: a record of its calls, with the documented effect of each on a map
  from bucket and key to bytes as hypothesis.
\<close>

section \<open>Keys\<close>

text \<open>\<open>key.strip("/")\<close> and \<open>key.split("/")\<close>.\<close>

definition strip_slashes :: "string \<Rightarrow> string" where
  "strip_slashes s = rev (dropWhile (\<lambda>c. c = CHR ''/'') (rev (dropWhile (\<lambda>c. c = CHR ''/'') s)))"

fun split_slashes :: "string \<Rightarrow> string list" where
  "split_slashes [] = [[]]"
| "split_slashes (c # s) =
     (if c = CHR ''/'' then [] # split_slashes s
      else (case split_slashes s of [] \<Rightarrow> [[c]] | p # ps \<Rightarrow> (c # p) # ps))"

definition safe_key :: "string \<Rightarrow> string res" where
  "safe_key key =
     (let normalized = strip_slashes key in
      if normalized = [] \<or> ''..'' \<in> set (split_slashes normalized) then Inl (Sastt PlainSasttError)
      else Inr normalized)"

section \<open>The store\<close>

record 's s3_client =
  sc_put :: "string \<Rightarrow> string \<Rightarrow> bytes \<Rightarrow> ('s, unit) action"
  sc_get :: "string \<Rightarrow> string \<Rightarrow> ('s, bytes) action"
  sc_delete :: "string \<Rightarrow> string \<Rightarrow> ('s, unit) action"

record 's s3_store =
  s3_client :: "'s s3_client"
  s3_bucket :: string
  s3_prefix :: string

definition s3_key :: "'s s3_store \<Rightarrow> string \<Rightarrow> string \<Rightarrow> string res" where
  "s3_key st tenant key =
     (if tenant = [] then Inl (Sastt TenantAccessDeniedError)
      else bindR (safe_key (s3_prefix st)) (\<lambda>p.
           bindR (safe_key tenant) (\<lambda>t.
           bindR (safe_key key) (\<lambda>k. Inr (p @ ''/'' @ t @ ''/'' @ k)))))"

text \<open>\<open>try: ... except Exception as exc: raise ... from exc\<close>.\<close>

definition raising :: "exn \<Rightarrow> ('s, 'a) action \<Rightarrow> ('s, 'a) action" where
  "raising e m s = (case m s of (s', Inl _) \<Rightarrow> (s', Inl e) | (s', Inr x) \<Rightarrow> (s', Inr x))"

definition s3_put :: "'s s3_store \<Rightarrow> string \<Rightarrow> string \<Rightarrow> bytes \<Rightarrow> ('s, string) action" where
  "s3_put st tenant key payload =
     bindS (liftS (s3_key st tenant key)) (\<lambda>k.
     bindS (raising (Sastt PlainSasttError) (sc_put (s3_client st) (s3_bucket st) k payload)) (\<lambda>_.
       returnS (''s3://'' @ s3_bucket st @ ''/'' @ k)))"

definition s3_get :: "'s s3_store \<Rightarrow> string \<Rightarrow> string \<Rightarrow> ('s, bytes) action" where
  "s3_get st tenant key =
     raising (Sastt TenantAccessDeniedError)
       (bindS (liftS (s3_key st tenant key)) (sc_get (s3_client st) (s3_bucket st)))"

definition s3_delete :: "'s s3_store \<Rightarrow> string \<Rightarrow> string \<Rightarrow> ('s, bool) action" where
  "s3_delete st tenant key =
     bindS (raising (Sastt TenantAccessDeniedError)
       (bindS (liftS (s3_key st tenant key)) (sc_delete (s3_client st) (s3_bucket st)))) (\<lambda>_.
       returnS True)"

section \<open>The bucket\<close>

text \<open>
  What S3 documents: a call that returns has had its effect, a call that raises may have had it, and
  deleting an object that does not exist succeeds.
\<close>

type_synonym objects = "string \<times> string \<Rightarrow> bytes option"

definition s3_laws :: "'s s3_client \<Rightarrow> ('s \<Rightarrow> objects) \<Rightarrow> bool" where
  "s3_laws c view \<longleftrightarrow>
     (\<forall>b k p s s' r. sc_put c b k p s = (s', r) \<longrightarrow>
        (view s' = (view s)((b, k) \<mapsto> p) \<or> r \<noteq> Inr () \<and> view s' = view s))
   \<and> (\<forall>b k s s' r. sc_get c b k s = (s', r) \<longrightarrow> view s' = view s
        \<and> (\<forall>p. r = Inr p \<longrightarrow> view s (b, k) = Some p))
   \<and> (\<forall>b k s s' r. sc_delete c b k s = (s', r) \<longrightarrow>
        (view s' = (view s)((b, k) := None) \<or> r \<noteq> Inr () \<and> view s' = view s))"

text \<open>A bucket in which every call succeeds when the object exists.\<close>

definition map_client :: "objects s3_client" where
  "map_client = \<lparr>sc_put = (\<lambda>b k p m. (m((b, k) \<mapsto> p), Inr ())),
     sc_get = (\<lambda>b k m. (m, case m (b, k) of None \<Rightarrow> Inl ClientError | Some p \<Rightarrow> Inr p)),
     sc_delete = (\<lambda>b k m. (m((b, k) := None), Inr ()))\<rparr>"

lemma map_client_laws: "s3_laws map_client (\<lambda>m. m)"
  by (auto simp: s3_laws_def map_client_def split: option.splits)

section \<open>Keys of tenants\<close>

lemma raising_returns: "raising e m s = (s', Inr x) \<longleftrightarrow> m s = (s', Inr x)"
  by (auto simp: raising_def split: prod.splits sum.splits)

lemma strip_no_slash: "CHR ''/'' \<notin> set s \<Longrightarrow> strip_slashes s = s"
proof -
  have drop: "dropWhile (\<lambda>c. c = CHR ''/'') s = s" if "CHR ''/'' \<notin> set s" for s using that by (cases s) auto
  assume "CHR ''/'' \<notin> set s"
  then show ?thesis using drop[of s] drop[of "rev s"] by (simp add: strip_slashes_def)
qed

lemma safe_key_returns: "safe_key k = Inr n \<Longrightarrow> n = strip_slashes k"
  by (auto simp: safe_key_def Let_def split: if_splits)

lemma first_part_unique:
  assumes "a @ c # x = b @ c # y" and "c \<notin> set a" and "c \<notin> set b"
  shows "a = b \<and> x = y"
  using assms by (induction a arbitrary: b) (auto simp: Cons_eq_append_conv append_eq_Cons_conv)

lemma s3_key_returns:
  assumes "s3_key st tenant key = Inr x"
  shows "x = strip_slashes (s3_prefix st) @ ''/'' @ strip_slashes tenant @ ''/'' @ strip_slashes key"
  using assms by (auto simp: s3_key_def bindR_eq_Inr dest!: safe_key_returns split: if_splits)

lemma s3_keys_apart:
  assumes "s3_key st t k = Inr x" and "s3_key st t' k' = Inr x"
    and "CHR ''/'' \<notin> set t" and "CHR ''/'' \<notin> set t'"
  shows "t = t' \<and> strip_slashes k = strip_slashes k'"
proof -
  have "t @ CHR ''/'' # strip_slashes k = t' @ CHR ''/'' # strip_slashes k'"
    using s3_key_returns[OF assms(1)] s3_key_returns[OF assms(2)] strip_no_slash assms(3,4) by simp
  from first_part_unique[OF this assms(3,4)] show ?thesis .
qed


section \<open>What the store promises\<close>

lemma s3_lawsD:
  assumes "s3_laws c view"
  shows "sc_put c b k p s = (s', r) \<Longrightarrow> view s' = (view s)((b, k) \<mapsto> p) \<or> r \<noteq> Inr () \<and> view s' = view s"
    and "sc_get c b k s = (s', q) \<Longrightarrow> view s' = view s \<and> (\<forall>p. q = Inr p \<longrightarrow> view s (b, k) = Some p)"
    and "sc_delete c b k s = (s', r) \<Longrightarrow> view s' = (view s)((b, k) := None) \<or> r \<noteq> Inr () \<and> view s' = view s"
  using assms by (simp_all add: s3_laws_def)

lemma s3_put_returns:
  assumes laws: "s3_laws (s3_client st) view" and run: "s3_put st t k p s = (s', Inr url)"
  obtains x where "s3_key st t k = Inr x" "view s' = (view s)((s3_bucket st, x) \<mapsto> p)"
    "url = ''s3://'' @ s3_bucket st @ ''/'' @ x"
proof -
  from run obtain x where x: "s3_key st t k = Inr x" "url = ''s3://'' @ s3_bucket st @ ''/'' @ x"
    and put: "sc_put (s3_client st) (s3_bucket st) x p s = (s', Inr ())"
    by (auto simp: s3_put_def action_simps raising_returns)
  have "view s' = (view s)((s3_bucket st, x) \<mapsto> p)" using s3_lawsD(1)[OF laws put] by simp
  then show ?thesis using that x by simp
qed

lemma s3_get_returns:
  assumes laws: "s3_laws (s3_client st) view" and run: "s3_get st t k s = (s', Inr p)"
  obtains x where "s3_key st t k = Inr x" "view s (s3_bucket st, x) = Some p" "view s' = view s"
proof -
  from run obtain x where x: "s3_key st t k = Inr x"
    and got: "sc_get (s3_client st) (s3_bucket st) x s = (s', Inr p)"
    by (auto simp: s3_get_def action_simps raising_returns)
  show ?thesis using that[OF x] s3_lawsD(2)[OF laws got] by simp
qed

lemma raising_state: "fst (raising e m s) = fst (m s)"
  by (simp add: raising_def split: prod.split sum.split)

lemma s3_effect:
  assumes laws: "s3_laws (s3_client st) view"
    and run: "s3_put st t k p s = (s', r) \<or> s3_delete st t k s = (s', r')"
  shows "view s' = view s \<or> (\<exists>x v. s3_key st t k = Inr x \<and> view s' = (view s)((s3_bucket st, x) := v))"
proof (cases "s3_key st t k")
  case (Inl e)
  then have "fst (s3_put st t k p s) = s" "fst (s3_delete st t k s) = s"
    by (simp_all add: s3_put_def s3_delete_def bind_raise bind_ignore raising_state)
  then have "s' = s" using run by auto
  then show ?thesis by simp
next
  case (Inr x)
  let ?put = "sc_put (s3_client st) (s3_bucket st) x p s" and ?del = "sc_delete (s3_client st) (s3_bucket st) x s"
  have "fst (s3_put st t k p s) = fst ?put" "fst (s3_delete st t k s) = fst ?del"
    by (simp_all add: s3_put_def s3_delete_def Inr bind_lift bind_ignore raising_state)
  then have "s' = fst ?put \<or> s' = fst ?del" using run by auto
  then show ?thesis
  proof
    assume "s' = fst ?put"
    then show ?thesis using s3_lawsD(1)[OF laws surjective_pairing, of "s3_bucket st" x p s] Inr by auto
  next
    assume "s' = fst ?del"
    then show ?thesis using s3_lawsD(3)[OF laws surjective_pairing, of "s3_bucket st" x s] Inr by auto
  qed
qed

lemma s3_apart:
  assumes "s3_laws (s3_client st) view" and "CHR ''/'' \<notin> set t" and "CHR ''/'' \<notin> set t'" and "t \<noteq> t'"
  shows "(s3_put st t k p s = (s', r) \<or> s3_delete st t k s = (s', b)) \<Longrightarrow> s3_key st t' k' = Inr x' \<Longrightarrow>
      view s' (s3_bucket st, x') = view s (s3_bucket st, x')"
    and "s3_put st t k p s = (s', Inr url) \<Longrightarrow> strip_slashes k'' = strip_slashes k \<Longrightarrow>
      s3_get st t k'' s' = (s'', Inr q) \<Longrightarrow> q = p \<and> view s'' = view s'"
proof -
  assume run: "s3_put st t k p s = (s', r) \<or> s3_delete st t k s = (s', b)" and x': "s3_key st t' k' = Inr x'"
  have "x \<noteq> x'" if "s3_key st t k = Inr x" for x
    using s3_keys_apart[OF that _ assms(2,3)] x' assms(4) by blast
  then show "view s' (s3_bucket st, x') = view s (s3_bucket st, x')"
    using s3_effect[OF assms(1) run] by auto
next
  assume "s3_put st t k p s = (s', Inr url)" and key: "strip_slashes k'' = strip_slashes k"
    and get: "s3_get st t k'' s' = (s'', Inr q)"
  then obtain x where x: "s3_key st t k = Inr x" "view s' = (view s)((s3_bucket st, x) \<mapsto> p)"
    using assms(1) by (blast elim: s3_put_returns)
  from assms(1) get obtain y where y: "s3_key st t k'' = Inr y" "view s' (s3_bucket st, y) = Some q" "view s'' = view s'"
    by (rule s3_get_returns)
  have "x = y" using s3_key_returns[OF x(1)] s3_key_returns[OF y(1)] key by simp
  then show "q = p \<and> view s'' = view s'" using x y by simp
qed

text \<open>
  Objects of tenants whose names contain no slash are safe. What a call to store or delete of one
  tenant does, whether it returns or raises, changes nothing that another tenant reads; an object
  that was stored is what its tenant reads under every spelling of its key with slashes around it;
  and reading changes nothing.
\<close>

theorem s3_tenants_apart:
  assumes "s3_laws (s3_client st) view" and "CHR ''/'' \<notin> set t" and "CHR ''/'' \<notin> set t'" and "t \<noteq> t'"
  shows "(\<forall>s' r b k' x'. s3_put st t k p s = (s', r) \<or> s3_delete st t k s = (s', b) \<longrightarrow>
      s3_key st t' k' = Inr x' \<longrightarrow> view s' (s3_bucket st, x') = view s (s3_bucket st, x'))
    \<and> (\<forall>s' url k' s'' q. s3_put st t k p s = (s', Inr url) \<longrightarrow> strip_slashes k' = strip_slashes k \<longrightarrow>
      s3_get st t k' s' = (s'', Inr q) \<longrightarrow> q = p \<and> view s'' = view s')"
  using s3_apart[OF assms] by blast

text \<open>
  Names with slashes break the separation. Every object that a tenant whose name is of the form
  \<open>a/b\<close> stores under a key \<open>c\<close> is read by the tenant \<open>a\<close> under the key \<open>b/c\<close>: both spell the same
  object of the bucket.
\<close>

theorem s3_slash_tenant:
  assumes "safe_key (s3_prefix st) = Inr prefix"
    and "a \<noteq> []" "b \<noteq> []" "c \<noteq> []" "CHR ''/'' \<notin> set (a @ b @ c)" "a \<noteq> ''..''" "b \<noteq> ''..''" "c \<noteq> ''..''"
  shows "s3_key st (a @ ''/'' @ b) c = s3_key st a (b @ ''/'' @ c)
    \<and> (\<exists>x. s3_key st a (b @ ''/'' @ c) = Inr x)"
proof -
  have parts: "split_slashes u = [u]" if "CHR ''/'' \<notin> set u" for u using that by (induction u) auto
  have two: "split_slashes (u @ CHR ''/'' # v) = [u, v]" if "CHR ''/'' \<notin> set (u @ v)" for u v
    using that by (induction u) (auto simp: parts)
  have strip: "strip_slashes (u @ CHR ''/'' # v) = u @ CHR ''/'' # v"
    if "u \<noteq> []" "v \<noteq> []" "CHR ''/'' \<notin> set (u @ v)" for u v
    using that by (cases u; cases v rule: rev_cases) (auto simp: strip_slashes_def)
  have one: "safe_key u = Inr u" if "u \<noteq> []" "CHR ''/'' \<notin> set u" "u \<noteq> ''..''" for u
    using that by (simp add: safe_key_def Let_def strip_no_slash parts)
  have pair: "safe_key (u @ CHR ''/'' # v) = Inr (u @ CHR ''/'' # v)"
    if "u \<noteq> []" "v \<noteq> []" "CHR ''/'' \<notin> set (u @ v)" "u \<noteq> ''..''" "v \<noteq> ''..''" for u v
    using that by (simp add: safe_key_def Let_def strip two)
  show ?thesis
    using assms one[of a] one[of c] pair[of a b] pair[of b c] by (auto simp: s3_key_def)
qed

text \<open>Concrete stores.\<close>

definition demo_store :: "objects s3_store" where
  "demo_store = \<lparr>s3_client = map_client, s3_bucket = ''audio'', s3_prefix = ''sastt''\<rparr>"

lemma demo_store_prefix: "safe_key (s3_prefix demo_store) = Inr ''sastt''"
  by (simp add: demo_store_def) code_simp

theorem s3_tenants_apart_witness:
  "fst (s3_put demo_store ''acme'' ''k'' [1] Map.empty) (''audio'', ''sastt/umbrella/k'') = None"
proof -
  have "s3_key demo_store ''umbrella'' ''k'' = Inr ''sastt/umbrella/k''"
    by (simp add: s3_key_def demo_store_prefix) code_simp
  moreover have "s3_laws (s3_client demo_store) (\<lambda>m. m)" by (simp add: demo_store_def map_client_laws)
  note s3_tenants_apart[OF this, of "''acme''" "''umbrella''" "''k''" "[1]" Map.empty, THEN conjunct1]
  moreover obtain m r where "s3_put demo_store ''acme'' ''k'' [1] Map.empty = (m, r)" by (meson surj_pair)
  ultimately show ?thesis by (simp add: demo_store_def)
qed

theorem s3_slash_tenant_witness:
  "s3_key demo_store ''acme/jobs'' ''input'' = s3_key demo_store ''acme'' ''jobs/input''"
  using s3_slash_tenant[OF demo_store_prefix, of "''acme''" "''jobs''" "''input''"] by simp

end
