(* ===== verification/ApiText.thy ===== *)
theory ApiText
  imports PcmAudio JsonFields Transcript Config
begin

text \<open>
  The functions of \<^verbatim>\<open>src/src/sastt/api/http.py\<close> that do not touch the state of the service: WAV
  files of demo scenarios, the media type of an upload, the language of a request, the number of
  speakers and the text of a stored result, and the status of an error.
\<close>

section \<open>Audio\<close>

text \<open>The demo file has the layout and the samples of the files of the final pass.\<close>

definition scenario_wav :: "sample list \<Rightarrow> int \<Rightarrow> bytes res" where
  "scenario_wav xs rate = to_wav xs rate"

definition starts_with :: "bytes \<Rightarrow> bytes \<Rightarrow> bool" where
  "starts_with signature payload \<longleftrightarrow> take (length signature) payload = signature"

definition AUDIO_SIGNATURES :: "(bytes \<times> string) list" where
  "AUDIO_SIGNATURES = [(ascii ''RIFF'', ''audio/wav''), (ascii ''fLaC'', ''audio/flac''),
     (ascii ''OggS'', ''audio/ogg''), (ascii ''ID3'', ''audio/mpeg'')]"

definition audio_media_type :: "bytes \<Rightarrow> string" where
  "audio_media_type payload =
     (case List.find (\<lambda>(signature, media). starts_with signature payload) AUDIO_SIGNATURES of
        Some (signature, media) \<Rightarrow> media
      | None \<Rightarrow>
          if take 4 (drop 4 payload) = ascii ''ftyp'' then ''audio/mp4''
          else if take 2 payload \<in> {[255, 251], [255, 243], [255, 242], [255, 227]} then ''audio/mpeg''
          else ''application/octet-stream'')"

text \<open>The loop over the chunks of a RIFF file; \<open>rest\<close> is what the stream still holds.\<close>

function data_chunk :: "bytes \<Rightarrow> bytes \<Rightarrow> bytes res" where
  "data_chunk payload rest =
     (if rest = [] then Inr payload
      else if length rest < 8 then Inl StructError
      else let name = take 4 rest; size = nat (le_value (take 4 (drop 4 rest))) in
        if name = ascii ''data'' then Inr (take size (drop 8 rest))
        else data_chunk payload (drop (8 + size) rest))"
  by pat_completeness auto

termination by (relation "measure (\<lambda>(payload, rest). length rest)") auto

declare data_chunk.simps [simp del]

definition strip_wav_header :: "bytes \<Rightarrow> bytes res" where
  "strip_wav_header payload =
     (if \<not> starts_with (ascii ''RIFF'') payload then Inr payload else data_chunk payload (drop 12 payload))"

section \<open>Requests\<close>

definition is_lower :: "char \<Rightarrow> bool" where
  "is_lower c \<longleftrightarrow> (97::nat) \<le> of_char c \<and> of_char c \<le> (122::nat)"

definition is_letter :: "char \<Rightarrow> bool" where
  "is_letter c \<longleftrightarrow> is_lower c \<or> (65::nat) \<le> of_char c \<and> of_char c \<le> (90::nat)"

text \<open>The regular expression \<open>[a-z]{2,3}(?:-[A-Za-z]{2,4})?\<close>.\<close>

definition is_language_code :: "string \<Rightarrow> bool" where
  "is_language_code s \<longleftrightarrow>
     (let base = takeWhile (\<lambda>c. c \<noteq> CHR ''-'') s; region = dropWhile (\<lambda>c. c \<noteq> CHR ''-'') s in
      length base \<in> {2, 3} \<and> list_all is_lower base
      \<and> (region = [] \<or> length (tl region) \<in> {2, 3, 4} \<and> list_all is_letter (tl region)))"

definition requested_asr_language :: "json option \<Rightarrow> string option res" where
  "requested_asr_language v =
     (case v of
        None \<Rightarrow> Inr None
      | Some JNull \<Rightarrow> Inr None
      | Some (JStr s) \<Rightarrow>
          if s = ''auto'' then Inr None
          else if is_language_code s then Inr (Some s) else Inl (HttpError 400)
      | _ \<Rightarrow> Inl (HttpError 400))"

definition config_with_asr_language :: "config \<Rightarrow> string option \<Rightarrow> config" where
  "config_with_asr_language c language = c\<lparr>asr := (asr c)\<lparr>rec_language := language\<rparr>\<rparr>"

text \<open>The status of the response for a domain error.\<close>

definition error_status :: "sastt_error \<Rightarrow> int" where
  "error_status e =
     (if code_of e = Some MODEL_NOT_READY then 503
      else if code_of e = Some QUEUE_OVERLOADED then 429 else 400)"

section \<open>Stored results\<close>

text \<open>\<open>str(v)\<close>; \<open>show\<close> is the text of values that are no text.\<close>

definition text_of :: "(json \<Rightarrow> string) \<Rightarrow> json \<Rightarrow> string" where
  "text_of show v = (case v of JStr s \<Rightarrow> s | _ \<Rightarrow> show v)"

definition counted_speaker :: "(json \<Rightarrow> string) \<Rightarrow> (string \<times> json) list \<Rightarrow> string option" where
  "counted_speaker show seg =
     (case map_of seg ''session_speaker_id'' of
        None \<Rightarrow> None
      | Some v \<Rightarrow>
          if json_truth v \<and> map_of seg ''identity_status'' \<noteq> Some (JStr ''unknown'')
          then Some (text_of show v) else None)"

definition count_session_speakers :: "(json \<Rightarrow> string) \<Rightarrow> (string \<times> json) list list \<Rightarrow> nat" where
  "count_session_speakers show segs = card (set (List.map_filter (counted_speaker show) segs))"

text \<open>\<open>f"{ms / 1000:0.3f}"\<close> for a time that is not negative.\<close>

definition seconds_text :: "int \<Rightarrow> string" where
  "seconds_text ms = str_int (ms div 1000) @ ''.'' @ zero_pad 3 (nat (ms mod 1000))"

definition public_key :: "(string \<times> json) list \<Rightarrow> (int \<times> string) res" where
  "public_key seg =
     bindR (field seg ''start_ms'' as_int) (\<lambda>start.
     bindR (field_or seg ''session_speaker_id'' [] as_str) (\<lambda>speaker. Inr (start, speaker)))"

definition public_line :: "(json \<Rightarrow> string) \<Rightarrow> (string \<times> json) list \<Rightarrow> string res" where
  "public_line show seg =
     bindR (field seg ''start_ms'' as_int) (\<lambda>start.
     bindR (field seg ''end_ms'' as_int) (\<lambda>stop.
     bindR (field seg ''speaker_label'' Inr) (\<lambda>label.
     bindR (field seg ''text'' Inr) (\<lambda>txt.
       Inr (seconds_text start @ EN_DASH @ seconds_text stop @ '' '' @ EM_DASH @ '' ''
            @ text_of show label @ '': '' @ text_of show txt)))))"

definition render_transcript_from_public_segments ::
  "(json \<Rightarrow> string) \<Rightarrow> (string \<times> json) list list \<Rightarrow> string res" where
  "render_transcript_from_public_segments show segs =
     bindR (mapR (\<lambda>seg. bindR (public_key seg) (\<lambda>k. Inr (k, seg))) segs) (\<lambda>keyed.
     bindR (mapR (\<lambda>(k, seg). public_line show seg) (sort_key fst keyed)) (\<lambda>lines.
       Inr (join [CHR 10] lines)))"

end
