(* ===== verification/JobApi.thy ===== *)
theory JobApi
  imports ApiText TaskQueue Database ObjectStorage VoiceRegistry Streaming
begin

text \<open>
  The state of the service and its endpoints for jobs, identities and sessions of
  \<^verbatim>\<open>src/src/sastt/api/http.py\<close>, with either way to run a job: in the process, or by queueing a task for
  a worker. The stores are records of their operations, so that the same endpoints run over the
  stores in memory and over PostgreSQL and S3; the queue is that of \<^verbatim>\<open>adapters/queue/redis_queue.py\<close>.
  The models, the demo scenarios, base64, SHA-256, the preview encoder and \<open>str\<close> of values that are no
  text are functions of the record \<open>api\<close>. Probes, static pages and metrics are left out.
\<close>

section \<open>Stores\<close>

text \<open>
  \<open>jp_share\<close>: what changing a record that the store returned does to the store. The store in memory
  hands out the record it keeps, a table is not changed.
\<close>

record 'j job_port =
  jp_create :: "string \<Rightarrow> string \<Rightarrow> string \<Rightarrow> string \<Rightarrow> string option \<Rightarrow> ('j, job \<times> bool) action"
  jp_get :: "string \<Rightarrow> string \<Rightarrow> ('j, job) action"
  jp_update :: "string \<Rightarrow> string \<Rightarrow> job_state \<Rightarrow> ('j, job) action"
  jp_load :: "(string \<Rightarrow> string \<Rightarrow> ('j, (string \<times> json) list list) action) option"
  jp_share :: "job \<Rightarrow> 'j \<Rightarrow> 'j"

record 'o object_port =
  op_put :: "string \<Rightarrow> string \<Rightarrow> bytes \<Rightarrow> ('o, string) action"
  op_get :: "string \<Rightarrow> string \<Rightarrow> ('o, bytes) action"
  op_delete :: "string \<Rightarrow> string \<Rightarrow> ('o, bool) action"
  op_memory :: bool

definition memory_jobs :: "job_store job_port" where
  "memory_jobs = \<lparr>
     jp_create = (\<lambda>i t k h c. updateS (\<lambda>s. bindR (create_or_get i t k h c s) (\<lambda>(s', j, new). Inr (s', j, new)))),
     jp_get = (\<lambda>t i s. (s, job_get t i s)),
     jp_update = (\<lambda>t i st. updateS (update_state t i st)),
     jp_load = None,
     jp_share = (\<lambda>j. put_job j (job_id j))\<rparr>"

definition table_jobs ::
  "(string \<Rightarrow> 'k::linorder) \<Rightarrow> (segment_row list \<Rightarrow> segment_row list) \<Rightarrow> db job_port" where
  "table_jobs collate scan = \<lparr>
     jp_create = pg_create_or_get, jp_get = pg_get, jp_update = pg_update_state,
     jp_load = Some (load_result collate scan), jp_share = (\<lambda>j d. d)\<rparr>"

definition memory_objects :: "(bytes object_store) object_port" where
  "memory_objects = \<lparr>
     op_put = (\<lambda>t k p. updateS (\<lambda>s. Inr (object_put t k p s))),
     op_get = (\<lambda>t k s. (s, object_get t k s)),
     op_delete = (\<lambda>t k. updateS (\<lambda>s. Inr (object_delete t k s))),
     op_memory = True\<rparr>"

definition bucket_objects :: "'s s3_store \<Rightarrow> 's object_port" where
  "bucket_objects st = \<lparr>op_put = s3_put st, op_get = s3_get st, op_delete = s3_delete st, op_memory = False\<rparr>"

section \<open>State\<close>

record identity_metadata =
  im_display_name :: string
  im_consent_ref :: "string option"

text \<open>\<open>as_audio_keys\<close> and \<open>as_identities\<close> are dictionaries whose order matters.\<close>

record ('j, 'o, 'q) app_state =
  as_jobs :: 'j
  as_objects :: 'o
  as_queue :: 'q
  as_registry :: voice_registry
  as_identities :: "((string \<times> string) \<times> identity_metadata) list"
  as_results :: "string \<Rightarrow> offline_result option"
  as_scenarios :: "string \<Rightarrow> string option"
  as_audio_keys :: "(string \<times> string \<times> string) list"
  as_previews :: "(string \<times> bytes) list"
  as_languages :: "string \<Rightarrow> string option option"
  as_sessions :: "string \<Rightarrow> (stream \<times> stream_session) option"

record ('j, 'o, 'q, 'c) api =
  api_config :: config
  api_config_version :: "config \<Rightarrow> string"
  api_engine :: string
  api_adapters :: "'c option \<Rightarrow> ports res"
  api_jobs :: "'j job_port"
  api_objects :: "'o object_port"
  api_queue :: "'q queue option"
  api_scenario :: "string \<Rightarrow> 'c option"
  api_render :: "'c \<Rightarrow> sample list"
  api_rate :: "'c \<Rightarrow> int"
  api_speaker_audio :: "'c \<Rightarrow> string \<Rightarrow> audio_buffer res option"
  api_base64 :: "string \<Rightarrow> bytes option"
  api_sha256 :: "bytes \<Rightarrow> string"
  api_preview :: "bytes \<Rightarrow> bytes option"
  api_show :: "json \<Rightarrow> string"
  api_lower :: "string \<Rightarrow> string"
  api_calibrate :: "raw_scores \<Rightarrow> confidences res"
  api_calibration_version :: "string option"
  api_pipeline_ids :: "nat \<Rightarrow> string"
  api_event_ids :: "nat \<Rightarrow> string"
  api_clock :: "int \<Rightarrow> int"
  api_stream_ids :: "string \<Rightarrow> int \<Rightarrow> string"

definition on_jobs :: "('j, 'a) action \<Rightarrow> (('j, 'o, 'q) app_state, 'a) action" where
  "on_jobs = zoomS as_jobs (\<lambda>x s. s\<lparr>as_jobs := x\<rparr>)"

definition on_objects :: "('o, 'a) action \<Rightarrow> (('j, 'o, 'q) app_state, 'a) action" where
  "on_objects = zoomS as_objects (\<lambda>x s. s\<lparr>as_objects := x\<rparr>)"

definition on_queue :: "('q, 'a) action \<Rightarrow> (('j, 'o, 'q) app_state, 'a) action" where
  "on_queue = zoomS as_queue (\<lambda>x s. s\<lparr>as_queue := x\<rparr>)"

definition on_registry :: "(voice_registry, 'a) action \<Rightarrow> (('j, 'o, 'q) app_state, 'a) action" where
  "on_registry = zoomS as_registry (\<lambda>x s. s\<lparr>as_registry := x\<rparr>)"

text \<open>\<open>except SasttError as exc: ...; raise\<close>.\<close>

definition on_domain_error ::
  "('s, 'a) action \<Rightarrow> (sastt_error \<Rightarrow> ('s, unit) action) \<Rightarrow> ('s, 'a) action" where
  "on_domain_error m h s =
     (case m s of
        (s', Inl (Sastt e)) \<Rightarrow> bindS (h e) (\<lambda>_. liftS (Inl (Sastt e))) s'
      | r \<Rightarrow> r)"

section \<open>Audio of jobs\<close>

definition MAX_RETAINED_JOB_AUDIO :: nat where
  "MAX_RETAINED_JOB_AUDIO = 12"

definition job_audio_key :: "string \<Rightarrow> string" where
  "job_audio_key jid = ''jobs/'' @ jid @ ''/input''"

text \<open>The loop of the eviction; \<open>keys\<close> is the dictionary in its order.\<close>

fun evict_audio :: "'o object_port \<Rightarrow> (string \<times> string \<times> string) list \<Rightarrow> (('j, 'o, 'q) app_state, unit) action" where
  "evict_audio port [] = returnS ()"
| "evict_audio port ((jid, tenant, key) # keys) =
     (if length ((jid, tenant, key) # keys) \<le> MAX_RETAINED_JOB_AUDIO then returnS ()
      else bindS (modifyS (\<lambda>s. s\<lparr>as_audio_keys := keys\<rparr>)) (\<lambda>_.
           bindS (on_objects (op_delete port tenant key)) (\<lambda>_. evict_audio port keys)))"

definition retain_job_audio ::
  "('j, 'o, 'q, 'c) api \<Rightarrow> string \<Rightarrow> string \<Rightarrow> bytes \<Rightarrow> (('j, 'o, 'q) app_state, string) action" where
  "retain_job_audio a tenant jid content =
     (let key = job_audio_key jid in
      bindS (on_objects (op_put (api_objects a) tenant key content)) (\<lambda>_.
      bindS (modifyS (\<lambda>s. s\<lparr>as_audio_keys := AList.update jid (tenant, key) (as_audio_keys s)\<rparr>)) (\<lambda>_.
      bindS (readS as_audio_keys) (\<lambda>keys.
      bindS (if op_memory (api_objects a) then evict_audio (api_objects a) keys else returnS ()) (\<lambda>_.
      bindS (modifyS (\<lambda>s. s\<lparr>as_previews := filter (\<lambda>(j, p). j \<in> fst ` set (as_audio_keys s)) (as_previews s)\<rparr>)) (\<lambda>_.
        returnS key))))))"

section \<open>Running a job in the process\<close>

definition job_pipeline ::
  "('j, 'o, 'q, 'c) api \<Rightarrow> string \<Rightarrow> config \<Rightarrow> ports \<Rightarrow> voice_registry \<Rightarrow> pipeline" where
  "job_pipeline a tenant c ports registry =
     \<lparr>pl_config = c,
      pl_ports = ports\<lparr>port_identify := Some (\<lambda>t e. identify (Inr ()) registry t e)\<rparr>,
      pl_tenant = tenant, pl_calibrate = api_calibrate a,
      pl_calibration_version = api_calibration_version a, pl_provisional_continuity = True,
      pl_fresh = api_pipeline_ids a, pl_event_id = api_event_ids a\<rparr>"

text \<open>\<open>job.transition(st)\<close> on the record the store returned.\<close>

definition transition_job ::
  "('j, 'o, 'q, 'c) api \<Rightarrow> job \<Rightarrow> job_state \<Rightarrow> (('j, 'o, 'q) app_state, job) action" where
  "transition_job a j st =
     bindS (liftS (job_transition j st)) (\<lambda>j'.
     bindS (on_jobs (modifyS (jp_share (api_jobs a) j'))) (\<lambda>_. returnS j'))"

fun code_value :: "error_code \<Rightarrow> string" where
  "code_value UNSUPPORTED_AUDIO_FORMAT = ''UNSUPPORTED_AUDIO_FORMAT''"
| "code_value INVALID_CHANNEL_LAYOUT = ''INVALID_CHANNEL_LAYOUT''"
| "code_value AUDIO_TOO_LONG = ''AUDIO_TOO_LONG''"
| "code_value MODEL_NOT_READY = ''MODEL_NOT_READY''"
| "code_value MODEL_LICENSE_DISABLED = ''MODEL_LICENSE_DISABLED''"
| "code_value UNSUPPORTED_CONCURRENCY = ''UNSUPPORTED_CONCURRENCY''"
| "code_value SEPARATION_FAILED = ''SEPARATION_FAILED''"
| "code_value VOICE_ID_UNCALIBRATED = ''VOICE_ID_UNCALIBRATED''"
| "code_value INSUFFICIENT_SPEECH_FOR_EMBEDDING = ''INSUFFICIENT_SPEECH_FOR_EMBEDDING''"
| "code_value QUEUE_OVERLOADED = ''QUEUE_OVERLOADED''"
| "code_value TENANT_ACCESS_DENIED = ''TENANT_ACCESS_DENIED''"
| "code_value SESSION_CLOCK_DISCONTINUITY = ''SESSION_CLOCK_DISCONTINUITY''"

definition error_text :: "sastt_error \<Rightarrow> string" where
  "error_text e = (case code_of e of None \<Rightarrow> ''INTERNAL'' | Some c \<Rightarrow> code_value c)"

definition run_job ::
  "('j, 'o, 'q, 'c) api \<Rightarrow> job \<Rightarrow> 'c option \<Rightarrow> bytes \<Rightarrow> string \<Rightarrow> config \<Rightarrow>
     (('j, 'o, 'q) app_state, job) action" where
  "run_job a j scenario content tenant c =
     bindS (liftS (api_adapters a scenario)) (\<lambda>ports.
     bindS (readS (\<lambda>s. job_pipeline a tenant c ports (as_registry s))) (\<lambda>p.
     bindS (transition_job a j PREPROCESSING) (\<lambda>j1.
     bindS (liftS (if api_engine a = ''fake'' then strip_wav_header content else Inr content)) (\<lambda>payload.
     bindS (on_domain_error
              (offline_run p no_pin payload (Some (job_id j)) None None (\<lambda>_. returnS ()))
              (\<lambda>e. bindS (transition_job a (j1\<lparr>job_error := Some (error_text e)\<rparr>) FAILED) (\<lambda>_. returnS ())))
       (\<lambda>result.
     bindS (modifyS (\<lambda>s. s\<lparr>as_results := (as_results s)(job_id j \<mapsto> result)\<rparr>)) (\<lambda>_.
       transition_job a j1 (or_state result)))))))"

section \<open>Jobs\<close>

definition job_view ::
  "('j, 'o, 'q, 'c) api \<Rightarrow> job \<Rightarrow> bool \<Rightarrow> ('j, 'o, 'q) app_state \<Rightarrow> (string \<times> json) list" where
  "job_view a j created s =
     (let result = as_results s (job_id j) in
      [(''job_id'', JStr (job_id j)),
       (''state'', JStr (job_state_value (job_status j))),
       (''created'', JBool created),
       (''engine'', JStr (api_engine a)),
       (''scenario'', json_opt JStr (as_scenarios s (job_id j))),
       (''asr_language'', JStr (case as_languages s (job_id j) of Some (Some l) \<Rightarrow> or_else (Some l) ''auto'' | _ \<Rightarrow> ''auto'')),
       (''config_version'', json_opt JStr (job_config j)),
       (''warnings'', JList (case result of None \<Rightarrow> [] | Some r \<Rightarrow> map JStr (or_warnings r))),
       (''degraded_mode'', JBool (case result of None \<Rightarrow> False | Some r \<Rightarrow> or_degraded r)),
       (''error_code'', json_opt JStr (job_error j))])"

text \<open>The scenario and the audio of a request.\<close>

definition uploaded_audio :: "('j, 'o, 'q, 'c) api \<Rightarrow> (string \<times> json) list \<Rightarrow> bytes res" where
  "uploaded_audio a payload =
     (case map_of payload ''audio_base64'' of
        None \<Rightarrow> Inl (HttpError 400)
      | Some v \<Rightarrow>
          if \<not> json_truth v then Inl (HttpError 400)
          else if api_engine a = ''fake'' then Inl (Sastt ModelNotReadyError)
          else (case api_base64 a (text_of (api_show a) v) of
              None \<Rightarrow> Inl (HttpError 400) | Some bytes \<Rightarrow> Inr bytes))"

definition truthy_field :: "(string \<times> json) list \<Rightarrow> string \<Rightarrow> json option" where
  "truthy_field d k = (case map_of d k of None \<Rightarrow> None | Some v \<Rightarrow> if json_truth v then Some v else None)"

definition load_demo_scenario :: "('j, 'o, 'q, 'c) api \<Rightarrow> string \<Rightarrow> 'c res" where
  "load_demo_scenario a name = (case api_scenario a name of None \<Rightarrow> Inl (HttpError 404) | Some c \<Rightarrow> Inr c)"

definition job_input :: "('j, 'o, 'q, 'c) api \<Rightarrow> (string \<times> json) list \<Rightarrow> ('c option \<times> bytes) res" where
  "job_input a payload =
     (case truthy_field payload ''scenario'' of
        Some v \<Rightarrow>
          bindR (load_demo_scenario a (text_of (api_show a) v)) (\<lambda>c.
          bindR (scenario_wav (api_render a c) (api_rate a c)) (\<lambda>wav. Inr (Some c, wav)))
      | None \<Rightarrow> bindR (uploaded_audio a payload) (\<lambda>content. Inr (None, content)))"

text \<open>\<open>except IdempotencyConflictError as exc: raise HTTPException(409)\<close>.\<close>

definition or_conflict :: "('s, 'a) action \<Rightarrow> ('s, 'a) action" where
  "or_conflict m s =
     (case m s of (s', Inl (Sastt IdempotencyConflictError)) \<Rightarrow> (s', Inl (HttpError 409)) | r \<Rightarrow> r)"

definition task_fields :: "(string \<times> json) list \<Rightarrow> string \<Rightarrow> string option \<Rightarrow> (string \<times> json) list" where
  "task_fields payload audio_key language =
     [(''audio_key'', JStr audio_key),
      (''scenario'', case map_of payload ''scenario'' of None \<Rightarrow> JNull | Some v \<Rightarrow> v),
      (''language'', json_opt JStr language)]"

definition queue_job ::
  "('j, 'o, 'q, 'c) api \<Rightarrow> 'q queue \<Rightarrow> string \<Rightarrow> int \<Rightarrow> (string \<times> json) list \<Rightarrow> string \<Rightarrow> string \<Rightarrow> string \<Rightarrow>
     string option \<Rightarrow> (('j, 'o, 'q) app_state, task) action" where
  "queue_job a q tid now payload tenant jid audio_key language =
     on_domain_error
       (on_queue (enqueue q tid now ''speaker.batch'' tenant jid (Some (task_fields payload audio_key language))))
       (\<lambda>e. bindS (on_objects (op_delete (api_objects a) tenant audio_key)) (\<lambda>_.
            bindS (modifyS (\<lambda>s. s\<lparr>as_audio_keys := AList.delete jid (as_audio_keys s)\<rparr>)) (\<lambda>_.
            bindS (on_jobs (jp_update (api_jobs a) tenant jid CANCELLED)) (\<lambda>_. returnS ()))))"

definition start_job ::
  "('j, 'o, 'q, 'c) api \<Rightarrow> string \<Rightarrow> int \<Rightarrow> (string \<times> json) list \<Rightarrow> string option \<Rightarrow> 'c option \<Rightarrow> bytes \<Rightarrow>
     string \<Rightarrow> job \<Rightarrow> (('j, 'o, 'q) app_state, job) action" where
  "start_job a tid now payload language scenario content tenant j =
     bindS (modifyS (\<lambda>s. s\<lparr>as_scenarios := (as_scenarios s)(job_id j \<mapsto>
         (case truthy_field payload ''scenario'' of None \<Rightarrow> ''upload'' | Some v \<Rightarrow> text_of (api_show a) v))\<rparr>)) (\<lambda>_.
     bindS (modifyS (\<lambda>s. s\<lparr>as_languages := (as_languages s)(job_id j \<mapsto> language)\<rparr>)) (\<lambda>_.
     bindS (retain_job_audio a tenant (job_id j) content) (\<lambda>audio_key.
       case api_queue a of
         None \<Rightarrow> run_job a j scenario content tenant (config_with_asr_language (api_config a) language)
       | Some q \<Rightarrow> bindS (queue_job a q tid now payload tenant (job_id j) audio_key language) (\<lambda>_. returnS j))))"

definition create_job ::
  "('j, 'o, 'q, 'c) api \<Rightarrow> string \<Rightarrow> string \<Rightarrow> int \<Rightarrow> (string \<times> json) list \<Rightarrow> string option \<Rightarrow> string \<Rightarrow>
     (('j, 'o, 'q) app_state, (string \<times> json) list) action" where
  "create_job a fresh tid now payload key tenant =
     (if \<not> truthy key then liftS (Inl (HttpError 400))
      else bindS (liftS (requested_asr_language (map_of payload ''language''))) (\<lambda>language.
           bindS (liftS (job_input a payload)) (\<lambda>(scenario, content).
           bindS (or_conflict (on_jobs (jp_create (api_jobs a) fresh tenant (or_else key []) (api_sha256 a content)
              (Some (api_config_version a (config_with_asr_language (api_config a) language)))))) (\<lambda>(j, created).
           bindS (if created then start_job a tid now payload language scenario content tenant j
                  else returnS j) (\<lambda>j'.
             readS (job_view a j' created))))))"

definition get_job ::
  "('j, 'o, 'q, 'c) api \<Rightarrow> string \<Rightarrow> string \<Rightarrow> (('j, 'o, 'q) app_state, (string \<times> json) list) action" where
  "get_job a tenant jid = bindS (on_jobs (jp_get (api_jobs a) tenant jid)) (\<lambda>j. readS (job_view a j False))"

text \<open>The two forms of a result: of this process, and of the stored segments.\<close>

definition live_result ::
  "('j, 'o, 'q, 'c) api \<Rightarrow> job \<Rightarrow> offline_result \<Rightarrow> (string \<times> json) list" where
  "live_result a j r =
     (let segs = map to_public_dict (or_segments r) in
      [(''job_id'', JStr (job_id j)), (''engine'', JStr (api_engine a)), (''schema_version'', JStr ''2.0''),
       (''state'', JStr (job_state_value (job_status j))),
       (''config_version'', JStr (api_config_version a (or_config r))),
       (''model_versions'', model_versions_to_dict (or_versions r)),
       (''warnings'', JList (map JStr (or_warnings r))), (''degraded_mode'', JBool (or_degraded r)),
       (''estimated_session_speakers'', JInt (or_estimated_speakers r)),
       (''session_speakers'', JInt (int (count_session_speakers (api_show a) segs))),
       (''segments'', JList (map JObj segs)), (''text'', JStr (render_transcript (or_segments r)))])"

definition stored_result ::
  "('j, 'o, 'q, 'c) api \<Rightarrow> job \<Rightarrow> (string \<times> json) list list \<Rightarrow> (string \<times> json) list res" where
  "stored_result a j segs =
     bindR (render_transcript_from_public_segments (api_show a) segs) (\<lambda>txt.
       Inr [(''job_id'', JStr (job_id j)), (''engine'', JStr (api_engine a)), (''schema_version'', JStr ''2.0''),
         (''state'', JStr (job_state_value (job_status j))),
         (''config_version'', json_opt JStr (job_config j)),
         (''warnings'', JList (map JStr (job_warnings j))), (''degraded_mode'', JBool (job_degraded j)),
         (''session_speakers'', JInt (int (count_session_speakers (api_show a) segs))),
         (''segments'', JList (map JObj segs)), (''text'', JStr txt)])"

definition get_job_result ::
  "('j, 'o, 'q, 'c) api \<Rightarrow> string \<Rightarrow> string \<Rightarrow> (('j, 'o, 'q) app_state, (string \<times> json) list) action" where
  "get_job_result a tenant jid =
     bindS (on_jobs (jp_get (api_jobs a) tenant jid)) (\<lambda>j.
     bindS (readS (\<lambda>s. as_results s (job_id j))) (\<lambda>result.
       case result of
         Some r \<Rightarrow> returnS (live_result a j r)
       | None \<Rightarrow>
           if \<not> job_is_terminal j then liftS (Inl (HttpError 409))
           else (case jp_load (api_jobs a) of
               None \<Rightarrow> liftS (Inl (HttpError 409))
             | Some load \<Rightarrow>
                 bindS (on_jobs (load tenant (job_id j))) (\<lambda>segs.
                   if segs = [] then liftS (Inl (HttpError 409)) else liftS (stored_result a j segs)))))"

text \<open>The audio of a job, or its re-encoding; the encoder may give nothing.\<close>

definition retained_key :: "('j, 'o, 'q) app_state \<Rightarrow> string \<Rightarrow> string" where
  "retained_key s jid =
     (case map_of (as_audio_keys s) jid of None \<Rightarrow> job_audio_key jid | Some (owner, key) \<Rightarrow> key)"

definition job_preview ::
  "('j, 'o, 'q, 'c) api \<Rightarrow> string \<Rightarrow> bytes \<Rightarrow> (('j, 'o, 'q) app_state, bytes option) action" where
  "job_preview a jid payload =
     bindS (readS (\<lambda>s. map_of (as_previews s) jid)) (\<lambda>cached.
       case cached of
         Some p \<Rightarrow> returnS (Some p)
       | None \<Rightarrow> (case api_preview a payload of
             None \<Rightarrow> returnS None
           | Some p \<Rightarrow> bindS (modifyS (\<lambda>s. s\<lparr>as_previews := AList.update jid p (as_previews s)\<rparr>)) (\<lambda>_.
               returnS (Some p))))"

definition or_gone :: "('s, 'a) action \<Rightarrow> ('s, 'a) action" where
  "or_gone m s =
     (case m s of
        (s', Inl (Sastt e)) \<Rightarrow> (s', Inl (HttpError 404))
      | (s', Inl KeyError) \<Rightarrow> (s', Inl (HttpError 404))
      | r \<Rightarrow> r)"

definition get_job_audio ::
  "('j, 'o, 'q, 'c) api \<Rightarrow> bool \<Rightarrow> string \<Rightarrow> string \<Rightarrow> (('j, 'o, 'q) app_state, bytes \<times> string) action" where
  "get_job_audio a preview tenant jid =
     bindS (on_jobs (jp_get (api_jobs a) tenant jid)) (\<lambda>j.
     bindS (readS (\<lambda>s. retained_key s (job_id j))) (\<lambda>key.
     bindS (or_gone (on_objects (op_get (api_objects a) tenant key))) (\<lambda>payload.
     bindS (if preview then job_preview a (job_id j) payload else returnS None) (\<lambda>encoded.
       returnS (case encoded of
           Some p \<Rightarrow> (p, ''audio/ogg'') | None \<Rightarrow> (payload, audio_media_type payload))))))"

definition forget_job :: "('j, 'o, 'q, 'c) api \<Rightarrow> string \<Rightarrow> (('j, 'o, 'q) app_state, unit) action" where
  "forget_job a jid =
     bindS (readS (\<lambda>s. map_of (as_audio_keys s) jid)) (\<lambda>retained.
     bindS (modifyS (\<lambda>s. s\<lparr>as_results := (as_results s)(jid := None),
                as_audio_keys := AList.delete jid (as_audio_keys s),
                as_previews := AList.delete jid (as_previews s)\<rparr>)) (\<lambda>_.
       case retained of
         None \<Rightarrow> returnS ()
       | Some (owner, key) \<Rightarrow> bindS (on_objects (op_delete (api_objects a) owner key)) (\<lambda>_. returnS ())))"

definition delete_job ::
  "('j, 'o, 'q, 'c) api \<Rightarrow> string \<Rightarrow> string \<Rightarrow> (('j, 'o, 'q) app_state, (string \<times> json) list) action" where
  "delete_job a tenant jid =
     bindS (on_jobs (jp_get (api_jobs a) tenant jid)) (\<lambda>j.
     bindS (forget_job a (job_id j)) (\<lambda>_.
     bindS (if job_is_terminal j then returnS j
            else on_jobs (jp_update (api_jobs a) tenant (job_id j) CANCELLED)) (\<lambda>j'.
       returnS [(''job_id'', JStr (job_id j')), (''state'', JStr (job_state_value (job_status j')))])))"

section \<open>Voice identities\<close>

definition voice_identity_view ::
  "('j, 'o, 'q) app_state \<Rightarrow> string \<Rightarrow> string \<Rightarrow> (string \<times> json) list res" where
  "voice_identity_view s tenant i =
     (case map_of (as_identities s) (tenant, i) of
        None \<Rightarrow> Inl (Sastt TenantAccessDeniedError)
      | Some m \<Rightarrow>
          bindR (if identity_exists (as_registry s) tenant i
                 then VoiceRegistry.prototypes_of (as_registry s) tenant i else Inr []) (\<lambda>protos.
            Inr [(''identity_id'', JStr i), (''display_name'', JStr (im_display_name m)),
                 (''status'', JStr ''active''), (''prototype_count'', JInt (int (length protos))),
                 (''embedding_model_version'', JStr (vr_model_version (as_registry s))),
                 (''consent_ref_present'', JBool (truthy (im_consent_ref m)))]))"

text \<open>The key of the order of the list: \<open>str(item["display_name"]).lower()\<close>.\<close>

definition shown_name :: "('j, 'o, 'q, 'c) api \<Rightarrow> (string \<times> json) list \<Rightarrow> string" where
  "shown_name a item = api_lower a (case map_of item ''display_name'' of Some v \<Rightarrow> text_of (api_show a) v | None \<Rightarrow> [])"

definition list_voice_identities ::
  "('j, 'o, 'q, 'c) api \<Rightarrow> string \<Rightarrow> ('j, 'o, 'q) app_state \<Rightarrow> (string \<times> json) list list res" where
  "list_voice_identities a tenant s =
     bindR (mapR (\<lambda>((owner, i), m). voice_identity_view s tenant i)
              (filter (\<lambda>((owner, i), m). owner = tenant) (as_identities s))) (\<lambda>items.
       Inr (sort_key (shown_name a) items))"

definition create_voice_identity ::
  "('j, 'o, 'q, 'c) api \<Rightarrow> string \<Rightarrow> (string \<times> json) list \<Rightarrow> string \<Rightarrow>
     (('j, 'o, 'q) app_state, (string \<times> json) list) action" where
  "create_voice_identity a fresh payload tenant =
     (let i = (case truthy_field payload ''external_id'' of None \<Rightarrow> fresh | Some v \<Rightarrow> text_of (api_show a) v) in
      if strip i = [] then liftS (Inl (HttpError 400))
      else bindS (readS (\<lambda>s. map_of (as_identities s) (tenant, i))) (\<lambda>known.
        if known \<noteq> None then liftS (Inl (HttpError 409))
        else let m = \<lparr>im_display_name = (case truthy_field payload ''display_name'' of
                        None \<Rightarrow> i | Some v \<Rightarrow> text_of (api_show a) v),
                      im_consent_ref = map_option (text_of (api_show a)) (truthy_field payload ''consent_ref'')\<rparr> in
          bindS (modifyS (\<lambda>s. s\<lparr>as_identities := AList.update (tenant, i) m (as_identities s)\<rparr>)) (\<lambda>_ s.
            (s, voice_identity_view s tenant i))))"

definition get_voice_identity ::
  "string \<Rightarrow> string \<Rightarrow> (('j, 'o, 'q) app_state, (string \<times> json) list) action" where
  "get_voice_identity tenant i s = (s, voice_identity_view s tenant i)"

text \<open>The embedding of an enrollment, from a speaker of a demo scenario or from an upload.\<close>

definition scenario_buffer ::
  "('j, 'o, 'q, 'c) api \<Rightarrow> (string \<times> json) list \<Rightarrow> 'c \<Rightarrow> audio_buffer res" where
  "scenario_buffer a payload c =
     (case api_speaker_audio a c
             (case truthy_field payload ''speaker'' of None \<Rightarrow> [] | Some v \<Rightarrow> text_of (api_show a) v) of
        None \<Rightarrow> Inl (HttpError 400) | Some buf \<Rightarrow> buf)"

definition embed_clip :: "ports \<Rightarrow> audio_buffer \<Rightarrow> speaker_embedding res" where
  "embed_clip ports buf =
     bindR (port_vad ports buf) (\<lambda>speech. port_embed ports buf speech Clean None None)"

definition extract_enrollment_embedding ::
  "('j, 'o, 'q, 'c) api \<Rightarrow> (string \<times> json) list \<Rightarrow> speaker_embedding res" where
  "extract_enrollment_embedding a payload =
     (case truthy_field payload ''scenario'' of
        Some v \<Rightarrow>
          if api_engine a \<noteq> ''fake'' then Inl (HttpError 400)
          else bindR (load_demo_scenario a (text_of (api_show a) v)) (\<lambda>c.
               bindR (scenario_buffer a payload c) (\<lambda>buf.
               bindR (api_adapters a (Some c)) (\<lambda>ports. embed_clip ports buf)))
      | None \<Rightarrow>
          bindR (uploaded_audio a payload) (\<lambda>content.
          bindR (api_adapters a None) (\<lambda>ports.
          bindR (port_decode ports content) (\<lambda>asset. embed_clip ports (mono_16k asset)))))"


definition enroll_report_to_dict :: "enrollment_report \<Rightarrow> (string \<times> json) list" where
  "enroll_report_to_dict r =
     [(''identity_id'', JStr (identity_id r)),
      (''accepted_clips'', JInt (int (accepted_clips r))),
      (''rejected_clips'', JInt (int (rejected_clips r))),
      (''total_speech_ms'', JInt (total_speech_ms r)),
      (''prototype_count'', JInt (int (prototype_count r))),
      (''embedding_model_version'', JStr (embedding_model_version r)),
      (''meets_policy'', JBool (meets_policy r)),
      (''reasons'', JList (map JStr (policy_reasons r))),
      (''clips'', JList (map (\<lambda>c. JObj
         [(''clip_index'', JInt (int (clip_index c))),
          (''accepted'', JBool (clip_accepted c)),
          (''speech_duration_ms'', JInt (clip_speech_duration_ms c)),
          (''reasons'', JList (map JStr (clip_reasons c)))]) (clips r)))]"

definition enroll_voice_identity ::
  "('j, 'o, 'q, 'c) api \<Rightarrow> string \<Rightarrow> (string \<times> json) list \<Rightarrow> string \<Rightarrow>
     (('j, 'o, 'q) app_state, (string \<times> json) list) action" where
  "enroll_voice_identity a i payload tenant =
     bindS (readS (\<lambda>s. map_of (as_identities s) (tenant, i))) (\<lambda>known.
       case known of
         None \<Rightarrow> liftS (Inl (Sastt TenantAccessDeniedError))
       | Some m \<Rightarrow>
           let consent = (case truthy_field payload ''consent_ref'' of
                 Some v \<Rightarrow> Some (text_of (api_show a) v) | None \<Rightarrow> im_consent_ref m) in
           if \<not> truthy consent then liftS (Inl (HttpError 400))
           else bindS (liftS (extract_enrollment_embedding a payload)) (\<lambda>e.
                bindS (on_registry (enroll (Inr ()) tenant i [e] (Some (im_display_name m)) consent)) (\<lambda>report.
                bindS (modifyS (\<lambda>s. s\<lparr>as_identities :=
                    AList.update (tenant, i) (m\<lparr>im_consent_ref := consent\<rparr>) (as_identities s)\<rparr>)) (\<lambda>_.
                  returnS (enroll_report_to_dict report)))))"

definition delete_voice_identity ::
  "string \<Rightarrow> string \<Rightarrow> (('j, 'o, 'q) app_state, (string \<times> json) list) action" where
  "delete_voice_identity i tenant =
     bindS (readS (\<lambda>s. map_of (as_identities s) (tenant, i))) (\<lambda>known.
       if known = None then liftS (Inl (Sastt TenantAccessDeniedError))
       else bindS (on_registry (delete_identity (Inr ()) tenant i)) (\<lambda>deleted.
            bindS (modifyS (\<lambda>s. s\<lparr>as_identities := AList.delete (tenant, i) (as_identities s)\<rparr>)) (\<lambda>_.
              returnS [(''identity_id'', JStr i), (''deleted'', JBool deleted)])))"

text \<open>\<open>_build_local_registry\<close>.\<close>

definition build_local_registry :: "('j, 'o, 'q, 'c) api \<Rightarrow> voice_registry res" where
  "build_local_registry a =
     bindR (if api_engine a = ''real'' then bindR (api_adapters a None) (\<lambda>ports. Inr (embedder_version ports))
            else Inr ''fake-campplus@1'') (\<lambda>version.
       let v = voice_id (api_config a) in
       Inr (new_registry version (vi_accept_threshold v) (vi_ambiguous_margin v)
              (minimum_enrollment_clips v) (trunc (minimum_total_speech_seconds v * 1000))))"

section \<open>Sessions\<close>

text \<open>The session of a request: the adapters come without a registry.\<close>

definition session_stream :: "('j, 'o, 'q, 'c) api \<Rightarrow> string \<Rightarrow> string \<Rightarrow> ports \<Rightarrow> stream" where
  "session_stream a fresh tenant ports =
     \<lparr>str_session_id = fresh,
      str_pipeline = \<lparr>pl_config = api_config a, pl_ports = ports\<lparr>port_identify := None\<rparr>, pl_tenant = tenant,
        pl_calibrate = api_calibrate a, pl_calibration_version = api_calibration_version a,
        pl_provisional_continuity = False, pl_fresh = api_pipeline_ids a, pl_event_id = api_event_ids a\<rparr>,
      str_keep_audio = True, str_clock = api_clock a, str_event_id = api_stream_ids a fresh,
      str_config_version = api_config_version a (api_config a),
      str_final_fresh = api_pipeline_ids a, str_final_event_id = api_event_ids a\<rparr>"

definition create_session ::
  "('j, 'o, 'q, 'c) api \<Rightarrow> string \<Rightarrow> (string \<times> json) list \<Rightarrow> string \<Rightarrow>
     (('j, 'o, 'q) app_state, (string \<times> json) list) action" where
  "create_session a fresh payload tenant =
     bindS (liftS (load_demo_scenario a (case truthy_field payload ''scenario'' of
                None \<Rightarrow> ''s02_two_speaker_overlap'' | Some v \<Rightarrow> text_of (api_show a) v))) (\<lambda>c.
     bindS (liftS (api_adapters a (Some c))) (\<lambda>ports.
     let x = session_stream a fresh tenant ports in
     bindS (modifyS (\<lambda>s. s\<lparr>as_sessions := (as_sessions s)(fresh \<mapsto> (x, new_stream_session x))\<rparr>)) (\<lambda>_.
       returnS [(''session_id'', JStr fresh), (''engine'', JStr (api_engine a)),
         (''websocket_url'', JStr (''/v1/sessions/'' @ fresh @ ''/audio'')),
         (''sample_rate'', JInt CANONICAL_SAMPLE_RATE),
         (''frame_ms'', JInt (frame_ms (streaming (api_config a)))),
         (''config_version'', JStr (api_config_version a (api_config a)))])))"

text \<open>An operation on a session; the session is an object that the dictionary shares.\<close>

definition in_session ::
  "string \<Rightarrow> (stream \<Rightarrow> (stream_session, 'a) action) \<Rightarrow> (('j, 'o, 'q) app_state, 'a) action" where
  "in_session sid m s =
     (case as_sessions s sid of
        None \<Rightarrow> (s, Inl (HttpError 404))
      | Some (x, sx) \<Rightarrow> (case m x sx of (sx', r) \<Rightarrow> (s\<lparr>as_sessions := (as_sessions s)(sid \<mapsto> (x, sx'))\<rparr>, r)))"

definition finalize_session ::
  "string \<Rightarrow> (('j, 'o, 'q) app_state, (string \<times> json) list list) action" where
  "finalize_session sid = bindS (in_session sid finalize_stream) (\<lambda>events. returnS (map event_to_dict events))"

definition session_result ::
  "string \<Rightarrow> (('j, 'o, 'q) app_state, (string \<times> json) list) action" where
  "session_result sid =
     bindS (in_session sid (\<lambda>x sx. (sx, stream_result sx))) (\<lambda>segments.
       returnS [(''session_id'', JStr sid), (''schema_version'', JStr ''2.0''),
         (''segments'', JList (map (\<lambda>seg. JObj (to_public_dict seg)) segments)),
         (''text'', JStr (render_transcript segments))])"

end
