(* ===== verification/JobProps.thy ===== *)
theory JobProps
  imports JobApi PipelineRun
begin

text \<open>
  The endpoints for jobs over the stores in memory: which audio is kept and for how long, who can see
  a job, what resubmitting and deleting do, and how a run in the process and a refused task end.
\<close>

section \<open>Actions on the parts of the service\<close>

lemma on_jobs_eq: "on_jobs m s = (s\<lparr>as_jobs := fst (m (as_jobs s))\<rparr>, snd (m (as_jobs s)))"
  by (simp add: on_jobs_def zoomS_def split: prod.split)

lemma on_objects_eq: "on_objects m s = (s\<lparr>as_objects := fst (m (as_objects s))\<rparr>, snd (m (as_objects s)))"
  by (simp add: on_objects_def zoomS_def split: prod.split)

lemma on_queue_eq: "on_queue m s = (s\<lparr>as_queue := fst (m (as_queue s))\<rparr>, snd (m (as_queue s)))"
  by (simp add: on_queue_def zoomS_def split: prod.split)

lemma on_registry_eq: "on_registry m s = (s\<lparr>as_registry := fst (m (as_registry s))\<rparr>, snd (m (as_registry s)))"
  by (simp add: on_registry_def zoomS_def split: prod.split)

lemma memory_port [simp]:
  "jp_get memory_jobs t i js = (js, job_get t i js)"
  "jp_update memory_jobs t i st = updateS (update_state t i st)"
  "jp_load memory_jobs = None"
  "jp_share memory_jobs j = put_job j (job_id j)"
  "op_memory memory_objects"
  "op_put memory_objects t k c os = (os((t, k) \<mapsto> c), Inr (''mem://'' @ t @ ''/'' @ k))"
  "op_get memory_objects t k os = (os, object_get t k os)"
  "op_delete memory_objects t k os = (os((t, k) := None), Inr (os (t, k) \<noteq> None))"
  by (simp_all add: memory_jobs_def memory_objects_def updateS_def object_put_def object_delete_def)

section \<open>The audio kept\<close>

text \<open>
  The table of kept audio and the object store say the same: one object per entry, under the key that
  follows from the job, and none besides.
\<close>

definition linked_audio :: "(string \<times> string \<times> string) list \<Rightarrow> bytes object_store \<Rightarrow> bool" where
  "linked_audio keys os \<longleftrightarrow> distinct (map fst keys)
     \<and> (\<forall>(jid, t, k)\<in>set keys. k = job_audio_key jid) \<and> dom os = snd ` set keys"

lemma job_audio_key_inj [simp]: "job_audio_key i = job_audio_key j \<longleftrightarrow> i = j"
  by (simp add: job_audio_key_def)

lemma linked_key: "linked_audio keys os \<Longrightarrow> (jid, t, k) \<in> set keys \<Longrightarrow> k = job_audio_key jid"
  unfolding linked_audio_def by blast

lemma linked_owner:
  assumes "linked_audio keys os" and "(i, t, k) \<in> set keys" and "(j, u, k) \<in> set keys"
  shows "i = j \<and> t = u"
proof -
  have "i = j" using linked_key[OF assms(1)] assms(2,3) job_audio_key_inj by metis
  moreover have "distinct (map fst keys)" using assms(1) by (simp add: linked_audio_def)
  ultimately show ?thesis using assms(2,3) eq_key_imp_eq_value[of keys i] by blast
qed

lemma linked_object:
  assumes "linked_audio keys os" and "(t, job_audio_key i) \<in> dom os"
  shows "(i, t, job_audio_key i) \<in> set keys"
proof -
  from assms obtain j where j: "(j, t, job_audio_key i) \<in> set keys" by (auto simp: linked_audio_def)
  then have "j = i" using linked_key[OF assms(1) j] by simp
  then show ?thesis using j by simp
qed

lemma linked_drop:
  assumes "linked_audio ((jid, t, k) # keys) os"
  shows "linked_audio keys (os((t, k) := None))"
proof -
  have "(i, t, k) \<notin> set keys" for i
  proof
    assume i: "(i, t, k) \<in> set keys"
    then have "i = jid" using linked_owner[OF assms] by (meson list.set_intros)
    then have "jid \<in> fst ` set keys" using i by (metis fst_conv image_eqI)
    then show False using assms by (simp add: linked_audio_def)
  qed
  then have "(t, k) \<notin> snd ` set keys" by force
  then show ?thesis using assms by (simp add: linked_audio_def insert_Diff_if)
qed

lemma update_new_key: "i \<notin> fst ` set al \<Longrightarrow> AList.update i v al = al @ [(i, v)]"
  by (induction al) auto

lemma linked_put:
  assumes "linked_audio keys os" and "jid \<notin> fst ` set keys"
  shows "linked_audio (keys @ [(jid, t, job_audio_key jid)]) (os((t, job_audio_key jid) \<mapsto> c))"
  using assms by (simp add: linked_audio_def)

lemma delete_filter: "AList.delete i al = filter (\<lambda>p. fst p \<noteq> i) al"
  by (simp only: AList.delete_eq case_prod_unfold) (rule filter_cong, auto)

lemma linked_delete:
  assumes "linked_audio keys os" and "map_of keys jid = Some (t, k)"
  shows "linked_audio (AList.delete jid keys) (os((t, k) := None))"
proof -
  have mem: "(jid, t, k) \<in> set keys" using assms(2) by (rule map_of_SomeD)
  have "snd ` {p \<in> set keys. fst p \<noteq> jid} = snd ` set keys - {(t, k)}"
  proof (intro equalityI subsetI)
    fix x assume "x \<in> snd ` {p \<in> set keys. fst p \<noteq> jid}"
    then obtain i where i: "(i, x) \<in> set keys" "i \<noteq> jid" by auto
    then have "x \<noteq> (t, k)" using linked_owner[OF assms(1) _ mem] by blast
    then show "x \<in> snd ` set keys - {(t, k)}" using i by force
  next
    fix x assume x: "x \<in> snd ` set keys - {(t, k)}"
    then obtain i where i: "(i, x) \<in> set keys" by auto
    have "distinct (map fst keys)" using assms(1) by (simp add: linked_audio_def)
    then have "i \<noteq> jid" using eq_key_imp_eq_value[of keys i] i mem x by blast
    then show "x \<in> snd ` {p \<in> set keys. fst p \<noteq> jid}" using i by force
  qed
  then show ?thesis using assms(1)
    by (simp add: linked_audio_def delete_filter distinct_map_filter)
qed

lemma evict_memory:
  fixes s :: "('j, bytes object_store, 'q) app_state"
  assumes "as_audio_keys s = keys" and "linked_audio keys (as_objects s)"
  shows "\<exists>os. evict_audio memory_objects keys s
       = (s\<lparr>as_audio_keys := drop (length keys - MAX_RETAINED_JOB_AUDIO) keys, as_objects := os\<rparr>, Inr ())
     \<and> linked_audio (drop (length keys - MAX_RETAINED_JOB_AUDIO) keys) os
     \<and> (\<forall>k\<in>dom os. os k = as_objects s k)"
  using assms
proof (induction keys arbitrary: s)
  case Nil
  then show ?case by (intro exI[of _ "as_objects s"]) (cases s, simp add: returnS_def)
next
  case (Cons p keys)
  obtain jid t k where p: "p = (jid, t, k)" by (rule prod_cases3)
  show ?case
  proof (cases "length (p # keys) \<le> MAX_RETAINED_JOB_AUDIO")
    case True
    then have "evict_audio memory_objects (p # keys) s
        = (s\<lparr>as_audio_keys := p # keys, as_objects := as_objects s\<rparr>, Inr ())"
      using Cons.prems(1) p by (cases s) (simp add: returnS_def)
    then show ?thesis using Cons.prems(2) True by (intro exI[of _ "as_objects s"]) simp
  next
    case False
    let ?s = "s\<lparr>as_audio_keys := keys, as_objects := (as_objects s)((t, k) := None)\<rparr>"
    have step: "evict_audio memory_objects (p # keys) s = evict_audio memory_objects keys ?s"
      using False by (simp add: p bindS_def modifyS_def on_objects_eq)
    have same: "as_audio_keys ?s = keys" and "linked_audio keys (as_objects ?s)"
      using linked_drop Cons.prems(2) p by simp_all
    from Cons.IH[OF this] obtain os where os: "evict_audio memory_objects keys ?s =
        (?s\<lparr>as_audio_keys := drop (length keys - MAX_RETAINED_JOB_AUDIO) keys, as_objects := os\<rparr>, Inr ())"
      "linked_audio (drop (length keys - MAX_RETAINED_JOB_AUDIO) keys) os"
      "\<forall>k\<in>dom os. os k = as_objects ?s k" by blast
    have len: "length (p # keys) - MAX_RETAINED_JOB_AUDIO = Suc (length keys - MAX_RETAINED_JOB_AUDIO)"
      using False by simp
    have rest: "drop (length (p # keys) - MAX_RETAINED_JOB_AUDIO) (p # keys)
        = drop (length keys - MAX_RETAINED_JOB_AUDIO) keys" by (simp only: len drop_Suc_Cons)
    have "\<forall>m\<in>dom os. os m = as_objects s m" using os(3) by (auto split: if_splits)
    then show ?thesis using os(1,2) step unfolding rest by (intro exI[of _ os]) simp
  qed
qed


text \<open>
  The whole invariant: at most twelve inputs are kept, each of a stored job and under its tenant, and a
  preview only of an input that is kept.
\<close>

definition retained_ok :: "(job_store, bytes object_store, 'q) app_state \<Rightarrow> bool" where
  "retained_ok s \<longleftrightarrow> wf_jobs (as_jobs s) \<and> linked_audio (as_audio_keys s) (as_objects s)
     \<and> length (as_audio_keys s) \<le> MAX_RETAINED_JOB_AUDIO
     \<and> (\<forall>(jid, t, k)\<in>set (as_audio_keys s). \<exists>j. js_jobs (as_jobs s) jid = Some j \<and> tenant_id j = t)
     \<and> fst ` set (as_previews s) \<subseteq> fst ` set (as_audio_keys s)"

text \<open>The audio of the jobs in \<open>I\<close> is as it was, or gone.\<close>

definition kept_objects :: "string set \<Rightarrow> bytes object_store \<Rightarrow> bytes object_store \<Rightarrow> bool" where
  "kept_objects I os os' \<longleftrightarrow>
     (\<forall>t. \<forall>i\<in>I. os' (t, job_audio_key i) = None \<or> os' (t, job_audio_key i) = os (t, job_audio_key i))"

lemma retain_memory:
  fixes s :: "(job_store, bytes object_store, 'q) app_state"
  assumes objects: "api_objects a = memory_objects" and ok: "retained_ok s"
    and new: "jid \<notin> fst ` set (as_audio_keys s)" and j: "js_jobs (as_jobs s) jid = Some j" "tenant_id j = t"
  shows "\<exists>keys os previews. retain_job_audio a t jid c s
        = (s\<lparr>as_audio_keys := keys, as_objects := os, as_previews := previews\<rparr>, Inr (job_audio_key jid))
     \<and> retained_ok (s\<lparr>as_audio_keys := keys, as_objects := os, as_previews := previews\<rparr>)
     \<and> map_of keys jid = Some (t, job_audio_key jid) \<and> os (t, job_audio_key jid) = Some c
     \<and> kept_objects (- {jid}) (as_objects s) os \<and> fst ` set previews \<subseteq> fst ` set (as_previews s)"
proof -
  let ?key = "job_audio_key jid" and ?keys = "as_audio_keys s @ [(jid, t, job_audio_key jid)]"
  let ?s = "s\<lparr>as_objects := (as_objects s)((t, job_audio_key jid) \<mapsto> c), as_audio_keys := ?keys\<rparr>"
  have "linked_audio (as_audio_keys s) (as_objects s)" using ok by (simp add: retained_ok_def)
  then have lk: "linked_audio ?keys (as_objects ?s)" using linked_put[OF _ new] by simp
  define kept where "kept = drop (length ?keys - MAX_RETAINED_JOB_AUDIO) ?keys"
  have "as_audio_keys ?s = ?keys" by simp
  from evict_memory[OF this lk] obtain os where evict: "evict_audio memory_objects ?keys ?s =
      (?s\<lparr>as_audio_keys := kept, as_objects := os\<rparr>, Inr ())" and os: "linked_audio kept os"
      "\<forall>k\<in>dom os. os k = as_objects ?s k" unfolding kept_def by blast
  define previews where "previews = filter (\<lambda>(j, p). j \<in> fst ` set kept) (as_previews s)"
  let ?s' = "s\<lparr>as_audio_keys := kept, as_objects := os, as_previews := previews\<rparr>"
  have run: "retain_job_audio a t jid c s = (?s', Inr ?key)"
    using evict by (simp add: retain_job_audio_def Let_def bindS_def on_objects_eq objects modifyS_def
        readS_def returnS_def update_new_key[OF new] previews_def)
  have "length (as_audio_keys s) \<le> MAX_RETAINED_JOB_AUDIO" using ok by (simp add: retained_ok_def)
  then have len: "length ?keys - MAX_RETAINED_JOB_AUDIO \<le> length (as_audio_keys s)"
    by (simp add: MAX_RETAINED_JOB_AUDIO_def)
  then have mem: "(jid, t, ?key) \<in> set kept" by (simp add: kept_def)
  have sub: "set kept \<subseteq> set ?keys" by (auto simp: kept_def dest: in_set_dropD)
  have "retained_ok ?s'"
    unfolding retained_ok_def
  proof (intro conjI)
    show "wf_jobs (as_jobs ?s')" using ok by (simp add: retained_ok_def)
    show "linked_audio (as_audio_keys ?s') (as_objects ?s')" using os by simp
    show "length (as_audio_keys ?s') \<le> MAX_RETAINED_JOB_AUDIO" by (simp add: kept_def)
    show "\<forall>(jid, t, k)\<in>set (as_audio_keys ?s'). \<exists>j. js_jobs (as_jobs ?s') jid = Some j \<and> tenant_id j = t"
    proof clarify
      fix i u k assume "(i, u, k) \<in> set (as_audio_keys ?s')"
      then have "(i, u, k) \<in> set ?keys" using sub by auto
      then show "\<exists>j. js_jobs (as_jobs ?s') i = Some j \<and> tenant_id j = u"
        using ok j by (auto simp: retained_ok_def)
    qed
    show "fst ` set (as_previews ?s') \<subseteq> fst ` set (as_audio_keys ?s')"
      by (rule image_subsetI) (simp add: previews_def case_prod_unfold)
  qed
  moreover have "map_of kept jid = Some (t, ?key)"
    using os(1) mem by (intro map_of_is_SomeI) (simp_all add: linked_audio_def)
  moreover have "os (t, ?key) = Some c"
  proof -
    have "(t, ?key) \<in> snd ` set kept" using mem by (metis image_eqI snd_conv)
    then have "(t, ?key) \<in> dom os" using os(1) by (simp add: linked_audio_def)
    then show ?thesis using os(2) by simp
  qed
  moreover have "kept_objects (- {jid}) (as_objects s) os"
    unfolding kept_objects_def
  proof (intro allI ballI)
    fix u i assume "i \<in> - {jid}"
    then have "as_objects ?s (u, job_audio_key i) = as_objects s (u, job_audio_key i)" by simp
    moreover have "os (u, job_audio_key i) = None \<or> os (u, job_audio_key i) = as_objects ?s (u, job_audio_key i)"
      using os(2) by (metis domIff)
    ultimately show "os (u, job_audio_key i) = None \<or> os (u, job_audio_key i) = as_objects s (u, job_audio_key i)"
      by (simp only:)
  qed
  moreover have "fst ` set previews \<subseteq> fst ` set (as_previews s)"
    unfolding previews_def by (rule image_mono) auto
  ultimately show ?thesis using run by blast
qed


lemma data_chunk_raises: "data_chunk payload rest = Inl e \<Longrightarrow> e = StructError"
proof (induction payload rest rule: data_chunk.induct)
  case (1 payload rest)
  then show ?case by (subst (asm) data_chunk.simps) (auto simp: Let_def split: if_splits)
qed

lemma strip_raises:
  "(if api_engine a = ''fake'' then strip_wav_header content else Inr content) = Inl e \<Longrightarrow> \<forall>d. e \<noteq> Sastt d"
  using data_chunk_raises by (auto simp: strip_wav_header_def split: if_splits)

section \<open>A run in the process\<close>

interpretation unchanged: state_relation "(=) :: 's \<Rightarrow> 's \<Rightarrow> bool"
  by unfold_locales auto

lemma offline_run_unchanged: "fst (offline_run p pin payload jid sid given (\<lambda>_. returnS ()) s) = s"
proof -
  have "unchanged.keeps (offline_run p pin payload jid sid given (\<lambda>_. returnS ()))"
    by (rule unchanged.keeps_offline_run) (rule unchanged.keeps_return)
  then have "\<forall>s. s = fst (offline_run p pin payload jid sid given (\<lambda>_. returnS ()) s)"
    unfolding unchanged.keeps_def .
  then show ?thesis by metis
qed

text \<open>Every value an action can return satisfies \<open>P\<close>.\<close>

definition gives :: "('a \<Rightarrow> bool) \<Rightarrow> ('s, 'a) action \<Rightarrow> bool" where
  "gives P m \<longleftrightarrow> (\<forall>s s' x. m s = (s', Inr x) \<longrightarrow> P x)"

lemma gives_return: "P x \<Longrightarrow> gives P (returnS x)"
  by (simp add: gives_def returnS_def)

lemma gives_bind: "(\<And>x. gives P (f x)) \<Longrightarrow> gives P (bindS m f)"
  unfolding gives_def bindS_eq_Inr by blast

lemma gives_pair: "(\<And>x y. gives P (f x y)) \<Longrightarrow> gives P (case v of (x, y) \<Rightarrow> f x y)"
  by (simp split: prod.split)

lemma offline_run_state:
  assumes "offline_run p pin payload jid sid given report s = (s', Inr r)"
  shows "or_state r \<in> {SUCCEEDED, DEGRADED_SUCCEEDED}"
proof -
  have "gives (\<lambda>r. or_state r \<in> {SUCCEEDED, DEGRADED_SUCCEEDED}) (offline_run p pin payload jid sid given report)"
    unfolding offline_run_def Let_def by (intro gives_bind gives_pair gives_return) simp
  then show ?thesis using assms unfolding gives_def by blast
qed

lemma put_job_again [simp]: "put_job j i (put_job k i js) = put_job j i js"
  by (simp add: put_job_def)

lemma transition_memory:
  assumes "api_jobs a = memory_jobs" and "\<not> job_is_terminal j"
  shows "transition_job a j st s
    = (s\<lparr>as_jobs := put_job (j\<lparr>job_status := st\<rparr>) (job_id j) (as_jobs s)\<rparr>, Inr (j\<lparr>job_status := st\<rparr>))"
  using assms by (simp add: transition_job_def job_transition_def bindS_def liftS_def on_jobs_eq modifyS_def returnS_def)

lemma open_states [simp]:
  "\<not> job_is_terminal (j\<lparr>job_status := PREPROCESSING\<rparr>)"
  "\<not> job_is_terminal (j\<lparr>job_status := PREPROCESSING, job_error := e\<rparr>)"
  "\<not> job_is_terminal (j\<lparr>job_status := QUEUED\<rparr>)"
  by (simp_all add: job_is_terminal_def TERMINAL_JOB_STATES_def)

text \<open>How a run ends: not started, left open, failed, or with its result.\<close>

lemma run_job_cases:
  fixes s :: "(job_store, 'o, 'q) app_state" and j :: job
  assumes jobs: "api_jobs a = memory_jobs" and fresh: "\<not> job_is_terminal j"
  defines "now_job st failure \<equiv> put_job (j\<lparr>job_error := failure, job_status := st\<rparr>) (job_id j) (as_jobs s)"
  obtains (unready) e where "api_adapters a scenario = Inl e"
      "run_job a j scenario content t c s = (s, Inl e)"
    | (left_open) e where "\<forall>d. e \<noteq> Sastt d"
      "run_job a j scenario content t c s = (s\<lparr>as_jobs := now_job PREPROCESSING (job_error j)\<rparr>, Inl e)"
    | (failed) d where
      "run_job a j scenario content t c s = (s\<lparr>as_jobs := now_job FAILED (Some (error_text d))\<rparr>, Inl (Sastt d))"
    | (finished) r where "or_state r \<in> {SUCCEEDED, DEGRADED_SUCCEEDED}"
      "run_job a j scenario content t c s
        = (s\<lparr>as_jobs := now_job (or_state r) (job_error j), as_results := (as_results s)(job_id j \<mapsto> r)\<rparr>,
           Inr (j\<lparr>job_status := or_state r\<rparr>))"
proof (cases "api_adapters a scenario")
  case (Inl e)
  then show ?thesis using unready by (simp add: run_job_def bind_raise)
next
  case (Inr ports)
  let ?j = "j\<lparr>job_status := PREPROCESSING\<rparr>" and ?p = "job_pipeline a t c ports (as_registry s)"
  let ?s = "s\<lparr>as_jobs := put_job ?j (job_id j) (as_jobs s)\<rparr>"
  have put: "put_job ?j (job_id j) (as_jobs s) = now_job PREPROCESSING (job_error j)" unfolding now_job_def by simp
  define payload where "payload = (if api_engine a = ''fake'' then strip_wav_header content else Inr content)"
  note run_def = run_job_def[of a j scenario content t c] Inr bind_lift bind_read
    bindS_returns[of "transition_job a j PREPROCESSING"] transition_memory[OF jobs fresh]
  show ?thesis
  proof (cases payload)
    case (Inl e)
    then have "\<forall>d. e \<noteq> Sastt d" unfolding payload_def by (rule strip_raises)
    moreover have "run_job a j scenario content t c s = (?s, Inl e)"
      using Inl by (simp add: run_def payload_def bind_raise)
    ultimately show ?thesis using left_open put by metis
  next
    case payload: (Inr audio)
    let ?run = "offline_run ?p no_pin audio (Some (job_id j)) None None (\<lambda>_. returnS ()) ?s"
    have fst: "fst ?run = ?s" by (rule offline_run_unchanged)
    have prepared: "run_job a j scenario content t c s =
      bindS (on_domain_error (offline_run ?p no_pin audio (Some (job_id j)) None None (\<lambda>_. returnS ()))
          (\<lambda>e. bindS (transition_job a (?j\<lparr>job_error := Some (error_text e)\<rparr>) FAILED) (\<lambda>_. returnS ())))
        (\<lambda>r. bindS (modifyS (\<lambda>s. s\<lparr>as_results := (as_results s)(job_id j \<mapsto> r)\<rparr>)) (\<lambda>_.
           transition_job a ?j (or_state r))) ?s"
      using payload by (simp add: run_def payload_def)
    show ?thesis
    proof (cases "snd ?run")
      case r: (Inr r)
      then have run: "?run = (?s, Inr r)" using fst by (metis prod.collapse)
      then have ok: "or_state r \<in> {SUCCEEDED, DEGRADED_SUCCEEDED}" by (rule offline_run_state)
      have "run_job a j scenario content t c s = transition_job a ?j (or_state r) (?s\<lparr>as_results := (as_results s)(job_id j \<mapsto> r)\<rparr>)"
        using run by (simp add: prepared on_domain_error_def bindS_def modifyS_def)
      then have "run_job a j scenario content t c s
          = (s\<lparr>as_jobs := now_job (or_state r) (job_error j), as_results := (as_results s)(job_id j \<mapsto> r)\<rparr>,
             Inr (j\<lparr>job_status := or_state r\<rparr>))"
        by (simp add: transition_memory[OF jobs] now_job_def)
      then show ?thesis using finished ok by blast
    next
      case e: (Inl e)
      then have run: "?run = (?s, Inl e)" using fst by (metis prod.collapse)
      show ?thesis
      proof (cases "\<exists>d. e = Sastt d")
        case True
        then obtain d where d: "e = Sastt d" by blast
        have "run_job a j scenario content t c s = (?s\<lparr>as_jobs := now_job FAILED (Some (error_text d))\<rparr>, Inl (Sastt d))"
          using run d
          by (simp add: prepared on_domain_error_def bindS_def liftS_def returnS_def
              transition_memory[OF jobs] now_job_def)
        then show ?thesis using failed by simp
      next
        case False
        then have "run_job a j scenario content t c s = (?s, Inl e)"
          using run
          by (cases e) (simp_all add: prepared on_domain_error_def bindS_def)
        then show ?thesis using left_open False put by metis
      qed
    qed
  qed
qed


section \<open>A task for a worker\<close>

lemma on_queue_eqs:
  "fst (on_queue m s) = s\<lparr>as_queue := fst (m (as_queue s))\<rparr>" "snd (on_queue m s) = snd (m (as_queue s))"
  by (simp_all add: on_queue_eq)

text \<open>A refused task closes the job and takes its audio away; any other error leaves both.\<close>

lemma queue_job_cases:
  fixes s :: "(job_store, bytes object_store, 'q) app_state" and j :: job
  assumes ports: "api_jobs a = memory_jobs" "api_objects a = memory_objects"
    and stored: "js_jobs (as_jobs s) jid = Some j" "tenant_id j = t" "\<not> job_is_terminal j"
  obtains (queued) q' task where
      "enqueue q tid now ''speaker.batch'' t jid (Some (task_fields payload key language)) (as_queue s) = (q', Inr task)"
      "queue_job a q tid now payload t jid key language s = (s\<lparr>as_queue := q'\<rparr>, Inr task)"
    | (broken) q' e where "\<forall>d. e \<noteq> Sastt d"
      "enqueue q tid now ''speaker.batch'' t jid (Some (task_fields payload key language)) (as_queue s) = (q', Inl e)"
      "queue_job a q tid now payload t jid key language s = (s\<lparr>as_queue := q'\<rparr>, Inl e)"
    | (refused) q' d where
      "enqueue q tid now ''speaker.batch'' t jid (Some (task_fields payload key language)) (as_queue s) = (q', Inl (Sastt d))"
      "queue_job a q tid now payload t jid key language s
        = (s\<lparr>as_queue := q', as_objects := (as_objects s)((t, key) := None),
             as_audio_keys := AList.delete jid (as_audio_keys s),
             as_jobs := put_job (j\<lparr>job_status := CANCELLED\<rparr>) jid (as_jobs s)\<rparr>, Inl (Sastt d))"
proof -
  obtain q' r where run: "enqueue q tid now ''speaker.batch'' t jid (Some (task_fields payload key language)) (as_queue s)
      = (q', r)" by (rule prod.exhaust)
  have upd: "update_state t jid CANCELLED (as_jobs s)
      = Inr (put_job (j\<lparr>job_status := CANCELLED\<rparr>) jid (as_jobs s), j\<lparr>job_status := CANCELLED\<rparr>)"
    using stored by (simp add: update_state_def job_get_def job_transition_def bindR_def)
  show ?thesis
  proof (cases r)
    case (Inr task)
    then show ?thesis using queued run by (simp add: queue_job_def on_domain_error_def on_queue_eq)
  next
    case (Inl e)
    show ?thesis
    proof (cases "\<exists>d. e = Sastt d")
      case True
      then obtain d where "r = Inl (Sastt d)" using Inl by blast
      then show ?thesis using refused run upd
        by (simp add: queue_job_def on_domain_error_def on_queue_eq bindS_def on_objects_eq on_jobs_eq modifyS_def
            liftS_def returnS_def updateS_def ports)
    next
      case False
      then have "queue_job a q tid now payload t jid key language s = (s\<lparr>as_queue := q'\<rparr>, Inl e)"
        using run Inl by (cases e) (simp_all add: queue_job_def on_domain_error_def on_queue_eq)
      then show ?thesis using broken run Inl False by blast
    qed
  qed
qed

section \<open>Requests over time\<close>

text \<open>
  What a request leaves of the state before it: jobs keep their identity, the audio that is still there
  is what was uploaded, and the voices and their names change only by requests for them.
\<close>

definition kept_results :: "string set \<Rightarrow> (string \<Rightarrow> offline_result option) \<Rightarrow> (string \<Rightarrow> offline_result option) \<Rightarrow> bool" where
  "kept_results I rs rs' \<longleftrightarrow> (\<forall>i\<in>I. rs' i = None \<or> rs' i = rs i)"

definition serves :: "string set \<Rightarrow> (job_store, bytes object_store, 'q) app_state \<Rightarrow> (job_store, bytes object_store, 'q) app_state \<Rightarrow> bool" where
  "serves I s s' \<longleftrightarrow> retained_ok s' \<and> jobs_kept (as_jobs s) (as_jobs s') \<and> kept_objects I (as_objects s) (as_objects s')
     \<and> kept_results I (as_results s) (as_results s')
     \<and> as_registry s' = as_registry s \<and> as_identities s' = as_identities s"

lemma retained_jobs:
  assumes "retained_ok s" and "js_jobs (as_jobs s) i = Some j" and "job_kept j j'"
  shows "retained_ok (s\<lparr>as_jobs := put_job j' i (as_jobs s)\<rparr>)
    \<and> jobs_kept (as_jobs s) (put_job j' i (as_jobs s))"
proof -
  have wf: "wf_jobs (as_jobs s)" using assms(1) by (simp add: retained_ok_def)
  note put = put_job_kept[OF wf assms(2,3)]
  have "tenant_id j' = tenant_id j" using assms(3) by (simp add: job_kept_def)
  then have "\<exists>j. js_jobs (put_job j' i (as_jobs s)) jid = Some j \<and> tenant_id j = t"
    if "(jid, t, k) \<in> set (as_audio_keys s)" for jid t k
    using assms(1,2) that by (cases "jid = i") (auto simp: retained_ok_def put_job_def)
  then show ?thesis using assms(1) put by (auto simp: retained_ok_def)
qed

lemma retained_other:
  "retained_ok (s\<lparr>as_queue := q\<rparr>) = retained_ok s" "retained_ok (s\<lparr>as_results := rs\<rparr>) = retained_ok s"
  "retained_ok (s\<lparr>as_scenarios := sc\<rparr>) = retained_ok s" "retained_ok (s\<lparr>as_languages := ls\<rparr>) = retained_ok s"
  "retained_ok (s\<lparr>as_registry := r\<rparr>) = retained_ok s" "retained_ok (s\<lparr>as_identities := ids\<rparr>) = retained_ok s"
  "retained_ok (s\<lparr>as_sessions := ses\<rparr>) = retained_ok s"
  by (simp_all add: retained_ok_def)

text \<open>Taking the audio of one job away, together with its preview.\<close>

lemma retained_delete:
  assumes ok: "retained_ok s" and "map_of (as_audio_keys s) jid = Some (t, k)"
    and previews: "fst ` set ps \<subseteq> fst ` set (as_previews s)" "jid \<notin> fst ` set ps"
  shows "retained_ok (s\<lparr>as_audio_keys := AList.delete jid (as_audio_keys s),
           as_objects := (as_objects s)((t, k) := None), as_previews := ps\<rparr>)"
proof -
  have "linked_audio (AList.delete jid (as_audio_keys s)) ((as_objects s)((t, k) := None))"
    using linked_delete assms by (auto simp: retained_ok_def)
  moreover have "length (AList.delete jid (as_audio_keys s)) \<le> MAX_RETAINED_JOB_AUDIO"
    using ok by (auto simp: retained_ok_def delete_filter intro: order_trans[OF length_filter_le])
  moreover have "fst ` set ps \<subseteq> fst ` set (AList.delete jid (as_audio_keys s))"
  proof
    have sub: "fst ` set ps \<subseteq> fst ` set (as_audio_keys s)"
      using ok previews(1) unfolding retained_ok_def by (meson subset_trans)
    fix i assume i: "i \<in> fst ` set ps"
    then have "i \<in> fst ` set (as_audio_keys s)" "i \<noteq> jid" using sub previews(2) by blast+
    then show "i \<in> fst ` set (AList.delete jid (as_audio_keys s))" by (auto simp: delete_filter)
  qed
  ultimately show ?thesis using ok by (simp add: retained_ok_def delete_filter)
qed

lemma kept_objects_refl [simp]: "kept_objects I os os"
  by (simp add: kept_objects_def)

lemma kept_objects_delete: "kept_objects I os os' \<Longrightarrow> kept_objects I os (os'(x := None))"
  by (simp add: kept_objects_def)

lemma kept_results_simps [simp]:
  "kept_results I rs rs" "kept_results I rs (rs(i := None))" "kept_results (- {i}) rs (rs(i \<mapsto> r))"
  by (simp_all add: kept_results_def)

lemma serves_mono: "serves UNIV s s' \<Longrightarrow> serves I s s'"
  by (simp add: serves_def kept_objects_def kept_results_def)

text \<open>What a submission does to the job store.\<close>

lemma create_or_get_cases:
  assumes "wf_jobs js" and "create_or_get fresh t k h c js = Inr (js', j, new)"
  shows "if new then j = new_job fresh t k h c
      \<and> js' = \<lparr>js_jobs = (js_jobs js)(fresh \<mapsto> j), js_by_key = (js_by_key js)((t, k) \<mapsto> fresh)\<rparr>
    else js' = js \<and> js_jobs js (job_id j) = Some j \<and> tenant_id j = t"
proof (cases "js_by_key js (t, k)")
  case None
  then show ?thesis using assms(2) by (auto simp: create_or_get_def Let_def new_job_def)
next
  case (Some i)
  then obtain j0 where "js_jobs js i = Some j0" "tenant_id j0 = t" "job_id j0 = i"
    using wf_jobs_key[OF assms(1)] by blast
  then show ?thesis using assms(2) Some by (auto simp: create_or_get_def split: if_splits)
qed

text \<open>A job is started once its audio is kept.\<close>

lemma start_job_retains:
  fixes s :: "(job_store, bytes object_store, 'q) app_state"
  assumes objects: "api_objects a = memory_objects" and ok: "retained_ok s" and new: "job_id j \<notin> fst ` set (as_audio_keys s)"
    and stored: "js_jobs (as_jobs s) (job_id j) = Some j" "tenant_id j = t"
  obtains s2 where "start_job a tid now payload language scenario content t j s = (case api_queue a of
         None \<Rightarrow> run_job a j scenario content t (config_with_asr_language (api_config a) language) s2
       | Some q \<Rightarrow> bindS (queue_job a q tid now payload t (job_id j) (job_audio_key (job_id j)) language) (\<lambda>_. returnS j) s2)"
    "retained_ok s2" "as_jobs s2 = as_jobs s" "as_registry s2 = as_registry s" "as_identities s2 = as_identities s"
    "as_queue s2 = as_queue s" "as_results s2 = as_results s"
    "map_of (as_audio_keys s2) (job_id j) = Some (t, job_audio_key (job_id j))" "job_id j \<notin> fst ` set (as_previews s2)"
    "as_objects s2 (t, job_audio_key (job_id j)) = Some content" "kept_objects (- {job_id j}) (as_objects s) (as_objects s2)"
proof -
  let ?jid = "job_id j" and ?name = "case truthy_field payload ''scenario'' of None \<Rightarrow> ''upload'' | Some v \<Rightarrow> text_of (api_show a) v"
  let ?s1 = "s\<lparr>as_scenarios := (as_scenarios s)(?jid \<mapsto> ?name), as_languages := (as_languages s)(?jid \<mapsto> language)\<rparr>"
  have "retained_ok ?s1" using ok by (simp add: retained_other)
  from retain_memory[OF objects this, of ?jid j t content] obtain keys os previews where
    ret: "retain_job_audio a t ?jid content ?s1
      = (?s1\<lparr>as_audio_keys := keys, as_objects := os, as_previews := previews\<rparr>, Inr (job_audio_key ?jid))"
    and ok2: "retained_ok (?s1\<lparr>as_audio_keys := keys, as_objects := os, as_previews := previews\<rparr>)"
    and key: "map_of keys ?jid = Some (t, job_audio_key ?jid)" "os (t, job_audio_key ?jid) = Some content"
    and bytes: "kept_objects (- {job_id j}) (as_objects s) os" and ps: "fst ` set previews \<subseteq> fst ` set (as_previews s)"
    using new stored by auto
  define s2 where "s2 = ?s1\<lparr>as_audio_keys := keys, as_objects := os, as_previews := previews\<rparr>"
  have start: "start_job a tid now payload language scenario content t j s = (case api_queue a of
         None \<Rightarrow> run_job a j scenario content t (config_with_asr_language (api_config a) language) s2
       | Some q \<Rightarrow> bindS (queue_job a q tid now payload t ?jid (job_audio_key ?jid) language) (\<lambda>_. returnS j) s2)"
    using ret by (simp add: start_job_def bind_modify bindS_returns s2_def split: option.split)
  have "fst ` set (as_previews s) \<subseteq> fst ` set (as_audio_keys s)" using ok by (simp add: retained_ok_def)
  then have "?jid \<notin> fst ` set previews" using ps new by blast
  then show thesis using that[OF start] ok2 key bytes by (simp add: s2_def)
qed

lemma start_job_serves:
  fixes s :: "(job_store, bytes object_store, 'q) app_state"
  assumes ports: "api_jobs a = memory_jobs" "api_objects a = memory_objects"
    and ok: "retained_ok s" and new: "job_id j \<notin> fst ` set (as_audio_keys s)"
    and stored: "js_jobs (as_jobs s) (job_id j) = Some j" "tenant_id j = t" "job_status j = QUEUED"
  shows "serves (- {job_id j}) s (fst (start_job a tid now payload language scenario content t j s))"
proof -
  let ?jid = "job_id j" and ?c = "config_with_asr_language (api_config a) language"
  have open_job: "\<not> job_is_terminal j" using stored(3) by (simp add: job_is_terminal_def TERMINAL_JOB_STATES_def)
  obtain s2 where start: "start_job a tid now payload language scenario content t j s = (case api_queue a of
         None \<Rightarrow> run_job a j scenario content t ?c s2
       | Some q \<Rightarrow> bindS (queue_job a q tid now payload t ?jid (job_audio_key ?jid) language) (\<lambda>_. returnS j) s2)"
    and ok2: "retained_ok s2" and s2: "as_jobs s2 = as_jobs s" "as_registry s2 = as_registry s"
      "as_identities s2 = as_identities s" "as_results s2 = as_results s"
    and key: "map_of (as_audio_keys s2) ?jid = Some (t, job_audio_key ?jid)" "?jid \<notin> fst ` set (as_previews s2)"
    and bytes: "kept_objects (- {?jid}) (as_objects s) (as_objects s2)"
    by (rule start_job_retains[OF ports(2) ok new stored(1,2)])
  have stored2: "js_jobs (as_jobs s2) ?jid = Some j" using stored s2 by simp
  have moved: "retained_ok (s2\<lparr>as_jobs := put_job j' ?jid (as_jobs s2)\<rparr>)
      \<and> jobs_kept (as_jobs s2) (put_job j' ?jid (as_jobs s2))" if "job_kept j j'" for j'
    by (rule retained_jobs[OF ok2 stored2 that])
  have kept: "job_kept j (j\<lparr>job_error := e, job_status := st\<rparr>)" "job_kept j (j\<lparr>job_status := st\<rparr>)" for e st
    using open_job by (simp_all add: job_kept_def)
  show ?thesis
  proof (cases "api_queue a")
    case None
    then have run: "start_job a tid now payload language scenario content t j s = run_job a j scenario content t ?c s2"
      using start by simp
    from ports(1) open_job show ?thesis
    proof (cases rule: run_job_cases[where s = s2 and scenario = scenario and content = content and t = t and c = ?c])
      case (unready e)
      then show ?thesis using run ok2 bytes s2 by (simp add: serves_def)
    next
      case (left_open e)
      then show ?thesis using run moved[OF kept(2)] bytes s2 by (simp add: serves_def)
    next
      case (failed d)
      then show ?thesis using run moved[OF kept(1)] bytes s2 by (simp add: serves_def)
    next
      case (finished r)
      then show ?thesis using run moved[OF kept(2)] bytes s2 by (simp add: serves_def retained_other)
    qed
  next
    case (Some q)
    then have run: "fst (start_job a tid now payload language scenario content t j s)
        = fst (queue_job a q tid now payload t ?jid (job_audio_key ?jid) language s2)"
      using start by (simp add: bind_ignore)
    from ports stored2 stored(2) open_job show ?thesis
    proof (cases rule: queue_job_cases[where q = q and tid = tid and now = now
          and payload = payload and key = "job_audio_key ?jid" and language = language])
      case (queued q' task)
      then show ?thesis using run ok2 bytes s2 by (simp add: serves_def retained_other)
    next
      case (broken q' e)
      then show ?thesis using run ok2 bytes s2 by (simp add: serves_def retained_other)
    next
      case (refused q' d)
      have ok3: "retained_ok (s2\<lparr>as_audio_keys := AList.delete ?jid (as_audio_keys s2),
           as_objects := (as_objects s2)((t, job_audio_key ?jid) := None), as_previews := as_previews s2\<rparr>)"
        by (rule retained_delete[OF ok2 key(1) subset_refl key(2)])
      show ?thesis
        using retained_jobs[OF ok3 _ kept(2)[of CANCELLED], of ?jid] stored2 bytes run refused(2) s2
        by (simp add: serves_def retained_ok_def kept_objects_delete)
    qed
  qed
qed


text \<open>The checks of a submission and what the store answers.\<close>

lemma create_job_memory:
  fixes s :: "(job_store, 'o, 'q) app_state"
  assumes "api_jobs a = memory_jobs"
  shows "create_job a fresh tid now payload key t s =
    (if \<not> truthy key then (s, Inl (HttpError 400))
     else case requested_asr_language (map_of payload ''language'') of Inl e \<Rightarrow> (s, Inl e)
     | Inr language \<Rightarrow> (case job_input a payload of Inl e \<Rightarrow> (s, Inl e)
     | Inr (scenario, content) \<Rightarrow>
         (case create_or_get fresh t (or_else key []) (api_sha256 a content)
                 (Some (api_config_version a (config_with_asr_language (api_config a) language))) (as_jobs s) of
            Inl e \<Rightarrow> (s, Inl (if e = Sastt IdempotencyConflictError then HttpError 409 else e))
          | Inr (js, j, new) \<Rightarrow>
              bindS (if new then start_job a tid now payload language scenario content t j else returnS j)
                (\<lambda>j'. readS (job_view a j' new)) (s\<lparr>as_jobs := js\<rparr>))))"
proof -
  have conflict: "or_conflict (on_jobs (jp_create (api_jobs a) fresh t k h c)) s
      = (case create_or_get fresh t k h c (as_jobs s) of
           Inl e \<Rightarrow> (s, Inl (if e = Sastt IdempotencyConflictError then HttpError 409 else e))
         | Inr (js, j, new) \<Rightarrow> (s\<lparr>as_jobs := js\<rparr>, Inr (j, new)))" for k h c
    by (auto simp: or_conflict_def on_jobs_eq assms memory_jobs_def updateS_def bindR_def
        split: sum.split prod.split exn.split sastt_error.split)
  show ?thesis
  proof (cases "truthy key")
    case False
    then show ?thesis by (simp add: create_job_def liftS_def)
  next
    case key: True
    show ?thesis
    proof (cases "requested_asr_language (map_of payload ''language'')")
      case (Inl e)
      then show ?thesis using key by (simp add: create_job_def bind_raise)
    next
      case language: (Inr language)
      show ?thesis
      proof (cases "job_input a payload")
        case (Inl e)
        then show ?thesis using key language by (simp add: create_job_def bind_raise bind_lift)
      next
        case (Inr inp)
        then show ?thesis using key language
          by (cases inp) (simp add: create_job_def bind_lift bindS_def[of "or_conflict _"] conflict split: sum.split prod.split)
      qed
    qed
  qed
qed

lemma serves_refl: "retained_ok s \<Longrightarrow> serves I s s"
  by (simp add: serves_def)

lemma create_job_serves:
  fixes s :: "(job_store, bytes object_store, 'q) app_state"
  assumes ports: "api_jobs a = memory_jobs" "api_objects a = memory_objects"
    and ok: "retained_ok s" and fresh: "js_jobs (as_jobs s) fresh = None"
  shows "serves (dom (js_jobs (as_jobs s))) s (fst (create_job a fresh tid now payload key t s))"
proof (cases "\<exists>language scenario content js j. truthy key
    \<and> requested_asr_language (map_of payload ''language'') = Inr language \<and> job_input a payload = Inr (scenario, content)
    \<and> create_or_get fresh t (or_else key []) (api_sha256 a content)
        (Some (api_config_version a (config_with_asr_language (api_config a) language))) (as_jobs s) = Inr (js, j, True)")
  case False
  have wf: "wf_jobs (as_jobs s)" using ok by (simp add: retained_ok_def)
  have "fst (create_job a fresh tid now payload key t s) = s"
    using False create_or_get_cases[OF wf, of fresh t "or_else key []"]
    by (auto simp: create_job_memory[OF ports(1)] bind_return readS_def split: sum.split)
  then show ?thesis using ok by (simp add: serves_refl)
next
  case True
  then obtain language scenario content js j where run: "truthy key"
      "requested_asr_language (map_of payload ''language'') = Inr language" "job_input a payload = Inr (scenario, content)"
    and created: "create_or_get fresh t (or_else key []) (api_sha256 a content)
        (Some (api_config_version a (config_with_asr_language (api_config a) language))) (as_jobs s) = Inr (js, j, True)"
    by blast
  have wf: "wf_jobs (as_jobs s)" using ok by (simp add: retained_ok_def)
  note kept = create_or_get_kept[OF wf fresh created] and new = create_or_get_cases[OF wf created]
  have j: "job_id j = fresh" "tenant_id j = t" "job_status j = QUEUED" "js_jobs js (job_id j) = Some j"
    using new kept by (simp_all add: new_job_def)
  have none: "fresh \<notin> fst ` set (as_audio_keys s)" using ok fresh by (force simp: retained_ok_def)
  have ok1: "retained_ok (s\<lparr>as_jobs := js\<rparr>)"
    using ok kept fresh new by (force simp: retained_ok_def)
  have "serves (- {job_id j}) (s\<lparr>as_jobs := js\<rparr>) (fst (start_job a tid now payload language scenario content t j (s\<lparr>as_jobs := js\<rparr>)))"
    by (rule start_job_serves[OF ports ok1]) (use j none in auto)
  moreover have "fst (create_job a fresh tid now payload key t s)
      = fst (start_job a tid now payload language scenario content t j (s\<lparr>as_jobs := js\<rparr>))"
    using run created by (simp add: create_job_memory[OF ports(1)] bindS_def readS_def split: sum.split prod.split)
  moreover have "dom (js_jobs (as_jobs s)) \<subseteq> - {job_id j}" using fresh j by auto
  ultimately show ?thesis using kept
    by (auto simp: serves_def jobs_kept_trans[of "as_jobs s" js] kept_objects_def kept_results_def)
qed


section \<open>The other endpoints\<close>

lemma get_job_unchanged:
  assumes "api_jobs a = memory_jobs"
  shows "fst (get_job a t jid s) = s" "fst (get_job_result a t jid s) = s"
proof -
  show "fst (get_job a t jid s) = s"
    by (cases "job_get t jid (as_jobs s)")
      (simp_all add: get_job_def bindS_def on_jobs_eq assms readS_def)
  show "fst (get_job_result a t jid s) = s"
  proof (cases "job_get t jid (as_jobs s)")
    case (Inr j)
    then show ?thesis
      by (cases "as_results s (job_id j)")
        (simp_all add: get_job_result_def bindS_def on_jobs_eq assms readS_def returnS_def liftS_def)
  qed (simp add: get_job_result_def bindS_def on_jobs_eq assms)
qed

lemma present_audio:
  assumes "linked_audio (as_audio_keys s) (as_objects s)"
    and "object_get t (retained_key s jid) (as_objects s) = Inr payload"
  shows "jid \<in> fst ` set (as_audio_keys s)"
proof (cases "map_of (as_audio_keys s) jid")
  case None
  then have "(t, job_audio_key jid) \<in> dom (as_objects s)"
    using assms(2) by (auto simp: retained_key_def object_get_def split: option.splits)
  from linked_object[OF assms(1) this] show ?thesis by force
next
  case (Some x)
  then show ?thesis by (metis map_of_eq_None_iff option.distinct(1))
qed

lemma update_keys: "fst ` set (AList.update k v al) = insert k (fst ` set al)"
  by (induction al) auto

lemma get_job_audio_serves:
  fixes s :: "(job_store, bytes object_store, 'q) app_state"
  assumes ports: "api_jobs a = memory_jobs" "api_objects a = memory_objects" and ok: "retained_ok s"
  shows "\<exists>ps. fst (get_job_audio a preview t jid s) = s\<lparr>as_previews := ps\<rparr> \<and> retained_ok (s\<lparr>as_previews := ps\<rparr>)"
proof -
  have same: "\<exists>ps. s = s\<lparr>as_previews := ps\<rparr> \<and> retained_ok (s\<lparr>as_previews := ps\<rparr>)"
    using ok by (intro exI[of _ "as_previews s"]) simp
  show ?thesis
  proof (cases "job_get t jid (as_jobs s)")
    case (Inl e)
    then show ?thesis using same by (simp add: get_job_audio_def bindS_def on_jobs_eq ports)
  next
    case (Inr j)
    let ?key = "retained_key s (job_id j)"
    show ?thesis
    proof (cases "object_get t ?key (as_objects s)")
      case (Inl e)
      then have "\<exists>r. or_gone (on_objects (op_get memory_objects t ?key)) s = (s, Inl r)"
        by (auto simp: or_gone_def on_objects_eq split: exn.split)
      then show ?thesis using same Inr by (auto simp: get_job_audio_def bindS_def on_jobs_eq ports readS_def)
    next
      case audio: (Inr payload)
      have got: "or_gone (on_objects (op_get memory_objects t ?key)) s = (s, Inr payload)"
        using audio by (simp add: or_gone_def on_objects_eq)
      have mem: "job_id j \<in> fst ` set (as_audio_keys s)"
        using present_audio[OF _ audio] ok by (simp add: retained_ok_def)
      have run: "fst (get_job_audio a preview t jid s)
          = fst ((if preview then job_preview a (job_id j) payload else returnS None) s)"
        using Inr got by (simp add: get_job_audio_def bindS_def on_jobs_eq ports readS_def returnS_def
            split: prod.split sum.split)
      show ?thesis
      proof (cases "preview \<and> map_of (as_previews s) (job_id j) = None \<and> api_preview a payload \<noteq> None")
        case True
        then obtain p where p: "api_preview a payload = Some p" by blast
        let ?ps = "AList.update (job_id j) p (as_previews s)"
        have "retained_ok (s\<lparr>as_previews := ?ps\<rparr>)"
          using ok mem by (simp add: retained_ok_def update_keys)
        then show ?thesis using run True p
          by (intro exI[of _ ?ps]) (simp add: job_preview_def bindS_def readS_def modifyS_def returnS_def)
      next
        case False
        then have "fst ((if preview then job_preview a (job_id j) payload else returnS None) s) = s"
          by (auto simp: job_preview_def bindS_def readS_def returnS_def split: option.split)
        then show ?thesis using same run by simp
      qed
    qed
  qed
qed

lemma alist_delete_absent: "map_of al k = None \<Longrightarrow> AList.delete k al = al"
  by (auto simp: delete_filter filter_id_conv map_of_eq_None_iff)

text \<open>What forgetting a job leaves.\<close>

definition forgotten :: "string \<Rightarrow> (job_store, bytes object_store, 'q) app_state \<Rightarrow> (job_store, bytes object_store, 'q) app_state" where
  "forgotten jid s = s\<lparr>as_results := (as_results s)(jid := None), as_audio_keys := AList.delete jid (as_audio_keys s),
     as_previews := AList.delete jid (as_previews s),
     as_objects := (case map_of (as_audio_keys s) jid of None \<Rightarrow> as_objects s | Some x \<Rightarrow> (as_objects s)(x := None))\<rparr>"

lemma forget_memory:
  fixes s :: "(job_store, bytes object_store, 'q) app_state"
  assumes "api_objects a = memory_objects"
  shows "forget_job a jid s = (forgotten jid s, Inr ())"
proof (cases "map_of (as_audio_keys s) jid")
  case None
  then show ?thesis by (cases s) (simp add: forget_job_def forgotten_def bindS_def readS_def modifyS_def returnS_def)
next
  case (Some x)
  then show ?thesis
    by (cases x) (simp add: forget_job_def forgotten_def bindS_def readS_def modifyS_def returnS_def on_objects_eq assms)
qed

lemma forgotten_ok:
  assumes ok: "retained_ok s"
  shows "retained_ok (forgotten jid s) \<and> kept_objects UNIV (as_objects s) (as_objects (forgotten jid s))"
proof
  show "kept_objects UNIV (as_objects s) (as_objects (forgotten jid s))"
    by (simp add: forgotten_def kept_objects_delete split: option.split)
  have ps: "fst ` set (AList.delete jid (as_previews s)) \<subseteq> fst ` set (as_previews s)"
      "jid \<notin> fst ` set (AList.delete jid (as_previews s))" by (auto simp: delete_filter)
  show "retained_ok (forgotten jid s)"
  proof (cases "map_of (as_audio_keys s) jid")
    case None
    have "fst ` set (AList.delete jid (as_previews s)) \<subseteq> fst ` set (as_audio_keys s)"
      using ps(1) ok unfolding retained_ok_def by (meson subset_trans)
    then show ?thesis using ok None by (simp add: forgotten_def retained_ok_def alist_delete_absent)
  next
    case (Some x)
    with retained_delete[OF ok, of jid "fst x" "snd x", OF _ ps] show ?thesis
      by (simp add: forgotten_def retained_ok_def)
  qed
qed

lemma delete_job_memory:
  fixes s :: "(job_store, bytes object_store, 'q) app_state"
  assumes ports: "api_jobs a = memory_jobs" "api_objects a = memory_objects"
  shows "delete_job a t jid s =
    (case job_get t jid (as_jobs s) of Inl e \<Rightarrow> (s, Inl e)
     | Inr j \<Rightarrow>
         bindS (if job_is_terminal j then returnS j
                else on_jobs (jp_update memory_jobs t (job_id j) CANCELLED)) (\<lambda>j'.
           returnS [(''job_id'', JStr (job_id j')), (''state'', JStr (job_state_value (job_status j')))])
           (forgotten (job_id j) s))"
  by (simp add: delete_job_def ports bindS_def[of "on_jobs (jp_get _ _ _)"] on_jobs_eq
      bindS_def[of "forget_job _ _"] forget_memory split: sum.split)


lemma delete_job_serves:
  fixes s :: "(job_store, bytes object_store, 'q) app_state"
  assumes ports: "api_jobs a = memory_jobs" "api_objects a = memory_objects" and ok: "retained_ok s"
  shows "serves UNIV s (fst (delete_job a t jid s))"
proof (cases "job_get t jid (as_jobs s)")
  case (Inl e)
  then show ?thesis using ok by (simp add: delete_job_memory[OF ports] serves_refl)
next
  case (Inr j)
  let ?s = "forgotten (job_id j) s"
  have same: "as_jobs ?s = as_jobs s" "as_results ?s = (as_results s)(job_id j := None)" "as_registry ?s = as_registry s" "as_identities ?s = as_identities s"
    by (simp_all add: forgotten_def)
  have j: "js_jobs (as_jobs s) jid = Some j" "tenant_id j = t" using Inr by (simp_all add: job_get_eq_Inr)
  have jid: "job_id j = jid" using ok j wf_jobs_job unfolding retained_ok_def by blast
  show ?thesis
  proof (cases "job_is_terminal j")
    case True
    then show ?thesis using Inr forgotten_ok[OF ok, of "job_id j"] same
      by (simp add: delete_job_memory[OF ports] bind_return returnS_def serves_def)
  next
    case False
    let ?j = "j\<lparr>job_status := CANCELLED\<rparr>"
    have upd: "update_state t jid CANCELLED (as_jobs s) = Inr (put_job ?j jid (as_jobs s), ?j)"
      using Inr False by (simp add: update_state_def job_transition_def bindR_def)
    have "fst (delete_job a t jid s) = ?s\<lparr>as_jobs := put_job ?j jid (as_jobs s)\<rparr>"
      using Inr False upd jid same
      by (simp add: delete_job_memory[OF ports] bind_ignore bindS_def on_jobs_eq updateS_def returnS_def)
    moreover have "job_kept j ?j" using False by (simp add: job_kept_def)
    ultimately show ?thesis
      using retained_jobs[of ?s jid j ?j] forgotten_ok[OF ok, of "job_id j"] same j
      by (simp add: serves_def)
  qed
qed

end
