(* ===== verification/ServiceProps.thy ===== *)
theory ServiceProps
  imports JobProps WorkerProps
begin

text \<open>
  Any sequence of requests to the service over the stores in memory: the bound on the audio it keeps and
  the fate of jobs; and what deletion does to a result in the tables of the database.
\<close>

section \<open>Requests\<close>

datatype request =
    CreateJob string string int "(string \<times> json) list" "string option" string
  | GetJob string string
  | GetResult string string
  | GetAudio bool string string
  | DeleteJob string string
  | CreateVoice string "(string \<times> json) list" string
  | EnrollVoice string "(string \<times> json) list" string
  | DeleteVoice string string
  | CreateSession string "(string \<times> json) list" string
  | FinalizeSession string

type_synonym 'q memory_state = "(job_store, bytes object_store, 'q) app_state"
type_synonym ('q, 'c) memory_api = "(job_store, bytes object_store, 'q, 'c) api"

fun serve :: "('q, 'c) memory_api \<Rightarrow> request \<Rightarrow> 'q memory_state \<Rightarrow> 'q memory_state" where
  "serve a (CreateJob fresh tid now payload key tenant) s = fst (create_job a fresh tid now payload key tenant s)"
| "serve a (GetJob tenant jid) s = fst (get_job a tenant jid s)"
| "serve a (GetResult tenant jid) s = fst (get_job_result a tenant jid s)"
| "serve a (GetAudio preview tenant jid) s = fst (get_job_audio a preview tenant jid s)"
| "serve a (DeleteJob tenant jid) s = fst (delete_job a tenant jid s)"
| "serve a (CreateVoice fresh payload tenant) s = fst (create_voice_identity a fresh payload tenant s)"
| "serve a (EnrollVoice i payload tenant) s = fst (enroll_voice_identity a i payload tenant s)"
| "serve a (DeleteVoice i tenant) s = fst (delete_voice_identity i tenant s)"
| "serve a (CreateSession fresh payload tenant) s = fst (create_session a fresh payload tenant s)"
| "serve a (FinalizeSession sid) s = fst (finalize_session sid s)"

text \<open>The identifier of a new job is new, as ULIDs are.\<close>

fun fresh_request :: "'q memory_state \<Rightarrow> request \<Rightarrow> bool" where
  "fresh_request s (CreateJob fresh tid now payload key tenant) \<longleftrightarrow> js_jobs (as_jobs s) fresh = None"
| "fresh_request s r \<longleftrightarrow> True"

fun fresh_requests :: "('q, 'c) memory_api \<Rightarrow> 'q memory_state \<Rightarrow> request list \<Rightarrow> bool" where
  "fresh_requests a s [] \<longleftrightarrow> True"
| "fresh_requests a s (r # rs) \<longleftrightarrow> fresh_request s r \<and> fresh_requests a (serve a r s) rs"

definition in_memory :: "('q, 'c) memory_api \<Rightarrow> bool" where
  "in_memory a \<longleftrightarrow> api_jobs a = memory_jobs \<and> api_objects a = memory_objects"

definition new_service :: "voice_registry \<Rightarrow> 'q \<Rightarrow> 'q memory_state" where
  "new_service registry q =
     \<lparr>as_jobs = empty_job_store, as_objects = Map.empty, as_queue = q, as_registry = registry, as_identities = [],
      as_results = Map.empty, as_scenarios = Map.empty, as_audio_keys = [], as_previews = [],
      as_languages = Map.empty, as_sessions = Map.empty\<rparr>"

section \<open>What requests keep\<close>

definition keeps_jobs :: "'q memory_state \<Rightarrow> 'q memory_state \<Rightarrow> bool" where
  "keeps_jobs s s' \<longleftrightarrow> as_jobs s' = as_jobs s \<and> as_audio_keys s' = as_audio_keys s \<and> as_objects s' = as_objects s
     \<and> as_previews s' = as_previews s \<and> as_results s' = as_results s"

interpretation jobs_same: state_relation keeps_jobs
  by unfold_locales (auto simp: keeps_jobs_def)

lemma jobs_same_registry: "jobs_same.keeps (on_registry m)"
  by (simp add: jobs_same.keeps_def on_registry_eq keeps_jobs_def)

lemma jobs_same_voices:
  "jobs_same.keeps (create_voice_identity a fresh payload t)"
  "jobs_same.keeps (enroll_voice_identity a i payload t)"
  "jobs_same.keeps (delete_voice_identity i t)"
  "jobs_same.keeps (create_session a fresh payload t)"
  unfolding create_voice_identity_def enroll_voice_identity_def delete_voice_identity_def create_session_def Let_def
  by (intro jobs_same.keeps_intros jobs_same_registry jobs_same.keeps_modify; simp add: keeps_jobs_def)+

lemma jobs_same_session: "jobs_same.keeps (in_session sid m)"
  by (simp add: jobs_same.keeps_def in_session_def keeps_jobs_def split: option.split prod.split)

lemma jobs_same_finalize: "jobs_same.keeps (finalize_session sid)"
  unfolding finalize_session_def by (intro jobs_same.keeps_intros jobs_same_session)

definition keeps_audio :: "'q memory_state \<Rightarrow> 'q memory_state \<Rightarrow> bool" where
  "keeps_audio s s' \<longleftrightarrow> retained_ok s' \<and> jobs_kept (as_jobs s) (as_jobs s')
     \<and> kept_objects (dom (js_jobs (as_jobs s))) (as_objects s) (as_objects s')
     \<and> kept_results (dom (js_jobs (as_jobs s))) (as_results s) (as_results s')"

lemma keeps_jobs_audio: "retained_ok s \<Longrightarrow> keeps_jobs s s' \<Longrightarrow> keeps_audio s s'"
  by (simp add: keeps_audio_def keeps_jobs_def retained_ok_def)

lemma same_keeps_audio: "retained_ok s \<Longrightarrow> jobs_same.keeps m \<Longrightarrow> keeps_audio s (fst (m s))"
  by (rule keeps_jobs_audio) (simp_all add: jobs_same.keeps_def)

lemma serve_keeps_audio:
  assumes "in_memory a" and ok: "retained_ok s" and "fresh_request s r"
  shows "keeps_audio s (serve a r s)"
proof -
  have ports: "api_jobs a = memory_jobs" "api_objects a = memory_objects" using assms(1) by (simp_all add: in_memory_def)
  have serves: "serves (dom (js_jobs (as_jobs s))) s s' \<Longrightarrow> keeps_audio s s'" for s' by (simp add: serves_def keeps_audio_def)
  have same: "keeps_audio s s" using ok by (simp add: keeps_audio_def)
  show ?thesis
  proof (cases r)
    case CreateJob
    then show ?thesis using serves create_job_serves[OF ports ok] assms(3) by simp
  next
    case (GetAudio preview t jid)
    obtain ps where "serve a r s = s\<lparr>as_previews := ps\<rparr>" "retained_ok (s\<lparr>as_previews := ps\<rparr>)"
      using get_job_audio_serves[OF ports ok] GetAudio by fastforce
    then show ?thesis by (simp add: keeps_audio_def)
  next
    case DeleteJob
    then show ?thesis using serves delete_job_serves[OF ports ok, THEN serves_mono] by simp
  qed (simp_all add: same get_job_unchanged[OF ports(1)] same_keeps_audio[OF ok] jobs_same_voices jobs_same_finalize)
qed


lemma kept_objects_trans:
  assumes "kept_objects I os os'" and "kept_objects J os' os''" and "I \<subseteq> J"
  shows "kept_objects I os os''"
  unfolding kept_objects_def
proof (intro allI ballI)
  fix t i assume "i \<in> I"
  then have "os' (t, job_audio_key i) = None \<or> os' (t, job_audio_key i) = os (t, job_audio_key i)"
      "os'' (t, job_audio_key i) = None \<or> os'' (t, job_audio_key i) = os' (t, job_audio_key i)"
    using assms unfolding kept_objects_def by blast+
  then show "os'' (t, job_audio_key i) = None \<or> os'' (t, job_audio_key i) = os (t, job_audio_key i)" by auto
qed

lemma kept_results_trans: "kept_results I rs rs' \<Longrightarrow> kept_results J rs' rs'' \<Longrightarrow> I \<subseteq> J \<Longrightarrow> kept_results I rs rs''"
  unfolding kept_results_def by (metis subsetD)

lemma keeps_audio_trans: "keeps_audio s t \<Longrightarrow> keeps_audio t u \<Longrightarrow> keeps_audio s u"
proof -
  assume st: "keeps_audio s t" and tu: "keeps_audio t u"
  have "dom (js_jobs (as_jobs s)) \<subseteq> dom (js_jobs (as_jobs t))"
    using st unfolding keeps_audio_def jobs_kept_def by blast
  then have "kept_objects (dom (js_jobs (as_jobs s))) (as_objects s) (as_objects u)"
    using kept_objects_trans st tu unfolding keeps_audio_def by blast
  moreover have "kept_results (dom (js_jobs (as_jobs s))) (as_results s) (as_results u)"
    using kept_results_trans st tu \<open>dom (js_jobs (as_jobs s)) \<subseteq> _\<close> unfolding keeps_audio_def by blast
  ultimately show ?thesis using st tu jobs_kept_trans[of "as_jobs s"] unfolding keeps_audio_def by blast
qed

lemma run_keeps_audio:
  "in_memory a \<Longrightarrow> retained_ok s \<Longrightarrow> fresh_requests a s rs \<Longrightarrow> keeps_audio s (fold (serve a) rs s)"
proof (induction rs arbitrary: s)
  case Nil
  then show ?case by (simp add: keeps_audio_def)
next
  case (Cons r rs)
  have first: "keeps_audio s (serve a r s)" by (rule serve_keeps_audio) (use Cons.prems in auto)
  moreover have "keeps_audio (serve a r s) (fold (serve a) rs (serve a r s))"
    using Cons.IH[of "serve a r s"] Cons.prems first by (simp add: keeps_audio_def)
  ultimately show ?case using keeps_audio_trans by simp
qed

lemma new_service_ok: "retained_ok (new_service registry q)"
  by (simp add: retained_ok_def new_service_def linked_audio_def)

lemma fresh_requests_append:
  "fresh_requests a s (rs @ ss) \<longleftrightarrow> fresh_requests a s rs \<and> fresh_requests a (fold (serve a) rs s) ss"
  by (induction rs arbitrary: s) auto

section \<open>Kept audio\<close>

text \<open>
  C20: The service keeps the audio of at most twelve jobs. After any sequence of requests, successful or
  not, the object store holds exactly one object for each entry of the table of kept audio, under the
  tenant and the key of its job, which exists and belongs to that tenant; no other object is left
  behind, whether its job was evicted, deleted, refused by the queue or failed; and every cached
  preview belongs to an entry of the table.
\<close>

theorem retained_audio_bounded:
  assumes "in_memory a" and "fresh_requests a (new_service registry q) rs"
  defines "s \<equiv> fold (serve a) rs (new_service registry q)"
  shows "length (as_audio_keys s) \<le> 12 \<and> distinct (map fst (as_audio_keys s))
    \<and> dom (as_objects s) = {(t, job_audio_key jid) | jid t. (jid, t, job_audio_key jid) \<in> set (as_audio_keys s)}
    \<and> (\<forall>(jid, t, k)\<in>set (as_audio_keys s). k = job_audio_key jid
         \<and> (\<exists>j. js_jobs (as_jobs s) jid = Some j \<and> tenant_id j = t \<and> job_id j = jid))
    \<and> fst ` set (as_previews s) \<subseteq> fst ` set (as_audio_keys s)"
proof -
  have ok: "retained_ok s" using run_keeps_audio[OF assms(1) new_service_ok assms(2)] by (simp add: keeps_audio_def s_def)
  have lk: "linked_audio (as_audio_keys s) (as_objects s)" and wf: "wf_jobs (as_jobs s)"
    using ok by (simp_all add: retained_ok_def)
  have key: "(jid, t, k) \<in> set (as_audio_keys s) \<Longrightarrow> k = job_audio_key jid" for jid t k
    using linked_key[OF lk] by blast
  have owner: "\<exists>j. js_jobs (as_jobs s) jid = Some j \<and> tenant_id j = t \<and> job_id j = jid"
    if "(jid, t, k) \<in> set (as_audio_keys s)" for jid t k
  proof -
    obtain j where "js_jobs (as_jobs s) jid = Some j" "tenant_id j = t" using ok \<open>(jid, t, k) \<in> _\<close> by (auto simp: retained_ok_def)
    with wf_jobs_job[OF wf] show ?thesis by blast
  qed
  have "dom (as_objects s) = snd ` set (as_audio_keys s)" using lk by (simp add: linked_audio_def)
  also have "\<dots> = {(t, job_audio_key jid) | jid t. (jid, t, job_audio_key jid) \<in> set (as_audio_keys s)}"
  proof (intro equalityI subsetI)
    fix x assume "x \<in> snd ` set (as_audio_keys s)"
    then obtain jid t k where "(jid, t, k) \<in> set (as_audio_keys s)" "x = (t, k)" by auto
    then show "x \<in> {(t, job_audio_key jid) | jid t. (jid, t, job_audio_key jid) \<in> set (as_audio_keys s)}"
      using key by blast
  next
    fix x assume "x \<in> {(t, job_audio_key jid) | jid t. (jid, t, job_audio_key jid) \<in> set (as_audio_keys s)}"
    then obtain jid t where "x = (t, job_audio_key jid)" "(jid, t, job_audio_key jid) \<in> set (as_audio_keys s)" by blast
    then show "x \<in> snd ` set (as_audio_keys s)" by (metis image_eqI snd_conv)
  qed
  finally have "dom (as_objects s) = {(t, job_audio_key jid) | jid t. (jid, t, job_audio_key jid) \<in> set (as_audio_keys s)}" .
  moreover have "length (as_audio_keys s) \<le> 12" "fst ` set (as_previews s) \<subseteq> fst ` set (as_audio_keys s)"
      "distinct (map fst (as_audio_keys s))"
    using ok lk by (simp_all add: retained_ok_def linked_audio_def MAX_RETAINED_JOB_AUDIO_def)
  moreover have "\<forall>(jid, t, k)\<in>set (as_audio_keys s). k = job_audio_key jid
      \<and> (\<exists>j. js_jobs (as_jobs s) jid = Some j \<and> tenant_id j = t \<and> job_id j = jid)"
    by clarify (rule conjI[OF key owner])
  ultimately show ?thesis by - (intro conjI; assumption)
qed

lemma start_job_returns:
  fixes s :: "'q memory_state"
  assumes ports: "api_jobs a = memory_jobs" "api_objects a = memory_objects"
    and ok: "retained_ok s" and new: "job_id j \<notin> fst ` set (as_audio_keys s)"
    and stored: "js_jobs (as_jobs s) (job_id j) = Some j" "tenant_id j = t" "job_status j = QUEUED"
    and run: "start_job a tid now payload language scenario content t j s = (s', Inr j')"
  shows "as_objects s' (t, job_audio_key (job_id j)) = Some content"
proof -
  have open_job: "\<not> job_is_terminal j" using stored(3) by (simp add: job_is_terminal_def TERMINAL_JOB_STATES_def)
  obtain s2 where start: "start_job a tid now payload language scenario content t j s = (case api_queue a of
         None \<Rightarrow> run_job a j scenario content t (config_with_asr_language (api_config a) language) s2
       | Some q \<Rightarrow> bindS (queue_job a q tid now payload t (job_id j) (job_audio_key (job_id j)) language) (\<lambda>_. returnS j) s2)"
    and s2: "as_jobs s2 = as_jobs s" "as_objects s2 (t, job_audio_key (job_id j)) = Some content"
    by (rule start_job_retains[OF ports(2) ok new stored(1,2)])
  show ?thesis
  proof (cases "api_queue a")
    case None
    let ?c = "config_with_asr_language (api_config a) language"
    from ports(1) open_job show ?thesis
      by (cases rule: run_job_cases[where s = s2 and scenario = scenario and content = content and t = t and c = ?c])
        (use run start None s2 in auto)
  next
    case (Some q)
    from ports stored(1)[folded s2(1)] stored(2) open_job show ?thesis
      by (cases rule: queue_job_cases[where q = q and tid = tid and now = now
          and payload = payload and key = "job_audio_key (job_id j)" and language = language])
        (use run start Some s2 in \<open>auto simp: bindS_def returnS_def\<close>)
  qed
qed


text \<open>A submission under a new key: a new job that is started.\<close>

lemma create_job_new:
  fixes s :: "'q memory_state"
  assumes ports: "api_jobs a = memory_jobs" and key: "js_by_key (as_jobs s) (t, or_else key []) = None"
    and run: "create_job a fresh tid now payload key t s = (s1, Inr view)"
  obtains language scenario content j j' where "requested_asr_language (map_of payload ''language'') = Inr language"
    "job_input a payload = Inr (scenario, content)"
    "j = new_job fresh t (or_else key []) (api_sha256 a content)
       (Some (api_config_version a (config_with_asr_language (api_config a) language)))"
    "start_job a tid now payload language scenario content t j
       (s\<lparr>as_jobs := \<lparr>js_jobs = (js_jobs (as_jobs s))(fresh \<mapsto> j),
          js_by_key = (js_by_key (as_jobs s))((t, or_else key []) \<mapsto> fresh)\<rparr>\<rparr>) = (s1, Inr j')"
    "view = job_view a j' True s1"
proof -
  from run obtain language scenario content where inputs: "truthy key"
      "requested_asr_language (map_of payload ''language'') = Inr language" "job_input a payload = Inr (scenario, content)"
    by (auto simp: create_job_memory[OF ports] split: if_splits sum.splits)
  define j where "j = new_job fresh t (or_else key []) (api_sha256 a content)
       (Some (api_config_version a (config_with_asr_language (api_config a) language)))"
  have made: "create_or_get fresh t (or_else key []) (api_sha256 a content)
        (Some (api_config_version a (config_with_asr_language (api_config a) language))) (as_jobs s)
      = Inr (\<lparr>js_jobs = (js_jobs (as_jobs s))(fresh \<mapsto> j),
             js_by_key = (js_by_key (as_jobs s))((t, or_else key []) \<mapsto> fresh)\<rparr>, j, True)"
    using key by (simp add: create_or_get_def Let_def j_def new_job_def)
  have "bindS (start_job a tid now payload language scenario content t j) (\<lambda>j'. readS (job_view a j' True))
      (s\<lparr>as_jobs := \<lparr>js_jobs = (js_jobs (as_jobs s))(fresh \<mapsto> j),
          js_by_key = (js_by_key (as_jobs s))((t, or_else key []) \<mapsto> fresh)\<rparr>\<rparr>) = (s1, Inr view)"
    using run inputs made by (simp add: create_job_memory[OF ports])
  then show thesis unfolding bindS_eq_Inr readS_eq_Inr using that[OF inputs(2,3) j_def] by blast
qed

lemma retained_key_eq: "retained_ok s \<Longrightarrow> retained_key s jid = job_audio_key jid"
  using linked_key map_of_SomeD by (fastforce simp: retained_ok_def retained_key_def split: option.split)

lemma audio_of_job:
  assumes ports: "api_jobs a = memory_jobs" "api_objects a = memory_objects" and ok: "retained_ok s"
    and j: "js_jobs (as_jobs s) jid = Some j"
  shows "snd (get_job_audio a False t jid s) =
    (if tenant_id j \<noteq> t then Inl (Sastt TenantAccessDeniedError)
     else case as_objects s (t, job_audio_key jid) of None \<Rightarrow> Inl (HttpError 404)
     | Some payload \<Rightarrow> Inr (payload, audio_media_type payload))"
proof (cases "tenant_id j = t")
  case False
  then show ?thesis using j by (simp add: get_job_audio_def bindS_def on_jobs_eq ports job_get_def)
next
  case True
  have "wf_jobs (as_jobs s)" using ok by (simp add: retained_ok_def)
  then have "job_id j = jid" using wf_jobs_job j by blast
  then show ?thesis using j True
    by (simp add: get_job_audio_def bindS_def on_jobs_eq ports job_get_def readS_def retained_key_eq[OF ok]
        or_gone_def on_objects_eq object_get_def returnS_def split: option.split)
qed

lemma create_job_kept:
  assumes "in_memory a" and "retained_ok s" and "js_jobs (as_jobs s) fresh = None"
  shows "keeps_audio s (fst (create_job a fresh tid now payload key t s))"
  using serve_keeps_audio[OF assms(1,2), of "CreateJob fresh tid now payload key t"] assms(3) by simp

lemma new_job_stored:
  fixes s :: "'q memory_state"
  assumes "in_memory a" and ok: "retained_ok s" and fresh: "js_jobs (as_jobs s) fresh = None"
    and key: "js_by_key (as_jobs s) (t, or_else key []) = None"
    and input: "job_input a payload = Inr (scenario, content)"
    and run: "create_job a fresh tid now payload key t s = (s1, Inr view)"
  shows "retained_ok s1 \<and> as_objects s1 (t, job_audio_key fresh) = Some content
    \<and> (\<exists>j. js_jobs (as_jobs s1) fresh = Some j \<and> tenant_id j = t)"
proof -
  have ports: "api_jobs a = memory_jobs" "api_objects a = memory_objects" using assms(1) by (simp_all add: in_memory_def)
  obtain language j j' where j: "j = new_job fresh t (or_else key []) (api_sha256 a content)
       (Some (api_config_version a (config_with_asr_language (api_config a) language)))"
    and start: "start_job a tid now payload language scenario content t j
       (s\<lparr>as_jobs := \<lparr>js_jobs = (js_jobs (as_jobs s))(fresh \<mapsto> j),
          js_by_key = (js_by_key (as_jobs s))((t, or_else key []) \<mapsto> fresh)\<rparr>\<rparr>) = (s1, Inr j')"
    by (rule create_job_new[OF ports(1) key run]) (use input in auto)
  let ?s = "s\<lparr>as_jobs := \<lparr>js_jobs = (js_jobs (as_jobs s))(fresh \<mapsto> j),
          js_by_key = (js_by_key (as_jobs s))((t, or_else key []) \<mapsto> fresh)\<rparr>\<rparr>"
  have made: "create_or_get fresh t (or_else key []) (api_sha256 a content)
       (Some (api_config_version a (config_with_asr_language (api_config a) language))) (as_jobs s) = Inr (as_jobs ?s, j, True)"
    using key by (simp add: create_or_get_def Let_def j new_job_def)
  have wf: "wf_jobs (as_jobs s)" using ok by (simp add: retained_ok_def)
  have ok1: "retained_ok ?s"
    using ok create_or_get_kept[OF wf fresh made] fresh by (force simp: retained_ok_def)
  have jid: "job_id j = fresh" "tenant_id j = t" "job_status j = QUEUED" by (simp_all add: j new_job_def)
  have none: "fresh \<notin> fst ` set (as_audio_keys ?s)" using ok fresh by (force simp: retained_ok_def)
  have "as_objects s1 (t, job_audio_key fresh) = Some content"
    using start_job_returns[OF ports ok1 _ _ _ _ start] jid none by simp
  moreover have "serves (- {fresh}) ?s s1"
    using start_job_serves[OF ports ok1, of j t tid now payload language scenario content] start jid none by simp
  moreover have "js_jobs (as_jobs ?s) fresh = Some j" by simp
  ultimately show ?thesis using jid(2) unfolding serves_def jobs_kept_def job_kept_def by blast
qed

text \<open>
  C11: What was uploaded is what is played back. After a submission under a new key succeeded, the audio
  endpoint gives its tenant the submitted bytes, unchanged, with the media type of their container; after
  any further requests of any tenants it gives the same bytes or, once they are evicted or deleted, 404;
  and another tenant is denied.
\<close>

theorem uploaded_audio_is_served:
  fixes a :: "('q, 'c) memory_api"
  assumes "in_memory a" and "fresh_requests a (new_service registry q) (before @ CreateJob fresh tid now payload key t # after)"
    and "s = fold (serve a) before (new_service registry q)"
    and "js_by_key (as_jobs s) (t, or_else key []) = None" and "job_input a payload = Inr (scenario, content)"
    and "create_job a fresh tid now payload key t s = (s1, Inr view)"
    and "s2 = fold (serve a) after s1"
  shows "snd (get_job_audio a False t fresh s1) = Inr (content, audio_media_type content)
    \<and> snd (get_job_audio a False t fresh s2) \<in> {Inr (content, audio_media_type content), Inl (HttpError 404)}
    \<and> (u \<noteq> t \<longrightarrow> snd (get_job_audio a False u fresh s2) = Inl (Sastt TenantAccessDeniedError))"
proof -
  have ports: "api_jobs a = memory_jobs" "api_objects a = memory_objects" using assms(1) by (simp_all add: in_memory_def)
  have fresh: "fresh_requests a (new_service registry q) before" "js_jobs (as_jobs s) fresh = None" "fresh_requests a s1 after"
    using assms(2,3,6) by (simp_all add: fresh_requests_append)
  have ok: "retained_ok s" using run_keeps_audio[OF assms(1) new_service_ok fresh(1)] assms(3) by (simp add: keeps_audio_def)
  note stored = new_job_stored[OF assms(1) ok fresh(2) assms(4,5,6)]
  then obtain j where j: "js_jobs (as_jobs s1) fresh = Some j" "tenant_id j = t" and ok1: "retained_ok s1" by blast
  have keeps: "keeps_audio s1 s2" using run_keeps_audio[OF assms(1) ok1 fresh(3)] assms(7) by simp
  then obtain j2 where j2: "js_jobs (as_jobs s2) fresh = Some j2" "tenant_id j2 = t"
    using j unfolding keeps_audio_def jobs_kept_def job_kept_def by blast
  have "as_objects s2 (t, job_audio_key fresh) \<in> {None, Some content}"
  proof -
    have "fresh \<in> dom (js_jobs (as_jobs s1))" using j(1) by blast
    then have "as_objects s2 (t, job_audio_key fresh) = None
        \<or> as_objects s2 (t, job_audio_key fresh) = as_objects s1 (t, job_audio_key fresh)"
      using keeps unfolding keeps_audio_def kept_objects_def by blast
    then show ?thesis using stored by auto
  qed
  moreover have "retained_ok s2" using keeps by (simp add: keeps_audio_def)
  ultimately show ?thesis
    using audio_of_job[OF ports ok1 j(1), of t] audio_of_job[OF ports _ j2(1)] stored j(2) j2(2) by auto
qed


section \<open>Resubmission\<close>

text \<open>Whatever the outcome of an accepted submission, its key is bound to its job.\<close>

lemma submission_binds_key:
  fixes s :: "'q memory_state" and tid :: string and now :: int
  assumes "in_memory a" and ok: "retained_ok s" and fresh: "js_jobs (as_jobs s) fresh = None"
    and key: "truthy key" "js_by_key (as_jobs s) (t, or_else key []) = None"
    and input: "requested_asr_language (map_of payload ''language'') = Inr language"
      "job_input a payload = Inr (scenario, content)"
  defines "s1 \<equiv> fst (create_job a fresh tid now payload key t s)"
  defines "j \<equiv> new_job fresh t (or_else key []) (api_sha256 a content)
       (Some (api_config_version a (config_with_asr_language (api_config a) language)))"
  defines "s0 \<equiv> s\<lparr>as_jobs := \<lparr>js_jobs = (js_jobs (as_jobs s))(fresh \<mapsto> j),
          js_by_key = (js_by_key (as_jobs s))((t, or_else key []) \<mapsto> fresh)\<rparr>\<rparr>"
  shows "create_job a fresh tid now payload key t s
      = bindS (start_job a tid now payload language scenario content t j) (\<lambda>j'. readS (job_view a j' True)) s0"
    and "s1 = fst (start_job a tid now payload language scenario content t j s0)"
    and "retained_ok s0" and "fresh \<notin> fst ` set (as_audio_keys s0)"
    and "retained_ok s1" and "js_by_key (as_jobs s1) (t, or_else key []) = Some fresh"
    and "\<exists>j1. js_jobs (as_jobs s1) fresh = Some j1 \<and> job_kept j j1"
proof -
  have ports: "api_jobs a = memory_jobs" "api_objects a = memory_objects" using assms(1) by (simp_all add: in_memory_def)
  have made: "create_or_get fresh t (or_else key []) (api_sha256 a content)
       (Some (api_config_version a (config_with_asr_language (api_config a) language))) (as_jobs s) = Inr (as_jobs s0, j, True)"
    using key by (simp add: create_or_get_def Let_def j_def s0_def new_job_def)
  show run: "create_job a fresh tid now payload key t s
      = bindS (start_job a tid now payload language scenario content t j) (\<lambda>j'. readS (job_view a j' True)) s0"
    using key input made by (simp add: create_job_memory[OF ports(1)] s0_def)
  show s1: "s1 = fst (start_job a tid now payload language scenario content t j s0)"
    unfolding s1_def run by (simp add: bindS_def readS_def split: prod.split sum.split)
  have wf: "wf_jobs (as_jobs s)" using ok by (simp add: retained_ok_def)
  show ok0: "retained_ok s0"
    using ok create_or_get_kept[OF wf fresh made] fresh by (force simp: retained_ok_def s0_def)
  have jid: "job_id j = fresh" "tenant_id j = t" "job_status j = QUEUED" by (simp_all add: j_def new_job_def)
  show none: "fresh \<notin> fst ` set (as_audio_keys s0)" using ok fresh by (force simp: retained_ok_def s0_def)
  have stored: "js_jobs (as_jobs s0) fresh = Some j" "js_by_key (as_jobs s0) (t, or_else key []) = Some fresh"
    by (simp_all add: s0_def)
  have "serves (- {job_id j}) s0 s1"
    unfolding s1 by (rule start_job_serves[OF ports ok0]) (use jid none stored in simp_all)
  then have serves: "retained_ok s1" "jobs_kept (as_jobs s0) (as_jobs s1)" by (simp_all add: serves_def)
  show "retained_ok s1" by (rule serves(1))
  show "js_by_key (as_jobs s1) (t, or_else key []) = Some fresh"
    and "\<exists>j1. js_jobs (as_jobs s1) fresh = Some j1 \<and> job_kept j j1"
    using serves(2) stored unfolding jobs_kept_def by blast+
qed

lemma resubmission:
  fixes s :: "'q memory_state"
  assumes ports: "api_jobs a = memory_jobs"
    and bound: "js_by_key (as_jobs s) (t, or_else key []) = Some i" "js_jobs (as_jobs s) i = Some j"
    and key: "truthy key" and input: "requested_asr_language (map_of payload ''language'') = Inr language"
      "job_input a payload = Inr (scenario, content)"
  shows "create_job a fresh tid now payload key t s =
    (if input_hash j = api_sha256 a content then (s, Inr (job_view a j False s)) else (s, Inl (HttpError 409)))"
  using assms by (simp add: create_job_memory create_or_get_def bind_return readS_def)

text \<open>
  Resubmission. After an accepted submission under a new key, whatever its outcome and whatever
  requests follow, a submission of the same tenant under the same key starts nothing and changes
  nothing: with the same audio it answers with the job as it is now, whatever language it asks for, and
  with other audio it is refused with 409.
\<close>

theorem resubmission_changes_nothing:
  fixes a :: "('q, 'c) memory_api"
  assumes "in_memory a" and "fresh_requests a (new_service registry q) (before @ CreateJob fresh tid now payload key t # after)"
    and "s = fold (serve a) before (new_service registry q)"
    and "truthy key" and "js_by_key (as_jobs s) (t, or_else key []) = None"
    and "requested_asr_language (map_of payload ''language'') = Inr language" "job_input a payload = Inr (scenario, content)"
    and "s2 = fold (serve a) after (serve a (CreateJob fresh tid now payload key t) s)"
    and "requested_asr_language (map_of payload' ''language'') = Inr language'" "job_input a payload' = Inr (scenario', content')"
  shows "\<exists>j. js_jobs (as_jobs s2) fresh = Some j \<and> tenant_id j = t
    \<and> create_job a fresh' tid' now' payload' key t s2
      = (if api_sha256 a content' = api_sha256 a content then (s2, Inr (job_view a j False s2))
         else (s2, Inl (HttpError 409)))"
proof -
  have fresh: "fresh_requests a (new_service registry q) before" "js_jobs (as_jobs s) fresh = None"
      "fresh_requests a (serve a (CreateJob fresh tid now payload key t) s) after"
    using assms(2,3) by (simp_all add: fresh_requests_append)
  have ok: "retained_ok s" using run_keeps_audio[OF assms(1) new_service_ok fresh(1)] assms(3) by (simp add: keeps_audio_def)
  note bound = submission_binds_key(5-7)[OF assms(1) ok fresh(2) assms(4-7), where tid = tid and now = now]
  have "keeps_audio (serve a (CreateJob fresh tid now payload key t) s) s2"
    using run_keeps_audio[OF assms(1) _ fresh(3)] bound(1) assms(8) by simp
  then have kept: "jobs_kept (as_jobs (serve a (CreateJob fresh tid now payload key t) s)) (as_jobs s2)"
    by (simp add: keeps_audio_def)
  then obtain j where j: "js_jobs (as_jobs s2) fresh = Some j" "tenant_id j = t" "input_hash j = api_sha256 a content"
    using bound(3) unfolding jobs_kept_def by (fastforce simp: job_kept_def new_job_def)
  have "js_by_key (as_jobs s2) (t, or_else key []) = Some fresh" using kept bound(2) unfolding jobs_kept_def by simp
  from resubmission[OF _ this j(1) assms(4,9,10)] show ?thesis
    using assms(1) j by (intro exI[of _ j]) (simp add: in_memory_def eq_commute)
qed


section \<open>How a submission ends\<close>

text \<open>
  C40: A refused task. When the queue raises a domain error, as it does when it is full, the submission
  ends with that error, the audio is gone and the job is cancelled; and whatever requests follow, every
  later submission of the same audio under the same key answers with this cancelled job and changes
  nothing, so the job cannot be submitted again under its key.
\<close>

theorem refused_job_stays_cancelled:
  fixes a :: "('q, 'c) memory_api"
  assumes "in_memory a" and "fresh_requests a (new_service registry q0) (before @ CreateJob fresh tid now payload key t # after)"
    and "s = fold (serve a) before (new_service registry q0)"
    and "truthy key" and "js_by_key (as_jobs s) (t, or_else key []) = None"
    and "requested_asr_language (map_of payload ''language'') = Inr language" "job_input a payload = Inr (scenario, content)"
    and "api_queue a = Some q"
    and "snd (enqueue q tid now ''speaker.batch'' t fresh (Some (task_fields payload (job_audio_key fresh) language)) (as_queue s))
      = Inl (Sastt d)"
    and "s1 = fst (create_job a fresh tid now payload key t s)" and "s2 = fold (serve a) after s1"
  shows "snd (create_job a fresh tid now payload key t s) = Inl (Sastt d) \<and> as_objects s1 (t, job_audio_key fresh) = None
    \<and> (\<exists>j. js_jobs (as_jobs s2) fresh = Some j \<and> job_status j = CANCELLED
         \<and> create_job a fresh' tid' now' payload key t s2 = (s2, Inr (job_view a j False s2)))"
proof -
  have ports: "api_jobs a = memory_jobs" "api_objects a = memory_objects" using assms(1) by (simp_all add: in_memory_def)
  have fresh: "fresh_requests a (new_service registry q0) before" "js_jobs (as_jobs s) fresh = None" "fresh_requests a s1 after"
    using assms(2,3,10) by (simp_all add: fresh_requests_append)
  have ok: "retained_ok s" using run_keeps_audio[OF assms(1) new_service_ok fresh(1)] assms(3) by (simp add: keeps_audio_def)
  note bound = submission_binds_key(1,2,5-7)[OF assms(1) ok fresh(2) assms(4-7), where tid = tid and now = now]
    submission_binds_key(3,4)[OF assms(1) ok fresh(2) assms(4-7)]
  define j where "j = new_job fresh t (or_else key []) (api_sha256 a content)
       (Some (api_config_version a (config_with_asr_language (api_config a) language)))"
  have jid: "job_id j = fresh" "tenant_id j = t" and open_job: "\<not> job_is_terminal j"
    by (simp_all add: j_def new_job_def job_is_terminal_def TERMINAL_JOB_STATES_def)
  let ?s0 = "s\<lparr>as_jobs := \<lparr>js_jobs = (js_jobs (as_jobs s))(fresh \<mapsto> j),
          js_by_key = (js_by_key (as_jobs s))((t, or_else key []) \<mapsto> fresh)\<rparr>\<rparr>"
  note bound = bound[folded j_def, folded assms(10)]
  have new: "job_id j \<notin> fst ` set (as_audio_keys ?s0)" "js_jobs (as_jobs ?s0) (job_id j) = Some j"
    using bound(7) jid by simp_all
  obtain s3 where start: "start_job a tid now payload language scenario content t j ?s0
       = bindS (queue_job a q tid now payload t fresh (job_audio_key fresh) language) (\<lambda>_. returnS j) s3"
    and s3: "as_jobs s3 = as_jobs ?s0" "as_queue s3 = as_queue s"
    by (rule start_job_retains[OF ports(2) bound(6) new jid(2), of tid now payload language scenario content])
      (simp add: assms(8) jid)
  have stored: "js_jobs (as_jobs s3) fresh = Some j" by (simp add: s3)
  have ended: "start_job a tid now payload language scenario content t j ?s0 = (s1, Inl (Sastt d))
    \<and> as_objects s1 (t, job_audio_key fresh) = None \<and> js_jobs (as_jobs s1) fresh = Some (j\<lparr>job_status := CANCELLED\<rparr>)"
    using ports stored jid(2) open_job
  proof (cases rule: queue_job_cases[where q = q and tid = tid and now = now
          and payload = payload and key = "job_audio_key fresh" and language = language])
    case (refused q' d')
    have "d' = d" using refused(1) assms(9) s3(2) by simp
    then show ?thesis using refused(2) start bound(2) by (simp add: bindS_def put_job_def)
  next
    case (queued q' task)
    then show ?thesis using assms(9) s3(2) by simp
  next
    case (broken q' e)
    then show ?thesis using assms(9) s3(2) by simp
  qed
  have "keeps_audio s1 s2" using run_keeps_audio[OF assms(1) bound(3) fresh(3)] assms(11) by simp
  then have kept: "jobs_kept (as_jobs s1) (as_jobs s2)" by (simp add: keeps_audio_def)
  then obtain j2 where j2: "js_jobs (as_jobs s2) fresh = Some j2" "job_status j2 = CANCELLED" "input_hash j2 = api_sha256 a content"
    using ended unfolding jobs_kept_def
    by (fastforce simp: job_kept_def j_def new_job_def job_is_terminal_def TERMINAL_JOB_STATES_def)
  have "js_by_key (as_jobs s2) (t, or_else key []) = Some fresh" using kept bound(4) unfolding jobs_kept_def by simp
  from resubmission[OF ports(1) this j2(1) assms(4,6,7)] j2 ended bound(1) show ?thesis
    by (intro conjI exI[of _ j2]) (simp_all add: bindS_def)
qed

text \<open>
  C21: A run in the process. A submission that answers without error has run its job: the job is
  finished in the state of its result, and the result endpoint serves that result. If the run raises a
  domain error, the job has failed with the code of the error, unless the adapters could not be built:
  then it was never started. Any other exception leaves the job open, so its result endpoint answers
  409 however often it is asked.
\<close>

theorem job_runs_in_process:
  fixes a :: "('q, 'c) memory_api"
  assumes "in_memory a" and "fresh_requests a (new_service registry q0) (before @ [CreateJob fresh tid now payload key t])"
    and "s = fold (serve a) before (new_service registry q0)"
    and "truthy key" and "js_by_key (as_jobs s) (t, or_else key []) = None"
    and "requested_asr_language (map_of payload ''language'') = Inr language" "job_input a payload = Inr (scenario, content)"
    and "api_queue a = None" and "create_job a fresh tid now payload key t s = (s1, answer)"
  shows "\<exists>j. js_jobs (as_jobs s1) fresh = Some j \<and> tenant_id j = t \<and> (case answer of
      Inr view \<Rightarrow> \<exists>r. as_results s1 fresh = Some r \<and> job_status j = or_state r \<and> job_is_terminal j
         \<and> view = job_view a j True s1 \<and> get_job_result a t fresh s1 = (s1, Inr (live_result a j r))
    | Inl (Sastt d) \<Rightarrow> job_status j = FAILED \<and> job_error j = Some (error_text d)
         \<or> job_status j = QUEUED \<and> api_adapters a scenario = Inl (Sastt d)
    | Inl e \<Rightarrow> job_status j \<in> {QUEUED, PREPROCESSING}
         \<and> (as_results s1 fresh = None \<longrightarrow> get_job_result a t fresh s1 = (s1, Inl (HttpError 409))))"
proof -
  have ports: "api_jobs a = memory_jobs" "api_objects a = memory_objects" using assms(1) by (simp_all add: in_memory_def)
  have fresh: "fresh_requests a (new_service registry q0) before" "js_jobs (as_jobs s) fresh = None"
    using assms(2,3) by (simp_all add: fresh_requests_append)
  have ok: "retained_ok s" using run_keeps_audio[OF assms(1) new_service_ok fresh(1)] assms(3) by (simp add: keeps_audio_def)
  note bound = submission_binds_key(1,2,5-7)[OF assms(1) ok fresh(2) assms(4-7), where tid = tid and now = now]
    submission_binds_key(3,4)[OF assms(1) ok fresh(2) assms(4-7)]
  define j where "j = new_job fresh t (or_else key []) (api_sha256 a content)
       (Some (api_config_version a (config_with_asr_language (api_config a) language)))"
  have jid: "job_id j = fresh" "tenant_id j = t" "job_status j = QUEUED" and open_job: "\<not> job_is_terminal j"
    by (simp_all add: j_def new_job_def job_is_terminal_def TERMINAL_JOB_STATES_def)
  let ?s0 = "s\<lparr>as_jobs := \<lparr>js_jobs = (js_jobs (as_jobs s))(fresh \<mapsto> j),
          js_by_key = (js_by_key (as_jobs s))((t, or_else key []) \<mapsto> fresh)\<rparr>\<rparr>"
  let ?c = "config_with_asr_language (api_config a) language"
  note bound = bound[folded j_def]
  have new: "job_id j \<notin> fst ` set (as_audio_keys ?s0)" "js_jobs (as_jobs ?s0) (job_id j) = Some j"
    using bound(7) jid by simp_all
  obtain s3 where start: "start_job a tid now payload language scenario content t j ?s0 = run_job a j scenario content t ?c s3"
    and s3: "as_jobs s3 = as_jobs ?s0"
    by (rule start_job_retains[OF ports(2) bound(6) new jid(2), of tid now payload language scenario content])
      (simp add: assms(8) jid)
  have run: "(s1, answer) = bindS (run_job a j scenario content t ?c) (\<lambda>j'. readS (job_view a j' True)) s3"
    using bound(1) assms(9) start by (simp add: bindS_def)
  from ports(1) open_job show ?thesis
  proof (cases rule: run_job_cases[where s = s3 and scenario = scenario and content = content and t = t and c = ?c])
    case (unready e)
    then have r: "s1 = s3" "answer = Inl e" using run by (simp_all add: bindS_def)
    then show ?thesis using jid s3 open_job unready(1)
      by (cases e) (simp_all add: get_job_result_def bindS_def on_jobs_eq ports job_get_def readS_def liftS_def)
  next
    case (left_open e)
    then have r: "s1 = s3\<lparr>as_jobs := put_job (j\<lparr>job_status := PREPROCESSING\<rparr>) fresh (as_jobs s3)\<rparr>" "answer = Inl e"
      using run jid by (simp_all add: bindS_def)
    then show ?thesis using jid left_open(1)
      by (cases e) (simp_all add: get_job_result_def bindS_def on_jobs_eq ports job_get_def readS_def liftS_def put_job_def)
  next
    case (failed d)
    then show ?thesis using run jid by (simp add: bindS_def put_job_def)
  next
    case (finished r)
    have "job_is_terminal (j\<lparr>job_status := or_state r\<rparr>)"
      using finished(1) by (auto simp: job_is_terminal_def TERMINAL_JOB_STATES_def)
    then show ?thesis using run jid finished(2)
      by (simp add: bindS_def put_job_def readS_def get_job_result_def on_jobs_eq ports job_get_def returnS_def)
  qed
qed


section \<open>Deletion\<close>

text \<open>
  A deleted job is gone. After a deletion was answered, and whatever requests follow, the job is
  terminal for ever in the state the answer gave, its result endpoint answers 409 and its audio
  endpoint, with or without preview, 404.
\<close>

theorem deleted_job_serves_nothing:
  fixes a :: "('q, 'c) memory_api"
  assumes "in_memory a" and "fresh_requests a (new_service registry q) (before @ DeleteJob t jid # after)"
    and "s = fold (serve a) before (new_service registry q)"
    and "delete_job a t jid s = (s1, Inr answer)" and "s2 = fold (serve a) after s1"
  shows "\<exists>j. js_jobs (as_jobs s2) jid = Some j \<and> tenant_id j = t \<and> job_is_terminal j
    \<and> map_of answer ''state'' = Some (JStr (job_state_value (job_status j)))
    \<and> snd (get_job_result a t jid s2) = Inl (HttpError 409)
    \<and> snd (get_job_audio a preview t jid s2) = Inl (HttpError 404)"
proof -
  have ports: "api_jobs a = memory_jobs" "api_objects a = memory_objects" using assms(1) by (simp_all add: in_memory_def)
  have fresh: "fresh_requests a (new_service registry q) before" "fresh_requests a s1 after"
    using assms(2-4) by (simp_all add: fresh_requests_append)
  have ok: "retained_ok s" using run_keeps_audio[OF assms(1) new_service_ok fresh(1)] assms(3) by (simp add: keeps_audio_def)
  obtain j where j: "js_jobs (as_jobs s) jid = Some j" "tenant_id j = t"
    using assms(4) by (auto simp: delete_job_memory[OF ports] job_get_eq_Inr split: sum.splits)
  have jid: "job_id j = jid" using wf_jobs_job[of "as_jobs s" jid j] ok j by (simp add: retained_ok_def)
  define j1 where "j1 = (if job_is_terminal j then j else j\<lparr>job_status := CANCELLED\<rparr>)"
  have terminal: "job_is_terminal j1" "tenant_id j1 = t" "job_id j1 = jid"
    using j jid by (simp_all add: j1_def job_is_terminal_def TERMINAL_JOB_STATES_def)
  have s1: "s1 = (if job_is_terminal j then forgotten jid s else (forgotten jid s)\<lparr>as_jobs := put_job j1 jid (as_jobs s)\<rparr>)"
    and answer: "answer = [(''job_id'', JStr (job_id j1)), (''state'', JStr (job_state_value (job_status j1)))]"
    using assms(4) j jid
    by (auto simp: delete_job_memory[OF ports] job_get_def j1_def bindS_def returnS_def on_jobs_eq updateS_def
        update_state_def bindR_def job_transition_def forgotten_def split: if_splits)
  have stored: "js_jobs (as_jobs s1) jid = Some j1" using s1 j by (simp add: j1_def forgotten_def put_job_def)
  have ok1: "retained_ok s1" using delete_job_serves[OF ports ok, of t jid] assms(4) by (simp add: serves_def)
  have "jid \<notin> fst ` set (as_audio_keys s1)" by (auto simp: s1 forgotten_def delete_filter)
  then have "(jid, t, job_audio_key jid) \<notin> set (as_audio_keys s1)" by (metis fst_conv image_eqI)
  moreover have "linked_audio (as_audio_keys s1) (as_objects s1)" using ok1 by (simp add: retained_ok_def)
  ultimately have "(t, job_audio_key jid) \<notin> dom (as_objects s1)" using linked_object by blast
  then have gone: "as_objects s1 (t, job_audio_key jid) = None" by blast
  have "keeps_audio s1 s2" using run_keeps_audio[OF assms(1) ok1 fresh(2)] assms(5) by simp
  then have ok2: "retained_ok s2" and kept: "jobs_kept (as_jobs s1) (as_jobs s2)"
    and rest: "kept_objects (dom (js_jobs (as_jobs s1))) (as_objects s1) (as_objects s2)"
      "kept_results (dom (js_jobs (as_jobs s1))) (as_results s1) (as_results s2)" by (simp_all add: keeps_audio_def)
  have known: "jid \<in> dom (js_jobs (as_jobs s1))" using stored by blast
  have "as_results s1 jid = None" by (simp add: s1 forgotten_def)
  then have audio: "as_objects s2 (t, job_audio_key jid) = None" and results: "as_results s2 jid = None"
    using rest known gone unfolding kept_objects_def kept_results_def by metis+
  obtain j2 where j2: "js_jobs (as_jobs s2) jid = Some j2" "job_kept j1 j2" using kept stored unfolding jobs_kept_def by blast
  then have same: "job_id j2 = jid" "tenant_id j2 = t" "job_status j2 = job_status j1" "job_is_terminal j2"
    using terminal by (simp_all add: job_kept_def job_is_terminal_def)
  have "snd (get_job_audio a preview t jid s2) = Inl (HttpError 404)"
    using j2(1) same audio
    by (simp add: get_job_audio_def bindS_def on_jobs_eq ports job_get_def readS_def retained_key_eq[OF ok2]
        or_gone_def on_objects_eq object_get_def)
  moreover have "snd (get_job_result a t jid s2) = Inl (HttpError 409)"
    using j2(1) same results
    by (simp add: get_job_result_def bindS_def on_jobs_eq ports job_get_def readS_def liftS_def)
  ultimately show ?thesis using j2(1) same answer by auto
qed

text \<open>
  With the tables of PostgreSQL a deletion does not reach the stored result. If the result endpoint
  serves a stored result of a finished job, it serves the same after the job was deleted, whatever
  object store is used and whether deleting its audio succeeded.
\<close>

theorem deleted_job_still_served:
  fixes a :: "(db, 'o, 'q, 'c) api"
  assumes "api_jobs a = table_jobs collate scan" and "pg_get t jid (as_jobs s) = (as_jobs s, Inr j)"
    and "job_is_terminal j" and "as_results s (job_id j) = None" and "get_job_result a t jid s = (s, Inr answer)"
  shows "snd (get_job_result a t jid (fst (delete_job a t jid s))) = Inr answer"
proof -
  have port: "jp_get (api_jobs a) = pg_get" "jp_load (api_jobs a) = Some (load_result collate scan)"
    using assms(1) by (simp_all add: table_jobs_def)
  define s1 where "s1 = fst (delete_job a t jid s)"
  have only: "as_jobs (fst (forget_job a (job_id j) s)) = as_jobs s"
      "as_results (fst (forget_job a (job_id j) s)) (job_id j) = None"
    by (simp_all add: forget_job_def bindS_def readS_def modifyS_def returnS_def on_objects_eq
        split: option.split prod.split sum.split)
  have "s1 = fst (forget_job a (job_id j) s)"
    using assms(2,3) unfolding s1_def delete_job_def
    by (simp add: bindS_def on_jobs_eq port returnS_def split: prod.split sum.split)
  then have s1: "as_jobs s1 = as_jobs s" "as_results s1 (job_id j) = None" using only by simp_all
  have "snd (get_job_result a t jid s') = (if load_result collate scan t (job_id j) (as_jobs s) = (as_jobs s, Inr [])
        then Inl (HttpError 409)
      else bindR (snd (load_result collate scan t (job_id j) (as_jobs s))) (stored_result a j))"
    if "as_jobs s' = as_jobs s" "as_results s' (job_id j) = None" for s'
    using that assms(2,3)
    by (simp add: get_job_result_def bindS_def on_jobs_eq port readS_def load_result_def liftS_def bindR_def)
  from this[OF s1] this[OF HOL.refl assms(4)] show ?thesis using assms(5) by (simp add: s1_def)
qed


section \<open>A concrete service\<close>

definition demo_api :: "lists queue option \<Rightarrow> ports \<Rightarrow> (lists, string) memory_api" where
  "demo_api q ports = \<lparr>api_config = default_config, api_config_version = (\<lambda>_. ''v''), api_engine = ''real'',
     api_adapters = (\<lambda>_. Inr ports), api_jobs = memory_jobs, api_objects = memory_objects, api_queue = q,
     api_scenario = (\<lambda>_. None), api_render = (\<lambda>_. []), api_rate = (\<lambda>_. 16000), api_speaker_audio = (\<lambda>_ _. None),
     api_base64 = (\<lambda>x. Some (ascii x)), api_sha256 = (\<lambda>b. digits (length b)), api_preview = (\<lambda>_. None),
     api_show = (\<lambda>_. []), api_lower = (\<lambda>x. x), api_calibrate = null_calibrate, api_calibration_version = None,
     api_pipeline_ids = digits, api_event_ids = digits, api_clock = (\<lambda>n. n), api_stream_ids = (\<lambda>x n. x)\<rparr>"

definition demo_tasks :: "int \<Rightarrow> lists queue" where
  "demo_tasks n = \<lparr>tq_client = list_client, tq_namespace = ''q'', tq_max_depth = n, tq_visibility = 1\<rparr>"

definition demo_upload :: "string \<Rightarrow> (string \<times> json) list" where
  "demo_upload x = [(''audio_base64'', JStr x)]"

definition demo_service :: "lists memory_state" where
  "demo_service = new_service (new_registry ''m'' None None 3 15000) (\<lambda>_. [])"

lemma demo_api_simps [simp]:
  "api_config (demo_api q ports) = default_config" "api_config_version (demo_api q ports) c = ''v''"
  "api_engine (demo_api q ports) = ''real''" "api_adapters (demo_api q ports) x = Inr ports"
  "api_jobs (demo_api q ports) = memory_jobs" "api_objects (demo_api q ports) = memory_objects"
  "api_queue (demo_api q ports) = q" "api_sha256 (demo_api q ports) b = digits (length b)"
  by (simp_all add: demo_api_def)

lemma demo_in_memory [simp]: "in_memory (demo_api q ports)"
  by (simp add: in_memory_def)

lemma demo_job_new [simp]: "js_jobs (as_jobs demo_service) i = None" "js_by_key (as_jobs demo_service) k = None"
  by (simp_all add: demo_service_def new_service_def empty_job_store_def)

lemma demo_upload_accepted:
  "requested_asr_language (map_of (demo_upload x) ''language'') = Inr None"
  "x \<noteq> [] \<Longrightarrow> job_input (demo_api q ports) (demo_upload x) = Inr (None, ascii x)"
  by (simp_all add: demo_upload_def requested_asr_language_def job_input_def truthy_field_def uploaded_audio_def demo_api_def
      text_of_def bindR_def)

text \<open>A first upload with room in the queue.\<close>

definition demo_request :: request where
  "demo_request = CreateJob ''j'' ''i'' 0 (demo_upload ''x'') (Some ''k'') ''t''"

definition demo_queueing :: "(lists, string) memory_api" where
  "demo_queueing = demo_api (Some (demo_tasks 10)) demo_ports"

lemma demo_submitted:
  obtains s1 view where "create_job demo_queueing ''j'' ''i'' 0 (demo_upload ''x'') (Some ''k'') ''t'' demo_service = (s1, Inr view)"
    "as_audio_keys s1 = [(''j'', ''t'', ''jobs/j/input'')]"
    "js_jobs (as_jobs s1) ''j'' = Some (new_job ''j'' ''t'' ''k'' (digits 1) (Some ''v''))" "as_registry s1 = as_registry demo_service"
  by (simp add: demo_queueing_def create_job_memory demo_upload_accepted create_or_get_def new_job_def
      demo_service_def new_service_def empty_job_store_def start_job_def retain_job_audio_def Let_def bindS_def modifyS_def
      on_objects_eq readS_def returnS_def MAX_RETAINED_JOB_AUDIO_def job_audio_key_def queue_job_def on_domain_error_def
      on_queue_eq enqueue_def ALL_QUEUES_def depth_def demo_tasks_def list_client_def total_command_def list_push_def
      ascii_def)

lemma demo_queueing_memory [simp]: "in_memory demo_queueing"
  by (simp add: demo_queueing_def)

theorem retained_audio_bounded_witness:
  "\<exists>s. s = serve demo_queueing demo_request demo_service \<and> as_audio_keys s = [(''j'', ''t'', ''jobs/j/input'')]
     \<and> dom (as_objects s) = {(''t'', ''jobs/j/input'')}"
proof -
  obtain s1 view where s1: "create_job demo_queueing ''j'' ''i'' 0 (demo_upload ''x'') (Some ''k'') ''t'' demo_service = (s1, Inr view)"
    "as_audio_keys s1 = [(''j'', ''t'', ''jobs/j/input'')]" by (rule demo_submitted)
  have "fresh_requests demo_queueing demo_service [demo_request]" by (simp add: demo_request_def)
  then have "dom (as_objects s1) = {(t, job_audio_key jid) | jid t. (jid, t, job_audio_key jid) \<in> set (as_audio_keys s1)}"
    using retained_audio_bounded[OF demo_queueing_memory, of "new_registry ''m'' None None 3 15000" "\<lambda>_. []" "[demo_request]"] s1(1)
    by (simp add: demo_service_def demo_request_def)
  then have "dom (as_objects s1) = {(''t'', ''jobs/j/input'')}" by (auto simp: s1(2) job_audio_key_def)
  then show ?thesis using s1 by (intro exI[of _ s1]) (simp add: demo_request_def)
qed

theorem uploaded_audio_is_served_witness:
  "\<exists>s1. s1 = serve demo_queueing demo_request demo_service
     \<and> snd (get_job_audio demo_queueing False ''t'' ''j'' s1) = Inr (ascii ''x'', audio_media_type (ascii ''x''))
     \<and> snd (get_job_audio demo_queueing False ''u'' ''j'' s1) = Inl (Sastt TenantAccessDeniedError)"
proof -
  obtain s1 view where s1: "create_job demo_queueing ''j'' ''i'' 0 (demo_upload ''x'') (Some ''k'') ''t'' demo_service = (s1, Inr view)"
    by (rule demo_submitted)
  have "fresh_requests demo_queueing demo_service ([] @ [demo_request])" by (simp add: demo_request_def)
  from uploaded_audio_is_served[OF demo_queueing_memory this[unfolded demo_request_def demo_service_def], where s = demo_service
      and ?s1.0 = s1 and ?s2.0 = s1 and u = "''u''" and scenario = None and content = "ascii ''x''" and view = view]
  show ?thesis using s1 demo_upload_accepted(2)[of "''x''"]
    by (intro exI[of _ s1]) (simp add: demo_request_def demo_service_def[symmetric] demo_queueing_def)
qed

theorem resubmission_changes_nothing_witness:
  "\<exists>s j. s = serve demo_queueing demo_request demo_service
     \<and> create_job demo_queueing ''j2'' ''i2'' 5 (demo_upload ''y'') (Some ''k'') ''t'' s = (s, Inr (job_view demo_queueing j False s))
     \<and> create_job demo_queueing ''j2'' ''i2'' 5 (demo_upload ''yy'') (Some ''k'') ''t'' s = (s, Inl (HttpError 409))"
proof -
  let ?s = "serve demo_queueing demo_request demo_service"
  have fresh: "fresh_requests demo_queueing demo_service ([] @ [demo_request])" by (simp add: demo_request_def)
  have again: "\<exists>j. js_jobs (as_jobs ?s) ''j'' = Some j \<and> tenant_id j = ''t''
      \<and> create_job demo_queueing ''j2'' ''i2'' 5 (demo_upload y) (Some ''k'') ''t'' ?s
        = (if digits (length y) = digits 1 then (?s, Inr (job_view demo_queueing j False ?s)) else (?s, Inl (HttpError 409)))"
    if "y \<noteq> []" for y
    using resubmission_changes_nothing[OF demo_queueing_memory fresh[unfolded demo_request_def demo_service_def], where s = demo_service
      and ?s2.0 = ?s and scenario = None and content = "ascii ''x''" and language = None and payload' = "demo_upload y"
      and scenario' = None and content' = "ascii y" and language' = None and fresh' = "''j2''" and tid' = "''i2''" and now' = 5]
      demo_upload_accepted(2)[of "''x''"] demo_upload_accepted(2)[of y] demo_upload_accepted(1) that
    by (simp add: demo_request_def demo_service_def[symmetric] demo_queueing_def ascii_def)
  have "digits 2 \<noteq> digits (1::nat)" by (auto dest: digits_inj)
  then show ?thesis using again[of "''y''"] again[of "''yy''"] by (auto dest: digits_inj)
qed


theorem refused_job_stays_cancelled_witness:
  "\<exists>s1 j. create_job (demo_api (Some (demo_tasks 0)) demo_ports) ''j'' ''i'' 0 (demo_upload ''x'') (Some ''k'') ''t'' demo_service
       = (s1, Inl (Sastt RedisQueueOverloadedError))
     \<and> error_status RedisQueueOverloadedError = 400 \<and> job_status j = CANCELLED
     \<and> create_job (demo_api (Some (demo_tasks 0)) demo_ports) ''j2'' ''i2'' 5 (demo_upload ''x'') (Some ''k'') ''t'' s1
       = (s1, Inr (job_view (demo_api (Some (demo_tasks 0)) demo_ports) j False s1))"
proof -
  let ?a = "demo_api (Some (demo_tasks 0)) demo_ports"
  let ?r = "create_job ?a ''j'' ''i'' 0 (demo_upload ''x'') (Some ''k'') ''t'' demo_service"
  have fresh: "fresh_requests ?a demo_service ([] @ [demo_request])" by (simp add: demo_request_def)
  have full: "snd (enqueue (demo_tasks 0) ''i'' 0 ''speaker.batch'' ''t'' ''j'' p (as_queue demo_service)) = Inl (Sastt RedisQueueOverloadedError)" for p
    by (simp add: enqueue_def ALL_QUEUES_def depth_def demo_tasks_def list_client_def total_command_def bindS_def liftS_def
        demo_service_def new_service_def)
  have "snd ?r = Inl (Sastt RedisQueueOverloadedError) \<and> as_objects (fst ?r) (''t'', job_audio_key ''j'') = None
    \<and> (\<exists>j. js_jobs (as_jobs (fst ?r)) ''j'' = Some j \<and> job_status j = CANCELLED
         \<and> create_job ?a ''j2'' ''i2'' 5 (demo_upload ''x'') (Some ''k'') ''t'' (fst ?r) = (fst ?r, Inr (job_view ?a j False (fst ?r))))"
    by (rule refused_job_stays_cancelled[OF demo_in_memory fresh[unfolded demo_request_def demo_service_def], where s = demo_service
          and scenario = None and content = "ascii ''x''" and language = None])
      (rule full | simp add: demo_service_def[symmetric] demo_upload_accepted)+
  then show ?thesis
    by (intro exI[of _ "fst ?r"]) (auto simp: error_status_def prod_eq_iff)
qed

text \<open>A run that ends because the upload cannot be decoded.\<close>

definition undecodable :: ports where
  "undecodable = demo_ports\<lparr>port_decode := \<lambda>_. Inl (Sastt UnsupportedAudioFormatError)\<rparr>"

theorem job_runs_in_process_witness:
  "\<exists>s1 j. create_job (demo_api None undecodable) ''j'' ''i'' 0 (demo_upload ''x'') (Some ''k'') ''t'' demo_service
       = (s1, Inl (Sastt UnsupportedAudioFormatError))
     \<and> js_jobs (as_jobs s1) ''j'' = Some j \<and> job_status j = FAILED \<and> job_error j = Some ''UNSUPPORTED_AUDIO_FORMAT''"
proof -
  let ?a = "demo_api None undecodable"
  obtain s1 where run: "create_job ?a ''j'' ''i'' 0 (demo_upload ''x'') (Some ''k'') ''t'' demo_service
      = (s1, Inl (Sastt UnsupportedAudioFormatError))"
    by (simp add: create_job_memory demo_upload_accepted create_or_get_def new_job_def
      demo_service_def new_service_def empty_job_store_def start_job_def retain_job_audio_def Let_def bindS_def modifyS_def
      on_objects_eq readS_def returnS_def MAX_RETAINED_JOB_AUDIO_def job_audio_key_def run_job_def on_domain_error_def
      liftS_def transition_job_def job_transition_def on_jobs_eq job_is_terminal_def TERMINAL_JOB_STATES_def
      offline_run_def decode_stage_def undecodable_def job_pipeline_def bindR_def)
  have fresh: "fresh_requests ?a demo_service ([] @ [demo_request])" by (simp add: demo_request_def)
  from job_runs_in_process[OF demo_in_memory fresh[unfolded demo_request_def demo_service_def], where s = demo_service
          and scenario = None and content = "ascii ''x''" and language = None and ?s1.0 = s1] run
  show ?thesis by (auto simp: demo_service_def[symmetric] demo_upload_accepted error_text_def)
qed

theorem deleted_job_serves_nothing_witness:
  "\<exists>s1 answer. delete_job demo_queueing ''t'' ''j'' (serve demo_queueing demo_request demo_service) = (s1, Inr answer)
     \<and> map_of answer ''state'' = Some (JStr (job_state_value CANCELLED))
     \<and> snd (get_job_audio demo_queueing False ''t'' ''j'' s1) = Inl (HttpError 404)"
proof -
  let ?s = "serve demo_queueing demo_request demo_service"
  obtain s0 view where s0: "create_job demo_queueing ''j'' ''i'' 0 (demo_upload ''x'') (Some ''k'') ''t'' demo_service = (s0, Inr view)"
    "js_jobs (as_jobs s0) ''j'' = Some (new_job ''j'' ''t'' ''k'' (digits 1) (Some ''v''))" by (rule demo_submitted)
  have ports: "api_jobs demo_queueing = memory_jobs" "api_objects demo_queueing = memory_objects"
    by (simp_all add: demo_queueing_def)
  obtain s1 answer where run: "delete_job demo_queueing ''t'' ''j'' ?s = (s1, Inr answer)"
      "map_of answer ''state'' = Some (JStr (job_state_value CANCELLED))"
    using s0 by (simp add: demo_request_def delete_job_memory[OF ports] job_get_def new_job_def job_is_terminal_def
        TERMINAL_JOB_STATES_def bindS_def on_jobs_eq updateS_def update_state_def bindR_def job_transition_def returnS_def forgotten_def)
  have fresh: "fresh_requests demo_queueing demo_service ([demo_request] @ [DeleteJob ''t'' ''j''])" by (simp add: demo_request_def)
  from deleted_job_serves_nothing[OF demo_queueing_memory fresh[unfolded demo_service_def], where s = ?s and ?s1.0 = s1
      and ?s2.0 = s1 and answer = answer and preview = False] run show ?thesis
    by (intro exI[of _ s1] exI[of _ answer]) (auto simp: demo_service_def)
qed

text \<open>A job of the tables with one stored segment.\<close>

definition demo_segment :: segment_row where
  "demo_segment = \<lparr>sr_id = ''seg'', sr_job = ''job_local'', sr_session = ''job_local'', sr_tenant = ''acme'', sr_start = 0,
     sr_end = 1000, sr_speaker = Some ''s'', sr_track = None, sr_overlap = False,
     sr_payload = [(''start_ms'', JInt 0), (''end_ms'', JInt 1000), (''speaker_label'', JStr ''S''), (''text'', JStr ''hi'')]\<rparr>"

definition demo_db :: db where
  "demo_db = (demo_table SUCCEEDED)\<lparr>db_segments := [demo_segment]\<rparr>"

theorem deleted_job_still_served_witness:
  "\<exists>a s answer. get_job_result (a :: (db, bytes object_store, lists, string) api) ''acme'' ''job_local'' s = (s, Inr answer)
     \<and> snd (delete_job a ''acme'' ''job_local'' s) \<noteq> Inl (HttpError 404)
     \<and> snd (get_job_result a ''acme'' ''job_local'' (fst (delete_job a ''acme'' ''job_local'' s))) = Inr answer"
proof -
  let ?q = "demo_api None demo_ports"
  define a :: "(db, bytes object_store, lists, string) api" where
    "a = \<lparr>api_config = default_config, api_config_version = (\<lambda>_. ''v''), api_engine = ''real'',
     api_adapters = (\<lambda>_. Inr demo_ports), api_jobs = table_jobs (\<lambda>x. x) (\<lambda>x. x), api_objects = memory_objects, api_queue = None,
     api_scenario = (\<lambda>_. None), api_render = (\<lambda>_. []), api_rate = (\<lambda>_. 16000), api_speaker_audio = (\<lambda>_ _. None),
     api_base64 = (\<lambda>x. Some (ascii x)), api_sha256 = (\<lambda>b. digits (length b)), api_preview = (\<lambda>_. None),
     api_show = (\<lambda>_. []), api_lower = (\<lambda>x. x), api_calibrate = null_calibrate, api_calibration_version = None,
     api_pipeline_ids = digits, api_event_ids = digits, api_clock = (\<lambda>n. n), api_stream_ids = (\<lambda>x n. x)\<rparr>"
  define s :: "(db, bytes object_store, lists) app_state" where
    "s = \<lparr>as_jobs = demo_db, as_objects = Map.empty, as_queue = (\<lambda>_. []), as_registry = new_registry ''m'' None None 3 15000,
      as_identities = [], as_results = Map.empty, as_scenarios = Map.empty, as_audio_keys = [], as_previews = [],
      as_languages = Map.empty, as_sessions = Map.empty\<rparr>"
  let ?j = "(new_job ''job_local'' ''acme'' ''k'' ''h'' None)\<lparr>job_status := SUCCEEDED\<rparr>"
  have get: "pg_get ''acme'' ''job_local'' demo_db = (demo_db, Inr ?j)"
    using demo_table_get[of SUCCEEDED]
    by (simp add: pg_get_def select_job_def readS_def bindS_def liftS_def demo_db_def split: option.splits)
  have terminal: "job_is_terminal ?j" by (simp add: job_is_terminal_def TERMINAL_JOB_STATES_def)
  have jobs: "api_jobs a = table_jobs (\<lambda>x. x) (\<lambda>x. x)" by (simp add: a_def)
  have port: "jp_get (api_jobs a) = pg_get" "jp_load (api_jobs a) = Some (load_result (\<lambda>x. x) (\<lambda>x. x))"
    using jobs by (simp_all add: table_jobs_def)
  have rows: "load_result (\<lambda>x. x) (\<lambda>x. x) ''acme'' ''job_local'' demo_db = (demo_db, Inr [sr_payload demo_segment])"
    by (simp add: load_result_def readS_def demo_db_def demo_segment_def)
  obtain answer where "stored_result a ?j [sr_payload demo_segment] = Inr answer"
    by (simp add: stored_result_def render_transcript_from_public_segments_def public_key_def public_line_def demo_segment_def
        field_def field_or_def bindR_def)
  then have answer: "get_job_result a ''acme'' ''job_local'' s = (s, Inr answer)"
    using get terminal rows
    by (simp add: get_job_result_def bindS_def on_jobs_eq port readS_def s_def new_job_def liftS_def)
  have deleted: "snd (delete_job a ''acme'' ''job_local'' s) \<noteq> Inl (HttpError 404)"
    using get terminal
    by (simp add: delete_job_def bindS_def on_jobs_eq port s_def forget_job_def readS_def modifyS_def returnS_def)
  have "snd (get_job_result a ''acme'' ''job_local'' (fst (delete_job a ''acme'' ''job_local'' s))) = Inr answer"
    by (rule deleted_job_still_served[OF jobs _ terminal _ answer]) (use get in \<open>simp_all add: s_def\<close>)
  then show ?thesis using answer deleted by blast
qed

end
