(* ===== verification/VoiceProps.thy ===== *)
theory VoiceProps
  imports ServiceProps RegistryProps
begin

text \<open>
  The voices the service holds over any sequence of requests: each was enrolled with a consent, is shown
  and can be deleted.
\<close>

section \<open>Voices\<close>

text \<open>Only the entry of the voice enrolled is new or changed, and it has the consent given.\<close>

definition enrolled_with :: "string \<Rightarrow> string \<Rightarrow> string option \<Rightarrow> voice_registry \<Rightarrow> voice_registry \<Rightarrow> bool" where
  "enrolled_with t i consent r r' \<longleftrightarrow> (\<forall>u m e. map_of (entries_of r' u) m = Some e \<longrightarrow>
     u = t \<and> m = i \<and> entry_consent_ref e = consent \<or> map_of (entries_of r u) m = Some e)"

lemma enrolled_edit:
  assumes "enrolled_with t i consent r r'"
    and "\<And>e. map_of (entries_of r' t) i = Some e \<Longrightarrow> entry_consent_ref (f e) = consent"
  shows "enrolled_with t i consent r (edit_entry t i f r')"
  using assms by (auto simp: enrolled_with_def edit_entry_def update_conv split: option.split)

lemma edit_entry_lookup:
  "map_of (entries_of (edit_entry t i f r) t) i = map_option f (map_of (entries_of r t) i)"
  by (simp add: edit_entry_def update_conv split: option.split)

lemma enroll_entries:
  assumes "truthy consent"
  shows "enrolled_with t i consent r (fst (enroll (Inr ()) t i es name consent r))"
proof -
  define P where "P = (\<lambda>r'. enrolled_with t i consent r r'
    \<and> (\<forall>e. map_of (entries_of r' t) i = Some e \<longrightarrow> entry_consent_ref e = consent))"
  define r1 where "r1 = edit_entry t i (refresh_metadata name consent) (ensure_entry t i name r)"
  have edit: "P (edit_entry t i f r')" if "P r'" "\<And>e. entry_consent_ref (f e) = entry_consent_ref e" for f r'
    using that enrolled_edit[where f = f] unfolding P_def by (auto simp: edit_entry_lookup)
  have "enrolled_with t i consent r r1"
    using assms by (auto simp: enrolled_with_def r1_def edit_entry_def ensure_entry_def update_conv refresh_metadata_def
        split: option.splits if_splits)
  moreover have "\<forall>e. map_of (entries_of r1 t) i = Some e \<longrightarrow> entry_consent_ref e = consent"
    using assms by (auto simp: r1_def edit_entry_lookup refresh_metadata_def)
  ultimately have r1: "P r1" by (simp add: P_def)
  have store: "P (fst (store_embedding t i e u r'))" if "P r'" for e u r'
    unfolding store_embedding_def by (rule bindS_final) (use that edit in \<open>auto simp: liftS_def modifyS_def add_prototype_def\<close>)
  have eq: "enroll (Inr ()) t i es name consent r
      = bindS (foldS (store_embedding t i) (accepted_embeddings (vr_model_version r) es) ()) (\<lambda>_.
        bindS (modifyS (edit_entry t i (\<lambda>e. e\<lparr>entry_accepted_speech_ms := entry_accepted_speech_ms e
          + sum_list (map e_speech_duration_ms (accepted_embeddings (vr_model_version r) es))\<rparr>))) (\<lambda>_.
        readS (enroll_report t i es))) r1"
    by (simp add: enroll_def bind_pure r1_def)
  have "P (fst (enroll (Inr ()) t i es name consent r))"
    unfolding eq by (rule bindS_final, rule foldS_final) (auto simp: r1 store edit bind_modify readS_def)
  then show ?thesis by (simp add: P_def)
qed

text \<open>Every stored voice is listed for its tenant and has a reference to a consent.\<close>

definition voices_listed :: "'q memory_state \<Rightarrow> bool" where
  "voices_listed s \<longleftrightarrow> (\<forall>t i e. map_of (entries_of (as_registry s) t) i = Some e \<longrightarrow>
     truthy (entry_consent_ref e) \<and> map_of (as_identities s) (t, i) \<noteq> None)"

lemma voices_listed_more:
  assumes "voices_listed s" and "as_registry s' = as_registry s"
    and "\<And>x. map_of (as_identities s) x \<noteq> None \<Longrightarrow> map_of (as_identities s') x \<noteq> None"
  shows "voices_listed s'"
  using assms unfolding voices_listed_def by metis

lemma enroll_listed:
  assumes "voices_listed s"
  shows "voices_listed (fst (enroll_voice_identity a i payload t s))"
proof (cases "map_of (as_identities s) (t, i)")
  case None
  then show ?thesis using assms by (simp add: enroll_voice_identity_def bind_read liftS_def)
next
  case (Some m)
  let ?consent = "case truthy_field payload ''consent_ref'' of Some v \<Rightarrow> Some (text_of (api_show a) v) | None \<Rightarrow> im_consent_ref m"
  show ?thesis
  proof (cases "truthy ?consent")
    case False
    then show ?thesis using assms Some by (simp add: enroll_voice_identity_def bind_read liftS_def Let_def)
  next
    case consent: True
    show ?thesis
    proof (cases "extract_enrollment_embedding a payload")
      case (Inl e)
      then show ?thesis using assms Some consent by (simp add: enroll_voice_identity_def bind_read bind_raise Let_def)
    next
      case (Inr e)
      let ?m = "enroll (Inr ()) t i [e] (Some (im_display_name m)) ?consent"
      let ?s = "s\<lparr>as_registry := fst (?m (as_registry s))\<rparr>"
      have "voices_listed ?s"
        using enroll_entries[OF consent, of t i "as_registry s" "[e]" "Some (im_display_name m)"] assms Some consent
        unfolding voices_listed_def enrolled_with_def by fastforce
      have "enroll_voice_identity a i payload t s = bindS (on_registry ?m) (\<lambda>report.
          bindS (modifyS (\<lambda>s. s\<lparr>as_identities :=
              AList.update (t, i) (m\<lparr>im_consent_ref := ?consent\<rparr>) (as_identities s)\<rparr>)) (\<lambda>_.
            returnS (enroll_report_to_dict report))) s"
        using Some consent Inr by (simp add: enroll_voice_identity_def bind_read bind_lift Let_def)
      then obtain ids where "fst (enroll_voice_identity a i payload t s) = ?s\<lparr>as_identities := ids\<rparr>"
          "\<And>x. map_of (as_identities s) x \<noteq> None \<Longrightarrow> map_of ids x \<noteq> None"
        by (cases "snd (?m (as_registry s))")
          (auto simp: bindS_def on_registry_eq modifyS_def returnS_def update_conv
            intro: that[of "as_identities s"] that[of "AList.update (t, i) (m\<lparr>im_consent_ref := ?consent\<rparr>) (as_identities s)"])
      with voices_listed_more[of ?s "?s\<lparr>as_identities := ids\<rparr>"] \<open>voices_listed ?s\<close> show ?thesis by simp
    qed
  qed
qed

lemma delete_voice_listed:
  assumes "voices_listed s"
  shows "voices_listed (fst (delete_voice_identity i t s))"
  using assms
  by (auto simp: delete_voice_identity_def bind_read liftS_def bindS_def on_registry_eq modifyS_def returnS_def
      delete_identity_def readS_def voices_listed_def delete_conv split: if_splits)


definition keeps_voices :: "'q memory_state \<Rightarrow> 'q memory_state \<Rightarrow> bool" where
  "keeps_voices s s' \<longleftrightarrow> as_registry s' = as_registry s \<and> as_identities s' = as_identities s"

lemma keeps_voices_listed: "keeps_voices s s' \<Longrightarrow> voices_listed s \<Longrightarrow> voices_listed s'"
  by (simp add: keeps_voices_def voices_listed_def)

lemma create_voice_listed:
  assumes "voices_listed s"
  shows "voices_listed (fst (create_voice_identity a fresh payload t s))"
  using assms
  by (auto simp: create_voice_identity_def Let_def liftS_def bind_read bind_modify voices_listed_def update_conv)

lemma create_session_voices: "keeps_voices s (fst (create_session a fresh payload t s))"
  by (cases "load_demo_scenario a (case truthy_field payload ''scenario'' of
         None \<Rightarrow> ''s02_two_speaker_overlap'' | Some v \<Rightarrow> text_of (api_show a) v)")
    (auto simp: create_session_def Let_def bind_raise bind_lift bindS_def liftS_def modifyS_def returnS_def
      keeps_voices_def split: sum.split)

lemma finalize_session_voices: "keeps_voices s (fst (finalize_session sid s))"
  unfolding finalize_session_def bind_ignore
  by (auto simp: bindS_def in_session_def returnS_def keeps_voices_def split: option.split prod.split sum.split)

lemma serve_listed:
  assumes "in_memory a" and ok: "retained_ok s" and "fresh_request s r" and listed: "voices_listed s"
  shows "voices_listed (serve a r s)"
proof -
  have ports: "api_jobs a = memory_jobs" "api_objects a = memory_objects" using assms(1) by (simp_all add: in_memory_def)
  have serves: "serves I s s' \<Longrightarrow> voices_listed s'" for I s'
    using listed keeps_voices_listed by (simp add: serves_def keeps_voices_def voices_listed_def)
  show ?thesis
  proof (cases r)
    case CreateJob
    then show ?thesis using serves[OF create_job_serves[OF ports ok]] assms(3) by simp
  next
    case (GetAudio preview t jid)
    obtain ps where "serve a r s = s\<lparr>as_previews := ps\<rparr>"
      using get_job_audio_serves[OF ports ok] GetAudio by fastforce
    then show ?thesis using listed by (simp add: voices_listed_def)
  next
    case DeleteJob
    then show ?thesis using serves[OF delete_job_serves[OF ports ok]] by simp
  qed (simp_all add: listed get_job_unchanged[OF ports(1)] create_voice_listed enroll_listed delete_voice_listed
      keeps_voices_listed[OF create_session_voices] keeps_voices_listed[OF finalize_session_voices])
qed

lemma run_listed:
  "in_memory a \<Longrightarrow> retained_ok s \<Longrightarrow> fresh_requests a s rs \<Longrightarrow> voices_listed s \<Longrightarrow>
     voices_listed (fold (serve a) rs s)"
proof (induction rs arbitrary: s)
  case (Cons r rs)
  have "retained_ok (serve a r s)" using serve_keeps_audio[OF Cons.prems(1,2)] Cons.prems(3) by (simp add: keeps_audio_def)
  moreover have "voices_listed (serve a r s)" using serve_listed[OF Cons.prems(1,2) _ Cons.prems(4)] Cons.prems(3) by simp
  ultimately show ?case using Cons.IH[of "serve a r s"] Cons.prems by simp
qed simp

text \<open>
  No voice without consent. After any sequence of requests every voice the registry holds, for any
  tenant, was enrolled with a reference to a consent and is known to the identity endpoints: they show
  it, and a deletion removes it from the registry, so that it can no longer be identified.
\<close>

theorem voices_have_consent:
  fixes a :: "('q, 'c) memory_api"
  assumes "in_memory a" and "vr_tenants registry = []" and "fresh_requests a (new_service registry q) rs"
  defines "s \<equiv> fold (serve a) rs (new_service registry q)"
  assumes "identity_exists (as_registry s) t i"
  shows "(\<exists>e. map_of (entries_of (as_registry s) t) i = Some e \<and> truthy (entry_consent_ref e))
    \<and> (\<exists>view. get_voice_identity t i s = (s, Inr view))
    \<and> snd (delete_voice_identity i t s) = Inr [(''identity_id'', JStr i), (''deleted'', JBool True)]
    \<and> \<not> identity_exists (as_registry (fst (delete_voice_identity i t s))) t i"
proof -
  have "voices_listed (new_service registry q)" using assms(2) by (simp add: voices_listed_def new_service_def entries_of_def)
  then have listed: "voices_listed s" unfolding s_def by (rule run_listed[OF assms(1) new_service_ok assms(3)])
  obtain e where e: "map_of (entries_of (as_registry s) t) i = Some e" using assms(5) by (auto simp: identity_exists_def)
  with listed obtain m where m: "truthy (entry_consent_ref e)" "map_of (as_identities s) (t, i) = Some m"
    unfolding voices_listed_def by blast
  have "\<exists>view. get_voice_identity t i s = (s, Inr view)"
    using m(2) e by (simp add: get_voice_identity_def voice_identity_view_def identity_exists_def
        VoiceRegistry.prototypes_of_def bindR_def)
  moreover have "snd (delete_voice_identity i t s) = Inr [(''identity_id'', JStr i), (''deleted'', JBool True)]"
      "\<not> identity_exists (as_registry (fst (delete_voice_identity i t s))) t i"
    using m(2) e by (simp_all add: delete_voice_identity_def bind_read bindS_def on_registry_eq delete_identity_def
        readS_def modifyS_def returnS_def liftS_def identity_exists_def delete_conv)
  ultimately show ?thesis using e m(1) by blast
qed


section \<open>A voice enrolled\<close>

definition demo_voice_api :: "(lists, string) memory_api" where
  "demo_voice_api = demo_api None (demo_ports\<lparr>port_embed := \<lambda>_ _ _ _ _. Inr (clip_of [1, 0])\<rparr>)"

definition demo_voice_requests :: "request list" where
  "demo_voice_requests = [CreateVoice ''f'' [(''external_id'', JStr ''ann''), (''consent_ref'', JStr ''c1'')] ''t'',
     EnrollVoice ''ann'' (demo_upload ''x'') ''t'']"

lemma demo_voice_enrolled:
  "identity_exists (as_registry (fold (serve demo_voice_api) demo_voice_requests demo_service)) ''t'' ''ann''"
proof -
  define ids where "ids = [((''t'', ''ann''), \<lparr>im_display_name = ''ann'', im_consent_ref = Some ''c1''\<rparr>)]"
  have first: "serve demo_voice_api (hd demo_voice_requests) demo_service = demo_service\<lparr>as_identities := ids\<rparr>"
    by (simp add: demo_voice_requests_def create_voice_identity_def truthy_field_def Let_def text_of_def strip_def is_space_def
        bind_read bind_modify demo_service_def new_service_def ids_def)
  have clip: "extract_enrollment_embedding demo_voice_api (demo_upload ''x'') = Inr (clip_of [1, 0])"
    by (simp add: extract_enrollment_embedding_def truthy_field_def demo_upload_def uploaded_audio_def demo_voice_api_def
        demo_api_def text_of_def bindR_def demo_ports_def embed_clip_def)
  have version: "accepted_embeddings (vr_model_version (new_registry ''m'' None None 3 15000)) [clip_of [1, 0]] = [clip_of [1, 0]]"
    using demo_accepted by (simp add: new_registry_def)
  have empty: "entries_of (new_registry ''m'' None None 3 15000) ''t'' = []" by (simp add: new_registry_def entries_of_def)
  have "map_of (entries_of (fst (enroll (Inr ()) ''t'' ''ann'' [clip_of [1, 0]] (Some ''ann'') (Some ''c1'')
      (new_registry ''m'' None None 3 15000))) ''t'') ''ann'' \<noteq> None"
    by (simp add: enroll_def bind_pure bind_assoc version store_embedding_def demo_clip readS_def returnS_def
        ensure_entry_def edit_entry_def update_conv refresh_metadata_def add_prototype_def empty)
  then show ?thesis
    using first clip
    by (simp add: demo_voice_requests_def enroll_voice_identity_def readS_def liftS_def Let_def ids_def truthy_field_def
        demo_upload_def bindS_def on_registry_eq modifyS_def returnS_def identity_exists_def demo_service_def new_service_def
        split: sum.split prod.split)
qed

theorem voices_have_consent_witness:
  "\<exists>e. map_of (entries_of (as_registry (fold (serve demo_voice_api) demo_voice_requests demo_service)) ''t'') ''ann'' = Some e
     \<and> truthy (entry_consent_ref e)"
proof -
  have memory: "in_memory demo_voice_api" by (simp add: demo_voice_api_def)
  have empty: "vr_tenants (new_registry ''m'' None None 3 15000) = []" by (simp add: new_registry_def)
  have "fresh_requests demo_voice_api (new_service (new_registry ''m'' None None 3 15000) (\<lambda>_. [])) demo_voice_requests"
    by (simp add: demo_voice_requests_def)
  from voices_have_consent[OF memory empty this demo_voice_enrolled[unfolded demo_service_def]] show ?thesis
    unfolding demo_service_def by (rule conjunct1)
qed

end
