(* ===== verification/WebSocket.thy ===== *)
theory WebSocket
  imports JobApi
begin

text \<open>
  The websocket through which a client sends audio and receives events, \<^verbatim>\<open>src/src/sastt/api/websocket.py\<close>,
  over the sessions of the service. A connection is the list of the messages that arrived and the number
  of messages it still carries: the next one raises \<open>WebSocketDisconnect\<close>. A text is the value that
  \<open>json.loads\<close> gives for it, or none. Logging is left out.
\<close>

section \<open>The connection\<close>

datatype client_message = Frame bytes | Text "json option" | Disconnect | OtherMessage

record socket =
  so_session :: stream_session
  so_sent :: "(string \<times> json) list list"
  so_room :: nat

definition send_json :: "(string \<times> json) list \<Rightarrow> (socket, unit) action" where
  "send_json d s =
     (if so_room s = 0 then (s, Inl WebSocketDisconnect)
      else (s\<lparr>so_sent := so_sent s @ [d], so_room := so_room s - 1\<rparr>, Inr ()))"

definition send_events :: "server_event list \<Rightarrow> (socket, unit) action" where
  "send_events es = foldS (\<lambda>e _. send_json (event_to_dict e)) es ()"

definition of_session :: "(stream_session, 'a) action \<Rightarrow> (socket, 'a) action" where
  "of_session = zoomS so_session (\<lambda>x s. s\<lparr>so_session := x\<rparr>)"

section \<open>Control messages\<close>

text \<open>\<open>int(message.get("last_sequence_number") or 0)\<close>.\<close>

definition resume_cursor :: "json option \<Rightarrow> int res" where
  "resume_cursor v =
     (case v of
        None \<Rightarrow> Inr 0
      | Some j \<Rightarrow>
          if \<not> json_truth j then Inr 0
          else (case j of JInt n \<Rightarrow> Inr n | JReal r \<Rightarrow> Inr (trunc r) | JBool b \<Rightarrow> Inr 1
                  | JStr s \<Rightarrow> int_of_text s | _ \<Rightarrow> Inl TypeError))"

definition is_finalize :: "json option \<Rightarrow> bool" where
  "is_finalize text =
     (case text of Some (JObj d) \<Rightarrow> map_of d ''type'' = Some (JStr ''finalize'') | _ \<Rightarrow> False)"

definition handle_control :: "stream \<Rightarrow> json option \<Rightarrow> (socket, unit) action" where
  "handle_control x text =
     (case text of
        None \<Rightarrow> returnS ()
      | Some (JObj d) \<Rightarrow>
          if map_of d ''type'' = Some (JStr ''finalize'') then bindS (of_session (finalize_stream x)) send_events
          else if map_of d ''type'' = Some (JStr ''resume'')
            then bindS (liftS (resume_cursor (map_of d ''last_sequence_number''))) (\<lambda>n.
                 bindS (of_session (\<lambda>s. (s, replay_stream n s))) send_events)
          else returnS ()
      | Some v \<Rightarrow> liftS (Inl AttributeError))"

section \<open>The endpoint\<close>

fun socket_loop :: "stream \<Rightarrow> client_message list \<Rightarrow> (socket, unit) action" where
  "socket_loop x [] = returnS ()"
| "socket_loop x (Disconnect # ms) = returnS ()"
| "socket_loop x (Frame payload # ms) =
     bindS (of_session (push_pcm x payload)) (\<lambda>es. bindS (send_events es) (\<lambda>_. socket_loop x ms))"
| "socket_loop x (OtherMessage # ms) = socket_loop x ms"
| "socket_loop x (Text t # ms) =
     bindS (handle_control x t) (\<lambda>_. if is_finalize t then returnS () else socket_loop x ms)"

text \<open>\<open>explain\<close> gives the message and the details of an error.\<close>

definition failure_message :: "(sastt_error \<Rightarrow> (string \<times> json) list) \<Rightarrow> sastt_error \<Rightarrow> (string \<times> json) list" where
  "failure_message explain e =
     [(''type'', JStr ''session.failed''),
      (''payload'', JObj ((''error_code'', json_opt (\<lambda>c. JStr (code_value c)) (code_of e)) # explain e))]"

definition open_socket :: "stream \<Rightarrow> client_message list \<Rightarrow> (socket, unit) action" where
  "open_socket x ms =
     bindS (readS (\<lambda>s. log_events (sx_log (so_session s)))) (\<lambda>events.
     bindS (if events = [] then bindS (of_session (start_stream x)) (\<lambda>e. send_events [e]) else returnS ()) (\<lambda>_.
       socket_loop x ms))"

definition audio_socket ::
  "(sastt_error \<Rightarrow> (string \<times> json) list) \<Rightarrow> stream \<Rightarrow> client_message list \<Rightarrow> (socket, unit) action" where
  "audio_socket explain x ms s =
     (case open_socket x ms s of
        (s', Inl WebSocketDisconnect) \<Rightarrow> (s', Inr ())
      | (s', Inl (Sastt e)) \<Rightarrow> send_json (failure_message explain e) s'
      | r \<Rightarrow> r)"

text \<open>The endpoint finds the session of the service; what it sent is the result.\<close>

definition serve_socket ::
  "(sastt_error \<Rightarrow> (string \<times> json) list) \<Rightarrow> string \<Rightarrow> client_message list \<Rightarrow> nat \<Rightarrow> ('j, 'o, 'q) app_state \<Rightarrow>
     ('j, 'o, 'q) app_state \<times> (string \<times> json) list list" where
  "serve_socket explain sid ms room s =
     (case as_sessions s sid of
        None \<Rightarrow> (s, take room [[(''type'', JStr ''session.failed''),
                               (''payload'', JObj [(''error_code'', JStr ''UNKNOWN_SESSION'')])]])
      | Some (x, sx) \<Rightarrow>
          (case audio_socket explain x ms \<lparr>so_session = sx, so_sent = [], so_room = room\<rparr> of
             (so, r) \<Rightarrow> (s\<lparr>as_sessions := (as_sessions s)(sid \<mapsto> (x, so_session so))\<rparr>, so_sent so)))"

end
