(* ===== verification/WebSocketProps.thy ===== *)
theory WebSocketProps
  imports WebSocket StreamProps
begin

text \<open>
  What a client of the websocket receives: the methods of a session return exactly the events they
  append, so that a client which reconnects with its cursor gets every event once and in order,
  wherever its connections broke.
\<close>

section \<open>Methods that return what they append\<close>

text \<open>
  \<open>tells R m\<close>: the history of the log grows by some events \<open>es\<close>, and a value that is returned
  is related to them by \<open>R\<close>.
\<close>

definition tells :: "('a \<Rightarrow> server_event list \<Rightarrow> bool) \<Rightarrow> (stream_session, 'a) action \<Rightarrow> bool" where
  "tells R m \<longleftrightarrow> (\<forall>s s' r hs. log_stores (sx_log s) hs \<longrightarrow> m s = (s', r) \<longrightarrow>
     (\<exists>es. log_stores (sx_log s') (hs @ es) \<and> (\<forall>v. r = Inr v \<longrightarrow> R v es)))"

definition same_log :: "stream_session \<Rightarrow> stream_session \<Rightarrow> bool" where
  "same_log s s' \<longleftrightarrow> sx_log s' = sx_log s"

interpretation quiet: state_relation same_log
  by unfold_locales (auto simp: same_log_def)

lemma tells_quiet: "quiet.keeps m \<Longrightarrow> tells (\<lambda>v es. es = []) m"
  unfolding tells_def quiet.keeps_def same_log_def by (metis append_Nil2 fst_conv)

lemma tells_return: "R v [] \<Longrightarrow> tells R (returnS v)"
  unfolding tells_def returnS_def by (metis append_Nil2 old.sum.inject(2) prod.inject)

lemma tells_bind:
  assumes m: "tells Q m" and f: "\<And>v es. Q v es \<Longrightarrow> tells (\<lambda>w more. R w (es @ more)) (f v)"
  shows "tells R (bindS m f)"
  unfolding tells_def
proof (intro allI impI)
  fix s s' r hs
  assume st: "log_stores (sx_log s) hs" and run: "bindS m f s = (s', r)"
  obtain s1 r1 where first: "m s = (s1, r1)" by (rule prod.exhaust)
  from m[unfolded tells_def, rule_format, OF st first] obtain es
    where es: "log_stores (sx_log s1) (hs @ es)" "\<And>v. r1 = Inr v \<Longrightarrow> Q v es" by blast
  show "\<exists>es. log_stores (sx_log s') (hs @ es) \<and> (\<forall>v. r = Inr v \<longrightarrow> R v es)"
  proof (cases r1)
    case (Inl e)
    then show ?thesis using run first es(1) by (intro exI[of _ es]) (auto simp: bindS_def)
  next
    case (Inr v)
    then have then_run: "f v s1 = (s', r)" using run first by (simp add: bindS_def)
    from f[OF es(2)[OF Inr], unfolded tells_def, rule_format, OF es(1) then_run] obtain more where
      "log_stores (sx_log s') ((hs @ es) @ more)" "\<And>w. r = Inr w \<Longrightarrow> R w (es @ more)" by blast
    then show ?thesis by (intro exI[of _ "es @ more"]) simp
  qed
qed

lemma tells_quiet_bind:
  assumes "quiet.keeps m" and "\<And>v. tells R (f v)"
  shows "tells R (bindS m f)"
  by (rule tells_bind[OF tells_quiet[OF assms(1)]]) (use assms(2) in simp)

lemma tells_map:
  assumes "\<And>x. tells (\<lambda>y es. es = [y]) (f x)"
  shows "tells (\<lambda>ys es. es = ys) (mapS f xs)"
proof (induction xs)
  case Nil
  show ?case unfolding mapS.simps by (rule tells_return) simp
next
  case (Cons x xs)
  show ?case
    unfolding mapS.simps by (rule tells_bind[OF assms], rule tells_bind[OF Cons.IH], rule tells_return) simp
qed

lemma tells_append:
  assumes "\<not> rq_final r"
  shows "tells (\<lambda>e es. es = [e]) (append_event x r)"
  unfolding tells_def
proof (intro allI impI)
  fix s s' o' hs
  assume st: "log_stores (sx_log s) hs" and run: "append_event x r s = (s', o')"
  let ?r = "r\<lparr>rq_now := str_clock x (log_sequence (sx_log s)), rq_fresh := str_event_id x (log_sequence (sx_log s))\<rparr>"
  show "\<exists>es. log_stores (sx_log s') (hs @ es) \<and> (\<forall>v. o' = Inr v \<longrightarrow> es = [v])"
  proof (cases "log_append ?r (sx_log s)")
    case (Inl e)
    then show ?thesis using run st
      by (intro exI[of _ "[]"]) (auto simp: append_event_def updateS_def Let_def bindR_def)
  next
    case (Inr p)
    obtain l e where p: "p = (l, e)" by (rule prod.exhaust)
    then have s': "sx_log s' = l" "o' = Inr e"
      using run Inr by (auto simp: append_event_def updateS_def Let_def bindR_def)
    have "final_of (sx_log s) ?r = None" using assms by (simp add: final_of_def)
    then have "log_sequence l = log_sequence (sx_log s) + 1" using log_append_new[OF Inr[unfolded p]] by simp
    then have "l \<noteq> sx_log s" by auto
    then have "log_stores l (hs @ [e])" using log_append_stores[OF st Inr[unfolded p]] by simp
    then show ?thesis using s' by auto
  qed
qed

lemma tells_pair: "(\<And>a b. tells R (f a b)) \<Longrightarrow> tells R (case v of (a, b) \<Rightarrow> f a b)"
  by (simp split: prod.split)

lemma tells_if: "tells R a \<Longrightarrow> tells R b \<Longrightarrow> tells R (if c then a else b)"
  by simp

lemma tells_option: "tells R a \<Longrightarrow> (\<And>x. tells R (f x)) \<Longrightarrow> tells R (case v of None \<Rightarrow> a | Some x \<Rightarrow> f x)"
  by (simp split: option.split)

section \<open>The rolling step\<close>

lemma quiet_speakers: "quiet.keeps (on_speakers m)"
  by (simp add: quiet.keeps_def on_speakers_def zoomS_def same_log_def split: prod.split)

lemma quiet_language: "quiet.keeps (resolve_language x buf speech)"
  unfolding resolve_language_def by (rule quiet.keeps_update) (auto simp: bindR_eq_Inr same_log_def)

lemma quiet_fields:
  "quiet.keeps (modifyS (\<lambda>s. s\<lparr>sx_state := m\<rparr>))"
  "quiet.keeps (modifyS (\<lambda>s. s\<lparr>sx_last_process := n\<rparr>))"
  "quiet.keeps (modifyS (\<lambda>s. s\<lparr>sx_emitted := sx_emitted s @ es\<rparr>))"
  "quiet.keeps (modifyS (\<lambda>s. s\<lparr>sx_emitted_until := list_max (sx_emitted_until s) ns\<rparr>))"
  "quiet.keeps (modifyS (receive_frame payload))"
  "quiet.keeps (modifyS (trim_ring ring))"
  by (rule quiet.keeps_modify; simp add: same_log_def receive_frame_def trim_ring_def Let_def)+

lemmas quiet_ops = quiet_speakers quiet_language quiet_fields quiet.keeps_intros

lemma tells_emit: "tells (\<lambda>e es. es = [e]) (emit_segment x seg)"
  unfolding emit_segment_def
  by (rule tells_bind[OF tells_append], simp add: versioned_request_def plain_request_def)
    (rule tells_quiet_bind, intro quiet_ops, rule tells_return, simp)

lemma tells_drain: "tells (\<lambda>ys es. es = ys) (drain_label_revisions x)"
  unfolding drain_label_revisions_def
  by (rule tells_quiet_bind, intro quiet_ops, rule tells_map, rule tells_append)
    (simp add: revision_of_def versioned_request_def plain_request_def)

lemma tells_provisional: "tells (\<lambda>ys es. es = ys) (emit_provisional x groups ts)"
proof (cases "groups = []")
  case True
  then show ?thesis unfolding emit_provisional_def by (simp add: tells_return)
next
  case False
  then show ?thesis unfolding emit_provisional_def if_not_P[OF False]
    by (intro tells_quiet_bind quiet_ops) (rule tells_map, rule tells_emit)
qed

lemma quiet_close: "quiet.keeps (close_interval x force now buf d overlaps i groups)"
  unfolding close_interval_def close_region_def by (intro quiet_ops)

lemma tells_window: "tells (\<lambda>ys es. es = ys) (process_window x force now buf)"
  unfolding process_window_def Let_def
  by (intro tells_bind[OF tells_provisional] tells_bind[OF tells_drain] tells_quiet_bind tells_pair tells_if tells_drain
      quiet_close quiet_ops) (rule tells_return, simp)

lemma tells_process: "tells (\<lambda>ys es. es = ys) (process x force)"
  unfolding process_def now_ms_def
  by (intro tells_quiet_bind tells_option tells_window quiet_ops) (rule tells_return, simp)

lemma tells_maybe: "tells (\<lambda>ys es. es = ys) (maybe_process x)"
  unfolding maybe_process_def now_ms_def
  by (intro tells_quiet_bind tells_if tells_process quiet_ops) (rule tells_return, simp)

lemma tells_raise: "tells R (liftS (Inl e))"
  unfolding tells_def liftS_def by (metis Inl_Inr_False append_Nil2 prod.inject)

lemma tells_push: "tells (\<lambda>ys es. es = ys) (push_pcm x payload)"
  unfolding push_pcm_def
  by (intro tells_quiet_bind tells_if tells_maybe tells_raise quiet_ops)

lemma tells_start: "tells (\<lambda>e es. es = [e]) (start_stream x)"
  unfolding start_stream_def
  by (intro tells_quiet_bind tells_if tells_raise tells_append quiet_ops) (simp add: versioned_request_def plain_request_def)


section \<open>One connection\<close>

lemma of_session_eq: "of_session m s = (s\<lparr>so_session := fst (m (so_session s))\<rparr>, snd (m (so_session s)))"
  by (simp add: of_session_def zoomS_def split: prod.split)

lemma send_events_result:
  assumes "send_events es s = (s', r)"
  shows "\<exists>n. so_session s' = so_session s \<and> so_sent s' = so_sent s @ map event_to_dict (take n es)
    \<and> (r = Inr () \<longrightarrow> length es \<le> n) \<and> (length es \<le> so_room s \<longrightarrow> r = Inr ())"
  using assms
proof (induction es arbitrary: s)
  case Nil
  then show ?case by (auto simp: send_events_def returnS_def)
next
  case (Cons e es)
  show ?case
  proof (cases "so_room s = 0")
    case True
    then have "s' = s" "r = Inl WebSocketDisconnect"
      using Cons.prems by (simp_all add: send_events_def bindS_def send_json_def)
    then show ?thesis using True by (intro exI[of _ 0]) simp
  next
    case False
    let ?s = "s\<lparr>so_sent := so_sent s @ [event_to_dict e], so_room := so_room s - 1\<rparr>"
    have "send_events es ?s = (s', r)"
      using Cons.prems False by (simp add: send_events_def bindS_def send_json_def)
    from Cons.IH[OF this] obtain n where "so_session s' = so_session s"
      "so_sent s' = so_sent s @ event_to_dict e # map event_to_dict (take n es)" "r = Inr () \<longrightarrow> length es \<le> n"
      "length es \<le> so_room s - 1 \<longrightarrow> r = Inr ()" by auto
    then show ?thesis using False by (intro exI[of _ "Suc n"]) auto
  qed
qed

text \<open>
  What a connection does after \<open>hs\<close>, of which the client has not seen \<open>pend\<close>: the history grows, and a
  beginning of what the client has not seen is sent, all of it if nothing is raised.
\<close>

definition delivers :: "server_event list \<Rightarrow> server_event list \<Rightarrow> socket \<Rightarrow> socket \<Rightarrow> unit res \<Rightarrow> bool" where
  "delivers hs pend s s' r \<longleftrightarrow> (\<exists>new n. log_stores (sx_log (so_session s')) (hs @ new)
     \<and> so_sent s' = so_sent s @ map event_to_dict (take n (pend @ new)) \<and> (r = Inr () \<longrightarrow> length (pend @ new) \<le> n))"

lemma delivers_nothing: "log_stores (sx_log (so_session s')) (hs @ es) \<Longrightarrow> so_sent s' = so_sent s \<Longrightarrow> delivers hs pend s s' (Inl e)"
  unfolding delivers_def by (intro exI[of _ es] exI[of _ 0]) simp

lemma delivers_sent:
  assumes "log_stores (sx_log (so_session s)) (hs @ es)" and "send_events (pend @ es) s = (s1, r1)"
    and "r1 = Inr () \<Longrightarrow> delivers (hs @ es) [] s1 s' r" and "r1 \<noteq> Inr () \<Longrightarrow> s' = s1 \<and> r = r1"
  shows "delivers hs pend s s' r"
proof -
  from send_events_result[OF assms(2)] obtain n where n: "so_session s1 = so_session s"
    "so_sent s1 = so_sent s @ map event_to_dict (take n (pend @ es))" "r1 = Inr () \<longrightarrow> length (pend @ es) \<le> n" by blast
  show ?thesis
  proof (cases "r1 = Inr ()")
    case True
    from assms(3)[OF this] obtain new k where new: "log_stores (sx_log (so_session s')) ((hs @ es) @ new)"
      "so_sent s' = so_sent s1 @ map event_to_dict (take k new)" "r = Inr () \<longrightarrow> length new \<le> k"
      unfolding delivers_def by auto
    have "take (length (pend @ es) + k) (pend @ es @ new) = (pend @ es) @ take k new" by simp
    then show ?thesis
      unfolding delivers_def using new n True
      by (intro exI[of _ "es @ new"] exI[of _ "length (pend @ es) + k"]) simp
  next
    case False
    then show ?thesis unfolding delivers_def using assms(1,4) n
      by (intro exI[of _ es] exI[of _ n]) simp
  qed
qed

lemma frames_deliver:
  "log_stores (sx_log (so_session s)) hs \<Longrightarrow> socket_loop x (map Frame ps) s = (s', r) \<Longrightarrow> delivers hs [] s s' r"
proof (induction ps arbitrary: s hs)
  case Nil
  then show ?case unfolding delivers_def by (intro exI[of _ "[]"] exI[of _ 0]) (simp add: returnS_def)
next
  case (Cons p ps)
  obtain sx o1 where push: "push_pcm x p (so_session s) = (sx, o1)" by (rule prod.exhaust)
  from tells_push[unfolded tells_def, rule_format, OF Cons.prems(1) push] obtain es where
    es: "log_stores (sx_log sx) (hs @ es)" "\<And>v. o1 = Inr v \<Longrightarrow> es = v" by blast
  let ?s = "s\<lparr>so_session := sx\<rparr>"
  show ?case
  proof (cases o1)
    case (Inl e)
    then have "s' = ?s" "r = Inl e" using Cons.prems(2) push by (simp_all add: bindS_def of_session_eq)
    then show ?thesis using es(1) by (simp add: delivers_nothing)
  next
    case (Inr v)
    then have run: "bindS (send_events es) (\<lambda>_. socket_loop x (map Frame ps)) ?s = (s', r)"
      using Cons.prems(2) push es(2) by (simp add: bindS_def of_session_eq)
    obtain s1 r1 where sent: "send_events es ?s = (s1, r1)" by (rule prod.exhaust)
    have same: "so_session s1 = sx" using send_events_result[OF sent] by auto
    have "delivers hs [] ?s s' r"
    proof (rule delivers_sent)
      show "log_stores (sx_log (so_session ?s)) (hs @ es)" using es(1) by simp
      show "send_events ([] @ es) ?s = (s1, r1)" using sent by simp
      show "delivers (hs @ es) [] s1 s' r" if "r1 = Inr ()"
        by (rule Cons.IH) (use that run sent es(1) same in \<open>simp_all add: bindS_def\<close>)
      show "s' = s1 \<and> r = r1" if "r1 \<noteq> Inr ()" using that run sent by (cases r1) (simp_all add: bindS_def)
    qed
    then show ?thesis by (simp add: delivers_def)
  qed
qed

section \<open>Connections over time\<close>

definition resume_message :: "nat \<Rightarrow> client_message" where
  "resume_message n = Text (Some (JObj [(''type'', JStr ''resume''), (''last_sequence_number'', JInt (int n))]))"

lemma replayed_rest:
  assumes "log_stores l hs" and "replay_from l (int n) = Inr es"
  shows "es = drop n hs"
proof -
  have "es = filter (\<lambda>e. int n < ev_seq e) hs" using log_replay_exact[OF assms(1) _ assms(2)] by simp
  moreover have "filter (\<lambda>e. int n < ev_seq e) hs = drop n hs"
  proof -
    have sq: "map ev_seq hs = [1..log_sequence l]" using assms(1) by (simp add: log_stores_def)
    have "filter (\<lambda>e. int n < ev_seq e) (take n hs) = []"
      using seqs_nth[OF sq] by (auto simp: filter_empty_conv in_set_conv_nth)
    moreover have "filter (\<lambda>e. int n < ev_seq e) (drop n hs) = drop n hs"
      using seqs_nth[OF sq] by (auto simp: filter_id_conv in_set_conv_nth)
    ultimately show ?thesis by (metis append_Nil append_take_drop_id filter_append)
  qed
  ultimately show ?thesis by simp
qed

lemma resumed_deliver:
  assumes st: "log_stores (sx_log (so_session s)) hs"
    and run: "socket_loop x (resume_message n # map Frame ps) s = (s', r)"
  shows "delivers hs (drop n hs) s s' r"
proof -
  have cursor: "resume_cursor (Some (JInt (int n))) = Inr (int n)" by (simp add: resume_cursor_def)
  have control: "handle_control x (Some (JObj [(''type'', JStr ''resume''), (''last_sequence_number'', JInt (int n))])) s
      = bindS (of_session (\<lambda>s. (s, replay_stream (int n) s))) send_events s"
    by (simp add: handle_control_def cursor bind_lift)
  have go: "bindS (bindS (of_session (\<lambda>s. (s, replay_stream (int n) s))) send_events) (\<lambda>_. socket_loop x (map Frame ps)) s = (s', r)"
    using run by (simp add: resume_message_def is_finalize_def bindS_def[of "handle_control _ _"] control
        bindS_def[of "bindS _ _"])
  show ?thesis
  proof (cases "replay_from (sx_log (so_session s)) (int n)")
    case (Inl e)
    then have "s' = s" "r = Inl e" using go by (simp_all add: bindS_def of_session_eq replay_stream_def)
    then show ?thesis using st delivers_nothing[of s hs "[]"] by simp
  next
    case (Inr es)
    then have es: "es = drop n hs" using replayed_rest[OF st] by simp
    obtain s1 r1 where sent: "send_events es s = (s1, r1)" by (rule prod.exhaust)
    have same: "so_session s1 = so_session s" using send_events_result[OF sent] by auto
    have rest: "bindS (send_events es) (\<lambda>_. socket_loop x (map Frame ps)) s = (s', r)"
      using go Inr by (simp add: bindS_def[of "bindS _ _"] bindS_def[of "of_session _"] of_session_eq replay_stream_def)
        (simp add: bindS_def)
    show ?thesis
    proof (rule delivers_sent)
      show "log_stores (sx_log (so_session s)) (hs @ [])" using st by simp
      show "send_events (drop n hs @ []) s = (s1, r1)" using sent es by simp
      show "delivers (hs @ []) [] s1 s' r" if "r1 = Inr ()"
        by (rule frames_deliver) (use that rest sent st same in \<open>simp_all add: bindS_def\<close>)
      show "s' = s1 \<and> r = r1" if "r1 \<noteq> Inr ()" using that rest sent by (cases r1) (simp_all add: bindS_def)
    qed
  qed
qed


text \<open>A connection sends nothing but events and, as its last message, a failure without a number.\<close>

definition is_event :: "(string \<times> json) list \<Rightarrow> bool" where
  "is_event d \<longleftrightarrow> map_of d ''sequence_number'' \<noteq> None"

lemma is_event_simps [simp]:
  "is_event (event_to_dict e)" "filter is_event (map event_to_dict es) = map event_to_dict es"
  by (simp_all add: is_event_def event_to_dict_def filter_id_conv)

lemma audio_socket_deliver:
  assumes "open_socket x ms s = (s1, r1)" and "delivers hs pend s s1 r1" and "so_sent s = []"
    and "audio_socket explain x ms s = (s', r)" and "\<And>e. \<not> is_event (failure_message explain e)"
  shows "\<exists>new n. log_stores (sx_log (so_session s')) (hs @ new)
    \<and> filter is_event (so_sent s') = map event_to_dict (take n (pend @ new)) \<and> (r1 = Inr () \<longrightarrow> length (pend @ new) \<le> n)"
proof -
  from assms(2,3) obtain new n where new: "log_stores (sx_log (so_session s1)) (hs @ new)"
    "so_sent s1 = map event_to_dict (take n (pend @ new))" "r1 = Inr () \<longrightarrow> length (pend @ new) \<le> n"
    unfolding delivers_def by auto
  have "so_session s' = so_session s1 \<and> filter is_event (so_sent s') = filter is_event (so_sent s1)"
    using assms(1,4,5) by (auto simp: audio_socket_def send_json_def split: sum.splits exn.splits if_splits)
  then show ?thesis using new by (intro exI[of _ new] exI[of _ n]) simp
qed

definition connect :: "(sastt_error \<Rightarrow> (string \<times> json) list) \<Rightarrow> stream \<Rightarrow> nat \<Rightarrow> client_message list \<Rightarrow> stream_session \<Rightarrow>
    stream_session \<times> (string \<times> json) list list" where
  "connect explain x room ms sx =
     (case audio_socket explain x ms \<lparr>so_session = sx, so_sent = [], so_room = room\<rparr> of
        (s', r) \<Rightarrow> (so_session s', filter is_event (so_sent s')))"

text \<open>Each connection after the first begins with the number of events received so far.\<close>

fun reconnect :: "(sastt_error \<Rightarrow> (string \<times> json) list) \<Rightarrow> stream \<Rightarrow> (nat \<times> bytes list) list \<Rightarrow>
    stream_session \<times> (string \<times> json) list list \<Rightarrow> stream_session \<times> (string \<times> json) list list" where
  "reconnect explain x [] p = p"
| "reconnect explain x ((room, ps) # cs) (sx, got) =
     (case connect explain x room (resume_message (length got) # map Frame ps) sx of
        (sx', fresh) \<Rightarrow> reconnect explain x cs (sx', got @ fresh))"

definition received :: "server_event list \<Rightarrow> (string \<times> json) list list \<Rightarrow> bool" where
  "received hs got \<longleftrightarrow> got = map event_to_dict (take (length got) hs)"

lemma failure_no_event: "(\<And>e. map_of (explain e) ''sequence_number'' = None) \<Longrightarrow> \<not> is_event (failure_message explain e)"
  by (simp add: is_event_def failure_message_def)

lemma log_not_empty: "log_stores l hs \<Longrightarrow> hs \<noteq> [] \<Longrightarrow> log_events l \<noteq> []"
  by (auto simp: log_stores_def)

lemma connect_deliver:
  assumes "connect explain x room ms sx = (sx', fresh)" and "open_socket x ms \<lparr>so_session = sx, so_sent = [], so_room = room\<rparr> = (s1, r1)"
    and "delivers hs pend \<lparr>so_session = sx, so_sent = [], so_room = room\<rparr> s1 r1" and "\<And>e. \<not> is_event (failure_message explain e)"
  shows "\<exists>new n. log_stores (sx_log sx') (hs @ new) \<and> fresh = map event_to_dict (take n (pend @ new))"
proof -
  obtain s2 r2 where sock: "audio_socket explain x ms \<lparr>so_session = sx, so_sent = [], so_room = room\<rparr> = (s2, r2)"
    by (rule prod.exhaust)
  with assms(1) have "sx' = so_session s2" "fresh = filter is_event (so_sent s2)" by (simp_all add: connect_def)
  moreover from audio_socket_deliver[OF assms(2,3) _ sock assms(4)] have
    "\<exists>new n. log_stores (sx_log (so_session s2)) (hs @ new)
      \<and> filter is_event (so_sent s2) = map event_to_dict (take n (pend @ new))" by auto
  ultimately show ?thesis by simp
qed

lemma connect_again:
  assumes st: "log_stores (sx_log sx) hs" "hs \<noteq> []" and got: "received hs got"
    and con: "connect explain x room (resume_message (length got) # map Frame ps) sx = (sx', fresh)"
    and quiet: "\<And>e. \<not> is_event (failure_message explain e)"
  shows "\<exists>new. log_stores (sx_log sx') (hs @ new) \<and> received (hs @ new) (got @ fresh)"
proof -
  let ?s = "\<lparr>so_session = sx, so_sent = [], so_room = room\<rparr>"
  let ?ms = "resume_message (length got) # map Frame ps"
  obtain s1 r1 where run: "open_socket x ?ms ?s = (s1, r1)" by (rule prod.exhaust)
  then have "socket_loop x ?ms ?s = (s1, r1)"
    using log_not_empty[OF st] by (simp add: open_socket_def bind_read bind_return)
  then have "delivers hs (drop (length got) hs) ?s s1 r1" using resumed_deliver st(1) by simp
  then obtain new n where new: "log_stores (sx_log sx') (hs @ new)"
      "fresh = map event_to_dict (take n (drop (length got) hs @ new))"
    using connect_deliver[OF con run _ quiet] by blast
  have len: "length got \<le> length hs" using got unfolding received_def by (metis length_map length_take min.cobounded2 min.commute)
  have "take (length got + length fresh) (hs @ new) = take (length got) hs @ take (length fresh) (drop (length got) hs @ new)"
    using len by (simp add: take_add add.commute[of "length fresh"])
  moreover have "take (length fresh) (drop (length got) hs @ new) = take n (drop (length got) hs @ new)"
    using new(2) by (simp add: min_def)
  ultimately have "received (hs @ new) (got @ fresh)"
    using got new(2) unfolding received_def by simp
  then show ?thesis using new(1) by blast
qed

lemma connect_first:
  assumes con: "connect explain x room (map Frame ps) (new_stream_session x) = (sx, got)"
    and quiet: "\<And>e. \<not> is_event (failure_message explain e)"
  shows "\<exists>hs. log_stores (sx_log sx) hs \<and> hs \<noteq> [] \<and> received hs got"
proof -
  let ?sx = "new_stream_session x"
  let ?s = "\<lparr>so_session = ?sx, so_sent = [], so_room = room\<rparr>"
  have st: "log_stores (sx_log ?sx) []" by (rule new_stream_valid)
  obtain s1 r1 where run: "open_socket x (map Frame ps) ?s = (s1, r1)" by (rule prod.exhaust)
  obtain sx1 o1 where start: "start_stream x ?sx = (sx1, o1)" by (rule prod.exhaust)
  have "\<exists>e. o1 = Inr e"
    using start by (auto simp: start_stream_def bind_read new_stream_session_def bind_modify append_event_def updateS_def
        Let_def bindR_def log_append_def final_of_def new_log_def versioned_request_def plain_request_def split: if_splits)
  then obtain e where e: "o1 = Inr e" by blast
  from tells_start[unfolded tells_def, rule_format, OF st start] e have st1: "log_stores (sx_log sx1) [e]" by auto
  let ?s1 = "?s\<lparr>so_session := sx1\<rparr>"
  obtain s2 r2 where sent: "send_events [e] ?s1 = (s2, r2)" by (rule prod.exhaust)
  have same: "so_session s2 = sx1" using send_events_result[OF sent] by auto
  have rest: "bindS (send_events [e]) (\<lambda>_. socket_loop x (map Frame ps)) ?s1 = (s1, r1)"
    using run start e
    by (simp add: open_socket_def bind_read bind_assoc bindS_def[of "of_session _"] of_session_eq new_stream_session_def new_log_def)
  have "delivers [e] [e] ?s1 s1 r1"
  proof (rule delivers_sent)
    show "log_stores (sx_log (so_session ?s1)) ([e] @ [])" using st1 by simp
    show "send_events ([e] @ []) ?s1 = (s2, r2)" using sent by simp
    show "delivers ([e] @ []) [] s2 s1 r1" if "r2 = Inr ()"
      by (rule frames_deliver) (use that rest sent st1 same in \<open>simp_all add: bindS_def\<close>)
    show "s1 = s2 \<and> r1 = r2" if "r2 \<noteq> Inr ()" using that rest sent by (cases r2) (simp_all add: bindS_def)
  qed
  then have "delivers [e] [e] ?s s1 r1" by (simp add: delivers_def)
  then obtain new n where "log_stores (sx_log sx) ([e] @ new)" "got = map event_to_dict (take n ([e] @ new))"
    using connect_deliver[OF con run _ quiet] by blast
  then have new: "log_stores (sx_log sx) (e # new)" "got = map event_to_dict (take n (e # new))" by simp_all
  have "received (e # new) got" using new(2) by (simp add: received_def min_def)
  then show ?thesis using new(1) by blast
qed

lemma seqs_take:
  assumes sq: "map ev_seq hs = [1..l]" and len: "k \<le> length hs"
  shows "map ev_seq (take k hs) = [1..int k]"
proof (rule nth_equalityI)
  fix i assume "i < length (map ev_seq (take k hs))"
  then have i: "i < k" "i < length hs" using len by auto
  then show "map ev_seq (take k hs) ! i = [1..int k] ! i"
    using seqs_nth[OF sq, of i] by simp
qed (use len in simp)

lemma reconnects:
  assumes "log_stores (sx_log sx) hs" "hs \<noteq> []" "received hs got"
    and "reconnect explain x cs (sx, got) = (sx', got')" and "\<And>e. \<not> is_event (failure_message explain e)"
  shows "\<exists>new. log_stores (sx_log sx') (hs @ new) \<and> received (hs @ new) got'"
  using assms(1-4)
proof (induction cs arbitrary: sx hs got)
  case Nil
  then show ?case by (intro exI[of _ "[]"]) simp
next
  case (Cons c cs)
  obtain room ps where c: "c = (room, ps)" by (rule prod.exhaust)
  obtain sx1 fresh where con: "connect explain x room (resume_message (length got) # map Frame ps) sx = (sx1, fresh)"
    by (rule prod.exhaust)
  from connect_again[OF Cons.prems(1-3) con assms(5)] obtain new where
    new: "log_stores (sx_log sx1) (hs @ new)" "received (hs @ new) (got @ fresh)" by blast
  have "reconnect explain x cs (sx1, got @ fresh) = (sx', got')" using Cons.prems(4) c con by simp
  from Cons.IH[OF new(1) _ new(2) this] Cons.prems(2) obtain fresh' where
    "log_stores (sx_log sx') ((hs @ new) @ fresh')" "received ((hs @ new) @ fresh') got'" by auto
  then show ?case by (intro exI[of _ "new @ fresh'"]) simp
qed

text \<open>
  C6: A client of the websocket receives every event exactly once. Take a session, a first connection and
  any number of reconnections, each of which sends the number of events received so far and then audio,
  and breaks after any number of messages or ends with any error. Then the events received, over all
  connections, are a beginning of the history of the session, numbered 1, 2, ... without a gap or a
  repetition; and one more connection that carries enough messages gives the rest of the history,
  if the log still holds the first event that is missing.
\<close>

theorem socket_exactly_once:
  assumes "\<And>e. map_of (explain e) ''sequence_number'' = None"
    and "connect explain x room (map Frame ps) (new_stream_session x) = (sx, got)"
    and "reconnect explain x cs (sx, got) = (sx', got')"
  shows "\<exists>hs. log_stores (sx_log sx') hs \<and> got' = map event_to_dict (take (length got') hs)
    \<and> map ev_seq (take (length got') hs) = [1..int (length got')]
    \<and> (\<forall>room'. length hs \<le> room' \<longrightarrow> ev_seq (hd (log_events (sx_log sx'))) \<le> int (length got') + 1 \<longrightarrow>
         got' @ snd (connect explain x room' [resume_message (length got')] sx') = map event_to_dict hs)"
proof -
  have quiet: "\<not> is_event (failure_message explain e)" for e using failure_no_event assms(1) by blast
  from connect_first[OF assms(2) quiet] obtain hs0 where
    first: "log_stores (sx_log sx) hs0" "hs0 \<noteq> []" "received hs0 got" by blast
  from reconnects[OF first assms(3) quiet] obtain new where
    hs: "log_stores (sx_log sx') (hs0 @ new)" "received (hs0 @ new) got'" by blast
  let ?hs = "hs0 @ new"
  have sq: "map ev_seq ?hs = [1..log_sequence (sx_log sx')]" using hs(1) by (simp add: log_stores_def)
  have len: "length got' \<le> length ?hs"
    using hs(2) unfolding received_def by (metis length_map length_take min.cobounded2 min.commute)
  have "map ev_seq (take (length got') ?hs) = [1..int (length got')]"
    by (rule seqs_take[OF sq len])
  moreover have "got' @ snd (connect explain x room' [resume_message (length got')] sx') = map event_to_dict ?hs"
    if room: "length ?hs \<le> room'" and held: "ev_seq (hd (log_events (sx_log sx'))) \<le> int (length got') + 1" for room'
  proof -
    let ?s = "\<lparr>so_session = sx', so_sent = [], so_room = room'\<rparr>"
    have ne: "log_events (sx_log sx') \<noteq> []" using log_not_empty[OF hs(1)] first(2) by simp
    have "log_sequence (sx_log sx') = int (length ?hs)"
      using arg_cong[OF sq, of length] hs(1) by (simp add: log_stores_def)
    then have replay: "replay_from (sx_log sx') (int (length got')) = Inr (drop (length got') ?hs)"
      using held len ne replayed_rest[OF hs(1)] by (simp add: replay_from_def)
    obtain s1 r1 where sent: "send_events (drop (length got') ?hs) ?s = (s1, r1)" by (rule prod.exhaust)
    have sent_all: "so_sent s1 = map event_to_dict (drop (length got') ?hs)" "r1 = Inr ()"
      using send_events_result[OF sent] room by auto
    have "resume_cursor (Some (JInt (int (length got')))) = Inr (int (length got'))" by (simp add: resume_cursor_def)
    then have "open_socket x [resume_message (length got')] ?s = (s1, Inr ())"
      using ne sent replay sent_all(2)
      by (simp add: open_socket_def bind_read bind_return resume_message_def handle_control_def bind_lift is_finalize_def
          bindS_def[of "bindS _ _"] bindS_def[of "of_session _"] of_session_eq replay_stream_def returnS_def)
    then have "snd (connect explain x room' [resume_message (length got')] sx') = map event_to_dict (drop (length got') ?hs)"
      using sent_all(1) by (simp add: connect_def audio_socket_def)
    then show ?thesis using hs(2) unfolding received_def by (metis append_take_drop_id map_append)
  qed
  ultimately show ?thesis using hs unfolding received_def by blast
qed


text \<open>A first connection that breaks before anything is sent, and a second one that carries five messages.\<close>

lemma demo_log:
  obtains l e where "start_stream demo_stream (new_stream_session demo_stream) =
    ((new_stream_session demo_stream)\<lparr>sx_state := STREAMING, sx_log := l\<rparr>, Inr e)"
    "log_events l = [e]" "ev_seq e = 1" "log_sequence l = 1"
  by (auto simp: start_stream_def append_event_def bind_pure new_stream_session_def updateS_def
      Let_def log_append_def final_of_def new_log_def versioned_request_def plain_request_def
      new_event_def demo_event_id keep_retained_def LOG_RETENTION_def)

theorem socket_exactly_once_witness:
  "\<exists>sx sx' got'. connect (\<lambda>_. []) demo_stream 0 (map Frame []) (new_stream_session demo_stream) = (sx, [])
     \<and> reconnect (\<lambda>_. []) demo_stream [(5, [])] (sx, []) = (sx', got') \<and> length got' = 1
     \<and> got' @ snd (connect (\<lambda>_. []) demo_stream 9 [resume_message 1] sx') = got'"
proof -
  obtain l e where start: "start_stream demo_stream (new_stream_session demo_stream) =
      ((new_stream_session demo_stream)\<lparr>sx_state := STREAMING, sx_log := l\<rparr>, Inr e)"
    and l: "log_events l = [e]" "ev_seq e = 1" "log_sequence l = 1" by (rule demo_log)
  let ?new = "new_stream_session demo_stream"
  let ?sx = "?new\<lparr>sx_state := STREAMING, sx_log := l\<rparr>"
  have none: "log_events (sx_log ?new) = []" by (simp add: new_stream_session_def new_log_def)
  have first: "connect (\<lambda>_. []) demo_stream 0 (map Frame []) ?new = (?sx, [])"
    using none by (simp add: connect_def audio_socket_def open_socket_def bind_read bindS_def[of "bindS _ _"] bindS_def[of "of_session _"]
        bindS_def[of "send_json _"] of_session_eq start send_events_def send_json_def)
  have replay: "replay_stream 0 ?sx = Inr [e]" using l by (simp add: replay_stream_def replay_from_def)
  have cursor: "resume_cursor (Some (JInt 0)) = Inr 0" by (simp add: resume_cursor_def)
  have second: "reconnect (\<lambda>_. []) demo_stream [(5, [])] (?sx, []) = (?sx, [event_to_dict e])"
    using l replay cursor
    by (simp add: connect_def audio_socket_def open_socket_def bind_read bind_return resume_message_def handle_control_def
        bind_lift is_finalize_def bindS_def[of "bindS _ _"] bindS_def[of "of_session _"] of_session_eq returnS_def
        send_events_def send_json_def bindS_def[of "send_json _"])
  have quiet: "\<And>e::sastt_error. map_of ([] :: (string \<times> json) list) ''sequence_number'' = None" by simp
  obtain hs where hs: "log_stores (sx_log ?sx) hs"
    and all: "\<forall>room'. length hs \<le> room' \<longrightarrow> ev_seq (hd (log_events (sx_log ?sx))) \<le> int (length [event_to_dict e]) + 1 \<longrightarrow>
         [event_to_dict e] @ snd (connect (\<lambda>_. []) demo_stream room' [resume_message (length [event_to_dict e])] ?sx)
           = map event_to_dict hs"
    using socket_exactly_once[OF quiet first second] by (elim exE conjE)
  have "map ev_seq hs = [1]" using hs l by (simp add: log_stores_def)
  then obtain z where z: "hs = [z]" by auto
  moreover obtain k where "[e] = drop k hs" using hs l by (auto simp: log_stores_def)
  ultimately have "z = e" by (cases k) simp_all
  with all z l have "[event_to_dict e] @ snd (connect (\<lambda>_. []) demo_stream 9 [resume_message 1] ?sx) = [event_to_dict e]"
    by simp
  with first second show ?thesis by (intro exI[of _ ?sx] exI[of _ "[event_to_dict e]"]) simp
qed

end
