(* ===== verification/Schemas.thy ===== *)
theory Schemas
  imports Events Transcript JsonFields
begin

text \<open>
  The JSON schemas of the public contract, \<^verbatim>\<open>src/src/sastt/api/schemas.py\<close>, as the JSON values the code
  declares, and the projection of a segment to the first version. The validator of the package
  \<^verbatim>\<open>jsonschema\<close> is a parameter; the hypothesis is what JSON Schema (draft 2020-12) says of the keywords
  these schemas use. Strings are byte strings, whose length is the number of characters only for
  ASCII; the one bound on a length is 1, for which the two agree.
\<close>

section \<open>The schemas\<close>

definition SCHEMA_DIALECT :: string where
  "SCHEMA_DIALECT = ''https://json-schema.org/draft/2020-12/schema''"

definition type_is :: "string \<Rightarrow> json" where
  "type_is t = JObj [(''type'', JStr t)]"

definition nullable :: "string \<Rightarrow> json" where
  "nullable t = JObj [(''type'', JList [JStr t, JStr ''null''])]"

definition nonempty_string :: json where
  "nonempty_string = JObj [(''type'', JStr ''string''), (''minLength'', JInt 1)]"

definition integer_from :: "int \<Rightarrow> json" where
  "integer_from n = JObj [(''type'', JStr ''integer''), (''minimum'', JInt n)]"

definition one_of :: "string list \<Rightarrow> json" where
  "one_of vs = JObj [(''enum'', JList (map JStr vs))]"

definition CONFIDENCE_SCHEMA :: json where
  "CONFIDENCE_SCHEMA = JObj [(''type'', JList [JStr ''number'', JStr ''null'']),
     (''minimum'', JReal 0), (''maximum'', JReal 1)]"

definition V2_REQUIRED :: "string list" where
  "V2_REQUIRED =
     [''schema_version'', ''session_id'', ''event_id'', ''revision'', ''start_ms'', ''end_ms'', ''text'',
      ''speaker_id'', ''session_speaker_id'', ''identity_status'', ''is_overlap'', ''confidence_status'',
      ''is_final'', ''model_versions'']"

definition V2_PROPERTIES :: "(string \<times> json) list" where
  "V2_PROPERTIES =
     [(''schema_version'', JObj [(''const'', JStr ''2.0'')]),
      (''session_id'', nonempty_string),
      (''event_id'', nonempty_string),
      (''revision'', integer_from 1),
      (''supersedes_event_id'', nullable ''string''),
      (''start_ms'', integer_from 0),
      (''end_ms'', integer_from 1),
      (''text'', type_is ''string''),
      (''speaker_id'', nonempty_string),
      (''session_speaker_id'', nonempty_string),
      (''registry_speaker_id'', nullable ''string''),
      (''speaker_label'', type_is ''string''),
      (''speaker_name'', nullable ''string''),
      (''identity_status'', one_of [''provisional'', ''enrolled'', ''anonymous'', ''unknown'', ''ambiguous'']),
      (''is_overlap'', type_is ''boolean''),
      (''estimated_concurrent_speakers'', JObj [(''type'', JList [JStr ''integer'', JStr ''null'']),
         (''minimum'', JInt 1), (''maximum'', JInt 5)]),
      (''count_confidence'', CONFIDENCE_SCHEMA),
      (''source_track'', JObj [(''type'', JList [JStr ''integer'', JStr ''null'']), (''minimum'', JInt 0)]),
      (''separation_backend'', nullable ''string''),
      (''asr_confidence'', CONFIDENCE_SCHEMA),
      (''diarization_confidence'', CONFIDENCE_SCHEMA),
      (''linking_confidence'', CONFIDENCE_SCHEMA),
      (''voice_id_confidence'', CONFIDENCE_SCHEMA),
      (''overlap_confidence'', CONFIDENCE_SCHEMA),
      (''overall_confidence'', CONFIDENCE_SCHEMA),
      (''confidence_status'', one_of [''uncalibrated'', ''calibrated'']),
      (''raw_scores'', JObj [(''type'', JStr ''object''), (''additionalProperties'', type_is ''number'')]),
      (''quality_flags'', JObj [(''type'', JStr ''array''), (''items'', type_is ''string'')]),
      (''degraded_mode'', type_is ''boolean''),
      (''is_final'', type_is ''boolean''),
      (''model_versions'', JObj [(''type'', JStr ''object''), (''additionalProperties'', JBool False),
         (''properties'', JObj [(''diarization'', nullable ''string''), (''embedding'', nullable ''string''),
            (''separation'', nullable ''string''), (''asr'', nullable ''string''),
            (''calibration'', nullable ''string'')])])]"

definition V2_CONDITIONS :: "json list" where
  "V2_CONDITIONS =
     [JObj [(''if'', JObj [(''properties'', JObj [(''identity_status'', JObj [(''const'', JStr ''enrolled'')])])]),
            (''then'', JObj [(''required'', JList [JStr ''registry_speaker_id'', JStr ''speaker_name'']),
               (''properties'', JObj [(''registry_speaker_id'', nonempty_string),
                                      (''speaker_name'', nonempty_string)])])],
      JObj [(''if'', JObj [(''properties'', JObj [(''separation_backend'', type_is ''string'')]),
                           (''required'', JList [JStr ''separation_backend''])]),
            (''then'', JObj [(''required'', JList [JStr ''source_track'']),
               (''properties'', JObj [(''source_track'', integer_from 0)])])],
      JObj [(''if'', JObj [(''properties'', JObj [(''confidence_status'', JObj [(''const'', JStr ''uncalibrated'')])])]),
            (''then'', JObj [(''properties'', JObj [(''overall_confidence'', JObj [(''const'', JNull)])])])]]"

definition TRANSCRIPT_SEGMENT_V2_SCHEMA :: json where
  "TRANSCRIPT_SEGMENT_V2_SCHEMA = JObj
     [(''$schema'', JStr SCHEMA_DIALECT),
      (''$id'', JStr ''https://sastt.local/schemas/transcript-segment-v2.json''),
      (''title'', JStr ''Speaker-attributed transcript segment v2''),
      (''type'', JStr ''object''),
      (''additionalProperties'', JBool False),
      (''required'', JList (map JStr V2_REQUIRED)),
      (''properties'', JObj V2_PROPERTIES),
      (''allOf'', JList V2_CONDITIONS)]"

definition SERVER_EVENT_V2_SCHEMA :: json where
  "SERVER_EVENT_V2_SCHEMA = JObj
     [(''$schema'', JStr SCHEMA_DIALECT),
      (''$id'', JStr ''https://sastt.local/schemas/server-event-v2.json''),
      (''title'', JStr ''Realtime server event''),
      (''type'', JStr ''object''),
      (''required'', JList (map JStr [''event_id'', ''session_id'', ''sequence_number'', ''type'',
         ''server_time_ms'', ''revision'', ''is_final''])),
      (''properties'', JObj
        [(''event_id'', nonempty_string),
         (''session_id'', nonempty_string),
         (''sequence_number'', integer_from 1),
         (''type'', one_of [''session.started'', ''transcript.provisional'', ''transcript.revision'',
            ''transcript.final'', ''pipeline.warning'', ''session.finalized'', ''session.failed'']),
         (''server_time_ms'', integer_from 0),
         (''revision'', integer_from 1),
         (''supersedes_event_id'', nullable ''string''),
         (''is_final'', type_is ''boolean''),
         (''payload'', type_is ''object''),
         (''model_versions'', type_is ''object''),
         (''config_version'', nullable ''string'')])]"

definition V1_PROPERTIES :: "(string \<times> json) list" where
  "V1_PROPERTIES =
     [(''schema_version'', JObj [(''const'', JStr ''1.0'')]),
      (''session_id'', type_is ''string''),
      (''start_ms'', integer_from 0),
      (''end_ms'', integer_from 1),
      (''text'', type_is ''string''),
      (''speaker_id'', nonempty_string),
      (''speaker_label'', type_is ''string''),
      (''is_overlap'', type_is ''boolean''),
      (''is_final'', type_is ''boolean'')]"

definition SEGMENT_V1_SCHEMA :: json where
  "SEGMENT_V1_SCHEMA = JObj
     [(''$schema'', JStr SCHEMA_DIALECT),
      (''$id'', JStr ''https://sastt.local/schemas/transcript-segment-v1.json''),
      (''title'', JStr ''Speaker-attributed transcript segment v1''),
      (''type'', JStr ''object''),
      (''required'', JList (map JStr [''schema_version'', ''start_ms'', ''end_ms'', ''text'', ''speaker_id'',
         ''speaker_label''])),
      (''properties'', JObj V1_PROPERTIES)]"

definition V1_FIELDS :: "string list" where
  "V1_FIELDS = map fst V1_PROPERTIES"

section \<open>The projection to the first version\<close>

definition label_or_speaker :: "(string \<times> json) list \<Rightarrow> json res" where
  "label_or_speaker d =
     (case map_of d ''speaker_label'' of
        Some v \<Rightarrow> if json_truth v then Inr v else field d ''session_speaker_id'' Inr
      | None \<Rightarrow> field d ''session_speaker_id'' Inr)"

definition truth_of :: "(string \<times> json) list \<Rightarrow> string \<Rightarrow> bool" where
  "truth_of d k = (case map_of d k of None \<Rightarrow> False | Some v \<Rightarrow> json_truth v)"

definition downgrade_segment_to_v1 :: "(string \<times> json) list \<Rightarrow> (string \<times> json) list res" where
  "downgrade_segment_to_v1 d =
     bindR (field d ''session_id'' Inr) (\<lambda>session.
     bindR (field d ''start_ms'' Inr) (\<lambda>start.
     bindR (field d ''end_ms'' Inr) (\<lambda>stop.
     bindR (field d ''text'' Inr) (\<lambda>txt.
     bindR (field d ''speaker_id'' Inr) (\<lambda>speaker.
     bindR (label_or_speaker d) (\<lambda>label.
       Inr [(''schema_version'', JStr ''1.0''), (''session_id'', session), (''start_ms'', start),
            (''end_ms'', stop), (''text'', txt), (''speaker_id'', speaker), (''speaker_label'', label),
            (''is_overlap'', JBool (truth_of d ''is_overlap'')),
            (''is_final'', JBool (truth_of d ''is_final''))]))))))"

section \<open>JSON Schema\<close>

fun has_type :: "json \<Rightarrow> string \<Rightarrow> bool" where
  "has_type JNull t \<longleftrightarrow> t = ''null''"
| "has_type (JBool b) t \<longleftrightarrow> t = ''boolean''"
| "has_type (JInt n) t \<longleftrightarrow> t = ''integer'' \<or> t = ''number''"
| "has_type (JReal x) t \<longleftrightarrow> t = ''number'' \<or> t = ''integer'' \<and> x = of_int \<lfloor>x\<rfloor>"
| "has_type (JStr s) t \<longleftrightarrow> t = ''string''"
| "has_type (JList xs) t \<longleftrightarrow> t = ''array''"
| "has_type (JObj d) t \<longleftrightarrow> t = ''object''"

fun number_of :: "json \<Rightarrow> real option" where
  "number_of (JInt n) = Some (of_int n)"
| "number_of (JReal x) = Some x"
| "number_of _ = None"

fun members :: "json \<Rightarrow> (string \<times> json) list" where
  "members (JObj d) = d"
| "members _ = []"

fun elements :: "json \<Rightarrow> json list" where
  "elements (JList xs) = xs"
| "elements _ = []"

definition in_bound :: "(real \<Rightarrow> real \<Rightarrow> bool) \<Rightarrow> json \<Rightarrow> json \<Rightarrow> bool" where
  "in_bound le v doc =
     (case (number_of v, number_of doc) of (Some b, Some x) \<Rightarrow> le b x | _ \<Rightarrow> True)"

text \<open>What one keyword of a schema says of a document; \<open>ok\<close> is the validity of sub-schemas.\<close>

definition keyword_holds ::
  "(json \<Rightarrow> json \<Rightarrow> bool) \<Rightarrow> (string \<times> json) list \<Rightarrow> json \<Rightarrow> string \<times> json \<Rightarrow> bool" where
  "keyword_holds ok schema doc = (\<lambda>(k, v).
     if k = ''type'' then
       (case v of JStr t \<Rightarrow> has_type doc t | _ \<Rightarrow> list_ex (\<lambda>t. case t of JStr n \<Rightarrow> has_type doc n | _ \<Rightarrow> False) (elements v))
     else if k = ''const'' then doc = v
     else if k = ''enum'' then doc \<in> set (elements v)
     else if k = ''minimum'' then in_bound (\<le>) v doc
     else if k = ''maximum'' then in_bound (\<lambda>b x. x \<le> b) v doc
     else if k = ''minLength'' then
       (case (v, doc) of (JInt n, JStr s) \<Rightarrow> n \<le> int (length s) | _ \<Rightarrow> True)
     else if k = ''required'' then has_type doc ''object'' \<longrightarrow> (\<forall>r\<in>set (elements v). r \<in> JStr ` fst ` set (members doc))
     else if k = ''properties'' then
       \<forall>(p, s)\<in>set (members v). case map_of (members doc) p of None \<Rightarrow> True | Some x \<Rightarrow> ok s x
     else if k = ''additionalProperties'' then
       \<forall>(p, x)\<in>set (members doc).
         p \<notin> fst ` set (case map_of schema ''properties'' of None \<Rightarrow> [] | Some ps \<Rightarrow> members ps) \<longrightarrow> ok v x
     else if k = ''items'' then \<forall>x\<in>set (elements doc). ok v x
     else if k = ''allOf'' then \<forall>s\<in>set (elements v). ok s doc
     else if k = ''if'' then
       ok v doc \<longrightarrow> (case map_of schema ''then'' of None \<Rightarrow> True | Some s \<Rightarrow> ok s doc)
     else True)"

definition schema_holds :: "(json \<Rightarrow> json \<Rightarrow> bool) \<Rightarrow> (string \<times> json) list \<Rightarrow> json \<Rightarrow> bool" where
  "schema_holds ok schema doc = (\<forall>kv\<in>set schema. keyword_holds ok schema doc kv)"

definition json_schema_laws :: "(json \<Rightarrow> json \<Rightarrow> bool) \<Rightarrow> bool" where
  "json_schema_laws validates \<longleftrightarrow>
     (\<forall>schema doc. validates (JObj schema) doc = schema_holds validates schema doc)
   \<and> (\<forall>b doc. validates (JBool b) doc = b)"

text \<open>A validator that satisfies the laws: recursion on the size of the schema.\<close>

lemma size_member: "(k, v) \<in> set kvs \<Longrightarrow> size v < size (JObj kvs)"
  by (induction kvs) auto

lemma size_members: "(k, v) \<in> set (members s) \<Longrightarrow> size v < size s"
  by (cases s) (auto dest: size_member)

lemma size_elements: "x \<in> set (elements s) \<Longrightarrow> size x < size s"
  by (cases s) (auto simp: less_Suc_eq_le size_list_estimation')

lemma schema_holds_cong [fundef_cong]:
  assumes "kvs = kvs'" and "doc = doc'" and same: "\<And>s d. size s < size (JObj kvs') \<Longrightarrow> f s d = g s d"
  shows "schema_holds f kvs doc = schema_holds g kvs' doc'"
proof -
  have "keyword_holds f kvs' doc' (k, v) = keyword_holds g kvs' doc' (k, v)" if kv: "(k, v) \<in> set kvs'" for k v
  proof -
    have v: "f v d = g v d" for d using same size_member[OF kv] by blast
    have m: "f s d = g s d" if "(p, s) \<in> set (members v)" for p s d
      using same size_member[OF kv] size_members[OF that] by (meson less_trans)
    have e: "f s d = g s d" if "s \<in> set (elements v)" for s d
      using same size_member[OF kv] size_elements[OF that] by (meson less_trans)
    have t: "map_of kvs' ''then'' = Some s \<Longrightarrow> f s d = g s d" for s d
      using same size_member[OF map_of_SomeD] by blast
    have "(\<forall>(p, s)\<in>set (members v). case map_of (members doc') p of None \<Rightarrow> True | Some x \<Rightarrow> f s x)
        = (\<forall>(p, s)\<in>set (members v). case map_of (members doc') p of None \<Rightarrow> True | Some x \<Rightarrow> g s x)"
      using m by (intro ball_cong refl) (auto split: option.splits)
    moreover have "(\<forall>s\<in>set (elements v). f s doc') = (\<forall>s\<in>set (elements v). g s doc')" using e by simp
    moreover have "(case map_of kvs' ''then'' of None \<Rightarrow> True | Some s \<Rightarrow> f s doc')
        = (case map_of kvs' ''then'' of None \<Rightarrow> True | Some s \<Rightarrow> g s doc')"
      using t by (auto split: option.splits)
    ultimately show ?thesis by (simp add: keyword_holds_def v)
  qed
  then show ?thesis using assms(1,2) by (auto simp: schema_holds_def)
qed

function schema_check :: "json \<Rightarrow> json \<Rightarrow> bool" where
  "schema_check schema doc =
     (case schema of JObj kvs \<Rightarrow> schema_holds schema_check kvs doc | JBool b \<Rightarrow> b | _ \<Rightarrow> True)"
  by pat_completeness auto

termination by (relation "measure (\<lambda>(schema, doc). size schema)") auto

declare schema_check.simps [simp del]

lemma schema_check_laws: "json_schema_laws schema_check"
  by (simp add: json_schema_laws_def schema_check.simps)

section \<open>What the keywords of these schemas say\<close>

lemma keyword_simps [simp]:
  "keyword_holds ok sch doc (''type'', JStr t) \<longleftrightarrow> has_type doc t"
  "keyword_holds ok sch doc (''type'', JList ts) \<longleftrightarrow>
     list_ex (\<lambda>t. case t of JStr n \<Rightarrow> has_type doc n | _ \<Rightarrow> False) ts"
  "keyword_holds ok sch doc (''const'', v) \<longleftrightarrow> doc = v"
  "keyword_holds ok sch doc (''enum'', JList vs) \<longleftrightarrow> doc \<in> set vs"
  "keyword_holds ok sch doc (''minimum'', v) \<longleftrightarrow> in_bound (\<le>) v doc"
  "keyword_holds ok sch doc (''maximum'', v) \<longleftrightarrow> in_bound (\<lambda>b x. x \<le> b) v doc"
  "keyword_holds ok sch doc (''minLength'', JInt n) \<longleftrightarrow>
     (case doc of JStr s \<Rightarrow> n \<le> int (length s) | _ \<Rightarrow> True)"
  "keyword_holds ok sch doc (''required'', JList rs) \<longleftrightarrow>
     (has_type doc ''object'' \<longrightarrow> (\<forall>r\<in>set rs. r \<in> JStr ` fst ` set (members doc)))"
  "keyword_holds ok sch doc (''properties'', JObj ps) \<longleftrightarrow>
     (\<forall>(p, s)\<in>set ps. case map_of (members doc) p of None \<Rightarrow> True | Some x \<Rightarrow> ok s x)"
  "keyword_holds ok sch doc (''items'', v) \<longleftrightarrow> (\<forall>x\<in>set (elements doc). ok v x)"
  "keyword_holds ok sch doc (''allOf'', JList ss) \<longleftrightarrow> (\<forall>s\<in>set ss. ok s doc)"
  "keyword_holds ok sch doc (''then'', v)" "keyword_holds ok sch doc (''title'', v)"
  "keyword_holds ok sch doc (''$schema'', v)" "keyword_holds ok sch doc (''$id'', v)"
  by (auto simp: keyword_holds_def split: json.splits)

lemma keyword_additional:
  "keyword_holds ok sch doc (''additionalProperties'', v) \<longleftrightarrow>
     (\<forall>(p, x)\<in>set (members doc).
       p \<notin> fst ` set (case map_of sch ''properties'' of None \<Rightarrow> [] | Some ps \<Rightarrow> members ps) \<longrightarrow> ok v x)"
  by (simp add: keyword_holds_def)

lemma keyword_if:
  "keyword_holds ok sch doc (''if'', v) \<longleftrightarrow>
     (ok v doc \<longrightarrow> (case map_of sch ''then'' of None \<Rightarrow> True | Some s \<Rightarrow> ok s doc))"
  by (simp add: keyword_holds_def)

end
