(* ===== verification/SchemaProps.thy ===== *)
theory SchemaProps
  imports Schemas PipelineGroups FusionProps
begin

text \<open>
  Documents of the service against its schemas: a segment that the constructor accepts satisfies the
  schema of version 2 exactly when it also keeps the bounds that the constructor does not check, an
  event of a log satisfies the schema of events, and the projection of a document of version 2 is a
  document of version 1.
\<close>

section \<open>Documents and schemas\<close>

definition published :: "segment \<Rightarrow> bool" where
  "published s \<longleftrightarrow> seg_schema s = ''2.0'' \<and> seg_session_id s \<noteq> [] \<and> seg_event_id s \<noteq> []
     \<and> seg_speaker_id s \<noteq> [] \<and> seg_session_speaker_id s \<noteq> []
     \<and> (case seg_concurrent s of None \<Rightarrow> True | Some k \<Rightarrow> 1 \<le> k \<and> k \<le> 5)"

locale json_schema =
  fixes validates :: "json \<Rightarrow> json \<Rightarrow> bool"
  assumes laws: "json_schema_laws validates"
begin

lemma validates_obj: "validates (JObj sch) doc \<longleftrightarrow> (\<forall>kv\<in>set sch. keyword_holds validates sch doc kv)"
  using laws by (simp add: json_schema_laws_def schema_holds_def)

lemma validates_bool [simp]: "validates (JBool b) doc = b"
  using laws by (simp add: json_schema_laws_def)

lemma validates_simple [simp]:
  "validates (type_is t) doc \<longleftrightarrow> has_type doc t"
  "validates (nullable t) doc \<longleftrightarrow> has_type doc t \<or> has_type doc ''null''"
  "validates (JObj [(''const'', v)]) doc \<longleftrightarrow> doc = v"
  "validates (one_of vs) doc \<longleftrightarrow> doc \<in> JStr ` set vs"
  by (auto simp: type_is_def nullable_def one_of_def validates_obj)

lemma validates_nonempty [simp]: "validates nonempty_string doc \<longleftrightarrow> (\<exists>s. doc = JStr s \<and> s \<noteq> [])"
  by (cases doc) (auto simp: nonempty_string_def validates_obj Suc_le_eq)

lemma validates_integer [simp]:
  "validates (integer_from n) (JInt k) \<longleftrightarrow> n \<le> k"
  by (simp add: integer_from_def validates_obj in_bound_def)

lemma has_type_opt [simp]: "has_type (json_opt JStr v) ''string'' \<or> has_type (json_opt JStr v) ''null''"
  by (cases v) simp_all

lemma validates_confidence [simp]:
  "validates CONFIDENCE_SCHEMA (json_opt JReal v) \<longleftrightarrow> unit_or_none v"
  by (cases v) (simp_all add: CONFIDENCE_SCHEMA_def validates_obj in_bound_def unit_or_none_def)

lemma validates_opt_str [simp]: "validates (nullable ''string'') (json_opt JStr v)"
  by (cases v) simp_all

lemma validates_bounded_int [simp]:
  "validates (JObj [(''type'', JList [JStr ''integer'', JStr ''null'']), (''minimum'', JInt a), (''maximum'', JInt b)])
     (json_opt JInt v) \<longleftrightarrow> (case v of None \<Rightarrow> True | Some k \<Rightarrow> a \<le> k \<and> k \<le> b)"
  by (cases v) (simp_all add: validates_obj in_bound_def)

lemma validates_track [simp]:
  "validates (JObj [(''type'', JList [JStr ''integer'', JStr ''null'']), (''minimum'', JInt 0)])
     (json_opt (\<lambda>k. JInt (int k)) v)"
  by (cases v) (simp_all add: validates_obj in_bound_def)

lemma validates_scores [simp]:
  "validates (JObj [(''type'', JStr ''object''), (''additionalProperties'', type_is ''number'')])
     (JObj (map (\<lambda>(k, v). (k, JReal v)) kvs))"
  by (auto simp: validates_obj keyword_additional)

lemma validates_flags [simp]:
  "validates (JObj [(''type'', JStr ''array''), (''items'', type_is ''string'')]) (JList (map JStr fs))"
  by (auto simp: validates_obj)

lemma validates_versions [simp]:
  "validates (JObj [(''type'', JStr ''object''), (''additionalProperties'', JBool False),
      (''properties'', JObj [(''diarization'', nullable ''string''), (''embedding'', nullable ''string''),
         (''separation'', nullable ''string''), (''asr'', nullable ''string''), (''calibration'', nullable ''string'')])])
     (model_versions_to_dict m)"
  by (simp add: validates_obj keyword_additional model_versions_to_dict_def)

text \<open>A condition of a schema: what its first part says of one property.\<close>

lemma validates_required [simp]:
  "validates (JObj [(''properties'', JObj ps), (''required'', JList rs)]) doc
     \<longleftrightarrow> validates (JObj [(''properties'', JObj ps)]) doc \<and> validates (JObj [(''required'', JList rs)]) doc"
  "validates (JObj [(''required'', JList rs), (''properties'', JObj ps)]) doc
     \<longleftrightarrow> validates (JObj [(''properties'', JObj ps)]) doc \<and> validates (JObj [(''required'', JList rs)]) doc"
  by (auto simp: validates_obj)

lemma validates_condition:
  "validates (JObj [(''if'', c), (''then'', s)]) doc \<longleftrightarrow> (validates c doc \<longrightarrow> validates s doc)"
  by (simp add: validates_obj keyword_if)

lemma validates_properties:
  "validates (JObj [(''properties'', JObj ps)]) doc \<longleftrightarrow>
     (\<forall>(p, s)\<in>set ps. case map_of (members doc) p of None \<Rightarrow> True | Some x \<Rightarrow> validates s x)"
  "validates (JObj [(''required'', JList rs)]) (JObj d) \<longleftrightarrow> (\<forall>r\<in>set rs. r \<in> JStr ` fst ` set d)"
  by (simp_all add: validates_obj)

section \<open>Segments\<close>

lemma required_keys [simp]:
  "keyword_holds ok sch (JObj d) (''required'', JList (map JStr rs)) \<longleftrightarrow> set rs \<subseteq> fst ` set d"
  by auto

lemma known_keys:
  "map_of sch ''properties'' = Some (JObj ps) \<Longrightarrow>
     keyword_holds validates sch (JObj d) (''additionalProperties'', JBool False) \<longleftrightarrow> fst ` set d \<subseteq> fst ` set ps"
  by (force simp: keyword_additional)

lemma v2_parts:
  "validates TRANSCRIPT_SEGMENT_V2_SCHEMA (JObj d) \<longleftrightarrow>
     fst ` set d \<subseteq> fst ` set V2_PROPERTIES \<and> set V2_REQUIRED \<subseteq> fst ` set d
     \<and> (\<forall>(p, s)\<in>set V2_PROPERTIES. case map_of d p of None \<Rightarrow> True | Some x \<Rightarrow> validates s x)
     \<and> (\<forall>s\<in>set V2_CONDITIONS. validates s (JObj d))"
  by (simp add: TRANSCRIPT_SEGMENT_V2_SCHEMA_def validates_obj known_keys del: set_map keyword_simps(8))

lemma segment_conditions:
  assumes "valid_segment s" and "mk_confidences (seg_confidences s) = Inr c"
  shows "\<forall>sch\<in>set V2_CONDITIONS. validates sch (JObj (to_public_dict s))"
proof -
  have "\<exists>r. seg_registry_id s = Some r \<and> r \<noteq> []" "\<exists>n. seg_name s = Some n \<and> n \<noteq> []"
    if "status_value (seg_status s) = ''enrolled''"
    using that assms(1) by (cases "seg_status s"; auto simp: valid_segment_def mk_segment_def split: if_splits elim!: truthy.elims)+
  moreover have "c_overall (seg_confidences s) = None"
    if "confidence_status_value (c_status (seg_confidences s)) = ''uncalibrated''"
    using that assms(2) by (cases "c_status (seg_confidences s)") (auto simp: mk_confidences_def split: if_splits)
  moreover have "seg_track s \<noteq> None" if "seg_backend s \<noteq> None"
    using that assms(1) by (auto simp: valid_segment_def mk_segment_def split: if_splits)
  ultimately show ?thesis
    by (cases "seg_backend s")
      (auto simp: V2_CONDITIONS_def validates_condition validates_properties to_public_dict_def)
qed

lemma segment_properties:
  assumes "valid_segment s" and "mk_confidences (seg_confidences s) = Inr c"
  shows "(\<forall>(p, sch)\<in>set V2_PROPERTIES.
      case map_of (to_public_dict s) p of None \<Rightarrow> True | Some x \<Rightarrow> validates sch x) \<longleftrightarrow> published s"
proof -
  have "0 \<le> seg_start s" "1 \<le> seg_end s" "1 \<le> seg_revision s" "unit_or_none (seg_count_confidence s)"
    using assms(1) by (auto simp: valid_segment_def mk_segment_def split: if_splits)
  moreover have "unit_or_none (c_asr (seg_confidences s))" "unit_or_none (c_diarization (seg_confidences s))"
    "unit_or_none (c_linking (seg_confidences s))" "unit_or_none (c_voice_id (seg_confidences s))"
    "unit_or_none (c_overlap (seg_confidences s))" "unit_or_none (c_overall (seg_confidences s))"
    using assms(2) by (auto simp: mk_confidences_def split: if_splits)
  moreover have "status_value (seg_status s) \<in> {''provisional'', ''enrolled'', ''anonymous'', ''unknown'', ''ambiguous''}"
    by (cases "seg_status s") simp_all
  moreover have "confidence_status_value (c_status (seg_confidences s)) \<in> {''uncalibrated'', ''calibrated''}"
    by (cases "c_status (seg_confidences s)") simp_all
  ultimately show ?thesis
    by (simp add: V2_PROPERTIES_def to_public_dict_def published_def)
qed

lemma segment_keys:
  "fst ` set (to_public_dict s) \<subseteq> fst ` set V2_PROPERTIES" "set V2_REQUIRED \<subseteq> fst ` set (to_public_dict s)"
  by (simp_all add: to_public_dict_def V2_PROPERTIES_def V2_REQUIRED_def)

lemma segment_valid:
  assumes "valid_segment s" and "mk_confidences (seg_confidences s) = Inr c"
  shows "validates TRANSCRIPT_SEGMENT_V2_SCHEMA (JObj (to_public_dict s)) \<longleftrightarrow> published s"
  using segment_keys[of s] segment_conditions[OF assms] segment_properties[OF assms] by (simp add: v2_parts)

lemma concurrent_bounded:
  assumes "validates TRANSCRIPT_SEGMENT_V2_SCHEMA (JObj (to_public_dict s))" and "seg_concurrent s = Some k"
  shows "k \<le> 5"
proof -
  let ?sch = "JObj [(''type'', JList [JStr ''integer'', JStr ''null'']), (''minimum'', JInt 1), (''maximum'', JInt 5)]"
  have "(''estimated_concurrent_speakers'', ?sch) \<in> set V2_PROPERTIES" by (simp add: V2_PROPERTIES_def)
  then have "validates ?sch (json_opt JInt (seg_concurrent s))"
    using assms(1) unfolding v2_parts by (fastforce simp: to_public_dict_def)
  then show ?thesis using assms(2) by (simp only: validates_bounded_int) simp
qed

section \<open>Other documents\<close>

lemma event_valid:
  "validates SERVER_EVENT_V2_SCHEMA (JObj (event_to_dict e)) \<longleftrightarrow>
     ev_id e \<noteq> [] \<and> ev_session e \<noteq> [] \<and> 1 \<le> ev_seq e \<and> 0 \<le> ev_time e \<and> 1 \<le> ev_revision e"
proof -
  have "event_type_value (ev_type e) \<in> {''session.started'', ''transcript.provisional'', ''transcript.revision'',
      ''transcript.final'', ''pipeline.warning'', ''session.finalized'', ''session.failed''}"
    by (cases "ev_type e") simp_all
  then show ?thesis
    by (auto simp: SERVER_EVENT_V2_SCHEMA_def validates_obj event_to_dict_def)
qed

lemma v2_field:
  assumes "validates TRANSCRIPT_SEGMENT_V2_SCHEMA (JObj d)" and "map_of V2_PROPERTIES p = Some s" and "p \<in> set V2_REQUIRED"
  shows "\<exists>v. map_of d p = Some v \<and> validates s v"
proof -
  have "p \<in> fst ` set d" using assms(1,3) by (auto simp: v2_parts)
  then obtain v where v: "map_of d p = Some v" by (cases "map_of d p") (auto simp: map_of_eq_None_iff)
  moreover have "validates s v" using assms(1) map_of_SomeD[OF assms(2)] v by (auto simp: v2_parts)
  ultimately show ?thesis by blast
qed

lemma v2_label:
  assumes "validates TRANSCRIPT_SEGMENT_V2_SCHEMA (JObj d)" and "map_of d ''speaker_label'' = Some v"
  shows "has_type v ''string''"
proof -
  have "(''speaker_label'', type_is ''string'') \<in> set V2_PROPERTIES" by (simp add: V2_PROPERTIES_def)
  then have "validates (type_is ''string'') v" using assms by (auto simp: v2_parts)
  then show ?thesis by simp
qed

lemma downgraded:
  assumes ok: "validates TRANSCRIPT_SEGMENT_V2_SCHEMA (JObj d)"
  shows "\<exists>d'. downgrade_segment_to_v1 d = Inr d' \<and> validates SEGMENT_V1_SCHEMA (JObj d') \<and> map fst d' = V1_FIELDS
    \<and> (\<forall>k\<in>{''session_id'', ''start_ms'', ''end_ms'', ''text'', ''speaker_id''}. map_of d' k = map_of d k)"
proof -
  have present: "\<exists>v. map_of d p = Some v \<and> validates s v"
    if "map_of V2_PROPERTIES p = Some s" "p \<in> set V2_REQUIRED" for p s by (rule v2_field[OF ok that])
  note props = V2_PROPERTIES_def V2_REQUIRED_def
  obtain session where session: "map_of d ''session_id'' = Some session" "validates nonempty_string session"
    using present[of "''session_id''" nonempty_string] by (simp add: props del: validates_nonempty) blast
  obtain start where start: "map_of d ''start_ms'' = Some start" "validates (integer_from 0) start"
    using present[of "''start_ms''" "integer_from 0"] by (simp add: props del: validates_nonempty) blast
  obtain finish where finish: "map_of d ''end_ms'' = Some finish" "validates (integer_from 1) finish"
    using present[of "''end_ms''" "integer_from 1"] by (simp add: props del: validates_nonempty) blast
  obtain content where content: "map_of d ''text'' = Some content" "validates (type_is ''string'') content"
    using present[of "''text''" "type_is ''string''"] by (simp add: props del: validates_nonempty) blast
  obtain speaker where speaker: "map_of d ''speaker_id'' = Some speaker" "validates nonempty_string speaker"
    using present[of "''speaker_id''" nonempty_string] by (simp add: props del: validates_nonempty) blast
  obtain sid where sid: "map_of d ''session_speaker_id'' = Some sid" "validates nonempty_string sid"
    using present[of "''session_speaker_id''" nonempty_string] by (simp add: props del: validates_nonempty) blast
  have "\<exists>label. label_or_speaker d = Inr label \<and> has_type label ''string''"
    using v2_label[OF ok] sid by (cases "map_of d ''speaker_label''") (auto simp: label_or_speaker_def field_def)
  then obtain label where label: "label_or_speaker d = Inr label" "has_type label ''string''" by blast
  let ?d = "[(''schema_version'', JStr ''1.0''), (''session_id'', session), (''start_ms'', start),
      (''end_ms'', finish), (''text'', content), (''speaker_id'', speaker), (''speaker_label'', label),
      (''is_overlap'', JBool (truth_of d ''is_overlap'')), (''is_final'', JBool (truth_of d ''is_final''))]"
  have "downgrade_segment_to_v1 d = Inr ?d"
    by (simp add: downgrade_segment_to_v1_def field_def session start finish content speaker label)
  moreover have "validates SEGMENT_V1_SCHEMA (JObj ?d)"
    using session(2) start(2) finish(2) content(2) speaker(2) label(2)
    by (auto simp: SEGMENT_V1_SCHEMA_def validates_obj V1_PROPERTIES_def)
  moreover have "map fst ?d = V1_FIELDS" by (simp add: V1_FIELDS_def V1_PROPERTIES_def)
  ultimately show ?thesis using session start finish content speaker by (intro exI[of _ ?d]) simp
qed

end

interpretation checked: json_schema schema_check
  by unfold_locales (rule schema_check_laws)

section \<open>The properties\<close>



text \<open>
  Every document of version 2 has a projection to version 1. A document that satisfies the schema of
  version 2 is projected without error, the result satisfies the schema of version 1 and has all its
  fields and no other, and times, text, session and speaker are those of the document.
\<close>

theorem v2_projects_to_v1:
  assumes "json_schema_laws validates" and "validates TRANSCRIPT_SEGMENT_V2_SCHEMA (JObj d)"
  shows "\<exists>d'. downgrade_segment_to_v1 d = Inr d' \<and> validates SEGMENT_V1_SCHEMA (JObj d') \<and> map fst d' = V1_FIELDS
    \<and> (\<forall>k\<in>{''session_id'', ''start_ms'', ''end_ms'', ''text'', ''speaker_id''}. map_of d' k = map_of d k)"
  by (rule json_schema.downgraded[OF json_schema.intro[OF assms(1)] assms(2)])

theorem v2_projects_to_v1_witness:
  "\<exists>d'. downgrade_segment_to_v1 (to_public_dict example_segment) = Inr d' \<and> schema_check SEGMENT_V1_SCHEMA (JObj d')
    \<and> map_of d' ''text'' = Some (JStr ''xin chao'')"
proof -
  have "schema_check TRANSCRIPT_SEGMENT_V2_SCHEMA (JObj (to_public_dict example_segment))"
    using checked.segment_valid[of example_segment no_confidences] example_segment_valid
    by (simp add: valid_segment_def example_segment_def published_def SCHEMA_VERSION_def
        mk_confidences_def no_confidences_def unit_or_none_def)
  from v2_projects_to_v1[OF schema_check_laws this] show ?thesis
    by (auto simp: to_public_dict_def example_segment_def)
qed

text \<open>
  C37: A crowd breaks the public contract. Let the diarization of a region count more than five speakers,
  with no other evidence and no extraction of enrolled speakers. Then the region is transcribed from the
  mixture, and whatever segment is built from a group of the region is marked as degraded, passes every
  check of the constructor and violates the schema of version 2, which allows at most five.
\<close>

theorem crowded_region_breaks_schema:
  assumes "json_schema_laws validates"
    and "diarization_active_speakers e = Some k" and "5 < k"
    and "roster_active_speakers e = None" and "multichannel_activity_speakers e = None"
    and "\<not> mono_four_five_source_research (product c)" and "\<not> (target_speaker_extraction (product c) \<and> 0 < enrolled_targets e)"
    and "handle_overlap_region p pin buf region (route_overlap (estimate_source_count e c) c e True) diar st
       = (st', Inr (groups, warned, degraded))"
    and "g \<in> set groups" and "fuse_utterance evt calibrate opts st'' (n, u) = Inr seg" and "ut_group u = g"
  shows "seg_degraded seg \<and> valid_segment seg \<and> \<not> validates TRANSCRIPT_SEGMENT_V2_SCHEMA (JObj (to_public_dict seg))"
proof -
  let ?d = "route_overlap (estimate_source_count e c) c e True"
  have n: "sce_count (estimate_source_count e c) = Some k"
    using assms(2-6) by (simp add: estimate_source_count_def confident_def Let_def)
  have d: "rd_count ?d = estimate_source_count e c" "\<not> runs_separation ?d"
    using n assms(3,7) by (auto simp: route_overlap_def runs_separation_def Let_def)
  then have "mixture_fallback p pin buf region ?d (rd_warnings ?d) = Inr (groups, warned)"
    using assms(8) by (auto simp: handle_overlap_region_def fall_back_def bindS_def liftS_def returnS_def Let_def
        split: sum.splits prod.splits)
  then have g: "wg_concurrent g = Some k" "wg_degraded g"
    using assms(9) n d by (auto simp: mixture_fallback_def bindR_eq_Inr Let_def split: if_splits)
  have seg: "mk_segment seg = Inr seg" "seg_concurrent seg = Some k" "seg_degraded seg"
    using assms(10,11) g by (auto simp: fuse_utterance_def bindR_eq_Inr Let_def mk_segment_eq_Inr)
  have "\<not> validates TRANSCRIPT_SEGMENT_V2_SCHEMA (JObj (to_public_dict seg))"
    using json_schema.concurrent_bounded[OF json_schema.intro[OF assms(1)]] seg(2) assms(3) by fastforce
  with seg show ?thesis by (simp add: valid_segment_def)
qed

definition six_voices :: counting_evidence where
  "six_voices = no_evidence\<lparr>diarization_active_speakers := Some 6\<rparr>"

theorem crowded_region_breaks_schema_witness:
  "\<exists>g warned seg.
     handle_overlap_region demo_pipeline no_pin demo_buffer (plain_region 0 1000)
       (route_overlap (estimate_source_count six_voices default_config) default_config six_voices True) None trio
       = (trio, Inr ([g], warned, True))
     \<and> fuse_utterance digits null_calibrate final_pass trio
         (1, \<lparr>ut_speaker = ''a'', ut_words = [word_at 400 ''hi''], ut_group = g\<rparr>) = Inr seg
     \<and> seg_text seg = ''hi'' \<and> \<not> schema_check TRANSCRIPT_SEGMENT_V2_SCHEMA (JObj (to_public_dict seg))"
proof -
  let ?d = "route_overlap (estimate_source_count six_voices default_config) default_config six_voices True"
  have e: "diarization_active_speakers six_voices = Some 6" "roster_active_speakers six_voices = None"
    "multichannel_activity_speakers six_voices = None" "\<not> 0 < enrolled_targets six_voices"
    by (simp_all add: six_voices_def no_evidence_def)
  have c: "\<not> mono_four_five_source_research (product default_config)" by (simp add: default_config_def)
  obtain g warned where h: "handle_overlap_region demo_pipeline no_pin demo_buffer (plain_region 0 1000)
      ?d None trio = (trio, Inr ([g], warned, True))"
      and g: "wg_backend g = None" "wg_raw_scores g = []" "wg_count_confidence g = None"
    using e c by (auto simp: handle_overlap_region_def Let_def fall_back_def mixture_fallback_def plain_region_def
        demo_crop demo_words demo_plausible bindS_def liftS_def returnS_def dict_set_opt_def
        route_overlap_def estimate_source_count_def confident_def)
  obtain seg where seg: "fuse_utterance digits null_calibrate final_pass trio
      (1, \<lparr>ut_speaker = ''a'', ut_words = [word_at 400 ''hi''], ut_group = g\<rparr>) = Inr seg" "seg_text seg = ''hi''"
    using g by (simp add: fuse_utterance_def trio_get Let_def null_calibrate_def mk_confidences_def
        no_confidences_def mk_segment_def ut_start_def ut_end_def ut_text_def word_at_def final_pass_def anon_def
        new_session_speaker_def m_status_def public_speaker_id_def unit_or_none_def strip_def is_space_def
        segment_scores_def mean_def)
  from crowded_region_breaks_schema[OF schema_check_laws e(1) _ e(2,3) c _ h _ seg(1)] e(4) seg h show ?thesis by auto
qed

end
