(* ===== verification/Diarizer.thy ===== *)
theory Diarizer
  imports Speakers AudioBuffer "HOL-Library.List_Lexorder"
begin

text \<open>
  Diarization and overlap detection of \<^verbatim>\<open>src/src/sastt/adapters/pyannote/diarizer.py\<close>: how the
  output of the models of pyannote becomes turns and overlap regions. The models are parameters: the
  pipeline gives an object with optional annotations, the segmentation model a timeline. An annotation is
  the list of its tracks, each with start and end in seconds and a label.
\<close>

section \<open>Sweep over edges\<close>

text \<open>The sorted set of all starts and ends, and the slots between neighbours.\<close>

definition sweep_edges :: "time_interval list \<Rightarrow> int list" where
  "sweep_edges is = sorted_list_of_set (ti_start ` set is \<union> ti_end ` set is)"

definition sweep_slots :: "int list \<Rightarrow> time_interval list" where
  "sweep_slots es = map (\<lambda>(s, e). TI s e) (filter (\<lambda>(s, e). s < e) (zip es (tl es)))"

definition active_in :: "time_interval list \<Rightarrow> time_interval \<Rightarrow> nat" where
  "active_in is slot = length (filter (\<lambda>i. 0 < intersection_ms i slot) is)"

definition busy_slots :: "time_interval list \<Rightarrow> time_interval list" where
  "busy_slots is = filter (\<lambda>slot. 2 \<le> active_in is slot) (sweep_slots (sweep_edges is))"

section \<open>Turns and regions\<close>

type_synonym annotation = "(real \<times> real \<times> string) list"

record pyannote_output =
  po_speaker_diarization :: "annotation option"
  po_regular :: "annotation option"
  po_exclusive_speaker_diarization :: "annotation option"
  po_exclusive :: "annotation option"
  po_tracks :: annotation

definition speaker_diarization :: "pyannote_output \<Rightarrow> annotation" where
  "speaker_diarization out =
     (case po_speaker_diarization out of
        Some a \<Rightarrow> a
      | None \<Rightarrow> (case po_regular out of Some a \<Rightarrow> a | None \<Rightarrow> po_tracks out))"

text \<open>\<open>truth\<close> is the truth value of an annotation.\<close>

definition exclusive_diarization :: "(annotation \<Rightarrow> bool) \<Rightarrow> pyannote_output \<Rightarrow> annotation option" where
  "exclusive_diarization truth out =
     (case po_exclusive_speaker_diarization out of
        Some a \<Rightarrow> if truth a then Some a else po_exclusive out
      | None \<Rightarrow> po_exclusive out)"

definition turn_of_track :: "int \<Rightarrow> track_kind \<Rightarrow> real \<times> real \<times> string \<Rightarrow> speaker_turn option res" where
  "turn_of_track offset kind = (\<lambda>(first, final, label).
     let start = offset + trunc (first * 1000); end_ms = offset + trunc (final * 1000) in
     if end_ms \<le> start then Inr None
     else bindR (mk_interval start end_ms) (\<lambda>i.
       Inr (Some \<lparr>cluster_id = ''cluster_'' @ label, turn_interval = i, turn_kind = kind, turn_score = None\<rparr>)))"

definition turn_key :: "speaker_turn \<Rightarrow> int \<times> string" where
  "turn_key t = (ti_start (turn_interval t), cluster_id t)"

definition turns_from_annotation :: "annotation \<Rightarrow> int \<Rightarrow> track_kind \<Rightarrow> speaker_turn list res" where
  "turns_from_annotation tracks offset kind =
     bindR (mapR (turn_of_track offset kind) tracks) (\<lambda>found.
       Inr (sort_key turn_key (List.map_filter (\<lambda>t. t) found)))"

definition overlap_region_of :: "string \<Rightarrow> time_interval \<Rightarrow> overlap_region" where
  "overlap_region_of version i =
     \<lparr>region_interval = i, osd_activation = None, region_model_version = version, region_calibration_version = None\<rparr>"

definition overlap_regions_from_turns :: "speaker_turn list \<Rightarrow> string \<Rightarrow> overlap_region list" where
  "overlap_regions_from_turns ts version =
     map (overlap_region_of version) (merge_intervals (busy_slots (map turn_interval ts)) 0)"

section \<open>The diarizer\<close>

record pyannote_diarizer =
  pd_pipeline :: "audio_buffer \<Rightarrow> int \<Rightarrow> int \<Rightarrow> pyannote_output res"
  pd_version :: string
  pd_exclusive :: bool
  pd_truth :: "annotation \<Rightarrow> bool"

text \<open>\<open>except Exception as exc: raise SasttError(...)\<close>.\<close>

definition or_failed :: "'a res \<Rightarrow> 'a res" where
  "or_failed r = (case r of Inl e \<Rightarrow> Inl (Sastt PlainSasttError) | Inr x \<Rightarrow> Inr x)"

definition diarize :: "pyannote_diarizer \<Rightarrow> unit res \<Rightarrow> audio_buffer \<Rightarrow> int \<Rightarrow> int \<Rightarrow> diarization_result res" where
  "diarize d check buf min_speakers max_speakers =
     bindR check (\<lambda>_.
     bindR (or_failed (bindR (to_mono buf) (\<lambda>m. pd_pipeline d m min_speakers max_speakers))) (\<lambda>out.
     let offset = buf_start_ms buf in
     bindR (turns_from_annotation (speaker_diarization out) offset Regular) (\<lambda>regular.
     bindR (case (if pd_exclusive d then exclusive_diarization (pd_truth d) out else None) of
              None \<Rightarrow> Inr None
            | Some a \<Rightarrow> bindR (turns_from_annotation a offset Exclusive) (\<lambda>ts. Inr (Some ts))) (\<lambda>exclusive.
       Inr \<lparr>turns = regular, regular_tracks = regular, exclusive_tracks = exclusive,
            overlap_regions = overlap_regions_from_turns regular (pd_version d),
            estimated_session_speakers =
              min (max (int (card (cluster_id ` set regular))) min_speakers) max_speakers,
            diar_model_version = pd_version d\<rparr>))))"

section \<open>The overlap detector\<close>

text \<open>\<open>sg_timeline\<close>: the segmentation model, the conversion of its scores and the hysteresis.\<close>

record segmentation =
  sg_timeline :: "audio_buffer \<Rightarrow> (real \<times> real) list res"
  sg_version :: string
  sg_min_duration :: int
  sg_merge_gap :: int

definition detect_overlap :: "segmentation \<Rightarrow> unit res \<Rightarrow> audio_buffer \<Rightarrow> overlap_region list res" where
  "detect_overlap g check buf =
     bindR check (\<lambda>_.
     bindR (or_failed (bindR (to_mono buf) (sg_timeline g))) (\<lambda>timeline.
     let origin = buf_start_ms buf in
     bindR (mapR (\<lambda>(first, final). mk_interval (origin + trunc (first * 1000))
                     (origin + max 1 (trunc (final * 1000)))) timeline) (\<lambda>intervals.
       Inr (map (overlap_region_of (sg_version g))
              (filter (\<lambda>i. sg_min_duration g \<le> duration_ms i) (merge_intervals intervals (sg_merge_gap g)))))))"

section \<open>What the sweep finds\<close>

lemma sweep_edges_props:
  "sorted (sweep_edges is)" "distinct (sweep_edges is)" "set (sweep_edges is) = ti_start ` set is \<union> ti_end ` set is"
  by (simp_all add: sweep_edges_def)

lemma zip_tl_between:
  assumes "sorted es" and "(s, e) \<in> set (zip es (tl es))" and "x \<in> set es"
  shows "x \<le> s \<or> e \<le> x"
  using assms
proof (induction es)
  case (Cons a es)
  have "a \<le> s" using Cons.prems(1,2) by (auto dest!: set_zip_leftD)
  then show ?case using Cons by (cases es) auto
qed simp

lemma zip_tl_cover:
  assumes "sorted es" and "distinct es" and "a \<in> set es" and "b \<in> set es" and "a \<le> (ms::int)" and "ms < b"
  shows "\<exists>(s, e)\<in>set (zip es (tl es)). s \<le> ms \<and> ms < e"
  using assms
proof (induction es arbitrary: a)
  case (Cons x es)
  show ?case
  proof (cases es)
    case Nil
    then show ?thesis using Cons.prems by auto
  next
    case (Cons y ys)
    show ?thesis
    proof (cases "ms < y")
      case True
      then have "x \<le> ms" using Cons.prems \<open>es = y # ys\<close> by fastforce
      then show ?thesis using True Cons by simp
    next
      case False
      then have "b \<in> set es" using Cons.prems Cons by auto
      from Cons.IH[of y] this Cons Cons.prems False show ?thesis by auto
    qed
  qed
qed simp

lemma sweep_slot:
  assumes "slot \<in> set (sweep_slots (sweep_edges is))"
  shows "ti_start slot < ti_end slot" and "i \<in> set is \<Longrightarrow> ms \<in> span slot \<Longrightarrow>
    0 < intersection_ms i slot \<longleftrightarrow> ms \<in> span i"
proof -
  obtain s e where slot: "slot = TI s e" "s < e" "(s, e) \<in> set (zip (sweep_edges is) (tl (sweep_edges is)))"
    using assms by (auto simp: sweep_slots_def)
  then show "ti_start slot < ti_end slot" by simp
  assume i: "i \<in> set is" and ms: "ms \<in> span slot"
  note between = zip_tl_between[OF sweep_edges_props(1) slot(3)]
  have "ti_start i \<le> s \<or> e \<le> ti_start i" "ti_end i \<le> s \<or> e \<le> ti_end i"
    using between[of "ti_start i"] between[of "ti_end i"] i by (auto simp: sweep_edges_props)
  then show "0 < intersection_ms i slot \<longleftrightarrow> ms \<in> span i" using ms slot(1,2) by (auto simp: intersection_ms_def span_def)
qed

lemma active_in_slot:
  assumes "slot \<in> set (sweep_slots (sweep_edges is))" and "ms \<in> span slot"
  shows "active_in is slot = length (filter (\<lambda>i. ms \<in> span i) is)"
  unfolding active_in_def using sweep_slot(2)[OF assms(1) _ assms(2)] by (simp cong: filter_cong)

lemma covered_busy:
  assumes "\<forall>i\<in>set is. valid_interval i"
  shows "covered (busy_slots is) = {ms. 2 \<le> length (filter (\<lambda>i. ms \<in> span i) is)}"
proof (intro equalityI subsetI)
  fix ms assume "ms \<in> covered (busy_slots is)"
  then obtain slot where "slot \<in> set (sweep_slots (sweep_edges is))" "2 \<le> active_in is slot" "ms \<in> span slot"
    by (auto simp: covered_def busy_slots_def)
  then show "ms \<in> {ms. 2 \<le> length (filter (\<lambda>i. ms \<in> span i) is)}" using active_in_slot by simp
next
  fix ms assume "ms \<in> {ms. 2 \<le> length (filter (\<lambda>i. ms \<in> span i) is)}"
  then have two: "2 \<le> length (filter (\<lambda>i. ms \<in> span i) is)" by simp
  then have "filter (\<lambda>i. ms \<in> span i) is \<noteq> []" by auto
  then obtain i where i: "i \<in> set is" "ms \<in> span i" by (auto simp: filter_empty_conv)
  then have "ti_start i \<le> ms" "ms < ti_end i" "ti_start i \<in> set (sweep_edges is)" "ti_end i \<in> set (sweep_edges is)"
    by (auto simp: span_def sweep_edges_props)
  from zip_tl_cover[OF sweep_edges_props(1,2) this(3,4,1,2)]
  obtain s e where se: "(s, e) \<in> set (zip (sweep_edges is) (tl (sweep_edges is)))" "s \<le> ms" "ms < e" by auto
  then have slot: "TI s e \<in> set (sweep_slots (sweep_edges is))" by (force simp: sweep_slots_def)
  moreover have ms: "ms \<in> span (TI s e)" using se by (simp add: span_def)
  ultimately have "TI s e \<in> set (busy_slots is)" using two active_in_slot by (simp add: busy_slots_def)
  then show "ms \<in> covered (busy_slots is)" using ms by (auto simp: covered_def)
qed

lemma busy_valid:
  assumes "\<forall>i\<in>set is. valid_interval i"
  shows "\<forall>slot\<in>set (busy_slots is). valid_interval slot"
proof
  fix slot assume "slot \<in> set (busy_slots is)"
  then have slot: "slot \<in> set (sweep_slots (sweep_edges is))" by (simp add: busy_slots_def)
  then obtain s e where se: "slot = TI s e" "s \<in> set (sweep_edges is)"
    by (auto simp: sweep_slots_def dest: set_zip_leftD)
  moreover have "0 \<le> s" using se assms by (auto simp: sweep_edges_props valid_interval_def)
  ultimately show "valid_interval slot" using sweep_slot(1)[OF slot] by (simp add: valid_interval_def)
qed

end
