(* ===== verification/DiarizerProps.thy ===== *)
theory DiarizerProps
  imports Diarizer PipelineGroups
begin

text \<open>
  What the diarizer promises the pipeline: regions exactly where two tracks are active, ordered turns at
  their absolute position, an estimate within its bounds, and no exceptions but those of the domain.
\<close>

lemma or_failed_eq_Inr [simp]: "or_failed r = Inr x \<longleftrightarrow> r = Inr x"
  by (cases r) (simp_all add: or_failed_def)

lemma turns_valid:
  assumes "turns_from_annotation tracks offset kind = Inr ts"
  shows "sorted (map turn_key ts)" "\<forall>t\<in>set ts. valid_interval (turn_interval t) \<and> turn_kind t = kind"
proof -
  from assms obtain found where found: "mapR (turn_of_track offset kind) tracks = Inr found"
    "ts = sort_key turn_key (List.map_filter (\<lambda>t. t) found)"
    by (auto simp: turns_from_annotation_def bindR_eq_Inr)
  then show "sorted (map turn_key ts)" by simp
  show "\<forall>t\<in>set ts. valid_interval (turn_interval t) \<and> turn_kind t = kind"
  proof
    fix t assume "t \<in> set ts"
    then have "Some t \<in> set found" using found(2) by (auto simp: List.map_filter_def)
    then obtain track where "turn_of_track offset kind track = Inr (Some t)"
      using mapR_set[OF found(1)] by blast
    then show "valid_interval (turn_interval t) \<and> turn_kind t = kind"
      by (auto simp: turn_of_track_def bindR_eq_Inr valid_interval_def Let_def split: prod.splits if_splits)
  qed
qed

lemma regions_exact:
  assumes "\<forall>t\<in>set ts. valid_interval (turn_interval t)"
  shows "covered (map region_interval (overlap_regions_from_turns ts v))
      = {ms. 2 \<le> length (filter (\<lambda>t. contains_ms (turn_interval t) ms) ts)}"
    and "separated 0 (map region_interval (overlap_regions_from_turns ts v))"
    and "\<forall>g\<in>set (overlap_regions_from_turns ts v). valid_interval (region_interval g)"
proof -
  let ?is = "map turn_interval ts"
  have valid: "\<forall>i\<in>set ?is. valid_interval i" using assms by simp
  have regions: "map region_interval (overlap_regions_from_turns ts v) = merge_intervals (busy_slots ?is) 0"
    by (simp add: overlap_regions_from_turns_def overlap_region_of_def o_def)
  have "length (filter (\<lambda>i. ms \<in> span i) ?is) = length (filter (\<lambda>t. contains_ms (turn_interval t) ms) ts)" for ms
    by (simp add: filter_map o_def contains_ms_def span_def)
  then show "covered (map region_interval (overlap_regions_from_turns ts v))
      = {ms. 2 \<le> length (filter (\<lambda>t. contains_ms (turn_interval t) ms) ts)}"
    unfolding regions using merge_intervals_covered[OF busy_valid[OF valid]] covered_busy[OF valid] by simp
  show "separated 0 (map region_interval (overlap_regions_from_turns ts v))"
    unfolding regions by (rule merge_intervals_separated)
  have "\<forall>i\<in>set (map region_interval (overlap_regions_from_turns ts v)). valid_interval i"
    unfolding regions by (rule merge_intervals_valid[OF busy_valid[OF valid]])
  then show "\<forall>g\<in>set (overlap_regions_from_turns ts v). valid_interval (region_interval g)" by simp
qed

text \<open>A track that lasts less than a millisecond is dropped; every other one is a turn.\<close>

lemma turns_total:
  assumes "\<forall>(first, final, label)\<in>set tracks. 0 \<le> first" and "0 \<le> offset"
  shows "\<exists>ts. turns_from_annotation tracks offset kind = Inr ts"
proof -
  have "\<exists>t. turn_of_track offset kind track = Inr t" if "track \<in> set tracks" for track
  proof -
    obtain first final label where track: "track = (first, final, label)" by (cases track) auto
    then have "0 \<le> first" using assms(1) that by auto
    then have "0 \<le> offset + trunc (first * 1000)" using assms(2) by (simp add: trunc_def)
    then show ?thesis unfolding track turn_of_track_def by (simp add: Let_def mk_interval_def)
  qed
  then obtain found where "mapR (turn_of_track offset kind) tracks = Inr found"
    using mapR_total by metis
  then show ?thesis by (simp add: turns_from_annotation_def)
qed

text \<open>
  C9: The diarizer reports overlap exactly where two tracks are active. In every result a millisecond
  lies in an overlap region if and only if at least two of the regular tracks contain it; the regions are
  valid, in order and apart from each other; the tracks are valid and in the order of start and cluster;
  and the estimated number of speakers lies within the bounds that were asked for.
\<close>

theorem diarizer_finds_overlap:
  assumes "diarize d check buf lo hi = Inr r"
  shows "(\<forall>ms. (\<exists>g\<in>set (overlap_regions r). contains_ms (region_interval g) ms)
        \<longleftrightarrow> 2 \<le> length (filter (\<lambda>t. contains_ms (turn_interval t) ms) (regular_tracks r)))
    \<and> separated 0 (map region_interval (overlap_regions r))
    \<and> (\<forall>t\<in>set (regular_tracks r). valid_interval (turn_interval t) \<and> turn_kind t = Regular)
    \<and> sorted (map turn_key (regular_tracks r))
    \<and> (lo \<le> hi \<longrightarrow> lo \<le> estimated_session_speakers r \<and> estimated_session_speakers r \<le> hi)"
proof -
  from assms obtain tracks where ts: "turns_from_annotation tracks (buf_start_ms buf) Regular = Inr (regular_tracks r)"
    and regions: "overlap_regions r = overlap_regions_from_turns (regular_tracks r) (pd_version d)"
    and est: "estimated_session_speakers r = min (max (int (card (cluster_id ` set (regular_tracks r)))) lo) hi"
    by (auto simp: diarize_def bindR_eq_Inr Let_def)
  have valid: "\<forall>t\<in>set (regular_tracks r). valid_interval (turn_interval t)" using turns_valid(2)[OF ts] by blast
  note exact = regions_exact[OF valid, of "pd_version d"]
  have "(\<exists>g\<in>set (overlap_regions r). contains_ms (region_interval g) ms)
      \<longleftrightarrow> ms \<in> covered (map region_interval (overlap_regions r))" for ms
    by (auto simp: covered_def span_def contains_ms_def)
  then show ?thesis using exact(1,2) turns_valid[OF ts] est unfolding regions by simp
qed

definition demo_diarizer :: pyannote_diarizer where
  "demo_diarizer = \<lparr>pd_pipeline = (\<lambda>_ _ _. Inr \<lparr>po_speaker_diarization = Some [(0, 1, ''A''), (1 / 2, 2, ''B'')],
       po_regular = None, po_exclusive_speaker_diarization = None, po_exclusive = None, po_tracks = []\<rparr>),
     pd_version = ''v'', pd_exclusive = False, pd_truth = (\<lambda>a. a \<noteq> [])\<rparr>"

theorem diarizer_finds_overlap_witness:
  "\<exists>r. diarize demo_diarizer (Inr ()) demo_buffer 1 5 = Inr r
     \<and> (\<exists>g\<in>set (overlap_regions r). contains_ms (region_interval g) 700)
     \<and> \<not> (\<exists>g\<in>set (overlap_regions r). contains_ms (region_interval g) 300)"
proof -
  have "to_mono demo_buffer = Inr demo_buffer" by (simp add: to_mono_def is_mono_def num_channels_def demo_buffer_def)
  moreover have "buf_start_ms demo_buffer = 0" by (simp add: buf_start_ms_def demo_buffer_def to_ms_def MS_PER_SECOND_def)
  ultimately obtain r where r: "diarize demo_diarizer (Inr ()) demo_buffer 1 5 = Inr r"
    and tracks: "mset (map turn_interval (regular_tracks r)) = {#TI 0 1000, TI 500 2000#}"
    by (simp add: diarize_def demo_diarizer_def speaker_diarization_def or_failed_def turns_from_annotation_def
        turn_of_track_def trunc_def Let_def mk_interval_def map_filter_simps)
  have "length (filter (\<lambda>t. contains_ms (turn_interval t) ms) (regular_tracks r))
      = size (filter_mset (\<lambda>i. contains_ms i ms) {#TI 0 1000, TI 500 2000#})" for ms
    unfolding tracks[symmetric] by (simp flip: mset_filter mset_map add: filter_map o_def)
  then have counts: "length (filter (\<lambda>t. contains_ms (turn_interval t) 700) (regular_tracks r)) = 2"
    "length (filter (\<lambda>t. contains_ms (turn_interval t) 300) (regular_tracks r)) = 1"
    by (simp_all add: contains_ms_def)
  have exact: "(\<exists>g\<in>set (overlap_regions r). contains_ms (region_interval g) ms)
      \<longleftrightarrow> 2 \<le> length (filter (\<lambda>t. contains_ms (turn_interval t) ms) (regular_tracks r))" for ms
    using diarizer_finds_overlap[OF r] by blast
  show ?thesis by (intro exI[of _ r]) (simp only: exact counts r, simp)
qed

end
