(* ===== verification/OverlapEval.thy ===== *)
theory OverlapEval
  imports SourceLinking JsonFields "HOL-Library.List_Lexorder"
begin

text \<open>
  The evaluation of speaker attribution in overlap regions, \<^verbatim>\<open>src/deploy/overlap_eval.py\<close>: segments of a
  job and hand labels in, counts of right, wrong and unknown speakers out; the alignment of a second
  run's labels, and the comparison of two runs. Segments are JSON objects; \<open>show\<close> is the text of a value
  that is no text and \<open>lower\<close> the lower case of a text. Files and the printed report are left out.
\<close>

section \<open>Rows\<close>

type_synonym row = "(string \<times> json) list"
type_synonym row_key = "int \<times> int \<times> int option"

definition UNDECIDABLE :: string where "UNDECIDABLE = ''undecidable''"
definition SINGLE_SPEAKER :: string where "SINGLE_SPEAKER = ''single_speaker''"
definition MIXED_SOURCES :: string where "MIXED_SOURCES = ''mixed_sources''"

definition BUCKETS :: "(int \<times> int) list" where
  "BUCKETS = [(0, 500), (500, 1000), (1000, 1500), (1500, 2 ^ 30)]"

definition eval_key :: "row \<Rightarrow> row_key res" where
  "eval_key r =
     bindR (field r ''start_ms'' json_int) (\<lambda>s.
     bindR (field r ''end_ms'' json_int) (\<lambda>e.
     bindR (field_opt r ''source_track'' json_int) (\<lambda>track. Inr (s, e, track))))"

definition load_labels :: "(json \<Rightarrow> string) \<Rightarrow> row list \<Rightarrow> (row_key \<rightharpoonup> string) res" where
  "load_labels show rows =
     foldR (\<lambda>r labels.
       bindR (eval_key r) (\<lambda>k.
       bindR (field r ''speaker'' Inr) (\<lambda>v. Inr (labels(k \<mapsto> text_value show v))))) rows Map.empty"

definition is_overlap_row :: "row \<Rightarrow> bool" where
  "is_overlap_row seg = (case map_of seg ''is_overlap'' of None \<Rightarrow> False | Some v \<Rightarrow> json_truth v)"

definition overlap_only :: "row list \<Rightarrow> row list" where
  "overlap_only segs = filter is_overlap_row segs"

definition predicted_speaker :: "(json \<Rightarrow> string) \<Rightarrow> (string \<Rightarrow> string) \<Rightarrow> row \<Rightarrow> string option" where
  "predicted_speaker show lower seg =
     (if map_of seg ''identity_status'' = Some (JStr ''unknown'') then None
      else case map_of seg ''speaker_label'' of
          None \<Rightarrow> None
        | Some JNull \<Rightarrow> None
        | Some v \<Rightarrow> let label = text_value show v in
            if lower (strip label) = ''unknown'' then None else Some label)"

section \<open>Aligning two runs\<close>

text \<open>The spans of speech outside overlap, each with its label; the dictionary groups them by label.\<close>

definition speaking_time ::
  "(json \<Rightarrow> string) \<Rightarrow> (string \<Rightarrow> string) \<Rightarrow> row list \<Rightarrow> (string \<times> int \<times> int) list res" where
  "speaking_time show lower segs =
     mapR (\<lambda>(label, seg).
        bindR (field seg ''start_ms'' json_int) (\<lambda>s.
        bindR (field seg ''end_ms'' json_int) (\<lambda>e. Inr (label, s, e))))
       (List.map_filter (\<lambda>seg. map_option (\<lambda>l. (l, seg)) (predicted_speaker show lower seg))
         (filter (\<lambda>seg. \<not> is_overlap_row seg) segs))"

definition spans_of :: "(string \<times> int \<times> int) list \<Rightarrow> string \<Rightarrow> (int \<times> int) list" where
  "spans_of spans label = map snd (filter (\<lambda>p. fst p = label) spans)"

definition labels_of :: "(string \<times> int \<times> int) list \<Rightarrow> string list" where
  "labels_of spans = sort (nub (map fst spans))"

definition shared_time :: "(int \<times> int) list \<Rightarrow> (int \<times> int) list \<Rightarrow> int" where
  "shared_time as bs =
     sum_list (map (\<lambda>((a_start, a_end), (b_start, b_end)). max 0 (min a_end b_end - max a_start b_start))
       (List.product as bs))"

definition shared_matrix ::
  "(string \<times> int \<times> int) list \<Rightarrow> (string \<times> int \<times> int) list \<Rightarrow> real list list" where
  "shared_matrix left right =
     map (\<lambda>cand. map (\<lambda>ref. of_int (shared_time (spans_of left ref) (spans_of right cand))) (labels_of left))
       (labels_of right)"

definition align_to_reference ::
  "solver \<Rightarrow> (json \<Rightarrow> string) \<Rightarrow> (string \<Rightarrow> string) \<Rightarrow> row list \<Rightarrow> row list \<Rightarrow> (string \<times> string) list res" where
  "align_to_reference assign show lower reference candidate =
     bindR (speaking_time show lower reference) (\<lambda>left.
     bindR (speaking_time show lower candidate) (\<lambda>right.
       if left = [] \<or> right = [] then Inr []
       else let matrix = shared_matrix left right in
         Inr (map (\<lambda>(r, c). (labels_of right ! r, labels_of left ! c))
               (filter (\<lambda>(r, c). 0 < matrix ! r ! c) (assign matrix)))))"

section \<open>Scoring\<close>

datatype outcome = Accuracy | Confusion | OutcomeUnknown

record eval_row =
  ew_start :: json
  ew_end :: json
  ew_track :: "json option"
  ew_duration :: int
  ew_bucket :: string
  ew_concurrent :: "int option"
  ew_truth :: string
  ew_predicted :: "string option"
  ew_outcome :: outcome

definition bucket_name :: "int \<times> int \<Rightarrow> string" where
  "bucket_name = (\<lambda>(low, high).
     if high < 2 ^ 30 then str_int low @ ''-'' @ str_int high else str_int low @ ''+'')"

definition bucket_of :: "int \<Rightarrow> string" where
  "bucket_of duration =
     (case List.find (\<lambda>(low, high). low \<le> duration \<and> duration < high) BUCKETS of
        Some b \<Rightarrow> bucket_name b | None \<Rightarrow> ''?'')"

definition translated :: "(string \<times> string) list \<Rightarrow> string option \<Rightarrow> string option" where
  "translated names raw =
     (case raw of None \<Rightarrow> None
      | Some l \<Rightarrow> Some (case map_of names l of Some ref \<Rightarrow> ref | None \<Rightarrow> l))"

definition outcome_of :: "string option \<Rightarrow> string \<Rightarrow> outcome" where
  "outcome_of prediction truth =
     (case prediction of None \<Rightarrow> OutcomeUnknown | Some p \<Rightarrow> if p = truth then Accuracy else Confusion)"

definition evaluated_row ::
  "(json \<Rightarrow> string) \<Rightarrow> (string \<Rightarrow> string) \<Rightarrow> (string \<times> string) list \<Rightarrow> row \<times> string \<Rightarrow> eval_row res" where
  "evaluated_row show lower names = (\<lambda>(seg, truth).
     let prediction = translated names (predicted_speaker show lower seg) in
     bindR (field seg ''end_ms'' json_int) (\<lambda>e.
     bindR (field seg ''start_ms'' json_int) (\<lambda>s.
     bindR (field seg ''start_ms'' Inr) (\<lambda>start.
     bindR (field seg ''end_ms'' Inr) (\<lambda>final.
     bindR (field_opt seg ''estimated_concurrent_speakers'' as_int) (\<lambda>concurrent.
       Inr \<lparr>ew_start = start, ew_end = final, ew_track = map_of seg ''source_track'', ew_duration = e - s,
            ew_bucket = bucket_of (e - s), ew_concurrent = concurrent, ew_truth = truth,
            ew_predicted = prediction, ew_outcome = outcome_of prediction truth\<rparr>))))))"

record triple =
  tp_n :: nat
  tp_accuracy :: nat
  tp_confusion :: nat
  tp_unknown :: nat

definition triple_of :: "eval_row list \<Rightarrow> triple" where
  "triple_of rows =
     (let count = (\<lambda>o'. length (filter (\<lambda>r. ew_outcome r = o') rows)) in
      \<lparr>tp_n = length rows, tp_accuracy = count Accuracy, tp_confusion = count Confusion,
       tp_unknown = count OutcomeUnknown\<rparr>)"

text \<open>\<open>round(k / n, 4)\<close>, or none of no rows.\<close>

definition rate :: "nat \<Rightarrow> nat \<Rightarrow> real option" where
  "rate k n = (if n = 0 then None else Some (of_int (py_round (real k / real n * 10000)) / 10000))"

text \<open>The counts present, numbers first: \<open>sorted(..., key=lambda v: (v is None, v))\<close>.\<close>

definition counts_present :: "eval_row list \<Rightarrow> int option list" where
  "counts_present rows =
     map Some (sort (nub (List.map_filter ew_concurrent rows))) @ (if None \<in> ew_concurrent ` set rows then [None] else [])"

record evaluation =
  ev_labelled :: nat
  ev_undecidable :: nat
  ev_single :: nat
  ev_mixed :: nat
  ev_unlabelled :: nat
  ev_overall :: triple
  ev_by_length :: "(string \<times> triple) list"
  ev_by_concurrent :: "(int option \<times> triple) list"
  ev_alignment :: "(string \<times> string) list"
  ev_rows :: "eval_row list"

definition score ::
  "(json \<Rightarrow> string) \<Rightarrow> (string \<Rightarrow> string) \<Rightarrow> row list \<Rightarrow> (row_key \<rightharpoonup> string) \<Rightarrow> (string \<times> string) list \<Rightarrow>
     evaluation res" where
  "score show lower segs labels names =
     (let overlaps = overlap_only segs in
      bindR (mapR (\<lambda>seg. bindR (eval_key seg) (\<lambda>k. Inr (seg, labels k))) overlaps) (\<lambda>keyed.
      let matched = List.map_filter (\<lambda>(seg, l). map_option (\<lambda>t. (seg, t)) l) keyed;
          marked = (\<lambda>mark. length (filter (\<lambda>p. snd p = mark) matched)) in
      bindR (mapR (evaluated_row show lower names)
          (filter (\<lambda>p. snd p \<notin> {UNDECIDABLE, SINGLE_SPEAKER, MIXED_SOURCES}) matched)) (\<lambda>rows.
        Inr \<lparr>ev_labelled = length matched, ev_undecidable = marked UNDECIDABLE, ev_single = marked SINGLE_SPEAKER,
             ev_mixed = marked MIXED_SOURCES, ev_unlabelled = length overlaps - length matched,
             ev_overall = triple_of rows,
             ev_by_length = map (\<lambda>b. (bucket_name b, triple_of (filter (\<lambda>r. ew_bucket r = bucket_name b) rows))) BUCKETS,
             ev_by_concurrent = map (\<lambda>v. (v, triple_of (filter (\<lambda>r. ew_concurrent r = v) rows))) (counts_present rows),
             ev_alignment = names, ev_rows = rows\<rparr>)))"

section \<open>Comparing two runs\<close>

definition or_zero :: "real option \<Rightarrow> real" where
  "or_zero r = (case r of None \<Rightarrow> 0 | Some x \<Rightarrow> x)"

definition compare_runs :: "evaluation \<Rightarrow> evaluation \<Rightarrow> int" where
  "compare_runs before after =
     (let b = ev_overall before; a = ev_overall after in
      if tp_n b = 0 \<or> tp_n a = 0 then 1
      else let d_acc = or_zero (rate (tp_accuracy a) (tp_n a)) - or_zero (rate (tp_accuracy b) (tp_n b));
               d_con = or_zero (rate (tp_confusion a) (tp_n a)) - or_zero (rate (tp_confusion b) (tp_n b))
        in if 0 < d_acc \<and> d_con \<le> 0 then 0 else 2)"

text \<open>The runs of \<open>main\<close>: the first one as it is, the second one aligned to it, and the exit code.\<close>

definition evaluate_runs ::
  "solver \<Rightarrow> (json \<Rightarrow> string) \<Rightarrow> (string \<Rightarrow> string) \<Rightarrow> (row_key \<rightharpoonup> string) \<Rightarrow> row list \<Rightarrow> row list option \<Rightarrow>
     (evaluation list \<times> int) res" where
  "evaluate_runs assign show lower labels reference candidate =
     bindR (score show lower reference labels []) (\<lambda>first.
       case candidate of
         None \<Rightarrow> Inr ([first], 0)
       | Some segs \<Rightarrow>
           bindR (align_to_reference assign show lower reference segs) (\<lambda>names.
           bindR (score show lower segs labels names) (\<lambda>second.
             Inr ([first, second], compare_runs first second))))"

end
