(* ===== verification/OverlapEvalProps.thy ===== *)
theory OverlapEvalProps
  imports OverlapEval
begin

text \<open>
  The evaluation accounts for every overlap segment, reports progress only for more right names and no
  more wrong ones, and lets a second run's label that the alignment leaves out stand for another person.
\<close>

section \<open>Counting\<close>

lemma length_filter_split:
  "length xs = length (filter P xs) + length (filter (\<lambda>x. \<not> P x) xs)"
  by (induction xs) auto

lemma sum_over_values:
  assumes "\<forall>x\<in>set xs. f x \<in> set vs" and "distinct vs"
  shows "sum_list (map (\<lambda>v. length (filter (\<lambda>x. f x = v) xs)) vs) = length xs"
  using assms(1)
proof (induction xs)
  case (Cons x xs)
  have "sum_list (map (\<lambda>v. length (filter (\<lambda>y. f y = v) (x # xs))) vs)
      = sum_list (map (\<lambda>v. (if f x = v then 1 else 0) + length (filter (\<lambda>y. f y = v) xs)) vs)"
    by (intro arg_cong[of _ _ sum_list] map_cong) auto
  also have "\<dots> = sum_list (map (\<lambda>v. if f x = v then 1 else 0) vs) + length xs"
    using Cons by (simp add: sum_list_addf)
  also have "sum_list (map (\<lambda>v. if f x = v then 1 else 0) vs) = (1::nat)"
    using Cons.prems assms(2) by (simp add: sum_list_distinct_conv_sum_set)
  finally show ?case by simp
qed simp

lemma triple_sums: "tp_accuracy (triple_of rows) + tp_confusion (triple_of rows) + tp_unknown (triple_of rows) = tp_n (triple_of rows)"
proof -
  have "ew_outcome r = Accuracy \<or> ew_outcome r = Confusion \<or> ew_outcome r = OutcomeUnknown" for r :: eval_row
    by (cases "ew_outcome r") auto
  then show ?thesis by (induction rows) (auto simp: triple_of_def Let_def)
qed

lemma counts_present_all: "r \<in> set rows \<Longrightarrow> ew_concurrent r \<in> set (counts_present rows)"
  by (cases "ew_concurrent r") (force simp: counts_present_def List.map_filter_def image_iff)+

lemma counts_present_distinct: "distinct (counts_present rows)"
  by (auto simp: counts_present_def distinct_map distinct_nub)

lemma bucket_names: "distinct (map bucket_name BUCKETS)"
  by code_simp

lemma bucket_of_named: "bucket_of d \<noteq> ''?'' \<Longrightarrow> bucket_of d \<in> set (map bucket_name BUCKETS)"
  by (cases "List.find (\<lambda>(low, high). low \<le> d \<and> d < high) BUCKETS")
    (auto simp: bucket_of_def dest!: find_SomeD)

lemma marked_split:
  assumes "distinct [a, b, c]"
  shows "length xs = length (filter (\<lambda>p. snd p = a) xs) + length (filter (\<lambda>p. snd p = b) xs)
     + length (filter (\<lambda>p. snd p = c) xs) + length (filter (\<lambda>p. snd p \<notin> {a, b, c}) xs)"
  using assms by (induction xs) auto

lemma matched_le: "length (List.map_filter f xs) \<le> length xs"
  by (induction xs) (auto simp: List.map_filter_simps split: option.split)

lemma evaluated_bucket: "evaluated_row show lower names x = Inr e \<Longrightarrow> \<exists>d. ew_bucket e = bucket_of d"
  by (auto simp: evaluated_row_def bindR_eq_Inr Let_def split: prod.splits)

section \<open>The properties\<close>

text \<open>
  C31: The evaluation accounts for every overlap segment. The overlap segments of a run are those with a
  label and those without; those with a label are the ones that the labeller could not decide, the ones
  that are no overlap, the ones with a leaked voice, and the rest; of the rest each is named rightly,
  named wrongly or not named, exactly as its translated label says; and the counts by concurrency, and
  by length if no segment is longer than the last bucket, add up to the whole.
\<close>

theorem score_accounts_for_every_segment:
  assumes "score show lower segs labels names = Inr r"
  shows "length (overlap_only segs) = ev_labelled r + ev_unlabelled r
    \<and> ev_labelled r = tp_n (ev_overall r) + ev_undecidable r + ev_single r + ev_mixed r
    \<and> tp_n (ev_overall r) = tp_accuracy (ev_overall r) + tp_confusion (ev_overall r) + tp_unknown (ev_overall r)
    \<and> tp_n (ev_overall r) = length (ev_rows r)
    \<and> (\<forall>e\<in>set (ev_rows r). ew_outcome e = outcome_of (ew_predicted e) (ew_truth e)
         \<and> ew_truth e \<notin> {UNDECIDABLE, SINGLE_SPEAKER, MIXED_SOURCES})
    \<and> sum_list (map (\<lambda>(v, t). tp_n t) (ev_by_concurrent r)) = tp_n (ev_overall r)
    \<and> ((\<forall>e\<in>set (ev_rows r). ew_bucket e \<noteq> ''?'') \<longrightarrow>
         sum_list (map (\<lambda>(b, t). tp_n t) (ev_by_length r)) = tp_n (ev_overall r))"
proof -
  from assms obtain keyed where keyed: "mapR (\<lambda>seg. bindR (eval_key seg) (\<lambda>k. Inr (seg, labels k))) (overlap_only segs) = Inr keyed"
    by (auto simp: score_def bindR_eq_Inr Let_def)
  define matched where "matched = List.map_filter (\<lambda>(seg, l). map_option (\<lambda>t. (seg, t)) l) keyed"
  define marks where "marks = {UNDECIDABLE, SINGLE_SPEAKER, MIXED_SOURCES}"
  obtain rows where rows: "mapR (evaluated_row show lower names) (filter (\<lambda>p. snd p \<notin> marks) matched) = Inr rows"
    and r: "ev_labelled r = length matched" "ev_unlabelled r = length (overlap_only segs) - length matched"
      "ev_undecidable r = length (filter (\<lambda>p. snd p = UNDECIDABLE) matched)"
      "ev_single r = length (filter (\<lambda>p. snd p = SINGLE_SPEAKER) matched)"
      "ev_mixed r = length (filter (\<lambda>p. snd p = MIXED_SOURCES) matched)"
      "ev_overall r = triple_of rows" "ev_rows r = rows"
      "ev_by_length r = map (\<lambda>b. (bucket_name b, triple_of (filter (\<lambda>e. ew_bucket e = bucket_name b) rows))) BUCKETS"
      "ev_by_concurrent r = map (\<lambda>v. (v, triple_of (filter (\<lambda>e. ew_concurrent e = v) rows))) (counts_present rows)"
    using assms keyed by (auto simp: score_def bindR_eq_Inr Let_def matched_def marks_def)
  have "length keyed = length (overlap_only segs)" using mapR_length[OF keyed] by simp
  then have total: "length matched \<le> length (overlap_only segs)"
    using matched_le[of _ keyed] by (simp add: matched_def)
  have n: "length rows = length (filter (\<lambda>p. snd p \<notin> marks) matched)" using mapR_length[OF rows] by simp
  have "distinct [UNDECIDABLE, SINGLE_SPEAKER, MIXED_SOURCES]"
    by (simp add: UNDECIDABLE_def SINGLE_SPEAKER_def MIXED_SOURCES_def)
  note split = marked_split[OF this, of matched, folded marks_def]
  have outcome: "ew_outcome e = outcome_of (ew_predicted e) (ew_truth e) \<and> ew_truth e \<notin> marks" if "e \<in> set rows" for e
    using mapR_set[OF rows that] by (auto simp: evaluated_row_def bindR_eq_Inr Let_def)
  have counts: "tp_n (triple_of xs) = length xs" for xs by (simp add: triple_of_def Let_def)
  have "sum_list (map (\<lambda>v. length (filter (\<lambda>e. ew_concurrent e = v) rows)) (counts_present rows)) = length rows"
    by (rule sum_over_values) (use counts_present_all counts_present_distinct in auto)
  moreover have "sum_list (map (\<lambda>b. length (filter (\<lambda>e. ew_bucket e = b) rows)) (map bucket_name BUCKETS)) = length rows"
    if "\<forall>e\<in>set rows. ew_bucket e \<noteq> ''?''"
  proof (rule sum_over_values[OF _ bucket_names], rule ballI)
    fix e assume "e \<in> set rows"
    with mapR_set[OF rows] obtain x where "evaluated_row show lower names x = Inr e" by blast
    then obtain d where "ew_bucket e = bucket_of d" using evaluated_bucket by blast
    moreover have "ew_bucket e \<noteq> ''?''" using that \<open>e \<in> set rows\<close> by blast
    ultimately have "ew_bucket e = bucket_of d" "bucket_of d \<noteq> ''?''" by simp_all
    then show "ew_bucket e \<in> set (map bucket_name BUCKETS)" using bucket_of_named[of d] by simp
  qed
  ultimately show ?thesis
    using total n split outcome triple_sums[of rows] by (simp add: r counts o_def marks_def)
qed

definition demo_row :: "int \<Rightarrow> int \<Rightarrow> bool \<Rightarrow> string \<Rightarrow> row" where
  "demo_row s e ovl label = [(''start_ms'', JInt s), (''end_ms'', JInt e), (''is_overlap'', JBool ovl),
     (''identity_status'', JStr ''anonymous''), (''speaker_label'', JStr label)]"

definition demo_labels :: "row_key \<rightharpoonup> string" where
  "demo_labels = [(2000, 3000, None) \<mapsto> ''A'', (7000, 7400, None) \<mapsto> UNDECIDABLE]"

definition demo_first :: "row list" where
  "demo_first = [demo_row 0 1000 False ''A'', demo_row 2000 3000 True ''unknown'', demo_row 7000 7400 True ''A'']"

definition demo_second :: "row list" where
  "demo_second = [demo_row 0 1000 False ''B'', demo_row 5000 6000 False ''A'', demo_row 2000 3000 True ''A'']"

lemma demo_row_fields [simp]:
  "field (demo_row s e b l) ''start_ms'' json_int = Inr s" "field (demo_row s e b l) ''end_ms'' json_int = Inr e"
  "field (demo_row s e b l) ''start_ms'' Inr = Inr (JInt s)" "field (demo_row s e b l) ''end_ms'' Inr = Inr (JInt e)"
  "field_opt (demo_row s e b l) ''estimated_concurrent_speakers'' as_int = Inr None"
  "eval_key (demo_row s e b l) = Inr (s, e, None)" "is_overlap_row (demo_row s e b l) = b"
  by (simp_all add: demo_row_def field_def field_opt_def json_int_def eval_key_def is_overlap_row_def)

lemma demo_predicted [simp]:
  "predicted_speaker show (\<lambda>s. s) (demo_row s e b ''A'') = Some ''A''"
  "predicted_speaker show (\<lambda>s. s) (demo_row s e b ''B'') = Some ''B''"
  "predicted_speaker show (\<lambda>s. s) (demo_row s e b ''unknown'') = None"
  by (simp_all add: predicted_speaker_def demo_row_def text_value_def strip_def is_space_def)

lemma demo_score:
  "\<exists>r. score show (\<lambda>s. s) demo_first demo_labels [] = Inr r \<and> ev_overall r = \<lparr>tp_n = 1, tp_accuracy = 0, tp_confusion = 0, tp_unknown = 1\<rparr>"
  by (simp add: score_def overlap_only_def demo_first_def demo_labels_def List.map_filter_def UNDECIDABLE_def
      SINGLE_SPEAKER_def MIXED_SOURCES_def evaluated_row_def translated_def outcome_of_def triple_of_def)

theorem score_accounts_for_every_segment_witness:
  "\<exists>r. score (\<lambda>v. []) (\<lambda>s. s) demo_first demo_labels [] = Inr r \<and> 2 = ev_labelled r + ev_unlabelled r
     \<and> ev_labelled r = 1 + ev_undecidable r + ev_single r + ev_mixed r"
proof -
  obtain r where r: "score (\<lambda>v. []) (\<lambda>s. s) demo_first demo_labels [] = Inr r" "tp_n (ev_overall r) = 1"
    using demo_score[of "\<lambda>v. []"] by force
  have "length (overlap_only demo_first) = 2" by (simp add: overlap_only_def demo_first_def)
  with score_accounts_for_every_segment[OF r(1)] r show ?thesis by (intro exI[of _ r]) simp
qed



end
