(* ===== verification/Decoder.thy ===== *)
theory Decoder
  imports PcmAudio JsonFields
begin

text \<open>
  Decoding of audio: the decoder over \<^verbatim>\<open>ffmpeg\<close> and \<^verbatim>\<open>ffprobe\<close> of
  \<^verbatim>\<open>src/src/sastt/adapters/ffmpeg/decoder.py\<close> and the decoder of raw samples of
  \<^verbatim>\<open>src/src/sastt/adapters/fake/models.py\<close>. The two programs are parameters: what a run gives is a
  timeout, or an exit code with the standard output, as the JSON value it is (none if it is no JSON) or
  as bytes. SHA-256, the resampling of SciPy, \<open>float\<close> of a text and \<open>str\<close> of a value that is no text are
  parameters too.
\<close>

section \<open>Programs\<close>

datatype 'a run = TimedOut | Exited int 'a

record probe_report =
  pb_channels :: int
  pb_rate :: int
  pb_codec :: string
  pb_format :: string
  pb_layout :: "string list"

record ffmpeg_decoder =
  fd_max_hours :: real
  fd_max_bytes :: nat
  fd_probe :: "bytes \<Rightarrow> json option run"
  fd_decode :: "bytes \<Rightarrow> int \<Rightarrow> int \<Rightarrow> bytes run"
  fd_show :: "json \<Rightarrow> string"
  fd_float :: "string \<Rightarrow> real res"
  fd_sha256 :: "bytes \<Rightarrow> string"
  fd_resample :: "sample list \<Rightarrow> int \<Rightarrow> int \<Rightarrow> sample list"

definition MIN_INPUT_SAMPLE_RATE :: int where "MIN_INPUT_SAMPLE_RATE = 8000"
definition MAX_INPUT_SAMPLE_RATE :: int where "MAX_INPUT_SAMPLE_RATE = 48000"

section \<open>Probing\<close>

definition split_plus :: "string \<Rightarrow> string list" where
  "split_plus s =
     foldr (\<lambda>c ps. if c = CHR ''+'' then [] # ps else (case ps of [] \<Rightarrow> [[c]] | p # qs \<Rightarrow> (c # p) # qs)) s [[]]"

definition channel_names :: "nat \<Rightarrow> string \<Rightarrow> string list" where
  "channel_names n layout =
     (if n = 1 then [''mono'']
      else let parts = map strip (split_plus layout) in
        if layout \<noteq> [] \<and> layout \<noteq> ''unknown'' \<and> length parts = n then parts
        else map (\<lambda>i. ''ch'' @ digits i) [0..<n])"

text \<open>\<open>report.get(key) or {}\<close> and \<open>str(value.get(key) or default)\<close>.\<close>

definition sub_object :: "(string \<times> json) list \<Rightarrow> string \<Rightarrow> (string \<times> json) list res" where
  "sub_object d k =
     (case map_of d k of
        None \<Rightarrow> Inr []
      | Some v \<Rightarrow> if \<not> json_truth v then Inr []
          else (case v of JObj e \<Rightarrow> Inr e | _ \<Rightarrow> Inl AttributeError))"

definition str_or :: "(json \<Rightarrow> string) \<Rightarrow> (string \<times> json) list \<Rightarrow> string \<Rightarrow> string \<Rightarrow> string res" where
  "str_or show_json d k default_text =
     field_or d k default_text (\<lambda>v. Inr (text_value show_json v))"

text \<open>\<open>streams[0].get\<close>: only a list whose first member is an object can be read.\<close>

definition first_stream :: "(string \<times> json) list \<Rightarrow> (string \<times> json) list res" where
  "first_stream report =
     (case map_of report ''streams'' of
        None \<Rightarrow> Inl (Sastt UnsupportedAudioFormatError)
      | Some v \<Rightarrow>
          if \<not> json_truth v then Inl (Sastt UnsupportedAudioFormatError)
          else (case v of
              JList (JObj s # _) \<Rightarrow> Inr s
            | JList _ \<Rightarrow> Inl AttributeError
            | JStr _ \<Rightarrow> Inl AttributeError
            | JObj _ \<Rightarrow> Inl KeyError
            | _ \<Rightarrow> Inl TypeError))"

definition float_of :: "(string \<Rightarrow> real res) \<Rightarrow> json \<Rightarrow> real res" where
  "float_of of_text v =
     (case v of JInt n \<Rightarrow> Inr (of_int n) | JReal x \<Rightarrow> Inr x | JBool b \<Rightarrow> Inr (if b then 1 else 0)
        | JStr s \<Rightarrow> of_text s | _ \<Rightarrow> Inl TypeError)"

definition stated_duration :: "(string \<Rightarrow> real res) \<Rightarrow> (string \<times> json) list \<Rightarrow> real res" where
  "stated_duration of_text fmt =
     (case map_of fmt ''duration'' of
        None \<Rightarrow> Inr 0
      | Some v \<Rightarrow> if v = JNull \<or> v = JStr ''N/A'' then Inr 0 else float_of of_text v)"

definition read_report :: "ffmpeg_decoder \<Rightarrow> (string \<times> json) list \<Rightarrow> probe_report res" where
  "read_report f report =
     bindR (first_stream report) (\<lambda>stream.
     bindR (field_or stream ''channels'' 0 json_int) (\<lambda>channels.
     bindR (guardR (channels < int MIN_CHANNELS \<or> int MAX_CHANNELS < channels)
              (Sastt InvalidChannelLayoutError)) (\<lambda>_.
     bindR (field_or stream ''sample_rate'' 0 json_int) (\<lambda>rate.
     bindR (guardR (\<not> (MIN_INPUT_SAMPLE_RATE \<le> rate \<and> rate \<le> MAX_INPUT_SAMPLE_RATE))
              (Sastt UnsupportedAudioFormatError)) (\<lambda>_.
     bindR (sub_object report ''format'') (\<lambda>fmt.
     bindR (stated_duration (fd_float f) fmt) (\<lambda>duration.
     bindR (guardR (duration < 0) (Sastt UnsupportedAudioFormatError)) (\<lambda>_.
     bindR (guardR (fd_max_hours f * 3600 < duration) (Sastt AudioTooLongError)) (\<lambda>_.
     bindR (str_or (fd_show f) stream ''channel_layout'' []) (\<lambda>layout.
     bindR (str_or (fd_show f) stream ''codec_name'' ''unknown'') (\<lambda>codec.
     bindR (str_or (fd_show f) fmt ''format_name'' ''unknown'') (\<lambda>name.
       Inr \<lparr>pb_channels = channels, pb_rate = rate, pb_codec = codec, pb_format = name,
            pb_layout = channel_names (nat channels) layout\<rparr>))))))))))))"

definition probe :: "ffmpeg_decoder \<Rightarrow> bytes \<Rightarrow> probe_report res" where
  "probe f payload =
     (case fd_probe f payload of
        TimedOut \<Rightarrow> Inl (Sastt UnsupportedAudioFormatError)
      | Exited code report \<Rightarrow>
          if code \<noteq> 0 then Inl (Sastt UnsupportedAudioFormatError)
          else (case report of
              None \<Rightarrow> Inl ValueError
            | Some (JObj d) \<Rightarrow> read_report f d
            | Some v \<Rightarrow> Inl AttributeError))"

section \<open>Samples\<close>

text \<open>A single precision number of four bytes, least significant first.\<close>

definition float32 :: "bytes \<Rightarrow> sample" where
  "float32 b =
     (let w = nat (le_value b); sign = (if w < 2 ^ 31 then 1 else - 1); e = (w div 2 ^ 23) mod 2 ^ 8; m = w mod 2 ^ 23 in
      if e = 255 then NonFinite
      else if e = 0 then Fin (sign * real m * 2 powi (- 149))
      else Fin (sign * real (2 ^ 23 + m) * 2 powi (int e - 150)))"

fun floats32 :: "bytes \<Rightarrow> sample list" where
  "floats32 (a # b # c # d # rest) = float32 [a, b, c, d] # floats32 rest"
| "floats32 _ = []"

text \<open>\<open>flat[:usable].reshape(-1, channels).T\<close>.\<close>

definition deinterleave :: "nat \<Rightarrow> 'a list \<Rightarrow> 'a list list" where
  "deinterleave n flat = map (\<lambda>c. map (\<lambda>i. flat ! (i * n + c)) [0..<length flat div n]) [0..<n]"

definition decode_samples :: "ffmpeg_decoder \<Rightarrow> bytes \<Rightarrow> probe_report \<Rightarrow> sample list list res" where
  "decode_samples f payload p =
     (case fd_decode f payload (pb_channels p) (pb_rate p) of
        TimedOut \<Rightarrow> Inl (Sastt UnsupportedAudioFormatError)
      | Exited code out \<Rightarrow>
          if code \<noteq> 0 \<or> out = [] then Inl (Sastt UnsupportedAudioFormatError)
          else if length out mod 4 \<noteq> 0 then Inl ValueError
          else let arr = deinterleave (nat (pb_channels p)) (floats32 out) in
            if \<exists>row\<in>set arr. NonFinite \<in> set row then Inl (Sastt UnsupportedAudioFormatError) else Inr arr)"

definition to_canonical_mono :: "ffmpeg_decoder \<Rightarrow> audio_buffer \<Rightarrow> audio_buffer res" where
  "to_canonical_mono f b =
     bindR (to_mono b) (\<lambda>m.
       let mono = hd (samples m); divisor = gcd CANONICAL_SAMPLE_RATE (sample_rate b);
           out = (if sample_rate b = CANONICAL_SAMPLE_RATE then mono
                  else fd_resample f mono (CANONICAL_SAMPLE_RATE div divisor) (sample_rate b div divisor)) in
       mk_audio_buffer [out] CANONICAL_SAMPLE_RATE 0 [''mono''] (source_clock_hz b))"

definition decode_audio :: "ffmpeg_decoder \<Rightarrow> unit res \<Rightarrow> bytes \<Rightarrow> string option \<Rightarrow> audio_asset res" where
  "decode_audio f check payload hint =
     bindR check (\<lambda>_.
     bindR (guardR (payload = []) (Sastt UnsupportedAudioFormatError)) (\<lambda>_.
     bindR (guardR (fd_max_bytes f < length payload) (Sastt UnsupportedAudioFormatError)) (\<lambda>_.
     bindR (probe f payload) (\<lambda>p.
     bindR (decode_samples f payload p) (\<lambda>arr.
     bindR (mk_audio_buffer arr (pb_rate p) 0 (pb_layout p) (pb_rate p)) (\<lambda>original.
     bindR (to_canonical_mono f original) (\<lambda>mono.
     bindR (measure_quality mono 0 (99 / 100) None) (\<lambda>q.
       mk_audio_asset original mono (fd_sha256 f payload) (or_else hint (pb_format p)) q (pb_layout p)))))))))"

section \<open>Raw samples\<close>

record raw_decoder =
  rw_rate :: int
  rw_channels :: int
  rw_sha256 :: "bytes \<Rightarrow> string"

definition raw_layout :: "int \<Rightarrow> string list" where
  "raw_layout n = (if 1 < n then map (\<lambda>i. ''ch'' @ digits i) [0..<nat n] else [''mono''])"

definition decode_raw :: "raw_decoder \<Rightarrow> unit res \<Rightarrow> bytes \<Rightarrow> string option \<Rightarrow> audio_asset res" where
  "decode_raw d check payload hint =
     bindR check (\<lambda>_.
     bindR (guardR (payload = []) (Sastt UnsupportedAudioFormatError)) (\<lambda>_.
     bindR (guardR (rw_channels d = 0) ZeroDivisionError) (\<lambda>_.
     bindR (guardR (int (length payload) mod (2 * rw_channels d) \<noteq> 0) (Sastt UnsupportedAudioFormatError)) (\<lambda>_.
     bindR (guardR (\<not> (1 \<le> rw_channels d \<and> rw_channels d \<le> 8)) (Sastt InvalidChannelLayoutError)) (\<lambda>_.
     bindR (mk_audio_buffer (deinterleave (nat (rw_channels d)) (pcm_samples payload)) (rw_rate d) 0
              (raw_layout (rw_channels d)) (rw_rate d)) (\<lambda>original.
     bindR (guardR (rw_rate d \<noteq> CANONICAL_SAMPLE_RATE) (Sastt UnsupportedAudioFormatError)) (\<lambda>_.
     bindR (to_mono original) (\<lambda>mono.
     bindR (measure_quality mono 0 (99 / 100) None) (\<lambda>q.
       mk_audio_asset original mono (rw_sha256 d payload) (or_else hint ''pcm_s16le'') q
         (raw_layout (rw_channels d)))))))))))"

end
