(* ===== verification/DecoderProps.thy ===== *)
theory DecoderProps
  imports Decoder
begin

text \<open>
  What the decoder promises: the samples of the asset are the interleaved samples of the program, the
  derived buffer is mono at 16 kHz, the bounds on the input hold, and where the duration ceiling does
  not reach.
\<close>

section \<open>Interleaved samples\<close>

definition interleave :: "'a list list \<Rightarrow> 'a list" where
  "interleave arr =
     concat (map (\<lambda>i. map (\<lambda>row. row ! i) arr) [0..<row_length arr])"

lemma length_deinterleave [simp]: "length (deinterleave n flat) = n"
  by (simp add: deinterleave_def)

lemma nth_deinterleave [simp]:
  "c < n \<Longrightarrow> i < length flat div n \<Longrightarrow> deinterleave n flat ! c ! i = flat ! (i * n + c)"
  by (simp add: deinterleave_def)

lemma deinterleave_rectangular: "rectangular (deinterleave n flat)"
  by (auto simp: rectangular_def deinterleave_def hd_map)

lemma row_length_deinterleave: "0 < n \<Longrightarrow> row_length (deinterleave n flat) = length flat div n"
  by (auto simp: row_length_def deinterleave_def hd_map split: list.splits simp del: upt_Suc)

lemma nth_concat_columns:
  "(\<And>i. i < k \<Longrightarrow> length (f i) = n) \<Longrightarrow> c < n \<Longrightarrow> i < k \<Longrightarrow>
     concat (map f [0..<k]) ! (i * n + c) = f i ! c"
proof (induction k)
  case (Suc k)
  have len: "length (concat (map f [0..<k])) = k * n"
    using Suc.prems(1) by (induction k) auto
  show ?case
  proof (cases "i = k")
    case False
    then have "i < k" using Suc.prems by simp
    then have "i * n + c < k * n"
      using Suc.prems(2) by (metis add.commute add_less_cancel_left less_le_trans mult_Suc Suc_leI mult_le_mono1)
    then show ?thesis using Suc \<open>i < k\<close> len by (simp add: nth_append)
  qed (use len Suc.prems in \<open>simp add: nth_append\<close>)
qed simp

lemma deinterleave_interleave:
  assumes "rectangular arr" and "arr \<noteq> []"
  shows "deinterleave (length arr) (interleave arr) = arr"
proof -
  have rows: "length (arr ! c) = row_length arr" if "c < length arr" for c
    using assms that nth_mem[OF that] by (cases arr) (auto simp: rectangular_def row_length_def)
  have len: "length (interleave arr) = row_length arr * length arr"
    by (simp add: interleave_def length_concat comp_def sum_list_triv)
  show ?thesis
    using assms rows len
    by (auto simp: deinterleave_def interleave_def nth_concat_columns intro!: nth_equalityI)
qed

section \<open>The asset\<close>

lemma to_canonical_mono_shape:
  assumes "to_canonical_mono f b = Inr m"
  shows "valid_buffer m \<and> is_mono m \<and> sample_rate m = CANONICAL_SAMPLE_RATE \<and> start_sample m = 0
    \<and> source_clock_hz m = source_clock_hz b"
  using assms mk_audio_buffer_valid
  by (auto simp: to_canonical_mono_def bindR_eq_Inr Let_def mk_audio_buffer_eq_Inr is_mono_def
      num_channels_def)

lemma read_report_bounds:
  assumes "read_report f d = Inr p"
  shows "int MIN_CHANNELS \<le> pb_channels p \<and> pb_channels p \<le> int MAX_CHANNELS
    \<and> MIN_INPUT_SAMPLE_RATE \<le> pb_rate p \<and> pb_rate p \<le> MAX_INPUT_SAMPLE_RATE
    \<and> (\<exists>layout. pb_layout p = channel_names (nat (pb_channels p)) layout)"
  using assms unfolding read_report_def
  by (elim bindR_InrE) (auto simp: not_less)

lemma probe_bounds:
  assumes "probe f payload = Inr p"
  shows "int MIN_CHANNELS \<le> pb_channels p \<and> pb_channels p \<le> int MAX_CHANNELS
    \<and> MIN_INPUT_SAMPLE_RATE \<le> pb_rate p \<and> pb_rate p \<le> MAX_INPUT_SAMPLE_RATE
    \<and> (\<exists>layout. pb_layout p = channel_names (nat (pb_channels p)) layout)"
proof -
  obtain d where "read_report f d = Inr p"
    using assms by (auto simp: probe_def split: run.splits if_splits option.splits json.splits)
  then show ?thesis by (rule read_report_bounds)
qed

lemma decode_samples_eq_Inr:
  "decode_samples f payload p = Inr arr \<longleftrightarrow>
     (\<exists>out. fd_decode f payload (pb_channels p) (pb_rate p) = Exited 0 out \<and> out \<noteq> []
        \<and> length out mod 4 = 0 \<and> arr = deinterleave (nat (pb_channels p)) (floats32 out)
        \<and> (\<forall>row\<in>set arr. NonFinite \<notin> set row))"
  by (auto simp: decode_samples_def Let_def split: run.splits if_splits)

lemma decode_audio_steps:
  assumes "decode_audio f check payload hint = Inr a"
  obtains p out where "check = Inr ()" and "payload \<noteq> []" and "length payload \<le> fd_max_bytes f"
    and "probe f payload = Inr p"
    and "fd_decode f payload (pb_channels p) (pb_rate p) = Exited 0 out"
    and "samples (original a) = deinterleave (nat (pb_channels p)) (floats32 out)"
    and "sample_rate (original a) = pb_rate p" and "start_sample (original a) = 0"
    and "channel_layout (original a) = pb_layout p" and "source_clock_hz (original a) = pb_rate p"
    and "valid_buffer (original a)" and "to_canonical_mono f (original a) = Inr (mono_16k a)"
    and "input_sha256 a = fd_sha256 f payload"
    and "channel_map a = pb_layout p"
proof -
  from assms obtain p arr orig deriv q where
    pre: "check = Inr ()" "payload \<noteq> []" "length payload \<le> fd_max_bytes f" "probe f payload = Inr p"
    and arr: "decode_samples f payload p = Inr arr"
    and orig: "mk_audio_buffer arr (pb_rate p) 0 (pb_layout p) (pb_rate p) = Inr orig"
    and deriv: "to_canonical_mono f orig = Inr deriv"
    and asset: "mk_audio_asset orig deriv (fd_sha256 f payload) (or_else hint (pb_format p)) q (pb_layout p)
      = Inr a"
    unfolding decode_audio_def by (elim bindR_InrE) (auto simp: not_less)
  have parts: "original a = orig" "mono_16k a = deriv" "input_sha256 a = fd_sha256 f payload"
    "channel_map a = (if pb_layout p = [] then channel_layout orig else pb_layout p)"
    using asset by (auto simp: mk_audio_asset_def split: if_splits)
  show ?thesis
    using pre arr orig deriv parts mk_audio_buffer_valid[OF orig] that
    by (auto simp: decode_samples_eq_Inr mk_audio_buffer_eq_Inr)
qed


section \<open>An example\<close>

text \<open>Two channels at 16 kHz: a program that reports them and writes two frames.\<close>

definition stereo_report :: "(string \<times> json) list \<Rightarrow> json" where
  "stereo_report fmt =
     JObj [(''streams'', JList [JObj [(''channels'', JInt 2), (''sample_rate'', JStr ''16000''),
             (''channel_layout'', JStr ''FL+FR''), (''codec_name'', JStr ''flac'')]]),
           (''format'', JObj ((''format_name'', JStr ''flac'') # fmt))]"

definition stereo_decoder :: "real \<Rightarrow> (string \<times> json) list \<Rightarrow> ffmpeg_decoder" where
  "stereo_decoder hours fmt =
     \<lparr>fd_max_hours = hours, fd_max_bytes = 10, fd_probe = (\<lambda>b. Exited 0 (Some (stereo_report fmt))),
      fd_decode = (\<lambda>b n r. Exited 0 [0, 0, 0, 63, 0, 0, 0, 63, 0, 0, 0, 63, 0, 0, 0, 63]), fd_show = (\<lambda>v. []),
      fd_float = (\<lambda>s. Inl ValueError), fd_sha256 = (\<lambda>b. ''00''), fd_resample = (\<lambda>xs up down. xs)\<rparr>"

lemma half_float: "float32 [0, 0, 0, 63] = Fin (1 / 2)"
  by (simp add: float32_def le_value_def Let_def power_int_def power_divide)

lemma stereo_probe:
  "probe (stereo_decoder 4 []) [1] =
     Inr \<lparr>pb_channels = 2, pb_rate = 16000, pb_codec = ''flac'', pb_format = ''flac'', pb_layout = [''FL'', ''FR'']\<rparr>"
proof -
  have rate: "int_of_text ''16000'' = Inr 16000" by code_simp
  have names: "channel_names 2 ''FL+FR'' = [''FL'', ''FR'']" by code_simp
  show ?thesis
    by (simp add: probe_def stereo_decoder_def stereo_report_def read_report_def first_stream_def
        field_or_def json_int_def rate MIN_CHANNELS_def MAX_CHANNELS_def MIN_INPUT_SAMPLE_RATE_def
        MAX_INPUT_SAMPLE_RATE_def sub_object_def stated_duration_def str_or_def text_value_def names)
qed

lemma stereo_samples:
  "decode_samples (stereo_decoder 4 []) [1]
     \<lparr>pb_channels = 2, pb_rate = 16000, pb_codec = ''flac'', pb_format = ''flac'', pb_layout = [''FL'', ''FR'']\<rparr>
   = Inr [[Fin (1 / 2), Fin (1 / 2)], [Fin (1 / 2), Fin (1 / 2)]]"
proof -
  have frames: "deinterleave 2 [a, b, c, d] = [[a, c], [b, d]]" for a b c d :: sample
  proof -
    have two: "[0..<2] = [0, 1::nat]" by code_simp
    show ?thesis by (simp add: deinterleave_def two)
  qed
  show ?thesis
    by (simp add: decode_samples_def stereo_decoder_def half_float frames)
qed

lemma stereo_decodes: "\<exists>a. decode_audio (stereo_decoder 4 []) (Inr ()) [1] None = Inr a"
proof -
  let ?rows = "[[Fin (1 / 2), Fin (1 / 2)], [Fin (1 / 2), Fin (1 / 2)]]"
  let ?b = "\<lparr>samples = ?rows, sample_rate = 16000, start_sample = 0, channel_layout = [''FL'', ''FR''],
              source_clock_hz = 16000\<rparr>"
  have valid: "mk_audio_buffer ?rows 16000 0 [''FL'', ''FR''] 16000 = Inr ?b"
    by (simp add: mk_audio_buffer_eq_Inr rectangular_def row_length_def MIN_CHANNELS_def MAX_CHANNELS_def)
  have deriv: "\<exists>m. to_canonical_mono (stereo_decoder 4 []) ?b = Inr m"
    by (simp add: to_canonical_mono_def to_mono_def is_mono_def num_channels_def downmix_def
        CANONICAL_SAMPLE_RATE_def mk_audio_buffer_eq_Inr rectangular_def row_length_def MIN_CHANNELS_def
        MAX_CHANNELS_def bindR_eq_Inr)
  then obtain m where m: "to_canonical_mono (stereo_decoder 4 []) ?b = Inr m" ..
  note shape = to_canonical_mono_shape[OF m]
  obtain q where q: "measure_quality m 0 (99 / 100) None = Inr q"
    using to_mono_valid[of m] shape by (auto simp: measure_quality_def Let_def)
  have limit: "fd_max_bytes (stereo_decoder 4 []) = 10"
    by (simp add: stereo_decoder_def)
  show ?thesis
    using shape by (simp add: decode_audio_def stereo_probe stereo_samples valid m q limit mk_audio_asset_def)
qed



section \<open>The duration ceiling\<close>

lemma read_report_ceiling:
  assumes "sub_object d ''format'' = Inr fmt" and "map_of fmt ''duration'' \<in> {None, Some JNull, Some (JStr ''N/A'')}"
    and "0 \<le> fd_max_hours f" and "0 \<le> h"
  shows "read_report (f\<lparr>fd_max_hours := h\<rparr>) d = read_report f d"
proof -
  have "stated_duration (fd_float f) fmt = Inr 0"
    using assms(2) by (auto simp: stated_duration_def)
  then show ?thesis using assms by (simp add: read_report_def)
qed

text \<open>
  The duration ceiling is the one the container states. If the report of the program gives no
  duration, or gives \<open>N/A\<close>, the decoder answers the same under every ceiling, so an input of any
  length passes it: only the size in bytes bounds what is decoded.
\<close>

theorem unstated_duration_escapes_ceiling:
  assumes "fd_probe f payload = Exited 0 (Some (JObj d))" and "sub_object d ''format'' = Inr fmt"
    and "map_of fmt ''duration'' \<in> {None, Some JNull, Some (JStr ''N/A'')}"
    and "0 \<le> fd_max_hours f" and "0 \<le> h"
  shows "decode_audio (f\<lparr>fd_max_hours := h\<rparr>) check payload hint = decode_audio f check payload hint"
proof -
  have same: "probe (f\<lparr>fd_max_hours := h\<rparr>) payload = probe f payload"
    using assms(1) read_report_ceiling[OF assms(2-5)] by (simp add: probe_def)
  have rest: "decode_samples (f\<lparr>fd_max_hours := h\<rparr>) = decode_samples f"
    "to_canonical_mono (f\<lparr>fd_max_hours := h\<rparr>) = to_canonical_mono f"
    by (simp_all add: fun_eq_iff decode_samples_def to_canonical_mono_def Let_def cong: if_cong)
  show ?thesis by (simp add: decode_audio_def same rest)
qed

theorem unstated_duration_escapes_ceiling_witness:
  "decode_audio (stereo_decoder 0 []) (Inr ()) [1] None = decode_audio (stereo_decoder 4 []) (Inr ()) [1] None
     \<and> (\<exists>a. decode_audio (stereo_decoder 4 []) (Inr ()) [1] None = Inr a)"
proof -
  have zero: "stereo_decoder 0 [] = (stereo_decoder 4 [])\<lparr>fd_max_hours := 0\<rparr>"
    by (simp add: stereo_decoder_def)
  let ?d = "[(''streams'', JList [JObj [(''channels'', JInt 2), (''sample_rate'', JStr ''16000''),
               (''channel_layout'', JStr ''FL+FR''), (''codec_name'', JStr ''flac'')]]),
             (''format'', JObj [(''format_name'', JStr ''flac'')])]"
  have "decode_audio ((stereo_decoder 4 [])\<lparr>fd_max_hours := 0\<rparr>) (Inr ()) [1] None
      = decode_audio (stereo_decoder 4 []) (Inr ()) [1] None"
  proof (rule unstated_duration_escapes_ceiling)
    show "fd_probe (stereo_decoder 4 []) [1] = Exited 0 (Some (JObj ?d))"
      by (simp add: stereo_decoder_def stereo_report_def)
    show "sub_object ?d ''format'' = Inr [(''format_name'', JStr ''flac'')]"
      by (simp add: sub_object_def)
  qed (simp_all add: stereo_decoder_def)
  with zero stereo_decodes show ?thesis by simp
qed

text \<open>An input whose container states more than the ceiling is refused before any sample is decoded.\<close>

lemma stated_duration_refused:
  assumes "read_report (f\<lparr>fd_max_hours := h\<rparr>) d = Inr p" and "sub_object d ''format'' = Inr fmt"
    and "stated_duration (fd_float f) fmt = Inr duration"
  shows "0 \<le> duration \<and> duration \<le> h * 3600"
  using assms unfolding read_report_def by (elim bindR_InrE) (auto simp: not_less)

section \<open>Raw samples\<close>

definition word_sample :: "16 Word.word \<Rightarrow> sample" where
  "word_sample w = Fin (of_int (sint w) / 32768)"

lemma pcm_samples_bytes16: "pcm_samples (concat (map bytes16 ws)) = map word_sample ws"
  by (induction ws) (simp_all add: bytes16_def word_sample_def le16_bytes16)

lemma length_bytes16: "length (concat (map bytes16 ws)) = 2 * length ws"
  by (induction ws) (simp_all add: bytes16_def)

lemma length_interleave:
  "rectangular arr \<Longrightarrow> length (interleave arr) = row_length arr * length arr"
  by (simp add: interleave_def length_concat comp_def sum_list_triv)

lemma rectangular_map: "rectangular (map (map f) arr) \<longleftrightarrow> rectangular arr"
  by (cases arr) (simp_all add: rectangular_def)

lemma row_length_map: "row_length (map (map f) arr) = row_length arr"
  by (cases arr) (simp_all add: row_length_def)

lemma map_interleave:
  assumes "rectangular arr"
  shows "map f (interleave arr) = interleave (map (map f) arr)"
proof -
  have "f (row ! i) = map f row ! i" if "row \<in> set arr" "i < row_length arr" for row i
    using assms that by (cases arr) (auto simp: rectangular_def row_length_def)
  then show ?thesis
    by (auto simp: interleave_def map_concat row_length_map intro!: arg_cong[where f = concat])
qed

lemma raw_layout_length: "0 < n \<Longrightarrow> length (raw_layout n) = nat n"
  by (auto simp: raw_layout_def)

text \<open>
  Raw samples decode to themselves. One to eight channels of equally many 16-bit samples, written
  frame by frame as two bytes each, decode at 16 kHz to a buffer with exactly these channels, each
  sample its signed value over 32768, and the buffer is named after its channels.
\<close>

theorem raw_frames_decode:
  assumes "rectangular arr" and "1 \<le> length arr" and "length arr \<le> 8" and "0 < row_length arr"
  shows "\<exists>a. decode_raw \<lparr>rw_rate = 16000, rw_channels = int (length arr), rw_sha256 = sha\<rparr> (Inr ())
           (concat (map bytes16 (interleave arr))) hint = Inr a
         \<and> samples (original a) = map (map word_sample) arr
         \<and> valid_buffer (mono_16k a) \<and> num_samples (mono_16k a) = row_length arr
         \<and> channel_map a = raw_layout (int (length arr))"
proof -
  let ?rows = "map (map word_sample) arr" and ?n = "int (length arr)"
  define payload where "payload = concat (map bytes16 (interleave arr))"
  let ?b = "\<lparr>samples = ?rows, sample_rate = 16000, start_sample = 0, channel_layout = raw_layout ?n,
              source_clock_hz = 16000\<rparr>"
  have ne: "arr \<noteq> []" using assms(2) by auto
  have rect: "rectangular ?rows" and rows: "row_length ?rows = row_length arr"
    using assms(1) by (simp_all add: rectangular_map row_length_map)
  have len: "length payload = 2 * (row_length arr * length arr)"
    by (simp add: payload_def length_bytes16 length_interleave[OF assms(1)])
  have bytes: "payload \<noteq> []"
  proof -
    have "0 < length payload" unfolding len using ne assms(4) by simp
    then show ?thesis by simp
  qed
  have aligned: "int (length payload) mod (2 * ?n) = 0" unfolding len by simp
  have decoded: "deinterleave (length arr) (pcm_samples payload) = ?rows"
    using deinterleave_interleave[OF rect] ne by (simp add: payload_def pcm_samples_bytes16 flip: map_interleave[OF assms(1)])
  have buffer_: "mk_audio_buffer ?rows 16000 0 (raw_layout ?n) 16000 = Inr ?b"
    using assms rect rows ne
    by (auto simp: mk_audio_buffer_eq_Inr MIN_CHANNELS_def MAX_CHANNELS_def raw_layout_length word_sample_def)
  obtain m where m: "to_mono ?b = Inr m" "valid_buffer m" "is_mono m" "num_samples m = row_length arr"
    "sample_rate m = 16000"
    using to_mono_valid[OF mk_audio_buffer_valid[OF buffer_]] rows by (auto simp: num_samples_def)
  obtain q where q: "measure_quality m 0 (99 / 100) None = Inr q"
    using m(3) by (auto simp: measure_quality_def to_mono_def Let_def)
  have layout: "raw_layout ?n \<noteq> []" using raw_layout_length[of ?n] ne by (metis length_greater_0_conv nat_int list.size(3) of_nat_0_less_iff)
  show ?thesis
    unfolding payload_def[symmetric] using ne assms(2,3) m q bytes aligned decoded buffer_ layout
    by (simp add: decode_raw_def CANONICAL_SAMPLE_RATE_def mk_audio_asset_def)
qed

theorem raw_frames_decode_witness:
  "\<exists>a. decode_raw \<lparr>rw_rate = 16000, rw_channels = 2, rw_sha256 = (\<lambda>b. [])\<rparr> (Inr ())
         (concat (map bytes16 (interleave [[1, 2], [3, - 4]]))) None = Inr a
       \<and> samples (original a) = [map word_sample [1, 2], map word_sample [3, - 4]]"
  using raw_frames_decode[of "[[1, 2], [3, - 4]]" "\<lambda>b. []" None]
  by (auto simp: rectangular_def row_length_def)

end
