(* ===== verification/Observability.thy ===== *)
theory Observability
  imports Effects "HOL-Library.AList"
begin

text \<open>
  Metrics and call contexts (\<^verbatim>\<open>src/src/sastt/observability.py\<close>). A dictionary of labels is an association
  list with distinct keys in the order of the call; the collector keeps counters and gauges under the
  sorted labels. \<open>str\<close> of a float, SHA-256, the clock and the memory PyTorch reports are parameters.
  A cancellation token is shared by reference: a context holds the number of its token, and the state
  is the set of the tokens that were cancelled.
\<close>

section \<open>Metrics\<close>

type_synonym labels = "(string \<times> string) list"
type_synonym metric_series = "string \<times> (string \<times> string) list"

definition METRIC_STAGE_DURATION :: string where "METRIC_STAGE_DURATION = ''sastt_stage_duration_seconds''"
definition METRIC_STAGE_RTF :: string where "METRIC_STAGE_RTF = ''sastt_stage_rtf''"
definition METRIC_GPU_VRAM_BYTES :: string where "METRIC_GPU_VRAM_BYTES = ''sastt_gpu_vram_bytes''"

definition FORBIDDEN_METRIC_LABELS :: "string list" where
  "FORBIDDEN_METRIC_LABELS =
     [''speaker_name'', ''text'', ''transcript'', ''registry_speaker_id'', ''external_id'', ''embedding'']"

definition check_labels :: "labels \<Rightarrow> unit res" where
  "check_labels ls =
     guardR (list_ex (\<lambda>k. k \<in> set FORBIDDEN_METRIC_LABELS) (map fst ls)) (Sastt PlainSasttError)"

record metrics_sink =
  mt_counters :: "(metric_series \<times> real) list"
  mt_observations :: "(string \<times> real \<times> labels) list"
  mt_gauges :: "(metric_series \<times> real) list"

definition metric_key :: "string \<Rightarrow> labels \<Rightarrow> metric_series" where
  "metric_key name ls = (name, sort ls)"

definition counter_of :: "metric_series \<Rightarrow> metrics_sink \<Rightarrow> real" where
  "counter_of k m = (case map_of (mt_counters m) k of None \<Rightarrow> 0 | Some v \<Rightarrow> v)"

definition increment :: "string \<Rightarrow> real \<Rightarrow> labels \<Rightarrow> (metrics_sink, unit) action" where
  "increment name v ls =
     bindS (liftS (check_labels ls)) (\<lambda>_. modifyS (\<lambda>m.
       let k = metric_key name ls in m\<lparr>mt_counters := AList.update k (counter_of k m + v) (mt_counters m)\<rparr>))"

definition observe :: "string \<Rightarrow> real \<Rightarrow> labels \<Rightarrow> (metrics_sink, unit) action" where
  "observe name v ls =
     bindS (liftS (check_labels ls)) (\<lambda>_. modifyS (\<lambda>m.
       m\<lparr>mt_observations := mt_observations m @ [(name, v, ls)]\<rparr>))"

definition gauge :: "string \<Rightarrow> real \<Rightarrow> labels \<Rightarrow> (metrics_sink, unit) action" where
  "gauge name v ls =
     bindS (liftS (check_labels ls)) (\<lambda>_. modifyS (\<lambda>m.
       m\<lparr>mt_gauges := AList.update (metric_key name ls) v (mt_gauges m)\<rparr>))"

definition counter_value :: "string \<Rightarrow> labels \<Rightarrow> metrics_sink \<Rightarrow> real" where
  "counter_value name ls m = counter_of (metric_key name ls) m"

text \<open>The context manager: the measurements are taken whether the block returns or raises.\<close>

definition stage_labels :: "string \<Rightarrow> labels \<Rightarrow> labels res" where
  "stage_labels stage ls =
     bindR (guardR (''name'' \<in> fst ` set ls \<or> ''value'' \<in> fst ` set ls) TypeError)
       (\<lambda>_. Inr ((''stage'', stage) # ls))"

definition report_stage :: "string \<Rightarrow> real \<Rightarrow> real option \<Rightarrow> labels \<Rightarrow> (metrics_sink, unit) action" where
  "report_stage stage elapsed duration ls =
     bindS (liftS (stage_labels stage ls)) (\<lambda>all_labels.
     bindS (observe METRIC_STAGE_DURATION elapsed all_labels) (\<lambda>_.
       case duration of
         None \<Rightarrow> returnS ()
       | Some d \<Rightarrow> if 0 < d then observe METRIC_STAGE_RTF (elapsed / d) all_labels else returnS ()))"

definition observe_stage ::
  "string \<Rightarrow> real \<Rightarrow> real \<Rightarrow> real option \<Rightarrow> labels \<Rightarrow> (metrics_sink, 'a) action \<Rightarrow> (metrics_sink, 'a) action" where
  "observe_stage stage started ended duration ls block m =
     (case block m of
        (m1, r) \<Rightarrow>
          (case report_stage stage (max 0 (ended - started)) duration ls m1 of
             (m2, Inl e) \<Rightarrow> (m2, Inl e)
           | (m2, Inr u) \<Rightarrow> (m2, r)))"

definition observe_gpu_memory :: "(string \<Rightarrow> real option) \<Rightarrow> string \<Rightarrow> (metrics_sink, bool) action" where
  "observe_gpu_memory allocated device =
     (case allocated device of
        None \<Rightarrow> returnS False
      | Some v \<Rightarrow> bindS (gauge METRIC_GPU_VRAM_BYTES v [(''device'', device)]) (\<lambda>_. returnS True))"

section \<open>The exposition\<close>

definition replace_char :: "char \<Rightarrow> string \<Rightarrow> string \<Rightarrow> string" where
  "replace_char c new s = concat (map (\<lambda>d. if d = c then new else [d]) s)"

definition backslash :: char where "backslash = CHR 92"
definition newline :: char where "newline = CHR 10"
definition quote :: char where "quote = CHR 34"

definition escape_value :: "string \<Rightarrow> string" where
  "escape_value v =
     replace_char quote [backslash, quote]
       (replace_char newline [backslash, CHR ''n''] (replace_char backslash [backslash, backslash] v))"

definition label_text :: "string \<times> string \<Rightarrow> string" where
  "label_text kv = fst kv @ ''='' @ [quote] @ escape_value (snd kv) @ [quote]"

definition prometheus_labels :: "labels \<Rightarrow> string" where
  "prometheus_labels ls =
     (if ls = [] then [] else ''{'' @ join '','' (map label_text (sort ls)) @ ''}'')"

text \<open>\<open>declare\<close>: the lines so far and the names that have a type line.\<close>

definition declare_type :: "string \<Rightarrow> string \<Rightarrow> string list \<times> string list \<Rightarrow> string list \<times> string list" where
  "declare_type name kind st =
     (if name \<in> set (snd st) then st
      else (fst st @ [''# TYPE '' @ name @ '' '' @ kind], snd st @ [name]))"

definition emit_sample ::
  "(real \<Rightarrow> string) \<Rightarrow> string \<Rightarrow> metric_series \<times> real \<Rightarrow> string list \<times> string list \<Rightarrow> string list \<times> string list" where
  "emit_sample show kind kv st =
     (let name = fst (fst kv); st' = declare_type name kind st in
      (fst st' @ [name @ prometheus_labels (snd (fst kv)) @ '' '' @ show (snd kv)], snd st'))"

definition grouped_observations :: "metrics_sink \<Rightarrow> (metric_series \<times> real list) list" where
  "grouped_observations m =
     (let keyed = map (\<lambda>(name, v, ls). (metric_key name ls, v)) (mt_observations m) in
      map (\<lambda>k. (k, map snd (filter (\<lambda>kv. fst kv = k) keyed))) (nub (map fst keyed)))"

definition emit_summary ::
  "(real \<Rightarrow> string) \<Rightarrow> metric_series \<times> real list \<Rightarrow> string list \<times> string list \<Rightarrow> string list \<times> string list" where
  "emit_summary show kvs st =
     (let name = fst (fst kvs); st' = declare_type name ''summary'' st;
          ls = prometheus_labels (snd (fst kvs)) in
      (fst st' @ [name @ ''_count'' @ ls @ '' '' @ digits (length (snd kvs)),
                  name @ ''_sum'' @ ls @ '' '' @ show (sum_list (snd kvs))], snd st'))"

definition render_lines :: "(real \<Rightarrow> string) \<Rightarrow> metrics_sink \<Rightarrow> string list" where
  "render_lines show m =
     (let st1 = fold (emit_sample show ''counter'') (sort_key fst (mt_counters m)) ([], []);
          st2 = fold (emit_sample show ''gauge'') (sort_key fst (mt_gauges m)) st1
      in fst (fold (emit_summary show) (sort_key fst (grouped_observations m)) st2))"

definition render :: "(real \<Rightarrow> string) \<Rightarrow> metrics_sink \<Rightarrow> string" where
  "render show m =
     (let ls = render_lines show m in join [newline] ls @ (if ls = [] then [] else [newline]))"

section \<open>Call contexts\<close>

definition tenant_hash :: "(string \<Rightarrow> string) \<Rightarrow> string \<Rightarrow> string" where
  "tenant_hash sha256_hex tenant = take 16 (sha256_hex tenant)"

record 'm call_context =
  cc_stage :: string
  cc_timeout_seconds :: real
  cc_tenant_hash :: "string option"
  cc_session_id :: "string option"
  cc_job_id :: "string option"
  cc_model_release_id :: "string option"
  cc_audio_duration_ms :: "int option"
  cc_cancellation :: nat
  cc_metrics :: 'm
  cc_started_monotonic :: real

definition cancel :: "nat \<Rightarrow> nat set \<Rightarrow> nat set" where
  "cancel token cancelled = insert token cancelled"

definition is_cancelled :: "nat \<Rightarrow> nat set \<Rightarrow> bool" where
  "is_cancelled token cancelled \<longleftrightarrow> token \<in> cancelled"

definition raise_if_cancelled :: "nat \<Rightarrow> nat set \<Rightarrow> unit res" where
  "raise_if_cancelled token cancelled = guardR (token \<in> cancelled) (Sastt CancelledError)"

definition check_context :: "'m call_context \<Rightarrow> nat set \<Rightarrow> unit res" where
  "check_context ctx cancelled = raise_if_cancelled (cc_cancellation ctx) cancelled"

definition deadline_exceeded :: "'m call_context \<Rightarrow> real \<Rightarrow> bool" where
  "deadline_exceeded ctx now \<longleftrightarrow> cc_timeout_seconds ctx < now - cc_started_monotonic ctx"

definition child_context :: "'m call_context \<Rightarrow> real \<Rightarrow> string \<Rightarrow> real option \<Rightarrow> 'm call_context" where
  "child_context ctx now stage timeout =
     \<lparr>cc_stage = stage,
      cc_timeout_seconds = (case timeout of Some t \<Rightarrow> t | None \<Rightarrow> cc_timeout_seconds ctx),
      cc_tenant_hash = cc_tenant_hash ctx, cc_session_id = cc_session_id ctx, cc_job_id = cc_job_id ctx,
      cc_model_release_id = cc_model_release_id ctx, cc_audio_duration_ms = cc_audio_duration_ms ctx,
      cc_cancellation = cc_cancellation ctx, cc_metrics = cc_metrics ctx, cc_started_monotonic = now\<rparr>"

definition trace_fields :: "'m call_context \<Rightarrow> (string \<times> json) list" where
  "trace_fields ctx =
     [(''stage'', JStr (cc_stage ctx)), (''tenant_hash'', json_opt JStr (cc_tenant_hash ctx)),
      (''session_id'', json_opt JStr (cc_session_id ctx)), (''job_id'', json_opt JStr (cc_job_id ctx)),
      (''model_release_id'', json_opt JStr (cc_model_release_id ctx)),
      (''audio_duration_ms'', json_opt JInt (cc_audio_duration_ms ctx))]"

end
