(* ===== verification/ObservabilityProps.thy ===== *)
theory ObservabilityProps
  imports Observability
begin

text \<open>
  What the metrics promise: no forbidden label is ever recorded, counters add up, the text that is
  exposed can be read back, one sample per line, whatever the values of the labels are; and what a
  child context inherits.
\<close>

section \<open>Runs of the collector\<close>

datatype metric_call =
    Increment string real labels
  | Observe string real labels
  | Gauge string real labels
  | Gpu string
  | Stage string real real "real option" labels "metric_call list"

text \<open>A block stops at its first exception; the stage is measured then too.\<close>

fun metric_step :: "(string \<Rightarrow> real option) \<Rightarrow> metric_call \<Rightarrow> (metrics_sink, unit) action"
  and metric_block :: "(string \<Rightarrow> real option) \<Rightarrow> metric_call list \<Rightarrow> (metrics_sink, unit) action" where
  "metric_step gpu (Increment name v ls) = increment name v ls"
| "metric_step gpu (Observe name v ls) = observe name v ls"
| "metric_step gpu (Gauge name v ls) = gauge name v ls"
| "metric_step gpu (Gpu device) = bindS (observe_gpu_memory gpu device) (\<lambda>_. returnS ())"
| "metric_step gpu (Stage stage s e d ls block) = observe_stage stage s e d ls (metric_block gpu block)"
| "metric_block gpu [] = returnS ()"
| "metric_block gpu (c # cs) = bindS (metric_step gpu c) (\<lambda>_. metric_block gpu cs)"

text \<open>The caller goes on whatever a call answers.\<close>

definition metric_run :: "(string \<Rightarrow> real option) \<Rightarrow> metric_call list \<Rightarrow> metrics_sink \<Rightarrow> metrics_sink" where
  "metric_run gpu calls m = fold (\<lambda>c m. fst (metric_step gpu c m)) calls m"

definition empty_sink :: metrics_sink where
  "empty_sink = \<lparr>mt_counters = [], mt_observations = [], mt_gauges = []\<rparr>"

section \<open>Labels\<close>

definition allowed :: "labels \<Rightarrow> bool" where
  "allowed ls \<longleftrightarrow> fst ` set ls \<inter> set FORBIDDEN_METRIC_LABELS = {}"

definition allowed_counts :: "(metric_series \<times> real) list \<Rightarrow> bool" where
  "allowed_counts xs \<longleftrightarrow> (\<forall>kv\<in>set xs. allowed (snd (fst kv)))"

definition clean_sink :: "metrics_sink \<Rightarrow> bool" where
  "clean_sink m \<longleftrightarrow> allowed_counts (mt_counters m) \<and> allowed_counts (mt_gauges m)
     \<and> (\<forall>ob\<in>set (mt_observations m). allowed (snd (snd ob)))"

lemma check_labels_eq: "check_labels ls = (if allowed ls then Inr () else Inl (Sastt PlainSasttError))"
  by (auto simp: check_labels_def allowed_def list_ex_iff guardR_def)

lemma allowed_sort [simp]: "allowed (sort ls) = allowed ls"
  by (simp add: allowed_def)

definition stays_clean :: "metrics_sink \<Rightarrow> metrics_sink \<Rightarrow> bool" where
  "stays_clean m m' \<longleftrightarrow> (clean_sink m \<longrightarrow> clean_sink m')"

interpretation clean: state_relation stays_clean
  by unfold_locales (auto simp: stays_clean_def)

lemma allowed_counts_update:
  "allowed (snd k) \<Longrightarrow> allowed_counts xs \<Longrightarrow> allowed_counts (AList.update k v xs)"
  by (induction xs) (auto simp: allowed_counts_def)

lemma keeps_checked:
  assumes "\<And>m. allowed ls \<Longrightarrow> clean_sink m \<Longrightarrow> clean_sink (f m)"
  shows "clean.keeps (bindS (liftS (check_labels ls)) (\<lambda>_. modifyS f))"
  using assms by (auto simp: clean.keeps_def stays_clean_def bindS_def liftS_def modifyS_def check_labels_eq)

lemma increment_clean: "clean.keeps (increment name v ls)"
  unfolding increment_def
  by (rule keeps_checked) (simp add: clean_sink_def Let_def metric_key_def allowed_counts_update)

lemma gauge_clean: "clean.keeps (gauge name v ls)"
  unfolding gauge_def
  by (rule keeps_checked) (simp add: clean_sink_def Let_def metric_key_def allowed_counts_update)

lemma observe_clean: "clean.keeps (observe name v ls)"
  unfolding observe_def by (rule keeps_checked) (auto simp: clean_sink_def)

lemma report_stage_clean: "clean.keeps (report_stage stage elapsed duration ls)"
  unfolding report_stage_def by (intro clean.keeps_intros observe_clean)

lemma observe_stage_clean:
  assumes "clean.keeps block"
  shows "clean.keeps (observe_stage stage s e d ls block)"
  unfolding clean.keeps_def
proof
  fix m
  obtain m1 r where 1: "block m = (m1, r)" by fastforce
  obtain m2 r' where 2: "report_stage stage (max 0 (e - s)) d ls m1 = (m2, r')" by fastforce
  have "stays_clean m m2"
    using clean.keepsD[OF assms 1] clean.keepsD[OF report_stage_clean 2] by (simp add: stays_clean_def)
  then show "stays_clean m (fst (observe_stage stage s e d ls block m))"
    by (simp add: observe_stage_def 1 2 split: sum.splits)
qed

lemma gpu_clean: "clean.keeps (observe_gpu_memory gpu device)"
  unfolding observe_gpu_memory_def by (intro clean.keeps_intros gauge_clean)

lemma metric_step_clean:
  "clean.keeps (metric_step gpu c)" "clean.keeps (metric_block gpu cs)"
  by (induction gpu c and gpu cs rule: metric_step_metric_block.induct)
    (auto intro!: clean.keeps_bind clean.keeps_return increment_clean observe_clean gauge_clean
      observe_stage_clean gpu_clean)

text \<open>
  C27: No label that could name a person or carry what was said reaches the metrics. After any sequence of
  calls, with stages around blocks that may raise, no counter, gauge or observation has one of the
  forbidden labels, so none is in the text exposed to the outside.
\<close>

theorem no_forbidden_label_recorded:
  assumes "((name, ls), v) \<in> set (mt_counters (metric_run gpu calls empty_sink))
      \<union> set (mt_gauges (metric_run gpu calls empty_sink))
      \<union> (\<lambda>(name, v, ls). ((name, ls), v)) ` set (mt_observations (metric_run gpu calls empty_sink))"
    and "(key, text) \<in> set ls"
  shows "key \<notin> set FORBIDDEN_METRIC_LABELS"
proof -
  have "clean_sink m \<Longrightarrow> clean_sink (metric_run gpu calls m)" for m
  proof (induction calls arbitrary: m)
    case (Cons c cs)
    have "clean_sink (fst (metric_step gpu c m))"
      using metric_step_clean(1) Cons.prems unfolding clean.keeps_def stays_clean_def by blast
    then show ?case using Cons.IH by (simp add: metric_run_def)
  qed (simp add: metric_run_def)
  moreover have "clean_sink empty_sink" by (simp add: clean_sink_def allowed_counts_def empty_sink_def)
  ultimately have "clean_sink (metric_run gpu calls empty_sink)" by blast
  then have "allowed ls" using assms(1) unfolding clean_sink_def allowed_counts_def by force
  with assms(2) show ?thesis by (force simp: allowed_def)
qed

theorem no_forbidden_label_recorded_witness:
  "mt_counters (metric_run (\<lambda>d. None)
       [Increment ''c'' 1 [(''mode'', ''offline'')], Increment ''c'' 1 [(''text'', ''hello'')]] empty_sink)
     = [((''c'', [(''mode'', ''offline'')]), 1)]
   \<and> ''mode'' \<notin> set FORBIDDEN_METRIC_LABELS"
proof -
  let ?m = "metric_run (\<lambda>d. None)
       [Increment ''c'' 1 [(''mode'', ''offline'')], Increment ''c'' 1 [(''text'', ''hello'')]] empty_sink"
  have counters: "mt_counters ?m = [((''c'', [(''mode'', ''offline'')]), 1)]"
    by (simp add: metric_run_def empty_sink_def increment_def bindS_def liftS_def modifyS_def check_labels_def
        FORBIDDEN_METRIC_LABELS_def metric_key_def counter_of_def)
  then have "''mode'' \<notin> set FORBIDDEN_METRIC_LABELS"
    by (intro no_forbidden_label_recorded[of "''c''" "[(''mode'', ''offline'')]" 1 "\<lambda>d. None"
          "[Increment ''c'' 1 [(''mode'', ''offline'')], Increment ''c'' 1 [(''text'', ''hello'')]]"]) simp_all
  with counters show ?thesis by simp
qed

section \<open>Counters\<close>

definition contribution :: "metric_series \<Rightarrow> metric_call \<Rightarrow> real" where
  "contribution k c =
     (case c of Increment name v ls \<Rightarrow> if allowed ls \<and> metric_key name ls = k then v else 0 | _ \<Rightarrow> 0)"

lemma counter_of_increment:
  "counter_of k (fst (increment name v ls m)) = counter_of k m + contribution k (Increment name v ls)"
  by (simp add: increment_def bindS_def liftS_def modifyS_def check_labels_eq contribution_def counter_of_def
      update_conv' Let_def)

lemma observe_counters: "mt_counters (fst (observe name v ls m)) = mt_counters m"
  by (simp add: observe_def bindS_def liftS_def modifyS_def check_labels_eq)

lemma gauge_counters: "mt_counters (fst (gauge name v ls m)) = mt_counters m"
  by (simp add: gauge_def bindS_def liftS_def modifyS_def check_labels_eq)

lemma gpu_counters: "mt_counters (fst (observe_gpu_memory gpu d m)) = mt_counters m"
proof (cases "gpu d")
  case (Some v)
  show ?thesis
    using gauge_counters[of METRIC_GPU_VRAM_BYTES v "[(''device'', d)]" m]
    by (auto simp: observe_gpu_memory_def Some bindS_def returnS_def split: prod.splits sum.splits)
qed (simp add: observe_gpu_memory_def returnS_def)

fun is_stage :: "metric_call \<Rightarrow> bool" where
  "is_stage (Stage _ _ _ _ _ _) = True"
| "is_stage _ = False"

lemma counter_of_step:
  assumes "\<not> is_stage c"
  shows "counter_of k (fst (metric_step gpu c m)) = counter_of k m + contribution k c"
proof (cases c)
  case (Increment name v ls)
  then show ?thesis by (simp add: counter_of_increment)
next
  case (Gpu d)
  have "mt_counters (fst (metric_step gpu c m)) = mt_counters m"
    using gpu_counters[of gpu d m] unfolding Gpu
    by (auto simp: bindS_def returnS_def split: prod.splits sum.splits)
  then show ?thesis by (simp add: Gpu contribution_def counter_of_def)
qed (use assms in \<open>simp_all add: contribution_def counter_of_def observe_counters gauge_counters\<close>)

text \<open>
  A counter is the sum of its increments. After any sequence of calls, the value of a counter is the
  sum of the accepted increments with its name and its labels, in whatever order the labels were given;
  increments that were refused, gauges and observations do not change it.
\<close>

theorem counters_add_up:
  assumes "\<forall>c\<in>set calls. \<not> is_stage c"
  shows "counter_value name ls (metric_run gpu calls empty_sink)
    = (\<Sum>c\<leftarrow>calls. contribution (name, sort ls) c)"
proof -
  have "counter_of k (metric_run gpu cs m) = counter_of k m + (\<Sum>c\<leftarrow>cs. contribution k c)"
    if "\<forall>c\<in>set cs. \<not> is_stage c" for k cs m
    using that
  proof (induction cs arbitrary: m)
    case (Cons c cs)
    have "counter_of k (fst (metric_step gpu c m)) = counter_of k m + contribution k c"
      by (rule counter_of_step) (use Cons.prems in auto)
    then show ?case using Cons by (simp add: metric_run_def)
  qed (simp add: metric_run_def)
  from this[OF assms] show ?thesis
    by (simp add: counter_value_def metric_key_def empty_sink_def counter_of_def)
qed

theorem counters_add_up_witness:
  "counter_value ''c'' [(''b'', ''2''), (''a'', ''1'')]
     (metric_run (\<lambda>d. None) [Increment ''c'' 1 [(''a'', ''1''), (''b'', ''2'')], Gauge ''c'' 9 [],
        Increment ''c'' 2 [(''b'', ''2''), (''a'', ''1'')], Increment ''c'' 4 [(''text'', ''x'')]] empty_sink) = 3"
proof -
  have order_: "sort [(''b'', ''2''), (''a'', ''1'')] = [(''a'', ''1''), (''b'', ''2'')]"
    "sort [(''a'', ''1''), (''b'', ''2'')] = [(''a'', ''1''), (''b'', ''2'')]" by code_simp+
  show ?thesis
    by (subst counters_add_up)
      (simp_all add: contribution_def metric_key_def order_ allowed_def FORBIDDEN_METRIC_LABELS_def)
qed

section \<open>Reading the exposition\<close>

fun escape_char :: "char \<Rightarrow> string" where
  "escape_char c =
     (if c = backslash then [backslash, backslash] else if c = newline then [backslash, CHR ''n'']
      else if c = quote then [backslash, quote] else [c])"

lemma escape_value_chars: "escape_value v = concat (map escape_char v)"
  by (induction v) (auto simp: escape_value_def replace_char_def backslash_def newline_def quote_def)

text \<open>A reader of a quoted value: the value up to the closing quote, and the rest.\<close>

fun read_value :: "string \<Rightarrow> (string \<times> string) option" where
  "read_value [] = None"
| "read_value (c # s) =
     (if c = quote then Some ([], s)
      else if c = backslash then
        (case s of [] \<Rightarrow> None
         | d # t \<Rightarrow> map_option (\<lambda>(v, r). ((if d = CHR ''n'' then newline else d) # v, r)) (read_value t))
      else map_option (\<lambda>(v, r). (c # v, r)) (read_value s))"

lemma read_escaped: "read_value (escape_value v @ quote # rest) = Some (v, rest)"
  unfolding escape_value_chars
  by (induction v) (auto simp: backslash_def newline_def quote_def)

lemma newline_not_escaped: "newline \<notin> set (escape_value v)"
  unfolding escape_value_chars by (induction v) (auto simp: backslash_def newline_def quote_def)

lemma label_text_inj:
  assumes "label_text kv @ r = label_text kv' @ r'"
    and "CHR ''='' \<notin> set (fst kv)" and "CHR ''='' \<notin> set (fst kv')"
  shows "kv = kv' \<and> r = r'"
proof -
  have "fst kv @ CHR ''='' # quote # escape_value (snd kv) @ quote # r
      = fst kv' @ CHR ''='' # quote # escape_value (snd kv') @ quote # r'"
    using assms(1) by (simp add: label_text_def)
  from split_at_separator[OF this assms(2,3)] have
    "fst kv = fst kv'" "escape_value (snd kv) @ quote # r = escape_value (snd kv') @ quote # r'"
    by simp_all
  moreover from this(2) have "Some (snd kv, r) = Some (snd kv', r')"
    by (metis read_escaped)
  ultimately show ?thesis by (simp add: prod_eq_iff)
qed

lemma joined_labels_inj:
  assumes "join '','' (map label_text xs) @ CHR ''}'' # r = join '','' (map label_text ys) @ CHR ''}'' # r'"
    and "xs \<noteq> []" and "ys \<noteq> []"
    and "\<forall>kv\<in>set xs \<union> set ys. CHR ''='' \<notin> set (fst kv)"
  shows "xs = ys \<and> r = r'"
  using assms
proof (induction xs arbitrary: ys)
  case (Cons x xs)
  obtain y ys' where ys: "ys = y # ys'" using Cons.prems(3) by (cases ys) auto
  define tail where "tail = (\<lambda>zs r. if zs = [] then CHR ''}'' # r else CHR '','' # join '','' (map label_text zs) @ CHR ''}'' # r)"
  have unfold_: "join '','' (map label_text (z # zs)) @ CHR ''}'' # u = label_text z @ tail zs u" for z zs u
    by (cases zs) (simp_all add: tail_def)
  from Cons.prems(1) have eq: "label_text x @ tail xs r = label_text y @ tail ys' r'"
    unfolding ys unfold_ .
  have parts: "x = y \<and> tail xs r = tail ys' r'"
    by (rule label_text_inj[OF eq]) (use Cons.prems(4) ys in auto)
  show ?case
  proof (cases "xs = [] \<or> ys' = []")
    case False
    then show ?thesis using parts Cons.IH[of ys'] Cons.prems(4) ys by (simp add: tail_def)
  qed (use parts ys in \<open>auto simp: tail_def split: if_splits\<close>)
qed simp

definition plain_name :: "string \<Rightarrow> bool" where
  "plain_name s \<longleftrightarrow> set s \<inter> {newline, CHR ''='', CHR ''{'', CHR '' ''} = {}"

text \<open>
  A label value cannot pass for something else. If two sample lines of the exposition are the same
  text, they have the same metric name, the same labels with the same values and the same rest, for any
  label values, quotes, backslashes, line breaks and braces included, as long as names and label keys
  are plain.
\<close>

theorem sample_line_names_its_labels:
  assumes "name @ prometheus_labels ls @ '' '' @ x = name' @ prometheus_labels ls' @ '' '' @ y"
    and "plain_name name" and "plain_name name'"
    and "\<forall>kv\<in>set ls \<union> set ls'. plain_name (fst kv)"
  shows "metric_key name ls = metric_key name' ls' \<and> x = y"
proof -
  define tail where "tail = (\<lambda>ls u. if ls = [] then CHR '' '' # u
    else CHR ''{'' # join '','' (map label_text (sort ls)) @ CHR ''}'' # CHR '' '' # u)"
  have unfold_: "prometheus_labels zs @ '' '' @ u = tail zs u" for zs u
    by (simp add: tail_def prometheus_labels_def)
  have eq: "name @ tail ls x = name' @ tail ls' y" using assms(1) unfolding unfold_ .
  define stop where "stop = (\<lambda>c. c = CHR ''{'' \<or> c = CHR '' '')"
  have cut: "takeWhile (\<lambda>c. \<not> stop c) (n @ tail zs u) = n" if "plain_name n" for n zs u
  proof -
    have "\<forall>c\<in>set n. \<not> stop c" using that by (auto simp: plain_name_def stop_def)
    then show ?thesis by (simp add: takeWhile_append2 tail_def stop_def)
  qed
  have names: "name = name'" using cut[OF assms(2), of ls x] cut[OF assms(3), of ls' y] eq by simp
  with eq have tails: "tail ls x = tail ls' y" by simp
  show ?thesis
  proof (cases "ls = [] \<or> ls' = []")
    case False
    then have nonempty: "sort ls \<noteq> []" "sort ls' \<noteq> []"
      by (metis length_0_conv length_sort)+
    have "join '','' (map label_text (sort ls)) @ CHR ''}'' # CHR '' '' # x
        = join '','' (map label_text (sort ls')) @ CHR ''}'' # CHR '' '' # y"
      using tails False by (simp add: tail_def)
    then have "sort ls = sort ls' \<and> CHR '' '' # x = CHR '' '' # y"
      by (rule joined_labels_inj) (use False nonempty assms(4) in \<open>auto simp: plain_name_def\<close>)
    with names show ?thesis by (simp add: metric_key_def)
  qed (use tails names in \<open>auto simp: tail_def metric_key_def split: if_splits\<close>)
qed

theorem sample_line_names_its_labels_witness:
  "metric_key ''c'' [(''a'', [backslash, quote, newline])] = metric_key ''c'' [(''a'', [backslash, quote, newline])]
     \<and> ''1'' = ''1''"
  by (rule sample_line_names_its_labels) (simp_all add: plain_name_def newline_def)

text \<open>Lines: a text that ends every line with a line break is read back line by line.\<close>

fun lines_of :: "string \<Rightarrow> string list" where
  "lines_of [] = []"
| "lines_of (c # s) =
     (if c = newline then [] # lines_of s
      else (case lines_of s of [] \<Rightarrow> [[c]] | l # ls \<Rightarrow> (c # l) # ls))"

lemma lines_of_line: "newline \<notin> set l \<Longrightarrow> lines_of (l @ newline # s) = l # lines_of s"
  by (induction l) auto

lemma lines_of_join:
  "ls \<noteq> [] \<Longrightarrow> \<forall>l\<in>set ls. newline \<notin> set l \<Longrightarrow> lines_of (join [newline] ls @ [newline]) = ls"
  by (induction "[newline]" ls rule: join.induct) (simp_all add: lines_of_line)

definition no_break :: "string \<Rightarrow> bool" where
  "no_break s \<longleftrightarrow> newline \<notin> set s"

lemma no_break_append: "no_break (a @ b) \<longleftrightarrow> no_break a \<and> no_break b"
  by (auto simp: no_break_def)

lemma no_break_join: "no_break sep \<Longrightarrow> \<forall>l\<in>set ls. no_break l \<Longrightarrow> no_break (join sep ls)"
  by (induction sep ls rule: join.induct) (auto simp: no_break_def)

lemma no_break_labels:
  assumes "\<forall>kv\<in>set ls. no_break (fst kv)"
  shows "no_break (prometheus_labels ls)"
proof -
  have marks: "no_break ''{''" "no_break ''}''" "no_break '',''" "no_break ''=''" "no_break [quote]" "no_break []"
    by (auto simp: no_break_def newline_def quote_def)
  have "no_break (label_text kv)" if "kv \<in> set ls" for kv
    using assms that marks newline_not_escaped
    by (simp add: label_text_def no_break_append del: append_Cons) (simp add: no_break_def)
  then have "no_break (join '','' (map label_text (sort ls)))"
    using marks by (intro no_break_join) auto
  then show ?thesis using marks by (simp add: prometheus_labels_def no_break_append del: append_Cons)
qed

lemma no_break_digits: "no_break (digits n)"
  using digits_are_digits[of newline n] by (auto simp: no_break_def newline_def is_digit_def)

text \<open>Names and label keys without line breaks.\<close>

definition plain_key :: "metric_series \<Rightarrow> bool" where
  "plain_key k \<longleftrightarrow> no_break (fst k) \<and> (\<forall>kv\<in>set (snd k). no_break (fst kv))"

definition plain_sink :: "metrics_sink \<Rightarrow> bool" where
  "plain_sink m \<longleftrightarrow> (\<forall>k\<in>fst ` set (mt_counters m) \<union> fst ` set (mt_gauges m). plain_key k)
     \<and> (\<forall>ob\<in>set (mt_observations m). plain_key (metric_key (fst ob) (snd (snd ob))))"

definition plain_lines :: "string list \<times> string list \<Rightarrow> bool" where
  "plain_lines st \<longleftrightarrow> (\<forall>l\<in>set (fst st). no_break l)"

lemma declare_plain:
  "no_break name \<Longrightarrow> no_break kind \<Longrightarrow> plain_lines st \<Longrightarrow> plain_lines (declare_type name kind st)"
  by (auto simp: declare_type_def plain_lines_def no_break_append)
    (auto simp: no_break_def newline_def)

lemma emit_sample_plain:
  assumes "plain_key (fst kv)" and "\<And>v. no_break (show v)" and "no_break kind" and "plain_lines st"
  shows "plain_lines (emit_sample show kind kv st)"
  using assms declare_plain[of "fst (fst kv)" kind st] no_break_labels[of "snd (fst kv)"]
  by (auto simp: emit_sample_def Let_def plain_lines_def no_break_append plain_key_def)
    (auto simp: no_break_def newline_def)

lemma emit_summary_plain:
  assumes "plain_key (fst kvs)" and "\<And>v. no_break (show v)" and "plain_lines st"
  shows "plain_lines (emit_summary show kvs st)"
proof -
  have words: "no_break ''summary''" "no_break ''_count''" "no_break ''_sum''" "no_break '' ''"
    by (auto simp: no_break_def newline_def)
  show ?thesis
    using assms words declare_plain[of "fst (fst kvs)" "''summary''" st] no_break_labels[of "snd (fst kvs)"]
      no_break_digits[of "length (snd kvs)"]
    by (auto simp: emit_summary_def Let_def plain_lines_def no_break_append plain_key_def simp del: append_Cons)
qed

lemma fold_keeps: "P st \<Longrightarrow> (\<And>x st. x \<in> set xs \<Longrightarrow> P st \<Longrightarrow> P (f x st)) \<Longrightarrow> P (fold f xs st)"
  by (induction xs arbitrary: st) auto

lemma grouped_keys: "kvs \<in> set (grouped_observations m) \<Longrightarrow>
    \<exists>ob\<in>set (mt_observations m). fst kvs = metric_key (fst ob) (snd (snd ob))"
  by (force simp: grouped_observations_def Let_def)

text \<open>
  C28: The exposition is made of its lines. If the names and the label keys have no line break, the text
  served at \<open>/metrics\<close> splits at its line breaks into exactly the type lines and samples that were
  rendered: no label value adds, removes or breaks a line.
\<close>

theorem exposition_splits_into_samples:
  assumes "plain_sink m" and "\<And>v. newline \<notin> set (show v)"
  shows "lines_of (render show m) = render_lines show m"
proof -
  have shown: "no_break (show v)" for v using assms(2) by (simp add: no_break_def)
  have kinds: "no_break ''counter''" "no_break ''gauge''" by (auto simp: no_break_def newline_def)
  have counters: "plain_lines (fold (emit_sample show ''counter'') (sort_key fst (mt_counters m)) ([], []))"
    by (rule fold_keeps)
      (use assms(1) shown kinds in \<open>auto simp: plain_lines_def[of "([], [])"] plain_sink_def intro!: emit_sample_plain\<close>)
  have gauges: "plain_lines (fold (emit_sample show ''gauge'') (sort_key fst (mt_gauges m)) st)"
    if "plain_lines st" for st
    by (rule fold_keeps) (use that assms(1) shown kinds in \<open>auto simp: plain_sink_def intro!: emit_sample_plain\<close>)
  have summaries: "plain_lines (fold (emit_summary show) (sort_key fst (grouped_observations m)) st)"
    if "plain_lines st" for st
    by (rule fold_keeps)
      (use that assms(1) shown grouped_keys in \<open>fastforce simp: plain_sink_def intro!: emit_summary_plain\<close>)+
  have "\<forall>l\<in>set (render_lines show m). newline \<notin> set l"
    using summaries[OF gauges[OF counters]] by (simp add: render_lines_def Let_def plain_lines_def no_break_def)
  then show ?thesis by (cases "render_lines show m = []") (simp_all add: render_def lines_of_join)
qed

theorem exposition_splits_into_samples_witness:
  "lines_of (render (\<lambda>v. ''1'') \<lparr>mt_counters = [((''c'', [(''a'', [newline, quote])]), 1)], mt_observations = [], mt_gauges = []\<rparr>)
     = [''# TYPE c counter'', ''c{a='' @ [quote, backslash, CHR ''n'', backslash, quote, quote] @ ''} 1'']"
  by (subst exposition_splits_into_samples)
    (simp_all add: plain_sink_def plain_key_def no_break_def newline_def render_lines_def grouped_observations_def
      emit_sample_def declare_type_def prometheus_labels_def label_text_def escape_value_chars
      backslash_def quote_def)

section \<open>Contexts\<close>

text \<open>The contexts derived from one: each child has its stage, its timeout and its time of creation.\<close>

fun descendant :: "'m call_context \<Rightarrow> (real \<times> string \<times> real option) list \<Rightarrow> 'm call_context" where
  "descendant ctx [] = ctx"
| "descendant ctx ((now, stage, timeout) # xs) = descendant (child_context ctx now stage timeout) xs"

text \<open>
  Cancellation reaches every nested call. A context derived from another through any chain of children
  is checked with the same outcome as the first one, so cancelling the operation stops all of them, and it
  carries the same tenant hash, session and job into the traces, none of which has a forbidden key.
\<close>

theorem children_are_cancelled_together:
  "check_context (descendant ctx xs) cancelled = check_context ctx cancelled
   \<and> check_context (descendant ctx xs) (cancel (cc_cancellation ctx) cancelled) = Inl (Sastt CancelledError)
   \<and> tl (trace_fields (descendant ctx xs)) = tl (trace_fields ctx)
   \<and> fst ` set (trace_fields (descendant ctx xs)) \<inter> set FORBIDDEN_METRIC_LABELS = {}"
proof -
  have "cc_cancellation (descendant ctx xs) = cc_cancellation ctx
      \<and> tl (trace_fields (descendant ctx xs)) = tl (trace_fields ctx)"
    by (induction ctx xs rule: descendant.induct) (simp_all add: child_context_def trace_fields_def)
  then show ?thesis
    by (auto simp: check_context_def raise_if_cancelled_def cancel_def trace_fields_def FORBIDDEN_METRIC_LABELS_def)
qed

text \<open>The check looks at no clock: a context past its deadline passes it.\<close>

lemma check_ignores_deadline:
  "\<exists>ctx :: unit call_context. deadline_exceeded ctx now \<and> check_context ctx {} = Inr ()"
proof -
  let ?ctx = "\<lparr>cc_stage = [], cc_timeout_seconds = 1, cc_tenant_hash = None, cc_session_id = None,
    cc_job_id = None, cc_model_release_id = None, cc_audio_duration_ms = None, cc_cancellation = 0,
    cc_metrics = (), cc_started_monotonic = now - 2\<rparr>"
  have "deadline_exceeded ?ctx now \<and> check_context ?ctx {} = Inr ()"
    by (simp add: deadline_exceeded_def check_context_def raise_if_cancelled_def)
  then show ?thesis by blast
qed

end
