(* ===== verification/Scenario.thy ===== *)
theory Scenario
  imports Complex_Main Diarizer JsonFields "HOL-Library.AList"
begin

text \<open>
  Synthetic sessions (\<^verbatim>\<open>src/src/sastt/adapters/fake/scenario.py\<close>): the scripted turns, the regions
  where they overlap, their rendering as tones, and the recovery of the speakers from a waveform. The
  Fourier transform of NumPy is a parameter: the magnitudes of the bins of a signal and the frequency
  of each bin. A scenario names its speakers by texts, and its enrolled identities by an object.
\<close>

section \<open>Scenarios\<close>

definition BASE_FREQUENCY_HZ :: real where "BASE_FREQUENCY_HZ = 220"
definition FREQUENCY_STEP_HZ :: real where "FREQUENCY_STEP_HZ = 90"
definition SPEAKER_AMPLITUDE :: real where "SPEAKER_AMPLITUDE = 30 / 100"
definition PEAK_RELATIVE_THRESHOLD :: real where "PEAK_RELATIVE_THRESHOLD = 35 / 100"

definition speaker_frequency :: "nat \<Rightarrow> real" where
  "speaker_frequency index = BASE_FREQUENCY_HZ + FREQUENCY_STEP_HZ * real index"

record scripted_turn =
  st_speaker :: string
  st_start_ms :: int
  st_end_ms :: int
  st_text :: string

definition scripted_interval :: "scripted_turn \<Rightarrow> time_interval res" where
  "scripted_interval t = mk_interval (st_start_ms t) (st_end_ms t)"

record source_order =
  so_start_ms :: int
  so_end_ms :: int
  so_order :: "string list"

record scenario =
  sc_name :: string
  sc_speakers :: "string list"
  sc_turns :: "scripted_turn list"
  sc_duration_ms :: int
  sc_sample_rate :: int
  sc_channels :: int
  sc_source_orders :: "source_order list"
  sc_enrolled :: "(string \<times> json) list"

section \<open>Reading a scenario\<close>

text \<open>The values a \<open>for\<close> loop takes from a value.\<close>

definition iterate :: "json \<Rightarrow> json list res" where
  "iterate v =
     (case v of JList xs \<Rightarrow> Inr xs | JStr s \<Rightarrow> Inr (map (\<lambda>c. JStr [c]) s)
        | JObj d \<Rightarrow> Inr (map (\<lambda>kv. JStr (fst kv)) d) | _ \<Rightarrow> Inl TypeError)"

definition read_turn :: "(json \<Rightarrow> string) \<Rightarrow> json \<Rightarrow> scripted_turn res" where
  "read_turn show v =
     bindR (as_obj v) (\<lambda>turn.
     bindR (field turn ''speaker'' Inr) (\<lambda>speaker.
     bindR (field turn ''start_ms'' json_int) (\<lambda>s.
     bindR (field turn ''end_ms'' json_int) (\<lambda>e.
     bindR (field turn ''text'' Inr) (\<lambda>said.
       Inr \<lparr>st_speaker = text_value show speaker, st_start_ms = s, st_end_ms = e,
            st_text = text_value show said\<rparr>)))))"

definition read_order :: "(json \<Rightarrow> string) \<Rightarrow> json \<Rightarrow> source_order res" where
  "read_order show v =
     bindR (as_obj v) (\<lambda>item.
     bindR (field item ''start_ms'' json_int) (\<lambda>s.
     bindR (field item ''end_ms'' json_int) (\<lambda>e.
     bindR (bindR (field item ''order'' Inr) iterate) (\<lambda>names.
       Inr \<lparr>so_start_ms = s, so_end_ms = e, so_order = map (text_value show) names\<rparr>))))"

definition from_dict :: "(json \<Rightarrow> string) \<Rightarrow> (string \<times> json) list \<Rightarrow> scenario res" where
  "from_dict show raw =
     bindR (bindR (field_default raw ''turns'' [] iterate) (mapR (read_turn show))) (\<lambda>ts.
     bindR (field_or raw ''speakers'' (sort (nub (map st_speaker ts)))
              (\<lambda>v. bindR (iterate v) (mapR as_str))) (\<lambda>speakers.
     bindR (bindR (field_default raw ''source_orders'' [] iterate) (mapR (read_order show))) (\<lambda>orders.
     bindR (field_or raw ''duration_ms''
              (case ts of [] \<Rightarrow> 0 | t # rest \<Rightarrow> list_max (st_end_ms t) (map st_end_ms rest)) json_int) (\<lambda>duration.
     bindR (field_default raw ''name'' ''scenario'' (\<lambda>v. Inr (text_value show v))) (\<lambda>name.
     bindR (field_default raw ''sample_rate'' CANONICAL_SAMPLE_RATE json_int) (\<lambda>rate.
     bindR (field_default raw ''channels'' 1 json_int) (\<lambda>channels.
     bindR (field_default raw ''enrolled'' [] as_obj) (\<lambda>enrolled.
       Inr \<lparr>sc_name = name, sc_speakers = speakers, sc_turns = ts, sc_duration_ms = duration,
            sc_sample_rate = rate, sc_channels = channels, sc_source_orders = orders,
            sc_enrolled = enrolled\<rparr>))))))))"

section \<open>Queries\<close>

fun index_of :: "'a \<Rightarrow> 'a list \<Rightarrow> nat res" where
  "index_of x [] = Inl ValueError"
| "index_of x (y # ys) = (if x = y then Inr 0 else bindR (index_of x ys) (\<lambda>n. Inr (Suc n)))"

definition speaker_index :: "scenario \<Rightarrow> string \<Rightarrow> nat res" where
  "speaker_index sc speaker = index_of speaker (sc_speakers sc)"

definition frequency :: "scenario \<Rightarrow> string \<Rightarrow> real res" where
  "frequency sc speaker = bindR (speaker_index sc speaker) (\<lambda>i. Inr (speaker_frequency i))"

definition turns_in :: "scenario \<Rightarrow> time_interval \<Rightarrow> scripted_turn list res" where
  "turns_in sc interval =
     bindR (mapR (\<lambda>t. bindR (scripted_interval t) (\<lambda>i. Inr (if intersects i interval then [t] else [])))
       (sc_turns sc)) (\<lambda>found. Inr (concat found))"

definition speakers_in :: "scenario \<Rightarrow> time_interval \<Rightarrow> string list res" where
  "speakers_in sc interval =
     bindR (turns_in sc interval) (\<lambda>ts. Inr (nub (map st_speaker (sort_key st_start_ms ts))))"

definition speech_intervals :: "scenario \<Rightarrow> time_interval list res" where
  "speech_intervals sc = bindR (mapR scripted_interval (sc_turns sc)) (\<lambda>is. Inr (merge_intervals is 0))"

definition script_edges :: "scenario \<Rightarrow> int list" where
  "script_edges sc = sorted_list_of_set (st_start_ms ` set (sc_turns sc) \<union> st_end_ms ` set (sc_turns sc))"

text \<open>The body of the loop: the slot between two edges, if at least two turns are active in it.\<close>

definition busy_slot :: "scenario \<Rightarrow> int \<times> int \<Rightarrow> time_interval list res" where
  "busy_slot sc = (\<lambda>(s, e).
     if e \<le> s then Inr []
     else bindR (mk_interval s e) (\<lambda>slot.
          bindR (mapR scripted_interval (sc_turns sc)) (\<lambda>is.
            Inr (if 2 \<le> active_in is slot then [slot] else []))))"

definition overlap_intervals :: "scenario \<Rightarrow> int \<Rightarrow> int \<Rightarrow> time_interval list res" where
  "overlap_intervals sc min_duration gap =
     bindR (mapR (busy_slot sc) (zip (script_edges sc) (tl (script_edges sc)))) (\<lambda>regions.
       Inr (filter (\<lambda>r. min_duration \<le> duration_ms r) (merge_intervals (concat regions) gap)))"

fun first_order :: "time_interval \<Rightarrow> source_order list \<Rightarrow> string list option res" where
  "first_order interval [] = Inr None"
| "first_order interval (item # rest) =
     bindR (mk_interval (so_start_ms item) (so_end_ms item)) (\<lambda>i.
       if intersects i interval then Inr (Some (so_order item)) else first_order interval rest)"

definition source_order_for :: "scenario \<Rightarrow> time_interval \<Rightarrow> string list option res" where
  "source_order_for sc interval = first_order interval (sc_source_orders sc)"

section \<open>Rendering\<close>

definition tone :: "real \<Rightarrow> int \<Rightarrow> int \<Rightarrow> int \<Rightarrow> real list" where
  "tone freq start final rate =
     map (\<lambda>i. SPEAKER_AMPLITUDE * sin (2 * pi * freq * of_int i / of_int rate)) [start..final - 1]"

text \<open>\<open>out[start:start + len(part)] += part\<close>, for a slice inside the array.\<close>

definition add_at :: "nat \<Rightarrow> real list \<Rightarrow> real list \<Rightarrow> real list" where
  "add_at start part out =
     take start out @ map2 (+) (take (length part) (drop start out)) part @ drop (start + length part) out"

definition render_turn :: "scenario \<Rightarrow> int \<Rightarrow> int \<Rightarrow> scripted_turn \<Rightarrow> real list \<Rightarrow> real list res" where
  "render_turn sc rate available t out =
     bindR (ms_to_samples (st_start_ms t) rate) (\<lambda>start.
     bindR (ms_to_samples (st_end_ms t) rate) (\<lambda>e.
       let final = min e available in
       if final \<le> start then Inr out
       else bindR (frequency sc (st_speaker t)) (\<lambda>f. Inr (add_at (nat start) (tone f start final rate) out))))"

definition render_scenario :: "scenario \<Rightarrow> int option \<Rightarrow> audio_buffer res" where
  "render_scenario sc sample_rate_arg =
     (let rate = (case sample_rate_arg of Some r \<Rightarrow> if r \<noteq> 0 then r else sc_sample_rate sc
                                        | None \<Rightarrow> sc_sample_rate sc) in
      bindR (ms_to_samples (sc_duration_ms sc) rate) (\<lambda>available.
      bindR (foldR (render_turn sc rate available) (sc_turns sc) (replicate (nat available) 0)) (\<lambda>out.
        mk_audio_buffer [map Fin out] rate 0 [''mono''] rate)))"

definition render_clip :: "scenario \<Rightarrow> string \<Rightarrow> time_interval \<Rightarrow> int \<Rightarrow> int \<Rightarrow> scripted_turn \<Rightarrow> real list \<Rightarrow> real list res" where
  "render_clip sc speaker interval rate start t out =
     (if st_speaker t \<noteq> speaker then Inr out
      else bindR (scripted_interval t) (\<lambda>i.
        case clamp i interval of
          None \<Rightarrow> Inr out
        | Some c \<Rightarrow>
            bindR (ms_to_samples (ti_start c) rate) (\<lambda>s.
            bindR (ms_to_samples (ti_end c) rate) (\<lambda>e.
            bindR (frequency sc speaker) (\<lambda>f.
              Inr (add_at (nat (s - start)) (tone f s e rate) out))))))"

definition render_speaker :: "scenario \<Rightarrow> string \<Rightarrow> time_interval \<Rightarrow> int option \<Rightarrow> real list res" where
  "render_speaker sc speaker interval sample_rate_arg =
     (let rate = (case sample_rate_arg of Some r \<Rightarrow> if r \<noteq> 0 then r else sc_sample_rate sc
                                        | None \<Rightarrow> sc_sample_rate sc) in
      bindR (ms_to_samples (ti_start interval) rate) (\<lambda>start.
      bindR (ms_to_samples (ti_end interval) rate) (\<lambda>e.
        foldR (render_clip sc speaker interval rate start) (sc_turns sc) (replicate (nat (e - start)) 0))))"

section \<open>Who is in a waveform\<close>

record fourier =
  ft_spectrum :: "real list \<Rightarrow> real list"
  ft_freqs :: "nat \<Rightarrow> int \<Rightarrow> real list"
  ft_filtered :: "real list \<Rightarrow> bool list \<Rightarrow> real list"

text \<open>The largest magnitude within 15 Hz of the frequency of a speaker.\<close>

definition magnitude_at :: "real list \<Rightarrow> real list \<Rightarrow> real \<Rightarrow> real option" where
  "magnitude_at spectrum freqs target =
     (case map snd (filter (\<lambda>(f, x). \<bar>f - target\<bar> \<le> 15) (zip freqs spectrum)) of
        [] \<Rightarrow> None
      | x # xs \<Rightarrow> Some (list_max x xs))"

definition detect_speaker_energies :: "fourier \<Rightarrow> real list \<Rightarrow> int \<Rightarrow> string list \<Rightarrow> (string \<times> real) list" where
  "detect_speaker_energies ft xs rate speakers =
     (if length xs < 32 then []
      else let spectrum = ft_spectrum ft xs; freqs = ft_freqs ft (length xs) rate;
               peak = (case spectrum of [] \<Rightarrow> 0 | x # rest \<Rightarrow> list_max x rest) in
        if peak \<le> 0 then []
        else fold (\<lambda>(i, speaker) energies.
               case magnitude_at spectrum freqs (speaker_frequency i) of
                 None \<Rightarrow> energies
               | Some x \<Rightarrow> if PEAK_RELATIVE_THRESHOLD \<le> x / peak then AList.update speaker (x / peak) energies
                           else energies)
             (List.enumerate 0 speakers) [])"

text \<open>\<open>max(energies, key=...)\<close>: the first speaker with the greatest energy.\<close>

fun loudest :: "(string \<times> real) list \<Rightarrow> string option" where
  "loudest [] = None"
| "loudest ((s, x) # rest) =
     (if \<forall>(s', y)\<in>set rest. y \<le> x then Some s else loudest rest)"

definition dominant_speaker :: "fourier \<Rightarrow> real list \<Rightarrow> int \<Rightarrow> string list \<Rightarrow> string option" where
  "dominant_speaker ft xs rate speakers = loudest (detect_speaker_energies ft xs rate speakers)"

end
