(* ===== verification/FakeModels.thy ===== *)
theory FakeModels
  imports Scenario Transcript Effects
begin

text \<open>
  The fake models (\<^verbatim>\<open>src/src/sastt/adapters/fake/models.py\<close>; its registry is \<open>VoiceRegistry\<close>, its
  decoder is in \<open>Decoder\<close>): voice activity, diarization, overlap detection, separation, recognition and
  embedding, all read from the waveform through the Fourier transform. The vector of a speaker, which
  the code draws from a generator seeded with a hash, is a parameter.
\<close>

section \<open>Frames\<close>

definition EMBEDDING_DIMENSION :: nat where "EMBEDDING_DIMENSION = 192"
definition FRAME_MS :: int where "FRAME_MS = 100"
definition CLUSTER_PREFIX :: string where "CLUSTER_PREFIX = ''cluster_''"

definition cluster_of_speaker :: "string \<Rightarrow> string" where
  "cluster_of_speaker speaker = CLUSTER_PREFIX @ speaker"

type_synonym frame = "time_interval \<times> real list"

text \<open>The chunks at the offsets \<open>range(0, size, step)\<close>; the loop stops at one shorter than half a step.\<close>

definition chunks :: "nat \<Rightarrow> 'a list \<Rightarrow> (nat \<times> 'a list) list" where
  "chunks step xs =
     takeWhile (\<lambda>(off, chunk). step div 2 \<le> length chunk)
       (map (\<lambda>k. (k * step, take step (drop (k * step) xs))) [0..<(length xs + step - 1) div step])"

definition frame_of :: "audio_buffer \<Rightarrow> nat \<times> sample list \<Rightarrow> frame res" where
  "frame_of b = (\<lambda>(off, chunk).
     bindR (samples_to_ms (start_sample b + int off) (sample_rate b)) (\<lambda>s.
     bindR (samples_to_ms (start_sample b + int off + int (length chunk)) (sample_rate b)) (\<lambda>e.
     bindR (mk_interval s e) (\<lambda>i. Inr (i, map fin_value chunk)))))"

definition frames :: "audio_buffer \<Rightarrow> frame list res" where
  "frames b =
     bindR (ms_to_samples FRAME_MS (sample_rate b)) (\<lambda>step.
     bindR (to_mono b) (\<lambda>m.
     bindR (guardR (step = 0) ValueError) (\<lambda>_.
       mapR (frame_of b) (chunks (nat step) (hd (samples m))))))"

definition level :: "real list \<Rightarrow> real" where
  "level xs = sqrt (mean (map (\<lambda>x. x * x) xs))"

definition fake_vad :: "real \<Rightarrow> int \<Rightarrow> unit res \<Rightarrow> audio_buffer \<Rightarrow> time_interval list res" where
  "fake_vad threshold gap check b =
     bindR check (\<lambda>_.
     bindR (frames b) (\<lambda>fs.
       Inr (merge_intervals (map fst (filter (\<lambda>f. threshold \<le> level (snd f)) fs)) gap)))"

section \<open>Diarization and overlap\<close>

record fake_speakers =
  fs_fourier :: fourier
  fs_speakers :: "string list"
  fs_version :: string

text \<open>The frames with the speakers found in them.\<close>

type_synonym heard = "time_interval \<times> (string \<times> real) list"

definition hear :: "fake_speakers \<Rightarrow> int \<Rightarrow> frame \<Rightarrow> heard" where
  "hear d rate f = (fst f, detect_speaker_energies (fs_fourier d) (snd f) rate (fs_speakers d))"

definition intervals_with :: "('k \<times> time_interval) list \<Rightarrow> 'k \<Rightarrow> time_interval list" where
  "intervals_with hits k = map snd (filter (\<lambda>h. fst h = k) hits)"

definition tracks :: "track_kind \<Rightarrow> (string \<times> time_interval) list \<Rightarrow> speaker_turn list" where
  "tracks kind hits =
     concat (map (\<lambda>speaker. map (\<lambda>i. \<lparr>cluster_id = cluster_of_speaker speaker, turn_interval = i,
                                         turn_kind = kind, turn_score = None\<rparr>)
                    (merge_intervals (intervals_with hits speaker) FRAME_MS))
       (sort (nub (map fst hits))))"

definition activation :: "(string \<times> real) list \<Rightarrow> real" where
  "activation energies = min 1 (sum_list (map snd energies) / real (length energies))"

definition mixed_frames :: "heard list \<Rightarrow> (time_interval \<times> real) list" where
  "mixed_frames hs =
     map (\<lambda>h. (fst h, activation (snd h))) (filter (\<lambda>h. 2 \<le> length (snd h)) hs)"

definition region_of_frames :: "string \<Rightarrow> (time_interval \<times> real) list \<Rightarrow> time_interval \<Rightarrow> overlap_region" where
  "region_of_frames version hits i =
     \<lparr>region_interval = i,
      osd_activation = (case map snd (filter (\<lambda>h. intersects (fst h) i) hits) of
                          [] \<Rightarrow> None | x # xs \<Rightarrow> Some (list_max x xs)),
      region_model_version = version, region_calibration_version = None\<rparr>"

definition fake_diarize :: "fake_speakers \<Rightarrow> unit res \<Rightarrow> audio_buffer \<Rightarrow> int \<Rightarrow> int \<Rightarrow> diarization_result res" where
  "fake_diarize d check b min_speakers max_speakers =
     bindR check (\<lambda>_.
     bindR (frames b) (\<lambda>fs.
       let hs = filter (\<lambda>h. snd h \<noteq> []) (map (hear d (sample_rate b)) fs);
           per_speaker = concat (map (\<lambda>h. map (\<lambda>e. (fst e, fst h)) (snd h)) hs);
           exclusive = map (\<lambda>h. (the (loudest (snd h)), fst h)) hs;
           overlaps = mixed_frames hs;
           regular = sort_key turn_key (tracks Regular per_speaker)
       in Inr \<lparr>turns = regular, regular_tracks = regular,
               exclusive_tracks = Some (sort_key turn_key (tracks Exclusive exclusive)),
               overlap_regions = map (region_of_frames (fs_version d) overlaps)
                 (merge_intervals (map fst overlaps) (FRAME_MS * 2)),
               estimated_session_speakers =
                 min (max (int (length (nub (map fst per_speaker)))) min_speakers) max_speakers,
               diar_model_version = fs_version d\<rparr>))"

definition fake_detect_overlap ::
  "fake_speakers \<Rightarrow> int \<Rightarrow> int \<Rightarrow> unit res \<Rightarrow> audio_buffer \<Rightarrow> overlap_region list res" where
  "fake_detect_overlap d min_duration gap check b =
     bindR check (\<lambda>_.
     bindR (frames b) (\<lambda>fs.
       let hits = mixed_frames (map (hear d (sample_rate b)) fs)
       in Inr (map (region_of_frames (fs_version d) hits)
                 (filter (\<lambda>i. min_duration \<le> duration_ms i) (merge_intervals (map fst hits) gap)))))"

section \<open>Separation\<close>

record fake_separator =
  fp_fourier :: fourier
  fp_speakers :: "string list"
  fp_backend :: string
  fp_supported :: "int list"
  fp_scenario :: "scenario option"
  fp_alternate_order :: bool
  fp_fail_first_call :: bool

definition bandpass :: "fourier \<Rightarrow> real list \<Rightarrow> int \<Rightarrow> nat \<Rightarrow> real \<Rightarrow> real list" where
  "bandpass ft xs rate position width =
     ft_filtered ft xs (map (\<lambda>f. \<bar>f - speaker_frequency position\<bar> \<le> width) (ft_freqs ft (length xs) rate))"

text \<open>The speakers that are present, loudest first, in the order the scenario or the call number gives.\<close>

definition present_speakers :: "fake_separator \<Rightarrow> nat \<Rightarrow> audio_buffer \<Rightarrow> real list \<Rightarrow> string list res" where
  "present_speakers p calls b xs =
     (let energies = detect_speaker_energies (fp_fourier p) xs (sample_rate b) (fp_speakers p);
          present = map fst (sort_key (\<lambda>e. - snd e) energies) in
      bindR (case fp_scenario p of None \<Rightarrow> Inr None | Some sc \<Rightarrow> source_order_for sc (buf_interval b)) (\<lambda>forced.
        Inr (case forced of
               Some names \<Rightarrow> filter (\<lambda>s. s \<in> set present) names @ filter (\<lambda>s. s \<notin> set names) present
             | None \<Rightarrow> if fp_alternate_order p \<and> even calls then rev present else present)))"

definition quality_of :: "audio_buffer \<Rightarrow> real \<Rightarrow> source_quality" where
  "quality_of b energy =
     \<lparr>sq_speech_duration_ms = buf_duration_ms b, energy_ratio = Some energy, leakage_similarity = None,
      residual_speech_ratio = None, snr_db = None, passed_gate = (1 / 100 < energy),
      sq_reasons = (if 1 / 100 < energy then [] else [''low_energy''])\<rparr>"

definition no_source :: source_quality where
  "no_source =
     \<lparr>sq_speech_duration_ms = 0, energy_ratio = Some 0, leakage_similarity = None,
      residual_speech_ratio = None, snr_db = None, passed_gate = False, sq_reasons = [''no_source_found'']\<rparr>"

definition source_at :: "fake_separator \<Rightarrow> audio_buffer \<Rightarrow> real list \<Rightarrow> string list \<Rightarrow> nat \<Rightarrow> (real list \<times> source_quality) res" where
  "source_at p b xs selected index =
     (if index < length selected then
        bindR (index_of (selected ! index) (fp_speakers p)) (\<lambda>i.
          let source = bandpass (fp_fourier p) xs (sample_rate b) i 25
          in Inr (source, quality_of b (level source)))
      else Inr (replicate (length xs) 0, no_source))"

definition fake_separate :: "fake_separator \<Rightarrow> unit res \<Rightarrow> audio_buffer \<Rightarrow> int \<Rightarrow> (nat, separated_batch) action" where
  "fake_separate p check b requested =
     bindS (liftS check) (\<lambda>_.
     bindS (modifyS Suc) (\<lambda>_.
     bindS (readS (\<lambda>calls. calls)) (\<lambda>calls.
     liftS (
       bindR (guardR (fp_fail_first_call p \<and> calls = 1) (Sastt SeparationFailedError)) (\<lambda>_.
       bindR (guardR (requested \<notin> set (fp_supported p)) (Sastt SeparationFailedError)) (\<lambda>_.
       bindR (to_mono b) (\<lambda>m.
       let xs = map fin_value (hd (samples m)) in
       bindR (present_speakers p calls b xs) (\<lambda>present.
       bindR (guardR (requested < 0) ValueError) (\<lambda>_.
       bindR (mapR (source_at p b xs (take (nat requested) present)) [0..<nat requested]) (\<lambda>found.
         mk_separated_batch (map (\<lambda>f. map Fin (fst f)) found) (sample_rate b) requested
           (Some (int (length present))) (map snd found) (fp_backend p @ ''@fake'') (start_sample b))))))))))) "

section \<open>Recognition\<close>

record fake_recognizer =
  fr_fourier :: fourier
  fr_scenario :: scenario
  fr_version :: string
  fr_language :: string
  fr_word_probability :: real

definition fake_detect_language :: "fake_recognizer \<Rightarrow> unit res \<Rightarrow> audio_buffer \<Rightarrow> (string \<times> real) res" where
  "fake_detect_language r check b = bindR check (\<lambda>_. Inr (fr_language r, 1))"

text \<open>The token at an index of a turn, if its part of the turn reaches into the heard part.\<close>

definition scripted_word ::
  "fake_recognizer \<Rightarrow> int \<Rightarrow> real \<Rightarrow> time_interval \<Rightarrow> nat option \<Rightarrow> nat \<times> string \<Rightarrow> word list res" where
  "scripted_word r turn_start span_ms heard track = (\<lambda>(index, token).
     let start = turn_start + trunc (real index * span_ms);
         fin = turn_start + trunc (real (index + 1) * span_ms) in
     bindR (mk_interval start (max fin (start + 1))) (\<lambda>i.
       if intersection_ms i heard \<le> 0 then Inr []
       else bindR (mk_word token (ti_start i) (ti_end i) (Some (fr_word_probability r)) track None) (\<lambda>w. Inr [w])))"

definition turn_words ::
  "fake_recognizer \<Rightarrow> string \<Rightarrow> time_interval \<Rightarrow> nat option \<Rightarrow> scripted_turn \<Rightarrow> word list res" where
  "turn_words r speaker interval track t =
     (if st_speaker t \<noteq> speaker then Inr []
      else bindR (scripted_interval t) (\<lambda>i.
        case clamp i interval of
          None \<Rightarrow> Inr []
        | Some heard \<Rightarrow>
            let tokens = split_ws (st_text t) in
            if duration_ms heard < 50 \<or> tokens = [] then Inr []
            else let span_ms = of_int (duration_ms i) / real (length tokens) in
              bindR (mapR (scripted_word r (st_start_ms t) span_ms heard track) (List.enumerate 0 tokens)) (\<lambda>ws.
                Inr (concat ws))))"

definition words_for :: "fake_recognizer \<Rightarrow> string \<Rightarrow> time_interval \<Rightarrow> nat option \<Rightarrow> word list res" where
  "words_for r speaker interval track =
     bindR (mapR (turn_words r speaker interval track) (sc_turns (fr_scenario r))) (\<lambda>ws.
       Inr (sort_key w_start (concat ws)))"

definition fake_transcribe ::
  "fake_recognizer \<Rightarrow> unit res \<Rightarrow> audio_buffer \<Rightarrow> string option \<Rightarrow> nat option \<Rightarrow> asr_result res" where
  "fake_transcribe r check b language track =
     bindR check (\<lambda>_.
     bindR (to_mono b) (\<lambda>m.
     bindR (case dominant_speaker (fr_fourier r) (map fin_value (hd (samples m))) (sample_rate b)
                   (sc_speakers (fr_scenario r)) of
              None \<Rightarrow> Inr []
            | Some speaker \<Rightarrow> words_for r speaker (buf_interval b) track) (\<lambda>ws.
       Inr \<lparr>asr_words = ws, detected_language = or_else language (fr_language r), language_score = None,
            asr_model_version = fr_version r,
            asr_raw_scores = (if ws = [] then [] else [(''asr_word_probability'', fr_word_probability r)])\<rparr>)))"

section \<open>Embedding\<close>

record fake_embedder =
  fe_fourier :: fourier
  fe_speakers :: "string list"
  fe_version :: string
  fe_minimum_speech_ms :: int
  fe_target_speech_ms :: int
  fe_basis :: "string \<Rightarrow> real list"

definition mixed_vector :: "(string \<Rightarrow> real list) \<Rightarrow> (string \<times> real) list \<Rightarrow> real list" where
  "mixed_vector basis energies =
     (let weight = sum_list (map snd energies) in
      foldl (\<lambda>v (s, x). vadd v (vscale (x / weight) (basis s))) (replicate EMBEDDING_DIMENSION 0) energies)"

definition fake_embed ::
  "fake_embedder \<Rightarrow> unit res \<Rightarrow> audio_buffer \<Rightarrow> time_interval list option \<Rightarrow> embedding_origin \<Rightarrow> nat option \<Rightarrow>
     int option \<Rightarrow> speaker_embedding res" where
  "fake_embed d check b speech origin track minimum =
     bindR check (\<lambda>_.
       let floor_ms = (case minimum of None \<Rightarrow> fe_minimum_speech_ms d | Some n \<Rightarrow> n);
           speech_ms = (case speech of Some (i # is) \<Rightarrow> total_duration_ms (i # is) | _ \<Rightarrow> buf_duration_ms b) in
       bindR (guardR (speech_ms < floor_ms) (Sastt InsufficientSpeechForEmbeddingError)) (\<lambda>_.
       bindR (to_mono b) (\<lambda>m.
       let energies = detect_speaker_energies (fe_fourier d) (map fin_value (hd (samples m))) (sample_rate b)
                        (fe_speakers d) in
       bindR (guardR (energies = []) (Sastt InsufficientSpeechForEmbeddingError)) (\<lambda>_.
       bindR (guardR (fe_target_speech_ms d = 0) ZeroDivisionError) (\<lambda>_.
       let weight = sum_list (map snd energies);
           purity = list_max (snd (hd energies)) (map snd (tl energies)) / weight;
           quality = min 1 (of_int speech_ms / of_int (fe_target_speech_ms d)) * purity in
       bindR (l2_normalize (mixed_vector (fe_basis d) energies)) (\<lambda>v.
         mk_embedding v (fe_version d) quality speech_ms origin (Some (buf_interval b)) track))))))"

end
