(* ===== verification/FakeProps.thy ===== *)
theory FakeProps
  imports FakeModels
begin

text \<open>
  What the synthetic sessions promise: the overlap regions of a script are the times when two turns are
  active, the frames of a buffer are its samples, regions heard by the fake models are intervals of the
  timeline, and the recognizer gives the words of the script that fall into the buffer.
\<close>

section \<open>Scripts\<close>

definition valid_turn :: "scripted_turn \<Rightarrow> bool" where
  "valid_turn t \<longleftrightarrow> valid_interval (TI (st_start_ms t) (st_end_ms t))"

abbreviation turn_span :: "scripted_turn \<Rightarrow> time_interval" where
  "turn_span t \<equiv> TI (st_start_ms t) (st_end_ms t)"

lemma scripted_interval_valid: "valid_turn t \<Longrightarrow> scripted_interval t = Inr (turn_span t)"
  by (simp add: scripted_interval_def mk_interval_def valid_turn_def valid_interval_def)

lemma scripted_intervals:
  "\<forall>t\<in>set ts. valid_turn t \<Longrightarrow> mapR scripted_interval ts = Inr (map turn_span ts)"
  by (rule mapR_total) (simp add: scripted_interval_valid)

lemma script_edges_sweep: "script_edges sc = sweep_edges (map turn_span (sc_turns sc))"
  by (simp add: script_edges_def sweep_edges_def image_image)

lemma busy_slots_concat:
  "concat (map (\<lambda>(s, e). if s < e \<and> 2 \<le> active_in is (TI s e) then [TI s e] else []) ps)
   = filter (\<lambda>slot. 2 \<le> active_in is slot) (map (\<lambda>(s, e). TI s e) (filter (\<lambda>(s, e). s < e) ps))"
  by (induction ps) auto

lemma script_busy_slots:
  assumes "\<forall>t\<in>set (sc_turns sc). valid_turn t"
  shows "\<exists>rs. mapR (busy_slot sc) (zip (script_edges sc) (tl (script_edges sc))) = Inr rs
    \<and> concat rs = busy_slots (map turn_span (sc_turns sc))"
proof -
  let ?is = "map turn_span (sc_turns sc)"
  let ?f = "\<lambda>(s, e). if s < e \<and> 2 \<le> active_in ?is (TI s e) then [TI s e] else []"
  have "busy_slot sc se = Inr (?f se)" if "se \<in> set (zip (script_edges sc) (tl (script_edges sc)))" for se
  proof -
    obtain s e where se: "se = (s, e)" by fastforce
    have "s \<in> set (script_edges sc)" using that se by (auto dest: set_zip_leftD)
    then have "0 \<le> s"
      using assms by (auto simp: script_edges_def valid_turn_def valid_interval_def)
    then show ?thesis
      by (simp add: se busy_slot_def mk_interval_def scripted_intervals[OF assms])
  qed
  then have "mapR (busy_slot sc) (zip (script_edges sc) (tl (script_edges sc)))
      = Inr (map ?f (zip (script_edges sc) (tl (script_edges sc))))"
    by (rule mapR_total)
  then show ?thesis
    by (simp add: busy_slots_concat busy_slots_def sweep_slots_def script_edges_sweep)
qed

text \<open>
  The overlap regions of a script are its concurrency. For a script of valid turns, with no gap
  allowed, the regions are those of a list of separate intervals that are long enough, and this list
  covers exactly the milliseconds at which at least two turns are active.
\<close>

theorem script_overlap_is_concurrency:
  assumes "\<forall>t\<in>set (sc_turns sc). valid_turn t"
  shows "\<exists>rs. overlap_intervals sc min_duration 0 = Inr (filter (\<lambda>r. min_duration \<le> duration_ms r) rs)
    \<and> separated 0 rs \<and> (\<forall>r\<in>set rs. valid_interval r)
    \<and> covered rs = {ms. 2 \<le> length (filter (\<lambda>t. st_start_ms t \<le> ms \<and> ms < st_end_ms t) (sc_turns sc))}"
proof -
  let ?is = "map turn_span (sc_turns sc)"
  let ?rs = "merge_intervals (busy_slots ?is) 0"
  have valid: "\<forall>i\<in>set ?is. valid_interval i" using assms by (simp add: valid_turn_def)
  obtain rs where "mapR (busy_slot sc) (zip (script_edges sc) (tl (script_edges sc))) = Inr rs"
    "concat rs = busy_slots ?is" using script_busy_slots[OF assms] by blast
  then have regions: "overlap_intervals sc min_duration 0 = Inr (filter (\<lambda>r. min_duration \<le> duration_ms r) ?rs)"
    by (simp add: overlap_intervals_def)
  have count_: "length (filter (\<lambda>i. ms \<in> span i) ?is)
      = length (filter (\<lambda>t. st_start_ms t \<le> ms \<and> ms < st_end_ms t) (sc_turns sc))" for ms
    by (simp add: filter_map comp_def span_def)
  have "covered ?rs = {ms. 2 \<le> length (filter (\<lambda>t. st_start_ms t \<le> ms \<and> ms < st_end_ms t) (sc_turns sc))}"
    unfolding merge_intervals_covered[OF busy_valid[OF valid]] covered_busy[OF valid] count_ ..
  with regions merge_intervals_separated merge_intervals_valid[OF busy_valid[OF valid]] show ?thesis by blast
qed

section \<open>Words\<close>

lemma trunc_nonneg: "0 \<le> x \<Longrightarrow> trunc x = \<lfloor>x\<rfloor>"
  by (simp add: trunc_def)

lemma scripted_word_eq:
  assumes "scripted_word r s span_ms heard track (index, token) = Inr ws" and "w \<in> set ws"
  shows "w_text w = token \<and> w_start w = s + trunc (real index * span_ms)
    \<and> w_end w = max (s + trunc (real (index + 1) * span_ms)) (w_start w + 1) \<and> w_track w = track
    \<and> valid_word w \<and> intersects (word_interval w) heard"
  using assms
  by (auto simp: scripted_word_def Let_def bindR_eq_Inr mk_word_def valid_word_def
      valid_interval_def intersects_def word_interval_def intersection_ms_def split: if_splits)

text \<open>The tokens of a turn share its time, so every one of them lies inside the turn.\<close>

lemma token_inside:
  fixes d :: int
  assumes "index < n" and "0 < d"
  defines "share \<equiv> of_int d / real n"
  shows "0 \<le> trunc (real index * share)" and "trunc (real index * share) < d"
    and "trunc (real (index + 1) * share) \<le> d"
proof -
  have n: "0 < real n" using assms(1) by simp
  have "real index * share < of_int d"
    using assms(1,2) n by (simp add: share_def field_simps)
  moreover have "real (index + 1) * share \<le> of_int d"
  proof -
    have "real (index + 1) * of_int d \<le> real n * of_int d"
      by (intro mult_right_mono) (use assms(1,2) in auto)
    then show ?thesis using n by (simp add: share_def field_simps)
  qed
  moreover have "0 \<le> share" using assms(2) n by (simp add: share_def)
  ultimately show "0 \<le> trunc (real index * share)" "trunc (real index * share) < d"
    "trunc (real (index + 1) * share) \<le> d"
    by (simp_all add: trunc_nonneg floor_less_iff floor_le_iff)
qed

lemma turn_words_inside:
  assumes "turn_words r speaker interval track t = Inr ws" and "w \<in> set ws"
  shows "st_speaker t = speaker \<and> w_text w \<in> set (split_ws (st_text t)) \<and> valid_word w \<and> w_track w = track
    \<and> st_start_ms t \<le> w_start w \<and> w_end w \<le> st_end_ms t \<and> intersects (word_interval w) interval"
proof -
  let ?tokens = "split_ws (st_text t)"
  let ?share = "of_int (st_end_ms t - st_start_ms t) / real (length ?tokens) :: real"
  obtain heard wss where "st_speaker t = speaker" and valid: "valid_interval (turn_span t)"
    and heard: "clamp (turn_span t) interval = Some heard"
    and words: "mapR (scripted_word r (st_start_ms t) ?share heard track) (List.enumerate 0 ?tokens) = Inr wss"
      "ws = concat wss"
    using assms
    by (auto simp: turn_words_def bindR_eq_Inr Let_def scripted_interval_def valid_interval_def duration_ms_def
        split: if_splits option.splits)
  from assms(2) words(2) obtain part where part: "part \<in> set wss" "w \<in> set part" by auto
  obtain it where it: "it \<in> set (List.enumerate 0 ?tokens)"
    "scripted_word r (st_start_ms t) ?share heard track it = Inr part"
    using mapR_set[OF words(1) part(1)] by blast
  obtain index token where "it = (index, token)" by fastforce
  with it(1) have i: "it = (index, token)" "index < length ?tokens" "token \<in> set ?tokens"
    by (auto simp: in_set_enumerate_eq)
  note w = scripted_word_eq[OF it(2)[unfolded i(1)] part(2)]
  have d: "0 < st_end_ms t - st_start_ms t" using valid by (simp add: valid_interval_def)
  note inside = token_inside[OF i(2) d]
  have "intersects (word_interval w) interval"
    using w heard by (auto simp: clamp_def intersects_def Let_def split: if_splits)
  moreover have "st_start_ms t \<le> w_start w" "w_end w \<le> st_end_ms t" using w inside by auto
  ultimately show ?thesis using w i(3) \<open>st_speaker t = speaker\<close> by simp
qed

text \<open>
  C39: The fake recognizer only says what is in the script. Every word of its result is a token of a
  scripted turn of the speaker who dominates the buffer, lies inside that turn, reaches into the buffer,
  carries the track it was asked for and is valid; and the words come in the order of their start.
\<close>

theorem recognized_words_are_scripted:
  assumes "fake_transcribe r check b language track = Inr result"
  shows "sorted (map w_start (asr_words result))
    \<and> (\<forall>w\<in>set (asr_words result). \<exists>t\<in>set (sc_turns (fr_scenario r)).
         (\<exists>m. to_mono b = Inr m \<and> dominant_speaker (fr_fourier r) (map fin_value (hd (samples m)))
            (sample_rate b) (sc_speakers (fr_scenario r)) = Some (st_speaker t))
         \<and> w_text w \<in> set (split_ws (st_text t)) \<and> valid_word w \<and> w_track w = track
         \<and> st_start_ms t \<le> w_start w \<and> w_end w \<le> st_end_ms t
         \<and> intersects (word_interval w) (buf_interval b))"
proof -
  let ?dominant = "\<lambda>m. dominant_speaker (fr_fourier r) (map fin_value (hd (samples m)))
            (sample_rate b) (sc_speakers (fr_scenario r))"
  from assms obtain m where m: "to_mono b = Inr m"
    and words: "(case ?dominant m of None \<Rightarrow> Inr []
      | Some speaker \<Rightarrow> words_for r speaker (buf_interval b) track) = Inr (asr_words result)"
    by (auto simp: fake_transcribe_def bindR_eq_Inr)
  show ?thesis
  proof (cases "?dominant m")
    case (Some speaker)
    then obtain wss where wss: "mapR (turn_words r speaker (buf_interval b) track) (sc_turns (fr_scenario r)) = Inr wss"
      "asr_words result = sort_key w_start (concat wss)"
      using words by (auto simp: words_for_def bindR_eq_Inr)
    have "\<exists>t\<in>set (sc_turns (fr_scenario r)). turn_words r speaker (buf_interval b) track t = Inr part"
      if "part \<in> set wss" for part
      using mapR_set[OF wss(1) that] .
    then have "\<exists>t\<in>set (sc_turns (fr_scenario r)). st_speaker t = speaker
        \<and> w_text w \<in> set (split_ws (st_text t)) \<and> valid_word w \<and> w_track w = track
        \<and> st_start_ms t \<le> w_start w \<and> w_end w \<le> st_end_ms t
        \<and> intersects (word_interval w) (buf_interval b)" if "w \<in> set (asr_words result)" for w
      using that turn_words_inside unfolding wss(2) by fastforce
    then show ?thesis using m Some wss(2) by fastforce
  qed (use words in simp)
qed

section \<open>Frames\<close>

text \<open>The intervals of the frames of a buffer are intervals of the timeline.\<close>

lemma frames_valid:
  assumes "frames b = Inr fs" and "f \<in> set fs"
  shows "valid_interval (fst f)"
proof -
  have "\<exists>step (m :: audio_buffer). mapR (frame_of b) (chunks step (hd (samples m))) = Inr fs"
    using assms(1) by (auto simp: frames_def bindR_eq_Inr)
  then obtain step and m :: audio_buffer
    where "mapR (frame_of b) (chunks step (hd (samples m))) = Inr fs" by blast
  from mapR_set[OF this assms(2)] obtain c where "frame_of b c = Inr f" by blast
  then show ?thesis by (cases c) (auto simp: frame_of_def bindR_eq_Inr valid_interval_def)
qed

lemma merged_frames_valid:
  assumes "frames b = Inr fs" and "\<forall>i\<in>set is. \<exists>f\<in>set fs. i = fst f"
  shows "\<forall>i\<in>set (merge_intervals is gap). valid_interval i"
proof (rule merge_intervals_valid, intro ballI)
  fix i assume "i \<in> set is"
  then obtain f where "f \<in> set fs" "i = fst f" using assms(2) by blast
  then show "valid_interval i" using frames_valid[OF assms(1)] by simp
qed

lemma mixed_frames_fst:
  "i \<in> set (map fst (mixed_frames (map (hear d rate) fs))) \<Longrightarrow> \<exists>f\<in>set fs. i = fst f"
  by (force simp: mixed_frames_def hear_def)

lemma fake_regions_valid:
  assumes "fake_diarize d check b low high = Inr result"
  shows "\<forall>r\<in>set (overlap_regions result). valid_interval (region_interval r)"
proof -
  define hs where "hs = (\<lambda>fs. filter (\<lambda>h. snd h \<noteq> []) (map (hear d (sample_rate b)) fs))"
  from assms obtain fs where fs: "frames b = Inr fs"
    and regions: "overlap_regions result = map (region_of_frames (fs_version d) (mixed_frames (hs fs)))
        (merge_intervals (map fst (mixed_frames (hs fs))) (FRAME_MS * 2))"
    unfolding fake_diarize_def hs_def by (elim bindR_InrE) (auto simp: Let_def)
  have "\<exists>f\<in>set fs. i = fst f" if "i \<in> set (map fst (mixed_frames (hs fs)))" for i
  proof -
    from that have "\<exists>h\<in>set (hs fs). i = fst h" by (auto simp: mixed_frames_def)
    then show ?thesis by (auto simp: hear_def hs_def)
  qed
  then have "\<forall>i\<in>set (merge_intervals (map fst (mixed_frames (hs fs))) (FRAME_MS * 2)). valid_interval i"
    by (intro merged_frames_valid[OF fs]) blast
  then show ?thesis unfolding regions by (auto simp: region_of_frames_def)
qed

lemma fake_overlap_valid:
  assumes "fake_detect_overlap d min_duration gap check b = Inr osd"
  shows "\<forall>r\<in>set osd. valid_interval (region_interval r) \<and> min_duration \<le> duration_ms (region_interval r)"
    and "separated gap (map region_interval osd)"
proof -
  from assms obtain fs where fs: "frames b = Inr fs"
    and osd: "osd = map (region_of_frames (fs_version d) (mixed_frames (map (hear d (sample_rate b)) fs)))
        (filter (\<lambda>i. min_duration \<le> duration_ms i)
          (merge_intervals (map fst (mixed_frames (map (hear d (sample_rate b)) fs))) gap))"
    by (auto simp: fake_detect_overlap_def bindR_eq_Inr Let_def)
  let ?merged = "merge_intervals (map fst (mixed_frames (map (hear d (sample_rate b)) fs))) gap"
  have "\<forall>i\<in>set ?merged. valid_interval i"
    by (rule merged_frames_valid[OF fs]) (use mixed_frames_fst in blast)
  then show "\<forall>r\<in>set osd. valid_interval (region_interval r) \<and> min_duration \<le> duration_ms (region_interval r)"
    unfolding osd by (auto simp: region_of_frames_def)
  have intervals: "map region_interval (map (region_of_frames v hits) ivs) = ivs" for v hits ivs
    by (induction ivs) (simp_all add: region_of_frames_def)
  show "separated gap (map region_interval osd)"
    unfolding osd intervals
    using merge_intervals_separated[of gap "map fst (mixed_frames (map (hear d (sample_rate b)) fs))"]
    by (simp add: separated_def sorted_wrt_filter)
qed

text \<open>
  What the fake models hear is on the timeline. The regions of the fake diarizer and of the fake
  overlap detector are valid intervals, and those of the detector have the minimal duration and are
  further apart than the gap that is merged, which is what the pipeline assumes of its models.
\<close>

theorem heard_regions_valid:
  assumes "fake_diarize d check b low high = Inr result"
    and "fake_detect_overlap d' min_duration gap check b = Inr osd" and "low \<le> high"
  shows "(\<forall>r\<in>set (overlap_regions result @ osd). valid_interval (region_interval r))
    \<and> (\<forall>r\<in>set osd. min_duration \<le> duration_ms (region_interval r))
    \<and> separated gap (map region_interval osd)
    \<and> low \<le> estimated_session_speakers result \<and> estimated_session_speakers result \<le> high"
proof -
  have "low \<le> estimated_session_speakers result \<and> estimated_session_speakers result \<le> high"
    using assms(1,3) unfolding fake_diarize_def by (elim bindR_InrE) (auto simp: Let_def)
  then show ?thesis
    using fake_regions_valid[OF assms(1)] fake_overlap_valid[OF assms(2)] by auto
qed

section \<open>An example\<close>

text \<open>Two turns that overlap for two seconds, and a transform that finds the first speaker everywhere.\<close>

definition two_turns :: scenario where
  "two_turns =
     \<lparr>sc_name = ''demo'', sc_speakers = [''ann'', ''bob''],
      sc_turns = [\<lparr>st_speaker = ''ann'', st_start_ms = 0, st_end_ms = 4000, st_text = ''good day''\<rparr>,
                  \<lparr>st_speaker = ''bob'', st_start_ms = 2000, st_end_ms = 6000, st_text = ''hi''\<rparr>],
      sc_duration_ms = 6000, sc_sample_rate = 16000, sc_channels = 1, sc_source_orders = [], sc_enrolled = []\<rparr>"

theorem script_overlap_is_concurrency_witness:
  "\<exists>rs. overlap_intervals two_turns 300 0 = Inr (filter (\<lambda>r. 300 \<le> duration_ms r) rs) \<and> covered rs = {2000..<4000}"
proof -
  have "\<forall>t\<in>set (sc_turns two_turns). valid_turn t"
    by (simp add: two_turns_def valid_turn_def valid_interval_def)
  from script_overlap_is_concurrency[OF this, of 300] obtain rs where
    rs: "overlap_intervals two_turns 300 0 = Inr (filter (\<lambda>r. 300 \<le> duration_ms r) rs)"
    "covered rs = {ms. 2 \<le> length (filter (\<lambda>t. st_start_ms t \<le> ms \<and> ms < st_end_ms t) (sc_turns two_turns))}"
    by blast
  have "{ms. 2 \<le> length (filter (\<lambda>t. st_start_ms t \<le> ms \<and> ms < st_end_ms t) (sc_turns two_turns))} = {2000..<4000}"
    by (auto simp: two_turns_def split: if_splits)
  with rs show ?thesis by auto
qed

definition first_bin :: fourier where
  "first_bin = \<lparr>ft_spectrum = (\<lambda>xs. [1]), ft_freqs = (\<lambda>n r. [220]), ft_filtered = (\<lambda>xs bs. xs)\<rparr>"

definition second_of_tone :: audio_buffer where
  "second_of_tone =
     \<lparr>samples = [replicate 4000 (Fin 0)], sample_rate = 4000, start_sample = 0, channel_layout = [''mono''],
      source_clock_hz = 4000\<rparr>"

lemma first_bin_hears: "length xs = n \<Longrightarrow> 32 \<le> n \<Longrightarrow>
    detect_speaker_energies first_bin xs rate [''ann'', ''bob''] = [(''ann'', 1)]"
  by (simp add: detect_speaker_energies_def first_bin_def magnitude_at_def speaker_frequency_def
      BASE_FREQUENCY_HZ_def FREQUENCY_STEP_HZ_def PEAK_RELATIVE_THRESHOLD_def)

definition demo_recognizer :: fake_recognizer where
  "demo_recognizer =
     \<lparr>fr_fourier = first_bin, fr_scenario = two_turns, fr_version = ''v'', fr_language = ''vi'',
      fr_word_probability = 91 / 100\<rparr>"

lemma demo_heard:
  "fake_transcribe demo_recognizer (Inr ()) second_of_tone None None =
     Inr \<lparr>asr_words = [\<lparr>w_text = ''good'', w_start = 0, w_end = 2000, raw_probability = Some (91 / 100),
                          w_track = None, word_id = None\<rparr>],
          detected_language = ''vi'', language_score = None, asr_model_version = ''v'',
          asr_raw_scores = [(''asr_word_probability'', 91 / 100)]\<rparr>"
proof -
  have mono: "to_mono second_of_tone = Inr second_of_tone"
    by (simp add: to_mono_def is_mono_def num_channels_def second_of_tone_def)
  have heard: "dominant_speaker first_bin (map fin_value (hd (samples second_of_tone))) 4000 [''ann'', ''bob''] = Some ''ann''"
    by (simp add: dominant_speaker_def second_of_tone_def first_bin_hears)
  have time: "buf_interval second_of_tone = TI 0 1000"
    by (simp add: buf_interval_def buf_start_ms_def buf_end_ms_def end_sample_def num_samples_def row_length_def
        second_of_tone_def to_ms_def MS_PER_SECOND_def)
  have tokens: "split_ws ''good day'' = [''good'', ''day'']" by code_simp
  have rate: "sample_rate second_of_tone = 4000" by (simp add: second_of_tone_def)
  have whole: "trunc 2000 = 2000" "trunc 4000 = 4000" "trunc 0 = 0" by (simp_all add: trunc_def)
  have words: "words_for demo_recognizer ''ann'' (TI 0 1000) None =
      Inr [\<lparr>w_text = ''good'', w_start = 0, w_end = 2000, raw_probability = Some (91 / 100),
           w_track = None, word_id = None\<rparr>]"
    by (simp add: words_for_def demo_recognizer_def two_turns_def turn_words_def scripted_interval_def clamp_def
        duration_ms_def tokens scripted_word_def intersection_ms_def mk_word_def mk_interval_def whole Let_def
        del: split_ws.simps)
  show ?thesis
    using heard words
    by (simp add: fake_transcribe_def mono time rate demo_recognizer_def two_turns_def)
qed

theorem recognized_words_are_scripted_witness:
  "\<exists>w. asr_words (case fake_transcribe demo_recognizer (Inr ()) second_of_tone None None of Inr r \<Rightarrow> r) = [w]
     \<and> valid_word w \<and> w_end w \<le> 6000"
proof -
  have "valid_word w \<and> w_end w \<le> 6000"
    if "w \<in> set (asr_words result)" "fake_transcribe demo_recognizer (Inr ()) second_of_tone None None = Inr result"
    for w result
  proof -
    from recognized_words_are_scripted[OF that(2)] that(1) obtain t where
      "t \<in> set (sc_turns (fr_scenario demo_recognizer))" "valid_word w" "w_end w \<le> st_end_ms t" by blast
    then show ?thesis by (auto simp: demo_recognizer_def two_turns_def)
  qed
  from this[OF _ demo_heard] show ?thesis by (simp add: demo_heard)
qed

definition one_frame :: audio_buffer where
  "one_frame =
     \<lparr>samples = [replicate 100 (Fin 0)], sample_rate = 1000, start_sample = 0, channel_layout = [''mono''],
      source_clock_hz = 1000\<rparr>"

definition one_speaker :: fake_speakers where
  "one_speaker = \<lparr>fs_fourier = first_bin, fs_speakers = [''ann'', ''bob''], fs_version = ''v''\<rparr>"

lemma one_frame_heard:
  "frames one_frame = Inr [(TI 0 100, replicate 100 0)]"
proof -
  show ?thesis
    by (simp add: frames_def one_frame_def ms_to_samples_def to_samples_def FRAME_MS_def MS_PER_SECOND_def
        to_mono_def is_mono_def num_channels_def chunks_def frame_of_def samples_to_ms_def to_ms_def mk_interval_def)
qed

theorem heard_regions_valid_witness:
  "\<exists>result osd. fake_diarize one_speaker (Inr ()) one_frame 1 5 = Inr result
     \<and> fake_detect_overlap one_speaker 300 200 (Inr ()) one_frame = Inr osd
     \<and> 1 \<le> estimated_session_speakers result \<and> estimated_session_speakers result \<le> 5"
proof -
  obtain result osd where "fake_diarize one_speaker (Inr ()) one_frame 1 5 = Inr result"
    "fake_detect_overlap one_speaker 300 200 (Inr ()) one_frame = Inr osd"
    by (simp add: fake_diarize_def fake_detect_overlap_def one_frame_heard Let_def)
  with heard_regions_valid[OF this] show ?thesis by simp
qed

end
