(* ===== verification/Reports.thy ===== *)
theory Reports
  imports JsonFields AudioBuffer
begin

text \<open>
  Reports over measurements: the word error rate and the benchmark report of
  \<^verbatim>\<open>src/deploy/benchmark_report.py\<close>, and the capacity report of \<^verbatim>\<open>src/deploy/capacity_report.py\<close>. A
  measurement is a JSON object; its numbers are finite.
\<close>

section \<open>Word error rate\<close>

text \<open>
  The cells of the next row after its first one: \<open>diag\<close> and \<open>up\<close> are the cells of the last row at the
  position before and at the position, \<open>left\<close> is the cell just written.
\<close>

fun next_cells :: "'a \<Rightarrow> 'a list \<Rightarrow> nat list \<Rightarrow> nat \<Rightarrow> nat list" where
  "next_cells token (a # as) (diag # up # rest) left =
     (let v = min (up + 1) (min (left + 1) (diag + (if token \<noteq> a then 1 else 0)))
      in v # next_cells token as (up # rest) v)"
| "next_cells token _ _ left = []"

definition next_row :: "'a list \<Rightarrow> nat \<times> 'a \<Rightarrow> nat list \<Rightarrow> nat list" where
  "next_row actual = (\<lambda>(index, token) row. index # next_cells token actual row index)"

definition edit_rows :: "'a list \<Rightarrow> 'a list \<Rightarrow> nat list" where
  "edit_rows expected actual = fold (next_row actual) (List.enumerate 1 expected) [0..<length actual + 1]"

definition word_error_rate :: "string \<Rightarrow> string \<Rightarrow> real" where
  "word_error_rate reference hypothesis =
     (let expected = split_ws reference; actual = split_ws hypothesis in
      if expected = [] then (if actual = [] then 0 else 1)
      else real (List.last (edit_rows expected actual)) / real (length expected))"

section \<open>The benchmark report\<close>

type_synonym evidence = "(string \<times> json) list"

record benchmark_report =
  bm_release :: string
  bm_records :: nat
  bm_wer :: "real option"
  bm_accuracy :: "real option"
  bm_status :: string
  bm_quality_gate :: string

definition wer_of :: "evidence \<Rightarrow> real option" where
  "wer_of item =
     (case (map_of item ''reference_text'', map_of item ''hypothesis_text'') of
        (Some (JStr reference), Some (JStr hypothesis)) \<Rightarrow> Some (word_error_rate reference hypothesis)
      | _ \<Rightarrow> None)"

definition attribution_of :: "evidence \<Rightarrow> real option" where
  "attribution_of item =
     map_option (\<lambda>v. if json_truth v then 1 else 0) (map_of item ''speaker_attributed_correct'')"

definition mean_of :: "real list \<Rightarrow> real option" where
  "mean_of xs = (if xs = [] then None else Some (mean xs))"

definition build_report :: "evidence list \<Rightarrow> string \<Rightarrow> benchmark_report" where
  "build_report scored release_id =
     (let wers = List.map_filter wer_of scored; speaker = List.map_filter attribution_of scored in
      \<lparr>bm_release = release_id, bm_records = length scored, bm_wer = mean_of wers, bm_accuracy = mean_of speaker,
       bm_status = (if wers \<noteq> [] \<or> speaker \<noteq> [] then ''measured'' else ''not_evaluated''),
       bm_quality_gate = ''pending_review''\<rparr>)"

section \<open>The capacity report\<close>

definition SLO_LIMITS :: "(string \<times> real) list" where
  "SLO_LIMITS =
     [(''rtf'', 1 / 2), (''provisional_latency_s'', 5 / 2), (''attributed_latency_s'', 5), (''gpu_utilization'', 4 / 5)]"

definition percentile :: "real list \<Rightarrow> real \<Rightarrow> real option" where
  "percentile xs p =
     (if xs = [] then None else Some (sort xs ! nat (max 0 (\<lceil>p * real (length xs)\<rceil> - 1))))"

text \<open>\<open>isinstance(v, (int, float))\<close>, where truth values are integers, and \<open>float(v)\<close>.\<close>

fun measured :: "json \<Rightarrow> real option" where
  "measured (JInt n) = Some (of_int n)"
| "measured (JReal x) = Some x"
| "measured (JBool b) = Some (if b then 1 else 0)"
| "measured _ = None"

definition measurements_of :: "string \<Rightarrow> evidence list \<Rightarrow> real list" where
  "measurements_of metric rows = List.map_filter (\<lambda>r. Option.bind (map_of r metric) measured) rows"

definition gate_of :: "real option \<Rightarrow> real \<Rightarrow> string" where
  "gate_of v limit =
     (case v of None \<Rightarrow> ''not_evaluated'' | Some x \<Rightarrow> if x \<le> limit then ''pass'' else ''fail'')"

record capacity_report =
  cp_samples :: nat
  cp_p95 :: "(string \<times> real option) list"
  cp_gates :: "(string \<times> string) list"
  cp_overall :: string

definition build_capacity_report :: "evidence list \<Rightarrow> capacity_report" where
  "build_capacity_report rows =
     (let p95 = map (\<lambda>(m, limit). (m, percentile (measurements_of m rows) (95 / 100))) SLO_LIMITS;
          gates = map (\<lambda>(m, limit). (m, gate_of (percentile (measurements_of m rows) (95 / 100)) limit)) SLO_LIMITS
      in \<lparr>cp_samples = length rows, cp_p95 = p95, cp_gates = gates,
          cp_overall = (if gates \<noteq> [] \<and> (\<forall>g\<in>set gates. snd g = ''pass'') then ''pass'' else ''pending'')\<rparr>)"

end
