(* ===== verification/ReportProps.thy ===== *)
theory ReportProps
  imports Reports
begin

text \<open>
  The word error rate is the least number of edits per expected word, the percentile has the rank it is
  named after, and a capacity report passes only on measured values.
\<close>

section \<open>Edits\<close>

inductive edits :: "nat \<Rightarrow> 'a list \<Rightarrow> 'a list \<Rightarrow> bool" where
  Done: "edits 0 [] []"
| Keep: "edits n xs ys \<Longrightarrow> edits n (x # xs) (x # ys)"
| Change: "edits n xs ys \<Longrightarrow> edits (Suc n) (x # xs) (y # ys)"
| Delete: "edits n xs ys \<Longrightarrow> edits (Suc n) (x # xs) ys"
| Insert: "edits n xs ys \<Longrightarrow> edits (Suc n) xs (y # ys)"

fun lev :: "'a list \<Rightarrow> 'a list \<Rightarrow> nat" where
  "lev [] ys = length ys"
| "lev xs [] = length xs"
| "lev (x # xs) (y # ys) =
     min (lev xs (y # ys) + 1) (min (lev (x # xs) ys + 1) (lev xs ys + (if x \<noteq> y then 1 else 0)))"

lemma lev_Nil [simp]: "lev xs [] = length xs"
  by (cases xs) simp_all

lemma lev_delete: "lev (x # xs) ys \<le> lev xs ys + 1"
  by (cases ys) simp_all

lemma lev_insert: "lev xs (y # ys) \<le> lev xs ys + 1"
  by (cases xs) simp_all

lemma edits_lower: "edits n xs ys \<Longrightarrow> lev xs ys \<le> n"
proof (induction rule: edits.induct)
  case (Delete n xs ys x)
  then show ?case using lev_delete[of x xs ys] by simp
next
  case (Insert n xs ys y)
  then show ?case using lev_insert[of xs y ys] by simp
qed auto

lemma edits_insert_all: "edits (length ys) [] ys"
  by (induction ys) (auto intro: edits.intros)

lemma edits_delete_all: "edits (length xs) xs []"
  by (induction xs) (auto intro: edits.intros)

lemma edits_lev: "edits (lev xs ys) xs ys"
proof (induction xs ys rule: lev.induct)
  case (3 x xs y ys)
  then show ?case
    by (auto simp: min_def intro: edits.intros)
qed (auto intro: edits_insert_all edits_delete_all[of "_ # _", simplified])

lemma edits_append: "edits m xs ys \<Longrightarrow> edits n us vs \<Longrightarrow> edits (m + n) (xs @ us) (ys @ vs)"
  by (induction rule: edits.induct) (auto intro: edits.intros)

lemma edits_rev: "edits n xs ys \<Longrightarrow> edits n (rev xs) (rev ys)"
proof (induction rule: edits.induct)
  case (Keep n xs ys x)
  then show ?case using edits_append[OF Keep.IH, of 0 "[x]" "[x]"] by (auto intro: edits.intros)
next
  case (Change n xs ys x y)
  then show ?case using edits_append[OF Change.IH, of 1 "[x]" "[y]"] by (auto intro: edits.intros)
next
  case (Delete n xs ys x)
  then show ?case using edits_append[OF Delete.IH, of 1 "[x]" "[]"] by (auto intro: edits.intros)
next
  case (Insert n xs ys y)
  then show ?case using edits_append[OF Insert.IH, of 1 "[]" "[y]"] by (auto intro: edits.intros)
qed (auto intro: edits.intros)

lemma lev_rev: "lev (rev xs) (rev ys) = lev xs ys"
  by (intro antisym edits_lower)
    (use edits_rev[OF edits_lev, of "xs" "ys"] edits_rev[OF edits_lev, of "rev xs" "rev ys"] in auto)

section \<open>The rows\<close>

text \<open>The distances to all prefixes of a list; the second list is held in reverse.\<close>

fun prefix_levs :: "'a list \<Rightarrow> 'a list \<Rightarrow> 'a list \<Rightarrow> nat list" where
  "prefix_levs ds [] before = [lev ds before]"
| "prefix_levs ds (a # as) before = lev ds before # prefix_levs ds as (a # before)"

lemma prefix_levs_eq: "prefix_levs ds as before = lev ds before # tl (prefix_levs ds as before)"
  by (cases as) simp_all

lemma last_prefix_levs: "List.last (prefix_levs ds as before) = lev ds (rev as @ before)"
proof (induction as arbitrary: before)
  case (Cons a as)
  have "prefix_levs ds as (a # before) \<noteq> []" using prefix_levs_eq by (metis list.distinct(1))
  then show ?case by (simp add: Cons.IH)
qed simp

lemma prefix_levs_Nil: "prefix_levs [] as before = [length before..<length before + length as + 1]"
  by (induction as arbitrary: before) (simp_all add: upt_conv_Cons del: upt_Suc)

lemma next_cells_levs:
  "next_cells token as (prefix_levs ds as before) (lev (token # ds) before) = tl (prefix_levs (token # ds) as before)"
proof (induction as arbitrary: before)
  case (Cons a as)
  have cell: "min (lev ds (a # before) + 1) (min (lev (token # ds) before + 1)
      (lev ds before + (if token \<noteq> a then 1 else 0))) = lev (token # ds) (a # before)"
    by simp
  have "next_cells token (a # as) (prefix_levs ds (a # as) before) (lev (token # ds) before)
      = lev (token # ds) (a # before) # next_cells token as (prefix_levs ds as (a # before)) (lev (token # ds) (a # before))"
    unfolding prefix_levs.simps
    by (subst (1 2) prefix_levs_eq) (simp only: next_cells.simps Let_def cell)
  then show ?case
    using Cons.IH[of "a # before"] prefix_levs_eq[of "token # ds" as "a # before"] by simp
qed simp

lemma edit_rows_levs:
  "fold (next_row actual) (List.enumerate (length ds + 1) rest) (prefix_levs ds actual [])
   = prefix_levs (rev rest @ ds) actual []"
proof (induction rest arbitrary: ds)
  case (Cons t rest)
  have "next_row actual (length ds + 1, t) (prefix_levs ds actual []) = prefix_levs (t # ds) actual []"
    using next_cells_levs[of t actual ds "[]"] prefix_levs_eq[of "t # ds" actual "[]"]
    by (simp add: next_row_def)
  then show ?case using Cons.IH[of "t # ds"] by simp
qed simp

lemma edit_distance: "List.last (edit_rows expected actual) = lev expected actual"
proof -
  have "edit_rows expected actual = prefix_levs (rev expected) actual []"
    using edit_rows_levs[of actual "[]" expected]
    by (simp add: edit_rows_def prefix_levs_Nil del: upt_Suc)
  then show ?thesis by (simp add: last_prefix_levs lev_rev)
qed

text \<open>
  C30: The word error rate is the least number of edits per expected word. For a reference with words, the
  rate is a number of edits over the number of its words, where that many changes, deletions and insertions
  of words turn the reference into the hypothesis and no smaller number does; in particular it is zero
  exactly if the words are the same.
\<close>

theorem word_error_rate_is_least:
  assumes "split_ws reference \<noteq> []"
  shows "\<exists>n. word_error_rate reference hypothesis = real n / real (length (split_ws reference))
    \<and> edits n (split_ws reference) (split_ws hypothesis)
    \<and> (\<forall>m. edits m (split_ws reference) (split_ws hypothesis) \<longrightarrow> n \<le> m)
    \<and> (n = 0 \<longleftrightarrow> split_ws reference = split_ws hypothesis)"
proof -
  let ?n = "lev (split_ws reference) (split_ws hypothesis)"
  have same: "edits 0 xs xs" for xs :: "string list"
    by (induction xs) (auto intro: edits.intros)
  have zero: "xs = ys" if "edits 0 xs ys" for xs ys :: "string list"
    using that by (induction "0 :: nat" xs ys rule: edits.induct) auto
  have "word_error_rate reference hypothesis = real ?n / real (length (split_ws reference))"
    using assms by (simp add: word_error_rate_def edit_distance Let_def)
  moreover have "?n = 0 \<longleftrightarrow> split_ws reference = split_ws hypothesis"
  proof
    assume "?n = 0"
    then show "split_ws reference = split_ws hypothesis"
      using zero edits_lev[of "split_ws reference" "split_ws hypothesis"] by simp
  next
    assume "split_ws reference = split_ws hypothesis"
    then show "?n = 0" using edits_lower[OF same, of "split_ws reference"] by simp
  qed
  moreover have "edits ?n (split_ws reference) (split_ws hypothesis)" by (rule edits_lev)
  moreover have "\<forall>m. edits m (split_ws reference) (split_ws hypothesis) \<longrightarrow> ?n \<le> m"
    using edits_lower by blast
  ultimately show ?thesis by (intro exI[of _ ?n] conjI)
qed

theorem word_error_rate_is_least_witness:
  "\<exists>n. word_error_rate ''a b c'' ''a x c d'' = real n / 3 \<and> edits n [''a'', ''b'', ''c''] [''a'', ''x'', ''c'', ''d'']"
proof -
  have words: "split_ws ''a b c'' = [''a'', ''b'', ''c'']" "split_ws ''a x c d'' = [''a'', ''x'', ''c'', ''d'']"
    by code_simp+
  show ?thesis
    using word_error_rate_is_least[of "''a b c''" "''a x c d''", unfolded words] by auto
qed

section \<open>Percentiles and gates\<close>

lemma sorted_index_rank:
  fixes xs :: "real list"
  assumes "sorted xs" and "k < length xs"
  shows "k + 1 \<le> length (filter (\<lambda>x. x \<le> xs ! k) xs)" and "length (filter (\<lambda>x. x < xs ! k) xs) \<le> k"
proof -
  have split_: "xs = take (k + 1) xs @ drop (k + 1) xs" by simp
  have low: "\<forall>x\<in>set (take (k + 1) xs). x \<le> xs ! k"
    using assms by (auto simp: in_set_conv_nth sorted_nth_mono)
  then have "filter (\<lambda>x. x \<le> xs ! k) (take (k + 1) xs) = take (k + 1) xs" by simp
  then have "length (filter (\<lambda>x. x \<le> xs ! k) xs) = k + 1 + length (filter (\<lambda>x. x \<le> xs ! k) (drop (k + 1) xs))"
    using assms(2) by (subst split_, subst filter_append) simp
  then show "k + 1 \<le> length (filter (\<lambda>x. x \<le> xs ! k) xs)" by simp
  have high: "\<forall>x\<in>set (drop k xs). \<not> x < xs ! k"
    using assms by (auto simp: in_set_conv_nth sorted_nth_mono not_less)
  have "filter (\<lambda>x. x < xs ! k) (drop k xs) = []" using high by (simp add: filter_empty_conv)
  then have "length (filter (\<lambda>x. x < xs ! k) xs) = length (filter (\<lambda>x. x < xs ! k) (take k xs))"
    by (metis append_take_drop_id filter_append append_Nil2)
  then show "length (filter (\<lambda>x. x < xs ! k) xs) \<le> k"
    using length_filter_le[of "\<lambda>x. x < xs ! k" "take k xs"] assms(2) by simp
qed

lemma percentile_rank:
  assumes "xs \<noteq> []" and "0 < p" and "p \<le> 1"
  shows "\<exists>v. percentile xs p = Some v \<and> v \<in> set xs
    \<and> p * real (length xs) \<le> real (length (filter (\<lambda>x. x \<le> v) xs))
    \<and> real (length (filter (\<lambda>x. x < v) xs)) < p * real (length xs)"
proof -
  let ?n = "length xs"
  define c where "c = \<lceil>p * real ?n\<rceil>"
  have n: "0 < real ?n" using assms(1) by simp
  have "0 < p * real ?n" "p * real ?n \<le> real ?n" using assms n by (simp_all add: mult_left_le_one_le)
  then have c: "1 \<le> c" "c \<le> int ?n" unfolding c_def by linarith+
  define k where "k = nat (c - 1)"
  have k: "k < ?n" "real k + 1 = of_int c" using c unfolding k_def by auto
  let ?v = "sort xs ! k"
  have rank: "k + 1 \<le> length (filter (\<lambda>x. x \<le> ?v) (sort xs))" "length (filter (\<lambda>x. x < ?v) (sort xs)) \<le> k"
    using sorted_index_rank[of "sort xs" k] k(1) by simp_all
  have count_: "length (filter P (sort xs)) = length (filter P xs)" for P :: "real \<Rightarrow> bool"
    by (simp add: filter_sort)
  have "percentile xs p = Some ?v"
    using assms(1) c by (simp add: percentile_def c_def[symmetric] k_def)
  moreover have "?v \<in> set xs" using k(1) by (metis length_sort nth_mem set_sort)
  moreover have "p * real ?n \<le> of_int c" "of_int c < p * real ?n + 1" unfolding c_def by linarith+
  ultimately show ?thesis using rank k(2) unfolding count_ by auto
qed

text \<open>
  A capacity report passes only on measurements. It says pass exactly if each of the four metrics was
  measured in some row and is within its limit at its 95th percentile, that is, at least 95 of 100 of its
  values are at most a value that is within the limit.
\<close>

theorem capacity_passes_only_measured:
  "cp_overall (build_capacity_report rows) = ''pass''
   \<longleftrightarrow> (\<forall>(m, limit)\<in>set SLO_LIMITS. measurements_of m rows \<noteq> []
         \<and> 95 / 100 * real (length (measurements_of m rows))
             \<le> real (length (filter (\<lambda>x. x \<le> limit) (measurements_of m rows))))"
  (is "_ \<longleftrightarrow> (\<forall>(m, limit)\<in>set SLO_LIMITS. ?met m limit)")
proof -
  have gate: "gate_of (percentile xs (95 / 100)) limit = ''pass''
      \<longleftrightarrow> xs \<noteq> [] \<and> 95 / 100 * real (length xs) \<le> real (length (filter (\<lambda>x. x \<le> limit) xs))" for xs limit
  proof (cases "xs = []")
    case False
    obtain v where v: "percentile xs (95 / 100) = Some v"
      "95 / 100 * real (length xs) \<le> real (length (filter (\<lambda>x. x \<le> v) xs))"
      "real (length (filter (\<lambda>x. x < v) xs)) < 95 / 100 * real (length xs)"
      using percentile_rank[OF False, of "95 / 100"] by auto
    have more: "length (filter (\<lambda>x. x \<le> v) xs) \<le> length (filter (\<lambda>x. x \<le> limit) xs)" if "v \<le> limit"
      using that by (induction xs) auto
    have less: "length (filter (\<lambda>x. x \<le> limit) xs) \<le> length (filter (\<lambda>x. x < v) xs)" if "\<not> v \<le> limit"
      using that by (induction xs) auto
    show ?thesis using False v more less by (cases "v \<le> limit") (auto simp: gate_of_def)
  qed (simp add: gate_of_def percentile_def)
  have some: "SLO_LIMITS \<noteq> []" by (simp add: SLO_LIMITS_def)
  have "cp_overall (build_capacity_report rows) = ''pass''
      \<longleftrightarrow> (\<forall>(m, limit)\<in>set SLO_LIMITS. gate_of (percentile (measurements_of m rows) (95 / 100)) limit = ''pass'')"
    unfolding build_capacity_report_def Let_def using some by (auto split: prod.splits if_splits)
  then show ?thesis unfolding gate .
qed

end
