(* ===== verification/Migrations.thy ===== *)
theory Migrations
  imports Effects PcmAudio
begin

text \<open>
  Schema migrations (\<^verbatim>\<open>src/deploy/migrate.py\<close>). The database is its tables, which only the migrations
  change, and the table of applied files, if it exists. What the statements of a file do to the tables is a
  parameter, as is SHA-256; a block between two commits is a transaction.
\<close>

section \<open>State\<close>

record 'd migration_db =
  md_tables :: 'd
  md_applied :: "(string \<times> string) list option"

record 'd migrator =
  mg_files :: "(string \<times> bytes) list"
  mg_sha256 :: "bytes \<Rightarrow> string"
  mg_execute :: "bytes \<Rightarrow> 'd \<Rightarrow> 'd res"

text \<open>\<open>sorted(MIGRATIONS_DIR.glob("*.sql"))\<close>: the files of the directory by name.\<close>

definition migration_files :: "'d migrator \<Rightarrow> (string \<times> bytes) list" where
  "migration_files g = sort_key fst (mg_files g)"

definition applied_rows :: "'d migration_db \<Rightarrow> (string \<times> string) list" where
  "applied_rows s = (case md_applied s of None \<Rightarrow> [] | Some rows \<Rightarrow> rows)"

section \<open>One run\<close>

text \<open>\<open>CREATE TABLE IF NOT EXISTS schema_migrations\<close>.\<close>

definition bootstrap :: "('d migration_db, unit) action" where
  "bootstrap = modifyS (\<lambda>s. s\<lparr>md_applied := Some (applied_rows s)\<rparr>)"

text \<open>The loop over the files: \<open>Inl\<close> is the return on a file that was edited.\<close>

definition classify :: "'d migrator \<Rightarrow> (string \<times> string) list \<Rightarrow> (string \<times> bytes) list \<Rightarrow> int + (string \<times> bytes) list" where
  "classify g recorded files =
     foldR (\<lambda>f pending.
       case map_of recorded (fst f) of
         None \<Rightarrow> Inr (pending @ [f])
       | Some digest \<Rightarrow> if digest \<noteq> mg_sha256 g (snd f) then Inl 1 else Inr pending) files []"

definition apply_migration :: "'d migrator \<Rightarrow> string \<times> bytes \<Rightarrow> ('d migration_db, unit) action" where
  "apply_migration g f =
     updateS (\<lambda>s.
       bindR (mg_execute g (snd f) (md_tables s)) (\<lambda>tables.
       bindR (guardR (fst f \<in> fst ` set (applied_rows s)) DatabaseError) (\<lambda>_.
         Inr (s\<lparr>md_tables := tables, md_applied := Some (applied_rows s @ [(fst f, mg_sha256 g (snd f))])\<rparr>, ()))))"

definition migrate :: "'d migrator \<Rightarrow> bool \<Rightarrow> ('d migration_db, int) action" where
  "migrate g only_status =
     bindS bootstrap (\<lambda>_.
     bindS (readS applied_rows) (\<lambda>recorded.
       case classify g recorded (migration_files g) of
         Inl code \<Rightarrow> returnS code
       | Inr pending \<Rightarrow>
           if only_status \<or> pending = [] then returnS 0
           else bindS (foldS (\<lambda>f _. apply_migration g f) pending ()) (\<lambda>_. returnS 0)))"

section \<open>What a run does\<close>

lemma classify_eq:
  "classify g recorded files =
     (if \<exists>f\<in>set files. \<exists>d. map_of recorded (fst f) = Some d \<and> d \<noteq> mg_sha256 g (snd f) then Inl 1
      else Inr (filter (\<lambda>f. map_of recorded (fst f) = None) files))"
proof -
  let ?step = "\<lambda>f pending. case map_of recorded (fst f) of None \<Rightarrow> Inr (pending @ [f])
      | Some digest \<Rightarrow> if digest \<noteq> mg_sha256 g (snd f) then Inl 1 else Inr pending"
  have "foldR ?step files acc =
      (if \<exists>f\<in>set files. \<exists>d. map_of recorded (fst f) = Some d \<and> d \<noteq> mg_sha256 g (snd f) then Inl 1
       else Inr (acc @ filter (\<lambda>f. map_of recorded (fst f) = None) files))" for acc :: "(string \<times> bytes) list"
    by (induction files arbitrary: acc) (auto split: option.splits)
  from this[of "[]"] show ?thesis unfolding classify_def by (simp only: append_Nil)
qed

lemma apply_migration_cases:
  "(\<exists>tables. mg_execute g (snd f) (md_tables s) = Inr tables \<and> fst f \<notin> fst ` set (applied_rows s)
      \<and> apply_migration g f s = (s\<lparr>md_tables := tables,
          md_applied := Some (applied_rows s @ [(fst f, mg_sha256 g (snd f))])\<rparr>, Inr ()))
   \<or> (\<exists>e. apply_migration g f s = (s, Inl e))"
  by (cases "mg_execute g (snd f) (md_tables s)")
    (auto simp: apply_migration_def updateS_def guardR_def)

text \<open>
  A database whose tables are what the recorded files made of the empty ones, each file once and in the
  order of the records, as long as the files are what they were when they were applied.
\<close>

definition executed :: "'d migrator \<Rightarrow> (string \<times> string) list \<Rightarrow> 'd \<Rightarrow> 'd res" where
  "executed g recorded start =
     foldR (\<lambda>r t. case map_of (mg_files g) (fst r) of None \<Rightarrow> Inl KeyError | Some content \<Rightarrow> mg_execute g content t)
       recorded start"

definition consistent :: "'d migrator \<Rightarrow> 'd \<Rightarrow> 'd migration_db \<Rightarrow> bool" where
  "consistent g start s \<longleftrightarrow>
     executed g (applied_rows s) start = Inr (md_tables s) \<and> distinct (map fst (applied_rows s))"

definition stays_consistent :: "'d migrator \<Rightarrow> 'd \<Rightarrow> 'd migration_db \<Rightarrow> 'd migration_db \<Rightarrow> bool" where
  "stays_consistent g start s s' \<longleftrightarrow> (consistent g start s \<longrightarrow> consistent g start s')"

interpretation migrating: state_relation "stays_consistent g start" for g start
  by unfold_locales (auto simp: stays_consistent_def)

lemma applied_rows_update [simp]:
  "applied_rows (s\<lparr>md_applied := Some rows\<rparr>) = rows"
  "applied_rows (s\<lparr>md_tables := t, md_applied := Some rows\<rparr>) = rows"
  "applied_rows (s\<lparr>md_tables := t\<rparr>) = applied_rows s"
  by (simp_all add: applied_rows_def)

lemma apply_consistent:
  assumes "f \<in> set (mg_files g)" and "distinct (map fst (mg_files g))"
  shows "migrating.keeps g start (apply_migration g f)"
  unfolding migrating.keeps_def stays_consistent_def
proof (intro allI impI)
  fix s assume s: "consistent g start s"
  have content: "map_of (mg_files g) (fst f) = Some (snd f)" using assms by simp
  show "consistent g start (fst (apply_migration g f s))"
    using apply_migration_cases[of g f s]
  proof (elim disjE exE conjE)
    fix tables
    assume run: "mg_execute g (snd f) (md_tables s) = Inr tables" "fst f \<notin> fst ` set (applied_rows s)"
      "apply_migration g f s = (s\<lparr>md_tables := tables,
          md_applied := Some (applied_rows s @ [(fst f, mg_sha256 g (snd f))])\<rparr>, Inr ())"
    have "executed g (applied_rows s @ [(fst f, mg_sha256 g (snd f))]) start = Inr tables"
      using s run(1) content by (simp add: executed_def consistent_def foldR_append)
    then show ?thesis using s run(2,3) by (simp add: consistent_def)
  qed (use s in simp)
qed

lemma applying_consistent:
  assumes "\<forall>f\<in>set fs. f \<in> set (mg_files g)" and "distinct (map fst (mg_files g))"
  shows "migrating.keeps g start (foldS (\<lambda>f _. apply_migration g f) fs ())"
  using assms(1) by (induction fs) (auto intro!: migrating.keeps_bind migrating.keeps_return apply_consistent[OF _ assms(2)])

lemma migrate_consistent:
  assumes "distinct (map fst (mg_files g))"
  shows "migrating.keeps g start (migrate g only_status)"
proof -
  have boot: "migrating.keeps g start bootstrap"
    by (auto simp: bootstrap_def stays_consistent_def consistent_def intro!: migrating.keeps_modify)
  have "migrating.keeps g start (foldS (\<lambda>f _. apply_migration g f) pending ())"
    if "classify g recorded (migration_files g) = Inr pending" for recorded pending
    using that assms by (intro applying_consistent) (auto simp: classify_eq migration_files_def split: if_splits)
  then show ?thesis
    unfolding migrate_def
    by (intro migrating.keeps_bind boot migrating.keeps_read)
      (auto split: sum.splits intro!: migrating.keeps_bind migrating.keeps_return)
qed

text \<open>
  C29: Every migration runs once. Whatever runs are made, with \<open>--status\<close> or not, whether they end or a
  statement fails in the middle, the tables are always those that the recorded files make of the first ones,
  each file executed once in the order of the records: a failed file leaves no trace, and the files before
  it are not executed again.
\<close>

theorem migrations_run_once:
  assumes "distinct (map fst (mg_files g))" and "md_tables s = start" and "md_applied s = None"
  shows "executed g (applied_rows (fold (\<lambda>only_status s. fst (migrate g only_status s)) runs s)) start
      = Inr (md_tables (fold (\<lambda>only_status s. fst (migrate g only_status s)) runs s))
    \<and> distinct (map fst (applied_rows (fold (\<lambda>only_status s. fst (migrate g only_status s)) runs s)))"
proof -
  have "consistent g start (fold (\<lambda>only_status s. fst (migrate g only_status s)) runs s)"
    if "consistent g start s" for s
    using that
  proof (induction runs arbitrary: s)
    case (Cons r runs)
    have "consistent g start (fst (migrate g r s))"
      using migrate_consistent[OF assms(1)] Cons.prems unfolding migrating.keeps_def stays_consistent_def by blast
    then show ?case using Cons.IH by simp
  qed simp
  moreover have "consistent g start s"
    using assms(2,3) by (simp add: consistent_def executed_def applied_rows_def)
  ultimately show ?thesis by (simp add: consistent_def)
qed

lemma applying_rows:
  assumes "foldS (\<lambda>f _. apply_migration g f) fs () s = (s', Inr ())"
  shows "applied_rows s' = applied_rows s @ map (\<lambda>f. (fst f, mg_sha256 g (snd f))) fs"
  using assms
proof (induction fs arbitrary: s)
  case (Cons f fs)
  then obtain t where t: "apply_migration g f s = (t, Inr ())"
    "foldS (\<lambda>f _. apply_migration g f) fs () t = (s', Inr ())" by (auto simp: action_simps)
  then show ?case using apply_migration_cases[of g f s] Cons.IH[OF t(2)] by auto
qed (simp add: action_simps)

lemma applying_created:
  assumes "foldS (\<lambda>f _. apply_migration g f) fs () s = (s', Inr ())" and "md_applied s \<noteq> None"
  shows "md_applied s' \<noteq> None"
  using assms
proof (induction fs arbitrary: s)
  case (Cons f fs)
  then obtain t where t: "apply_migration g f s = (t, Inr ())"
    "foldS (\<lambda>f _. apply_migration g f) fs () t = (s', Inr ())" by (auto simp: action_simps)
  then have "md_applied t \<noteq> None" using apply_migration_cases[of g f s] by auto
  with Cons.IH[OF t(2)] show ?case .
qed (simp add: action_simps)

lemma bootstrap_again: "md_applied s \<noteq> None \<Longrightarrow> bootstrap s = (s, Inr ())"
  by (auto simp: bootstrap_def modifyS_def applied_rows_def)

text \<open>
  A run that ends without an error leaves nothing to do. After it, with the files unchanged, every
  further run returns 0 and changes nothing at all.
\<close>

theorem migrating_again_changes_nothing:
  assumes "migrate g False s = (s', Inr 0)" and "distinct (map fst (mg_files g))"
  shows "migrate g only_status s' = (s', Inr 0)"
proof -
  define s1 where "s1 = fst (bootstrap s)"
  have s1: "bootstrap s = (s1, Inr ())" "md_applied s1 \<noteq> None"
    by (auto simp: s1_def bootstrap_def modifyS_def)
  let ?files = "migration_files g"
  have run: "(case classify g (applied_rows s1) ?files of Inl code \<Rightarrow> returnS code
      | Inr pending \<Rightarrow> if pending = [] then returnS 0
          else bindS (foldS (\<lambda>f _. apply_migration g f) pending ()) (\<lambda>_. returnS 0)) s1 = (s', Inr 0)"
    using assms(1) s1(1) by (simp add: migrate_def bindS_def readS_def cong: sum.case_cong)
  define pending where "pending = filter (\<lambda>f. map_of (applied_rows s1) (fst f) = None) ?files"
  have same: "\<forall>f\<in>set ?files. \<forall>d. map_of (applied_rows s1) (fst f) = Some d \<longrightarrow> d = mg_sha256 g (snd f)"
    using run by (auto simp: classify_eq returnS_def split: if_splits)
  then have "classify g (applied_rows s1) ?files = Inr pending"
    by (auto simp: classify_eq pending_def)
  with run have after: "applied_rows s' = applied_rows s1 @ map (\<lambda>f. (fst f, mg_sha256 g (snd f))) pending"
    and created: "md_applied s' \<noteq> None"
  proof -
    have "(if pending = [] then returnS 0
          else bindS (foldS (\<lambda>f _. apply_migration g f) pending ()) (\<lambda>_. returnS 0)) s1 = (s', Inr (0 :: int))"
      using run \<open>classify g (applied_rows s1) ?files = Inr pending\<close> by simp
    then have done_: "foldS (\<lambda>f _. apply_migration g f) pending () s1 = (s', Inr ())"
      by (cases "pending = []") (auto simp: action_simps)
    show "applied_rows s' = applied_rows s1 @ map (\<lambda>f. (fst f, mg_sha256 g (snd f))) pending"
      by (rule applying_rows[OF done_])
    show "md_applied s' \<noteq> None" using applying_created[OF done_] s1(2) by blast
  qed
  have files: "distinct (map fst ?files)" using assms(2) by (simp add: migration_files_def distinct_map)
  have "map_of (applied_rows s') (fst f) = Some (mg_sha256 g (snd f))" if "f \<in> set ?files" for f
  proof (cases "map_of (applied_rows s1) (fst f)")
    case None
    then have "f \<in> set pending" using that by (simp add: pending_def)
    moreover have "distinct (map fst pending)" using files by (simp add: pending_def distinct_map_filter)
    ultimately have "map_of (map (\<lambda>f. (fst f, mg_sha256 g (snd f))) pending) (fst f) = Some (mg_sha256 g (snd f))"
      by (auto simp: map_of_eq_Some_iff comp_def image_iff intro!: map_of_is_SomeI)
    with None show ?thesis by (simp add: after map_add_def)
  next
    case (Some d)
    then show ?thesis using same that by (simp add: after map_add_def split: option.splits)
  qed
  then have "classify g (applied_rows s') ?files = Inr []" by (auto simp: classify_eq)
  then show ?thesis
    by (simp add: migrate_def bindS_def bootstrap_again[OF created] readS_def returnS_def)
qed

text \<open>
  An edited migration stops the run. If the recorded digest of a file is not that of its content, the
  run returns 1 before any statement is executed: the tables and the records stay as they are.
\<close>

theorem edited_migration_refused:
  assumes "f \<in> set (mg_files g)" and "map_of (applied_rows s) (fst f) = Some d" and "d \<noteq> mg_sha256 g (snd f)"
  shows "\<exists>s'. migrate g only_status s = (s', Inr 1) \<and> md_tables s' = md_tables s \<and> applied_rows s' = applied_rows s"
proof -
  have "classify g (applied_rows s) (migration_files g) = Inl 1"
    using assms by (auto simp: classify_eq migration_files_def)
  then show ?thesis
    by (simp add: migrate_def bindS_def bootstrap_def modifyS_def readS_def returnS_def)
qed

section \<open>An example\<close>

text \<open>Two files, where the second one fails when the tables hold two entries.\<close>

definition demo_migrator :: "string list migrator" where
  "demo_migrator =
     \<lparr>mg_files = [(''002.sql'', [2]), (''001.sql'', [1])], mg_sha256 = (\<lambda>b. if b = [1] then ''d1'' else ''d2''),
      mg_execute = (\<lambda>b t. if b = [1] then Inr (t @ [''users'']) else if length t < 2 then Inr (t @ [''jobs'']) else Inl DatabaseError)\<rparr>"

definition fresh_db :: "string list migration_db" where
  "fresh_db = \<lparr>md_tables = [], md_applied = None\<rparr>"

lemma demo_migrated:
  "migrate demo_migrator False fresh_db =
     (\<lparr>md_tables = [''users'', ''jobs''], md_applied = Some [(''001.sql'', ''d1''), (''002.sql'', ''d2'')]\<rparr>, Inr 0)"
proof -
  have files: "sort_key fst [(''002.sql'', [2::8 Word.word]), (''001.sql'', [1])] = [(''001.sql'', [1]), (''002.sql'', [2])]"
    by code_simp
  show ?thesis
    by (simp add: migrate_def migration_files_def demo_migrator_def files fresh_db_def bootstrap_def modifyS_def
        bindS_def readS_def returnS_def applied_rows_def classify_def apply_migration_def updateS_def)
qed

theorem migrations_run_once_witness:
  "executed demo_migrator [(''001.sql'', ''d1''), (''002.sql'', ''d2'')] [] = Inr [''users'', ''jobs'']"
  using migrations_run_once[of demo_migrator fresh_db "[]" "[False]"]
  by (simp add: demo_migrated) (simp add: demo_migrator_def fresh_db_def applied_rows_def)

theorem migrating_again_changes_nothing_witness:
  "\<exists>s. migrate demo_migrator False fresh_db = (s, Inr 0) \<and> migrate demo_migrator False s = (s, Inr 0)"
  using migrating_again_changes_nothing[OF demo_migrated, of False] demo_migrated
  by (simp add: demo_migrator_def)

theorem edited_migration_refused_witness:
  "\<exists>s'. migrate demo_migrator False \<lparr>md_tables = [], md_applied = Some [(''001.sql'', ''old'')]\<rparr> = (s', Inr 1)
     \<and> md_tables s' = []"
  using edited_migration_refused[of "(''001.sql'', [1])" demo_migrator
      "\<lparr>md_tables = [], md_applied = Some [(''001.sql'', ''old'')]\<rparr>" "''old''" False]
  by (auto simp: demo_migrator_def applied_rows_def)

end
