(* ===== verification/ModelAdapters.thy ===== *)
theory ModelAdapters
  imports FakeModels
begin

text \<open>
  The code around the models: recognition and voice activity of faster-whisper
  (\<^verbatim>\<open>src/src/sastt/adapters/faster_whisper/recognizer.py\<close>), separation of ClearerVoice and SpeechBrain
  (\<^verbatim>\<open>clearvoice/separator.py\<close>, \<^verbatim>\<open>speechbrain/sepformer.py\<close>) and the CAM++ embedding
  (\<^verbatim>\<open>speaker3d/embedder.py\<close>). The models are parameters, as is the resampling of SciPy; their signals are
  lists of finite numbers.
\<close>

text \<open>\<open>except Exception\<close> after \<open>except SasttError: raise\<close>.\<close>

definition contained :: "'a res \<Rightarrow> 'a res" where
  "contained r =
     (case r of Inr x \<Rightarrow> Inr x | Inl (Sastt e) \<Rightarrow> Inl (Sastt e) | Inl e \<Rightarrow> Inl (Sastt PlainSasttError))"

definition failing_as :: "sastt_error \<Rightarrow> 'a res \<Rightarrow> 'a res" where
  "failing_as e r = (case r of Inr x \<Rightarrow> Inr x | Inl e' \<Rightarrow> Inl (Sastt e))"

definition mono_signal :: "audio_buffer \<Rightarrow> real list res" where
  "mono_signal b = bindR (to_mono b) (\<lambda>m. Inr (map fin_value (hd (samples m))))"

section \<open>Recognition\<close>

record whisper_word =
  ww_start :: real
  ww_end :: real
  ww_text :: string
  ww_probability :: "real option"

record whisper =
  wh_transcribe :: "real list \<Rightarrow> string option \<Rightarrow> (whisper_word list option list \<times> string option) res"
  wh_detect :: "real list \<Rightarrow> (string \<times> real) res"
  wh_version :: string
  wh_language :: "string option"
  wh_min_word_ms :: int

definition whisper_detect_language :: "whisper \<Rightarrow> unit res \<Rightarrow> audio_buffer \<Rightarrow> (string \<times> real) res" where
  "whisper_detect_language w check b =
     bindR check (\<lambda>_. bindR (mono_signal b) (\<lambda>xs. failing_as PlainSasttError (wh_detect w xs)))"

text \<open>One word of a segment; a word without text is skipped.\<close>

definition whisper_word_at :: "whisper \<Rightarrow> int \<Rightarrow> nat option \<Rightarrow> whisper_word \<Rightarrow> word list res" where
  "whisper_word_at w offset track x =
     (let start = offset + py_round (ww_start x * 1000);
          fin = offset + py_round (ww_end x * 1000);
          fin = (if fin - start < wh_min_word_ms w then start + wh_min_word_ms w else fin);
          said = strip (ww_text x);
          probability = (case ww_probability x of None \<Rightarrow> 0 | Some p \<Rightarrow> p)
      in if said = [] then Inr []
         else bindR (mk_word said (max 0 start) (max 1 fin) (Some probability) track None) (\<lambda>v. Inr [v]))"

definition whisper_words :: "whisper \<Rightarrow> int \<Rightarrow> nat option \<Rightarrow> whisper_word list option list \<Rightarrow> word list res" where
  "whisper_words w offset track segs =
     bindR (mapR (whisper_word_at w offset track)
       (concat (map (\<lambda>ws. case ws of None \<Rightarrow> [] | Some xs \<Rightarrow> xs) segs))) (\<lambda>found. Inr (concat found))"

definition whisper_language :: "whisper \<Rightarrow> string option \<Rightarrow> string option" where
  "whisper_language w language = (if truthy language then language else wh_language w)"

definition whisper_transcribe ::
  "whisper \<Rightarrow> unit res \<Rightarrow> audio_buffer \<Rightarrow> string option \<Rightarrow> nat option \<Rightarrow> asr_result res" where
  "whisper_transcribe w check b language track =
     bindR check (\<lambda>_.
     bindR (mono_signal b) (\<lambda>xs.
     bindR (contained
         (bindR (wh_transcribe w xs (whisper_language w language)) (\<lambda>(segs, info).
          bindR (whisper_words w (buf_start_ms b) track segs) (\<lambda>ws. Inr (ws, info))))) (\<lambda>(ws, info).
       Inr \<lparr>asr_words = ws,
            detected_language = (case info of Some l \<Rightarrow> l | None \<Rightarrow> str_opt (whisper_language w language)),
            language_score = None, asr_model_version = wh_version w,
            asr_raw_scores =
              (if ws = [] then []
               else [(''asr_word_probability'', mean (map (\<lambda>v. the (raw_probability v)) ws))])\<rparr>)))"

text \<open>The chunks of the voice activity detector are positions in samples.\<close>

definition silero_interval :: "audio_buffer \<Rightarrow> int \<times> int \<Rightarrow> time_interval list res" where
  "silero_interval b = (\<lambda>(first, final).
     let start = buf_start_ms b + py_round (of_int first * 1000 / of_int (sample_rate b));
         fin = buf_start_ms b + py_round (of_int final * 1000 / of_int (sample_rate b))
     in if start < fin then bindR (mk_interval start fin) (\<lambda>i. Inr [i]) else Inr [])"

definition silero_detect ::
  "(real list \<Rightarrow> (int \<times> int) list res) \<Rightarrow> unit res \<Rightarrow> audio_buffer \<Rightarrow> time_interval list res" where
  "silero_detect speech_timestamps check b =
     bindR check (\<lambda>_.
     bindR (mono_signal b) (\<lambda>xs.
     bindR (failing_as PlainSasttError (speech_timestamps xs)) (\<lambda>found.
     bindR (mapR (silero_interval b) found) (\<lambda>is. Inr (concat is)))))"

section \<open>Separation\<close>

definition MOSSFORMER_SAMPLE_RATE :: int where "MOSSFORMER_SAMPLE_RATE = 16000"
definition MOSSFORMER_SOURCE_COUNTS :: "int list" where "MOSSFORMER_SOURCE_COUNTS = [2]"
definition MIN_SOURCE_SPEECH_MS :: int where "MIN_SOURCE_SPEECH_MS = 500"
definition LOW_ENERGY_RATIO :: real where "LOW_ENERGY_RATIO = 2 / 100"

definition tiny :: real where "tiny = 1 / 10 ^ 9"

text \<open>\<open>sources.sum(axis=0)\<close> and \<open>mixture - rest\<close>, which only broadcasts a rest of one sample.\<close>

definition column_sums :: "real list list \<Rightarrow> real list" where
  "column_sums srcs = map (\<lambda>i. sum_list (map (\<lambda>s. s ! i) srcs)) [0..<row_length srcs]"

definition residual_of :: "real list \<Rightarrow> real list list \<Rightarrow> real list res" where
  "residual_of mixture srcs =
     (let whole = column_sums srcs in
      if length whole = length mixture then Inr (map2 (-) mixture whole)
      else if length whole = 1 then Inr (map (\<lambda>x. x - hd whole) mixture)
      else Inl ValueError)"

definition similarity_of_sources :: "real list \<Rightarrow> real list \<Rightarrow> real" where
  "similarity_of_sources u v = \<bar>dot u v / (vnorm u * vnorm v + tiny)\<bar>"

definition leakage_of :: "real list list \<Rightarrow> nat \<Rightarrow> real" where
  "leakage_of srcs i =
     list_max 0 (map (\<lambda>j. similarity_of_sources (srcs ! i) (srcs ! j)) (filter (\<lambda>j. j \<noteq> i) [0..<length srcs]))"

definition source_speech_ms :: "real list \<Rightarrow> int \<Rightarrow> int" where
  "source_speech_ms s rate = trunc (of_int (int (length s) * 1000) / of_int rate)"

definition measured_quality :: "real list \<Rightarrow> real list list \<Rightarrow> int \<Rightarrow> (nat \<Rightarrow> real \<Rightarrow> string list) \<Rightarrow> source_quality list res" where
  "measured_quality mixture srcs rate reasons_of =
     (let mixture_energy = level mixture + tiny in
      bindR (residual_of mixture srcs) (\<lambda>residual.
        Inr (map (\<lambda>i. let ratio = level (srcs ! i) / mixture_energy; reasons = reasons_of i ratio in
               \<lparr>sq_speech_duration_ms = source_speech_ms (srcs ! i) rate, energy_ratio = Some ratio,
                leakage_similarity = Some (leakage_of srcs i),
                residual_speech_ratio = Some (level residual / mixture_energy), snr_db = None,
                passed_gate = (reasons = []), sq_reasons = reasons\<rparr>) [0..<length srcs])))"

definition mossformer_reasons :: "real list list \<Rightarrow> int \<Rightarrow> nat \<Rightarrow> real \<Rightarrow> string list" where
  "mossformer_reasons srcs rate i ratio =
     (if ratio < LOW_ENERGY_RATIO then [''low_energy''] else [])
     @ (if source_speech_ms (srcs ! i) rate < MIN_SOURCE_SPEECH_MS then [''shorter_than_minimum''] else [])"

text \<open>A source of one sample has no dimension left once it is squeezed, and cannot be sliced.\<close>

definition mossformer_separate ::
  "(real list \<Rightarrow> real list list res) \<Rightarrow> string \<Rightarrow> unit res \<Rightarrow> audio_buffer \<Rightarrow> int \<Rightarrow> separated_batch res" where
  "mossformer_separate decode version check b requested =
     bindR check (\<lambda>_.
     bindR (guardR (requested \<notin> set MOSSFORMER_SOURCE_COUNTS) (Sastt SeparationFailedError)) (\<lambda>_.
     bindR (guardR (sample_rate b \<noteq> MOSSFORMER_SAMPLE_RATE) (Sastt SeparationFailedError)) (\<lambda>_.
     bindR (mono_signal b) (\<lambda>mixture.
     bindR (ms_to_samples MIN_SOURCE_SPEECH_MS (sample_rate b)) (\<lambda>least.
     bindR (guardR (int (length mixture) < least) (Sastt SeparationFailedError)) (\<lambda>_.
     bindR (failing_as SeparationFailedError (decode mixture)) (\<lambda>outputs.
     bindR (guardR (\<exists>s\<in>set outputs. length s = 1) IndexError) (\<lambda>_.
     let cut = map (take (length mixture)) outputs in
     bindR (guardR (\<not> rectangular cut) ValueError) (\<lambda>_.
     bindR (guardR (int (length cut) < requested) (Sastt SeparationFailedError)) (\<lambda>_.
     let srcs = take (nat requested) cut in
     bindR (measured_quality mixture srcs (sample_rate b) (mossformer_reasons srcs (sample_rate b))) (\<lambda>qs.
       mk_separated_batch (map (map Fin) srcs) (sample_rate b) requested None qs version (start_sample b))))))))))))"

definition SEPFORMER_SAMPLE_RATE :: int where "SEPFORMER_SAMPLE_RATE = 8000"
definition SEPFORMER_SOURCE_COUNTS :: "int list" where "SEPFORMER_SOURCE_COUNTS = [3]"

definition resampled :: "(real list \<Rightarrow> int \<Rightarrow> int \<Rightarrow> real list) \<Rightarrow> real list \<Rightarrow> int \<Rightarrow> int \<Rightarrow> real list" where
  "resampled resample_poly xs source_rate target_rate =
     (if source_rate = target_rate then xs else resample_poly xs target_rate source_rate)"

text \<open>
  The output without its batch dimension, if it is a matrix: time by speakers or speakers by time. Squeezing
  drops a dimension of one, after which it is a matrix no more.
\<close>

definition transposed :: "real list list \<Rightarrow> real list list" where
  "transposed m = map (\<lambda>j. map (\<lambda>row. row ! j) m) [0..<row_length m]"

definition as_sources :: "real list list option \<Rightarrow> int \<Rightarrow> real list list res" where
  "as_sources output requested =
     (case output of
        None \<Rightarrow> Inl (Sastt SeparationFailedError)
      | Some m \<Rightarrow>
          if length m = 1 \<or> row_length m = 1 then Inl (Sastt SeparationFailedError)
          else let srcs = (if requested \<le> int (row_length m) \<and> row_length m < length m then transposed m else m) in
          if int (length srcs) < requested then Inl (Sastt SeparationFailedError) else Inr (take (nat requested) srcs))"

definition fitted :: "nat \<Rightarrow> real list \<Rightarrow> real list" where
  "fitted n s = take n s @ replicate (n - length s) 0"

definition sepformer_separate ::
  "(real list \<Rightarrow> real list list option res) \<Rightarrow> (real list \<Rightarrow> int \<Rightarrow> int \<Rightarrow> real list) \<Rightarrow> string \<Rightarrow> unit res \<Rightarrow>
     audio_buffer \<Rightarrow> int \<Rightarrow> separated_batch res" where
  "sepformer_separate separate_batch resample_poly version check b requested =
     bindR check (\<lambda>_.
     bindR (guardR (requested \<notin> set SEPFORMER_SOURCE_COUNTS) (Sastt SeparationFailedError)) (\<lambda>_.
     bindR (mono_signal b) (\<lambda>mixture.
     bindR (ms_to_samples MIN_SOURCE_SPEECH_MS (sample_rate b)) (\<lambda>least.
     bindR (guardR (int (length mixture) < least) (Sastt SeparationFailedError)) (\<lambda>_.
     let low = resampled resample_poly mixture (sample_rate b) SEPFORMER_SAMPLE_RATE in
     bindR (failing_as SeparationFailedError
              (bindR (separate_batch low) (\<lambda>output. as_sources output requested))) (\<lambda>found.
     let high = map (\<lambda>s. resampled resample_poly s SEPFORMER_SAMPLE_RATE (sample_rate b)) found in
     bindR (guardR (\<not> rectangular high) ValueError) (\<lambda>_.
     let srcs = map (fitted (length mixture)) high in
     bindR (measured_quality mixture srcs (sample_rate b)
              (\<lambda>i ratio. if LOW_ENERGY_RATIO \<le> ratio then [] else [''low_energy''])) (\<lambda>qs.
       mk_separated_batch (map (map Fin) srcs) (sample_rate b) requested None qs version (start_sample b)))))))))"

section \<open>Embedding\<close>

definition CLIP_THRESHOLD :: real where "CLIP_THRESHOLD = 99 / 100"

record campplus =
  cm_model :: "real list \<Rightarrow> int \<Rightarrow> real list res"
  cm_version :: string
  cm_minimum_speech_ms :: int
  cm_target_speech_ms :: int

definition clip_unit :: "real \<Rightarrow> real" where
  "clip_unit x = min 1 (max 0 x)"

definition embedding_quality :: "campplus \<Rightarrow> real list \<Rightarrow> int \<Rightarrow> real" where
  "embedding_quality c xs speech_ms =
     (let duration_score = min 1 (of_int speech_ms / of_int (max 1 (cm_target_speech_ms c)));
          level_score = clip_unit (level xs / (5 / 100));
          clipping = mean (map (\<lambda>x. if CLIP_THRESHOLD \<le> \<bar>x\<bar> then 1 else 0) xs);
          clipping_score = clip_unit (1 - clipping * 20)
      in clip_unit (duration_score * level_score * clipping_score))"

definition speech_piece :: "audio_buffer \<Rightarrow> real list \<Rightarrow> time_interval \<Rightarrow> real list" where
  "speech_piece b xs i =
     (case clamp i (buf_interval b) of
        None \<Rightarrow> []
      | Some c \<Rightarrow>
          let start = trunc (of_int ((ti_start c - buf_start_ms b) * sample_rate b) / 1000);
              fin = trunc (of_int ((ti_end c - buf_start_ms b) * sample_rate b) / 1000)
          in drop (nat start) (take (nat fin) xs))"

definition speech_only :: "audio_buffer \<Rightarrow> real list \<Rightarrow> time_interval list option \<Rightarrow> real list" where
  "speech_only b xs speech =
     (case speech of
        None \<Rightarrow> xs
      | Some is \<Rightarrow> let pieces = filter (\<lambda>p. p \<noteq> []) (map (speech_piece b xs) is) in
          if is = [] \<or> pieces = [] then xs else concat pieces)"

definition campplus_embed ::
  "campplus \<Rightarrow> unit res \<Rightarrow> audio_buffer \<Rightarrow> time_interval list option \<Rightarrow> embedding_origin \<Rightarrow> nat option \<Rightarrow>
     int option \<Rightarrow> speaker_embedding res" where
  "campplus_embed c check b speech origin track minimum =
     bindR check (\<lambda>_.
       let floor_ms = (case minimum of None \<Rightarrow> cm_minimum_speech_ms c | Some n \<Rightarrow> n);
           speech_ms = (case speech of Some (i # is) \<Rightarrow> total_duration_ms (i # is) | _ \<Rightarrow> buf_duration_ms b) in
       bindR (guardR (speech_ms < floor_ms) (Sastt InsufficientSpeechForEmbeddingError)) (\<lambda>_.
       bindR (mono_signal b) (\<lambda>xs.
       let waveform = speech_only b xs speech in
       bindR (guardR (int (length waveform) < sample_rate b div 10) (Sastt InsufficientSpeechForEmbeddingError)) (\<lambda>_.
       bindR (contained (cm_model c waveform (sample_rate b))) (\<lambda>raw.
       bindR (l2_normalize raw) (\<lambda>v.
         mk_embedding v (cm_version c) (embedding_quality c waveform speech_ms) speech_ms origin
           (Some (buf_interval b)) track))))))"

end
