(* ===== verification/ModelAdapterProps.thy ===== *)
theory ModelAdapterProps
  imports ModelAdapters Prototypes
begin

text \<open>
  What the adapters of the models promise to the pipeline: words on the timeline of the session and no
  foreign exception, three sources as long as the mixture, a quality between zero and one; and where they
  do not keep the promise.
\<close>

section \<open>Recognition\<close>

lemma contained_eq_Inr [simp]: "contained r = Inr x \<longleftrightarrow> r = Inr x"
  by (auto simp: contained_def split: sum.splits exn.splits)

lemma contained_error: "contained r = Inl e \<Longrightarrow> \<exists>e'. e = Sastt e'"
  by (auto simp: contained_def split: sum.splits exn.splits)

lemma failing_as_eq_Inr [simp]: "failing_as e r = Inr x \<longleftrightarrow> r = Inr x"
  by (auto simp: failing_as_def split: sum.splits)

lemma failing_as_eq_Inl [simp]: "failing_as e r = Inl e' \<longleftrightarrow> e' = Sastt e \<and> (\<exists>x. r = Inl x)"
  by (auto simp: failing_as_def split: sum.splits)

lemma to_mono_total:
  assumes "valid_buffer b"
  shows "\<exists>xs. mono_signal b = Inr xs \<and> length xs = num_samples b"
proof -
  obtain m where m: "to_mono b = Inr m" "is_mono m" "num_samples m = num_samples b" "valid_buffer m"
    using to_mono_valid[OF assms] by blast
  then obtain row where "samples m = [row]" by (auto simp: is_mono_def num_channels_def length_Suc_conv)
  then have "mono_signal b = Inr (map fin_value row)" and "length row = num_samples b"
    using m by (simp_all add: mono_signal_def num_samples_def row_length_def)
  then show ?thesis by simp
qed

definition heard_by :: "whisper_word list option list \<Rightarrow> whisper_word list" where
  "heard_by segs = concat (map (\<lambda>ws. case ws of None \<Rightarrow> [] | Some xs \<Rightarrow> xs) segs)"

lemma whisper_word_total:
  assumes "0 < wh_min_word_ms w"
  shows "\<exists>vs. whisper_word_at w offset track x = Inr vs
    \<and> map w_text vs = filter (\<lambda>s. s \<noteq> []) [strip (ww_text x)]
    \<and> (\<forall>v\<in>set vs. valid_word v \<and> w_track v = track
         \<and> (0 \<le> offset \<and> 0 \<le> ww_start x \<longrightarrow> offset \<le> w_start v \<and> wh_min_word_ms w \<le> w_end v - w_start v))"
proof (cases "strip (ww_text x) = []")
  case False
  define start where "start = offset + py_round (ww_start x * 1000)"
  define fin where "fin = (let f = offset + py_round (ww_end x * 1000)
    in if f - start < wh_min_word_ms w then start + wh_min_word_ms w else f)"
  have long: "start + wh_min_word_ms w \<le> fin" by (auto simp: fin_def Let_def)
  have early: "0 \<le> ww_start x \<Longrightarrow> offset \<le> start"
    using py_round_nonneg[of "ww_start x * 1000"] by (simp add: start_def)
  have "whisper_word_at w offset track x = bindR (mk_word (strip (ww_text x)) (max 0 start) (max 1 fin)
      (Some (case ww_probability x of None \<Rightarrow> 0 | Some p \<Rightarrow> p)) track None) (\<lambda>v. Inr [v])"
    using False by (simp add: whisper_word_at_def Let_def start_def fin_def)
  moreover have "max 0 start < max 1 fin" using long assms by linarith
  ultimately show ?thesis
    using False long assms early by (auto simp: mk_word_def valid_word_def)
qed (simp add: whisper_word_at_def Let_def)

lemma mapR_all:
  assumes "\<And>x. x \<in> set xs \<Longrightarrow> \<exists>y. f x = Inr y \<and> P x y"
  shows "\<exists>ys. mapR f xs = Inr ys \<and> list_all2 P xs ys"
proof -
  from assms obtain g where g: "\<And>x. x \<in> set xs \<Longrightarrow> f x = Inr (g x) \<and> P x (g x)" by metis
  then have "mapR f xs = Inr (map g xs)" by (intro mapR_total) blast
  moreover have "list_all2 P xs (map g xs)" using g by (simp add: list_all2_conv_all_nth)
  ultimately show ?thesis by blast
qed

lemma concat_words:
  assumes "list_all2 (\<lambda>x vs. map w_text vs = filter (\<lambda>s. s \<noteq> []) [strip (ww_text x)] \<and> (\<forall>v\<in>set vs. P x v)) xs found"
  shows "map w_text (concat found) = filter (\<lambda>s. s \<noteq> []) (map (\<lambda>x. strip (ww_text x)) xs)
    \<and> (\<forall>v\<in>set (concat found). \<exists>x\<in>set xs. P x v)"
  using assms by (induction rule: list_all2_induct) (auto split: if_splits)

lemma whisper_words_total:
  assumes "0 < wh_min_word_ms w" and "0 \<le> offset"
  shows "\<exists>vs. whisper_words w offset track segs = Inr vs
    \<and> map w_text vs = filter (\<lambda>s. s \<noteq> []) (map (\<lambda>x. strip (ww_text x)) (heard_by segs))
    \<and> (\<forall>v\<in>set vs. valid_word v \<and> w_track v = track)
    \<and> ((\<forall>x\<in>set (heard_by segs). 0 \<le> ww_start x) \<longrightarrow>
         (\<forall>v\<in>set vs. offset \<le> w_start v \<and> wh_min_word_ms w \<le> w_end v - w_start v))"
proof -
  let ?P = "\<lambda>x v. valid_word v \<and> w_track v = track
    \<and> (0 \<le> offset \<and> 0 \<le> ww_start x \<longrightarrow> offset \<le> w_start v \<and> wh_min_word_ms w \<le> w_end v - w_start v)"
  obtain found where found: "mapR (whisper_word_at w offset track) (heard_by segs) = Inr found"
    and all: "list_all2 (\<lambda>x vs. map w_text vs = filter (\<lambda>s. s \<noteq> []) [strip (ww_text x)]
      \<and> (\<forall>v\<in>set vs. ?P x v)) (heard_by segs) found"
    using mapR_all[where f = "whisper_word_at w offset track" and xs = "heard_by segs"
        and P = "\<lambda>x vs. map w_text vs = filter (\<lambda>s. s \<noteq> []) [strip (ww_text x)] \<and> (\<forall>v\<in>set vs. ?P x v)"]
      whisper_word_total[OF assms(1)] by blast
  have "whisper_words w offset track segs = Inr (concat found)"
    using found by (simp add: whisper_words_def heard_by_def)
  then show ?thesis using concat_words[OF all] assms(2) by blast
qed

text \<open>
  C10: transcribing a valid buffer with a model that answers always succeeds: the words are the non-blank
  ones of the model, stripped and in its order, each valid and on the requested track; if the model counts
  from the start of the buffer on, every word lies on the timeline of the session after the start of the
  buffer and lasts at least the configured minimum.\<close>

theorem transcript_on_session_timeline:
  assumes "valid_buffer b" and "0 < wh_min_word_ms w" and "mono_signal b = Inr xs"
    and "wh_transcribe w xs (whisper_language w language) = Inr (segs, info)"
  shows "\<exists>r. whisper_transcribe w (Inr ()) b language track = Inr r
    \<and> map w_text (asr_words r) = filter (\<lambda>s. s \<noteq> []) (map (\<lambda>x. strip (ww_text x)) (heard_by segs))
    \<and> (\<forall>v\<in>set (asr_words r). valid_word v \<and> w_track v = track)
    \<and> ((\<forall>x\<in>set (heard_by segs). 0 \<le> ww_start x) \<longrightarrow>
         (\<forall>v\<in>set (asr_words r). buf_start_ms b \<le> w_start v \<and> wh_min_word_ms w \<le> w_end v - w_start v))"
proof -
  have "0 \<le> buf_start_ms b" using assms(1) by (rule valid_buffer_positive(4))
  then obtain vs where vs: "whisper_words w (buf_start_ms b) track segs = Inr vs"
    and rest: "map w_text vs = filter (\<lambda>s. s \<noteq> []) (map (\<lambda>x. strip (ww_text x)) (heard_by segs))"
      "\<forall>v\<in>set vs. valid_word v \<and> w_track v = track"
      "(\<forall>x\<in>set (heard_by segs). 0 \<le> ww_start x) \<longrightarrow>
         (\<forall>v\<in>set vs. buf_start_ms b \<le> w_start v \<and> wh_min_word_ms w \<le> w_end v - w_start v)"
    using whisper_words_total[OF assms(2)] by blast
  show ?thesis
    using rest by (simp add: whisper_transcribe_def assms(3,4) vs contained_def)
qed

text \<open>Whatever the model raises, only an error of this program leaves the recognizer.\<close>

lemma transcribe_errors_contained:
  assumes "valid_buffer b" and "whisper_transcribe w (Inr ()) b language track = Inl e"
  shows "\<exists>e'. e = Sastt e'"
proof -
  obtain xs where xs: "mono_signal b = Inr xs" using to_mono_total[OF assms(1)] by blast
  show ?thesis
    using assms(2) contained_error
    by (auto simp: whisper_transcribe_def xs bindR_def split: sum.splits prod.splits)
qed

definition half_second :: audio_buffer where
  "half_second = \<lparr>samples = [replicate 8000 (Fin 0)], sample_rate = 16000, start_sample = 32000,
     channel_layout = [''mono''], source_clock_hz = 48000\<rparr>"

lemma half_second_signal [simp]:
  "valid_buffer half_second" "mono_signal half_second = Inr (replicate 8000 0)" "sample_rate half_second = 16000"
  "buf_start_ms half_second = 2000"
  by (simp_all add: half_second_def valid_buffer_iff rectangular_def row_length_def mono_signal_def to_mono_def
      is_mono_def num_channels_def MIN_CHANNELS_def MAX_CHANNELS_def num_samples_def buf_start_ms_def to_ms_def MS_PER_SECOND_def)

definition two_word_whisper :: whisper where
  "two_word_whisper =
     \<lparr>wh_transcribe = (\<lambda>_ _. Inr ([None, Some [\<lparr>ww_start = 0, ww_end = 2 / 100, ww_text = '' hi'', ww_probability = Some (1 / 2)\<rparr>,
          \<lparr>ww_start = 1 / 10, ww_end = 1 / 10, ww_text = ''  '', ww_probability = None\<rparr>]],
        Some ''en'')),
      wh_detect = (\<lambda>_. Inr (''en'', 1)), wh_version = ''whisper'', wh_language = None, wh_min_word_ms = 20\<rparr>"

theorem transcript_on_session_timeline_witness:
  "\<exists>r. whisper_transcribe two_word_whisper (Inr ()) half_second (Some ''en'') (Some 1) = Inr r
    \<and> map w_text (asr_words r) = [''hi''] \<and> (\<forall>v\<in>set (asr_words r). 2000 \<le> w_start v \<and> w_track v = Some 1)"
proof -
  show ?thesis
    using transcript_on_session_timeline[where b = half_second and w = two_word_whisper and language = "Some ''en''"
        and track = "Some 1", OF _ _ half_second_signal(2)]
    by (fastforce simp: two_word_whisper_def heard_by_def strip_def is_space_def)
qed

section \<open>Separation\<close>

lemma residual_of_eq_Inl:
  "residual_of mixture srcs = Inl e \<longleftrightarrow>
     e = ValueError \<and> row_length srcs \<noteq> length mixture \<and> row_length srcs \<noteq> 1"
  by (auto simp: residual_of_def column_sums_def Let_def)

text \<open>
  when the MossFormer model returns two sources some samples shorter than the mixture, the difference of the arrays fails outside the guarded call: the separator leaks a
  \<open>ValueError\<close> instead of the promised \<open>SeparationFailedError\<close>.\<close>

theorem short_sources_escape_as_value_error:
  assumes "valid_buffer b" and "sample_rate b = 16000" and "mono_signal b = Inr mixture"
    and "8000 \<le> length mixture" and "decode mixture = Inr [u, v]"
    and "length u = length v" and "1 < length u" and "length u < length mixture"
  shows "mossformer_separate decode version (Inr ()) b 2 = Inl ValueError"
proof -
  have least: "ms_to_samples MIN_SOURCE_SPEECH_MS (sample_rate b) = Inr 8000"
    by (simp add: ms_to_samples_def MIN_SOURCE_SPEECH_MS_def to_samples_def MS_PER_SECOND_def assms(2))
  have residual: "residual_of mixture [u, v] = Inl ValueError"
    using assms(7,8) by (simp add: residual_of_eq_Inl row_length_def)
  have "measured_quality mixture [u, v] r g = Inl ValueError" for r g
    by (simp add: measured_quality_def residual)
  then show ?thesis
    using assms least
    by (simp add: mossformer_separate_def MOSSFORMER_SOURCE_COUNTS_def MOSSFORMER_SAMPLE_RATE_def
        failing_as_def rectangular_def Let_def)
qed

theorem short_sources_escape_as_value_error_witness:
  "mossformer_separate (\<lambda>xs. Inr [tl xs, tl xs]) ''m'' (Inr ()) half_second 2 = Inl ValueError"
  by (rule short_sources_escape_as_value_error[where mixture = "replicate 8000 0" and u = "replicate 7999 0"
        and v = "replicate 7999 0"]) (simp_all add: tl_replicate)

lemma fitted_length [simp]: "length (fitted n s) = n"
  by (simp add: fitted_def)

lemma as_sources_length: "as_sources out requested = Inr srcs \<Longrightarrow> 0 \<le> requested \<Longrightarrow> int (length srcs) = requested"
  by (auto simp: as_sources_def Let_def split: option.splits if_splits)

lemma measured_quality_length: "measured_quality mixture srcs r g = Inr qs \<Longrightarrow> length qs = length srcs"
  by (auto simp: measured_quality_def Let_def bindR_eq_Inr)

text \<open>
  a separation by SepFormer that succeeds has three sources, each as long as the mixture whatever
  the model and the resampling returned, a quality for each, and the rate and position of the buffer.\<close>

theorem separated_sources_match_the_mixture:
  assumes "valid_buffer b"
    and "sepformer_separate separate_batch resample_poly version check b requested = Inr batch"
  shows "requested = 3 \<and> length (sources batch) = 3 \<and> length (batch_quality batch) = 3
    \<and> (\<forall>s\<in>set (sources batch). length s = num_samples b)
    \<and> batch_sample_rate batch = sample_rate b \<and> batch_start_sample batch = start_sample b"
proof -
  obtain mixture where mixture: "mono_signal b = Inr mixture" "length mixture = num_samples b"
    using to_mono_total[OF assms(1)] by blast
  let ?up = "\<lambda>s. fitted (length mixture) (resampled resample_poly s SEPFORMER_SAMPLE_RATE (sample_rate b))"
  have "\<exists>found qs. requested = 3 \<and> length found = 3 \<and> length qs = 3
    \<and> mk_separated_batch (map (\<lambda>s. map Fin (?up s)) found) (sample_rate b)
        requested None qs version (start_sample b) = Inr batch"
    using assms(2) mixture(1)
    by (auto simp: sepformer_separate_def bindR_eq_Inr Let_def SEPFORMER_SOURCE_COUNTS_def comp_def
        dest!: as_sources_length measured_quality_length) blast
  then show ?thesis
    using mixture(2) by (auto simp: mk_separated_batch_def split: if_splits)
qed

lemma sepformer_answers:
  assumes "mono_signal b = Inr mixture" and "sample_rate b = 16000" and "8000 \<le> length mixture"
  shows "\<exists>batch. sepformer_separate (\<lambda>xs. Inr (Some [[1, 1], [2, 2], [3, 3]])) (\<lambda>xs _ _. xs @ xs) version (Inr ()) b 3 = Inr batch"
proof -
  let ?srcs = "map (fitted (length mixture)) [[1, 1, 1, 1], [2, 2, 2, 2], [3, 3, 3, 3]]"
  have least: "ms_to_samples MIN_SOURCE_SPEECH_MS 16000 = Inr 8000"
    by (simp add: ms_to_samples_def MIN_SOURCE_SPEECH_MS_def to_samples_def MS_PER_SECOND_def)
  obtain r where r: "residual_of mixture ?srcs = Inr r"
    using residual_of_eq_Inl[of mixture ?srcs]
    by (cases "residual_of mixture ?srcs") (auto simp: row_length_def)
  have "\<exists>qs. measured_quality mixture ?srcs 16000 g = Inr qs \<and> length qs = 3" for g
    using r by (simp add: measured_quality_def Let_def)
  then obtain qs where "measured_quality mixture ?srcs 16000
      (\<lambda>i ratio. if LOW_ENERGY_RATIO \<le> ratio then [] else [''low_energy'']) = Inr qs" and "length qs = 3"
    by blast
  then show ?thesis
    using assms least
    by (simp add: sepformer_separate_def SEPFORMER_SOURCE_COUNTS_def SEPFORMER_SAMPLE_RATE_def as_sources_def
        failing_as_def rectangular_def row_length_def resampled_def Let_def mk_separated_batch_def)
qed

theorem separated_sources_match_the_mixture_witness:
  "\<exists>batch. sepformer_separate (\<lambda>xs. Inr (Some [[1, 1], [2, 2], [3, 3]])) (\<lambda>xs _ _. xs @ xs) ''s'' (Inr ()) half_second 3 = Inr batch
    \<and> length (sources batch) = 3 \<and> (\<forall>s\<in>set (sources batch). length s = 8000)"
proof -
  have samples: "num_samples half_second = 8000" by (simp add: half_second_def num_samples_def row_length_def)
  have "8000 \<le> length (replicate 8000 (0 :: real))" by simp
  from sepformer_answers[OF half_second_signal(2,3) this] obtain batch where
    "sepformer_separate (\<lambda>xs. Inr (Some [[1, 1], [2, 2], [3, 3]])) (\<lambda>xs _ _. xs @ xs) ''s'' (Inr ()) half_second 3 = Inr batch"
    by blast
  with separated_sources_match_the_mixture[OF half_second_signal(1) this] show ?thesis
    unfolding samples by blast
qed

section \<open>Embedding\<close>

lemma clip_unit_range: "0 \<le> clip_unit x" "clip_unit x \<le> 1"
  by (simp_all add: clip_unit_def)

lemma embedding_quality_range: "0 \<le> embedding_quality c xs n" "embedding_quality c xs n \<le> 1"
  by (simp_all add: embedding_quality_def Let_def clip_unit_range)

text \<open>
  with enough speech, CAM++ turns every vector of the model but the zero vector into an embedding of
  unit length with a quality between zero and one, tagged with the model version, the origin, the interval of
  the buffer and the track it was asked for.\<close>

theorem enough_speech_embeds:
  assumes "valid_buffer b" and "mono_signal b = Inr xs" and "waveform = speech_only b xs speech"
    and "sample_rate b div 10 \<le> int (length waveform)"
    and "floor_ms \<le> (case speech of Some (i # is) \<Rightarrow> total_duration_ms (i # is) | _ \<Rightarrow> buf_duration_ms b)"
    and "cm_model c waveform (sample_rate b) = Inr raw" and "vnorm raw \<noteq> 0"
  shows "\<exists>e. campplus_embed c (Inr ()) b speech origin track (Some floor_ms) = Inr e
    \<and> vnorm (e_vector e) = 1 \<and> valid_embedding e \<and> e_model_version e = cm_version c \<and> e_origin e = origin
    \<and> e_interval e = Some (buf_interval b) \<and> e_source_track e = track"
proof -
  obtain v where v: "l2_normalize raw = Inr v"
    using assms(7) by (simp add: l2_normalize_def Let_def)
  then have unit: "vnorm v = 1" by (rule l2_normalize_unit)
  show ?thesis
    using assms(2-6) unit
    by (simp add: campplus_embed_def Let_def contained_def v mk_embedding_def embedding_quality_range
        valid_embedding_def)
qed

theorem enough_speech_embeds_witness:
  "\<exists>e. campplus_embed \<lparr>cm_model = (\<lambda>xs _. Inr [3, 4]), cm_version = ''cam'', cm_minimum_speech_ms = 900,
      cm_target_speech_ms = 3000\<rparr> (Inr ()) half_second None Clean (Some 0) (Some 300) = Inr e
    \<and> vnorm (e_vector e) = 1"
proof -
  have "buf_duration_ms half_second = 500"
    by (simp add: half_second_def buf_duration_ms_def buf_start_ms_def buf_end_ms_def end_sample_def num_samples_def
        row_length_def to_ms_def MS_PER_SECOND_def)
  then show ?thesis
    using enough_speech_embeds[OF half_second_signal(1,2), where speech = None and floor_ms = 300 and raw = "[3, 4]"
        and c = "\<lparr>cm_model = (\<lambda>xs _. Inr [3, 4]), cm_version = ''cam'', cm_minimum_speech_ms = 900,
          cm_target_speech_ms = 3000\<rparr>" and origin = Clean and track = "Some 0"]
    by (fastforce simp: speech_only_def vnorm_def dot_def)
qed

text \<open>When every interval of speech lies outside the buffer, the whole signal is embedded, silence included.\<close>

lemma foreign_speech_embeds_everything:
  assumes "\<forall>i\<in>set speech. clamp i (buf_interval b) = None"
  shows "speech_only b xs (Some speech) = xs"
proof -
  have "filter (\<lambda>p. p \<noteq> []) (map (speech_piece b xs) speech) = []"
    using assms by (auto simp: filter_empty_conv speech_piece_def)
  then show ?thesis by (simp add: speech_only_def)
qed

end
