(* ===== verification/Engine.thy ===== *)
theory Engine
  imports ModelAdapters Diarizer Decoder Pipeline Config
begin

text \<open>
  The wiring of the service, \<^verbatim>\<open>src/src/sastt/api/http.py\<close> (\<open>build_fake_engine\<close>, \<open>build_real_engine\<close>,
  \<open>create_app\<close>, \<open>dev_tenant\<close> and the probes): the adapters become the ports of the pipeline. What is loaded
  from the weights is the record \<open>loaded_models\<close>; whether a constructor finds and loads the weights at a path
  is a function of it. The checkpoint \<open>ctx.check()\<close> of the run is the argument \<open>check\<close>.
\<close>

section \<open>Engines\<close>

record 'c engine =
  en_name :: string
  en_config :: config
  en_adapters :: "'c option \<Rightarrow> ports res"
  en_ready :: bool
  en_detail :: string

subsection \<open>The fake engine\<close>

record fake_environment =
  fk_fourier :: fourier
  fk_unit_vector :: "string \<Rightarrow> real list"
  fk_sha256 :: "bytes \<Rightarrow> string"
  fk_assignment :: solver

definition fake_two_source :: "fake_environment \<Rightarrow> scenario \<Rightarrow> fake_separator" where
  "fake_two_source v sc =
     \<lparr>fp_fourier = fk_fourier v, fp_speakers = sc_speakers sc, fp_backend = ''fake_two_source'', fp_supported = [2],
      fp_scenario = Some sc, fp_alternate_order = False, fp_fail_first_call = False\<rparr>"

definition fake_three_source :: "fake_environment \<Rightarrow> scenario \<Rightarrow> fake_separator" where
  "fake_three_source v sc = (fake_two_source v sc)\<lparr>fp_backend := ''fake_three_source'', fp_supported := [3]\<rparr>"

text \<open>
  The separator counts its calls, which only matters for the two switches that are off here (see
  \<open>fake_separate_stateless\<close>); as a port it is what a first call returns.
\<close>

definition separator_of_fake :: "unit res \<Rightarrow> fake_separator \<Rightarrow> separator" where
  "separator_of_fake check p =
     \<lparr>sep_backend = fp_backend p, sep_separate = (\<lambda>b requested. snd (fake_separate p check b requested 0))\<rparr>"

definition fake_ports :: "fake_environment \<Rightarrow> unit res \<Rightarrow> config \<Rightarrow> scenario \<Rightarrow> ports" where
  "fake_ports v check c sc =
     (let voices = (\<lambda>version. \<lparr>fs_fourier = fk_fourier v, fs_speakers = sc_speakers sc, fs_version = version\<rparr>);
          recognizer = \<lparr>fr_fourier = fk_fourier v, fr_scenario = sc, fr_version = ''fake-asr@1'',
            fr_language = ''vi'', fr_word_probability = 91 / 100\<rparr>;
          embedder = \<lparr>fe_fourier = fk_fourier v, fe_speakers = sc_speakers sc, fe_version = ''fake-campplus@1'',
            fe_minimum_speech_ms = 1500, fe_target_speech_ms = 3000, fe_basis = fk_unit_vector v\<rparr>
      in \<lparr>port_decode = (\<lambda>payload. decode_raw
            \<lparr>rw_rate = sc_sample_rate sc, rw_channels = 1, rw_sha256 = fk_sha256 v\<rparr> check payload None),
          port_vad = fake_vad (2 / 100) 120 check,
          port_diarize = fake_diarize (voices ''fake-diarizer@1'') check,
          port_detect_overlap = fake_detect_overlap (voices ''fake-osd@1'') 300 200 check,
          port_transcribe = fake_transcribe recognizer check,
          port_detect_language = fake_detect_language recognizer check,
          port_embed = (\<lambda>b speech origin minimum track. fake_embed embedder check b (Some speech) origin track minimum),
          port_separator = Some (separator_of_fake check (fake_two_source v sc)),
          port_three_source_separator =
            (if three_source_beta (product c) then Some (separator_of_fake check (fake_three_source v sc)) else None),
          port_identify = None, port_assignment = fk_assignment v,
          diarizer_version = ''fake-diarizer@1'', embedder_version = ''fake-campplus@1'',
          recognizer_version = ''fake-asr@1''\<rparr>)"

text \<open>Without a scenario there is no sample rate to read.\<close>

definition build_fake_engine :: "fake_environment \<Rightarrow> unit res \<Rightarrow> config \<Rightarrow> scenario engine" where
  "build_fake_engine v check c =
     \<lparr>en_name = ''fake'', en_config = c,
      en_adapters = (\<lambda>scenario. case scenario of None \<Rightarrow> Inl AttributeError | Some sc \<Rightarrow> Inr (fake_ports v check c sc)),
      en_ready = True,
      en_detail = ''Milestone 0 fake adapters: structure only. Spec 19.1 '' @ EM_DASH
        @ '' this harness cannot evaluate model accuracy.''\<rparr>"

subsection \<open>The real engine\<close>

record loaded_models =
  lm_load :: "string \<Rightarrow> string \<Rightarrow> unit res"
  lm_decoder :: ffmpeg_decoder
  lm_silero :: "real list \<Rightarrow> (int \<times> int) list res"
  lm_pyannote :: "audio_buffer \<Rightarrow> int \<Rightarrow> int \<Rightarrow> pyannote_output res"
  lm_annotation_truth :: "annotation \<Rightarrow> bool"
  lm_segmentation :: "real \<Rightarrow> real \<Rightarrow> audio_buffer \<Rightarrow> (real \<times> real) list res"
  lm_whisper :: "string \<Rightarrow> real list \<Rightarrow> string option \<Rightarrow> (whisper_word list option list \<times> string option) res"
  lm_whisper_detect :: "real list \<Rightarrow> (string \<times> real) res"
  lm_campplus :: "real list \<Rightarrow> int \<Rightarrow> real list res"
  lm_mossformer :: "real list \<Rightarrow> real list list res"
  lm_sepformer :: "real list \<Rightarrow> real list list option res"
  lm_resample_poly :: "real list \<Rightarrow> int \<Rightarrow> int \<Rightarrow> real list"
  lm_assignment :: solver

definition DEFAULT_MAX_BYTES :: nat where "DEFAULT_MAX_BYTES = 2 * 1024 ^ 3"

definition manifest_version :: "(string \<Rightarrow> model_manifest option) \<Rightarrow> string \<Rightarrow> string" where
  "manifest_version manifests backend =
     (case manifests backend of None \<Rightarrow> backend @ ''@unpinned'' | Some m \<Rightarrow> release_id m)"

definition model_path :: "string option \<Rightarrow> string res" where
  "model_path v = (if truthy v then Inr (or_else v []) else Inl (Sastt ModelNotReadyError))"

definition constructed :: "loaded_models \<Rightarrow> string \<Rightarrow> string option \<Rightarrow> unit res" where
  "constructed m adapter v = bindR (model_path v) (lm_load m adapter)"

definition real_ports :: "loaded_models \<Rightarrow> unit res \<Rightarrow> (string \<Rightarrow> string) \<Rightarrow> config \<Rightarrow> ports" where
  "real_ports m check version c =
     (let diarizer = \<lparr>pd_pipeline = lm_pyannote m, pd_version = version ''pyannote-community-1'',
            pd_exclusive = exclusive_output_for_non_overlap_alignment (diarization c),
            pd_truth = lm_annotation_truth m\<rparr>;
          detector = \<lparr>sg_timeline = lm_segmentation m (onset (overlap_detection c)) (osd_offset (overlap_detection c)),
            sg_version = version ''pyannote_segmentation_3.0'',
            sg_min_duration = seconds_to_ms (min_duration_seconds (overlap_detection c)),
            sg_merge_gap = seconds_to_ms (merge_gap_seconds (overlap_detection c))\<rparr>;
          recognizer = \<lparr>wh_transcribe = lm_whisper m (compute_type (asr c)), wh_detect = lm_whisper_detect m,
            wh_version = version ''faster_whisper'', wh_language = rec_language (asr c), wh_min_word_ms = 20\<rparr>;
          embedder = \<lparr>cm_model = lm_campplus m, cm_version = version ''3d_speaker_campplus'',
            cm_minimum_speech_ms = seconds_to_ms (minimum_clean_speech_seconds (speaker_embedding_cfg c)),
            cm_target_speech_ms = seconds_to_ms (target_clean_speech_seconds (speaker_embedding_cfg c))\<rparr>
      in \<lparr>port_decode = (\<lambda>payload. decode_audio
            ((lm_decoder m)\<lparr>fd_max_hours := max_file_hours (audio c), fd_max_bytes := DEFAULT_MAX_BYTES\<rparr>) check payload None),
          port_vad = silero_detect (lm_silero m) check,
          port_diarize = diarize diarizer check,
          port_detect_overlap = detect_overlap detector check,
          port_transcribe = whisper_transcribe recognizer check,
          port_detect_language = whisper_detect_language recognizer check,
          port_embed = (\<lambda>b speech origin minimum track. campplus_embed embedder check b (Some speech) origin track minimum),
          port_separator = Some \<lparr>sep_backend = ''mossformer2_ss_16k'',
            sep_separate = mossformer_separate (lm_mossformer m) (version ''mossformer2_ss_16k'') check\<rparr>,
          port_three_source_separator =
            (if three_source_beta (product c) then Some \<lparr>sep_backend = ''sepformer_libri3mix'',
               sep_separate = sepformer_separate (lm_sepformer m) (lm_resample_poly m)
                 (version ''sepformer_libri3mix'') check\<rparr> else None),
          port_identify = None, port_assignment = lm_assignment m,
          diarizer_version = version ''pyannote-community-1'', embedder_version = version ''3d_speaker_campplus'',
          recognizer_version = version ''faster_whisper''\<rparr>)"

text \<open>\<open>names\<close> are the keys of the dictionary of manifests.\<close>

definition unpinned_backends :: "string list \<Rightarrow> (string \<Rightarrow> model_manifest option) \<Rightarrow> string list" where
  "unpinned_backends names manifests =
     sort (filter (\<lambda>n. case manifests n of None \<Rightarrow> False | Some x \<Rightarrow> \<not> is_pinned x) names)"

definition build_real_engine ::
  "loaded_models \<Rightarrow> unit res \<Rightarrow> string list \<Rightarrow> (string \<Rightarrow> model_manifest option) res \<Rightarrow> config \<Rightarrow> 'c engine res" where
  "build_real_engine m check names loaded c =
     bindR loaded (\<lambda>manifests.
     bindR (constructed m ''diarizer'' (diar_model_path (diarization c))) (\<lambda>_.
     bindR (constructed m ''overlap_detector'' (osd_model_path (overlap_detection c))) (\<lambda>_.
     bindR (constructed m ''recognizer'' (realtime_model_path (asr c))) (\<lambda>_.
     bindR (constructed m ''embedder'' (emb_model_path (speaker_embedding_cfg c))) (\<lambda>_.
     bindR (constructed m ''separator'' (two_source_model_path (separation c))) (\<lambda>_.
     bindR (if three_source_beta (product c)
            then constructed m ''three_source_separator'' (three_source_model_path (separation c)) else Inr ()) (\<lambda>_.
     bindR (lm_load m ''vad'' []) (\<lambda>_.
     let unpinned = unpinned_backends names manifests in
       Inr \<lparr>en_name = ''real'', en_config = c,
            en_adapters = (\<lambda>_. Inr (real_ports m check (manifest_version manifests) c)), en_ready = True,
            en_detail = ''Milestone 1 adapters on pinned weights.''
              @ (if unpinned = [] then [] else '' Unpinned backends present: '' @ join '', '' unpinned @ ''.'')\<rparr>))))))))"

section \<open>The application\<close>

definition DEFAULT_DEV_TENANT :: string where "DEFAULT_DEV_TENANT = ''tenant_dev''"

definition dev_tenant :: "environment \<Rightarrow> string option \<Rightarrow> string res" where
  "dev_tenant env x_tenant_id =
     (if is_production env then Inl (HttpError 500) else Inr (or_else x_tenant_id DEFAULT_DEV_TENANT))"

text \<open>\<open>environment if isinstance(environment, Environment) else Environment(environment)\<close>.\<close>

definition environment_of :: "environment + string \<Rightarrow> environment res" where
  "environment_of given =
     (case given of
        Inl e \<Rightarrow> Inr e
      | Inr t \<Rightarrow>
          if t = ''development'' then Inr DEVELOPMENT
          else if t = ''staging'' then Inr STAGING
          else if t = ''production'' then Inr PRODUCTION
          else Inl ValueError)"

text \<open>
  \<open>create_app\<close> up to the engine: \<open>load\<close> is \<open>load_config\<close> with the shipped file, manifests and overlay;
  \<open>sastt_engine\<close> is the environment variable, if set. The stores it chooses are the ports of the service.
\<close>

definition create_app ::
  "fake_environment \<Rightarrow> loaded_models \<Rightarrow> unit res \<Rightarrow> string list \<Rightarrow> (string \<Rightarrow> model_manifest option) res \<Rightarrow>
     (environment \<Rightarrow> config res) \<Rightarrow> string option \<Rightarrow> config option \<Rightarrow> string option \<Rightarrow> environment + string \<Rightarrow>
     (environment \<times> scenario engine) res" where
  "create_app v m check names manifests load sastt_engine config engine_name given =
     bindR (environment_of given) (\<lambda>env.
     let chosen = or_else engine_name (case sastt_engine of None \<Rightarrow> ''fake'' | Some e \<Rightarrow> e) in
     bindR (case config of Some c \<Rightarrow> Inr c | None \<Rightarrow> load env) (\<lambda>c.
     bindR (guardR (is_production env) (Sastt ConfigurationError)) (\<lambda>_.
     bindR (if chosen = ''fake'' then Inr (build_fake_engine v check c)
            else build_real_engine m check names manifests c) (\<lambda>e.
       Inr (env, e)))))"

section \<open>Probes\<close>

fun environment_value :: "environment \<Rightarrow> string" where
  "environment_value DEVELOPMENT = ''development''"
| "environment_value STAGING = ''staging''"
| "environment_value PRODUCTION = ''production''"

fun action_value :: "production_action \<Rightarrow> string" where
  "action_value Allow = ''allow''"
| "action_value ProductionCandidate = ''production_candidate''"
| "action_value BetaOnly = ''beta_only''"
| "action_value Phase2 = ''phase_2''"
| "action_value Experimental = ''experimental''"
| "action_value Deny = ''deny''"

definition model_item :: "model_manifest \<Rightarrow> json" where
  "model_item x =
     JObj [(''backend'', JStr (mm_backend x)), (''pinned'', JBool (is_pinned x)),
           (''revision'', json_opt JStr (mm_revision x)),
           (''production_action'', JStr (action_value (production_action x)))]"

text \<open>\<open>manifests\<close> are the values of the dictionary, \<open>version\<close> the version text of a configuration.\<close>

definition readyz :: "(config \<Rightarrow> string) \<Rightarrow> environment \<Rightarrow> 'c engine \<Rightarrow> model_manifest list res \<Rightarrow> json res" where
  "readyz version env e manifests =
     bindR manifests (\<lambda>ms.
       Inr (JObj [
         (''status'', JStr (if en_ready e then ''ready'' else ''not_ready'')),
         (''engine'', JStr (en_name e)), (''engine_detail'', JStr (en_detail e)),
         (''environment'', JStr (environment_value env)), (''config_version'', JStr (version (en_config e))),
         (''max_session_speakers'', JInt (max_session_speakers (product (en_config e)))),
         (''max_supported_concurrent_speakers'', JInt (max_supported_concurrent_speakers (product (en_config e)))),
         (''models'', JList (map model_item (sort_key mm_backend ms)))]))"

section \<open>Demo scenarios\<close>

text \<open>\<open>files\<close>: the parsed scenario files by stem, in the order of their names.\<close>

definition scenario_item :: "string \<times> scenario \<Rightarrow> (string \<times> json) list res" where
  "scenario_item = (\<lambda>(name, sc).
     bindR (overlap_intervals sc 300 200) (\<lambda>regions.
       Inr [(''name'', JStr name), (''title'', JStr (sc_name sc)), (''speakers'', JList (map JStr (sc_speakers sc))),
            (''duration_ms'', JInt (sc_duration_ms sc)), (''overlap_regions'', JInt (int (length regions)))]))"

definition list_scenarios :: "(string \<times> scenario) list \<Rightarrow> json res" where
  "list_scenarios files =
     bindR (mapR scenario_item files) (\<lambda>items. Inr (JObj [(''scenarios'', JList (map JObj items))]))"

end
