(* ===== verification/EngineProps.thy ===== *)
theory EngineProps
  imports Engine FakeProps DiarizerProps PipelineRun
begin

text \<open>
  What the wired service keeps: the models of either engine report overlap where the timeline allows it, so
  that the transcript of a job is what it should be without an assumption on the models; there is no
  application in production; and the real engine starts on weights that no manifest pins.
\<close>

section \<open>The fake separator as a port\<close>

lemma fake_separate_stateless:
  assumes "\<not> fp_alternate_order p" and "\<not> fp_fail_first_call p"
  shows "snd (fake_separate p check b requested calls) = snd (fake_separate p check b requested 0)"
proof -
  have same: "present_speakers p n b xs = present_speakers p k b xs" for n k xs
    using assms(1) by (simp add: present_speakers_def cong: option.case_cong)
  show ?thesis
    using assms(2) same[of "Suc calls" _ "Suc 0"]
    by (cases check) (simp_all add: fake_separate_def bindS_def liftS_def modifyS_def readS_def)
qed

section \<open>Regions of the engines\<close>

lemma diarize_regions_valid:
  assumes "diarize d check buf lo hi = Inr r"
  shows "\<forall>g\<in>set (overlap_regions r). valid_interval (region_interval g)"
proof -
  from assms obtain anns where ts: "turns_from_annotation anns (buf_start_ms buf) Regular = Inr (regular_tracks r)"
    and regions: "overlap_regions r = overlap_regions_from_turns (regular_tracks r) (pd_version d)"
    by (auto simp: diarize_def bindR_eq_Inr Let_def)
  show ?thesis unfolding regions using turns_valid(2)[OF ts] by (intro regions_exact(3)) blast
qed

lemma detected_regions_valid:
  assumes "detect_overlap g check buf = Inr osd"
  shows "\<forall>r\<in>set osd. valid_interval (region_interval r)"
proof -
  from assms obtain timeline intervals where
    intervals: "mapR (\<lambda>(first, final). mk_interval (buf_start_ms buf + trunc (first * 1000))
      (buf_start_ms buf + max 1 (trunc (final * 1000)))) timeline = Inr intervals"
    and osd: "osd = map (overlap_region_of (sg_version g))
      (filter (\<lambda>i. sg_min_duration g \<le> duration_ms i) (merge_intervals intervals (sg_merge_gap g)))"
    by (auto simp: detect_overlap_def bindR_eq_Inr Let_def)
  have "\<forall>i\<in>set intervals. valid_interval i"
    using mapR_set[OF intervals] by (fastforce simp: valid_interval_def split: prod.splits)
  then show ?thesis
    unfolding osd using merge_intervals_valid by (auto simp: overlap_region_of_def)
qed

lemma create_app_engines:
  assumes "create_app v m check names manifests load sastt_engine config engine_name given = Inr (env, e)"
  obtains (fake) c where "e = build_fake_engine v check c" and "env \<noteq> PRODUCTION"
    | (real) c where "build_real_engine m check names manifests c = Inr e" and "env \<noteq> PRODUCTION"
  using assms by (auto simp: create_app_def bindR_eq_Inr Let_def is_production_def split: if_splits)

lemma engine_ports:
  assumes "create_app v m check names manifests load sastt_engine config engine_name given = Inr (env, e)"
    and "en_adapters e scenario = Inr ports"
  obtains (fake) c sc where "ports = fake_ports v check c sc"
    | (real) c version where "ports = real_ports m check version c"
  using assms(1)
proof (cases rule: create_app_engines)
  case fake
  then show ?thesis using assms(2) that(1) by (auto simp: build_fake_engine_def split: option.splits)
next
  case real
  then show ?thesis using assms(2) that(2) by (auto simp: build_real_engine_def bindR_eq_Inr Let_def)
qed

lemma engine_regions_valid:
  assumes "create_app v m check names manifests load sastt_engine config engine_name given = Inr (env, e)"
    and "en_adapters e scenario = Inr ports"
    and "port_diarize ports b lo hi = Inr d" and "port_detect_overlap ports b = Inr osd"
  shows "\<forall>r\<in>set (overlap_regions d @ osd). valid_interval (region_interval r)"
  using assms(1,2)
proof (cases rule: engine_ports)
  case fake
  then show ?thesis
    using assms(3,4) fake_regions_valid fake_overlap_valid(1)
    by (fastforce simp: fake_ports_def Let_def)
next
  case real
  then show ?thesis
    using assms(3,4) diarize_regions_valid detected_regions_valid
    by (fastforce simp: real_ports_def Let_def)
qed

text \<open>
  C2: The transcript of a job on the wired service. Whatever the models return, for each engine that the
  application can be started with: a run that succeeds has decoded the payload and found overlap
  regions on the timeline; it has taken the session of the job from its empty state by session operations
  only, so that the session invariant holds in the end and at most the session limit and the unattributed sink are
  counted; its segments are the final order of one faithful run of segments per word group; and each group
  has the words of one piece of speech outside overlap, without a speaker of its own, or of a part of one
  overlap region.
\<close>

theorem engine_transcript:
  assumes "create_app v m check names manifests load sastt_engine config engine_name given = Inr (env, e)"
    and "en_adapters e scenario = Inr ports"
    and "pl_ports p = ports\<lparr>port_identify := identify\<rparr>"
    and "offline_run p pin payload job sid None report w = (w', Inr r)"
  shows "\<exists>asset d regions speech st groups parts. port_decode ports payload = Inr asset
    \<and> diarization_stage p (mono_16k asset) = Inr (d, regions)
    \<and> (\<forall>g\<in>set regions. valid_interval (region_interval g))
    \<and> port_vad ports (mono_16k asset) = Inr speech
    \<and> session_run (new_session (or_else sid (case job of None \<Rightarrow> ''job_local'' | Some j \<Rightarrow> j)) (pl_config p)
        (embedder_version ports)) st
    \<and> or_session_speakers r = active_speaker_count st
    \<and> or_session_speakers r \<le> max 0 (max_session_speakers (product (pl_config p))) + 1
    \<and> or_segments r = sort_segments (concat parts)
    \<and> list_all2 (faithful_run st) groups parts
    \<and> (\<forall>g\<in>set groups. placed_group speech regions g)"
proof -
  obtain asset d regions where asset: "decode_stage p payload = Inr asset"
    and found: "diarization_stage p (mono_16k asset) = Inr (d, regions)"
    using assms(4) by (auto simp: offline_run_def Let_def action_simps)
  have diarized: "port_diarize ports (mono_16k asset) (min_speakers (diarization (pl_config p)))
      (max_speakers (diarization (pl_config p))) = Inr d"
    using found assms(3) by (auto simp: diarization_stage_def Let_def bindR_eq_Inr)
  note valid = engine_regions_valid[OF assms(1,2) diarized]
  from transcript_of_a_job[OF assms(4) asset found] valid assms(3) obtain speech st groups parts where
    rest: "port_vad ports (mono_16k asset) = Inr speech"
      "session_run (new_session (or_else sid (case job of None \<Rightarrow> ''job_local'' | Some j \<Rightarrow> j)) (pl_config p)
        (embedder_version ports)) st"
      "or_session_speakers r = active_speaker_count st"
      "or_session_speakers r \<le> max 0 (max_session_speakers (product (pl_config p))) + 1"
      "or_segments r = sort_segments (concat parts)" "list_all2 (faithful_run st) groups parts"
      "\<forall>g\<in>set groups. placed_group speech regions g"
    by auto
  moreover have "port_decode ports payload = Inr asset"
    using asset assms(3) by (auto simp: decode_stage_def bindR_eq_Inr split: if_splits)
  moreover have "\<forall>g\<in>set regions. valid_interval (region_interval g)"
    using diarized_regions_valid[OF found] valid assms(3) by simp
  ultimately show ?thesis using found by blast
qed

section \<open>Where the service starts\<close>

lemma no_application_in_production:
  "create_app v m check names manifests load sastt_engine config engine_name (Inl PRODUCTION) \<noteq> Inr (env, e)"
  by (auto simp: create_app_def environment_of_def is_production_def bindR_eq_Inr Let_def)

lemma tenant_of_the_application:
  assumes "create_app v m check names manifests load sastt_engine config engine_name given = Inr (env, e)"
  shows "dev_tenant env header = Inr (or_else header ''tenant_dev'')"
  using assms by (cases rule: create_app_engines) (auto simp: dev_tenant_def is_production_def DEFAULT_DEV_TENANT_def)

text \<open>The pins of the manifests do not decide whether the real engine starts, only what its outputs name.\<close>

lemma engine_ignores_pins:
  assumes "build_real_engine m check names (Inr manifests) c = Inr e"
  shows "\<exists>e'. build_real_engine m check names (Inr Map.empty) c = Inr e' \<and> en_ready e'
    \<and> (\<forall>scenario. \<exists>ports. en_adapters e' scenario = Inr ports
         \<and> embedder_version ports = ''3d_speaker_campplus@unpinned'')"
  using assms by (auto simp: build_real_engine_def bindR_eq_Inr Let_def real_ports_def manifest_version_def)

section \<open>An example\<close>

text \<open>Two silent samples on the fake engine.\<close>

definition quiet_environment :: fake_environment where
  "quiet_environment = \<lparr>fk_fourier = first_bin, fk_unit_vector = (\<lambda>_. [1]), fk_sha256 = (\<lambda>_. ''f''),
     fk_assignment = diagonal\<rparr>"

definition quiet_pipeline :: pipeline where
  "quiet_pipeline = demo_pipeline\<lparr>pl_ports := fake_ports quiet_environment (Inr ()) default_config two_turns\<rparr>"

definition quiet_buffer :: audio_buffer where
  "quiet_buffer = \<lparr>samples = [[Fin 0, Fin 0]], sample_rate = 16000, start_sample = 0, channel_layout = [''mono''],
     source_clock_hz = 16000\<rparr>"

lemma quiet_silence: "le16 0 0 = 0"
  by (simp add: le16_def)

lemma quiet_decoded:
  "\<exists>a. decode_stage quiet_pipeline [0, 0, 0, 0] = Inr a \<and> mono_16k a = quiet_buffer"
  by (simp add: decode_stage_def quiet_pipeline_def fake_ports_def Let_def decode_raw_def two_turns_def
      quiet_silence deinterleave_def raw_layout_def mk_audio_buffer_def rectangular_def row_length_def
      MIN_CHANNELS_def MAX_CHANNELS_def CANONICAL_SAMPLE_RATE_def to_mono_def is_mono_def num_channels_def
      measure_quality_def mk_audio_asset_def asset_duration_ms_def buf_duration_ms_def buf_start_ms_def
      buf_end_ms_def end_sample_def num_samples_def to_ms_def MS_PER_SECOND_def demo_pipeline_def
      default_config_def quiet_buffer_def)

lemma quiet_frames: "frames quiet_buffer = Inr []"
  by (simp add: frames_def quiet_buffer_def FRAME_MS_def ms_to_samples_def to_samples_def MS_PER_SECOND_def
      to_mono_def is_mono_def num_channels_def chunks_def)

lemma quiet_diarized:
  "\<exists>d. diarization_stage quiet_pipeline quiet_buffer = Inr (d, []) \<and> regular_tracks d = []"
  by (simp add: diarization_stage_def quiet_pipeline_def fake_ports_def Let_def fake_diarize_def fake_detect_overlap_def
      quiet_frames tracks_def mixed_frames_def merge_overlap_regions_def)

lemma quiet_transcribed: "transcription_stage quiet_pipeline pin quiet_buffer [] = Inr (pin, [], [], [])"
  by (simp add: transcription_stage_def quiet_pipeline_def fake_ports_def Let_def fake_vad_def quiet_frames
      resolve_session_language_def demo_pipeline_def transcribe_non_overlap_def subtract_intervals_def)

lemma quiet_built:
  "regular_tracks d = [] \<Longrightarrow> runS (build_global_speakers quiet_pipeline d [] quiet_buffer) st = Inr (st, ())"
  by (simp add: build_global_speakers_def cluster_ids_def per_cluster_def overlapping_clusters_def runS_eq_Inr
      bindS_def returnS_def)

abbreviation quiet_session :: session_state where
  "quiet_session \<equiv> new_session ''job_local'' (pl_config quiet_pipeline) (embedder_version (pl_ports quiet_pipeline))"

lemma quiet_linked: "runS (linking_stage quiet_pipeline) quiet_session = Inr (quiet_session, ())"
  by (simp add: linking_stage_def reconcile_temporary_speakers_def runS_eq_Inr bindS_def readS_def returnS_def
      updateS_def prototypes_def active_def new_session_def prototypes_of_def map_filter_simps apply_registry_def
      quiet_pipeline_def fake_ports_def finalize_unresolved_def Let_def)

lemma quiet_fused: "runS (fusion_stage quiet_pipeline session d []) st = Inr (st, [])"
  by (simp add: fusion_stage_def runS_eq_Inr bindS_def updateS_def fuse_def coalesce_def
      assert_concurrency_preserved_def returnS_def sort_segments_def)

lemma quiet_run:
  "\<exists>r. offline_run quiet_pipeline no_pin [0, 0, 0, 0] None None None (\<lambda>_. returnS ()) () = ((), Inr r)"
proof -
  obtain a where a: "decode_stage quiet_pipeline [0, 0, 0, 0] = Inr a" "mono_16k a = quiet_buffer"
    using quiet_decoded by blast
  obtain d where d: "diarization_stage quiet_pipeline quiet_buffer = Inr (d, [])" "regular_tracks d = []"
    using quiet_diarized by blast
  have still: "runS (returnS x) st = Inr (st, x)" for x and st :: session_state
    by (simp add: runS_eq_Inr returnS_def)
  show ?thesis
    by (simp add: offline_run_def Let_def bindS_def liftS_def returnS_def a d quiet_built quiet_transcribed
        quiet_linked quiet_fused still)
qed

theorem engine_transcript_witness:
  "\<exists>r st groups parts.
     offline_run quiet_pipeline no_pin [0, 0, 0, 0] None None None (\<lambda>_. returnS ()) () = ((), Inr r)
     \<and> session_run quiet_session st \<and> or_segments r = sort_segments (concat parts)
     \<and> list_all2 (faithful_run st) groups parts"
proof -
  obtain r where run: "offline_run quiet_pipeline no_pin [0, 0, 0, 0] None None None (\<lambda>_. returnS ()) () = ((), Inr r)"
    using quiet_run by blast
  have app: "create_app quiet_environment m (Inr ()) [] (Inr Map.empty) (\<lambda>_. Inr default_config) None None None
      (Inr ''development'') = Inr (DEVELOPMENT, build_fake_engine quiet_environment (Inr ()) default_config)" for m
    by (simp add: create_app_def environment_of_def is_production_def)
  have ports: "pl_ports quiet_pipeline
      = (fake_ports quiet_environment (Inr ()) default_config two_turns)\<lparr>port_identify := None\<rparr>"
    by (simp add: quiet_pipeline_def fake_ports_def Let_def)
  have adapters: "en_adapters (build_fake_engine quiet_environment (Inr ()) default_config) (Some two_turns)
      = Inr (fake_ports quiet_environment (Inr ()) default_config two_turns)"
    by (simp add: build_fake_engine_def)
  from engine_transcript[OF app adapters ports run] run show ?thesis
    by (fastforce simp: ports)
qed

end
